(* ===== verification/Prelude.thy ===== *)
theory Prelude
  imports
    Complex_Main
    "HOL-Library.AList"
    "HOL-Library.Multiset"
    "HOL-Library.List_Lexorder"
    "HOL-Library.Char_ord"
    "HOL-Library.Product_Lexorder"
begin

text \<open>
  Shared vocabulary of the development: the exceptions the modelled modules raise,
  the sum-typed results that carry them, Python dictionaries as association lists
  in insertion order, and the generic list lemmas the components use.
\<close>

text \<open>
  Two collections: \<open>inr\<close> holds the inversions of a result that did not raise, \<open>frame\<close>
  the reads that an update of another table leaves alone.
\<close>

named_theorems inr and frame

section \<open>Exceptions as values\<close>

text \<open>
  One constructor per exception class raised by the modelled code.  Messages are
  dropped; the arguments a caller can branch on are kept.
\<close>

datatype err =
    ValueError
  | InvariantViolation
  | InvalidOperation
  | MultipleResultsFound
  | NoResultFound
  | AssertionError
  | KeyError
  | IndexError
  | OverflowError
  | InexactApportionError
  | UnknownJurisdictionError
  | UnknownSickLeaveJurisdiction
  | AmbiguousPrimaryError
  | AmbiguousAssignmentError
  | MixedExemptionError
  | AmbiguousRateError
  | BelowStatutoryFloorError
  | MissingBaseRateError
  | CorruptRateError
  | UnattributableHoursError
  | FiscalCalendarNotConfigured
  | InventoryNotConfigured
  | InventoryInconsistent
  | UnmappedGlError "(string \<times> string \<times> string) list"
  | ChartAccountMissingError "string list"
  | SystemRoleMissingError string
  | PeriodClosedError string string
  | NoFactsError
  | IntegrityError
  | SettlementRefused
  | SettlementNotFound
  | PayRunBlocked
  | PayRunConflict
  | SealedFieldError string
  | ProviderError string
  | StoreError
  | KeycloakAdminConflict
  | KeycloakAdminError
  | RuntimeError
  | HTTPException nat

text \<open>Which of them \<^verbatim>\<open>except RateError\<close> and \<^verbatim>\<open>except ValueError\<close> catch.\<close>

fun is_RateError :: "err \<Rightarrow> bool" where
  "is_RateError AmbiguousRateError = True"
| "is_RateError BelowStatutoryFloorError = True"
| "is_RateError MissingBaseRateError = True"
| "is_RateError CorruptRateError = True"
| "is_RateError _ = False"

type_synonym 'a res = "err + 'a"

definition bindE :: "'a res \<Rightarrow> ('a \<Rightarrow> 'b res) \<Rightarrow> 'b res" where
  "bindE r f = (case r of Inl e \<Rightarrow> Inl e | Inr x \<Rightarrow> f x)"

definition guardE :: "bool \<Rightarrow> err \<Rightarrow> unit res" where
  "guardE c e = (if c then Inr () else Inl e)"

text \<open>\<^verbatim>\<open>require\<close> and \<^verbatim>\<open>require_not_none\<close> of \<^verbatim>\<open>usali/invariants.py\<close>.\<close>

definition require :: "bool \<Rightarrow> unit res" where
  "require condition = (if \<not> condition then Inl InvariantViolation else Inr ())"

definition require_not_none :: "'a option \<Rightarrow> 'a res" where
  "require_not_none v = (case v of None \<Rightarrow> Inl InvariantViolation | Some x \<Rightarrow> Inr x)"

text \<open>A comprehension or loop whose body may raise stops at the first exception.\<close>

fun mapE :: "('a \<Rightarrow> 'b res) \<Rightarrow> 'a list \<Rightarrow> 'b list res" where
  "mapE f [] = Inr []"
| "mapE f (x # xs) = bindE (f x) (\<lambda>y. bindE (mapE f xs) (\<lambda>ys. Inr (y # ys)))"

fun foldE :: "('a \<Rightarrow> 's \<Rightarrow> 's res) \<Rightarrow> 'a list \<Rightarrow> 's \<Rightarrow> 's res" where
  "foldE f [] s = Inr s"
| "foldE f (x # xs) s = bindE (f x s) (foldE f xs)"

text \<open>\<^verbatim>\<open>try: ... except\<close>: a caught exception becomes a value, any other passes through.\<close>

definition catchE :: "(err \<Rightarrow> bool) \<Rightarrow> 'a res \<Rightarrow> (err + 'a) res" where
  "catchE caught r = (case r of Inl e \<Rightarrow> if caught e then Inr (Inl e) else Inl e | Inr x \<Rightarrow> Inr (Inr x))"

text \<open>\<^verbatim>\<open>.scalar_one_or_none()\<close> and \<^verbatim>\<open>.scalar_one()\<close> on the rows of a query.\<close>

definition scalar_one_or_none :: "'a list \<Rightarrow> 'a option res" where
  "scalar_one_or_none rows =
     (case rows of [] \<Rightarrow> Inr None | [r] \<Rightarrow> Inr (Some r) | _ \<Rightarrow> Inl MultipleResultsFound)"

lemma bindE_simps [simp]:
  "bindE (Inl e) f = Inl e"
  "bindE (Inr x) f = f x"
  by (simp_all add: bindE_def)

lemma bindE_eq_Inr_iff [inr]: "bindE r f = Inr y \<longleftrightarrow> (\<exists>x. r = Inr x \<and> f x = Inr y)"
  by (cases r) auto

lemma bindE_eq_Inl_iff:
  "bindE r f = Inl e \<longleftrightarrow> r = Inl e \<or> (\<exists>x. r = Inr x \<and> f x = Inl e)"
  by (cases r) auto

lemma guardE_eq_Inr_iff [simp]: "guardE c e = Inr u \<longleftrightarrow> c"
  by (cases u) (simp add: guardE_def)

lemma require_eq_Inr_iff [simp]: "require c = Inr u \<longleftrightarrow> c"
  by (cases u) (simp add: require_def)

lemma require_not_none_eq_Inr_iff [simp]: "require_not_none v = Inr x \<longleftrightarrow> v = Some x"
  by (cases v) (simp_all add: require_not_none_def)

lemma mapE_eq_Inr_iff:
  "mapE f xs = Inr ys \<longleftrightarrow> list_all2 (\<lambda>x y. f x = Inr y) xs ys"
proof (induction xs arbitrary: ys)
  case Nil
  then show ?case by auto
next
  case (Cons x xs)
  then show ?case
    by (cases ys) (auto simp: bindE_eq_Inr_iff)
qed

lemma find_SomeD: "find P xs = Some x \<Longrightarrow> x \<in> set xs \<and> P x"
  by (auto simp: find_Some_iff)

lemma mapE_set: "mapE f xs = Inr ys \<Longrightarrow> y \<in> set ys \<longleftrightarrow> (\<exists>x \<in> set xs. f x = Inr y)"
  by (induction xs arbitrary: ys) (auto simp: bindE_eq_Inr_iff)

lemma mapE_pairs:
  assumes "mapE (\<lambda>(k, v). map_sum id (Pair k) (f v)) kvs = Inr ys"
  shows "(e, r) \<in> set ys \<longleftrightarrow> (\<exists>v. (e, v) \<in> set kvs \<and> f v = Inr r)"
  using assms
proof (induction kvs arbitrary: ys)
  case (Cons kv kvs)
  then show ?case by (cases kv; cases "f (snd kv)") (auto simp: bindE_eq_Inr_iff)
qed auto

lemma mapE_pair_defined:
  assumes "mapE (\<lambda>(k, v). map_sum id (Pair k) (f v)) kvs = Inr ys" "(k, v) \<in> set kvs"
  shows "\<exists>r. f v = Inr r"
  using assms
proof (induction kvs arbitrary: ys)
  case (Cons kv kvs)
  then show ?case by (cases "f v") (auto simp: bindE_eq_Inr_iff)
qed auto

lemma mapE_Inr_map: "(\<And>x. x \<in> set xs \<Longrightarrow> f x = Inr (g x)) \<Longrightarrow> mapE f xs = Inr (map g xs)"
  by (induction xs) auto

lemma foldE_append: "foldE f (xs @ ys) s = bindE (foldE f xs s) (foldE f ys)"
proof (induction xs arbitrary: s)
  case Nil
  then show ?case by simp
next
  case (Cons x xs)
  then show ?case by (cases "f x s") auto
qed

lemma foldE_invariant:
  assumes "foldE f xs s = Inr s'" and "P s"
    and "\<And>x s s'. x \<in> set xs \<Longrightarrow> P s \<Longrightarrow> f x s = Inr s' \<Longrightarrow> P s'"
  shows "P s'"
  using assms
proof (induction xs arbitrary: s)
  case Nil
  then show ?case by simp
next
  case (Cons x xs)
  from Cons.prems(1) obtain t where "f x s = Inr t" and "foldE f xs t = Inr s'"
    by (auto simp: bindE_eq_Inr_iff)
  with Cons show ?case by (metis list.set_intros)
qed

section \<open>Decimal strings\<close>

text \<open>\<^verbatim>\<open>str\<close> of an integer.\<close>

fun str_nat :: "nat \<Rightarrow> string" where
  "str_nat n = (if n < 10 then [char_of (48 + n)] else str_nat (n div 10) @ [char_of (48 + n mod 10)])"

declare str_nat.simps [simp del]

definition str_int :: "int \<Rightarrow> string" where
  "str_int i = (if i < 0 then ''-'' @ str_nat (nat (- i)) else str_nat (nat i))"

section \<open>Dictionaries\<close>

text \<open>
  A Python dictionary is an association list with distinct keys in insertion order;
  \<open>AList.update\<close> replaces in place or appends, as \<^verbatim>\<open>d[k] = v\<close> does.
\<close>

type_synonym ('k, 'v) dict = "('k \<times> 'v) list"

definition dict_get :: "('k, 'v) dict \<Rightarrow> 'k \<Rightarrow> 'v \<Rightarrow> 'v" where
  "dict_get d k dflt = (case map_of d k of None \<Rightarrow> dflt | Some v \<Rightarrow> v)"

definition dict_index :: "('k, 'v) dict \<Rightarrow> 'k \<Rightarrow> 'v res" where
  "dict_index d k = (case map_of d k of None \<Rightarrow> Inl KeyError | Some v \<Rightarrow> Inr v)"

text \<open>\<^verbatim>\<open>d[k] = d.get(k, 0) + v\<close>\<close>

definition dict_add :: "'k \<Rightarrow> 'v::comm_monoid_add \<Rightarrow> ('k, 'v) dict \<Rightarrow> ('k, 'v) dict" where
  "dict_add k v d = AList.update k (dict_get d k 0 + v) d"

text \<open>\<^verbatim>\<open>d.setdefault(k, []).append(v)\<close>\<close>

definition dict_append :: "'k \<Rightarrow> 'v \<Rightarrow> ('k, 'v list) dict \<Rightarrow> ('k, 'v list) dict" where
  "dict_append k v d = AList.update k (dict_get d k [] @ [v]) d"

definition dict_sum :: "('k, 'v::comm_monoid_add) dict \<Rightarrow> 'v" where
  "dict_sum d = sum_list (map snd d)"

abbreviation keys :: "('k, 'v) dict \<Rightarrow> 'k list" where
  "keys d \<equiv> map fst d"

lemma dict_get_simps [simp]:
  "dict_get [] k z = z"
  "dict_get ((a, v) # d) k z = (if a = k then v else dict_get d k z)"
  by (simp_all add: dict_get_def)

lemma dict_sum_simps [simp]:
  "dict_sum [] = 0"
  "dict_sum ((k, v) # d) = v + dict_sum d"
  by (simp_all add: dict_sum_def)

lemma dict_get_not_key [simp]: "k \<notin> set (keys d) \<Longrightarrow> dict_get d k z = z"
  by (induction d) auto

lemma dict_get_update [simp]:
  "dict_get (AList.update k v d) j z = (if j = k then v else dict_get d j z)"
  by (induction d) auto

lemma keys_update [simp]: "fst ` set (AList.update k v d) = insert k (fst ` set d)"
  by (induction d) auto

lemma distinct_keys_update [simp]:
  "distinct (keys d) \<Longrightarrow> distinct (keys (AList.update k v d))"
  by (rule distinct_update)

lemma dict_sum_update:
  fixes v :: "'v::ab_group_add"
  assumes "distinct (keys d)"
  shows "dict_sum (AList.update k v d) = dict_sum d - dict_get d k 0 + v"
  using assms by (induction d) (auto simp: algebra_simps)

lemma dict_sum_add [simp]:
  fixes v :: "'v::ab_group_add"
  shows "distinct (keys d) \<Longrightarrow> dict_sum (dict_add k v d) = dict_sum d + v"
  by (simp add: dict_add_def dict_sum_update)

lemma keys_dict_add [simp]: "fst ` set (dict_add k v d) = insert k (fst ` set d)"
  by (simp add: dict_add_def)

lemma distinct_keys_dict_add [simp]:
  "distinct (keys d) \<Longrightarrow> distinct (keys (dict_add k v d))"
  by (simp add: dict_add_def)

lemma dict_get_add [simp]:
  "dict_get (dict_add k v d) j 0 = (if j = k then dict_get d k 0 + v else dict_get d j 0)"
  by (simp add: dict_add_def)

lemma keys_dict_append [simp]: "fst ` set (dict_append k v d) = insert k (fst ` set d)"
  by (simp add: dict_append_def)

lemma distinct_keys_dict_append [simp]:
  "distinct (keys d) \<Longrightarrow> distinct (keys (dict_append k v d))"
  by (simp add: dict_append_def)

lemma dict_get_append [simp]:
  "dict_get (dict_append k v d) j [] = (if j = k then dict_get d k [] @ [v] else dict_get d j [])"
  by (simp add: dict_append_def)

lemma dict_get_map_of: "distinct (keys d) \<Longrightarrow> (k, v) \<in> set d \<Longrightarrow> dict_get d k z = v"
  by (simp add: dict_get_def map_of_is_SomeI)

lemma dict_get_eqI: "distinct (keys d) \<Longrightarrow> x \<in> set d \<Longrightarrow> dict_get d (fst x) z = snd x"
  by (cases x) (simp add: dict_get_map_of)

lemma dict_get_nonneg:
  fixes d :: "('k, 'v::linordered_ab_group_add) dict"
  assumes "\<forall>v \<in> set (map snd d). 0 \<le> v" "distinct (keys d)"
  shows "0 \<le> dict_get d k 0"
proof (cases "k \<in> set (keys d)")
  case True
  then obtain v where "(k, v) \<in> set d" by auto
  with assms show ?thesis by (force simp: dict_get_map_of)
qed simp

section \<open>Sums and sorted prefixes\<close>

lemma sum_list_map_eq_sum_distinct:
  "distinct xs \<Longrightarrow> sum_list (map f xs) = (\<Sum>x\<in>set xs. f x)"
  by (rule sum_list_distinct_conv_sum_set)

lemma sum_list_map_perm:
  fixes f :: "'a \<Rightarrow> 'b::comm_monoid_add"
  shows "mset xs = mset ys \<Longrightarrow> sum_list (map f xs) = sum_list (map f ys)"
  by (metis mset_map sum_mset_sum_list)

lemma sum_list_sort_key [simp]:
  fixes f :: "'a \<Rightarrow> 'b::comm_monoid_add"
  shows "sum_list (map f (sort_key g xs)) = sum_list (map f xs)"
  by (rule sum_list_map_perm) simp

section \<open>Grouping\<close>

text \<open>The loop \<^verbatim>\<open>for x in xs: groups.setdefault(f(x), []).append(x)\<close>.\<close>

definition group_by :: "('a \<Rightarrow> 'k) \<Rightarrow> 'a list \<Rightarrow> ('k, 'a list) dict" where
  "group_by f xs = fold (\<lambda>x d. dict_append (f x) x d) xs []"

lemma group_by_fold:
  assumes "distinct (keys d)"
  shows "dict_get (fold (\<lambda>x d. dict_append (f x) x d) xs d) k [] = dict_get d k [] @ filter (\<lambda>x. f x = k) xs"
    and "set (keys (fold (\<lambda>x d. dict_append (f x) x d) xs d)) = set (keys d) \<union> f ` set xs"
    and "distinct (keys (fold (\<lambda>x d. dict_append (f x) x d) xs d))"
  using assms by (induction xs arbitrary: d) auto

lemma group_by_simps:
  "dict_get (group_by f xs) k [] = filter (\<lambda>x. f x = k) xs"
  "set (keys (group_by f xs)) = f ` set xs"
  "fst ` set (group_by f xs) = f ` set xs"
  "distinct (keys (group_by f xs))"
  using group_by_fold [of "[]" f xs] by (simp_all add: group_by_def)

lemma group_by_entry: "(k, v) \<in> set (group_by f xs) \<longleftrightarrow> k \<in> f ` set xs \<and> v = filter (\<lambda>x. f x = k) xs"
proof
  assume kv: "(k, v) \<in> set (group_by f xs)"
  then have "dict_get (group_by f xs) k [] = v" by (rule dict_get_map_of [OF group_by_simps(4)])
  moreover have "k \<in> set (keys (group_by f xs))" using kv by force
  ultimately show "k \<in> f ` set xs \<and> v = filter (\<lambda>x. f x = k) xs" by (simp add: group_by_simps)
next
  assume r: "k \<in> f ` set xs \<and> v = filter (\<lambda>x. f x = k) xs"
  then have "k \<in> set (keys (group_by f xs))" by (simp add: group_by_simps)
  then obtain w where w: "(k, w) \<in> set (group_by f xs)" by auto
  then have "dict_get (group_by f xs) k [] = w" by (rule dict_get_map_of [OF group_by_simps(4)])
  with w r show "(k, v) \<in> set (group_by f xs)" by (simp add: group_by_simps)
qed

lemma mset_concat_groups:
  assumes "distinct ks"
  shows "mset (concat (map (\<lambda>k. filter (\<lambda>x. f x = k) xs) ks)) = mset (filter (\<lambda>x. f x \<in> set ks) xs)"
  using assms
proof (induction ks)
  case Nil
  then show ?case by simp
next
  case (Cons k ks)
  have "mset (filter (\<lambda>x. f x \<in> set (k # ks)) xs)
      = mset (filter (\<lambda>x. f x = k) xs) + mset (filter (\<lambda>x. f x \<in> set ks) xs)"
    using Cons.prems by (induction xs) auto
  with Cons show ?case by simp
qed

lemma sorted_concatI:
  assumes "sorted ks" "distinct ks"
    and "\<And>k. k \<in> set ks \<Longrightarrow> sorted (g k)"
    and "\<And>k k' x y. k < k' \<Longrightarrow> x \<in> set (g k) \<Longrightarrow> y \<in> set (g k') \<Longrightarrow> x \<le> y"
  shows "sorted (concat (map g ks))"
  using assms
proof (induction ks)
  case Nil
  then show ?case by simp
next
  case (Cons k ks)
  have lt: "k < k'" if "k' \<in> set ks" for k' using Cons.prems(1,2) that by (auto simp: order_less_le)
  have "\<forall>x \<in> set (g k). \<forall>y \<in> set (concat (map g ks)). x \<le> y"
    using Cons.prems(4) [OF lt] by auto
  with Cons show ?case by (simp add: sorted_append)
qed

text \<open>Sorting within groups and then across monotone group keys sorts the whole.\<close>

lemma concat_sorted_groups:
  fixes f :: "'a::linorder \<Rightarrow> 'k::linorder"
  assumes "mono f"
  shows "concat (map (\<lambda>k. sort (filter (\<lambda>x. f x = k) xs)) (sort (keys (group_by f xs)))) = sort xs"
proof (rule properties_for_sort [symmetric])
  let ?ks = "sort (keys (group_by f xs))"
  have ks: "distinct ?ks" "set ?ks = f ` set xs" "sorted ?ks"
    by (simp_all add: group_by_simps)
  have "mset (concat (map (\<lambda>k. sort (filter (\<lambda>x. f x = k) xs)) ?ks))
      = mset (concat (map (\<lambda>k. filter (\<lambda>x. f x = k) xs) ?ks))"
    by (simp add: mset_concat comp_def)
  also have "\<dots> = mset (filter (\<lambda>x. f x \<in> set ?ks) xs)"
    by (rule mset_concat_groups [OF ks(1)])
  also have "filter (\<lambda>x. f x \<in> set ?ks) xs = xs"
    unfolding ks(2) by (simp add: filter_id_conv)
  finally show "mset (concat (map (\<lambda>k. sort (filter (\<lambda>x. f x = k) xs)) ?ks)) = mset xs" .
  show "sorted (concat (map (\<lambda>k. sort (filter (\<lambda>x. f x = k) xs)) ?ks))"
  proof (rule sorted_concatI [OF ks(3,1)])
    fix k k' x y
    assume "k < k'" "x \<in> set (sort (filter (\<lambda>x. f x = k) xs))" "y \<in> set (sort (filter (\<lambda>x. f x = k') xs))"
    then have "f x < f y" by auto
    then show "x \<le> y" using assms by (metis linorder_not_less monoD nle_le)
  qed simp
qed

section \<open>Ranks in sorted prefixes\<close>

lemma length_filter_mono:
  "(\<And>x. x \<in> set xs \<Longrightarrow> P x \<Longrightarrow> Q x) \<Longrightarrow> length (filter P xs) \<le> length (filter Q xs)"
  by (induction xs) auto

text \<open>
  An element among the first \<open>n\<close> of a sorted list has fewer than \<open>n\<close> elements
  strictly below it.
\<close>

lemma take_sort_key_rank:
  assumes "x \<in> set (take n (sort_key f xs))"
  shows "length (filter (\<lambda>y. f y < f x) xs) < n"
proof -
  let ?ys = "sort_key f xs"
  from assms obtain i where i: "i < n" "i < length ?ys" "?ys ! i = x"
    by (auto simp: in_set_conv_nth)
  have srt: "sorted (map f ?ys)" by simp
  have "filter (\<lambda>y. f y < f x) (drop i ?ys) = []"
  proof -
    have "\<not> f y < f x" if "y \<in> set (drop i ?ys)" for y
    proof -
      from that obtain j where j: "i + j < length ?ys" "?ys ! (i + j) = y"
        by (metis add.commute in_set_conv_nth length_drop less_diff_conv nth_drop order_less_imp_le i(2))
      have "map f ?ys ! i \<le> map f ?ys ! (i + j)"
        using srt by (rule sorted_nth_mono) (use j in auto)
      with i j show ?thesis by simp
    qed
    then show ?thesis by (simp add: filter_empty_conv)
  qed
  then have "filter (\<lambda>y. f y < f x) ?ys = filter (\<lambda>y. f y < f x) (take i ?ys)"
    by (metis append_Nil2 append_take_drop_id filter_append)
  then have "length (filter (\<lambda>y. f y < f x) ?ys) \<le> i"
    using i by (metis length_filter_le length_take min.absorb2 order_trans nat_less_le)
  moreover have "length (filter (\<lambda>y. f y < f x) ?ys) = length (filter (\<lambda>y. f y < f x) xs)"
    by (metis mset_filter mset_sort size_mset)
  ultimately show ?thesis using i by simp
qed

lemma filter_le_sorted_nth:
  fixes xs :: "'a::linorder list"
  assumes "sorted xs" "distinct xs" "i < length xs"
  shows "filter (\<lambda>y. y \<le> xs ! i) xs = take (Suc i) xs" and "filter (\<lambda>y. y < xs ! i) xs = take i xs"
proof -
  have lt: "j < i \<Longrightarrow> xs ! j < xs ! i" for j
    using assms by (metis nth_eq_iff_index_eq order_less_imp_le order_less_le order_less_le_trans sorted_nth_mono)
  have gt: "i < j \<Longrightarrow> j < length xs \<Longrightarrow> xs ! i < xs ! j" for j
    using assms by (metis nth_eq_iff_index_eq order_less_imp_le order_less_le sorted_nth_mono)
  have split: "xs = take i xs @ xs ! i # drop (Suc i) xs"
    using assms(3) by (rule id_take_nth_drop)
  have a: "\<forall>y \<in> set (take i xs). y < xs ! i"
    using lt assms(3) by (auto simp: in_set_conv_nth)
  have b: "\<forall>y \<in> set (drop (Suc i) xs). xs ! i < y"
    using gt assms(3) by (auto simp: in_set_conv_nth)
  have fa: "filter (\<lambda>y. y \<le> xs ! i) (take i xs) = take i xs" "filter (\<lambda>y. y < xs ! i) (take i xs) = take i xs"
    using a by (auto simp: filter_id_conv intro: order_less_imp_le)
  have fb: "filter (\<lambda>y. y \<le> xs ! i) (drop (Suc i) xs) = []" "filter (\<lambda>y. y < xs ! i) (drop (Suc i) xs) = []"
    using b by (auto simp: filter_empty_conv not_le)
  have "filter (\<lambda>y. y \<le> xs ! i) xs = filter (\<lambda>y. y \<le> xs ! i) (take i xs @ xs ! i # drop (Suc i) xs)"
    using split by argo
  then show "filter (\<lambda>y. y \<le> xs ! i) xs = take (Suc i) xs"
    using fa fb assms(3) by (simp add: take_Suc_conv_app_nth)
  have "filter (\<lambda>y. y < xs ! i) xs = filter (\<lambda>y. y < xs ! i) (take i xs @ xs ! i # drop (Suc i) xs)"
    using split by argo
  then show "filter (\<lambda>y. y < xs ! i) xs = take i xs"
    using fa fb by simp
qed

section \<open>Keys\<close>

lemma find_unique:
  assumes "distinct (map f xs)" "x \<in> set xs"
  shows "find (\<lambda>y. f y = f x) xs = Some x"
  using assms by (induction xs) (auto simp: image_iff)

lemma distinct_sort_key_keys: "distinct (map f (sort_key g xs)) = distinct (map f xs)"
proof -
  have "mset (map f (sort_key g xs)) = mset (map f xs)" by simp
  then show ?thesis by (metis mset_eq_imp_distinct_iff)
qed

section \<open>Postconditions\<close>

text \<open>A postcondition of a result that did not raise, and the rules to walk a definition with it.\<close>

definition yields :: "('a \<Rightarrow> bool) \<Rightarrow> 'a res \<Rightarrow> bool" where
  "yields P r \<longleftrightarrow> (\<forall>x. r = Inr x \<longrightarrow> P x)"

lemma yieldsD: "yields P r \<Longrightarrow> r = Inr x \<Longrightarrow> P x"
  by (simp add: yields_def)

lemma yields_bind: "(\<And>x. r = Inr x \<Longrightarrow> yields P (f x)) \<Longrightarrow> yields P (bindE r f)"
  by (auto simp: yields_def inr)

lemma yields_Inr: "P x \<Longrightarrow> yields P (Inr x)"
  by (simp add: yields_def)

lemma yields_if: "(c \<Longrightarrow> yields P a) \<Longrightarrow> (\<not> c \<Longrightarrow> yields P b) \<Longrightarrow> yields P (if c then a else b)"
  by simp

lemma yields_option: "(v = None \<Longrightarrow> yields P a) \<Longrightarrow> (\<And>x. v = Some x \<Longrightarrow> yields P (f x)) \<Longrightarrow> yields P (case v of None \<Rightarrow> a | Some x \<Rightarrow> f x)"
  by (cases v) auto

lemma yields_sum: "(\<And>x. v = Inl x \<Longrightarrow> yields P (f x)) \<Longrightarrow> (\<And>x. v = Inr x \<Longrightarrow> yields P (g x)) \<Longrightarrow> yields P (case v of Inl x \<Rightarrow> f x | Inr x \<Rightarrow> g x)"
  by (cases v) auto

lemmas yields_rules = yields_bind yields_Inr yields_if yields_option yields_sum

lemma catchE_inr: "catchE c r = Inr (Inl e) \<Longrightarrow> r = Inl e" "catchE c r = Inr (Inr x) \<Longrightarrow> r = Inr x"
  by (auto simp: catchE_def split: sum.splits if_splits)

end
