(* ===== verification/PyDecimal.thy ===== *)
theory PyDecimal
  imports Prelude
begin

text \<open>
  Python's \<^verbatim>\<open>decimal.Decimal\<close> as far as the program uses it.  A finite decimal is the
  rational it denotes.  Sums, differences and products are the exact rational ones:
  the default context rounds to 28 significant digits, and \<open>ctx_fixes_decimal\<close>
  and \<open>numeric_15_4_exact\<close> below show that the values of the
  program's \<^verbatim>\<open>Numeric(15, 4)\<close> and narrower columns, their sums and their products
  are not changed by that rounding.  Division, which is inexact, is
  rounded by the context (\<open>ddiv\<close>), and \<^verbatim>\<open>quantize\<close> raises \<open>InvalidOperation\<close>
  when its result needs more than 28 digits.
\<close>

type_synonym decimal = rat

datatype rounding = ROUND_DOWN | ROUND_UP | ROUND_HALF_UP | ROUND_HALF_EVEN

definition prec :: nat where
  "prec = 28"

section \<open>Rounding to an integer\<close>

definition half_even :: "rat \<Rightarrow> int" where
  "half_even x =
     (let f = \<lfloor>x\<rfloor>; d = x - of_int f
      in if d < 1/2 then f else if 1/2 < d then f + 1 else if even f then f else f + 1)"

definition round_int :: "rounding \<Rightarrow> rat \<Rightarrow> int" where
  "round_int m x =
     (case m of
        ROUND_DOWN \<Rightarrow> (if 0 \<le> x then \<lfloor>x\<rfloor> else \<lceil>x\<rceil>)
      | ROUND_UP \<Rightarrow> (if 0 \<le> x then \<lceil>x\<rceil> else \<lfloor>x\<rfloor>)
      | ROUND_HALF_UP \<Rightarrow> (if 0 \<le> x then \<lfloor>x + 1/2\<rfloor> else \<lceil>x - 1/2\<rceil>)
      | ROUND_HALF_EVEN \<Rightarrow> half_even x)"

lemma floor_rat_numeral [simp]:
  "\<lfloor>numeral a / numeral b :: rat\<rfloor> = numeral a div numeral b"
  "\<lfloor>1 / numeral b :: rat\<rfloor> = 1 div numeral b"
  using floor_divide_of_int_eq [of "numeral a" "numeral b", where 'a = rat]
    floor_divide_of_int_eq [of 1 "numeral b", where 'a = rat] by simp_all

lemma half_even_of_int [simp]: "half_even (of_int n) = n"
  by (simp add: half_even_def)

lemma half_even_error: "\<bar>of_int (half_even x) - x\<bar> \<le> 1/2"
proof -
  have "of_int \<lfloor>x\<rfloor> \<le> x" "x < of_int \<lfloor>x\<rfloor> + 1"
    by linarith+
  then show ?thesis
    unfolding half_even_def Let_def by (simp add: abs_le_iff split: if_split)
qed

lemma round_int_of_int [simp]: "round_int m (of_int n) = n"
proof (cases m)
  case ROUND_HALF_UP
  have "\<lfloor>(of_int n :: rat) + 1/2\<rfloor> = n" "\<lceil>(of_int n :: rat) - 1/2\<rceil> = n"
    by linarith+
  with ROUND_HALF_UP show ?thesis by (simp add: round_int_def)
qed (simp_all add: round_int_def)

lemma round_int_error: "\<bar>of_int (round_int m x) - x\<bar> < 1"
proof (cases m)
  case ROUND_HALF_EVEN
  then show ?thesis using half_even_error [of x] by (simp add: round_int_def)
next
  case ROUND_DOWN
  then show ?thesis by (simp add: round_int_def) linarith
next
  case ROUND_UP
  then show ?thesis by (simp add: round_int_def) linarith
next
  case ROUND_HALF_UP
  then show ?thesis by (simp add: round_int_def) linarith
qed

lemma round_int_nonneg: "0 \<le> x \<Longrightarrow> 0 \<le> round_int m x"
proof -
  assume x: "0 \<le> x"
  then have "0 \<le> \<lfloor>x\<rfloor>" "0 \<le> \<lceil>x\<rceil>" "0 \<le> \<lfloor>x + 1/2\<rfloor>"
    by linarith+
  with x show ?thesis
    by (cases m) (auto simp: round_int_def half_even_def Let_def)
qed

section \<open>The context: 28 significant digits\<close>

text \<open>\<open>dec_exp x\<close> is the position of the leading digit: \<open>10^e \<le> \<bar>x\<bar> < 10^(e+1)\<close>.\<close>

lemma floor_tenth_less:
  fixes y :: rat
  assumes "1 < y"
  shows "\<lfloor>y / 10\<rfloor> < \<lfloor>y\<rfloor>" "0 < \<lfloor>y\<rfloor>"
proof -
  show pos: "0 < \<lfloor>y\<rfloor>" using assms by linarith
  show "\<lfloor>y / 10\<rfloor> < \<lfloor>y\<rfloor>"
  proof (cases "y < 10")
    case True
    then have "\<lfloor>y / 10\<rfloor> \<le> 0" using assms by linarith
    with pos show ?thesis by linarith
  next
    case False
    then show ?thesis by linarith
  qed
qed

function dexp_up :: "rat \<Rightarrow> int" where
  "dexp_up x = (if x < 10 then 0 else 1 + dexp_up (x / 10))"
  by pat_completeness auto
termination
proof (relation "measure (\<lambda>x. nat \<lfloor>x\<rfloor>)")
  fix x :: rat
  assume "\<not> x < 10"
  then have "\<lfloor>x / 10\<rfloor> < \<lfloor>x\<rfloor>" "0 < \<lfloor>x\<rfloor>"
    by linarith+
  then show "(x / 10, x) \<in> measure (\<lambda>x. nat \<lfloor>x\<rfloor>)"
    by simp
qed simp

function dexp_dn :: "rat \<Rightarrow> int" where
  "dexp_dn x = (if 1 \<le> x \<or> x \<le> 0 then 0 else dexp_dn (10 * x) - 1)"
  by pat_completeness auto
termination
proof (relation "measure (\<lambda>x. nat \<lfloor>1 / x\<rfloor>)")
  fix x :: rat
  assume "\<not> (1 \<le> x \<or> x \<le> 0)"
  then have "1 < 1 / x" and eq: "1 / (10 * x) = (1 / x) / 10"
    by (simp_all add: field_simps)
  then have "\<lfloor>1 / (10 * x)\<rfloor> < \<lfloor>1 / x\<rfloor>" "0 < \<lfloor>1 / x\<rfloor>"
    by (simp_all only: eq floor_tenth_less)
  then show "(10 * x, x) \<in> measure (\<lambda>x. nat \<lfloor>1 / x\<rfloor>)"
    by simp
qed simp

declare dexp_up.simps [simp del] dexp_dn.simps [simp del]

definition dec_exp :: "rat \<Rightarrow> int" where
  "dec_exp x = (if 1 \<le> \<bar>x\<bar> then dexp_up \<bar>x\<bar> else dexp_dn \<bar>x\<bar>)"

definition ctx :: "rat \<Rightarrow> decimal" where
  "ctx x = (if x = 0 then 0
            else let u = 10 powi (dec_exp x - (int prec - 1)) in of_int (half_even (x / u)) * u)"

definition ddiv :: "decimal \<Rightarrow> decimal \<Rightarrow> decimal" where
  "ddiv x y = ctx (x / y)"

definition quantize :: "decimal \<Rightarrow> decimal \<Rightarrow> rounding \<Rightarrow> decimal res" where
  "quantize x q m =
     (let c = round_int m (x / q)
      in if \<bar>c\<bar> < 10 ^ prec then Inr (of_int c * q) else Inl InvalidOperation)"

text \<open>The quantised value where the 28-digit limit cannot be reached.\<close>

definition quantized :: "decimal \<Rightarrow> decimal \<Rightarrow> rounding \<Rightarrow> decimal" where
  "quantized x q m = of_int (round_int m (x / q)) * q"

lemma dexp_up_bounds: "1 \<le> x \<Longrightarrow> 10 powi (dexp_up x) \<le> x \<and> x < 10 powi (dexp_up x + 1)"
proof (induction x rule: dexp_up.induct)
  case (1 x)
  show ?case
  proof (cases "x < 10")
    case True
    with "1.prems" show ?thesis by (simp add: dexp_up.simps)
  next
    case False
    then have "1 \<le> x / 10" by simp
    with False "1.IH" have ih: "10 powi dexp_up (x / 10) \<le> x / 10"
      "x / 10 < 10 powi (dexp_up (x / 10) + 1)" by auto
    have eq: "dexp_up x = dexp_up (x / 10) + 1"
      using False by (subst dexp_up.simps) simp
    from ih show ?thesis
      by (auto simp: eq power_int_add field_simps)
  qed
qed

lemma dexp_dn_bounds:
  "0 < x \<Longrightarrow> x < 10 \<Longrightarrow> 10 powi (dexp_dn x) \<le> x \<and> x < 10 powi (dexp_dn x + 1)"
proof (induction x rule: dexp_dn.induct)
  case (1 x)
  show ?case
  proof (cases "1 \<le> x")
    case True
    with "1.prems" show ?thesis by (simp add: dexp_dn.simps)
  next
    case False
    with "1.prems" "1.IH" have ih: "10 powi dexp_dn (10 * x) \<le> 10 * x"
      "10 * x < 10 powi (dexp_dn (10 * x) + 1)" by auto
    have eq: "dexp_dn x = dexp_dn (10 * x) - 1"
      using False "1.prems" by (subst dexp_dn.simps) simp
    have p: "(10::rat) powi (dexp_dn (10 * x) - 1) * 10 = 10 powi (dexp_dn (10 * x))"
      by (simp add: power_int_diff)
    from ih show ?thesis
      by (auto simp: eq p power_int_add power_int_diff field_simps)
  qed
qed

lemma dec_exp_bounds:
  assumes "x \<noteq> 0"
  shows "10 powi dec_exp x \<le> \<bar>x\<bar>" and "\<bar>x\<bar> < 10 powi (dec_exp x + 1)"
  using assms dexp_up_bounds [of "\<bar>x\<bar>"] dexp_dn_bounds [of "\<bar>x\<bar>"]
  by (auto simp: dec_exp_def)

lemma dec_exp_less:
  assumes "x \<noteq> 0" "\<bar>x\<bar> < 10 powi k"
  shows "dec_exp x < k"
proof (rule ccontr)
  assume "\<not> dec_exp x < k"
  then have "(10::rat) powi k \<le> 10 powi dec_exp x"
    by (intro power_int_increasing) auto
  with dec_exp_bounds(1) [OF assms(1)] assms(2) show False by simp
qed

text \<open>The relative rounding error of the context is at most \<open>10^-27 / 2\<close>.\<close>

lemma ctx_error: "\<bar>ctx x - x\<bar> \<le> \<bar>x\<bar> / (2 * 10 ^ 27)"
proof (cases "x = 0")
  case True
  then show ?thesis by (simp add: ctx_def)
next
  case False
  define u :: rat where "u = 10 powi (dec_exp x - (int prec - 1))"
  have u: "0 < u" by (simp add: u_def)
  have "ctx x = of_int (half_even (x / u)) * u"
    using False by (simp add: ctx_def u_def Let_def)
  then have "ctx x - x = (of_int (half_even (x / u)) - x / u) * u"
    using u by (simp add: field_simps)
  then have "\<bar>ctx x - x\<bar> \<le> 1/2 * u"
    using half_even_error [of "x / u"] u by (simp add: abs_mult mult_right_mono)
  also have "u * 10 ^ 27 = 10 powi dec_exp x"
    by (simp add: u_def prec_def power_int_diff)
  then have "u * 10 ^ 27 \<le> \<bar>x\<bar>"
    using dec_exp_bounds(1) [OF False] by simp
  then have "1/2 * u \<le> \<bar>x\<bar> / (2 * 10 ^ 27)"
    by (simp add: field_simps)
  finally show ?thesis .
qed

lemma ctx_0 [simp]: "ctx 0 = 0"
  by (simp add: ctx_def)

lemma ctx_nonneg: "0 \<le> x \<Longrightarrow> 0 \<le> ctx x"
  using round_int_nonneg [of "x / 10 powi (dec_exp x - (int prec - 1))" ROUND_HALF_EVEN]
  by (simp add: ctx_def Let_def round_int_def)

lemma ddiv_nonneg: "0 \<le> x \<Longrightarrow> 0 \<le> y \<Longrightarrow> 0 \<le> ddiv x y"
  by (simp add: ddiv_def ctx_nonneg)

text \<open>A decimal with at most 28 digits is a fixed point of the context.\<close>

lemma ctx_fixes_decimal:
  assumes "\<bar>c\<bar> < 10 ^ prec"
  shows "ctx (of_int c * 10 powi p) = of_int c * 10 powi p"
proof (cases "c = 0")
  case True
  then show ?thesis by simp
next
  case False
  let ?x = "of_int c * 10 powi p :: rat"
  have nz: "?x \<noteq> 0" using False by simp
  have "(of_int \<bar>c\<bar> :: rat) < of_int (10 ^ prec)"
    using assms by (simp only: of_int_less_iff)
  then have "\<bar>?x\<bar> < 10 ^ prec * 10 powi p"
    by (simp add: abs_mult)
  also have "\<dots> = 10 powi (int prec + p)"
    by (simp add: power_int_add)
  finally have e: "dec_exp ?x < int prec + p"
    by (rule dec_exp_less [OF nz])
  define k where "k = nat (p - (dec_exp ?x - (int prec - 1)))"
  define u :: rat where "u = 10 powi (dec_exp ?x - (int prec - 1))"
  have u: "u \<noteq> 0" by (simp add: u_def)
  from e have k: "int k = p - (dec_exp ?x - (int prec - 1))"
    by (simp add: k_def)
  have "10 powi p = u * 10 powi (int k)"
    unfolding u_def by (simp add: k flip: power_int_add)
  then have "?x / u = of_int c * 10 ^ k"
    using u by simp
  then have "half_even (?x / u) = c * 10 ^ k"
    by (metis half_even_of_int of_int_mult of_int_numeral of_int_power)
  then have "ctx ?x = of_int (c * 10 ^ k) * u"
    using nz by (simp add: ctx_def u_def)
  also have "\<dots> = ?x"
    using \<open>10 powi p = u * 10 powi (int k)\<close> by simp
  finally show ?thesis .
qed

lemma ctx_of_int: "\<bar>c\<bar> < 10 ^ prec \<Longrightarrow> ctx (of_int c) = of_int c"
  using ctx_fixes_decimal [of c 0] by simp

text \<open>
  Sums, differences and products of \<^verbatim>\<open>Numeric(15, 4)\<close> amounts with 2-place hours
  never reach the context's limit.
\<close>

definition numeric_15_4 :: "decimal \<Rightarrow> bool" where
  "numeric_15_4 x \<longleftrightarrow> (\<exists>c. x = of_int c / 10 ^ 4 \<and> \<bar>c\<bar> < 10 ^ 15)"

definition hours_2dp :: "decimal \<Rightarrow> bool" where
  "hours_2dp x \<longleftrightarrow> (\<exists>c. x = of_int c / 10 ^ 2 \<and> \<bar>c\<bar> < 10 ^ 10)"

lemma ctx_scaled:
  assumes "x = of_int c / 10 ^ k" "\<bar>c\<bar> < 10 ^ prec"
  shows "ctx x = x"
proof -
  have "x = of_int c * 10 powi (- int k)"
    using assms(1) by (simp add: power_int_minus field_simps)
  then show ?thesis using ctx_fixes_decimal [OF assms(2)] by metis
qed

lemma numeric_15_4_exact:
  assumes "numeric_15_4 x" "numeric_15_4 y" "hours_2dp h"
  shows "ctx (x + y) = x + y" "ctx (x - y) = x - y" "ctx (h * x) = h * x"
proof -
  from assms obtain a b c where
    a: "x = of_int a / 10 ^ 4" "\<bar>a\<bar> < 10 ^ 15" and
    b: "y = of_int b / 10 ^ 4" "\<bar>b\<bar> < 10 ^ 15" and
    c: "h = of_int c / 10 ^ 2" "\<bar>c\<bar> < 10 ^ 10"
    unfolding numeric_15_4_def hours_2dp_def by blast
  show "ctx (x + y) = x + y"
    by (rule ctx_scaled [of _ "a + b" 4]) (use a b in \<open>auto simp: prec_def add_divide_distrib\<close>)
  show "ctx (x - y) = x - y"
    by (rule ctx_scaled [of _ "a - b" 4]) (use a b in \<open>auto simp: prec_def diff_divide_distrib\<close>)
  have "\<bar>c * a\<bar> < 10 ^ 10 * 10 ^ 15"
    unfolding abs_mult by (rule mult_strict_mono') (use a(2) c(2) in auto)
  moreover have "h * x = of_int (c * a) / 10 ^ 6"
    by (simp add: a(1) c(1))
  ultimately show "ctx (h * x) = h * x"
    by (intro ctx_scaled [of _ "c * a" 6]) (simp_all add: prec_def)
qed

section \<open>Quantising\<close>

lemma quantize_quantized:
  "\<bar>round_int m (x / q)\<bar> < 10 ^ prec \<Longrightarrow> quantize x q m = Inr (quantized x q m)"
  by (simp add: quantize_def quantized_def Let_def)

lemma quantized_multiple [simp]: "q \<noteq> 0 \<Longrightarrow> quantized (of_int n * q) q m = of_int n * q"
  by (simp add: quantized_def)

lemma quantized_0 [simp]: "quantized 0 q m = 0"
  using round_int_of_int [of m 0] by (simp add: quantized_def)

lemma quantized_error:
  assumes "0 < q"
  shows "\<bar>quantized x q m - x\<bar> < q"
proof -
  have "quantized x q m - x = (of_int (round_int m (x / q)) - x / q) * q"
    using assms by (simp add: quantized_def field_simps)
  then show ?thesis
    using round_int_error [of m "x / q"] assms by (simp add: abs_mult)
qed

lemma quantized_nonneg: "0 < q \<Longrightarrow> 0 \<le> x \<Longrightarrow> 0 \<le> quantized x q m"
  using round_int_nonneg [of "x / q" m] by (simp add: quantized_def)

text \<open>
  Truncating a quotient that the context has rounded still gives the floor, as long
  as numerator and denominator are far below the 28-digit limit.
\<close>

lemma floor_ctx_quotient:
  fixes a b p :: int
  assumes "0 \<le> a" "0 < b" "a < 10 ^ 27"
  defines "t \<equiv> of_int a / of_int b * (10 powi p :: rat)"
  shows "\<lfloor>ctx t / 10 powi p\<rfloor> = a div b"
    and "ctx t = of_int (a div b) * 10 powi p \<longleftrightarrow> a mod b = 0"
proof -
  let ?q = "10 powi p :: rat"
  have q: "0 < ?q" by simp
  have b: "(0::rat) < of_int b" using assms(2) by simp
  have ab: "a = b * (a div b) + a mod b" and r: "0 \<le> a mod b" "a mod b < b"
    using assms(2) by simp_all
  have tq: "t / ?q = of_int (a div b) + of_int (a mod b) / of_int b"
  proof -
    have "of_int a / of_int b = of_int (a div b) + (of_int (a mod b) :: rat) / of_int b"
      using b by (metis ab add_divide_distrib mult.commute nonzero_eq_divide_eq of_int_add
          of_int_mult order_less_irrefl)
    then show ?thesis by (simp add: t_def)
  qed
  have "\<bar>ctx t - t\<bar> \<le> t / (2 * 10 ^ 27)"
    using ctx_error [of t] assms(1,2) by (simp add: t_def)
  also have "\<dots> < ?q / of_int b"
  proof -
    have "(of_int a :: rat) < 10 ^ 27"
      using assms(3) by (metis of_int_less_iff of_int_numeral of_int_power)
    then have "of_int a / (2 * 10 ^ 27) < (1 :: rat)" by simp
    then have "of_int a / (2 * 10 ^ 27) * (?q / of_int b) < 1 * (?q / of_int b)"
      using q b by (intro mult_strict_right_mono) auto
    then show ?thesis by (simp add: t_def)
  qed
  finally have "\<bar>ctx t / ?q - t / ?q\<bar> < 1 / of_int b"
    using q by (simp add: abs_less_iff field_simps)
  then have close: "ctx t / ?q < t / ?q + 1 / of_int b" "t / ?q - 1 / of_int b < ctx t / ?q"
    by linarith+
  have "\<lfloor>ctx t / ?q\<rfloor> = a div b \<and> (ctx t = of_int (a div b) * ?q \<longleftrightarrow> a mod b = 0)"
  proof (cases "a mod b = 0")
    case True
    have "a div b \<le> a" using assms(1,2) by (simp add: int_div_less_self zdiv_mono2 [of a 1 b, simplified])
    then have "\<bar>a div b\<bar> < 10 ^ prec"
      using assms by (simp add: prec_def pos_imp_zdiv_nonneg_iff)
    moreover have "t = of_int (a div b) * ?q"
      using tq True q by (simp add: field_simps)
    ultimately have "ctx t = of_int (a div b) * ?q"
      using ctx_fixes_decimal by simp
    then show ?thesis using True by simp
  next
    case False
    then have r1: "1 \<le> a mod b" "a mod b + 1 \<le> b" using r by linarith+
    have "(of_int (a mod b) + 1) / of_int b \<le> (1 :: rat)"
      using r1(2) b by (metis divide_le_eq_1_pos of_int_1 of_int_add of_int_le_iff)
    then have up: "ctx t / ?q < of_int (a div b) + 1"
      using close(1) tq by (simp add: add_divide_distrib)
    have "(1 :: rat) / of_int b \<le> of_int (a mod b) / of_int b"
      using r1(1) b by (intro divide_right_mono) auto
    then have lo: "of_int (a div b) < ctx t / ?q"
      using close(2) tq by linarith
    from up lo have "\<lfloor>ctx t / ?q\<rfloor> = a div b" by linarith
    moreover from lo q have "ctx t \<noteq> of_int (a div b) * ?q" by (auto simp: field_simps)
    ultimately show ?thesis using False by simp
  qed
  then show "\<lfloor>ctx t / ?q\<rfloor> = a div b" "ctx t = of_int (a div b) * ?q \<longleftrightarrow> a mod b = 0"
    by simp_all
qed

end
