(* ===== verification/Apportion.thy ===== *)
theory Apportion
  imports PyDecimal
begin

text \<open>
  \<^verbatim>\<open>usali/apportion.py\<close>: exact proportional splitting by largest remainder.  Every
  other component that divides minutes, hours or money calls this one function.
\<close>

section \<open>The routine\<close>

text \<open>
  \<open>kstr\<close> is \<^verbatim>\<open>str\<close> on the caller's key type, the key both sorts use.
\<close>

definition apportion ::
  "('k \<Rightarrow> string) \<Rightarrow> decimal \<Rightarrow> ('k, decimal) dict \<Rightarrow> decimal \<Rightarrow> ('k, decimal) dict res" where
  "apportion kstr tot weights quantum =
    (let ks = sort_key kstr (keys weights) in
     if ks = [] then Inr []
     else
       let basis = dict_sum weights in
       if basis \<le> 0 then Inr (map (\<lambda>k. (k, 0)) ks)
       else if tot = 0 then Inr (map (\<lambda>k. (k, 0)) ks)
       else
         bindE (quantize tot quantum ROUND_DOWN) (\<lambda>tq.
         if tot \<noteq> tq then Inl InexactApportionError
         else
           let sign = (if tot < 0 then - 1 else 1);
               magnitude = \<bar>tot\<bar>;
               exact = map (\<lambda>k. (k, ddiv (magnitude * dict_get weights k 0) basis)) ks
           in
           bindE (mapE (\<lambda>(k, v). map_sum id (Pair k) (quantize v quantum ROUND_DOWN)) exact) (\<lambda>shares.
             let shortfall = magnitude - dict_sum shares;
                 steps = half_even (ddiv shortfall quantum);
                 order = sort_key (\<lambda>k. (- (dict_get exact k 0 - dict_get shares k 0), kstr k)) ks;
                 shares' = (if steps > 0
                            then fold (\<lambda>k d. dict_add k quantum d) (take (nat steps) order) shares
                            else shares);
                 result = map (\<lambda>(k, v). (k, v * sign)) shares'
             in bindE (require (dict_sum result = tot)) (\<lambda>_. Inr result))))"

section \<open>What a fair split is\<close>

text \<open>
  The contract of the module docstring, with the largest-remainder quota rule: the
  shares sum exactly to the total, each one is a multiple of the quantum less than
  one quantum away from the exact proportional share and on the total's side of
  zero, and a key of zero weight gets zero.
\<close>

definition share_ok :: "decimal \<Rightarrow> ('k, decimal) dict \<Rightarrow> decimal \<Rightarrow> 'k \<Rightarrow> decimal \<Rightarrow> bool" where
  "share_ok tot weights quantum k s \<longleftrightarrow>
     \<bar>s - tot * dict_get weights k 0 / dict_sum weights\<bar> < quantum
   \<and> 0 \<le> s * tot
   \<and> of_int \<lfloor>s / quantum\<rfloor> * quantum = s
   \<and> (dict_get weights k 0 = 0 \<longrightarrow> s = 0)"

definition fair_split ::
  "('k \<Rightarrow> string) \<Rightarrow> decimal \<Rightarrow> ('k, decimal) dict \<Rightarrow> decimal \<Rightarrow> ('k, decimal) dict \<Rightarrow> bool" where
  "fair_split kstr tot weights quantum shares \<longleftrightarrow>
     keys shares = sort_key kstr (keys weights)
   \<and> dict_sum shares = tot
   \<and> (\<forall>(k, s) \<in> set shares. share_ok tot weights quantum k s)"

text \<open>
  The inputs the callers supply: distinct keys, non-negative weights that are whole
  multiples of a unit (minutes, or hundredths of an hour), a positive basis, a total
  of \<open>m\<close> quanta, and a product of the two sizes far below the 28-digit context.
\<close>

definition whole_weights :: "rat \<Rightarrow> ('k, decimal) dict \<Rightarrow> bool" where
  "whole_weights u ws \<longleftrightarrow>
     0 < u \<and> distinct (keys ws) \<and> (\<forall>w \<in> set (map snd ws). 0 \<le> w \<and> of_int \<lfloor>w / u\<rfloor> * u = w)"

definition splittable :: "rat \<Rightarrow> ('k, decimal) dict \<Rightarrow> int \<Rightarrow> bool" where
  "splittable u ws m \<longleftrightarrow>
     whole_weights u ws \<and> 0 < dict_sum ws \<and> \<bar>m\<bar> * \<lfloor>dict_sum ws / u\<rfloor> < 10 ^ 27"

section \<open>Counting remainders\<close>

lemma dict_get_fold_add:
  assumes "distinct xs"
  shows "dict_get (fold (\<lambda>k d. dict_add k q d) xs d) k 0 =
         dict_get d k 0 + (if k \<in> set xs then q else 0)"
  using assms by (induction xs arbitrary: d) auto

lemma dict_sum_fold_add:
  fixes q :: "'v::comm_ring_1"
  assumes "distinct (keys d)"
  shows "dict_sum (fold (\<lambda>k d. dict_add k q d) xs d) = dict_sum d + of_nat (length xs) * q"
  using assms by (induction xs arbitrary: d) (auto simp: algebra_simps)

lemma keys_fold_add:
  assumes "set xs \<subseteq> set (keys d)"
  shows "keys (fold (\<lambda>k d. dict_add k q d) xs d) = keys d"
proof -
  have upd: "k \<in> set (keys d) \<Longrightarrow> keys (dict_add k v d) = keys d" for k v and d :: "('k, 'v::comm_monoid_add) dict"
    by (simp add: dict_add_def update_keys)
  show ?thesis using assms
    by (induction xs arbitrary: d) (simp_all add: upd, metis list.set_map upd)
qed

text \<open>
  If remainders \<open>r x\<close> below \<open>n\<close> add up to \<open>n\<close> times \<open>c\<close>, then at least \<open>c\<close> of
  them are positive.
\<close>

lemma positive_remainders:
  fixes r :: "'a \<Rightarrow> int"
  assumes "\<And>x. x \<in> set xs \<Longrightarrow> 0 \<le> r x \<and> r x < n"
    and "0 < n" and "sum_list (map r xs) = n * c"
  shows "c \<le> int (length (filter (\<lambda>x. 0 < r x) xs))"
proof -
  have "sum_list (map r xs) \<le> n * int (length (filter (\<lambda>x. 0 < r x) xs))"
    using assms(1)
  proof (induction xs)
    case Nil
    then show ?case by simp
  next
    case (Cons x xs)
    then have "r x < n" "0 \<le> r x"
      "sum_list (map r xs) \<le> n * int (length (filter (\<lambda>x. 0 < r x) xs))" by auto
    then show ?case by (cases "0 < r x") (auto simp: algebra_simps)
  qed
  with assms(2,3) show ?thesis by simp
qed

lemma sum_div_mod_split:
  fixes f :: "'a \<Rightarrow> int"
  shows "sum_list (map f xs) = n * sum_list (map (\<lambda>x. f x div n) xs) + sum_list (map (\<lambda>x. f x mod n) xs)"
  by (induction xs) (auto simp: algebra_simps)

lemma dict_get_map_Pair: "k \<in> set ks \<Longrightarrow> dict_get (map (\<lambda>k. (k, f k)) ks) k z = f k"
  by (induction ks) auto

lemma insort_key_cong:
  "(\<And>y. y \<in> insert x (set xs) \<Longrightarrow> f y = g y) \<Longrightarrow> insort_key f x xs = insort_key g x xs"
  by (induction xs) auto

lemma sort_key_cong:
  "(\<And>x. x \<in> set xs \<Longrightarrow> f x = g x) \<Longrightarrow> sort_key f xs = sort_key g xs"
proof (induction xs)
  case (Cons x xs)
  then have "sort_key f (x # xs) = insort_key f x (sort_key g xs)" by simp
  also have "\<dots> = insort_key g x (sort_key g xs)"
    using Cons.prems by (intro insort_key_cong) auto
  finally show ?case by simp
qed simp

section \<open>Weights in units\<close>

definition units :: "rat \<Rightarrow> ('k, decimal) dict \<Rightarrow> 'k \<Rightarrow> int" where
  "units u ws k = \<lfloor>dict_get ws k 0 / u\<rfloor>"

lemma dict_sum_keys:
  assumes "distinct (keys d)"
  shows "dict_sum d = sum_list (map (\<lambda>k. dict_get d k 0) (keys d))"
proof -
  have "map snd d = map (\<lambda>x. dict_get d (fst x) 0) d"
    using dict_get_eqI [OF assms] by (auto intro: map_cong)
  then show ?thesis unfolding dict_sum_def by (simp only: map_map comp_def)
qed

lemma dict_sum_sorted_keys:
  "distinct (keys d) \<Longrightarrow> dict_sum d = sum_list (map (\<lambda>k. dict_get d k 0) (sort_key f (keys d)))"
  by (simp add: dict_sum_keys)

lemma weight_units:
  assumes "whole_weights u ws"
  shows "dict_get ws k 0 = of_int (units u ws k) * u" and "0 \<le> units u ws k"
proof -
  have "dict_get ws k 0 = of_int (units u ws k) * u \<and> 0 \<le> units u ws k"
  proof (cases "k \<in> set (keys ws)")
    case True
    then obtain w where w: "(k, w) \<in> set ws" by auto
    with assms have g: "dict_get ws k 0 = w"
      by (auto simp: whole_weights_def intro: dict_get_map_of)
    from assms w have "0 \<le> w" "of_int \<lfloor>w / u\<rfloor> * u = w" "0 < u"
      by (force simp: whole_weights_def)+
    then show ?thesis by (simp add: units_def g)
  next
    case False
    then show ?thesis by (simp add: units_def)
  qed
  then show "dict_get ws k 0 = of_int (units u ws k) * u" and "0 \<le> units u ws k"
    by simp_all
qed

lemma sum_list_of_int_scaled:
  "sum_list (map (\<lambda>x. of_int (f x) * c) xs) = of_int (sum_list (map f xs)) * (c :: rat)"
  by (induction xs) (simp_all add: algebra_simps)

lemma basis_units:
  assumes "whole_weights u ws"
  shows "dict_sum ws = of_int (sum_list (map (units u ws) (keys ws))) * u"
proof -
  have "dict_sum ws = sum_list (map (\<lambda>k. of_int (units u ws k) * u) (keys ws))"
    using assms weight_units(1) [OF assms]
    by (simp add: whole_weights_def dict_sum_keys)
  also have "\<dots> = of_int (sum_list (map (units u ws) (keys ws))) * u"
    by (rule sum_list_of_int_scaled)
  finally show ?thesis .
qed

lemma splittable_units:
  assumes "splittable u ws m"
  defines "n \<equiv> sum_list (map (units u ws) (keys ws))"
  shows "0 < n" and "\<lfloor>dict_sum ws / u\<rfloor> = n" and "\<bar>m\<bar> * n < 10 ^ 27"
    and "\<And>k. k \<in> set (keys ws) \<Longrightarrow> \<bar>m\<bar> * units u ws k < 10 ^ 27"
proof -
  have ww: "whole_weights u ws" and u: "0 < u" and pos: "0 < dict_sum ws"
    and lim: "\<bar>m\<bar> * \<lfloor>dict_sum ws / u\<rfloor> < 10 ^ 27"
    using assms(1) by (auto simp: splittable_def whole_weights_def)
  have eq: "dict_sum ws = of_int n * u"
    unfolding n_def by (rule basis_units [OF ww])
  show n: "0 < n" using pos u by (simp add: eq zero_less_mult_iff)
  show fl: "\<lfloor>dict_sum ws / u\<rfloor> = n" using u by (simp add: eq)
  show mn: "\<bar>m\<bar> * n < 10 ^ 27" using lim fl by simp
  show "\<bar>m\<bar> * units u ws k < 10 ^ 27" if "k \<in> set (keys ws)" for k
  proof -
    have "units u ws k \<le> n"
      unfolding n_def using that weight_units(2) [OF ww]
      by (intro member_le_sum_list) auto
    then have "\<bar>m\<bar> * units u ws k \<le> \<bar>m\<bar> * n" by (simp add: mult_left_mono)
    with mn show ?thesis by linarith
  qed
qed

text \<open>The exact share, its floor and its remainder, in quanta and units.\<close>

lemma exact_share:
  fixes ws :: "('k, decimal) dict" and p :: int
  assumes "splittable u ws m" and "k \<in> set (keys ws)"
  defines "n \<equiv> sum_list (map (units u ws) (keys ws))" and "q \<equiv> (10 powi p :: rat)"
  defines "e \<equiv> ddiv (\<bar>of_int m * q\<bar> * dict_get ws k 0) (dict_sum ws)"
    and "a \<equiv> \<bar>m\<bar> * units u ws k"
  shows "quantize e q ROUND_DOWN = Inr (of_int (a div n) * q)"
    and "of_int (a div n) * q \<le> e"
    and "e = of_int (a div n) * q \<longleftrightarrow> a mod n = 0"
    and "\<bar>of_int m * q\<bar> * dict_get ws k 0 / dict_sum ws = of_int a / of_int n * q"
proof -
  have ww: "whole_weights u ws" and u: "0 < u"
    using assms(1) by (auto simp: splittable_def whole_weights_def)
  note n = splittable_units [OF assms(1), folded n_def]
  have q: "0 < q" by (simp add: q_def)
  have a0: "0 \<le> a" using weight_units(2) [OF ww] by (simp add: a_def)
  have a1: "a < 10 ^ 27" using n(4) [OF assms(2)] by (simp add: a_def)
  show quot: "\<bar>of_int m * q\<bar> * dict_get ws k 0 / dict_sum ws = of_int a / of_int n * q"
    using u q n(1) by (simp add: weight_units(1) [OF ww, of k] basis_units [OF ww, folded n_def]
        a_def abs_mult)
  then have e: "e = ctx (of_int a / of_int n * q)"
    by (simp add: e_def ddiv_def)
  note fl = floor_ctx_quotient [OF a0 n(1) a1, of p, folded q_def, folded e]
  show "e = of_int (a div n) * q \<longleftrightarrow> a mod n = 0" by (rule fl(2))
  have d0: "0 \<le> a div n" using a0 n(1) by (simp add: pos_imp_zdiv_nonneg_iff)
  have "of_int (a div n) \<le> e / q" using fl(1) by linarith
  then show le: "of_int (a div n) * q \<le> e" using q by (simp add: field_simps)
  have "a div n \<le> a" using a0 n(1) by (simp add: zdiv_mono2 [of a 1 n, simplified])
  then have "\<bar>a div n\<bar> < 10 ^ prec" using d0 a1 by (simp add: prec_def)
  moreover have "round_int ROUND_DOWN (e / q) = a div n"
    using le d0 q fl(1) by (simp add: round_int_def divide_nonneg_pos order_trans [of 0 "of_int (a div n) * q"])
  ultimately show "quantize e q ROUND_DOWN = Inr (of_int (a div n) * q)"
    by (simp add: quantize_def)
qed

section \<open>Distributing the shortfall\<close>

text \<open>
  The bumped keys are the first \<open>steps\<close> in the order of falling remainder, so each
  has a positive remainder: there are at least that many.
\<close>

lemma bumped_has_remainder:
  assumes "k \<in> set (take (nat c) (sort_key (\<lambda>k. (- rem k, kstr k)) ks))"
    and "c \<le> int (length (filter (\<lambda>k. 0 < r k) ks))"
    and "\<And>k. k \<in> set ks \<Longrightarrow> (0 :: rat) \<le> rem k \<and> (rem k = 0 \<longleftrightarrow> r k = (0 :: int)) \<and> 0 \<le> r k"
  shows "0 < r k"
proof (rule ccontr)
  let ?f = "\<lambda>k. (- rem k, kstr k)"
  assume "\<not> 0 < r k"
  moreover have k: "k \<in> set ks"
    using assms(1) by (metis in_set_takeD set_sort)
  ultimately have zero: "rem k = 0"
    using assms(3) by force
  have "length (filter (\<lambda>k. 0 < r k) ks) \<le> length (filter (\<lambda>y. ?f y < ?f k) ks)"
  proof (rule length_filter_mono)
    fix y assume "y \<in> set ks" "0 < r y"
    then show "?f y < ?f k"
      using assms(3) [of y] zero by (auto simp: less_prod_def)
  qed
  also have "\<dots> < nat c"
    by (rule take_sort_key_rank [OF assms(1)])
  finally show False using assms(2) by linarith
qed

lemma share_okI:
  assumes spl: "splittable u ws m" and k: "k \<in> set (keys ws)" and "m \<noteq> 0"
  defines "n \<equiv> sum_list (map (units u ws) (keys ws))" and "a \<equiv> \<bar>m\<bar> * units u ws k"
  assumes b: "b = 0 \<or> b = 1 \<and> 0 < a mod n"
  shows "share_ok (of_int m * 10 powi p) ws (10 powi p) k
           (of_int (sgn m) * (of_int (a div n + b) * 10 powi p))"
proof -
  define q :: rat where "q = 10 powi p"
  define j where "j = a div n"
  define r where "r = a mod n"
  have q: "0 < q" by (simp add: q_def)
  have ww: "whole_weights u ws" and u: "0 < u"
    using spl by (auto simp: splittable_def whole_weights_def)
  note n = splittable_units(1) [OF spl, folded n_def]
  have a0: "0 \<le> a" using weight_units(2) [OF ww] by (simp add: a_def)
  have jr: "a = n * j + r" "0 \<le> r" "r < n" "0 \<le> j"
    using n a0 by (simp_all add: j_def r_def pos_imp_zdiv_nonneg_iff)
  have b01: "b = 0 \<or> b = 1 \<and> 0 < r" using b by (simp add: r_def)
  have quota: "of_int m * q * dict_get ws k 0 / dict_sum ws = of_int (sgn m) * (of_int a / of_int n * q)"
  proof -
    have "of_int m * q * dict_get ws k 0 / dict_sum ws
        = of_int (sgn m) * (\<bar>of_int m * q\<bar> * dict_get ws k 0 / dict_sum ws)"
      using q by (simp add: abs_mult sgn_if)
    also have "\<dots> = of_int (sgn m) * (of_int a / of_int n * q)"
      using exact_share(4) [OF spl k, of p] by (simp add: n_def a_def q_def)
    finally show ?thesis .
  qed
  have "of_int a / of_int n = of_int j + of_int r / (of_int n :: rat)"
    using n by (simp add: jr(1) field_simps)
  then have "\<bar>of_int (j + b) - of_int a / (of_int n :: rat)\<bar> < 1"
    using b01 jr n by (auto simp: field_simps)
  then have "\<bar>of_int (j + b) - of_int a / (of_int n :: rat)\<bar> * q < q"
    using q by simp
  moreover have "of_int (sgn m) * (of_int (j + b) * q) - of_int (sgn m) * (of_int a / of_int n * q)
      = of_int (sgn m) * ((of_int (j + b) - of_int a / of_int n) * q)"
    by (simp add: algebra_simps)
  ultimately have close: "\<bar>of_int (sgn m) * (of_int (j + b) * q) - of_int m * q * dict_get ws k 0 / dict_sum ws\<bar> < q"
    using \<open>m \<noteq> 0\<close> q by (simp add: quota abs_mult sgn_if)
  have side: "0 \<le> of_int (sgn m) * (of_int (j + b) * q) * (of_int m * q)"
  proof -
    have "of_int (sgn m) * (of_int (j + b) * q) * (of_int m * q) = of_int (\<bar>m\<bar> * (j + b)) * (q * q)"
      by (simp add: sgn_if)
    moreover have "0 \<le> \<bar>m\<bar> * (j + b)" using jr(4) b01 by auto
    ultimately show ?thesis using q by (metis mult_nonneg_nonneg of_int_0_le_iff order_less_imp_le)
  qed
  have mult: "of_int \<lfloor>of_int (sgn m) * (of_int (j + b) * q) / q\<rfloor> * q = of_int (sgn m) * (of_int (j + b) * q)"
    using q by (simp add: sgn_if)
  have zero: "j = 0 \<and> b = 0" if "dict_get ws k 0 = 0"
  proof -
    have "units u ws k = 0" using that u weight_units(1) [OF ww, of k] by simp
    then have "a = 0" by (simp add: a_def)
    then show ?thesis using b01 by (simp add: j_def r_def)
  qed
  show ?thesis
    using close side mult zero
    unfolding share_ok_def q_def [symmetric] j_def [symmetric] by simp
qed

text \<open>
  The remainder pass on its own: floors \<open>a k div n\<close>, the first \<open>c\<close> keys of the
  remainder order bumped by one quantum each.
\<close>

lemma remainder_count:
  fixes a :: "'k \<Rightarrow> int"
  assumes "0 < n" and "sum_list (map a ks) = M * n"
  defines "c \<equiv> M - sum_list (map (\<lambda>k. a k div n) ks)"
  shows "c \<le> int (length (filter (\<lambda>k. 0 < a k mod n) ks))" and "0 \<le> c"
proof -
  have rem: "sum_list (map (\<lambda>k. a k mod n) ks) = n * c"
    using sum_div_mod_split [of a ks n] by (simp add: assms(2) c_def algebra_simps)
  show "c \<le> int (length (filter (\<lambda>k. 0 < a k mod n) ks))"
    by (rule positive_remainders [OF _ assms(1) rem]) (use assms(1) in auto)
  have "0 \<le> n * c" unfolding rem [symmetric] using assms(1) by (intro sum_list_nonneg) auto
  then show "0 \<le> c" using assms(1) by (simp add: zero_le_mult_iff)
qed

lemma remainder_pass:
  fixes a :: "'k \<Rightarrow> int" and q :: rat and kstr :: "'k \<Rightarrow> string"
  assumes n: "0 < n" and sum_a: "sum_list (map a ks) = M * n" and dist: "distinct ks"
    and E: "\<And>k. k \<in> set ks \<Longrightarrow>
      0 \<le> E k - of_int (a k div n) * q \<and> (E k - of_int (a k div n) * q = 0 \<longleftrightarrow> a k mod n = 0)"
  defines "c \<equiv> M - sum_list (map (\<lambda>k. a k div n) ks)"
  defines "order \<equiv> sort_key (\<lambda>k. (- (E k - of_int (a k div n) * q), kstr k)) ks"
  defines "D \<equiv> fold (\<lambda>k d. dict_add k q d) (take (nat c) order) (map (\<lambda>k. (k, of_int (a k div n) * q)) ks)"
  shows "keys D = ks" and "dict_sum D = of_int M * q"
    and "\<And>k. k \<in> set ks \<Longrightarrow> \<exists>b. (b = 0 \<or> b = 1 \<and> 0 < a k mod n) \<and> dict_get D k 0 = of_int (a k div n + b) * q"
proof -
  let ?S = "map (\<lambda>k. (k, of_int (a k div n) * q)) ks"
  note c = remainder_count [OF n sum_a, folded c_def]
  have bumped: "0 < a k mod n" if "k \<in> set (take (nat c) order)" for k
    by (rule bumped_has_remainder [OF that [unfolded order_def] c(1)]) (use E n in auto)
  have keysS: "keys ?S = ks" by (simp add: comp_def)
  have "set (take (nat c) order) \<subseteq> set ks"
    unfolding order_def by (metis set_sort set_take_subset)
  then show "keys D = ks" unfolding D_def by (subst keys_fold_add) (simp_all only: keysS)
  have len: "length (take (nat c) order) = nat c"
    unfolding order_def length_take length_sort
    using c(1) length_filter_le [of "\<lambda>k. 0 < a k mod n" ks] by linarith
  have "dict_sum ?S = of_int (M - c) * q"
    by (simp add: c_def dict_sum_def comp_def sum_list_of_int_scaled)
  moreover have "dict_sum D = dict_sum ?S + of_nat (nat c) * q"
    unfolding D_def by (subst dict_sum_fold_add) (simp_all only: keysS dist len)
  ultimately show "dict_sum D = of_int M * q" using c(2) by (simp add: algebra_simps)
  show "\<exists>b. (b = 0 \<or> b = 1 \<and> 0 < a k mod n) \<and> dict_get D k 0 = of_int (a k div n + b) * q"
    if "k \<in> set ks" for k
  proof (intro exI conjI)
    let ?b = "if k \<in> set (take (nat c) order) then 1 else 0 :: int"
    show "?b = 0 \<or> ?b = 1 \<and> 0 < a k mod n" using bumped by simp
    have "distinct (take (nat c) order)" using dist by (simp add: order_def)
    then show "dict_get D k 0 = of_int (a k div n + ?b) * q"
      using that unfolding D_def
      by (subst dict_get_fold_add) (simp_all add: dict_get_map_Pair algebra_simps)
  qed
qed

text \<open>One call of the routine, with its intermediate values named.\<close>

lemma apportion_run:
  fixes p m :: int and ws :: "('k, decimal) dict" and kstr :: "'k \<Rightarrow> string"
  assumes spl: "splittable u ws m" and m: "m \<noteq> 0"
    and q_def: "q = (10 powi p :: rat)" and ks_def: "ks = sort_key kstr (keys ws)"
    and n_def: "n = sum_list (map (units u ws) (keys ws))" and a_def: "a = (\<lambda>k. \<bar>m\<bar> * units u ws k)"
    and E_def: "E = (\<lambda>k. ddiv (\<bar>of_int m * (10 powi p)\<bar> * dict_get ws k 0) (dict_sum ws))"
  defines "c \<equiv> \<bar>m\<bar> - sum_list (map (\<lambda>k. a k div n) ks)"
  defines "order \<equiv> sort_key (\<lambda>k. (- (E k - of_int (a k div n) * q), kstr k)) ks"
  defines "D \<equiv> fold (\<lambda>k d. dict_add k q d) (take (nat c) order) (map (\<lambda>k. (k, of_int (a k div n) * q)) ks)"
  assumes sumD: "dict_sum D = of_int \<bar>m\<bar> * q" and c0: "0 \<le> c"
  shows "apportion kstr (of_int m * q) ws q = Inr (map (\<lambda>(k, v). (k, v * of_int (sgn m))) D)"
proof -
  let ?X = "map (\<lambda>k. (k, E k)) ks" and ?S = "map (\<lambda>k. (k, of_int (a k div n) * q)) ks"
  have q: "0 < q" by (simp add: q_def)
  have ww: "whole_weights u ws" and pos: "0 < dict_sum ws"
    using spl by (auto simp: splittable_def)
  have ks_ne: "ks \<noteq> []" and ks_set: "set ks = set (keys ws)"
    using pos by (auto simp: ks_def) (metis dict_sum_simps(1) less_irrefl list.map_disc_iff mset_sort mset_zero_iff)
  note n = splittable_units [OF spl, folded n_def]
  have cm: "c \<le> \<bar>m\<bar>"
    unfolding c_def using n(1) weight_units(2) [OF ww]
    by (simp add: a_def, intro sum_list_nonneg) (auto simp: pos_imp_zdiv_nonneg_iff)
  have m27: "\<bar>m\<bar> < 10 ^ 27" using n(1,3) by (smt (verit) mult_less_cancel_left1 mult_le_cancel_left1)
  have loop: "mapE (\<lambda>(k, v). map_sum id (Pair k) (quantize v q ROUND_DOWN)) ?X = Inr ?S"
    using exact_share(1) [OF spl, of _ p, folded q_def n_def]
    by (simp add: mapE_eq_Inr_iff list_all2_map1 list_all2_map2 list_all2_same E_def a_def ks_set flip: q_def)
  have order: "sort_key (\<lambda>k. (- (dict_get ?X k 0 - dict_get ?S k 0), kstr k)) ks = order"
    unfolding order_def by (rule sort_key_cong) (simp_all add: dict_get_map_Pair)
  have "dict_sum ?S = of_int (\<bar>m\<bar> - c) * q"
    by (simp add: c_def dict_sum_def comp_def sum_list_of_int_scaled)
  then have "\<bar>of_int m * q\<bar> - dict_sum ?S = of_int c * q"
    using q by (simp add: abs_mult algebra_simps)
  then have steps: "half_even (ddiv (\<bar>of_int m * q\<bar> - dict_sum ?S) q) = c"
    using q c0 cm m27 by (simp add: ddiv_def ctx_of_int prec_def)
  have sgn: "(if of_int m * q < 0 then - 1 else 1) = (of_int (sgn m) :: rat)"
    using m q by (simp add: sgn_if mult_less_0_iff)
  have "dict_sum (map (\<lambda>(k, v). (k, v * of_int (sgn m))) D) = dict_sum D * of_int (sgn m)"
    by (induction D) (auto simp: algebra_simps)
  then have tot: "dict_sum (map (\<lambda>(k, v). (k, v * of_int (sgn m))) D) = of_int m * q"
    by (simp add: sumD sgn_if)
  have "quantize (of_int m * q) q ROUND_DOWN = Inr (of_int m * q)"
    using q m27 by (simp add: quantize_def prec_def)
  moreover have "of_int m * q \<noteq> 0" using m q by simp
  moreover have "(if c > 0 then fold (\<lambda>k d. dict_add k q d) (take (nat c) order) ?S else ?S) = D"
    using c0 by (simp add: D_def)
  moreover have X: "map (\<lambda>k. (k, ddiv (\<bar>of_int m * q\<bar> * dict_get ws k 0) (dict_sum ws))) ks = ?X"
    by (simp add: E_def q_def)
  ultimately show ?thesis
    unfolding apportion_def Let_def ks_def [symmetric] X
    using ks_ne pos
    by (simp only: loop order steps sgn tot bindE_simps require_def not_True_eq_False if_False)
      simp
qed

lemma apportion_fair:
  assumes spl: "splittable u ws m"
  shows "\<exists>shares. apportion kstr (of_int m * 10 powi p) ws (10 powi p) = Inr shares \<and>
           fair_split kstr (of_int m * 10 powi p) ws (10 powi p) shares"
proof (cases "m = 0")
  case True
  have "ws \<noteq> []" using spl by (auto simp: splittable_def)
  then have "sort_key kstr (keys ws) \<noteq> []"
    by (metis map_is_Nil_conv mset_sort mset_zero_iff)
  moreover have "0 < dict_sum ws" using spl by (simp add: splittable_def)
  ultimately have "apportion kstr 0 ws (10 powi p) = Inr (map (\<lambda>k. (k, 0)) (sort_key kstr (keys ws)))"
    by (simp add: apportion_def Let_def)
  moreover have "fair_split kstr 0 ws (10 powi p) (map (\<lambda>k. (k, 0)) (sort_key kstr (keys ws)))"
    by (auto simp: fair_split_def share_ok_def dict_sum_def comp_def)
  ultimately show ?thesis using True by simp
next
  case False
  define q :: rat where "q = 10 powi p"
  define n where "n = sum_list (map (units u ws) (keys ws))"
  define ks where "ks = sort_key kstr (keys ws)"
  define a where "a = (\<lambda>k. \<bar>m\<bar> * units u ws k)"
  define E where "E = (\<lambda>k. ddiv (\<bar>of_int m * 10 powi p\<bar> * dict_get ws k 0) (dict_sum ws))"
  have ks_set: "set ks = set (keys ws)" and ks_dist: "distinct ks"
    using spl by (auto simp: ks_def splittable_def whole_weights_def)
  note n = splittable_units [OF spl, folded n_def]
  have sum_a: "sum_list (map a ks) = \<bar>m\<bar> * n"
    by (simp add: a_def n_def ks_def sum_list_const_mult)
  have E: "0 \<le> E k - of_int (a k div n) * q \<and> (E k - of_int (a k div n) * q = 0 \<longleftrightarrow> a k mod n = 0)"
    if "k \<in> set ks" for k
    using exact_share(2,3) [OF spl, folded n_def, of k p, folded q_def] that
    by (auto simp: E_def a_def ks_set q_def)
  note D = remainder_pass [OF n(1) sum_a ks_dist E, where kstr = kstr]
  note run = apportion_run [OF spl False q_def ks_def n_def a_def E_def
      D(2) remainder_count(2) [OF n(1) sum_a]]
  obtain D where keysD: "keys D = ks" and runD: "apportion kstr (of_int m * q) ws q = Inr (map (\<lambda>(k, v). (k, v * of_int (sgn m))) D)"
    and sumD: "dict_sum D = of_int \<bar>m\<bar> * q"
    and getD: "\<And>k. k \<in> set ks \<Longrightarrow> \<exists>b. (b = 0 \<or> b = 1 \<and> 0 < a k mod n) \<and> dict_get D k 0 = of_int (a k div n + b) * q"
    using D run by blast
  let ?R = "map (\<lambda>(k, v). (k, v * of_int (sgn m))) D"
  have "share_ok (of_int m * q) ws q k s" if "(k, s) \<in> set ?R" for k s
  proof -
    from that obtain v where v: "(k, v) \<in> set D" "s = of_int (sgn m) * v" by auto
    then have kk: "k \<in> set ks" using keysD by force
    have "v = dict_get D k 0" using v(1) ks_dist by (simp add: dict_get_map_of keysD)
    with getD [OF kk] obtain b where "b = 0 \<or> b = 1 \<and> 0 < a k mod n"
      and "s = of_int (sgn m) * (of_int (a k div n + b) * q)" using v(2) by auto
    then show ?thesis
      using share_okI [OF spl _ False, of k b p] kk ks_set by (simp add: a_def n_def q_def)
  qed
  moreover have "keys ?R = ks" using keysD by (simp add: comp_def case_prod_unfold)
  moreover have "dict_sum ?R = of_int m * q"
  proof -
    have "dict_sum ?R = dict_sum D * of_int (sgn m)" by (induction D) (auto simp: algebra_simps)
    then show ?thesis by (simp add: sumD sgn_if)
  qed
  ultimately have "fair_split kstr (of_int m * q) ws q ?R"
    unfolding fair_split_def ks_def by blast
  with runD show ?thesis unfolding q_def by blast
qed

section \<open>The interface the callers use\<close>

text \<open>
  Every caller splits a whole number of quanta over integer weights and needs the same
  law: the shares are whole numbers of quanta, on the same keys, and add up to the total.
\<close>

definition dec_weights :: "('k, int) dict \<Rightarrow> ('k, decimal) dict" where
  "dec_weights d = map (\<lambda>(k, v). (k, of_int v)) d"

definition int_weights :: "int \<Rightarrow> ('k, int) dict \<Rightarrow> bool" where
  "int_weights m ws \<longleftrightarrow>
     distinct (keys ws) \<and> (\<forall>w \<in> set (map snd ws). 0 \<le> w) \<and> 0 < dict_sum ws \<and> \<bar>m\<bar> * dict_sum ws < 10 ^ 27"

definition quanta :: "decimal \<Rightarrow> ('k, int) dict \<Rightarrow> ('k, decimal) dict" where
  "quanta q cs = map (\<lambda>(k, c). (k, of_int c * q)) cs"

locale exact_splitter =
  fixes split :: "int \<Rightarrow> ('k, int) dict \<Rightarrow> ('k, decimal) dict res"
    and q :: decimal
  assumes q_pos: "0 < q"
    and split_exact: "int_weights m ws \<Longrightarrow>
      \<exists>cs. split m ws = Inr (quanta q cs) \<and> distinct (keys cs) \<and> set (keys cs) = set (keys ws)
         \<and> dict_sum cs = m \<and> (\<forall>c \<in> set (map snd cs). 0 \<le> c * m \<and> \<bar>c\<bar> \<le> \<bar>m\<bar>)"
begin

text \<open>A non-negative total is split into non-negative shares, none above the total.\<close>

lemma split_nonneg:
  assumes "int_weights m ws" "0 \<le> m"
  shows "\<exists>cs. split m ws = Inr (quanta q cs) \<and> distinct (keys cs) \<and> set (keys cs) = set (keys ws)
    \<and> dict_sum cs = m \<and> (\<forall>c \<in> set (map snd cs). 0 \<le> c \<and> c \<le> m)"
proof -
  have "0 \<le> c \<and> c \<le> m" if "0 \<le> c * m \<and> \<bar>c\<bar> \<le> \<bar>m\<bar>" for c
    using that assms(2) by (auto simp: zero_le_mult_iff)
  with split_exact [OF assms(1)] show ?thesis by blast
qed

end

lemma dec_weights_simps [simp]:
  "keys (dec_weights ws) = keys ws"
  "dict_sum (dec_weights ws) = of_int (dict_sum ws)"
  "dict_get (dec_weights ws) k 0 = of_int (dict_get ws k 0)"
  by (induction ws) (auto simp: dec_weights_def)

lemma int_weights_splittable: "int_weights m ws \<Longrightarrow> splittable 1 (dec_weights ws) m"
  by (auto simp: int_weights_def splittable_def whole_weights_def)
     (auto simp: dec_weights_def)

lemma same_sign_le_sum:
  fixes m :: int
  assumes "\<forall>c \<in> set cs. 0 \<le> c * m" "c \<in> set cs" "sum_list cs = m" "m \<noteq> 0"
  shows "\<bar>c\<bar> \<le> \<bar>m\<bar>"
proof -
  have "\<bar>c\<bar> \<le> sum_list (map abs cs)" using assms(2) by (intro member_le_sum_list) auto
  also have "sum_list (map abs cs) = sum_list cs * sgn m"
  proof -
    have "\<bar>x\<bar> = x * sgn m" if "x \<in> set cs" for x
      using assms(1,4) that by (cases "0 < m") (auto simp: sgn_if zero_le_mult_iff)
    then have "map abs cs = map (\<lambda>x. x * sgn m) cs" by simp
    then show ?thesis by (simp only: sum_list_mult_const [of id "sgn m" cs, simplified])
  qed
  finally show ?thesis using assms(3) by (simp add: abs_sgn)
qed

lemma fair_split_quanta:
  assumes "fair_split kstr (of_int m * q) ws q sh" "0 < q" "distinct (keys ws)"
  shows "\<exists>cs. sh = quanta q cs \<and> distinct (keys cs) \<and> set (keys cs) = set (keys ws)
    \<and> dict_sum cs = m \<and> (\<forall>c \<in> set (map snd cs). 0 \<le> c * m \<and> \<bar>c\<bar> \<le> \<bar>m\<bar>)"
proof -
  define cs where "cs = map (\<lambda>(k, v). (k, \<lfloor>v / q\<rfloor>)) sh"
  have ok: "share_ok (of_int m * q) ws q k v" if "(k, v) \<in> set sh" for k v
    using assms(1) that by (auto simp: fair_split_def)
  have sh: "sh = quanta q cs"
    unfolding cs_def quanta_def using ok by (auto simp: share_ok_def intro!: map_idI [symmetric])
  have keys: "keys cs = keys sh" by (simp add: cs_def case_prod_unfold comp_def)
  have "dict_sum (quanta q cs) = of_int (dict_sum cs) * q"
    by (induction cs) (auto simp: quanta_def algebra_simps)
  then have "of_int (dict_sum cs) * q = of_int m * q"
    using assms(1) sh by (simp add: fair_split_def)
  then have "dict_sum cs = m" using assms(2) by simp
  moreover have sign: "0 \<le> c * m" if c: "c \<in> set (map snd cs)" for c
  proof -
    from c obtain k v where kv: "(k, v) \<in> set sh" "c = \<lfloor>v / q\<rfloor>" by (auto simp: cs_def)
    have "0 \<le> of_int c * q * (of_int m * q)" using ok [OF kv(1)] by (simp add: share_ok_def kv(2))
    then have "0 \<le> of_int (c * m) * (q * q)" by (simp add: mult_ac)
    then have "(0 :: rat) \<le> of_int (c * m)" using assms(2) by (metis mult_le_0_iff mult_pos_pos not_le zero_le_mult_iff)
    then show ?thesis by (simp only: of_int_0_le_iff)
  qed
  moreover have "\<bar>c\<bar> \<le> \<bar>m\<bar>" if c: "c \<in> set (map snd cs)" for c
  proof (cases "m = 0")
    case True
    from c obtain k v where kv: "(k, v) \<in> set sh" "c = \<lfloor>v / q\<rfloor>" by (auto simp: cs_def)
    have "\<bar>of_int c * q\<bar> < q" using ok [OF kv(1)] by (simp add: share_ok_def kv(2) True)
    then have "\<bar>of_int c :: rat\<bar> < 1" using assms(2) by (simp add: abs_mult)
    then have "c = 0" by linarith
    then show ?thesis by simp
  next
    case False
    then show ?thesis using same_sign_le_sum [of "map snd cs" m c] sign c \<open>dict_sum cs = m\<close> by (simp add: dict_sum_def)
  qed
  moreover have "distinct (keys cs)" "set (keys cs) = set (keys ws)"
    using assms(1,3) by (auto simp: keys fair_split_def)
  ultimately show ?thesis using sh by blast
qed

lemma apportion_exact_splitter:
  assumes "int_weights m ws"
  shows "\<exists>cs. apportion kstr (of_int m * 10 powi p) (dec_weights ws) (10 powi p) = Inr (quanta (10 powi p) cs)
    \<and> distinct (keys cs) \<and> set (keys cs) = set (keys ws) \<and> dict_sum cs = m
    \<and> (\<forall>c \<in> set (map snd cs). 0 \<le> c * m \<and> \<bar>c\<bar> \<le> \<bar>m\<bar>)"
proof -
  obtain sh where sh: "apportion kstr (of_int m * 10 powi p) (dec_weights ws) (10 powi p) = Inr sh"
    "fair_split kstr (of_int m * 10 powi p) (dec_weights ws) (10 powi p) sh"
    using apportion_fair [OF int_weights_splittable [OF assms]] by blast
  moreover have "distinct (keys (dec_weights ws))" using assms by (simp add: int_weights_def)
  ultimately show ?thesis using fair_split_quanta [OF sh(2)] by auto
qed

interpretation minutes: exact_splitter "\<lambda>m ws. apportion kstr (of_int m) (dec_weights ws) 1" 1
  for kstr :: "'k \<Rightarrow> string"
  by unfold_locales (use apportion_exact_splitter [where p = 0] in simp_all)

interpretation hundredths: exact_splitter "\<lambda>m ws. apportion kstr (of_int m / 100) (dec_weights ws) (1 / 100)" "1 / 100"
  for kstr :: "'k \<Rightarrow> string"
  by unfold_locales (use apportion_exact_splitter [where p = "- 2"] in \<open>simp_all add: power_int_minus\<close>)

section \<open>Properties\<close>

text \<open>
  C25.  For every input the callers supply (\<open>splittable\<close>), the routine returns a fair
  split: the shares carry the keys in \<^verbatim>\<open>str\<close> order, sum exactly to the total (negative
  totals included), are multiples of the quantum on the total's side of zero, each less
  than one quantum away from its exact proportion, and zero for a key of weight zero.
  In particular the 28-digit rounding of the quotients never makes the closing
  \<^verbatim>\<open>require\<close> fail.
\<close>

theorem apportion_fair_split:
  assumes "splittable u ws m"
  shows "\<exists>shares. apportion kstr (of_int m * 10 powi p) ws (10 powi p) = Inr shares \<and>
           fair_split kstr (of_int m * 10 powi p) ws (10 powi p) shares"
  using assms by (rule apportion_fair)

theorem apportion_fair_split_witness:
  "splittable 1 [(''b'', 6), (''a'', 5)] (- 10000) \<and>
   (\<exists>shares. apportion id (of_int (- 10000) * 10 powi (- 2)) [(''b'', 6), (''a'', 5)] (10 powi (- 2)) = Inr shares \<and>
      fair_split id (of_int (- 10000) * 10 powi (- 2)) [(''b'', 6), (''a'', 5)] (10 powi (- 2)) shares)"
proof
  show spl: "splittable 1 [(''b'', 6), (''a'', 5)] (- 10000)"
    by (simp add: splittable_def whole_weights_def)
  show "\<exists>shares. apportion id (of_int (- 10000) * 10 powi (- 2)) [(''b'', 6), (''a'', 5)] (10 powi (- 2)) = Inr shares \<and>
      fair_split id (of_int (- 10000) * 10 powi (- 2)) [(''b'', 6), (''a'', 5)] (10 powi (- 2)) shares"
    by (rule apportion_fair_split [OF spl])
qed

lemma round_down_abs: "\<bar>of_int (round_int ROUND_DOWN x)\<bar> \<le> \<bar>x\<bar>"
  by (auto simp: round_int_def)

lemma apportion_inexact:
  assumes "0 < dict_sum ws" and "0 < q"
    and inex: "of_int \<lfloor>t / q\<rfloor> * q \<noteq> t" and small: "\<bar>t / q\<bar> < 10 ^ 27"
  shows "apportion kstr t ws q = Inl InexactApportionError"
proof -
  let ?r = "round_int ROUND_DOWN (t / q)"
  have "of_int \<bar>?r\<bar> \<le> \<bar>t / q\<bar>" using round_down_abs [of "t / q"] by simp
  then have "of_int \<bar>?r\<bar> < (of_int (10 ^ 27) :: rat)" using small by simp
  then have lim: "\<bar>?r\<bar> < 10 ^ prec" unfolding of_int_less_iff by (simp add: prec_def)
  have "t \<noteq> of_int ?r * q"
  proof
    assume eq: "t = of_int ?r * q"
    then have "t / q = of_int ?r" using assms(2) by (metis less_irrefl nonzero_mult_div_cancel_right)
    then show False using inex eq by (metis floor_of_int)
  qed
  moreover have "t \<noteq> 0" using inex by auto
  moreover have "sort_key kstr (keys ws) \<noteq> []" using assms(1)
    by (metis dict_sum_simps(1) list.map_disc_iff mset_sort mset_zero_iff order_less_irrefl)
  ultimately show ?thesis using assms(1) lim
    by (simp add: apportion_def Let_def quantize_def)
qed

text \<open>
  The refusals: without positive weight every share is zero whatever the total, and
  with positive weight a total that is not a multiple of the quantum raises
  \<open>InexactApportionError\<close> instead of losing the excess.
\<close>

theorem apportion_refusals:
  "(dict_sum ws \<le> 0 \<longrightarrow>
      apportion kstr t ws (10 powi p) = Inr (map (\<lambda>k. (k, 0)) (sort_key kstr (keys ws)))) \<and>
   (0 < dict_sum ws \<and> of_int \<lfloor>t / 10 powi p\<rfloor> * 10 powi p \<noteq> t \<and> \<bar>t / 10 powi p\<bar> < 10 ^ 27 \<longrightarrow>
      apportion kstr t ws (10 powi p) = Inl InexactApportionError)"
  using apportion_inexact [of ws "10 powi p" t kstr] by (auto simp: apportion_def Let_def)

theorem apportion_refusals_witness:
  "apportion id 100 [(''a'', 0), (''b'', 0)] (10 powi (- 2)) = Inr [(''a'', 0), (''b'', 0)] \<and>
   apportion id (8125 / 1000) [(''a'', 1), (''b'', 1)] (10 powi (- 2)) = Inl InexactApportionError"
  using apportion_refusals [of "[(''a'', 0), (''b'', 0)]" id 100 "- 2"]
    apportion_refusals [of "[(''a'', 1), (''b'', 1)]" id "8125 / 1000" "- 2"]
  by simp

end
