(* ===== verification/PyDate.thy ===== *)
theory PyDate
  imports Prelude
begin

text \<open>
  Python's \<^verbatim>\<open>datetime.date\<close> as far as the program uses it.  A date is its proleptic
  Gregorian ordinal (\<^verbatim>\<open>date.toordinal()\<close>, 1 January of year 1 is day 1), so that
  \<^verbatim>\<open>timedelta\<close> arithmetic and comparison are those of \<open>int\<close>.  The limits of the type
  (years 1 to 9999) are checked where a date is built from year, month and day;
  arithmetic that leaves them is not modelled.  An instant is a count of microseconds
  since the epoch, as PostgreSQL stores a timestamp.
\<close>

type_synonym date = int
type_synonym instant = int

definition is_leap :: "int \<Rightarrow> bool" where
  "is_leap y \<longleftrightarrow> y mod 4 = 0 \<and> (y mod 100 \<noteq> 0 \<or> y mod 400 = 0)"

definition days_before_year :: "int \<Rightarrow> int" where
  "days_before_year y = (y - 1) * 365 + (y - 1) div 4 - (y - 1) div 100 + (y - 1) div 400"

definition days_in_month :: "int \<Rightarrow> int \<Rightarrow> int" where
  "days_in_month y m =
     (if m = 2 then (if is_leap y then 29 else 28)
      else if m = 4 \<or> m = 6 \<or> m = 9 \<or> m = 11 then 30 else 31)"

definition days_before_month :: "int \<Rightarrow> int \<Rightarrow> int" where
  "days_before_month y m =
     (let l = (if is_leap y then 1 else 0) in
      if m \<le> 1 then 0 else if m = 2 then 31 else if m = 3 then 59 + l else if m = 4 then 90 + l
      else if m = 5 then 120 + l else if m = 6 then 151 + l else if m = 7 then 181 + l
      else if m = 8 then 212 + l else if m = 9 then 243 + l else if m = 10 then 273 + l
      else if m = 11 then 304 + l else 334 + l)"

definition ymd2ord :: "int \<Rightarrow> int \<Rightarrow> int \<Rightarrow> date" where
  "ymd2ord y m d = days_before_year y + days_before_month y m + d"

definition valid_ymd :: "int \<Rightarrow> int \<Rightarrow> int \<Rightarrow> bool" where
  "valid_ymd y m d \<longleftrightarrow> 1 \<le> m \<and> m \<le> 12 \<and> 1 \<le> d \<and> d \<le> days_in_month y m"

definition mk_date :: "int \<Rightarrow> int \<Rightarrow> int \<Rightarrow> date res" where
  "mk_date y m d =
     (if 1 \<le> y \<and> y \<le> 9999 \<and> valid_ymd y m d then Inr (ymd2ord y m d) else Inl ValueError)"

definition year_of :: "date \<Rightarrow> int" where
  "year_of n = (let y = (n - 1) * 400 div 146097 + 1
                in if days_before_year (y + 1) < n then y + 1 else y)"

definition month_of :: "date \<Rightarrow> int" where
  "month_of n =
     (let y = year_of n; k = n - days_before_year y in
      if k \<le> days_before_month y 2 then 1 else if k \<le> days_before_month y 3 then 2
      else if k \<le> days_before_month y 4 then 3 else if k \<le> days_before_month y 5 then 4
      else if k \<le> days_before_month y 6 then 5 else if k \<le> days_before_month y 7 then 6
      else if k \<le> days_before_month y 8 then 7 else if k \<le> days_before_month y 9 then 8
      else if k \<le> days_before_month y 10 then 9 else if k \<le> days_before_month y 11 then 10
      else if k \<le> days_before_month y 12 then 11 else 12)"

definition day_of :: "date \<Rightarrow> int" where
  "day_of n = n - days_before_year (year_of n) - days_before_month (year_of n) (month_of n)"

text \<open>\<^verbatim>\<open>date.weekday()\<close>: Monday is 0.\<close>

definition weekday :: "date \<Rightarrow> int" where
  "weekday n = (n + 6) mod 7"

section \<open>The calendar is a bijection\<close>

lemma div_bounds: "0 < k \<Longrightarrow> k * (x div k) \<le> x \<and> x < k * (x div k) + k" for k x :: int
  by (smt (verit) minus_mult_div_eq_mod pos_mod_bound pos_mod_sign)

lemma days_before_year_bounds:
  "400 * days_before_year y \<le> 146097 * (y - 1) + 399"
  "146097 * (y - 1) - 700 \<le> 400 * days_before_year y"
proof -
  define a b c where "a = (y - 1) div 4" and "b = (y - 1) div 100" and "c = (y - 1) div 400"
  have "4 * a \<le> y - 1" "y - 1 < 4 * a + 4" "100 * b \<le> y - 1" "y - 1 < 100 * b + 100"
    "400 * c \<le> y - 1" "y - 1 < 400 * c + 400"
    using div_bounds [of 4 "y - 1"] div_bounds [of 100 "y - 1"] div_bounds [of 400 "y - 1"]
    by (simp_all add: a_def b_def c_def)
  then show "400 * days_before_year y \<le> 146097 * (y - 1) + 399"
    "146097 * (y - 1) - 700 \<le> 400 * days_before_year y"
    unfolding days_before_year_def a_def [symmetric] b_def [symmetric] c_def [symmetric]
    by simp_all
qed

lemma days_before_year_Suc:
  "days_before_year (y + 1) = days_before_year y + (if is_leap y then 366 else 365)"
proof -
  have "(y - 1) div k = y div k - (if y mod k = 0 then 1 else 0)" if "1 < k" for k :: int
  proof (cases "y mod k = 0")
    case True
    then have "y - 1 = k * (y div k - 1) + (k - 1)"
      using mult_div_mod_eq [of k y] by (simp add: algebra_simps)
    then have "(y - 1) div k = y div k - 1" by (rule int_div_pos_eq) (use that in auto)
    then show ?thesis using True by simp
  next
    case False
    then have "0 < y mod k" using that by (simp add: order_less_le)
    moreover have "y mod k < k" using that by simp
    moreover have "y - 1 = k * (y div k) + (y mod k - 1)" by simp
    ultimately have "(y - 1) div k = y div k" by (intro int_div_pos_eq [of _ _ _ "y mod k - 1"]) auto
    then show ?thesis using False by simp
  qed
  note d = this [of 4, simplified] this [of 100, simplified] this [of 400, simplified]
  have "y mod 400 = 0 \<Longrightarrow> y mod 100 = 0" "y mod 100 = 0 \<Longrightarrow> y mod 4 = 0"
    using dvd_trans [of 100 400 y] dvd_trans [of 4 100 y] by (simp_all add: mod_eq_0_iff_dvd)
  then consider "y mod 400 = 0" "y mod 100 = 0" "y mod 4 = 0" | "y mod 400 \<noteq> 0" "y mod 100 = 0" "y mod 4 = 0"
    | "y mod 400 \<noteq> 0" "y mod 100 \<noteq> 0" "y mod 4 = 0" | "y mod 400 \<noteq> 0" "y mod 100 \<noteq> 0" "y mod 4 \<noteq> 0"
    by argo
  then have leap: "(if y mod 4 = 0 then 1 else 0) - (if y mod 100 = 0 then 1 else 0)
      + (if y mod 400 = 0 then 1 else 0) = (if is_leap y then 1 else 0 :: int)"
    by cases (simp_all only: is_leap_def, simp_all only: simp_thms if_True if_False)
  define a b c where "a = y div 4" and "b = y div 100" and "c = y div 400"
  have "days_before_year (y + 1) = y * 365 + a - b + c"
    by (simp add: days_before_year_def a_def b_def c_def)
  moreover have "days_before_year y = (y - 1) * 365 + a - b + c - (if is_leap y then 1 else 0)"
    unfolding days_before_year_def d leap [symmetric] a_def [symmetric] b_def [symmetric] c_def [symmetric]
    by (simp only: algebra_simps)
  ultimately show ?thesis by simp
qed

lemma year_of_bounds: "days_before_year (year_of n) < n" "n \<le> days_before_year (year_of n + 1)"
proof -
  define y where "y = (n - 1) * 400 div 146097 + 1"
  define z where "z = 146097 * (y - 1)"
  have y: "z \<le> (n - 1) * 400" "(n - 1) * 400 < z + 146097"
    using div_bounds [of 146097 "(n - 1) * 400"] by (simp_all only: z_def y_def add_diff_cancel_right')
  have 1: "days_before_year y < n"
    using days_before_year_bounds(1) [of y, folded z_def] y(1) by simp
  have "146097 * (y + 2 - 1) = z + 292194" by (simp add: z_def algebra_simps)
  from days_before_year_bounds(2) [of "y + 2", unfolded this] y(2)
  have 2: "n \<le> days_before_year (y + 2)" by simp
  have eq: "year_of n = (if days_before_year (y + 1) < n then y + 1 else y)"
    by (simp add: year_of_def y_def Let_def)
  show "days_before_year (year_of n) < n" "n \<le> days_before_year (year_of n + 1)"
    using 1 2 by (auto simp: eq add.commute)
qed

lemma days_before_year_mono: "y \<le> z \<Longrightarrow> days_before_year y \<le> days_before_year z"
proof (induction z rule: int_ge_induct)
  case (step z)
  then show ?case using days_before_year_Suc [of z] by (simp split: if_splits)
qed simp

lemma year_of_unique:
  assumes "days_before_year y < n" "n \<le> days_before_year (y + 1)"
  shows "year_of n = y"
proof (rule antisym)
  show "year_of n \<le> y"
  proof (rule ccontr)
    assume "\<not> year_of n \<le> y"
    then have "days_before_year (y + 1) \<le> days_before_year (year_of n)"
      by (intro days_before_year_mono) simp
    with assms year_of_bounds(1) [of n] show False by simp
  qed
  show "y \<le> year_of n"
  proof (rule ccontr)
    assume "\<not> y \<le> year_of n"
    then have "days_before_year (year_of n + 1) \<le> days_before_year y"
      by (intro days_before_year_mono) simp
    with assms year_of_bounds(2) [of n] show False by simp
  qed
qed

lemma month_cases:
  fixes m :: int
  assumes "1 \<le> m" "m \<le> 12"
  shows "m \<in> {1, 2, 3, 4, 5, 6, 7, 8, 9, 10, 11, 12}"
  using assms by (simp, presburger)

lemmas month_simps = days_before_month_def days_in_month_def Let_def days_before_year_Suc

lemma year_of_ymd2ord:
  assumes "valid_ymd y m d"
  shows "year_of (ymd2ord y m d) = y"
proof (rule year_of_unique)
  have d: "1 \<le> d" "d \<le> days_in_month y m" and "1 \<le> m" "m \<le> 12"
    using assms by (simp_all add: valid_ymd_def)
  then have m: "m \<in> {1, 2, 3, 4, 5, 6, 7, 8, 9, 10, 11, 12}" by (intro month_cases)
  show "days_before_year y < ymd2ord y m d"
    using m d(1) by (elim insertE emptyE) (simp_all add: ymd2ord_def month_simps)
  show "ymd2ord y m d \<le> days_before_year (y + 1)"
    using m d(2) by (cases "is_leap y"; elim insertE emptyE) (simp_all add: ymd2ord_def month_simps)
qed

lemma month_of_ymd2ord:
  assumes "valid_ymd y m d"
  shows "month_of (ymd2ord y m d) = m"
proof -
  have d: "1 \<le> d" "d \<le> days_in_month y m" and "1 \<le> m" "m \<le> 12"
    using assms by (simp_all add: valid_ymd_def)
  then have m: "m \<in> {1, 2, 3, 4, 5, 6, 7, 8, 9, 10, 11, 12}" by (intro month_cases)
  from m d show ?thesis
    unfolding month_of_def year_of_ymd2ord [OF assms] Let_def
    by (cases "is_leap y"; elim insertE emptyE) (simp_all add: ymd2ord_def month_simps)
qed

lemma ymd_roundtrip:
  assumes "valid_ymd y m d"
  shows "year_of (ymd2ord y m d) = y" "month_of (ymd2ord y m d) = m" "day_of (ymd2ord y m d) = d"
  using year_of_ymd2ord [OF assms] month_of_ymd2ord [OF assms]
  by (simp_all add: day_of_def ymd2ord_def)

lemma ord_roundtrip [simp]: "ymd2ord (year_of n) (month_of n) (day_of n) = n"
  by (simp add: ymd2ord_def day_of_def)

lemma valid_ymd_of: "valid_ymd (year_of n) (month_of n) (day_of n)"
proof -
  define y k where "y = year_of n" and "k = n - days_before_year y"
  let ?D = "days_before_month y"
  have k: "1 \<le> k" "k \<le> (if is_leap y then 366 else 365)"
    using year_of_bounds [of n] days_before_year_Suc [of y] by (simp_all add: k_def y_def)
  have m: "valid_ymd y m (k - ?D m)" if "month_of n = m" "1 \<le> m" "m \<le> 12" "?D m < k" "k \<le> ?D m + days_in_month y m" for m
    using that by (simp add: valid_ymd_def)
  have eq: "day_of n = k - ?D (month_of n)" by (simp add: day_of_def k_def y_def)
  note mo = month_of_def [of n, folded y_def, unfolded Let_def, folded k_def]
  have "\<exists>m. month_of n = m \<and> 1 \<le> m \<and> m \<le> 12 \<and> ?D m < k \<and> k \<le> ?D m + days_in_month y m"
  proof -
    consider "k \<le> ?D 2" | "?D 2 < k" "k \<le> ?D 3" | "?D 3 < k" "k \<le> ?D 4" | "?D 4 < k" "k \<le> ?D 5"
      | "?D 5 < k" "k \<le> ?D 6" | "?D 6 < k" "k \<le> ?D 7" | "?D 7 < k" "k \<le> ?D 8" | "?D 8 < k" "k \<le> ?D 9"
      | "?D 9 < k" "k \<le> ?D 10" | "?D 10 < k" "k \<le> ?D 11" | "?D 11 < k" "k \<le> ?D 12" | "?D 12 < k"
      by linarith
    then show ?thesis
      unfolding mo by cases (use k in \<open>simp_all add: month_simps split: if_splits\<close>)
  qed
  then show ?thesis using m eq by (auto simp: y_def)
qed

end
