(* ===== verification/Models.thy ===== *)
theory Models
  imports PyDecimal PyDate
begin

text \<open>
  \<^verbatim>\<open>usali/models.py\<close>: the tables of the wage spine.  A table is the list of its rows and a
  row is a record; column \<open>c\<close> of a table is the field with the table's prefix
  (\<open>ea_employee_id\<close> is \<^verbatim>\<open>EmployeeAssignment.employee_id\<close>).  Columns no modelled
  function reads (names, audit stamps, the tenancy column \<^verbatim>\<open>org_id\<close>) are left out.  A
  session is the state \<open>db\<close>: a query is a filter over a table in table order, an
  exception discards the changes, and \<^verbatim>\<open>session.get\<close> is the first row with that key.
\<close>

section \<open>Rows\<close>

record Property =
  pr_property_id :: string
  pr_timezone :: string
  pr_wage_jurisdiction :: "string option"

record Department =
  de_department_id :: int
  de_property_id :: string
  de_name :: string

record Position =
  po_position_id :: int
  po_flsa_exempt :: bool

record Employee =
  em_employee_id :: int
  em_keycloak_subject :: "string option"
  em_full_name :: string
  em_pay_type :: string
  em_full_part_time :: "string option"
  em_i9_submitted_on :: "date option"
  em_w4_submitted_on :: "date option"
  em_employment_status :: string
  em_payroll_data_complete :: bool
  em_hire_date :: "date option"
  em_termination_date :: "date option"
  em_compensation_note :: "string option"

record EmployeeAssignment =
  ea_assignment_id :: int
  ea_employee_id :: int
  ea_property_id :: string
  ea_department_id :: "int option"
  ea_position_id :: "int option"
  ea_is_primary :: bool
  ea_status :: string
  ea_effective_from :: date
  ea_effective_to :: "date option"

record RoleAssignment =
  ra_keycloak_subject :: string
  ra_role :: string
  ra_property_id :: "string option"
  ra_department_id :: "int option"

record KioskDevice =
  kd_device_id :: int
  kd_property_id :: string
  kd_name :: string
  kd_token_hash :: string
  kd_enrolled_by :: string
  kd_last_seen_at :: "instant option"
  kd_revoked_at :: "instant option"

record Punch =
  pn_punch_id :: int
  pn_employee_id :: int
  pn_kiosk_device_id :: int
  pn_punch_type :: string
  pn_punched_at :: instant
  pn_business_date :: date
  pn_photo_key :: "string option"
  pn_timecard_id :: "int option"
  pn_match_state :: "string option"

text \<open>The embedding is encrypted: \<open>None\<close> is a value that does not decrypt.\<close>

record EmployeeFaceTemplate =
  ft_employee_id :: int
  ft_embedding :: "string option"
  ft_model_version :: string

record Timecard =
  tc_timecard_id :: int
  tc_employee_id :: int
  tc_period_start :: date
  tc_period_end :: date
  tc_status :: string
  tc_approved_by :: "string option"
  tc_approved_at :: "instant option"
  tc_photos_purged_at :: "instant option"

record TimecardAdjustment =
  ta_timecard_id :: int
  ta_punch_type :: string
  ta_adjusted_at :: instant
  ta_business_date :: date
  ta_reason :: string
  ta_actor_subject :: string
  ta_property_id :: "string option"

record UsaliLaborFact =
  lf_property_id :: string
  lf_business_date :: date
  lf_department_id :: "int option"
  lf_hours :: decimal
  lf_ot_hours :: decimal
  lf_est_cost :: decimal
  lf_timecard_id :: int

text \<open>
  \<^verbatim>\<open>AssignmentRate.amount\<close> is an encrypted decimal string: \<open>None\<close> is a text that does not
  decrypt to a decimal.
\<close>

record AssignmentRate =
  ar_assignment_id :: int
  ar_rate_type :: string
  ar_amount :: "decimal option"
  ar_effective_from :: date
  ar_effective_to :: "date option"

record SickLeaveLedger =
  sl_employee_id :: int
  sl_entry_type :: string
  sl_hours :: decimal
  sl_cap_hours :: "decimal option"
  sl_effective_on :: date
  sl_timecard_id :: "int option"

record AuditEvent =
  au_actor_subject :: string
  au_action :: string
  au_resource_type :: string
  au_resource_id :: string

record FiscalCalendar =
  fc_property_id :: string
  fc_calendar_type :: string
  fc_fiscal_year_start_month :: int
  fc_week_start_weekday :: "int option"

record GlAccount =
  ga_org_id :: int
  ga_account_code :: string
  ga_name :: string
  ga_account_type :: string
  ga_usali_schedule_id :: "int option"
  ga_usali_major_category :: "string option"
  ga_usali_sub_category :: "string option"
  ga_usali_line_item :: "string option"
  ga_system_role :: "string option"
  ga_is_active :: bool

record UsaliFinancialFact =
  ff_fact_id :: int
  ff_property_id :: string
  ff_business_date :: date
  ff_usali_schedule_id :: "int option"
  ff_usali_major_category :: string
  ff_usali_sub_category :: string
  ff_usali_line_item :: string
  ff_gl_account_code :: "string option"
  ff_amount :: decimal

text \<open>The two values \<^verbatim>\<open>ck_journal_line_posting\<close> admits.\<close>

datatype posting = Debit | Credit

record JournalEntry =
  je_entry_id :: int
  je_property_id :: string
  je_business_date :: date
  je_source_type :: string
  je_source_hash :: string
  je_posted_by :: string
  je_reversal_of :: "int option"
  je_memo :: "string option"

record JournalLine =
  jl_line_id :: int
  jl_entry_id :: int
  jl_account_code :: string
  jl_posting :: posting
  jl_amount :: decimal
  jl_memo :: "string option"
  jl_fact_id :: "int option"

text \<open>A message of the posting ledger is the refusal it renders.\<close>

datatype gl_message = Refused err | FactsGone string date string

record GlPostingLedger =
  pl_property_id :: string
  pl_business_date :: date
  pl_source_type :: string
  pl_source_hash :: "string option"
  pl_entry_id :: "int option"
  pl_status :: string
  pl_message :: "gl_message option"
  pl_posted_at :: instant

record GlPeriodEvent =
  pe_period_event_id :: int
  pe_property_id :: string
  pe_period_key :: string
  pe_event :: string
  pe_actor_subject :: string
  pe_reason :: "string option"

section \<open>The state\<close>

record db =
  properties :: "Property list"
  departments :: "Department list"
  positions :: "Position list"
  employees :: "Employee list"
  assignments :: "EmployeeAssignment list"
  role_assignments :: "RoleAssignment list"
  devices :: "KioskDevice list"
  punches :: "Punch list"
  face_templates :: "EmployeeFaceTemplate list"
  timecards :: "Timecard list"
  adjustments :: "TimecardAdjustment list"
  labor_facts :: "UsaliLaborFact list"
  assignment_rates :: "AssignmentRate list"
  sick_ledger :: "SickLeaveLedger list"
  audit_events :: "AuditEvent list"
  fiscal_calendars :: "FiscalCalendar list"
  gl_accounts :: "GlAccount list"
  financial_facts :: "UsaliFinancialFact list"
  journal_entries :: "JournalEntry list"
  journal_lines :: "JournalLine list"
  gl_ledger :: "GlPostingLedger list"
  period_events :: "GlPeriodEvent list"

definition empty_db :: db where
  "empty_db = \<lparr>properties = [], departments = [], positions = [], employees = [], assignments = [], role_assignments = [],
     devices = [], punches = [], face_templates = [], timecards = [], adjustments = [], labor_facts = [], assignment_rates = [],
     sick_ledger = [], audit_events = [], fiscal_calendars = [], gl_accounts = [], financial_facts = [],
     journal_entries = [], journal_lines = [], gl_ledger = [], period_events = []\<rparr>"

definition get_property :: "db \<Rightarrow> string \<Rightarrow> Property option" where
  "get_property s p = find (\<lambda>r. pr_property_id r = p) (properties s)"

definition get_position :: "db \<Rightarrow> int \<Rightarrow> Position option" where
  "get_position s i = find (\<lambda>r. po_position_id r = i) (positions s)"

definition get_employee :: "db \<Rightarrow> int \<Rightarrow> Employee option" where
  "get_employee s i = find (\<lambda>r. em_employee_id r = i) (employees s)"

definition get_assignment :: "db \<Rightarrow> int \<Rightarrow> EmployeeAssignment option" where
  "get_assignment s i = find (\<lambda>r. ea_assignment_id r = i) (assignments s)"

definition get_department :: "db \<Rightarrow> int \<Rightarrow> Department option" where
  "get_department s i = find (\<lambda>r. de_department_id r = i) (departments s)"

definition get_timecard_row :: "db \<Rightarrow> int \<Rightarrow> Timecard option" where
  "get_timecard_row s i = find (\<lambda>r. tc_timecard_id r = i) (timecards s)"

definition get_device :: "db \<Rightarrow> int \<Rightarrow> KioskDevice option" where
  "get_device s i = find (\<lambda>r. kd_device_id r = i) (devices s)"

text \<open>\<^verbatim>\<open>autoincrement\<close> keys: one more than the largest in the table.\<close>

definition next_id :: "int list \<Rightarrow> int" where
  "next_id ids = fold max ids 0 + 1"

lemma fold_max_ge: "i \<in> set ids \<Longrightarrow> i \<le> fold max ids (a :: int)" "a \<le> fold max ids a"
proof (induction ids arbitrary: a)
  case (Cons x xs)
  case 1
  then show ?case using Cons.IH(1) [of "max x a"] Cons.IH(2) [of "max x a"] by auto
next
  case (Cons x xs)
  case 2
  then show ?case using Cons.IH(2) [of "max x a"] by simp
qed simp_all

lemma next_id_fresh: "next_id ids \<notin> set ids"
proof
  assume "next_id ids \<in> set ids"
  from fold_max_ge(1) [OF this, of 0] show False by (simp add: next_id_def)
qed

end
