(* ===== verification/Attendance.thy ===== *)
theory Attendance
  imports Apportion Models
begin

text \<open>
  \<^verbatim>\<open>usali/attendance.py\<close> and the engine half of \<^verbatim>\<open>usali/timecards.py\<close>: the business date of a
  punch, the punch-order state machine, and the pure computation of one day's worked
  minutes and warnings from the merged timeline of punches and adjustments.

  Instants are microseconds, so \<^verbatim>\<open>int((b - a).total_seconds() // 60)\<close> is integer division by
  \<open>minute\<close>; the float that \<^verbatim>\<open>total_seconds\<close> returns is exact to the microsecond for
  the differences of two timestamps of the same decades.
\<close>

definition minute :: int where "minute = 60000000"
definition hour :: int where "hour = 3600000000"
definition day :: int where "day = 86400000000"

section \<open>Business dates\<close>

text \<open>
  The timezone database is a parameter: \<open>tz name\<close> is \<open>None\<close> for a zone that
  \<^verbatim>\<open>ZoneInfo\<close> does not find, otherwise the UTC offset at an instant, in microseconds.
\<close>

type_synonym tzdb = "string \<Rightarrow> (instant \<Rightarrow> int) option"

definition EPOCH_ORDINAL :: date where "EPOCH_ORDINAL = 719163"

definition local_date :: "int \<Rightarrow> date" where
  "local_date t = EPOCH_ORDINAL + t div day"

definition business_date_for :: "tzdb \<Rightarrow> instant \<Rightarrow> string \<Rightarrow> int \<Rightarrow> date res" where
  "business_date_for tz punched_at timezone cutoff_hour =
     (case tz timezone of
        None \<Rightarrow> Inl KeyError
      | Some offset \<Rightarrow>
          let lcl = punched_at + offset punched_at in
          if (lcl mod day) div hour < cutoff_hour then Inr (local_date (lcl - day))
          else Inr (local_date lcl))"

definition PERIOD_DAYS :: int where "PERIOD_DAYS = 14"

definition period_for :: "date \<Rightarrow> date \<Rightarrow> date \<times> date" where
  "period_for business_date anchor =
     (let index = (business_date - anchor) div PERIOD_DAYS;
          start = anchor + index * PERIOD_DAYS
      in (start, start + (PERIOD_DAYS - 1)))"

definition period_in_progress :: "tzdb \<Rightarrow> date \<Rightarrow> instant \<Rightarrow> string \<Rightarrow> int \<Rightarrow> bool res" where
  "period_in_progress tz period_end now timezone cutoff_hour =
     bindE (business_date_for tz now timezone cutoff_hour) (\<lambda>d. Inr (period_end \<ge> d))"

section \<open>The punch state machine\<close>

datatype PunchState = Out | In | OnBreak

definition OPEN_SHIFT_MAX_HOURS :: int where "OPEN_SHIFT_MAX_HOURS = 18"

definition STATE_AFTER :: "(string, PunchState) dict" where
  "STATE_AFTER = [(''clock_in'', In), (''lunch_start'', OnBreak), (''lunch_end'', In), (''clock_out'', Out)]"

fun ALLOWED_NEXT :: "PunchState \<Rightarrow> string list" where
  "ALLOWED_NEXT Out = [''clock_in'']"
| "ALLOWED_NEXT In = [''lunch_start'', ''clock_out'']"
| "ALLOWED_NEXT OnBreak = [''lunch_end'']"

text \<open>The dash of the second message is an em dash in the source.\<close>

definition REFUSALS :: "(PunchState \<times> string, string) dict" where
  "REFUSALS =
     [((In, ''clock_in''), ''already clocked in''),
      ((OnBreak, ''clock_in''), ''already clocked in - end lunch first''),
      ((Out, ''lunch_start''), ''clock in before starting lunch''),
      ((OnBreak, ''lunch_start''), ''lunch already started''),
      ((Out, ''lunch_end''), ''no lunch to end''),
      ((In, ''lunch_end''), ''no lunch to end''),
      ((Out, ''clock_out''), ''not clocked in''),
      ((OnBreak, ''clock_out''), ''end lunch before clocking out'')]"

definition refuse_punch :: "PunchState \<Rightarrow> string \<Rightarrow> string option" where
  "refuse_punch st punch_type =
     (if punch_type \<in> set (ALLOWED_NEXT st) then None
      else Some (dict_get REFUSALS (st, punch_type) ''punch out of order''))"

text \<open>
  \<^verbatim>\<open>ORDER BY punched_at DESC LIMIT 1\<close> is the head of the rows sorted by falling time.
\<close>

definition punch_state :: "db \<Rightarrow> int \<Rightarrow> instant \<Rightarrow> PunchState" where
  "punch_state s employee_id now =
     (case sort_key (\<lambda>p. - pn_punched_at p) (filter (\<lambda>p. pn_employee_id p = employee_id) (punches s)) of
        [] \<Rightarrow> Out
      | latest # _ \<Rightarrow>
          let st = dict_get STATE_AFTER (pn_punch_type latest) Out in
          if st = Out then Out
          else if now - pn_punched_at latest > OPEN_SHIFT_MAX_HOURS * hour then Out
          else st)"

definition punch_states :: "db \<Rightarrow> int list \<Rightarrow> instant \<Rightarrow> (int, PunchState) dict" where
  "punch_states s employee_ids now =
     (if employee_ids = [] then []
      else
        let rows = sort_key pn_punched_at
                     (filter (\<lambda>p. pn_employee_id p \<in> set employee_ids
                                \<and> pn_punched_at p \<ge> now - OPEN_SHIFT_MAX_HOURS * hour) (punches s));
            st = fold (\<lambda>p d. AList.update (pn_employee_id p) (dict_get STATE_AFTER (pn_punch_type p) Out) d) rows []
        in map (\<lambda>e. (e, dict_get st e Out)) (remdups employee_ids))"

section \<open>One day\<close>

record Event =
  ev_punch_type :: string
  ev_at :: instant
  ev_property_id :: "string option"

record DayResult =
  dr_business_date :: date
  dr_worked_minutes :: int
  dr_warnings :: "string list"
  dr_property_minutes :: "(string option, int) dict"

text \<open>The local variables of the loop in \<^verbatim>\<open>compute_day\<close>.\<close>

record DayLoop =
  shift_minutes :: int
  gross_by_property :: "(string option, int) dict"
  open_in :: "instant option"
  open_in_property :: "string option"
  lunch_minutes :: int
  open_lunch :: "instant option"
  first_in :: "instant option"
  lunch_started :: "instant option"
  warnings :: "string list"

definition day_init :: DayLoop where
  "day_init = \<lparr>shift_minutes = 0, gross_by_property = [], open_in = None, open_in_property = None,
     lunch_minutes = 0, open_lunch = None, first_in = None, lunch_started = None, warnings = []\<rparr>"

definition day_step :: "Event \<Rightarrow> DayLoop \<Rightarrow> DayLoop" where
  "day_step event st =
    (if ev_punch_type event = ''clock_in'' then
       st\<lparr>warnings := (if open_in st \<noteq> None then warnings st @ [''missing_clock_out''] else warnings st),
          first_in := (if first_in st = None then Some (ev_at event) else first_in st),
          open_in := Some (ev_at event),
          open_in_property := ev_property_id event\<rparr>
     else if ev_punch_type event = ''clock_out'' then
       (case open_in st of
          None \<Rightarrow> st\<lparr>warnings := warnings st @ [''missing_clock_in'']\<rparr>
        | Some t \<Rightarrow>
            let span = (ev_at event - t) div minute in
            st\<lparr>shift_minutes := shift_minutes st + span,
               gross_by_property := dict_add (open_in_property st) span (gross_by_property st),
               open_in := None,
               open_in_property := None\<rparr>)
     else if ev_punch_type event = ''lunch_start'' then
       st\<lparr>warnings := (if open_lunch st \<noteq> None then warnings st @ [''missing_lunch_end''] else warnings st),
          open_lunch := Some (ev_at event),
          lunch_started := (if lunch_started st = None then Some (ev_at event) else lunch_started st)\<rparr>
     else if ev_punch_type event = ''lunch_end'' then
       (case open_lunch st of
          None \<Rightarrow> st\<lparr>warnings := warnings st @ [''missing_lunch_start'']\<rparr>
        | Some t \<Rightarrow>
            st\<lparr>lunch_minutes := lunch_minutes st + (ev_at event - t) div minute, open_lunch := None\<rparr>)
     else st)"

definition MEAL_REQUIRED_AFTER_MINUTES :: int where "MEAL_REQUIRED_AFTER_MINUTES = 300"
definition MEAL_MINIMUM_MINUTES :: int where "MEAL_MINIMUM_MINUTES = 30"

definition close_warnings :: "DayLoop \<Rightarrow> string list" where
  "close_warnings st =
     (if open_in st \<noteq> None then [''missing_clock_out''] else [])
   @ (if open_lunch st \<noteq> None then [''missing_lunch_end''] else [])"

definition meal_warnings :: "DayLoop \<Rightarrow> string list" where
  "meal_warnings st =
     (if shift_minutes st > MEAL_REQUIRED_AFTER_MINUTES then
        (case lunch_started st of
           None \<Rightarrow> [''no_meal_break'']
         | Some l \<Rightarrow>
             (case first_in st of
                None \<Rightarrow> []
              | Some f \<Rightarrow> if (l - f) div minute > MEAL_REQUIRED_AFTER_MINUTES then [''late_meal_break''] else []))
      else [])
   @ (if lunch_started st \<noteq> None \<and> 0 < lunch_minutes st \<and> lunch_minutes st < MEAL_MINIMUM_MINUTES
      then [''short_meal_break''] else [])"

text \<open>
  \<^verbatim>\<open>_apportion\<close>.  The keys are property ids or \<^verbatim>\<open>None\<close>, sorted by \<^verbatim>\<open>str\<close>.
\<close>

definition str_opt :: "string option \<Rightarrow> string" where
  "str_opt k = (case k of None \<Rightarrow> ''None'' | Some p \<Rightarrow> p)"

definition apportion_minutes :: "int \<Rightarrow> (string option, int) dict \<Rightarrow> (string option, int) dict res" where
  "apportion_minutes tot gross =
     (if gross = [] \<or> dict_sum gross \<le> 0 \<or> tot \<le> 0 then Inr []
      else bindE (apportion str_opt (of_int tot) (dec_weights gross) 1) (\<lambda>shares.
             Inr (map (\<lambda>(k, v). (k, round_int ROUND_DOWN v)) (filter (\<lambda>(k, v). v > 0) shares))))"

definition compute_day :: "date \<Rightarrow> Event list \<Rightarrow> DayResult res" where
  "compute_day business_date events =
    (let st = fold day_step (sort_key ev_at events) day_init;
         worked = max (shift_minutes st - lunch_minutes st) 0
     in bindE (apportion_minutes worked (gross_by_property st)) (\<lambda>pm.
          Inr \<lparr>dr_business_date = business_date, dr_worked_minutes = worked,
               dr_warnings = warnings st @ close_warnings st @ meal_warnings st,
               dr_property_minutes = pm\<rparr>))"

section \<open>The split of the worked minutes\<close>

text \<open>What the rest of the program needs of a minute split.\<close>

definition minutes_of :: "int \<Rightarrow> (string option, int) dict \<Rightarrow> (string option, int) dict \<Rightarrow> bool" where
  "minutes_of tot gross pm \<longleftrightarrow>
     distinct (keys pm) \<and> set (keys pm) \<subseteq> set (keys gross) \<and> (\<forall>v \<in> set (map snd pm). 0 < v) \<and> dict_sum pm = tot"

lemma dict_sum_positive_part:
  fixes cs :: "('k, int) dict"
  assumes "\<forall>c \<in> set (map snd cs). 0 \<le> c"
  shows "dict_sum (filter (\<lambda>(k, c). 0 < c) cs) = dict_sum cs"
  using assms by (induction cs) auto

lemma positive_shares:
  "map (\<lambda>(k, v). (k, round_int ROUND_DOWN v)) (filter (\<lambda>(k, v). v > 0) (quanta 1 cs)) = filter (\<lambda>(k, c). 0 < c) cs"
  by (induction cs) (auto simp: quanta_def)

lemma apportion_minutes_ok:
  assumes "distinct (keys gross)" "\<forall>v \<in> set (map snd gross). 0 \<le> v"
    and "0 \<le> tot" "tot \<le> dict_sum gross" "dict_sum gross < 10 ^ 13"
  shows "\<exists>pm. apportion_minutes tot gross = Inr pm \<and> minutes_of tot gross pm"
proof (cases "gross = [] \<or> dict_sum gross \<le> 0 \<or> tot \<le> 0")
  case True
  then have "tot = 0" using assms(3,4) by auto
  with True show ?thesis by (auto simp: apportion_minutes_def minutes_of_def)
next
  case False
  then have pos: "0 < tot" "0 < dict_sum gross" by auto
  have "tot * dict_sum gross < 10 ^ 13 * 10 ^ 13"
    using assms pos by (intro mult_strict_mono') auto
  then have "int_weights tot gross" using assms pos by (simp add: int_weights_def)
  from minutes.split_nonneg [OF this order_less_imp_le [OF pos(1)]] obtain cs where
    cs: "apportion str_opt (of_int tot) (dec_weights gross) 1 = Inr (quanta 1 cs)" "distinct (keys cs)"
      "set (keys cs) = set (keys gross)" "dict_sum cs = tot" "\<forall>c \<in> set (map snd cs). 0 \<le> c \<and> c \<le> tot"
    by blast
  let ?pm = "filter (\<lambda>(k, c). 0 < c) cs"
  have "apportion_minutes tot gross = Inr ?pm"
    using False by (simp add: apportion_minutes_def cs(1) positive_shares)
  moreover have "minutes_of tot gross ?pm"
    using cs(2-5) dict_sum_positive_part [of cs]
    by (auto simp: minutes_of_def distinct_map_filter)
  ultimately show ?thesis by blast
qed

section \<open>The loop invariant\<close>

text \<open>
  After events up to time \<open>T\<close>, none before \<open>t\<^sub>0\<close>: the gross minutes per property are
  non-negative and add up to the shift, which fits in the time that has passed before
  the open clock-in (or \<open>T\<close>).
\<close>

definition day_inv :: "instant \<Rightarrow> instant \<Rightarrow> DayLoop \<Rightarrow> bool" where
  "day_inv t0 T st \<longleftrightarrow>
     t0 \<le> T \<and> distinct (keys (gross_by_property st)) \<and> (\<forall>v \<in> set (map snd (gross_by_property st)). 0 \<le> v)
   \<and> dict_sum (gross_by_property st) = shift_minutes st \<and> 0 \<le> lunch_minutes st
   \<and> (case open_lunch st of None \<Rightarrow> True | Some l \<Rightarrow> l \<le> T)
   \<and> (case open_in st of None \<Rightarrow> shift_minutes st * minute \<le> T - t0
      | Some t \<Rightarrow> t \<le> T \<and> shift_minutes st * minute \<le> t - t0)"

lemma dict_add_nonneg:
  fixes d :: "('k, int) dict"
  assumes "\<forall>v \<in> set (map snd d). 0 \<le> v" "0 \<le> x"
  shows "\<forall>v \<in> set (map snd (dict_add k x d)). 0 \<le> v"
proof -
  have upd: "set (map snd (AList.update k y d)) \<subseteq> insert y (set (map snd d))" for y and d :: "('k, int) dict"
    by (induction d) auto
  have "0 \<le> dict_get d k 0" using assms(1) by (induction d) auto
  with assms(2) upd [of "dict_get d k 0 + x" d] assms(1) show ?thesis
    unfolding dict_add_def by fastforce
qed

lemma span_bounds:
  assumes "t \<le> u"
  shows "0 \<le> (u - t) div minute" "(u - t) div minute * minute \<le> u - t"
  using assms by (simp_all add: minute_def pos_imp_zdiv_nonneg_iff)

lemma day_inv_step:
  assumes inv: "day_inv t0 T st" and le: "T \<le> ev_at e"
  shows "day_inv t0 (ev_at e) (day_step e st)"
proof -
  have in_le: "t \<le> ev_at e" if "open_in st = Some t" for t using inv le that by (simp add: day_inv_def)
  have lunch_le: "t \<le> ev_at e" if "open_lunch st = Some t" for t using inv le that by (simp add: day_inv_def)
  have "day_inv t0 (ev_at e) (day_step e st)" if "ev_punch_type e = ''clock_out''" "open_in st = Some t" for t
  proof -
    let ?span = "(ev_at e - t) div minute"
    have sp: "0 \<le> ?span" "?span * minute \<le> ev_at e - t" using span_bounds [OF in_le [OF that(2)]] by auto
    have "shift_minutes st * minute \<le> t - t0" using inv that(2) by (simp add: day_inv_def)
    with sp have "(shift_minutes st + ?span) * minute \<le> ev_at e - t0" by (simp add: algebra_simps)
    moreover have "day_step e st = st\<lparr>shift_minutes := shift_minutes st + ?span,
        gross_by_property := dict_add (open_in_property st) ?span (gross_by_property st),
        open_in := None, open_in_property := None\<rparr>"
      using that by (simp add: day_step_def Let_def)
    moreover have "\<forall>v \<in> set (map snd (dict_add (open_in_property st) ?span (gross_by_property st))). 0 \<le> v"
      using inv sp(1) by (intro dict_add_nonneg) (auto simp: day_inv_def)
    moreover have "case open_lunch st of None \<Rightarrow> True | Some l \<Rightarrow> l \<le> ev_at e"
      using lunch_le by (simp split: option.split)
    ultimately show ?thesis using inv le by (simp add: day_inv_def)
  qed
  moreover have "day_inv t0 (ev_at e) (day_step e st)" if "\<not> (ev_punch_type e = ''clock_out'' \<and> open_in st \<noteq> None)"
    using inv le that lunch_le span_bounds(1)
    by (auto simp: day_inv_def day_step_def split: option.splits)
  ultimately show ?thesis by blast
qed

lemma day_inv_fold:
  assumes "sorted (map ev_at es)" "day_inv t0 T st" "\<forall>e \<in> set es. T \<le> ev_at e"
  shows "\<exists>T'. day_inv t0 T' (fold day_step es st) \<and> (T' = T \<or> T' \<in> ev_at ` set es)"
  using assms
proof (induction es arbitrary: T st)
  case (Cons e es)
  have "\<exists>T'. day_inv t0 T' (fold day_step es (day_step e st)) \<and> (T' = ev_at e \<or> T' \<in> ev_at ` set es)"
    by (rule Cons.IH) (use Cons.prems day_inv_step in auto)
  then show ?case by auto
qed auto

text \<open>The timestamps a \<^verbatim>\<open>datetime\<close> can hold lie within \<open>10^18\<close> microseconds of the epoch.\<close>

definition datetimes :: "Event list \<Rightarrow> bool" where
  "datetimes es \<longleftrightarrow> (\<forall>e \<in> set es. \<bar>ev_at e\<bar> < 10 ^ 18)"

lemma day_loop_result:
  assumes "datetimes es"
  defines "st \<equiv> fold day_step (sort_key ev_at es) day_init"
  shows "distinct (keys (gross_by_property st))" "\<forall>v \<in> set (map snd (gross_by_property st)). 0 \<le> v"
    "dict_sum (gross_by_property st) = shift_minutes st" "0 \<le> lunch_minutes st" "shift_minutes st < 10 ^ 13"
proof -
  have "\<exists>t0 T. day_inv t0 T st \<and> T - t0 < 2 * 10 ^ 18"
  proof (cases "sort_key ev_at es")
    case Nil
    then have "day_inv 0 0 st" by (simp add: st_def day_init_def day_inv_def)
    then show ?thesis by (intro exI [of _ 0]) simp
  next
    case (Cons e rest)
    have srt: "sorted (map ev_at (e # rest))" unfolding Cons [symmetric] by simp
    have mem: "set (e # rest) = set es" unfolding Cons [symmetric] by simp
    have "day_inv (ev_at e) (ev_at e) day_init" by (simp add: day_init_def day_inv_def)
    from day_inv_fold [OF srt this] obtain T where T: "day_inv (ev_at e) T st" "T = ev_at e \<or> T \<in> ev_at ` set (e # rest)"
      using srt by (auto simp: st_def Cons)
    have "\<bar>T\<bar> < 10 ^ 18" "\<bar>ev_at e\<bar> < 10 ^ 18"
      using T(2) mem assms(1) by (auto simp: datetimes_def)
    then show ?thesis using T(1) by (intro exI [of _ "ev_at e"] exI [of _ T]) auto
  qed
  then obtain t0 T where inv: "day_inv t0 T st" "T - t0 < 2 * 10 ^ 18" by blast
  then show "distinct (keys (gross_by_property st))" "\<forall>v \<in> set (map snd (gross_by_property st)). 0 \<le> v"
    "dict_sum (gross_by_property st) = shift_minutes st" "0 \<le> lunch_minutes st"
    by (auto simp: day_inv_def)
  have "shift_minutes st * minute < 2 * 10 ^ 18"
    using inv by (auto simp: day_inv_def split: option.splits)
  then show "shift_minutes st < 10 ^ 13" by (simp add: minute_def)
qed

lemma compute_day_ok:
  assumes "datetimes es"
  shows "\<exists>r. compute_day d es = Inr r \<and> dr_business_date r = d \<and> 0 \<le> dr_worked_minutes r
    \<and> distinct (keys (dr_property_minutes r)) \<and> (\<forall>v \<in> set (map snd (dr_property_minutes r)). 0 < v)
    \<and> dict_sum (dr_property_minutes r) = dr_worked_minutes r"
proof -
  define st where "st = fold day_step (sort_key ev_at es) day_init"
  define worked where "worked = max (shift_minutes st - lunch_minutes st) 0"
  note st = day_loop_result [OF assms, folded st_def]
  have sh: "0 \<le> shift_minutes st" using st(2,3) by (metis dict_sum_def sum_list_nonneg)
  have "\<exists>pm. apportion_minutes worked (gross_by_property st) = Inr pm \<and> minutes_of worked (gross_by_property st) pm"
    by (rule apportion_minutes_ok) (use st sh in \<open>auto simp: worked_def\<close>)
  then obtain pm where pm: "apportion_minutes worked (gross_by_property st) = Inr pm"
    "minutes_of worked (gross_by_property st) pm" by blast
  have "compute_day d es = Inr \<lparr>dr_business_date = d, dr_worked_minutes = worked,
      dr_warnings = warnings st @ close_warnings st @ meal_warnings st, dr_property_minutes = pm\<rparr>"
    using pm(1) by (simp add: compute_day_def Let_def st_def worked_def)
  moreover have "0 \<le> worked" by (simp add: worked_def)
  ultimately show ?thesis using pm(2) by (auto simp: minutes_of_def)
qed

section \<open>Legal punch sequences\<close>

text \<open>The kiosk's order rule as a step relation on states, one punch at a time.\<close>

inductive punch_run :: "PunchState \<Rightarrow> string list \<Rightarrow> PunchState \<Rightarrow> bool" where
  finish: "punch_run st [] st"
| punch: "refuse_punch st t = None \<Longrightarrow> punch_run (dict_get STATE_AFTER t Out) ts st' \<Longrightarrow> punch_run st (t # ts) st'"

inductive_cases punch_run_ConsE: "punch_run st (t # ts) st'"
inductive_simps punch_run_Nil: "punch_run st [] st'"
inductive_simps punch_run_Cons: "punch_run st (t # ts) st'"

lemma refuse_punch_None:
  "refuse_punch st t = None \<longleftrightarrow>
     (st = Out \<and> t = ''clock_in'') \<or> (st = In \<and> (t = ''lunch_start'' \<or> t = ''clock_out'')) \<or> (st = OnBreak \<and> t = ''lunch_end'')"
  by (cases st) (auto simp: refuse_punch_def)

fun matches :: "PunchState \<Rightarrow> DayLoop \<Rightarrow> bool" where
  "matches Out st = (open_in st = None \<and> open_lunch st = None)"
| "matches In st = (open_in st \<noteq> None \<and> open_lunch st = None)"
| "matches OnBreak st = (open_in st \<noteq> None \<and> open_lunch st \<noteq> None)"

text \<open>The engine simulates the state machine: a legal punch adds no warning.\<close>

lemma day_step_legal:
  assumes "refuse_punch ps (ev_punch_type e) = None" "matches ps st"
  shows "warnings (day_step e st) = warnings st" "matches (dict_get STATE_AFTER (ev_punch_type e) Out) (day_step e st)"
  using assms by (auto simp: refuse_punch_None day_step_def STATE_AFTER_def Let_def)

lemma legal_run:
  fixes es :: "Event list" and st :: DayLoop
  assumes "punch_run ps ts ps'" "map ev_punch_type es = ts" "matches ps st"
  shows "warnings (fold day_step es st) = warnings st \<and> matches ps' (fold day_step es st)"
  using assms
proof (induction arbitrary: es st rule: punch_run.induct)
  case (finish ps)
  then show ?case by simp
next
  case (punch ps t ts ps')
  then obtain e rest where es: "es = e # rest" "ev_punch_type e = t" "map ev_punch_type rest = ts"
    by auto
  show ?case
    using punch.IH [of rest "day_step e st"] day_step_legal [of ps e st] punch.hyps(1) punch.prems es by simp
qed

lemma fold_update_get:
  "dict_get (fold (\<lambda>p d. AList.update (k p) (v p) d) rows d) e z =
     (case filter (\<lambda>p. k p = e) rows of [] \<Rightarrow> dict_get d e z | xs \<Rightarrow> v (last xs))"
proof (induction rows arbitrary: d)
  case (Cons r rs)
  show ?case by (cases "filter (\<lambda>p. k p = e) rs") (auto simp: Cons.IH)
qed simp

text \<open>The newest row, from either end of the sorted rows.\<close>

lemma hd_sort_desc:
  fixes f :: "'a \<Rightarrow> int"
  assumes "xs \<noteq> []"
  shows "hd (sort_key (\<lambda>x. - f x) xs) \<in> set xs" "\<And>y. y \<in> set xs \<Longrightarrow> f y \<le> f (hd (sort_key (\<lambda>x. - f x) xs))"
proof -
  let ?ys = "sort_key (\<lambda>x. - f x) xs"
  have ne: "?ys \<noteq> []" using assms by (metis mset_sort mset_zero_iff)
  then show "hd ?ys \<in> set xs" by (metis hd_in_set set_sort)
  fix y assume "y \<in> set xs"
  then have "y \<in> set ?ys" by simp
  moreover obtain h t where ht: "?ys = h # t" using ne by (cases ?ys) auto
  moreover have "sorted (map (\<lambda>x. - f x) ?ys)" by simp
  ultimately show "f y \<le> f (hd ?ys)" by auto
qed

lemma last_sort_asc:
  fixes f :: "'a \<Rightarrow> int"
  assumes "xs \<noteq> []"
  shows "last (sort_key f xs) \<in> set xs" "\<And>y. y \<in> set xs \<Longrightarrow> f y \<le> f (last (sort_key f xs))"
proof -
  let ?ys = "sort_key f xs"
  have ne: "?ys \<noteq> []" using assms by (metis mset_sort mset_zero_iff)
  then show "last ?ys \<in> set xs" by (metis last_in_set set_sort)
  fix y assume "y \<in> set xs"
  then have "y \<in> set ?ys" by simp
  then have "y \<in> set (butlast ?ys @ [last ?ys])" unfolding append_butlast_last_id [OF ne] .
  moreover have "sorted (map f (butlast ?ys @ [last ?ys]))" unfolding append_butlast_last_id [OF ne] by simp
  ultimately show "f y \<le> f (last ?ys)" by (auto simp: sorted_append)
qed

lemma punch_states_get:
  assumes "e \<in> set ids"
  shows "dict_get (punch_states s ids now) e Out =
    (case sort_key pn_punched_at (filter (\<lambda>p. pn_employee_id p = e \<and> pn_punched_at p \<ge> now - OPEN_SHIFT_MAX_HOURS * hour) (punches s)) of
       [] \<Rightarrow> Out | xs \<Rightarrow> dict_get STATE_AFTER (pn_punch_type (last xs)) Out)"
proof -
  let ?rows = "sort_key pn_punched_at (filter (\<lambda>p. pn_employee_id p \<in> set ids
      \<and> pn_punched_at p \<ge> now - OPEN_SHIFT_MAX_HOURS * hour) (punches s))"
  have rows: "filter (\<lambda>p. pn_employee_id p = e) ?rows = sort_key pn_punched_at
      (filter (\<lambda>p. pn_employee_id p = e \<and> pn_punched_at p \<ge> now - OPEN_SHIFT_MAX_HOURS * hour) (punches s))"
    using assms by (simp add: filter_sort) (rule arg_cong [where f = "sort_key pn_punched_at"], auto intro: filter_cong)
  have ne: "ids \<noteq> []" and mem: "e \<in> set (remdups ids)" using assms by auto
  have "dict_get (punch_states s ids now) e Out =
      dict_get (fold (\<lambda>p d. AList.update (pn_employee_id p) (dict_get STATE_AFTER (pn_punch_type p) Out) d) ?rows []) e Out"
    unfolding punch_states_def Let_def using ne by (simp only: if_False dict_get_map_Pair [OF mem])
  then show ?thesis by (simp only: fold_update_get rows dict_get_simps)
qed

lemma punch_states_agree:
  assumes "e \<in> set ids" and inj: "distinct (map pn_punched_at (filter (\<lambda>p. pn_employee_id p = e) (punches s)))"
  shows "dict_get (punch_states s ids now) e Out = punch_state s e now"
proof -
  let ?R = "filter (\<lambda>p. pn_employee_id p = e) (punches s)" and ?c = "now - OPEN_SHIFT_MAX_HOURS * hour"
  let ?W = "filter (\<lambda>p. pn_employee_id p = e \<and> pn_punched_at p \<ge> ?c) (punches s)"
  show ?thesis
  proof (cases "?R = []")
    case True
    then have "?W = []" by (auto simp: filter_empty_conv)
    with True show ?thesis by (simp add: punch_states_get [OF assms(1)] punch_state_def)
  next
    case False
    define L where "L = hd (sort_key (\<lambda>p. - pn_punched_at p) ?R)"
    have "sort_key (\<lambda>p. - pn_punched_at p) ?R \<noteq> []" using False by (metis mset_sort mset_zero_iff)
    then have st: "punch_state s e now = (let st = dict_get STATE_AFTER (pn_punch_type L) Out in
        if st = Out then Out else if pn_punched_at L < ?c then Out else st)"
      by (cases "sort_key (\<lambda>p. - pn_punched_at p) ?R") (auto simp: punch_state_def L_def Let_def)
    have L: "L \<in> set ?R" "\<And>y. y \<in> set ?R \<Longrightarrow> pn_punched_at y \<le> pn_punched_at L"
      unfolding L_def using hd_sort_desc [OF False] by auto
    show ?thesis
    proof (cases "pn_punched_at L < ?c")
      case True
      then have "?W = []" using L(2) by (fastforce simp: filter_empty_conv)
      with True show ?thesis by (simp add: punch_states_get [OF assms(1)] st Let_def)
    next
      case W: False
      then have "L \<in> set ?W" using L(1) by simp
      then have ne: "?W \<noteq> []" by (metis empty_iff empty_set)
      let ?l = "last (sort_key pn_punched_at ?W)"
      have l: "?l \<in> set ?R" using last_sort_asc(1) [OF ne] by auto
      have "pn_punched_at L \<le> pn_punched_at ?l" using last_sort_asc(2) [OF ne \<open>L \<in> set ?W\<close>] .
      then have "pn_punched_at ?l = pn_punched_at L" using L(2) [OF l] by simp
      then have "?l = L" using inj l L(1) unfolding distinct_map inj_on_def by blast
      moreover have "sort_key pn_punched_at ?W \<noteq> []" using ne by (metis mset_sort mset_zero_iff)
      ultimately show ?thesis using W
        by (cases "sort_key pn_punched_at ?W") (auto simp: punch_states_get [OF assms(1)] st Let_def)
    qed
  qed
qed

section \<open>Properties\<close>

text \<open>
  C27.  One day of any timeline, however broken, is computed without an exception: the
  worked minutes are non-negative, their split by property carries only positive
  shares, and the shares add up to the worked minutes exactly, so no minute is paid
  that no property carries and none is lost to rounding.
\<close>

theorem compute_day_exact:
  assumes "datetimes es"
  shows "\<exists>r. compute_day d es = Inr r \<and> dr_business_date r = d \<and> 0 \<le> dr_worked_minutes r
    \<and> distinct (keys (dr_property_minutes r)) \<and> (\<forall>v \<in> set (map snd (dr_property_minutes r)). 0 < v)
    \<and> dict_sum (dr_property_minutes r) = dr_worked_minutes r"
  using assms by (rule compute_day_ok)

definition example_day :: "Event list" where
  "example_day =
    [\<lparr>ev_punch_type = ''clock_out'', ev_at = 481 * minute, ev_property_id = Some ''B''\<rparr>,
     \<lparr>ev_punch_type = ''clock_in'', ev_at = 0, ev_property_id = Some ''A''\<rparr>,
     \<lparr>ev_punch_type = ''lunch_start'', ev_at = 240 * minute, ev_property_id = Some ''A''\<rparr>,
     \<lparr>ev_punch_type = ''lunch_end'', ev_at = 270 * minute, ev_property_id = Some ''A''\<rparr>]"

theorem compute_day_exact_witness:
  "datetimes example_day \<and>
   (\<exists>r. compute_day 5 example_day = Inr r \<and> dict_sum (dr_property_minutes r) = dr_worked_minutes r)"
proof
  show "datetimes example_day" by (simp add: datetimes_def example_day_def minute_def)
  then show "\<exists>r. compute_day 5 example_day = Inr r \<and> dict_sum (dr_property_minutes r) = dr_worked_minutes r"
    using compute_day_exact [of example_day 5] by blast
qed

text \<open>
  C29.  The order rule and the hours engine fit together: when every punch of a day was legal
  at the kiosk, the engine flags no missing clock-in and no missing lunch start, a
  missing clock-out exactly when the day ends with the shift still open, and a missing
  lunch end exactly when it ends on break.
\<close>

theorem legal_day_warnings:
  assumes "punch_run Out (map ev_punch_type es) final" and "sorted (map ev_at es)" and "datetimes es"
  shows "\<exists>r. compute_day d es = Inr r
    \<and> ''missing_clock_in'' \<notin> set (dr_warnings r) \<and> ''missing_lunch_start'' \<notin> set (dr_warnings r)
    \<and> (''missing_clock_out'' \<in> set (dr_warnings r) \<longleftrightarrow> final \<noteq> Out)
    \<and> (''missing_lunch_end'' \<in> set (dr_warnings r) \<longleftrightarrow> final = OnBreak)"
proof -
  define st where "st = fold day_step es day_init"
  have srt: "sort_key ev_at es = es" using assms(2) by (rule sort_key_id_if_sorted)
  have w: "warnings st = []" "matches final st"
    using legal_run [OF assms(1) refl, of day_init] by (simp_all add: st_def day_init_def)
  obtain r where r: "compute_day d es = Inr r" using compute_day_ok [OF assms(3)] by blast
  then have "dr_warnings r = close_warnings st @ meal_warnings st"
    using w(1) by (auto simp: compute_day_def Let_def srt bindE_eq_Inr_iff st_def)
  moreover have "set (meal_warnings st) \<subseteq> {''no_meal_break'', ''late_meal_break'', ''short_meal_break''}"
    by (auto simp: meal_warnings_def split: option.splits)
  ultimately show ?thesis
    using r w(2) by (cases final) (auto simp: close_warnings_def)
qed

theorem legal_day_warnings_witness:
  "\<exists>r. compute_day 5 [\<lparr>ev_punch_type = ''clock_in'', ev_at = 0, ev_property_id = Some ''A''\<rparr>,
      \<lparr>ev_punch_type = ''lunch_start'', ev_at = 240 * minute, ev_property_id = Some ''A''\<rparr>] = Inr r
    \<and> ''missing_lunch_end'' \<in> set (dr_warnings r)"
  using legal_day_warnings [of "[\<lparr>ev_punch_type = ''clock_in'', ev_at = 0, ev_property_id = Some ''A''\<rparr>,
      \<lparr>ev_punch_type = ''lunch_start'', ev_at = 240 * minute, ev_property_id = Some ''A''\<rparr>]" OnBreak 5]
  by (auto simp: punch_run_Nil punch_run_Cons refuse_punch_None STATE_AFTER_def datetimes_def minute_def)

text \<open>
   The batched roster query gives, for each employee asked, the same state as the
  per-employee query, as long as no two punches of that employee carry the same
  timestamp (with equal timestamps neither query fixes which row is last).
\<close>

theorem punch_states_equiv:
  assumes "e \<in> set ids" and "distinct (map pn_punched_at (filter (\<lambda>p. pn_employee_id p = e) (punches s)))"
  shows "dict_get (punch_states s ids now) e Out = punch_state s e now"
  using assms by (rule punch_states_agree)

theorem punch_states_equiv_witness:
  "dict_get (punch_states (empty_db\<lparr>punches := [\<lparr>pn_punch_id = 1, pn_employee_id = 7, pn_kiosk_device_id = 1,
      pn_punch_type = ''clock_in'', pn_punched_at = 0, pn_business_date = 1, pn_photo_key = None, pn_timecard_id = None, pn_match_state = None\<rparr>]\<rparr>) [7, 8] hour) 7 Out
   = punch_state (empty_db\<lparr>punches := [\<lparr>pn_punch_id = 1, pn_employee_id = 7, pn_kiosk_device_id = 1,
      pn_punch_type = ''clock_in'', pn_punched_at = 0, pn_business_date = 1, pn_photo_key = None, pn_timecard_id = None, pn_match_state = None\<rparr>]\<rparr>) 7 hour"
  by (rule punch_states_equiv) simp_all

text \<open>
   The biweekly periods tile the calendar: the period of a date contains it, is fourteen
  days long and aligned to the anchor, and two dates share a period exactly when they
  fall in the same fourteen-day block.
\<close>

theorem period_for_tiles:
  "(case period_for d anchor of (start, end) \<Rightarrow>
      start \<le> d \<and> d \<le> end \<and> end = start + 13 \<and> 14 dvd (start - anchor)
    \<and> (\<forall>d'. period_for d' anchor = (start, end) \<longleftrightarrow> start \<le> d' \<and> d' \<le> end))"
proof -
  define k where "k = (d - anchor) div 14"
  have k: "14 * k \<le> d - anchor" "d - anchor < 14 * k + 14"
    using div_bounds [of 14 "d - anchor"] by (simp_all add: k_def)
  have same: "(d' - anchor) div 14 = k \<longleftrightarrow> 14 * k \<le> d' - anchor \<and> d' - anchor < 14 * k + 14" for d'
    using div_bounds [of 14 "d' - anchor"] int_div_pos_eq [of "d' - anchor" 14 k "d' - anchor - 14 * k"] by auto
  have iff: "period_for d' anchor = (anchor + k * 14, anchor + k * 14 + 13) \<longleftrightarrow> (d' - anchor) div 14 = k" for d'
    by (auto simp: period_for_def PERIOD_DAYS_def Let_def)
  have pd: "period_for d anchor = (anchor + k * 14, anchor + k * 14 + 13)"
    unfolding iff by (simp add: k_def)
  show ?thesis unfolding pd prod.case iff same using k by auto
qed

end
