(* ===== verification/Assignments.thy ===== *)
theory Assignments
  imports Models
begin

text \<open>
  \<^verbatim>\<open>usali/assignments.py\<close>: effective-dated placements.  Which rows are in force on a date,
  which property pays an employee for a period, and who may work where.
\<close>

section \<open>Dating\<close>

definition covers :: "date \<Rightarrow> date option \<Rightarrow> date \<Rightarrow> bool" where
  "covers effective_from effective_to on =
     (if effective_from > on then False
      else case effective_to of Some t \<Rightarrow> t > on | None \<Rightarrow> True)"

definition in_effect_on :: "EmployeeAssignment \<Rightarrow> date \<Rightarrow> bool" where
  "in_effect_on a on =
     (if \<not> covers (ea_effective_from a) (ea_effective_to a) on then False
      else ea_effective_to a \<noteq> None \<or> ea_status a = ''active'')"

definition overlaps_period :: "EmployeeAssignment \<Rightarrow> date \<Rightarrow> date \<Rightarrow> bool" where
  "overlaps_period a start end =
     (if ea_effective_from a > end then False
      else if (case ea_effective_to a of Some t \<Rightarrow> t \<le> start | None \<Rightarrow> False) then False
      else ea_effective_to a \<noteq> None \<or> ea_status a = ''active'')"

section \<open>Queries\<close>

definition has_assignment_rows :: "db \<Rightarrow> int \<Rightarrow> bool" where
  "has_assignment_rows s employee_id = (\<exists>a \<in> set (assignments s). ea_employee_id a = employee_id)"

definition assignments_on :: "db \<Rightarrow> int \<Rightarrow> date \<Rightarrow> bool \<Rightarrow> EmployeeAssignment list" where
  "assignments_on s employee_id on active_only =
     (let rows = filter (\<lambda>a. ea_employee_id a = employee_id \<and> ea_effective_from a \<le> on) (assignments s)
      in if active_only then sort_key ea_property_id (filter (\<lambda>a. in_effect_on a on) rows)
         else sort_key ea_property_id
                (filter (\<lambda>a. case ea_effective_to a of None \<Rightarrow> True | Some t \<Rightarrow> t > on) rows))"

definition assignment_at :: "db \<Rightarrow> int \<Rightarrow> string \<Rightarrow> date \<Rightarrow> EmployeeAssignment option res" where
  "assignment_at s employee_id property_id on =
     (case filter (\<lambda>a. ea_property_id a = property_id) (assignments_on s employee_id on True) of
        [] \<Rightarrow> Inr None
      | [a] \<Rightarrow> Inr (Some a)
      | _ \<Rightarrow> Inl AmbiguousAssignmentError)"

definition primary_assignment_on :: "db \<Rightarrow> int \<Rightarrow> date \<Rightarrow> EmployeeAssignment option res" where
  "primary_assignment_on s employee_id on =
     (case filter ea_is_primary (assignments_on s employee_id on True) of
        [] \<Rightarrow> Inr None
      | [a] \<Rightarrow> Inr (Some a)
      | _ \<Rightarrow> Inl AmbiguousPrimaryError)"

definition employee_ids_with_primary_at :: "db \<Rightarrow> string \<Rightarrow> date \<Rightarrow> int set res" where
  "employee_ids_with_primary_at s property_id on =
     (let rows = filter (\<lambda>a. ea_property_id a = property_id \<and> ea_is_primary a \<and> ea_effective_from a \<le> on) (assignments s);
          paid = remdups (map ea_employee_id (filter (\<lambda>a. in_effect_on a on) rows))
      in bindE (mapE (\<lambda>e. primary_assignment_on s e on) paid) (\<lambda>_. Inr (set paid)))"

text \<open>\<^verbatim>\<open>_owner_on_last_covered_day\<close>: the loop over days, from \<open>on\<close> back to \<open>start\<close>.\<close>

function owner_on_last_covered_day :: "EmployeeAssignment list \<Rightarrow> date \<Rightarrow> date \<Rightarrow> string option res" where
  "owner_on_last_covered_day rows start on =
     (if on < start then Inr None
      else case remdups (map ea_property_id (filter (\<lambda>a. in_effect_on a on) rows)) of
             [] \<Rightarrow> owner_on_last_covered_day rows start (on - 1)
           | [p] \<Rightarrow> Inr (Some p)
           | _ \<Rightarrow> Inl AmbiguousPrimaryError)"
  by pat_completeness auto
termination
  by (relation "measure (\<lambda>(rows, start, on). nat (on - start + 1))") auto

declare owner_on_last_covered_day.simps [simp del]

definition employee_ids_paid_by_during :: "db \<Rightarrow> string \<Rightarrow> date \<Rightarrow> date \<Rightarrow> int set res" where
  "employee_ids_paid_by_during s property_id start end =
     (let mine = filter (\<lambda>a. overlaps_period a start end)
                   (filter (\<lambda>a. ea_property_id a = property_id \<and> ea_is_primary a \<and> ea_effective_from a \<le> end)
                     (assignments s))
      in if mine = [] then Inr {}
         else
           let rows = filter (\<lambda>a. ea_employee_id a \<in> set (map ea_employee_id mine) \<and> ea_is_primary a
                              \<and> ea_effective_from a \<le> end) (assignments s);
               all_primaries = group_by ea_employee_id rows
           in bindE (mapE (\<lambda>(e, rs). map_sum id (Pair e) (owner_on_last_covered_day rs start end)) all_primaries)
                (\<lambda>owners. Inr (set (map fst (filter (\<lambda>(e, ow). ow = Some property_id) owners)))))"

section \<open>Exemption\<close>

text \<open>\<open>is_exempt_on\<close>: every held position must say so; silence is not exemption.\<close>

definition is_exempt_on :: "db \<Rightarrow> int \<Rightarrow> date \<Rightarrow> bool" where
  "is_exempt_on s employee_id on =
     (let position_ids = List.map_filter ea_position_id (assignments_on s employee_id on True)
      in if position_ids = [] then False
         else list_all (\<lambda>i. case get_position s i of None \<Rightarrow> False | Some p \<Rightarrow> po_flsa_exempt p) position_ids)"

definition resolve_exemption :: "db \<Rightarrow> int \<Rightarrow> date list \<Rightarrow> bool res" where
  "resolve_exemption s employee_id dates =
     (case remdups (map (is_exempt_on s employee_id) dates) of
        [] \<Rightarrow> Inr False
      | [b] \<Rightarrow> Inr b
      | _ \<Rightarrow> Inl MixedExemptionError)"

section \<open>Who serves which property\<close>

definition property_ids_on :: "db \<Rightarrow> int \<Rightarrow> date \<Rightarrow> string set" where
  "property_ids_on s employee_id on = set (map ea_property_id (assignments_on s employee_id on True))"

definition employee_serves_property :: "db \<Rightarrow> int \<Rightarrow> string \<Rightarrow> date \<Rightarrow> bool" where
  "employee_serves_property s employee_id property_id on = (property_id \<in> property_ids_on s employee_id on)"

definition employee_ids_serving_property :: "db \<Rightarrow> string \<Rightarrow> date \<Rightarrow> int set" where
  "employee_ids_serving_property s property_id on =
     set (map ea_employee_id (filter (\<lambda>a. in_effect_on a on)
       (filter (\<lambda>a. ea_property_id a = property_id) (assignments s))))"

section \<open>Half-open dating as an interface\<close>

text \<open>
  What a client of dated rows relies on: a row never holds before its start date, and
  once it has an end date, dating alone governs.
\<close>

locale dated_rows =
  fixes starts :: "'r \<Rightarrow> date"
    and ends :: "'r \<Rightarrow> date option"
    and holds :: "'r \<Rightarrow> date \<Rightarrow> bool"
  assumes holds_start: "holds r d \<Longrightarrow> starts r \<le> d"
    and holds_closed: "ends r = Some t \<Longrightarrow> holds r d \<longleftrightarrow> starts r \<le> d \<and> d < t"
begin

text \<open>A handover dated \<open>d\<close> gives that day to the new row and none of it to the old.\<close>

lemma handover:
  assumes "ends old = Some d" "starts new = d"
  shows "\<not> (holds old e \<and> holds new e)"
  using assms holds_closed [of old d e] holds_start [of new e] by auto

text \<open>A chain of rows, each closed where the next begins, never has two rows in force.\<close>

fun chain :: "'r list \<Rightarrow> bool" where
  "chain [] = True"
| "chain [r] = True"
| "chain (r # q # rs) = (ends r = Some (starts q) \<and> starts r \<le> starts q \<and> chain (q # rs))"

lemma chain_starts: "chain (q # rs) \<Longrightarrow> x \<in> set (q # rs) \<Longrightarrow> starts q \<le> starts x"
proof (induction rs arbitrary: q)
  case Nil
  then show ?case by simp
next
  case (Cons r rs)
  then show ?case by force
qed

lemma chain_at_most_one: "chain rs \<Longrightarrow> length (filter (\<lambda>r. holds r d) rs) \<le> 1"
proof (induction rs rule: chain.induct)
  case (3 r q rs)
  show ?case
  proof (cases "holds r d")
    case True
    with "3.prems" have "d < starts q" using holds_closed by auto
    then have "filter (\<lambda>r. holds r d) (q # rs) = []"
      using chain_starts [of q rs] "3.prems" holds_start
      by (auto simp: filter_empty_conv dest!: holds_start) force
    with True show ?thesis by simp
  next
    case False
    with 3 show ?thesis by simp
  qed
qed simp_all

end

interpretation placement: dated_rows ea_effective_from ea_effective_to in_effect_on
  by unfold_locales (auto simp: in_effect_on_def covers_def split: option.splits if_splits)

section \<open>Resolution\<close>

lemma in_effect_on_iff:
  "in_effect_on a d \<longleftrightarrow> ea_effective_from a \<le> d \<and>
     (case ea_effective_to a of Some t \<Rightarrow> d < t | None \<Rightarrow> ea_status a = ''active'')"
  by (auto simp: in_effect_on_def covers_def split: option.splits)

lemma set_assignments_on:
  "set (assignments_on s e d True) = {a \<in> set (assignments s). ea_employee_id a = e \<and> in_effect_on a d}"
  by (auto simp: assignments_on_def Let_def in_effect_on_iff)

lemma overlaps_periodI:
  "in_effect_on a d \<Longrightarrow> start \<le> d \<Longrightarrow> d \<le> end \<Longrightarrow> overlaps_period a start end"
  by (auto simp: in_effect_on_iff overlaps_period_def split: option.splits)

text \<open>
  The period test agrees with the date test on every row whose range is not empty.
\<close>

lemma overlaps_period_iff:
  assumes "start \<le> end" "\<And>t. ea_effective_to a = Some t \<Longrightarrow> ea_effective_from a < t"
  shows "overlaps_period a start end \<longleftrightarrow> (\<exists>d. start \<le> d \<and> d \<le> end \<and> in_effect_on a d)"
proof
  assume ov: "overlaps_period a start end"
  let ?d = "max start (ea_effective_from a)"
  have "start \<le> ?d \<and> ?d \<le> end \<and> in_effect_on a ?d"
    using ov assms by (auto simp: overlaps_period_def in_effect_on_iff split: option.splits if_splits)
  then show "\<exists>d. start \<le> d \<and> d \<le> end \<and> in_effect_on a d" by blast
qed (auto intro: overlaps_periodI)

text \<open>
  \<open>last_owner\<close> is the sentence the docstring states: the property holding the primary on
  the latest day of the period on which any of the rows was in force.
\<close>

definition last_owner :: "EmployeeAssignment list \<Rightarrow> date \<Rightarrow> date \<Rightarrow> string \<Rightarrow> bool" where
  "last_owner rows start end p \<longleftrightarrow>
     (\<exists>d. start \<le> d \<and> d \<le> end
       \<and> (\<exists>a \<in> set rows. in_effect_on a d) \<and> (\<forall>a \<in> set rows. in_effect_on a d \<longrightarrow> ea_property_id a = p)
       \<and> (\<forall>d'. d < d' \<and> d' \<le> end \<longrightarrow> (\<forall>a \<in> set rows. \<not> in_effect_on a d')))"

lemma remdups_eq_singleton: "remdups xs = [x] \<longleftrightarrow> set xs = {x}"
proof
  assume "remdups xs = [x]"
  then have "set (remdups xs) = {x}" by simp
  then show "set xs = {x}" by simp
next
  assume set: "set xs = {x}"
  then have "length (remdups xs) = 1" by (simp add: length_remdups_card_conv)
  then obtain y where y: "remdups xs = [y]" by (auto simp: length_Suc_conv)
  then have "set (remdups xs) = {y}" by simp
  then have "y = x" unfolding set_remdups set by simp
  with y show "remdups xs = [x]" by simp
qed

lemma last_owner_step:
  assumes "\<forall>a \<in> set rows. \<not> in_effect_on a on"
  shows "last_owner rows start on p \<longleftrightarrow> last_owner rows start (on - 1) p"
proof
  assume "last_owner rows start on p"
  then obtain d where d: "start \<le> d" "d \<le> on" "\<exists>a \<in> set rows. in_effect_on a d"
    "\<forall>a \<in> set rows. in_effect_on a d \<longrightarrow> ea_property_id a = p"
    "\<forall>d'. d < d' \<and> d' \<le> on \<longrightarrow> (\<forall>a \<in> set rows. \<not> in_effect_on a d')"
    unfolding last_owner_def by blast
  with assms have "d \<noteq> on" by blast
  with d show "last_owner rows start (on - 1) p"
    unfolding last_owner_def by (intro exI [of _ d]) auto
next
  assume "last_owner rows start (on - 1) p"
  then obtain d where d: "start \<le> d" "d \<le> on - 1" "\<exists>a \<in> set rows. in_effect_on a d"
    "\<forall>a \<in> set rows. in_effect_on a d \<longrightarrow> ea_property_id a = p"
    "\<forall>d'. d < d' \<and> d' \<le> on - 1 \<longrightarrow> (\<forall>a \<in> set rows. \<not> in_effect_on a d')"
    unfolding last_owner_def by blast
  have "\<forall>a \<in> set rows. \<not> in_effect_on a d'" if "d < d'" "d' \<le> on" for d'
    using assms d(5) that by (cases "d' = on") auto
  with d show "last_owner rows start on p"
    unfolding last_owner_def by (intro exI [of _ d]) auto
qed

lemma owner_on_last_covered_day_cases:
  defines "owners \<equiv> (\<lambda>rows on. remdups (map ea_property_id (filter (\<lambda>a. in_effect_on a on) rows)))"
  shows "on < start \<Longrightarrow> owner_on_last_covered_day rows start on = Inr None"
    and "\<not> on < start \<Longrightarrow> owners rows on = [] \<Longrightarrow>
      owner_on_last_covered_day rows start on = owner_on_last_covered_day rows start (on - 1)"
    and "\<not> on < start \<Longrightarrow> owners rows on = [p] \<Longrightarrow> owner_on_last_covered_day rows start on = Inr (Some p)"
    and "\<not> on < start \<Longrightarrow> owners rows on = p # q # ps \<Longrightarrow>
      owner_on_last_covered_day rows start on = Inl AmbiguousPrimaryError"
  unfolding owners_def by (subst owner_on_last_covered_day.simps; simp)+

lemma owner_on_last_covered_day_spec:
  assumes "owner_on_last_covered_day rows start on = Inr ow"
  shows "ow = Some p \<longleftrightarrow> last_owner rows start on p"
  using assms
proof (induction rows start on rule: owner_on_last_covered_day.induct)
  case (1 rows start on)
  let ?ow = "remdups (map ea_property_id (filter (\<lambda>a. in_effect_on a on) rows))"
  show ?case
  proof (cases "on < start")
    case True
    with "1.prems" have "ow = None" by (simp add: owner_on_last_covered_day_cases(1))
    moreover have "\<not> last_owner rows start on p" using True by (auto simp: last_owner_def)
    ultimately show ?thesis by simp
  next
    case False
    show ?thesis
    proof (cases ?ow rule: remdups_adj.cases)
      case 1
      with False "1.prems" have "owner_on_last_covered_day rows start (on - 1) = Inr ow"
        using owner_on_last_covered_day_cases(2) by metis
      moreover have "\<forall>a \<in> set rows. \<not> in_effect_on a on" using 1 by (simp add: filter_empty_conv)
      ultimately show ?thesis using "1.IH" [OF False 1] last_owner_step [of rows on start p] by simp
    next
      case (2 q)
      with False "1.prems" have "ow = Some q" by (simp add: owner_on_last_covered_day_cases(3))
      have "set (map ea_property_id (filter (\<lambda>a. in_effect_on a on) rows)) = {q}"
        using 2 by (simp only: remdups_eq_singleton)
      then have q: "\<exists>a \<in> set rows. in_effect_on a on" "\<forall>a \<in> set rows. in_effect_on a on \<longrightarrow> ea_property_id a = q"
        by auto
      have "last_owner rows start on p \<longleftrightarrow> p = q"
      proof
        assume "last_owner rows start on p"
        then obtain d where d: "d \<le> on" "\<forall>a \<in> set rows. in_effect_on a d \<longrightarrow> ea_property_id a = p"
          "\<forall>d'. d < d' \<and> d' \<le> on \<longrightarrow> (\<forall>a \<in> set rows. \<not> in_effect_on a d')"
          unfolding last_owner_def by blast
        with q have "d = on" by (metis order_le_less order_refl)
        with d q show "p = q" by blast
      next
        assume "p = q"
        with q False show "last_owner rows start on p"
          unfolding last_owner_def by (intro exI [of _ on]) auto
      qed
      with \<open>ow = Some q\<close> show ?thesis by auto
    next
      case (3 x y zs)
      with False "1.prems" show ?thesis by (simp add: owner_on_last_covered_day_cases(4))
    qed
  qed
qed

text \<open>The primaries of one employee that started by the end of the period.\<close>

definition primaries :: "db \<Rightarrow> int \<Rightarrow> date \<Rightarrow> EmployeeAssignment list" where
  "primaries s e end = filter (\<lambda>a. ea_employee_id a = e \<and> ea_is_primary a \<and> ea_effective_from a \<le> end) (assignments s)"

lemma filter_filter_group:
  "e \<in> M \<Longrightarrow> filter (\<lambda>a. ea_employee_id a = e)
      (filter (\<lambda>a. ea_employee_id a \<in> M \<and> ea_is_primary a \<and> ea_effective_from a \<le> end) xs)
    = filter (\<lambda>a. ea_employee_id a = e \<and> ea_is_primary a \<and> ea_effective_from a \<le> end) xs"
  by (induction xs) auto

text \<open>An employee is in a property's population exactly when the walk-back names it.\<close>

lemma paid_by_owner:
  assumes run: "employee_ids_paid_by_during s p start end = Inr E"
  shows "e \<in> E \<longleftrightarrow>
    (\<exists>a \<in> set (primaries s e end). ea_property_id a = p \<and> overlaps_period a start end)
    \<and> owner_on_last_covered_day (primaries s e end) start end = Inr (Some p)" (is ?iff)
    and "\<exists>a \<in> set (primaries s e end). ea_property_id a = p \<and> overlaps_period a start end \<Longrightarrow>
      \<exists>ow. owner_on_last_covered_day (primaries s e end) start end = Inr ow" (is "?pre \<Longrightarrow> ?def")
proof -
  let ?mine = "filter (\<lambda>a. overlaps_period a start end)
     (filter (\<lambda>a. ea_property_id a = p \<and> ea_is_primary a \<and> ea_effective_from a \<le> end) (assignments s))"
  let ?M = "set (map ea_employee_id ?mine)"
  let ?rows = "filter (\<lambda>a. ea_employee_id a \<in> ?M \<and> ea_is_primary a \<and> ea_effective_from a \<le> end) (assignments s)"
  have M: "e \<in> ?M \<longleftrightarrow> (\<exists>a \<in> set (primaries s e end). ea_property_id a = p \<and> overlaps_period a start end)" for e
    by (auto simp: primaries_def)
  have "?iff \<and> (?pre \<longrightarrow> ?def)"
  proof (cases "?mine = []")
    case True
    then have "E = {}" using run by (simp add: employee_ids_paid_by_during_def Let_def)
    moreover have "e \<notin> ?M" using True by (metis empty_iff list.set(1) list.map_disc_iff)
    ultimately show ?thesis using M by blast
  next
    case False
    then obtain ys where ys: "mapE (\<lambda>(k, v). map_sum id (Pair k) (owner_on_last_covered_day v start end))
        (group_by ea_employee_id ?rows) = Inr ys"
      "E = set (map fst (filter (\<lambda>(e, ow). ow = Some p) ys))"
      using run unfolding employee_ids_paid_by_during_def Let_def
      by (simp only: if_False bindE_eq_Inr_iff) auto
    have "e \<in> E \<longleftrightarrow> (\<exists>v. (e, v) \<in> set (group_by ea_employee_id ?rows) \<and> owner_on_last_covered_day v start end = Inr (Some p))"
      unfolding ys(2) mapE_pairs [OF ys(1), symmetric] by force
    also have "\<dots> \<longleftrightarrow> e \<in> ?M \<and> owner_on_last_covered_day (primaries s e end) start end = Inr (Some p)"
    proof -
      have "e \<in> ea_employee_id ` set ?rows \<longleftrightarrow> e \<in> ?M" by auto
      then show ?thesis
        unfolding group_by_entry using filter_filter_group [of e ?M "end" "assignments s"]
        by (auto simp only: primaries_def)
    qed
    finally have "?iff" unfolding M .
    moreover have "?def" if "e \<in> ?M"
    proof -
      have "(e, primaries s e end) \<in> set (group_by ea_employee_id ?rows)"
        unfolding group_by_entry primaries_def filter_filter_group [OF that] using that by auto
      with ys(1) show ?thesis by (rule mapE_pair_defined)
    qed
    ultimately show ?thesis using M by blast
  qed
  then show ?iff "?pre \<Longrightarrow> ?def" by blast+
qed

text \<open>A day in force within the period makes the row overlap it.\<close>

lemma primaries_in_force:
  assumes "a \<in> set (assignments s)" "ea_employee_id a = e" "ea_is_primary a" "in_effect_on a d" "start \<le> d" "d \<le> end"
  shows "a \<in> set (primaries s e end)" "overlaps_period a start end"
  using assms overlaps_periodI by (auto simp: primaries_def in_effect_on_iff)

lemma paid_by_last_owner:
  assumes run: "employee_ids_paid_by_during s p start end = Inr E"
  shows "e \<in> E \<longleftrightarrow> last_owner (primaries s e end) start end p"
proof
  assume "e \<in> E"
  then show "last_owner (primaries s e end) start end p"
    using paid_by_owner(1) [OF run] owner_on_last_covered_day_spec by blast
next
  assume lo: "last_owner (primaries s e end) start end p"
  then obtain a d where a: "a \<in> set (primaries s e end)" "in_effect_on a d" "start \<le> d" "d \<le> end" "ea_property_id a = p"
    unfolding last_owner_def by blast
  then have ov: "\<exists>a \<in> set (primaries s e end). ea_property_id a = p \<and> overlaps_period a start end"
    using overlaps_periodI by blast
  then obtain ow where ow: "owner_on_last_covered_day (primaries s e end) start end = Inr ow"
    using paid_by_owner(2) [OF run] by blast
  with lo have "ow = Some p" using owner_on_last_covered_day_spec by blast
  with ow ov show "e \<in> E" using paid_by_owner(1) [OF run] by blast
qed

lemma owner_none:
  assumes "owner_on_last_covered_day rows start on = Inr None" "a \<in> set rows" "start \<le> d" "d \<le> on"
  shows "\<not> in_effect_on a d"
  using assms
proof (induction rows start on rule: owner_on_last_covered_day.induct)
  case (1 rows start on)
  let ?ow = "remdups (map ea_property_id (filter (\<lambda>a. in_effect_on a on) rows))"
  have ge: "\<not> on < start" using "1.prems"(3,4) by simp
  then have "?ow = []"
    using "1.prems"(1) owner_on_last_covered_day_cases(3,4) [OF ge] by (cases ?ow rule: remdups_adj.cases) auto
  moreover from this have "\<forall>a \<in> set rows. \<not> in_effect_on a on" by (simp add: filter_empty_conv)
  ultimately show ?case
    using "1.IH" [OF ge] "1.prems" owner_on_last_covered_day_cases(2) [OF ge]
    by (cases "d = on") auto
qed

section \<open>Properties\<close>

text \<open>
  The pay-run population is the sentence its docstring states: a property's run holds
  exactly the employees whose primary placement, on the last day of the period on which
  any primary of theirs was in force, is at that property.
\<close>

theorem pay_run_population_spec:
  assumes "employee_ids_paid_by_during s p start end = Inr E"
  shows "e \<in> E \<longleftrightarrow> last_owner (primaries s e end) start end p"
  using assms by (rule paid_by_last_owner)

text \<open>
  C26.  One paycheck, exactly: when no population is refused as ambiguous, an employee whose
  primary placement was in force on some day of the period is in the population of one
  property and of no other, so nobody is paid twice and a mid-period termination or
  transfer strands nobody.
\<close>

theorem exactly_one_paycheck:
  assumes "\<forall>p. \<exists>E. employee_ids_paid_by_during s p start end = Inr E"
    and "a \<in> set (assignments s)" "ea_employee_id a = e" "ea_is_primary a"
    and "in_effect_on a d" "start \<le> d" "d \<le> end"
  shows "\<exists>!p. e \<in> projr (employee_ids_paid_by_during s p start end)"
proof -
  have paid: "employee_ids_paid_by_during s p start end = Inr (projr (employee_ids_paid_by_during s p start end))" for p
    using assms(1) by (metis sum.sel(2))
  have a: "a \<in> set (primaries s e end)" "overlaps_period a start end"
    using primaries_in_force [OF assms(2-7)] by blast+
  then obtain ow where ow: "owner_on_last_covered_day (primaries s e end) start end = Inr ow"
    using paid_by_owner(2) [OF paid] by blast
  have "ow \<noteq> None" using owner_none [of "primaries s e end" start "end" a d] ow a(1) assms(5-7) by auto
  then obtain q where q: "ow = Some q" by blast
  have iff: "e \<in> projr (employee_ids_paid_by_during s p start end) \<longleftrightarrow> p = q" for p
    using paid_by_last_owner [OF paid, of e p] owner_on_last_covered_day_spec [OF ow, of p] q by auto
  then show ?thesis by auto
qed

definition example_transfer :: db where
  "example_transfer = empty_db\<lparr>assignments :=
     [\<lparr>ea_assignment_id = 1, ea_employee_id = 7, ea_property_id = ''SJCES'', ea_department_id = None,
       ea_position_id = None, ea_is_primary = True, ea_status = ''inactive'', ea_effective_from = 100,
       ea_effective_to = Some 110\<rparr>,
      \<lparr>ea_assignment_id = 2, ea_employee_id = 7, ea_property_id = ''58033'', ea_department_id = None,
       ea_position_id = None, ea_is_primary = True, ea_status = ''active'', ea_effective_from = 110,
       ea_effective_to = None\<rparr>]\<rparr>"

lemma example_transfer_paid:
  "employee_ids_paid_by_during example_transfer p 106 119 = Inr (if p = ''58033'' then {7} else {})"
  by (simp add: example_transfer_def empty_db_def employee_ids_paid_by_during_def overlaps_period_def
      group_by_def dict_append_def owner_on_last_covered_day.simps in_effect_on_def covers_def)
    force

theorem pay_run_population_spec_witness:
  "employee_ids_paid_by_during example_transfer ''58033'' 106 119 = Inr {7} \<and>
   last_owner (primaries example_transfer 7 119) 106 119 ''58033''"
  using pay_run_population_spec [of example_transfer "''58033''" 106 119 "{7}" 7]
  by (simp add: example_transfer_paid)

theorem exactly_one_paycheck_witness:
  "\<exists>!p. (7 :: int) \<in> projr (employee_ids_paid_by_during example_transfer p 106 119)"
proof (rule exactly_one_paycheck [where a = "hd (assignments example_transfer)" and d = 106])
  show "\<forall>p. \<exists>E. employee_ids_paid_by_during example_transfer p 106 119 = Inr E"
    by (simp add: example_transfer_paid)
  show "hd (assignments example_transfer) \<in> set (assignments example_transfer)"
    by (simp add: example_transfer_def)
qed (simp_all add: example_transfer_def in_effect_on_def covers_def)

text \<open>
   Authorization and roster agree: an employee may work at a property on a date exactly
  when the property's roster for that date holds them, and both are the placements in
  force, primary or not.
\<close>

theorem serving_agrees:
  "employee_serves_property s e p d \<longleftrightarrow> e \<in> employee_ids_serving_property s p d"
  by (auto simp: employee_serves_property_def property_ids_on_def employee_ids_serving_property_def
      set_assignments_on)

text \<open>
   A period is priced under one exemption status or refused: the answer is the status of
  every one of its dates, and the refusal means two dates really differ.
\<close>

theorem resolve_exemption_spec:
  "case resolve_exemption s e dates of
     Inr b \<Rightarrow> (if dates = [] then \<not> b else \<forall>d \<in> set dates. is_exempt_on s e d = b)
   | Inl er \<Rightarrow> er = MixedExemptionError
       \<and> (\<exists>d \<in> set dates. is_exempt_on s e d) \<and> (\<exists>d \<in> set dates. \<not> is_exempt_on s e d)"
proof -
  let ?f = "is_exempt_on s e"
  show ?thesis
  proof (cases "remdups (map ?f dates)" rule: remdups_adj.cases)
    case 1
    then show ?thesis by (simp add: resolve_exemption_def)
  next
    case (2 b)
    then have eq: "set (map ?f dates) = {b}" by (simp only: remdups_eq_singleton)
    have "?f d = b" if "d \<in> set dates" for d
    proof -
      have "?f d \<in> set (map ?f dates)" using that by simp
      then show ?thesis unfolding eq by (rule singletonD)
    qed
    moreover have "dates \<noteq> []" using 2 by (cases dates) simp_all
    ultimately show ?thesis by (simp add: resolve_exemption_def 2)
  next
    case (3 b c bs)
    have "distinct (b # c # bs)" unfolding 3 [symmetric] by (rule distinct_remdups)
    then have "b \<noteq> c" by simp
    have sub: "x \<in> set (map ?f dates)" if "x \<in> {b, c}" for x
    proof -
      have "x \<in> set (remdups (map ?f dates))" unfolding 3 using that by auto
      then show ?thesis by (simp only: set_remdups)
    qed
    have "True \<in> {b, c}" "False \<in> {b, c}" using \<open>b \<noteq> c\<close> by auto
    then have "True \<in> set (map ?f dates)" "False \<in> set (map ?f dates)" using sub by blast+
    then have "(\<exists>d \<in> set dates. ?f d) \<and> (\<exists>d \<in> set dates. \<not> ?f d)" by auto
    then show ?thesis by (simp add: resolve_exemption_def 3)
  qed
qed

definition example_promotion :: db where
  "example_promotion = empty_db\<lparr>
     positions := [\<lparr>po_position_id = 1, po_flsa_exempt = False\<rparr>, \<lparr>po_position_id = 2, po_flsa_exempt = True\<rparr>],
     assignments :=
     [\<lparr>ea_assignment_id = 1, ea_employee_id = 7, ea_property_id = ''SJCES'', ea_department_id = None,
       ea_position_id = Some 1, ea_is_primary = True, ea_status = ''active'', ea_effective_from = 100,
       ea_effective_to = Some 110\<rparr>,
      \<lparr>ea_assignment_id = 2, ea_employee_id = 7, ea_property_id = ''SJCES'', ea_department_id = None,
       ea_position_id = Some 2, ea_is_primary = True, ea_status = ''active'', ea_effective_from = 110,
       ea_effective_to = None\<rparr>]\<rparr>"

lemma example_promotion_exempt: "is_exempt_on example_promotion 7 109 = False" "is_exempt_on example_promotion 7 110 = True"
  by (simp_all add: is_exempt_on_def assignments_on_def example_promotion_def empty_db_def in_effect_on_def covers_def
      List.map_filter_simps get_position_def)

theorem resolve_exemption_spec_witness:
  "resolve_exemption example_promotion 7 [109, 110] = Inl MixedExemptionError
   \<and> (\<exists>d \<in> set [109, 110]. is_exempt_on example_promotion 7 d)
   \<and> (\<exists>d \<in> set [109, 110]. \<not> is_exempt_on example_promotion 7 d)"
proof -
  have "resolve_exemption example_promotion 7 [109, 110] = Inl MixedExemptionError"
    by (simp add: resolve_exemption_def example_promotion_exempt)
  with resolve_exemption_spec [where s = example_promotion and e = 7 and dates = "[109, 110]"] show ?thesis by simp
qed

end
