(* ===== verification/Timecards.thy ===== *)
theory Timecards
  imports Attendance Assignments
begin

text \<open>
  The stateful half of \<^verbatim>\<open>usali/timecards.py\<close> (assembling a card, its merged timeline, the
  photo purge) and \<^verbatim>\<open>usali/attribution.py\<close> (which property carries each worked minute).
\<close>

section \<open>Assembly\<close>

definition link_punches :: "int \<Rightarrow> date \<Rightarrow> date \<Rightarrow> int \<Rightarrow> Punch list \<Rightarrow> Punch list" where
  "link_punches employee_id period_start period_end timecard_id ps =
     map (\<lambda>p. if pn_employee_id p = employee_id \<and> pn_business_date p \<ge> period_start
                  \<and> pn_business_date p \<le> period_end
              then p\<lparr>pn_timecard_id := Some timecard_id\<rparr> else p) ps"

definition assemble_timecard :: "db \<Rightarrow> int \<Rightarrow> date \<Rightarrow> date \<Rightarrow> (db \<times> Timecard) res" where
  "assemble_timecard s employee_id in_period anchor =
    (let (period_start, period_end) = period_for in_period anchor in
     bindE (scalar_one_or_none
         (filter (\<lambda>c. tc_employee_id c = employee_id \<and> tc_period_start c = period_start) (timecards s))) (\<lambda>found.
       if (case found of Some c \<Rightarrow> tc_status c = ''approved'' | None \<Rightarrow> False)
       then Inr (s, the found)
       else
         let (s1, tcard) =
           (case found of
              Some c \<Rightarrow> (s, c)
            | None \<Rightarrow>
                let c = \<lparr>tc_timecard_id = next_id (map tc_timecard_id (timecards s)), tc_employee_id = employee_id,
                         tc_period_start = period_start, tc_period_end = period_end, tc_status = ''open'', tc_approved_by = None,
                         tc_approved_at = None, tc_photos_purged_at = None\<rparr>
                in (s\<lparr>timecards := timecards s @ [c]\<rparr>, c))
         in Inr (s1\<lparr>punches := link_punches employee_id period_start period_end (tc_timecard_id tcard) (punches s1)\<rparr>, tcard)))"

section \<open>The merged timeline\<close>

definition punch_event :: "db \<Rightarrow> Punch \<Rightarrow> Event" where
  "punch_event s p = \<lparr>ev_punch_type = pn_punch_type p, ev_at = pn_punched_at p,
     ev_property_id = map_option kd_property_id (get_device s (pn_kiosk_device_id p))\<rparr>"

definition adjustment_event :: "TimecardAdjustment \<Rightarrow> Event" where
  "adjustment_event a = \<lparr>ev_punch_type = ta_punch_type a, ev_at = ta_adjusted_at a, ev_property_id = ta_property_id a\<rparr>"

definition timecard_events :: "db \<Rightarrow> Timecard \<Rightarrow> (date, Event list) dict" where
  "timecard_events s tcard =
    (let ps = filter (\<lambda>p. pn_timecard_id p = Some (tc_timecard_id tcard)) (punches s);
         adj = filter (\<lambda>a. ta_timecard_id a = tc_timecard_id tcard) (adjustments s);
         ev1 = fold (\<lambda>p d. dict_append (pn_business_date p) (punch_event s p) d) ps []
     in fold (\<lambda>a d. dict_append (ta_business_date a) (adjustment_event a) d) adj ev1)"

definition compute_timecard :: "db \<Rightarrow> Timecard \<Rightarrow> DayResult list res" where
  "compute_timecard s tcard =
    (let by_date = timecard_events s tcard
     in mapE (\<lambda>d. compute_day d (dict_get by_date d [])) (sort (keys by_date)))"

section \<open>The photo purge\<close>

text \<open>
  The photo store is a parameter: \<open>del key st\<close> is the store after deleting \<open>key\<close>, or
  \<open>None\<close> when the backend raises.  \<open>delete_photos\<close> returns the store, the ids of the
  punches whose pointer it cleared, and the two counters.
\<close>

type_synonym 'st store_delete = "string \<Rightarrow> 'st \<Rightarrow> 'st option"

definition delete_photo :: "'st store_delete \<Rightarrow> Punch \<Rightarrow> 'st \<times> int list \<times> nat \<times> nat \<Rightarrow> ('st \<times> int list \<times> nat \<times> nat) res" where
  "delete_photo del p = (\<lambda>(st, cleared, purged, failed).
     case pn_photo_key p of
       None \<Rightarrow> Inl AssertionError
     | Some key \<Rightarrow>
         (case del key st of
            None \<Rightarrow> Inr (st, cleared, purged, failed + 1)
          | Some st' \<Rightarrow> Inr (st', cleared @ [pn_punch_id p], purged + 1, failed)))"

definition delete_photos :: "'st store_delete \<Rightarrow> 'st \<Rightarrow> Punch list \<Rightarrow> ('st \<times> int list \<times> nat \<times> nat) res" where
  "delete_photos del st ps = foldE (delete_photo del) ps (st, [], 0, 0)"

definition clear_pointers :: "int list \<Rightarrow> db \<Rightarrow> db" where
  "clear_pointers ids s = s\<lparr>punches := map (\<lambda>p. if pn_punch_id p \<in> set ids then p\<lparr>pn_photo_key := None\<rparr> else p) (punches s)\<rparr>"

definition purge_card :: "'st store_delete \<Rightarrow> instant \<Rightarrow> Timecard \<Rightarrow> db \<times> 'st \<times> nat \<Rightarrow> (db \<times> 'st \<times> nat) res" where
  "purge_card del now tcard = (\<lambda>(s, st, purged).
     bindE (delete_photos del st (filter (\<lambda>p. pn_timecard_id p = Some (tc_timecard_id tcard) \<and> pn_photo_key p \<noteq> None) (punches s)))
       (\<lambda>(st', cleared, done_n, failed).
          let s1 = clear_pointers cleared s;
              s2 = (if failed = 0
                    then s1\<lparr>timecards := map (\<lambda>c. if tc_timecard_id c = tc_timecard_id tcard
                                                 then c\<lparr>tc_photos_purged_at := Some now\<rparr> else c) (timecards s1)\<rparr>
                    else s1)
          in Inr (s2, st', purged + done_n)))"

definition purge_due :: "instant \<Rightarrow> Timecard \<Rightarrow> bool" where
  "purge_due cutoff c \<longleftrightarrow> tc_status c = ''approved''
     \<and> (case tc_approved_at c of None \<Rightarrow> False | Some t \<Rightarrow> t < cutoff) \<and> tc_photos_purged_at c = None"

definition orphan_due :: "instant \<Rightarrow> Punch \<Rightarrow> bool" where
  "orphan_due cutoff p \<longleftrightarrow> pn_timecard_id p = None \<and> pn_photo_key p \<noteq> None \<and> pn_punched_at p < cutoff"

definition purge_approved_photos :: "'st store_delete \<Rightarrow> instant \<Rightarrow> int \<Rightarrow> db \<Rightarrow> 'st \<Rightarrow> (db \<times> 'st \<times> nat) res" where
  "purge_approved_photos del now retention_days s st =
    (let cutoff = now - retention_days * day in
     bindE (foldE (purge_card del now) (filter (purge_due cutoff) (timecards s)) (s, st, 0)) (\<lambda>(s1, st1, purged).
       bindE (delete_photos del st1 (filter (orphan_due cutoff) (punches s1))) (\<lambda>(st2, cleared, done_n, _).
         Inr (clear_pointers cleared s1, st2, purged + done_n))))"

section \<open>Attribution\<close>

text \<open>\<^verbatim>\<open>_spread\<close>: \<open>extra\<close> minutes over the recorded split, in proportion and exactly.\<close>

definition spread :: "int \<Rightarrow> (string, int) dict \<Rightarrow> (string, int) dict res" where
  "spread extra recorded =
     bindE (apportion id (of_int extra) (dec_weights recorded) 1) (\<lambda>shares.
       Inr (map (\<lambda>(k, v). (k, v + round_int ROUND_DOWN (dict_get shares k 0))) recorded))"

definition recorded_minutes :: "(string option, int) dict \<Rightarrow> (string, int) dict" where
  "recorded_minutes pm = List.map_filter (\<lambda>(k, v). map_option (\<lambda>p. (p, v)) k) pm"

definition property_minutes_for_day ::
  "db \<Rightarrow> int \<Rightarrow> date \<Rightarrow> (string option, int) dict \<Rightarrow> (string, int) dict res" where
  "property_minutes_for_day s employee_id business_date property_minutes =
    (let recorded = recorded_minutes property_minutes;
         unrecorded = dict_get property_minutes None 0
     in if unrecorded \<le> 0 then Inr recorded
        else if recorded \<noteq> [] then spread unrecorded recorded
        else bindE (primary_assignment_on s employee_id business_date) (\<lambda>primary.
               case primary of
                 None \<Rightarrow> Inl UnattributableHoursError
               | Some a \<Rightarrow> Inr [(ea_property_id a, unrecorded)]))"

definition add_minutes :: "(string, int) dict \<Rightarrow> (string, int) dict \<Rightarrow> (string, int) dict" where
  "add_minutes resolved totals = fold (\<lambda>(p, m) t. dict_add p m t) resolved totals"

definition card_property_minutes :: "db \<Rightarrow> Timecard \<Rightarrow> (string, int) dict res" where
  "card_property_minutes s tcard =
     bindE (compute_timecard s tcard) (\<lambda>days.
       foldE (\<lambda>d totals.
          if dr_worked_minutes d \<le> 0 then Inr totals
          else bindE (property_minutes_for_day s (tc_employee_id tcard) (dr_business_date d) (dr_property_minutes d))
                 (\<lambda>resolved. Inr (add_minutes resolved totals))) days [])"

definition property_hours_for_timecard :: "db \<Rightarrow> Timecard \<Rightarrow> (string, decimal) dict res" where
  "property_hours_for_timecard s tcard =
     bindE (card_property_minutes s tcard) (\<lambda>totals.
     bindE (quantize (ddiv (of_int (dict_sum totals)) 60) (1 / 100) ROUND_HALF_EVEN) (\<lambda>total_hours.
       apportion id total_hours (dec_weights totals) (1 / 100)))"

section \<open>Assembly: lemmas\<close>

lemma link_punches_idem [simp]: "link_punches e a b i (link_punches e a b i ps) = link_punches e a b i ps"
  by (simp add: link_punches_def)

lemma scalar_one_or_none_eq_Inr_iff:
  "scalar_one_or_none rows = Inr r \<longleftrightarrow> (rows = [] \<and> r = None) \<or> (\<exists>x. rows = [x] \<and> r = Some x)"
  by (auto simp: scalar_one_or_none_def split: list.splits)

text \<open>The three outcomes of assembly: an approved card, an open one, a new one.\<close>

lemma assemble_timecard_cases:
  assumes "assemble_timecard s e d anchor = Inr (s', c)" and "period_for d anchor = (ps, pe)"
  obtains (approved) "filter (\<lambda>c. tc_employee_id c = e \<and> tc_period_start c = ps) (timecards s) = [c]"
      "tc_status c = ''approved''" "s' = s"
    | (existing) "filter (\<lambda>c. tc_employee_id c = e \<and> tc_period_start c = ps) (timecards s) = [c]"
      "tc_status c \<noteq> ''approved''" "s' = s\<lparr>punches := link_punches e ps pe (tc_timecard_id c) (punches s)\<rparr>"
    | (created) "filter (\<lambda>c. tc_employee_id c = e \<and> tc_period_start c = ps) (timecards s) = []"
      "tc_status c = ''open''" "tc_employee_id c = e" "tc_period_start c = ps" "tc_period_end c = pe"
      "tc_timecard_id c = next_id (map tc_timecard_id (timecards s))"
      "s' = s\<lparr>timecards := timecards s @ [c], punches := link_punches e ps pe (tc_timecard_id c) (punches s)\<rparr>"
proof -
  obtain found where f: "scalar_one_or_none (filter (\<lambda>c. tc_employee_id c = e \<and> tc_period_start c = ps) (timecards s)) = Inr found"
    using assms by (auto simp: assemble_timecard_def bindE_eq_Inr_iff)
  show ?thesis
  proof (cases found)
    case None
    with f have "filter (\<lambda>c. tc_employee_id c = e \<and> tc_period_start c = ps) (timecards s) = []"
      by (simp add: scalar_one_or_none_eq_Inr_iff)
    then show ?thesis
      using assms f None by (intro created) (auto simp: assemble_timecard_def Let_def)
  next
    case (Some x)
    with f have fx: "filter (\<lambda>c. tc_employee_id c = e \<and> tc_period_start c = ps) (timecards s) = [x]"
      by (simp add: scalar_one_or_none_eq_Inr_iff)
    show ?thesis
    proof (cases "tc_status x = ''approved''")
      case True
      with assms f Some have "c = x" "s' = s" by (auto simp: assemble_timecard_def)
      with fx True show ?thesis by (intro approved) auto
    next
      case False
      with assms f Some have "c = x" "s' = s\<lparr>punches := link_punches e ps pe (tc_timecard_id x) (punches s)\<rparr>"
        by (auto simp: assemble_timecard_def)
      with fx False show ?thesis by (intro existing) auto
    qed
  qed
qed

lemma assemble_again:
  assumes "assemble_timecard s e d anchor = Inr (s', c)" "period_for d' anchor = period_for d anchor"
  shows "assemble_timecard s' e d' anchor = Inr (s', c)"
proof -
  obtain ps pe where per: "period_for d anchor = (ps, pe)" by (metis prod.exhaust)
  from assms(1) per show ?thesis
  proof (cases rule: assemble_timecard_cases)
    case created
    then have "filter (\<lambda>c. tc_employee_id c = e \<and> tc_period_start c = ps) (timecards s') = [c]" by simp
    with created show ?thesis using per assms(2)
      by (simp add: assemble_timecard_def scalar_one_or_none_def)
  qed (use per assms(2) in \<open>simp_all add: assemble_timecard_def scalar_one_or_none_def\<close>)
qed

lemma in_link_punches:
  assumes "p' \<in> set (link_punches e ps pe i pl)"
  shows "p' \<in> set pl \<or> pn_timecard_id p' = Some i"
  using assms by (auto simp: link_punches_def split: if_splits)

section \<open>The timeline: lemmas\<close>

lemma fold_append_values:
  assumes "distinct (keys d)" "\<forall>v \<in> set (map snd d). \<forall>x \<in> set v. P x" "\<forall>y \<in> set ys. P (g y)"
  shows "distinct (keys (fold (\<lambda>y d. dict_append (f y) (g y) d) ys d))"
    and "x \<in> set (dict_get (fold (\<lambda>y d. dict_append (f y) (g y) d) ys d) k []) \<Longrightarrow> P x"
proof -
  have "distinct (keys (fold (\<lambda>y d. dict_append (f y) (g y) d) ys d))
      \<and> dict_get (fold (\<lambda>y d. dict_append (f y) (g y) d) ys d) k []
        = dict_get d k [] @ map g (filter (\<lambda>y. f y = k) ys)"
    using assms(1) by (induction ys arbitrary: d) auto
  moreover have "P x" if "x \<in> set (dict_get d k [])"
    using assms(2) that by (induction d) (auto split: if_splits)
  ultimately show "distinct (keys (fold (\<lambda>y d. dict_append (f y) (g y) d) ys d))"
    "x \<in> set (dict_get (fold (\<lambda>y d. dict_append (f y) (g y) d) ys d) k []) \<Longrightarrow> P x"
    using assms(3) by auto
qed

text \<open>Every timestamp of the card's rows fits a \<^verbatim>\<open>datetime\<close>.\<close>

definition card_datetimes :: "db \<Rightarrow> bool" where
  "card_datetimes s \<longleftrightarrow> (\<forall>p \<in> set (punches s). \<bar>pn_punched_at p\<bar> < 10 ^ 18)
     \<and> (\<forall>a \<in> set (adjustments s). \<bar>ta_adjusted_at a\<bar> < 10 ^ 18)"

lemma timecard_events_datetimes:
  assumes "card_datetimes s"
  shows "datetimes (dict_get (timecard_events s c) d [])" "distinct (keys (timecard_events s c))"
proof -
  let ?P = "\<lambda>e :: Event. \<bar>ev_at e\<bar> < 10 ^ 18"
  let ?ps = "filter (\<lambda>p. pn_timecard_id p = Some (tc_timecard_id c)) (punches s)"
  let ?ad = "filter (\<lambda>a. ta_timecard_id a = tc_timecard_id c) (adjustments s)"
  let ?ev1 = "fold (\<lambda>p d. dict_append (pn_business_date p) (punch_event s p) d) ?ps []"
  have 1: "\<forall>p \<in> set ?ps. ?P (punch_event s p)" "\<forall>a \<in> set ?ad. ?P (adjustment_event a)"
    using assms by (auto simp: card_datetimes_def punch_event_def adjustment_event_def)
  have e1: "distinct (keys ?ev1)" "x \<in> set (dict_get ?ev1 k []) \<Longrightarrow> ?P x" for x k
    using 1(1) by (auto intro: fold_append_values(1) [where P = ?P] dest: fold_append_values(2) [where P = ?P, rotated 3])
  have vals: "\<forall>v \<in> set (map snd ?ev1). \<forall>x \<in> set v. ?P x"
  proof (intro ballI)
    fix v x assume "v \<in> set (map snd ?ev1)" "x \<in> set v"
    then obtain k where "(k, v) \<in> set ?ev1" by auto
    then have "dict_get ?ev1 k [] = v" using e1(1) by (intro dict_get_map_of) auto
    with \<open>x \<in> set v\<close> show "?P x" using e1(2) [of x k] by simp
  qed
  note e2 = fold_append_values [OF e1(1) vals 1(2), where f = ta_business_date]
  show "datetimes (dict_get (timecard_events s c) d [])" "distinct (keys (timecard_events s c))"
    unfolding timecard_events_def Let_def datetimes_def using e2 by auto
qed

lemma compute_timecard_ok:
  assumes "card_datetimes s"
  shows "\<exists>days. compute_timecard s c = Inr days
    \<and> map dr_business_date days = sort (keys (timecard_events s c))
    \<and> (\<forall>r \<in> set days. 0 \<le> dr_worked_minutes r \<and> distinct (keys (dr_property_minutes r))
         \<and> (\<forall>v \<in> set (map snd (dr_property_minutes r)). 0 < v)
         \<and> dict_sum (dr_property_minutes r) = dr_worked_minutes r)"
proof -
  let ?E = "\<lambda>d. dict_get (timecard_events s c) d []"
  have "\<exists>r. compute_day d (?E d) = Inr r \<and> dr_business_date r = d \<and> 0 \<le> dr_worked_minutes r
    \<and> distinct (keys (dr_property_minutes r)) \<and> (\<forall>v \<in> set (map snd (dr_property_minutes r)). 0 < v)
    \<and> dict_sum (dr_property_minutes r) = dr_worked_minutes r" for d
    using compute_day_ok timecard_events_datetimes(1) [OF assms] by blast
  then obtain f where f: "compute_day d (?E d) = Inr (f d)" "dr_business_date (f d) = d" "0 \<le> dr_worked_minutes (f d)"
    "distinct (keys (dr_property_minutes (f d)))" "\<forall>v \<in> set (map snd (dr_property_minutes (f d))). 0 < v"
    "dict_sum (dr_property_minutes (f d)) = dr_worked_minutes (f d)" for d
    by metis
  have "compute_timecard s c = Inr (map f (sort (keys (timecard_events s c))))"
    unfolding compute_timecard_def Let_def using f(1) by (intro mapE_Inr_map) auto
  then show ?thesis using f(2-6) by (auto simp: comp_def)
qed

section \<open>Attribution: lemmas\<close>

definition positive_minutes :: "('k, int) dict \<Rightarrow> bool" where
  "positive_minutes pm \<longleftrightarrow> distinct (keys pm) \<and> (\<forall>v \<in> set (map snd pm). 0 < v)"

lemma recorded_minutes_simps:
  "recorded_minutes [] = []"
  "recorded_minutes ((None, v) # pm) = recorded_minutes pm"
  "recorded_minutes ((Some p, v) # pm) = (p, v) # recorded_minutes pm"
  by (simp_all add: recorded_minutes_def List.map_filter_simps)

lemma recorded_minutes_keys: "p \<in> set (keys (recorded_minutes pm)) \<longleftrightarrow> Some p \<in> set (keys pm)"
proof (induction pm)
  case (Cons kv pm)
  then show ?case by (cases kv; cases "fst kv") (auto simp: recorded_minutes_simps)
qed (simp add: recorded_minutes_simps)

lemma recorded_minutes_positive: "positive_minutes pm \<Longrightarrow> positive_minutes (recorded_minutes pm)"
proof (induction pm)
  case (Cons kv pm)
  then show ?case using recorded_minutes_keys [of _ pm]
    by (cases kv; cases "fst kv") (auto simp: recorded_minutes_simps positive_minutes_def)
qed (simp add: recorded_minutes_simps positive_minutes_def)

lemma recorded_minutes_sum:
  "distinct (keys pm) \<Longrightarrow> dict_sum (recorded_minutes pm) + dict_get pm None 0 = dict_sum pm"
proof (induction pm)
  case (Cons kv pm)
  then show ?case by (cases kv; cases "fst kv") (auto simp: recorded_minutes_simps)
qed (simp add: recorded_minutes_simps)

lemma positive_minutes_sum: "positive_minutes pm \<Longrightarrow> pm \<noteq> [] \<Longrightarrow> 0 < dict_sum pm"
proof (induction pm)
  case (Cons kv pm)
  then show ?case by (cases "pm = []"; cases kv) (auto simp: positive_minutes_def)
qed simp

lemma dict_sum_add_shares:
  fixes ws cs :: "('k, int) dict"
  assumes "distinct (keys ws)" "distinct (keys cs)" "set (keys cs) = set (keys ws)"
  shows "dict_sum (map (\<lambda>(k, v). (k, v + dict_get cs k 0)) ws) = dict_sum ws + dict_sum cs"
proof -
  have "dict_sum (map (\<lambda>(k, v). (k, v + dict_get cs k 0)) ws) = dict_sum ws + sum_list (map (\<lambda>k. dict_get cs k 0) (keys ws))"
    by (induction ws) auto
  moreover have "mset (keys ws) = mset (keys cs)" using assms by (metis set_eq_iff_mset_eq_distinct)
  then have "sum_list (map (\<lambda>k. dict_get cs k 0) (keys ws)) = dict_sum cs"
    unfolding dict_sum_keys [OF assms(2)] by (rule sum_list_map_perm)
  ultimately show ?thesis by simp
qed

lemma quanta_get: "dict_get (quanta q cs) k 0 = of_int (dict_get cs k 0) * q"
  by (induction cs) (auto simp: quanta_def)

lemma spread_ok:
  assumes "positive_minutes ws" "ws \<noteq> []" "0 < extra" "extra < 10 ^ 13" "dict_sum ws < 10 ^ 13"
  shows "\<exists>r. spread extra ws = Inr r \<and> positive_minutes r \<and> dict_sum r = dict_sum ws + extra \<and> keys r = keys ws"
proof -
  have "extra * dict_sum ws < 10 ^ 13 * 10 ^ 13"
    using assms positive_minutes_sum [of ws] by (intro mult_strict_mono') auto
  then have "int_weights extra ws"
    using assms positive_minutes_sum [of ws] by (auto simp: int_weights_def positive_minutes_def intro: order_less_imp_le)
  from minutes.split_nonneg [OF this order_less_imp_le [OF assms(3)]] obtain cs where cs:
    "apportion id (of_int extra) (dec_weights ws) 1 = Inr (quanta 1 cs)" "distinct (keys cs)"
    "set (keys cs) = set (keys ws)" "dict_sum cs = extra" "\<forall>c \<in> set (map snd cs). 0 \<le> c \<and> c \<le> extra"
    by blast
  let ?r = "map (\<lambda>(k, v). (k, v + dict_get cs k 0)) ws"
  have "spread extra ws = Inr ?r" by (simp add: spread_def cs(1) quanta_get)
  moreover have "dict_sum ?r = dict_sum ws + extra"
    using dict_sum_add_shares [of ws cs] assms(1) cs by (simp add: positive_minutes_def)
  moreover have keys: "keys ?r = keys ws" by (simp add: comp_def case_prod_unfold)
  moreover have "0 \<le> dict_get cs k 0" for k using cs(2,5) by (intro dict_get_nonneg) auto
  then have "\<forall>v \<in> set (map snd ?r). 0 < v"
    using assms(1) unfolding positive_minutes_def by (auto simp: add_pos_nonneg)
  then have "positive_minutes ?r" using assms(1) unfolding positive_minutes_def keys by blast
  ultimately show ?thesis by blast
qed

lemma attribution_ok:
  assumes pm: "positive_minutes pm" "dict_sum pm < 10 ^ 13"
  shows "case property_minutes_for_day s e d pm of
      Inr r \<Rightarrow> positive_minutes r \<and> dict_sum r = dict_sum pm
    | Inl er \<Rightarrow> set (keys pm) = {None} \<and>
        (er = UnattributableHoursError \<and> primary_assignment_on s e d = Inr None \<or> primary_assignment_on s e d = Inl er)"
proof -
  let ?rec = "recorded_minutes pm" and ?un = "dict_get pm None 0"
  have un: "0 \<le> ?un" using pm(1) by (intro dict_get_nonneg) (auto simp: positive_minutes_def intro: order_less_imp_le)
  have tot: "dict_sum ?rec + ?un = dict_sum pm" using pm(1) by (intro recorded_minutes_sum) (simp add: positive_minutes_def)
  have rec: "positive_minutes ?rec" using pm(1) by (rule recorded_minutes_positive)
  consider "?un \<le> 0" | "0 < ?un" "?rec \<noteq> []" | "0 < ?un" "?rec = []" by fastforce
  then show ?thesis
  proof cases
    case 1
    with un tot rec show ?thesis by (simp add: property_minutes_for_day_def)
  next
    case 2
    have "0 < dict_sum ?rec" by (rule positive_minutes_sum [OF rec 2(2)])
    with spread_ok [OF rec 2(2,1)] tot pm(2) 2
    obtain r where "spread ?un ?rec = Inr r" "positive_minutes r" "dict_sum r = dict_sum pm" by auto
    with 2 show ?thesis by (simp add: property_minutes_for_day_def)
  next
    case 3
    have "set (keys pm) \<subseteq> {None}"
    proof
      fix k assume "k \<in> set (keys pm)"
      moreover have "Some p \<notin> set (keys pm)" for p unfolding recorded_minutes_keys [symmetric] 3(2) by simp
      ultimately show "k \<in> {None}" by (metis not_Some_eq singletonI)
    qed
    moreover have "pm \<noteq> []" using 3(1) by auto
    ultimately have "set (keys pm) = {None}" by (cases pm) auto
    then show ?thesis using 3 tot
      by (auto simp: property_minutes_for_day_def positive_minutes_def bindE_def split: option.split sum.split)
  qed
qed

lemma add_minutes_ok:
  assumes "positive_minutes r" "positive_minutes t"
  shows "positive_minutes (add_minutes r t)" "dict_sum (add_minutes r t) = dict_sum r + dict_sum t"
proof -
  have step: "positive_minutes (dict_add k v t)" if "positive_minutes t" "0 < v" for k and v :: int and t :: "(string, int) dict"
  proof -
    have upd: "set (map snd (AList.update k y d)) \<subseteq> insert y (set (map snd d))" for y and d :: "(string, int) dict"
      by (induction d) auto
    have "0 \<le> dict_get t k 0" using that(1)
      by (intro dict_get_nonneg) (auto simp: positive_minutes_def intro: order_less_imp_le)
    with that upd [of "dict_get t k 0 + v" t] show ?thesis
      unfolding positive_minutes_def dict_add_def by fastforce
  qed
  have "positive_minutes (add_minutes r t) \<and> dict_sum (add_minutes r t) = dict_sum r + dict_sum t"
    using assms unfolding add_minutes_def
  proof (induction r arbitrary: t)
    case (Cons kv r)
    obtain k v where kv: "kv = (k, v)" by (metis prod.exhaust)
    have r: "positive_minutes r" "0 < v" using Cons.prems(1) by (auto simp: positive_minutes_def kv)
    have "dict_sum (dict_add k v t) = dict_sum t + v" using Cons.prems(2) by (simp add: positive_minutes_def)
    with Cons.IH [OF r(1) step [OF Cons.prems(2) r(2)]] show ?case by (simp add: kv)
  qed simp
  then show "positive_minutes (add_minutes r t)" "dict_sum (add_minutes r t) = dict_sum r + dict_sum t" by blast+
qed

text \<open>The card's totals: every worked minute of every day, once.\<close>

lemma card_totals_fold:
  assumes "foldE (\<lambda>d totals. if dr_worked_minutes d \<le> 0 then Inr totals
      else bindE (property_minutes_for_day s e (dr_business_date d) (dr_property_minutes d))
        (\<lambda>resolved. Inr (add_minutes resolved totals))) days t = Inr t'"
    and "\<forall>r \<in> set days. 0 \<le> dr_worked_minutes r \<and> positive_minutes (dr_property_minutes r)
       \<and> dict_sum (dr_property_minutes r) = dr_worked_minutes r \<and> dr_worked_minutes r < 10 ^ 13"
    and "positive_minutes t"
  shows "positive_minutes t' \<and> dict_sum t' = dict_sum t + sum_list (map dr_worked_minutes days)"
  using assms
proof (induction days arbitrary: t)
  case (Cons d days)
  show ?case
  proof (cases "dr_worked_minutes d \<le> 0")
    case True
    then have "dr_worked_minutes d = 0" using Cons.prems(2) by simp
    with True Cons show ?thesis by simp
  next
    case False
    then obtain r where r: "property_minutes_for_day s e (dr_business_date d) (dr_property_minutes d) = Inr r"
      and rest: "foldE (\<lambda>d totals. if dr_worked_minutes d \<le> 0 then Inr totals
      else bindE (property_minutes_for_day s e (dr_business_date d) (dr_property_minutes d))
        (\<lambda>resolved. Inr (add_minutes resolved totals))) days (add_minutes r t) = Inr t'"
      using Cons.prems(1) by (auto simp: bindE_eq_Inr_iff)
    have "positive_minutes r" "dict_sum r = dr_worked_minutes d"
      using attribution_ok [of "dr_property_minutes d" s e "dr_business_date d"] r Cons.prems(2) by auto
    with Cons.IH [OF rest] add_minutes_ok [of r t] Cons.prems(2,3) show ?thesis by simp
  qed
qed simp

lemma card_property_minutes_sum:
  assumes "card_property_minutes s c = Inr totals" "compute_timecard s c = Inr days" "card_datetimes s"
    and "sum_list (map dr_worked_minutes days) < 10 ^ 12"
  shows "positive_minutes totals" "dict_sum totals = sum_list (map dr_worked_minutes days)"
proof -
  have days: "\<forall>r \<in> set days. 0 \<le> dr_worked_minutes r \<and> positive_minutes (dr_property_minutes r)
       \<and> dict_sum (dr_property_minutes r) = dr_worked_minutes r"
    using compute_timecard_ok [OF assms(3), of c] assms(2) by (auto simp: positive_minutes_def)
  have "dr_worked_minutes r \<le> sum_list (map dr_worked_minutes days)" if "r \<in> set days" for r
    using days that by (intro member_le_sum_list) auto
  then have "\<forall>r \<in> set days. dr_worked_minutes r < 10 ^ 13" using assms(4) by force
  with days card_totals_fold [of s "tc_employee_id c" days "[]" totals] assms(1,2)
  show "positive_minutes totals" "dict_sum totals = sum_list (map dr_worked_minutes days)"
    by (auto simp: card_property_minutes_def positive_minutes_def)
qed

lemma ddiv_small:
  assumes "0 \<le> m" "m < (10 :: int) ^ 12"
  shows "0 \<le> ddiv (of_int m) 60" "ddiv (of_int m) 60 < 10 ^ 12"
proof -
  let ?x = "of_int m / 60 :: rat"
  have "\<bar>ctx ?x - ?x\<bar> \<le> \<bar>?x\<bar> / (2 * 10 ^ 27)" by (rule ctx_error)
  moreover have "0 \<le> ?x" using assms(1) by simp
  ultimately have e: "\<bar>ctx ?x - ?x\<bar> \<le> ?x / 2" by (simp add: field_simps)
  then show "0 \<le> ddiv (of_int m) 60" using \<open>0 \<le> ?x\<close> unfolding ddiv_def by (simp only: abs_le_iff) linarith
  have "(of_int m :: rat) < of_int (10 ^ 12)" using assms(2) by (simp only: of_int_less_iff)
  then have "?x + ?x / 2 < 10 ^ 12" by simp
  moreover have "ctx ?x \<le> ?x + ?x / 2" using e by (simp only: abs_le_iff) linarith
  ultimately show "ddiv (of_int m) 60 < 10 ^ 12" unfolding ddiv_def by (rule order_le_less_trans [rotated])
qed

lemma property_hours_sum:
  assumes "positive_minutes totals" "dict_sum totals < 10 ^ 12"
  defines "T \<equiv> quantized (ddiv (of_int (dict_sum totals)) 60) (1 / 100) ROUND_HALF_EVEN"
  shows "quantize (ddiv (of_int (dict_sum totals)) 60) (1 / 100) ROUND_HALF_EVEN = Inr T"
    and "\<exists>h. apportion id T (dec_weights totals) (1 / 100) = Inr h \<and> dict_sum h = T"
proof -
  let ?m = "dict_sum totals"
  define n where "n = round_int ROUND_HALF_EVEN (ddiv (of_int ?m) 60 / (1 / 100))"
  have m0: "0 \<le> ?m" using assms(1) positive_minutes_sum [of totals] by (cases "totals = []") auto
  note dd = ddiv_small [OF m0 assms(2)]
  have "\<bar>of_int n - ddiv (of_int ?m) 60 / (1 / 100)\<bar> < 1" unfolding n_def by (rule round_int_error)
  then have "(of_int n :: rat) < of_int (10 ^ 15)" using dd by simp
  then have n15: "n < 10 ^ 15" by (simp only: of_int_less_iff)
  have n0: "0 \<le> n" unfolding n_def using dd(1) by (intro round_int_nonneg) simp
  have "\<bar>round_int ROUND_HALF_EVEN (ddiv (of_int ?m) 60 / (1 / 100))\<bar> < 10 ^ prec"
    unfolding n_def [symmetric] using n15 n0 by (simp add: prec_def)
  then show "quantize (ddiv (of_int ?m) 60) (1 / 100) ROUND_HALF_EVEN = Inr T"
    unfolding T_def by (rule quantize_quantized)
  have T: "T = of_int n / 100" by (simp add: T_def quantized_def n_def)
  show "\<exists>h. apportion id T (dec_weights totals) (1 / 100) = Inr h \<and> dict_sum h = T"
  proof (cases "totals = []")
    case True
    have "n = 0" unfolding n_def True by (simp add: ddiv_def round_int_def half_even_def)
    with True show ?thesis by (simp add: T apportion_def dec_weights_def)
  next
    case False
    have pos: "0 < ?m" by (rule positive_minutes_sum [OF assms(1) False])
    have "n * ?m < 10 ^ 15 * 10 ^ 12" using n15 n0 assms(2) m0 by (intro mult_strict_mono') auto
    then have "int_weights n totals"
      using assms(1) pos n0 by (auto simp: int_weights_def positive_minutes_def intro: order_less_imp_le)
    from hundredths.split_exact [OF this] obtain cs where
      cs: "apportion id (of_int n / 100) (dec_weights totals) (1 / 100) = Inr (quanta (1 / 100) cs)" "dict_sum cs = n"
      by blast
    have "dict_sum (quanta (1 / 100) cs) = of_int (dict_sum cs) / 100"
      by (induction cs) (auto simp: quanta_def field_simps)
    with cs show ?thesis by (simp add: T)
  qed
qed

section \<open>The purge: lemmas\<close>

lemma delete_photos_cleared:
  assumes "delete_photos del st ps = Inr (st', cleared, n, failed)"
  shows "set cleared \<subseteq> pn_punch_id ` set ps"
proof -
  have "(case (st', cleared, n, failed) of (_, cl, _, _) \<Rightarrow> set cl \<subseteq> pn_punch_id ` set ps)"
    by (rule foldE_invariant [OF assms [unfolded delete_photos_def]])
       (auto simp: delete_photo_def split: option.splits prod.splits)
  then show ?thesis by simp
qed

text \<open>Which photos a purge may delete, judged on the state it starts from.\<close>

definition purge_allowed :: "instant \<Rightarrow> db \<Rightarrow> Punch \<Rightarrow> bool" where
  "purge_allowed cutoff s p \<longleftrightarrow> orphan_due cutoff p
     \<or> (\<exists>c \<in> set (timecards s). purge_due cutoff c \<and> pn_timecard_id p = Some (tc_timecard_id c))"

definition purged_from :: "instant \<Rightarrow> db \<Rightarrow> db \<Rightarrow> bool" where
  "purged_from cutoff s s' \<longleftrightarrow>
     list_all2 (\<lambda>p p'. p' = p \<or> p' = p\<lparr>pn_photo_key := None\<rparr> \<and> purge_allowed cutoff s p) (punches s) (punches s')"

lemma purged_from_ids:
  assumes "purged_from cutoff s s'"
  shows "map pn_punch_id (punches s') = map pn_punch_id (punches s)"
proof (rule nth_equalityI)
  show len: "length (map pn_punch_id (punches s')) = length (map pn_punch_id (punches s))"
    using assms by (simp add: purged_from_def list_all2_lengthD)
  fix i assume "i < length (map pn_punch_id (punches s'))"
  moreover from this len have "punches s' ! i = punches s ! i \<or> punches s' ! i = (punches s ! i)\<lparr>pn_photo_key := None\<rparr>"
    using assms by (auto simp: purged_from_def list_all2_conv_all_nth)
  ultimately show "map pn_punch_id (punches s') ! i = map pn_punch_id (punches s) ! i"
    using len by auto
qed

lemma clear_pointers_purged:
  assumes R: "purged_from cutoff s s1" and dist: "distinct (map pn_punch_id (punches s))"
    and cl: "set cleared \<subseteq> pn_punch_id ` set (filter Q (punches s1))"
    and Q: "\<And>p. Q p \<Longrightarrow> pn_photo_key p \<noteq> None \<and> purge_allowed cutoff s p"
  shows "purged_from cutoff s (clear_pointers cleared s1)"
proof -
  have d1: "distinct (map pn_punch_id (punches s1))" using purged_from_ids [OF R] dist by simp
  have QI: "Q p" if "p \<in> set (punches s1)" "pn_punch_id p \<in> set cleared" for p
  proof -
    from cl that(2) obtain q where "q \<in> set (punches s1)" "Q q" "pn_punch_id q = pn_punch_id p" by auto
    with d1 that(1) show ?thesis by (metis distinct_map inj_onD)
  qed
  show ?thesis
    unfolding purged_from_def clear_pointers_def
  proof (simp add: list_all2_map2, rule list.rel_mono_strong)
    show "list_all2 (\<lambda>p p'. p' = p \<or> p' = p\<lparr>pn_photo_key := None\<rparr> \<and> purge_allowed cutoff s p) (punches s) (punches s1)"
      using R by (simp add: purged_from_def)
    fix p p' assume "p \<in> set (punches s)" "p' \<in> set (punches s1)"
      and "p' = p \<or> p' = p\<lparr>pn_photo_key := None\<rparr> \<and> purge_allowed cutoff s p"
    then show "(pn_punch_id p' \<in> set cleared \<longrightarrow>
          p'\<lparr>pn_photo_key := None\<rparr> = p \<or> p'\<lparr>pn_photo_key := None\<rparr> = p\<lparr>pn_photo_key := None\<rparr> \<and> purge_allowed cutoff s p) \<and>
        (pn_punch_id p' \<notin> set cleared \<longrightarrow> p' = p \<or> p' = p\<lparr>pn_photo_key := None\<rparr> \<and> purge_allowed cutoff s p)"
      using QI [of p'] Q [of p'] by auto
  qed
qed

lemma purge_approved_photos_purged:
  assumes "purge_approved_photos del now retention_days s st = Inr (s', st', n)"
    and dist: "distinct (map pn_punch_id (punches s))"
  shows "purged_from (now - retention_days * day) s s'"
proof -
  define cutoff where "cutoff = now - retention_days * day"
  from assms(1) obtain s1 st1 m st2 cleared k f where
    f1: "foldE (purge_card del now) (filter (purge_due cutoff) (timecards s)) (s, st, 0) = Inr (s1, st1, m)"
    and f2: "delete_photos del st1 (filter (orphan_due cutoff) (punches s1)) = Inr (st2, cleared, k, f)"
    and s': "s' = clear_pointers cleared s1"
    unfolding purge_approved_photos_def Let_def cutoff_def [symmetric]
    by (auto simp: bindE_eq_Inr_iff split: prod.splits)
  have "(case (s1, st1, m) of (t, _) \<Rightarrow> purged_from cutoff s t)"
  proof (rule foldE_invariant [OF f1])
    show "case (s, st, 0) of (t, _) \<Rightarrow> purged_from cutoff s t"
      by (simp add: purged_from_def list_all2_same)
    fix c x y assume c: "c \<in> set (filter (purge_due cutoff) (timecards s))"
      and x: "case x of (t, _) \<Rightarrow> purged_from cutoff s t" and step: "purge_card del now c x = Inr y"
    obtain t u j where [simp]: "x = (t, u, j)" by (metis prod.exhaust)
    let ?Q = "\<lambda>p. pn_timecard_id p = Some (tc_timecard_id c) \<and> pn_photo_key p \<noteq> None"
    obtain u' cl dn fl where del: "delete_photos del u (filter ?Q (punches t)) = Inr (u', cl, dn, fl)"
      and y: "punches (fst y) = punches (clear_pointers cl t)"
      using step by (auto simp: purge_card_def bindE_eq_Inr_iff Let_def split: prod.splits if_splits)
    have "purged_from cutoff s (clear_pointers cl t)"
      by (rule clear_pointers_purged [OF _ dist delete_photos_cleared [OF del]])
        (use x c in \<open>auto simp: purge_allowed_def\<close>)
    then show "case y of (t, _) \<Rightarrow> purged_from cutoff s t"
      using y by (cases y) (auto simp: purged_from_def)
  qed
  then have "purged_from cutoff s s1" by simp
  then have "purged_from cutoff s s'" unfolding s'
    by (rule clear_pointers_purged [OF _ dist delete_photos_cleared [OF f2]])
      (auto simp: purge_allowed_def orphan_due_def)
  then show ?thesis by (simp add: cutoff_def)
qed

section \<open>Properties\<close>

text \<open>
  Assembly is idempotent: assembling again, for any date of the same period, finds the
  same card and changes nothing.
\<close>

theorem assemble_idempotent:
  assumes "assemble_timecard s e d anchor = Inr (s', c)" "period_for d' anchor = period_for d anchor"
  shows "assemble_timecard s' e d' anchor = Inr (s', c)"
  using assms by (rule assemble_again)

theorem assemble_idempotent_witness:
  "\<exists>s' c. assemble_timecard empty_db 7 20 1 = Inr (s', c) \<and> assemble_timecard s' 7 16 1 = Inr (s', c)"
proof -
  obtain s' c where a: "assemble_timecard empty_db 7 20 1 = Inr (s', c)"
    by (simp add: assemble_timecard_def empty_db_def scalar_one_or_none_def period_for_def PERIOD_DAYS_def Let_def)
  have "assemble_timecard s' 7 16 1 = Inr (s', c)"
    by (rule assemble_idempotent [OF a]) (simp add: period_for_def PERIOD_DAYS_def)
  with a show ?thesis by blast
qed

text \<open>
  Approval locks the reviewed set: assembling a card never links a punch to an approved
  card.  With the table's unique ids, every punch that is linked to an approved card after
  the call was already so linked, unchanged, before it.
\<close>

theorem assemble_never_joins_approved:
  assumes "assemble_timecard s e d anchor = Inr (s', c)" "distinct (map tc_timecard_id (timecards s))"
    and "k \<in> set (timecards s)" "tc_status k = ''approved''"
    and "p \<in> set (punches s')" "pn_timecard_id p = Some (tc_timecard_id k)"
  shows "p \<in> set (punches s)"
proof -
  obtain ps pe where per: "period_for d anchor = (ps, pe)" by (metis prod.exhaust)
  from assms(1) per show ?thesis
  proof (cases rule: assemble_timecard_cases)
    case approved
    then show ?thesis using assms(5) by simp
  next
    case existing
    then have "c \<in> set (timecards s)" by (metis filter_eq_Cons_iff in_set_conv_decomp)
    then have "tc_timecard_id c \<noteq> tc_timecard_id k"
      using assms(2-4) existing(2) by (metis distinct_map inj_onD)
    then show ?thesis using in_link_punches [of p e ps pe "tc_timecard_id c" "punches s"] existing(3) assms(5,6) by auto
  next
    case created
    then have "tc_timecard_id c \<notin> set (map tc_timecard_id (timecards s))" by (simp add: next_id_fresh del: set_map)
    then have "tc_timecard_id c \<noteq> tc_timecard_id k" using assms(3) by auto
    then show ?thesis using in_link_punches [of p e ps pe "tc_timecard_id c" "punches s"] created(7) assms(5,6) by auto
  qed
qed

definition example_cards :: db where
  "example_cards = empty_db\<lparr>
     timecards := [\<lparr>tc_timecard_id = 4, tc_employee_id = 7, tc_period_start = 1, tc_period_end = 14,
       tc_status = ''approved'', tc_approved_by = None, tc_approved_at = Some 0, tc_photos_purged_at = None\<rparr>],
     punches := [\<lparr>pn_punch_id = 1, pn_employee_id = 7, pn_kiosk_device_id = 1, pn_punch_type = ''clock_in'',
       pn_punched_at = 0, pn_business_date = 3, pn_photo_key = Some ''a'', pn_timecard_id = Some 4, pn_match_state = None\<rparr>,
      \<lparr>pn_punch_id = 2, pn_employee_id = 7, pn_kiosk_device_id = 1, pn_punch_type = ''clock_in'',
       pn_punched_at = 0, pn_business_date = 17, pn_photo_key = Some ''b'', pn_timecard_id = None, pn_match_state = None\<rparr>]\<rparr>"

theorem assemble_never_joins_approved_witness:
  "\<exists>s' c. assemble_timecard example_cards 7 17 1 = Inr (s', c) \<and>
     hd (punches s') \<in> set (punches example_cards) \<and> pn_timecard_id (hd (punches s')) = Some 4"
proof -
  obtain s' c where a: "assemble_timecard example_cards 7 17 1 = Inr (s', c)"
    and h: "punches s' \<noteq> []" "pn_timecard_id (hd (punches s')) = Some 4"
    by (simp add: assemble_timecard_def example_cards_def empty_db_def scalar_one_or_none_def
        period_for_def PERIOD_DAYS_def link_punches_def next_id_def Let_def)
  have "hd (punches s') \<in> set (punches example_cards)"
    by (rule assemble_never_joins_approved [OF a, where k = "hd (timecards example_cards)"])
      (use h in \<open>simp_all add: example_cards_def\<close>)
  with a h show ?thesis by blast
qed

text \<open>
  Attribution keeps every minute: resolving a day's split gives a split without an
  unrecorded part, with positive shares that add up to the same total; it is refused
  only when nothing at all was device-recorded and the employee has no (or an ambiguous)
  primary placement that day.
\<close>

theorem attribution_keeps_minutes:
  assumes "positive_minutes pm" "dict_sum pm < 10 ^ 13"
  shows "case property_minutes_for_day s e d pm of
      Inr r \<Rightarrow> positive_minutes r \<and> dict_sum r = dict_sum pm
    | Inl er \<Rightarrow> set (keys pm) = {None} \<and>
        (er = UnattributableHoursError \<and> primary_assignment_on s e d = Inr None \<or> primary_assignment_on s e d = Inl er)"
  using assms by (rule attribution_ok)

theorem attribution_keeps_minutes_witness:
  "positive_minutes [(Some ''SJCES'', 360), (Some ''58033'', 300), (None, 61 :: int)] \<and>
   (case property_minutes_for_day empty_db 7 5 [(Some ''SJCES'', 360), (Some ''58033'', 300), (None, 61)] of
      Inr r \<Rightarrow> dict_sum r = 721 | Inl er \<Rightarrow> False)"
  using attribution_keeps_minutes [of "[(Some ''SJCES'', 360), (Some ''58033'', 300), (None, 61 :: int)]" empty_db 7 5]
  by (auto simp: positive_minutes_def split: sum.splits)

text \<open>
  The property hours of a card tie to the card: once every day is attributed, the
  hours per property are returned and add up exactly to the card's worked minutes,
  converted to hours and rounded to the hundredth once.
\<close>

theorem property_hours_tie:
  assumes "card_datetimes s" "compute_timecard s c = Inr days"
    and "sum_list (map dr_worked_minutes days) < 10 ^ 12"
    and "card_property_minutes s c = Inr totals"
  shows "\<exists>h. property_hours_for_timecard s c = Inr h \<and>
    dict_sum h = quantized (ddiv (of_int (sum_list (map dr_worked_minutes days))) 60) (1 / 100) ROUND_HALF_EVEN"
proof -
  note tot = card_property_minutes_sum [OF assms(4,2,1,3)]
  have "dict_sum totals < 10 ^ 12" using tot(2) assms(3) by simp
  from property_hours_sum [OF tot(1) this] show ?thesis
    by (auto simp: property_hours_for_timecard_def assms(4) tot(2))
qed

definition example_shift :: db where
  "example_shift = empty_db\<lparr>
     devices := [\<lparr>kd_device_id = 1, kd_property_id = ''SJCES'', kd_name = ''Lobby'', kd_token_hash = ''h'',
       kd_enrolled_by = ''boss'', kd_last_seen_at = None, kd_revoked_at = None\<rparr>],
     punches := [\<lparr>pn_punch_id = 1, pn_employee_id = 7, pn_kiosk_device_id = 1, pn_punch_type = ''clock_in'',
       pn_punched_at = 0, pn_business_date = 3, pn_photo_key = None, pn_timecard_id = Some 4, pn_match_state = None\<rparr>,
      \<lparr>pn_punch_id = 2, pn_employee_id = 7, pn_kiosk_device_id = 1, pn_punch_type = ''clock_out'',
       pn_punched_at = 60 * minute, pn_business_date = 3, pn_photo_key = None, pn_timecard_id = Some 4, pn_match_state = None\<rparr>]\<rparr>"

definition example_card :: Timecard where
  "example_card = \<lparr>tc_timecard_id = 4, tc_employee_id = 7, tc_period_start = 1, tc_period_end = 14,
     tc_status = ''open'', tc_approved_by = None, tc_approved_at = None, tc_photos_purged_at = None\<rparr>"

lemma example_shift_days:
  "compute_timecard example_shift example_card =
     Inr [\<lparr>dr_business_date = 3, dr_worked_minutes = 60, dr_warnings = [], dr_property_minutes = [(Some ''SJCES'', 60)]\<rparr>]"
proof -
  have ap: "apportion str_opt 60 [(Some ''SJCES'', 60)] 1 = Inr [(Some ''SJCES'', 60)]"
  proof -
    have "ddiv 3600 60 = 60" using ctx_of_int [of 60] by (simp add: ddiv_def prec_def)
    moreover have "ddiv 0 1 = 0" by (simp add: ddiv_def)
    ultimately show ?thesis
      by (simp add: apportion_def quantize_def round_int_def prec_def half_even_def require_def)
  qed
  show ?thesis
    by (simp add: compute_timecard_def timecard_events_def example_shift_def example_card_def empty_db_def
        dict_append_def punch_event_def get_device_def compute_day_def day_step_def day_init_def Let_def
        apportion_minutes_def dict_add_def dec_weights_def ap minute_def close_warnings_def meal_warnings_def
        MEAL_REQUIRED_AFTER_MINUTES_def round_int_def)
qed

theorem property_hours_tie_witness:
  "\<exists>h. property_hours_for_timecard example_shift example_card = Inr h \<and>
    dict_sum h = quantized (ddiv 60 60) (1 / 100) ROUND_HALF_EVEN"
proof -
  have "card_datetimes example_shift"
    by (simp add: card_datetimes_def example_shift_def empty_db_def minute_def)
  moreover have "card_property_minutes example_shift example_card = Inr [(''SJCES'', 60)]"
    by (simp add: card_property_minutes_def example_shift_days property_minutes_for_day_def recorded_minutes_simps
        add_minutes_def dict_add_def)
  ultimately show ?thesis
    using property_hours_tie [of example_shift example_card, OF _ example_shift_days] by simp
qed

text \<open>
   The irreversible purge is narrow: it changes nothing of any punch but its photo
  pointer, and clears that only for punches of a card approved before the cutoff and not
  yet purged, or for unlinked punches older than the cutoff; evidence under review or
  inside the retention window stays.
\<close>

theorem purge_is_narrow:
  assumes "purge_approved_photos del now retention_days s st = Inr (s', st', n)"
    and "distinct (map pn_punch_id (punches s))"
  shows "purged_from (now - retention_days * day) s s'"
  using assms by (rule purge_approved_photos_purged)

theorem purge_is_narrow_witness:
  "\<exists>s' st' n. purge_approved_photos (\<lambda>k st. Some (filter (\<lambda>x. x \<noteq> k) st)) (40 * day) 30 example_cards [''a'', ''b''] = Inr (s', st', n)
     \<and> purged_from (40 * day - 30 * day) example_cards s'"
proof -
  obtain s' st' n where r: "purge_approved_photos (\<lambda>k st. Some (filter (\<lambda>x. x \<noteq> k) st)) (40 * day) 30 example_cards [''a'', ''b''] = Inr (s', st', n)"
    by (simp add: purge_approved_photos_def purge_card_def delete_photos_def delete_photo_def purge_due_def
        orphan_due_def example_cards_def empty_db_def clear_pointers_def day_def Let_def)
  with purge_is_narrow [OF r] show ?thesis by (auto simp: example_cards_def empty_db_def)
qed

end
