(* ===== verification/Overtime.thy ===== *)
theory Overtime
  imports PyDecimal PyDate
begin

text \<open>
  \<^verbatim>\<open>usali/overtime_rules.py\<close> and \<^verbatim>\<open>usali/overtime.py\<close>: the jurisdiction rulesets and the
  engine that classifies worked hours as regular, overtime and double time.
\<close>

section \<open>Rulesets\<close>

record OvertimeRules =
  jurisdiction :: string
  weekly_ot_after :: "decimal option"
  daily_ot_after :: "decimal option"
  daily_dt_after :: "decimal option"
  seventh_day_ot :: bool
  seventh_day_dt_after :: "decimal option"
  ot_multiplier :: decimal
  dt_multiplier :: "decimal option"

text \<open>The constructor: \<^verbatim>\<open>__post_init__\<close> refuses the shapes the engine does not model.\<close>

definition post_init :: "OvertimeRules \<Rightarrow> OvertimeRules res" where
  "post_init r =
    (if daily_dt_after r \<noteq> None \<and> daily_ot_after r = None then Inl ValueError
     else if (case (daily_ot_after r, daily_dt_after r) of (Some a, Some b) \<Rightarrow> b \<le> a | _ \<Rightarrow> False)
       then Inl ValueError
     else if seventh_day_dt_after r \<noteq> None \<and> \<not> seventh_day_ot r then Inl ValueError
     else
       let pays_double = (daily_dt_after r \<noteq> None \<or> seventh_day_dt_after r \<noteq> None) in
       if pays_double \<and> dt_multiplier r = None then Inl ValueError
       else Inr r)"

definition FLSA_BASELINE :: OvertimeRules where
  "FLSA_BASELINE =
    \<lparr>jurisdiction = ''US'', weekly_ot_after = Some 40, daily_ot_after = None, daily_dt_after = None,
     seventh_day_ot = False, seventh_day_dt_after = None, ot_multiplier = 3 / 2, dt_multiplier = None\<rparr>"

definition US_CA :: OvertimeRules where
  "US_CA =
    \<lparr>jurisdiction = ''US-CA'', weekly_ot_after = Some 40, daily_ot_after = Some 8, daily_dt_after = Some 12,
     seventh_day_ot = True, seventh_day_dt_after = Some 8, ot_multiplier = 3 / 2, dt_multiplier = Some 2\<rparr>"

definition RULES :: "(string, OvertimeRules) dict" where
  "RULES = [(''US'', FLSA_BASELINE), (''US-CA'', US_CA)]"

definition rules_for :: "string option \<Rightarrow> OvertimeRules res" where
  "rules_for j =
    (case j of None \<Rightarrow> Inl UnknownJurisdictionError
     | Some k \<Rightarrow> (case map_of RULES k of None \<Rightarrow> Inl UnknownJurisdictionError | Some r \<Rightarrow> Inr r))"

definition known_jurisdictions :: "string set" where
  "known_jurisdictions = set (keys RULES)"

section \<open>The engine\<close>

record DayOvertime =
  business_date :: date
  regular_hours :: decimal
  ot_hours :: decimal
  dt_hours :: decimal

type_synonym split3 = "decimal \<times> decimal \<times> decimal"

definition workweek_start :: "date \<Rightarrow> date \<Rightarrow> date" where
  "workweek_start d anchor = (let index = (d - anchor) div 7 in anchor + index * 7)"

text \<open>The body of the first loop: one day's hours as regular, overtime, double time.\<close>

definition classify_day :: "OvertimeRules \<Rightarrow> date option \<Rightarrow> date \<Rightarrow> decimal \<Rightarrow> split3" where
  "classify_day rules seventh d h =
    (case (if Some d = seventh then seventh_day_dt_after rules else None) of
       Some s \<Rightarrow> (0, min s h, max (h - s) 0)
     | None \<Rightarrow>
       (case daily_ot_after rules of
          None \<Rightarrow> (h, 0, 0)
        | Some a \<Rightarrow>
          (case daily_dt_after rules of
             None \<Rightarrow> (min a h, max (h - a) 0, 0)
           | Some b \<Rightarrow> (min a h, min (max (h - a) 0) (b - a), max (h - b) 0))))"

text \<open>The second loop: the weekly threshold over regular hours only.\<close>

fun weekly_pass :: "decimal option \<Rightarrow> decimal \<Rightarrow> (date, split3) dict \<Rightarrow> (date, split3) dict" where
  "weekly_pass weekly_after cumulative_regular [] = []"
| "weekly_pass weekly_after cumulative_regular ((d, reg, ot, dt) # rest) =
    (case weekly_after of
       None \<Rightarrow> (d, reg, ot, dt) # weekly_pass weekly_after cumulative_regular rest
     | Some w \<Rightarrow>
       let room = max 0 (w - cumulative_regular);
           keep = min reg room;
           converted = reg - keep
       in (d, keep, ot + converted, dt) # weekly_pass weekly_after (cumulative_regular + reg) rest)"

definition seventh_day :: "OvertimeRules \<Rightarrow> date list \<Rightarrow> date option" where
  "seventh_day rules days = (if seventh_day_ot rules \<and> length days = 7 then Some (last days) else None)"

definition week_rows :: "OvertimeRules \<Rightarrow> (date, decimal) dict \<Rightarrow> date list \<Rightarrow> DayOvertime list" where
  "week_rows rules day_hours days0 =
    (let days = sort days0;
         seventh = seventh_day rules days;
         classified = map (\<lambda>d. (d, classify_day rules seventh d (dict_get day_hours d 0))) days
     in map (\<lambda>(d, reg, ot, dt). \<lparr>business_date = d, regular_hours = reg, ot_hours = ot, dt_hours = dt\<rparr>)
          (weekly_pass (weekly_ot_after rules) 0 classified))"

definition compute_overtime ::
  "(date, decimal) dict \<Rightarrow> date \<Rightarrow> bool \<Rightarrow> OvertimeRules \<Rightarrow> DayOvertime list" where
  "compute_overtime day_hours anchor exempt rules =
    (if exempt then
       map (\<lambda>d. \<lparr>business_date = d, regular_hours = dict_get day_hours d 0, ot_hours = 0, dt_hours = 0\<rparr>)
         (sort (keys day_hours))
     else
       let weeks = group_by (\<lambda>d. workweek_start d anchor) (keys day_hours)
       in concat (map (\<lambda>wk. week_rows rules day_hours (dict_get weeks wk [])) (sort (keys weeks))))"

section \<open>What makes a ruleset usable\<close>

text \<open>
  The checks of \<^verbatim>\<open>__post_init__\<close> as a predicate, and the sanity of the thresholds that the
  encoded rulesets have besides.
\<close>

definition rules_wf :: "OvertimeRules \<Rightarrow> bool" where
  "rules_wf r \<longleftrightarrow>
     (case daily_ot_after r of None \<Rightarrow> daily_dt_after r = None
      | Some a \<Rightarrow> 0 \<le> a \<and> (case daily_dt_after r of None \<Rightarrow> True | Some b \<Rightarrow> a < b))
   \<and> (case seventh_day_dt_after r of None \<Rightarrow> True | Some s \<Rightarrow> 0 \<le> s \<and> seventh_day_ot r)
   \<and> (case weekly_ot_after r of None \<Rightarrow> True | Some w \<Rightarrow> 0 \<le> w)
   \<and> (daily_dt_after r \<noteq> None \<or> seventh_day_dt_after r \<noteq> None \<longrightarrow> dt_multiplier r \<noteq> None)"

lemma rules_wf_post_init: "rules_wf r \<Longrightarrow> post_init r = Inr r"
  by (auto simp: rules_wf_def post_init_def Let_def split: option.splits)

lemma rules_for_eq_Inr_iff: "rules_for j = Inr r \<longleftrightarrow>
    (j = Some ''US'' \<and> r = FLSA_BASELINE) \<or> (j = Some ''US-CA'' \<and> r = US_CA)"
  by (cases j) (auto simp: rules_for_def RULES_def)

lemma rules_for_wf: "rules_for j = Inr r \<Longrightarrow> rules_wf r \<and> jurisdiction r = the j"
  by (auto simp: rules_for_eq_Inr_iff rules_wf_def FLSA_BASELINE_def US_CA_def)

section \<open>Classification\<close>

abbreviation sum3 :: "split3 \<Rightarrow> decimal" where
  "sum3 t \<equiv> fst t + fst (snd t) + snd (snd t)"

lemma classify_day_sum: "rules_wf rules \<Longrightarrow> sum3 (classify_day rules sv d h) = h"
  by (auto simp: classify_day_def rules_wf_def min_def max_def split: option.splits)

lemma classify_day_nonneg:
  assumes "rules_wf rules" "0 \<le> h"
  shows "0 \<le> fst (classify_day rules sv d h)" "0 \<le> fst (snd (classify_day rules sv d h))"
    "0 \<le> snd (snd (classify_day rules sv d h))"
  using assms by (auto simp: classify_day_def rules_wf_def split: option.splits)

lemma weekly_pass_keys [simp]: "keys (weekly_pass w c xs) = keys xs"
  by (induction w c xs rule: weekly_pass.induct) (auto simp: Let_def split: option.splits)

lemma weekly_pass_length: "length (weekly_pass w c xs) = length xs"
  by (induction w c xs rule: weekly_pass.induct) (auto simp: Let_def split: option.splits)

lemma weekly_pass_sums: "map (\<lambda>(d, t). (d, sum3 t)) (weekly_pass w c xs) = map (\<lambda>(d, t). (d, sum3 t)) xs"
  by (induction w c xs rule: weekly_pass.induct) (auto simp: Let_def split: option.splits)

lemma weekly_pass_nonneg:
  assumes "\<forall>(d, r, p, q) \<in> set xs. 0 \<le> r \<and> 0 \<le> p \<and> 0 \<le> q"
    and "(d, r, p, q) \<in> set (weekly_pass w c xs)"
  shows "0 \<le> r \<and> 0 \<le> p \<and> 0 \<le> q"
  using assms
  by (induction w c xs rule: weekly_pass.induct) (auto simp: Let_def split: option.splits)

text \<open>
  The regular hours that survive the weekly pass: after any prefix of the week they are
  the accumulated daily-regular hours, capped at the threshold.
\<close>

lemma keep_min: "0 \<le> r \<Longrightarrow> min r (max 0 (w - c)) = min w (c + r) - min w (c :: decimal)"
  by (simp add: min_def max_def)

lemma weekly_pass_prefix:
  assumes "\<forall>(d, r, p, q) \<in> set xs. 0 \<le> r" and "0 \<le> w" "0 \<le> c"
  shows "sum_list (map (\<lambda>(d, t). fst t) (take k (weekly_pass (Some w) c xs))) =
         min w (c + sum_list (map (\<lambda>(d, t). fst t) (take k xs))) - min w c"
  using assms
proof (induction xs arbitrary: c k)
  case Nil
  then show ?case by simp
next
  case (Cons x xs)
  obtain d r p q where x: "x = (d, r, p, q)" by (metis prod.exhaust)
  show ?case
  proof (cases k)
    case 0
    then show ?thesis by simp
  next
    case (Suc j)
    have r: "0 \<le> r" using Cons.prems(1) x by auto
    have nn: "0 \<le> sum_list (map (\<lambda>(d, t). fst t) (take j xs))"
      using Cons.prems(1) by (intro sum_list_nonneg) (auto dest!: in_set_takeD)
    have "sum_list (map (\<lambda>(d, t). fst t) (take j (weekly_pass (Some w) (c + r) xs))) =
        min w (c + r + sum_list (map (\<lambda>(d, t). fst t) (take j xs))) - min w (c + r)"
      using Cons.prems r by (intro Cons.IH) auto
    then show ?thesis using r nn by (simp add: x Suc Let_def keep_min add.assoc)
  qed
qed

lemma weekly_pass_cap:
  assumes "\<forall>(d, r, p, q) \<in> set xs. 0 \<le> r" "0 \<le> w"
  shows "sum_list (map (\<lambda>(d, t). fst t) (weekly_pass (Some w) 0 xs))
       = min w (sum_list (map (\<lambda>(d, t). fst t) xs))"
  using weekly_pass_prefix [OF assms order_refl, of "length xs + length (weekly_pass (Some w) 0 xs)"] assms(2)
  by simp

section \<open>The rows of a week and of a timecard\<close>

lemma week_rows_dates: "map business_date (week_rows rules dh days) = sort days"
proof -
  have "map business_date (week_rows rules dh days)
      = keys (weekly_pass (weekly_ot_after rules) 0
          (map (\<lambda>d. (d, classify_day rules (seventh_day rules (sort days)) d (dict_get dh d 0))) (sort days)))"
    by (simp add: week_rows_def Let_def case_prod_unfold comp_def)
  then show ?thesis by (simp only: weekly_pass_keys map_map comp_def fst_conv map_ident)
qed

lemma workweek_start_mono: "mono (\<lambda>d. workweek_start d anchor)"
  by (auto simp: mono_def workweek_start_def Let_def intro: zdiv_mono1)

lemma compute_overtime_dates:
  "map business_date (compute_overtime dh anchor exempt rules) = sort (keys dh)"
proof (cases exempt)
  case True
  then show ?thesis by (simp add: compute_overtime_def comp_def)
next
  case False
  then show ?thesis
    by (simp add: compute_overtime_def Let_def map_concat comp_def week_rows_dates
        group_by_simps concat_sorted_groups [OF workweek_start_mono])
qed

lemma in_week_rows:
  assumes "row \<in> set (week_rows rules dh days)" and "rules_wf rules"
  shows "regular_hours row + ot_hours row + dt_hours row = dict_get dh (business_date row) 0"
proof -
  let ?cl = "map (\<lambda>d. (d, classify_day rules (seventh_day rules (sort days)) d (dict_get dh d 0))) (sort days)"
  obtain d r p q where row: "(d, r, p, q) \<in> set (weekly_pass (weekly_ot_after rules) 0 ?cl)"
    "row = \<lparr>business_date = d, regular_hours = r, ot_hours = p, dt_hours = q\<rparr>"
    using assms(1) by (auto simp: week_rows_def Let_def)
  have "(d, sum3 (r, p, q)) \<in> set (map (\<lambda>(d, t). (d, sum3 t)) (weekly_pass (weekly_ot_after rules) 0 ?cl))"
    using row(1) by force
  then have "(d, sum3 (r, p, q)) \<in> set (map (\<lambda>(d, t). (d, sum3 t)) ?cl)"
    by (simp only: weekly_pass_sums)
  then have "sum3 (r, p, q) = dict_get dh d 0"
    by (auto simp: classify_day_sum [OF assms(2)])
  then show ?thesis by (simp add: row(2))
qed

lemma in_compute_overtime:
  assumes "row \<in> set (compute_overtime dh anchor exempt rules)" and "\<not> exempt"
  obtains wk where "row \<in> set (week_rows rules dh (filter (\<lambda>d. workweek_start d anchor = wk) (keys dh)))"
  using assms by (auto simp: compute_overtime_def Let_def group_by_simps)

section \<open>A closed form\<close>

text \<open>
  A declarative account of the engine, with no loop: the days of a date's workweek, the
  daily split of each, and the regular hours accumulated in the week up to a day.
\<close>

definition week_days :: "(date, decimal) dict \<Rightarrow> date \<Rightarrow> date \<Rightarrow> date list" where
  "week_days dh anchor d =
     sort (filter (\<lambda>e. workweek_start e anchor = workweek_start d anchor) (keys dh))"

definition daily_split :: "(date, decimal) dict \<Rightarrow> date \<Rightarrow> OvertimeRules \<Rightarrow> date \<Rightarrow> split3" where
  "daily_split dh anchor rules d =
     classify_day rules (seventh_day rules (week_days dh anchor d)) d (dict_get dh d 0)"

definition regular_through :: "(date, decimal) dict \<Rightarrow> date \<Rightarrow> OvertimeRules \<Rightarrow> date \<Rightarrow> decimal" where
  "regular_through dh anchor rules d =
     sum_list (map (\<lambda>e. fst (daily_split dh anchor rules e)) (filter (\<lambda>e. e \<le> d) (week_days dh anchor d)))"

definition overtime_row :: "(date, decimal) dict \<Rightarrow> date \<Rightarrow> OvertimeRules \<Rightarrow> decimal \<Rightarrow> date \<Rightarrow> DayOvertime" where
  "overtime_row dh anchor rules w d =
     (let (reg, ot, dt) = daily_split dh anchor rules d;
          S = regular_through dh anchor rules d;
          keep = min w S - min w (S - reg)
      in \<lparr>business_date = d, regular_hours = keep, ot_hours = ot + (reg - keep), dt_hours = dt\<rparr>)"

lemma weekly_pass_nth:
  assumes "\<forall>(d, r, p, q) \<in> set xs. 0 \<le> r" "0 \<le> c" "i < length xs" "xs ! i = (d, r, p, q)"
    and "S = c + sum_list (map (\<lambda>(d, t). fst t) (take (Suc i) xs))"
  shows "weekly_pass (Some w) c xs ! i = (d, min w S - min w (S - r), p + (r - (min w S - min w (S - r))), q)"
  using assms
proof (induction xs arbitrary: c i)
  case Nil
  then show ?case by simp
next
  case (Cons x xs)
  obtain d' r' p' q' where x: "x = (d', r', p', q')" by (metis prod.exhaust)
  have r': "0 \<le> r'" using Cons.prems(1) x by auto
  show ?case
  proof (cases i)
    case 0
    with Cons.prems r' show ?thesis by (simp add: x Let_def keep_min)
  next
    case (Suc j)
    have "weekly_pass (Some w) (c + r') xs ! j =
        (d, min w S - min w (S - r), p + (r - (min w S - min w (S - r))), q)"
      using Cons.prems r' by (intro Cons.IH) (auto simp: Suc x)
    then show ?thesis by (simp add: Suc x Let_def)
  qed
qed

lemma week_rows_closed:
  assumes wf: "rules_wf rules" and w: "weekly_ot_after rules = Some w"
    and hours: "\<forall>h \<in> set (map snd dh). 0 \<le> h" and dist: "distinct (keys dh)"
    and days_def: "days = filter (\<lambda>e. workweek_start e anchor = wk) (keys dh)"
  shows "week_rows rules dh days = map (overtime_row dh anchor rules w) (sort days)"
proof (rule nth_equalityI)
  have "length (week_rows rules dh days) = length (map business_date (week_rows rules dh days))" by simp
  then have len: "length (week_rows rules dh days) = length days"
    unfolding week_rows_dates by simp
  then show "length (week_rows rules dh days) = length (map (overtime_row dh anchor rules w) (sort days))"
    by simp
  fix i assume "i < length (week_rows rules dh days)"
  then have i: "i < length (sort days)" using len by simp
  define d where "d = sort days ! i"
  have "d \<in> set days" using i unfolding d_def by (metis nth_mem set_sort)
  then have wd: "week_days dh anchor e = sort days" if "e \<in> set days" for e
    using that by (auto simp: week_days_def days_def)
  let ?cl = "map (\<lambda>d. (d, classify_day rules (seventh_day rules (sort days)) d (dict_get dh d 0))) (sort days)"
  have cl: "?cl = map (\<lambda>d. (d, daily_split dh anchor rules d)) (sort days)"
    by (rule map_cong) (auto simp: daily_split_def wd)
  have get0: "0 \<le> dict_get dh e 0" for e
    using hours dist by (rule dict_get_nonneg)
  obtain r p q where ds: "daily_split dh anchor rules d = (r, p, q)" by (metis prod.exhaust)
  have nn: "\<forall>(d, r, p, q) \<in> set ?cl. 0 \<le> r"
    using classify_day_nonneg(1) [OF wf get0] by auto (metis fst_conv)
  have at: "?cl ! i = (d, r, p, q)" using i ds by (simp add: cl d_def)
  have "filter (\<lambda>e. e \<le> d) (sort days) = take (Suc i) (sort days)"
    unfolding d_def using dist i by (intro filter_le_sorted_nth) (auto simp: days_def)
  then have "sum_list (map (\<lambda>(d, t). fst t) (take (Suc i) ?cl)) = regular_through dh anchor rules d"
    unfolding cl regular_through_def wd [OF \<open>d \<in> set days\<close>]
    by (simp add: take_map comp_def)
  then have "weekly_pass (Some w) 0 ?cl ! i =
      (let S = regular_through dh anchor rules d in
       (d, min w S - min w (S - r), p + (r - (min w S - min w (S - r))), q))"
    unfolding Let_def using i by (intro weekly_pass_nth [OF nn order_refl _ at]) auto
  moreover have "length (weekly_pass (Some w) 0 ?cl) = length (sort days)"
    by (simp add: weekly_pass_length)
  ultimately show "week_rows rules dh days ! i = map (overtime_row dh anchor rules w) (sort days) ! i"
    using i by (simp add: week_rows_def Let_def w overtime_row_def ds flip: d_def)
qed

lemma compute_overtime_eq:
  assumes "rules_wf rules" and "weekly_ot_after rules = Some w"
    and "\<forall>h \<in> set (map snd dh). 0 \<le> h" and "distinct (keys dh)"
  shows "compute_overtime dh anchor False rules = map (overtime_row dh anchor rules w) (sort (keys dh))"
proof -
  let ?f = "\<lambda>d. workweek_start d anchor"
  let ?ks = "sort (keys (group_by ?f (keys dh)))"
  have "compute_overtime dh anchor False rules =
      concat (map (\<lambda>wk. week_rows rules dh (filter (\<lambda>d. ?f d = wk) (keys dh))) ?ks)"
    by (simp add: compute_overtime_def Let_def group_by_simps)
  also have "\<dots> = concat (map (\<lambda>wk. map (overtime_row dh anchor rules w) (sort (filter (\<lambda>d. ?f d = wk) (keys dh)))) ?ks)"
    by (simp only: week_rows_closed [OF assms refl])
  also have "\<dots> = map (overtime_row dh anchor rules w)
      (concat (map (\<lambda>wk. sort (filter (\<lambda>d. ?f d = wk) (keys dh))) ?ks))"
    by (simp only: map_concat map_map comp_def)
  finally show ?thesis
    by (simp only: concat_sorted_groups [OF workweek_start_mono])
qed

text \<open>What the closed form gives per row.\<close>

lemma overtime_row_bounds:
  assumes "rules_wf rules" "0 \<le> dict_get dh d 0"
    and row_def: "row = overtime_row dh anchor rules w d"
  shows "0 \<le> regular_hours row" "0 \<le> ot_hours row" "0 \<le> dt_hours row"
    "regular_hours row + ot_hours row + dt_hours row = dict_get dh d 0"
    "regular_hours row \<le> fst (daily_split dh anchor rules d)"
proof -
  obtain r p q where ds: "daily_split dh anchor rules d = (r, p, q)" by (metis prod.exhaust)
  have nn: "0 \<le> r" "0 \<le> p" "0 \<le> q" "r + p + q = dict_get dh d 0"
    using classify_day_nonneg [OF assms(1,2)] classify_day_sum [OF assms(1)] ds
    unfolding daily_split_def by (metis fst_conv snd_conv)+
  let ?S = "regular_through dh anchor rules d"
  have "0 \<le> min w ?S - min w (?S - r)" "min w ?S - min w (?S - r) \<le> r"
    using nn(1) by (simp_all add: min_def)
  with nn show "0 \<le> regular_hours row" "0 \<le> ot_hours row" "0 \<le> dt_hours row"
    "regular_hours row + ot_hours row + dt_hours row = dict_get dh d 0"
    "regular_hours row \<le> fst (daily_split dh anchor rules d)"
    by (simp_all add: row_def overtime_row_def ds Let_def)
qed

lemma weekly_regular_sum:
  assumes "rules_wf rules" and "weekly_ot_after rules = Some w" "0 \<le> w"
    and "\<forall>h \<in> set (map snd dh). 0 \<le> h" and "distinct (keys dh)"
  shows "sum_list (map regular_hours (week_rows rules dh days)) \<le> w"
proof -
  let ?cl = "map (\<lambda>d. (d, classify_day rules (seventh_day rules (sort days)) d (dict_get dh d 0))) (sort days)"
  have get0: "0 \<le> dict_get dh e 0" for e
    using assms(4,5) by (rule dict_get_nonneg)
  have "\<forall>(d, r, p, q) \<in> set ?cl. 0 \<le> r"
    using classify_day_nonneg(1) [OF assms(1) get0] by auto (metis fst_conv)
  from weekly_pass_cap [OF this assms(3)]
  show ?thesis by (simp add: week_rows_def Let_def assms(2) case_prod_unfold comp_def)
qed

section \<open>Properties\<close>

text \<open>
  C28.  The two-pass engine equals the closed form: on any timecard of a non-exempt employee
  under a verified ruleset, the output has one row per worked date in chronological order,
  and on each date the regular hours kept are the increase of the week's accumulated
  daily-regular hours below the weekly threshold, the excess moving to overtime, with
  double time as the daily (or seventh-day) rule classified it.
\<close>

theorem compute_overtime_closed_form:
  assumes "rules_for j = Inr rules" and "\<forall>h \<in> set (map snd dh). 0 \<le> h" and "distinct (keys dh)"
  shows "compute_overtime dh anchor False rules = map (overtime_row dh anchor rules 40) (sort (keys dh))"
proof -
  have "weekly_ot_after rules = Some 40"
    using assms(1) by (auto simp: rules_for_eq_Inr_iff FLSA_BASELINE_def US_CA_def)
  then show ?thesis
    using compute_overtime_eq rules_for_wf [OF assms(1)] assms(2,3) by blast
qed

theorem compute_overtime_closed_form_witness:
  "rules_for (Some ''US-CA'') = Inr US_CA \<and>
   map (\<lambda>r. (regular_hours r, ot_hours r, dt_hours r)) (compute_overtime [(3, 13), (1, 9)] 1 False US_CA)
     = [(8, 1, 0), (8, 4, 1)]"
proof -
  have "compute_overtime [(3, 13), (1, 9)] 1 False US_CA = map (overtime_row [(3, 13), (1, 9)] 1 US_CA 40) (sort [3, 1])"
    using compute_overtime_closed_form [of "Some ''US-CA''" US_CA "[(3, 13), (1, 9)]" 1]
    by (simp add: rules_for_eq_Inr_iff)
  then show ?thesis
    by (simp add: rules_for_eq_Inr_iff overtime_row_def daily_split_def regular_through_def week_days_def
        workweek_start_def classify_day_def seventh_day_def US_CA_def)
qed

lemma overtime_rows_ok:
  assumes "rules_for j = Inr rules" and "\<forall>h \<in> set (map snd dh). 0 \<le> h" and "distinct (keys dh)"
  shows "map business_date (compute_overtime dh anchor exempt rules) = sort (keys dh)"
    and "\<forall>row \<in> set (compute_overtime dh anchor exempt rules).
           regular_hours row + ot_hours row + dt_hours row = dict_get dh (business_date row) 0
         \<and> 0 \<le> regular_hours row \<and> 0 \<le> ot_hours row \<and> 0 \<le> dt_hours row"
    and "\<not> exempt \<Longrightarrow>
           sum_list (map regular_hours (filter (\<lambda>r. workweek_start (business_date r) anchor = wk)
             (compute_overtime dh anchor exempt rules))) \<le> 40"
proof -
  note wf = rules_for_wf [OF assms(1), THEN conjunct1]
  have w: "weekly_ot_after rules = Some 40"
    using assms(1) by (auto simp: rules_for_eq_Inr_iff FLSA_BASELINE_def US_CA_def)
  note closed = compute_overtime_eq [OF wf w assms(2,3), of anchor]
  have nn: "0 \<le> dict_get dh d 0" for d using assms(2,3) by (rule dict_get_nonneg)
  have date: "business_date (overtime_row dh anchor rules 40 d) = d" for d
    by (simp add: overtime_row_def Let_def case_prod_unfold)
  show "map business_date (compute_overtime dh anchor exempt rules) = sort (keys dh)"
    by (rule compute_overtime_dates)
  show "\<forall>row \<in> set (compute_overtime dh anchor exempt rules).
           regular_hours row + ot_hours row + dt_hours row = dict_get dh (business_date row) 0
         \<and> 0 \<le> regular_hours row \<and> 0 \<le> ot_hours row \<and> 0 \<le> dt_hours row"
    using closed overtime_row_bounds [OF wf nn refl] nn
    by (cases exempt) (auto simp: compute_overtime_def date)
  assume "\<not> exempt"
  let ?days = "filter (\<lambda>e. workweek_start e anchor = wk) (keys dh)"
  have "filter (\<lambda>r. workweek_start (business_date r) anchor = wk) (compute_overtime dh anchor False rules)
      = map (overtime_row dh anchor rules 40) (sort ?days)"
    by (simp add: closed filter_map comp_def date filter_sort)
  also have "\<dots> = week_rows rules dh ?days"
    by (rule week_rows_closed [OF wf w assms(2,3) refl, symmetric])
  finally show "sum_list (map regular_hours (filter (\<lambda>r. workweek_start (business_date r) anchor = wk)
             (compute_overtime dh anchor exempt rules))) \<le> 40"
    using weekly_regular_sum [OF wf w _ assms(2,3), of ?days] \<open>\<not> exempt\<close> by simp
qed

text \<open>
  No hour is lost, invented or negative: one row per input date in order, each with
  three non-negative buckets that add up to the day's hours; and, in every workweek,
  the regular hours of a non-exempt employee add up to at most the weekly threshold
  (the no-pyramiding rule never pays more than 40 straight-time hours).
\<close>

theorem compute_overtime_conserves:
  assumes "rules_for j = Inr rules" and "\<forall>h \<in> set (map snd dh). 0 \<le> h" and "distinct (keys dh)"
  shows "map business_date (compute_overtime dh anchor exempt rules) = sort (keys dh) \<and>
    (\<forall>row \<in> set (compute_overtime dh anchor exempt rules).
       regular_hours row + ot_hours row + dt_hours row = dict_get dh (business_date row) 0
     \<and> 0 \<le> regular_hours row \<and> 0 \<le> ot_hours row \<and> 0 \<le> dt_hours row) \<and>
    (\<not> exempt \<longrightarrow>
       sum_list (map regular_hours (filter (\<lambda>r. workweek_start (business_date r) anchor = wk)
         (compute_overtime dh anchor exempt rules))) \<le> 40)"
  using overtime_rows_ok [OF assms] by blast

theorem compute_overtime_conserves_witness:
  "rules_for (Some ''US'') = Inr FLSA_BASELINE \<and>
   sum_list (map regular_hours (filter (\<lambda>r. workweek_start (business_date r) 1 = 1)
     (compute_overtime [(1, 20), (2, 15), (5, 10)] 1 False FLSA_BASELINE))) \<le> 40"
  using compute_overtime_conserves [of "Some ''US''" FLSA_BASELINE "[(1, 20), (2, 15), (5, 10)]" 1 False 1]
  by (simp add: rules_for_eq_Inr_iff)

end
