(* ===== verification/Rates.thy ===== *)
theory Rates
  imports Assignments Overtime
begin

text \<open>
  \<^verbatim>\<open>usali/rates.py\<close>: effective-dated pay rates, the statutory floor on stored premium
  rates, and the rates that price one day's hours at one placement.
\<close>

section \<open>Resolution\<close>

definition RATE_TYPES :: "string list" where
  "RATE_TYPES = [''regular'', ''ot'', ''dot'', ''holiday'']"

text \<open>\<^verbatim>\<open>_FLOOR_MULTIPLIER_ATTR\<close>: the multiplier a stored premium is measured against.\<close>

definition floor_multiplier_attr :: "string \<Rightarrow> (OvertimeRules \<Rightarrow> decimal option) option" where
  "floor_multiplier_attr rate_type =
     (if rate_type = ''ot'' then Some (\<lambda>r. Some (ot_multiplier r))
      else if rate_type = ''dot'' then Some dt_multiplier
      else None)"

definition rules_for_assignment :: "db \<Rightarrow> int \<Rightarrow> OvertimeRules res" where
  "rules_for_assignment s assignment_id =
     (case get_assignment s assignment_id of
        None \<Rightarrow> Inl ValueError
      | Some a \<Rightarrow>
          rules_for (case get_property s (ea_property_id a) of None \<Rightarrow> None | Some p \<Rightarrow> pr_wage_jurisdiction p))"

definition rate_rows :: "db \<Rightarrow> int \<Rightarrow> string \<Rightarrow> date \<Rightarrow> AssignmentRate list" where
  "rate_rows s assignment_id rate_type on =
     filter (\<lambda>r. covers (ar_effective_from r) (ar_effective_to r) on)
       (filter (\<lambda>r. ar_assignment_id r = assignment_id \<and> ar_rate_type r = rate_type \<and> ar_effective_from r \<le> on)
         (assignment_rates s))"

definition decode :: "AssignmentRate \<Rightarrow> decimal res" where
  "decode row = (case ar_amount row of None \<Rightarrow> Inl CorruptRateError | Some v \<Rightarrow> Inr v)"

definition stored_rate :: "db \<Rightarrow> int \<Rightarrow> string \<Rightarrow> date \<Rightarrow> decimal option res" where
  "stored_rate s assignment_id rate_type on =
     (case rate_rows s assignment_id rate_type on of
        [] \<Rightarrow> Inr None
      | [row] \<Rightarrow> bindE (decode row) (\<lambda>v. Inr (Some v))
      | _ \<Rightarrow> Inl AmbiguousRateError)"

definition refuse_below_floor ::
  "db \<Rightarrow> int \<Rightarrow> date \<Rightarrow> decimal \<Rightarrow> (OvertimeRules \<Rightarrow> decimal option) \<Rightarrow> unit res" where
  "refuse_below_floor s assignment_id on amount floor_attr =
     bindE (rules_for_assignment s assignment_id) (\<lambda>rules.
       case floor_attr rules of
         None \<Rightarrow> Inr ()
       | Some multiplier \<Rightarrow>
           bindE (stored_rate s assignment_id ''regular'' on) (\<lambda>base.
             case base of
               None \<Rightarrow> Inl MissingBaseRateError
             | Some b \<Rightarrow> if amount < b * multiplier then Inl BelowStatutoryFloorError else Inr ()))"

definition rate_on :: "db \<Rightarrow> int \<Rightarrow> string \<Rightarrow> date \<Rightarrow> decimal option res" where
  "rate_on s assignment_id rate_type on =
     (if rate_type \<notin> set RATE_TYPES then Inl ValueError
      else bindE (stored_rate s assignment_id rate_type on) (\<lambda>amount.
        case amount of
          None \<Rightarrow> Inr None
        | Some v \<Rightarrow>
            (case floor_multiplier_attr rate_type of
               None \<Rightarrow> Inr (Some v)
             | Some attr \<Rightarrow> bindE (refuse_below_floor s assignment_id on v attr) (\<lambda>_. Inr (Some v)))))"

record HourlyRates =
  hr_regular :: decimal
  hr_ot :: decimal
  hr_dot :: "decimal option"

definition hourly_rates_on :: "db \<Rightarrow> int \<Rightarrow> date \<Rightarrow> HourlyRates option res" where
  "hourly_rates_on s assignment_id on =
     bindE (rate_on s assignment_id ''regular'' on) (\<lambda>r.
       case r of
         None \<Rightarrow> Inr None
       | Some regular \<Rightarrow>
           bindE (rules_for_assignment s assignment_id) (\<lambda>rules.
           bindE (rate_on s assignment_id ''ot'' on) (\<lambda>stored_ot.
           bindE (rate_on s assignment_id ''dot'' on) (\<lambda>stored_dot.
             let dot = (case dt_multiplier rules of
                          None \<Rightarrow> None
                        | Some m \<Rightarrow> (case stored_dot of Some v \<Rightarrow> Some v | None \<Rightarrow> Some (regular * m)));
                 ot = (case stored_ot of Some v \<Rightarrow> v | None \<Rightarrow> regular * ot_multiplier rules)
             in Inr (Some \<lparr>hr_regular = regular, hr_ot = ot, hr_dot = dot\<rparr>)))))"

text \<open>Rates are dated rows governed by dating alone.\<close>

interpretation rate_row: dated_rows ar_effective_from ar_effective_to
  "\<lambda>r d. covers (ar_effective_from r) (ar_effective_to r) d"
  by unfold_locales (auto simp: covers_def split: option.splits if_splits)

section \<open>Lemmas\<close>

lemma rate_on_regular: "rate_on s a ''regular'' d = stored_rate s a ''regular'' d"
  by (cases "stored_rate s a ''regular'' d")
     (auto simp: rate_on_def RATE_TYPES_def floor_multiplier_attr_def split: option.splits)

text \<open>A premium that \<open>rate_on\<close> returns is at or above the floor.\<close>

lemma premium_floor:
  assumes "rate_on s a t d = Inr (Some v)" "floor_multiplier_attr t = Some attr"
    and "rules_for_assignment s a = Inr rules" "attr rules = Some m"
  shows "\<exists>b. stored_rate s a ''regular'' d = Inr (Some b) \<and> b * m \<le> v"
  using assms
  by (auto simp: rate_on_def refuse_below_floor_def bindE_eq_Inr_iff
      split: option.splits if_splits)

lemma rules_for_multipliers:
  "rules_for j = Inr rules \<Longrightarrow> 1 < ot_multiplier rules \<and> (\<forall>m. dt_multiplier rules = Some m \<longrightarrow> ot_multiplier rules \<le> m)"
  by (auto simp: rules_for_eq_Inr_iff FLSA_BASELINE_def US_CA_def)

lemma rules_for_assignment_rules: "rules_for_assignment s a = Inr rules \<Longrightarrow> \<exists>j. rules_for j = Inr rules"
  by (auto simp: rules_for_assignment_def split: option.splits)

section \<open>Properties\<close>

text \<open>
  Whatever is stored, a placement's priced rates respect the law: the overtime rate is
  at least the regular rate times the jurisdiction's overtime multiplier, the double-time
  rate exists exactly where the jurisdiction has one and is at least its multiple, and the
  regular rate is the one row in force on the day.
\<close>

theorem hourly_rates_lawful:
  assumes "hourly_rates_on s a d = Inr (Some h)"
  shows "\<exists>rules. rules_for_assignment s a = Inr rules
    \<and> stored_rate s a ''regular'' d = Inr (Some (hr_regular h))
    \<and> hr_regular h * ot_multiplier rules \<le> hr_ot h
    \<and> (case dt_multiplier rules of
         None \<Rightarrow> hr_dot h = None
       | Some m \<Rightarrow> \<exists>v. hr_dot h = Some v \<and> hr_regular h * m \<le> v)"
proof -
  obtain ro where ro: "stored_rate s a ''regular'' d = Inr ro"
    using assms by (auto simp: hourly_rates_on_def rate_on_regular bindE_eq_Inr_iff)
  with assms obtain reg where "ro = Some reg"
    by (cases ro) (auto simp: hourly_rates_on_def rate_on_regular)
  with assms ro obtain rules so sd where
    r: "stored_rate s a ''regular'' d = Inr (Some reg)" "rules_for_assignment s a = Inr rules"
    "rate_on s a ''ot'' d = Inr so" "rate_on s a ''dot'' d = Inr sd"
    and h: "h = \<lparr>hr_regular = reg,
        hr_ot = (case so of Some v \<Rightarrow> v | None \<Rightarrow> reg * ot_multiplier rules),
        hr_dot = (case dt_multiplier rules of None \<Rightarrow> None
                  | Some m \<Rightarrow> (case sd of Some v \<Rightarrow> Some v | None \<Rightarrow> Some (reg * m)))\<rparr>"
    by (simp add: hourly_rates_on_def rate_on_regular bindE_eq_Inr_iff Let_def) metis
  have ot: "reg * ot_multiplier rules \<le> v" if "so = Some v" for v
    using premium_floor [of s a "''ot''" d v] r that by (auto simp: floor_multiplier_attr_def)
  have dt: "reg * m \<le> v" if "sd = Some v" "dt_multiplier rules = Some m" for v m
    using premium_floor [of s a "''dot''" d v] r that by (auto simp: floor_multiplier_attr_def)
  show ?thesis
    using r(1,2) ot dt by (auto simp: h split: option.splits)
qed

definition example_rates :: db where
  "example_rates = empty_db\<lparr>
     properties := [\<lparr>pr_property_id = ''SJCES'', pr_timezone = ''America/Los_Angeles'', pr_wage_jurisdiction = Some ''US-CA''\<rparr>],
     assignments := [\<lparr>ea_assignment_id = 1, ea_employee_id = 7, ea_property_id = ''SJCES'', ea_department_id = Some 3,
       ea_position_id = None, ea_is_primary = True, ea_status = ''active'', ea_effective_from = 100, ea_effective_to = None\<rparr>],
     assignment_rates :=
       [\<lparr>ar_assignment_id = 1, ar_rate_type = ''regular'', ar_amount = Some 20, ar_effective_from = 100, ar_effective_to = None\<rparr>,
        \<lparr>ar_assignment_id = 1, ar_rate_type = ''ot'', ar_amount = Some 32, ar_effective_from = 100, ar_effective_to = None\<rparr>]\<rparr>"

lemma example_hourly_rates:
  "hourly_rates_on example_rates 1 105 = Inr (Some \<lparr>hr_regular = 20, hr_ot = 32, hr_dot = Some 40\<rparr>)"
  by (simp add: example_rates_def empty_db_def hourly_rates_on_def rate_on_def RATE_TYPES_def stored_rate_def
      rate_rows_def covers_def decode_def floor_multiplier_attr_def refuse_below_floor_def
      rules_for_assignment_def get_assignment_def get_property_def rules_for_def RULES_def US_CA_def)

theorem hourly_rates_lawful_witness:
  "\<exists>rules. rules_for_assignment example_rates 1 = Inr rules \<and> 20 * ot_multiplier rules \<le> 32"
  using hourly_rates_lawful [OF example_hourly_rates] by auto

text \<open>
   A rate is read as of the day being costed: entering a rate row that starts after a
  worked day, of any placement and type and with any amount, leaves the day's rates
  unchanged, so a raise never reprices hours already worked.
\<close>

theorem later_rate_never_reprices:
  assumes "d < ar_effective_from r"
  shows "hourly_rates_on (s\<lparr>assignment_rates := assignment_rates s @ [r]\<rparr>) a d = hourly_rates_on s a d"
proof -
  let ?s = "s\<lparr>assignment_rates := assignment_rates s @ [r]\<rparr>"
  have "rate_rows ?s a t d = rate_rows s a t d" for t
    using assms by (simp add: rate_rows_def)
  then have st: "stored_rate ?s a t d = stored_rate s a t d" for t
    by (simp add: stored_rate_def)
  have "get_property ?s = get_property s" "get_assignment ?s = get_assignment s"
    by (simp_all add: fun_eq_iff get_assignment_def get_property_def)
  then have ru: "rules_for_assignment ?s a = rules_for_assignment s a"
    by (simp add: rules_for_assignment_def split: option.split)
  have "rate_on ?s a t d = rate_on s a t d" for t
    by (simp add: rate_on_def refuse_below_floor_def st ru bindE_def split: option.split sum.split)
  then show ?thesis by (simp add: hourly_rates_on_def ru bindE_def split: option.split sum.split)
qed

theorem later_rate_never_reprices_witness:
  "(105 :: date) < 110 \<and>
   hourly_rates_on (example_rates\<lparr>assignment_rates := assignment_rates example_rates @
     [\<lparr>ar_assignment_id = 1, ar_rate_type = ''regular'', ar_amount = Some 30, ar_effective_from = 110, ar_effective_to = None\<rparr>]\<rparr>) 1 105
   = Inr (Some \<lparr>hr_regular = 20, hr_ot = 32, hr_dot = Some 40\<rparr>)"
  using later_rate_never_reprices [of 105 "\<lparr>ar_assignment_id = 1, ar_rate_type = ''regular'', ar_amount = Some 30,
      ar_effective_from = 110, ar_effective_to = None\<rparr>" example_rates 1]
  by (simp add: example_hourly_rates)

end
