(* ===== verification/SickLeave.thy ===== *)
theory SickLeave
  imports Rates
begin

text \<open>
  \<^verbatim>\<open>usali/sick_leave_rules.py\<close>, \<^verbatim>\<open>usali/sick_leave.py\<close> and the handlers of
  \<^verbatim>\<open>usali/sick_leave_api.py\<close>: accrual, the day-granular balance fold over the append-only
  ledger, and the payroll-gated writers.  A handler is a function of the state that
  returns the new state and its response; \<open>HTTPException\<close> carries the status code.  The
  row lock and the authorization dependency are not modelled, nor is the
  width of the \<^verbatim>\<open>Numeric(6, 2)\<close> column.
\<close>

section \<open>Rules\<close>

record SickLeaveRules =
  slr_jurisdiction :: string
  hours_worked_per_accrued_hour :: decimal
  usage_cap_floor_hours :: decimal
  usage_cap_days :: decimal
  accrual_cap_floor_hours :: decimal
  accrual_cap_days :: decimal
  exempt_deemed_weekly_hours :: decimal
  slr_usage_cap_window :: string

definition usage_cap_hours :: "SickLeaveRules \<Rightarrow> decimal \<Rightarrow> decimal" where
  "usage_cap_hours rules d = max (usage_cap_floor_hours rules) (usage_cap_days rules * d)"

definition accrual_cap_hours :: "SickLeaveRules \<Rightarrow> decimal \<Rightarrow> decimal" where
  "accrual_cap_hours rules d = max (accrual_cap_floor_hours rules) (accrual_cap_days rules * d)"

definition CALIFORNIA :: SickLeaveRules where
  "CALIFORNIA = \<lparr>slr_jurisdiction = ''US-CA'', hours_worked_per_accrued_hour = 30, usage_cap_floor_hours = 40,
     usage_cap_days = 5, accrual_cap_floor_hours = 80, accrual_cap_days = 10, exempt_deemed_weekly_hours = 40,
     slr_usage_cap_window = ''calendar_year''\<rparr>"

definition sick_leave_rules_for :: "string \<Rightarrow> SickLeaveRules option res" where
  "sick_leave_rules_for j =
     (if j = ''US-CA'' then Inr (Some CALIFORNIA)
      else if j = ''US'' then Inr None
      else Inl UnknownSickLeaveJurisdiction)"

abbreviation HOURS :: decimal where "HOURS \<equiv> 1 / 100"

section \<open>Caps\<close>

definition day_length :: "db \<Rightarrow> int \<Rightarrow> date \<Rightarrow> decimal option res" where
  "day_length s employee_id on =
    (let facts = filter (\<lambda>f. (\<exists>c \<in> set (timecards s). tc_timecard_id c = lf_timecard_id f \<and> tc_employee_id c = employee_id)
                          \<and> lf_business_date f > on - 90 \<and> lf_business_date f \<le> on) (labor_facts s);
         per_day = map (\<lambda>(d, fs). sum_list (map lf_hours fs)) (group_by lf_business_date facts)
     in if per_day = [] then Inr None
        else bindE (quantize (ddiv (sum_list per_day) (of_nat (length per_day))) HOURS ROUND_HALF_UP)
               (\<lambda>avg. Inr (Some (max 8 avg))))"

definition cap_hours_on :: "db \<Rightarrow> int \<Rightarrow> date \<Rightarrow> decimal option res" where
  "cap_hours_on s employee_id on =
     bindE (primary_assignment_on s employee_id on) (\<lambda>primary.
       case primary of
         None \<Rightarrow> Inr None
       | Some a \<Rightarrow>
           (case get_property s (ea_property_id a) of
              None \<Rightarrow> Inr None
            | Some p \<Rightarrow>
                (case pr_wage_jurisdiction p of
                   None \<Rightarrow> Inr None
                 | Some j \<Rightarrow>
                     (case sick_leave_rules_for j of
                        Inl UnknownSickLeaveJurisdiction \<Rightarrow> Inr None
                      | Inl e \<Rightarrow> Inl e
                      | Inr None \<Rightarrow> Inr None
                      | Inr (Some rules) \<Rightarrow>
                          bindE (day_length s employee_id on) (\<lambda>d.
                            case d of
                              None \<Rightarrow> Inr None
                            | Some dl \<Rightarrow> bindE (quantize (accrual_cap_hours rules dl) HOURS ROUND_HALF_EVEN) (\<lambda>c. Inr (Some c)))))))"

section \<open>Accrual\<close>

definition employed_weeks :: "db \<Rightarrow> Timecard \<Rightarrow> nat" where
  "employed_weeks s tcard =
    (let weeks = nat ((tc_period_end tcard - tc_period_start tcard + 1 + 6) div 7)
     in length (filter (\<lambda>week. \<exists>offset \<in> set [0..<7].
           assignments_on s (tc_employee_id tcard) (tc_period_start tcard + 7 * int week + int offset) True \<noteq> []) [0..<weeks]))"

definition accrual_basis :: "db \<Rightarrow> Timecard \<Rightarrow> (date, decimal) dict \<Rightarrow> bool \<Rightarrow> SickLeaveRules \<Rightarrow> decimal" where
  "accrual_basis s tcard day_hours exempt rules =
     (if exempt then exempt_deemed_weekly_hours rules * of_nat (employed_weeks s tcard) else dict_sum day_hours)"

definition accrue_for_card :: "db \<Rightarrow> Timecard \<Rightarrow> (date, decimal) dict \<Rightarrow> bool \<Rightarrow> string option \<Rightarrow> db res" where
  "accrue_for_card s0 tcard day_hours exempt j =
    (let s = s0\<lparr>sick_ledger := filter (\<lambda>e. sl_timecard_id e \<noteq> Some (tc_timecard_id tcard)) (sick_ledger s0)\<rparr> in
     case j of
       None \<Rightarrow> Inr s
     | Some jn \<Rightarrow>
         bindE (sick_leave_rules_for jn) (\<lambda>r.
           case r of
             None \<Rightarrow> Inr s
           | Some rules \<Rightarrow>
               bindE (quantize (ddiv (accrual_basis s tcard day_hours exempt rules) (hours_worked_per_accrued_hour rules))
                        HOURS ROUND_UP) (\<lambda>accrued.
                 if accrued \<le> 0 then Inr s
                 else bindE (cap_hours_on s (tc_employee_id tcard) (tc_period_end tcard)) (\<lambda>cap.
                   Inr (s\<lparr>sick_ledger := sick_ledger s @
                     [\<lparr>sl_employee_id = tc_employee_id tcard, sl_entry_type = ''accrual'', sl_hours = accrued,
                       sl_cap_hours = cap, sl_effective_on = tc_period_end tcard,
                       sl_timecard_id = Some (tc_timecard_id tcard)\<rparr>]\<rparr>)))))"

section \<open>The balance fold\<close>

type_synonym entry = "date \<times> decimal \<times> decimal option"

text \<open>The inner loop gathers one day; the outer loop clamps and goes on.\<close>

definition day_close :: "decimal \<Rightarrow> entry list \<Rightarrow> decimal" where
  "day_close running es =
    (let running' = running + sum_list (map (fst \<circ> snd) es);
         caps = List.map_filter (snd \<circ> snd) es
     in if caps = [] then running' else min running' (Min (set caps)))"

function sick_loop :: "decimal \<Rightarrow> decimal \<Rightarrow> entry list \<Rightarrow> decimal \<times> decimal" where
  "sick_loop running lowest [] = (running, lowest)"
| "sick_loop running lowest (e # es) =
    (let today = e # takeWhile (\<lambda>x. fst x = fst e) es;
         running' = day_close running today
     in sick_loop running' (min lowest running') (dropWhile (\<lambda>x. fst x = fst e) es))"
  by pat_completeness auto
termination
  by (relation "measure (\<lambda>(r, l, es). length es)") (auto intro: le_less_trans [OF length_dropWhile_le])

definition sick_fold :: "entry list \<Rightarrow> decimal \<times> decimal" where
  "sick_fold entries = sick_loop 0 0 (sort_key fst entries)"

definition entry_of :: "SickLeaveLedger \<Rightarrow> entry" where
  "entry_of e = (sl_effective_on e, sl_hours e, sl_cap_hours e)"

definition balance_on :: "db \<Rightarrow> int \<Rightarrow> date \<Rightarrow> decimal res" where
  "balance_on s employee_id on =
     quantize (fst (sick_fold (map entry_of
       (filter (\<lambda>e. sl_employee_id e = employee_id \<and> sl_effective_on e \<le> on) (sick_ledger s))))) HOURS ROUND_HALF_UP"

definition would_overdraw :: "db \<Rightarrow> int \<Rightarrow> decimal \<Rightarrow> date \<Rightarrow> bool" where
  "would_overdraw s employee_id hours on =
    (let entries = map entry_of (filter (\<lambda>e. sl_employee_id e = employee_id) (sick_ledger s)) @ [(on, - hours, None)]
     in snd (sick_fold entries) < 0)"

section \<open>Days taken\<close>

record SickDayTaken =
  sd_employee_id :: int
  sd_day :: date
  sd_hours :: decimal
  sd_assignment_id :: "int option"
  sd_property_id :: "string option"
  sd_department_id :: "int option"
  sd_rate :: "decimal option"

definition net_usage_by_day :: "SickLeaveLedger list \<Rightarrow> (int \<times> date, decimal) dict" where
  "net_usage_by_day entries = fold (\<lambda>e d. dict_add (sl_employee_id e, sl_effective_on e) (sl_hours e) d) entries []"

definition sick_day :: "db \<Rightarrow> (int \<times> date) \<times> decimal \<Rightarrow> SickDayTaken list res" where
  "sick_day s = (\<lambda>((employee_id, d), signed).
    let taken = - signed in
    if taken \<le> 0 then Inr []
    else
      bindE (case primary_assignment_on s employee_id d of
               Inl AmbiguousAssignmentError \<Rightarrow> Inr None | r \<Rightarrow> r) (\<lambda>primary.
        case primary of
          None \<Rightarrow> Inr [\<lparr>sd_employee_id = employee_id, sd_day = d, sd_hours = taken, sd_assignment_id = None,
                        sd_property_id = None, sd_department_id = None, sd_rate = None\<rparr>]
        | Some a \<Rightarrow>
            bindE (case rate_on s (ea_assignment_id a) ''regular'' d of
                     Inl e \<Rightarrow> if is_RateError e then Inr None else Inl e
                   | Inr r \<Rightarrow> Inr r) (\<lambda>rate.
              Inr [\<lparr>sd_employee_id = employee_id, sd_day = d, sd_hours = taken,
                    sd_assignment_id = Some (ea_assignment_id a), sd_property_id = Some (ea_property_id a),
                    sd_department_id = ea_department_id a, sd_rate = rate\<rparr>])))"

definition sick_days_taken :: "db \<Rightarrow> date \<Rightarrow> date \<Rightarrow> SickDayTaken list res" where
  "sick_days_taken s start end =
    (let entries = filter (\<lambda>e. sl_entry_type e \<in> {''usage'', ''usage_void''}
                             \<and> sl_effective_on e \<ge> start \<and> sl_effective_on e \<le> end) (sick_ledger s);
         net = net_usage_by_day entries
     in bindE (mapE (sick_day s) (sort_key id net)) (\<lambda>days. Inr (concat days)))"

section \<open>The handlers\<close>

record SickLeaveStatus =
  ss_employee_id :: int
  ss_balance_hours :: decimal
  ss_usage_cap_hours :: "decimal option"
  ss_accrual_cap_hours :: "decimal option"
  ss_usage_cap_window :: "string option"
  ss_used_this_year_hours :: decimal

definition rules_for_employee :: "db \<Rightarrow> int \<Rightarrow> date \<Rightarrow> SickLeaveRules option res" where
  "rules_for_employee s employee_id on =
     bindE (primary_assignment_on s employee_id on) (\<lambda>primary.
       case primary of
         None \<Rightarrow> Inr None
       | Some a \<Rightarrow>
           (case get_property s (ea_property_id a) of
              None \<Rightarrow> Inr None
            | Some p \<Rightarrow> (case pr_wage_jurisdiction p of None \<Rightarrow> Inr None | Some j \<Rightarrow> sick_leave_rules_for j)))"

definition used_in_year :: "db \<Rightarrow> int \<Rightarrow> int \<Rightarrow> decimal" where
  "used_in_year s employee_id year =
     - sum_list (map sl_hours (filter (\<lambda>e. sl_employee_id e = employee_id \<and> sl_entry_type e \<in> {''usage'', ''usage_void''}
          \<and> sl_effective_on e \<ge> ymd2ord year 1 1 \<and> sl_effective_on e \<le> ymd2ord year 12 31) (sick_ledger s)))"

definition status_of :: "db \<Rightarrow> int \<Rightarrow> date \<Rightarrow> SickLeaveStatus res" where
  "status_of s employee_id on =
     bindE (rules_for_employee s employee_id on) (\<lambda>rules.
     bindE (day_length s employee_id on) (\<lambda>dl.
       let d = (case dl of None \<Rightarrow> 8 | Some x \<Rightarrow> x) in
       bindE (balance_on s employee_id on) (\<lambda>balance.
       bindE (case rules of None \<Rightarrow> Inr None
              | Some r \<Rightarrow> bindE (quantize (usage_cap_hours r d) HOURS ROUND_HALF_EVEN) (\<lambda>c. Inr (Some c))) (\<lambda>ucap.
       bindE (case rules of None \<Rightarrow> Inr None
              | Some r \<Rightarrow> bindE (quantize (accrual_cap_hours r d) HOURS ROUND_HALF_EVEN) (\<lambda>c. Inr (Some c))) (\<lambda>acap.
       bindE (quantize (used_in_year s employee_id (year_of on)) HOURS ROUND_HALF_EVEN) (\<lambda>used.
         Inr \<lparr>ss_employee_id = employee_id, ss_balance_hours = balance, ss_usage_cap_hours = ucap,
              ss_accrual_cap_hours = acap, ss_usage_cap_window = map_option slr_usage_cap_window rules,
              ss_used_this_year_hours = used\<rparr>))))))"

definition lock_employee :: "db \<Rightarrow> int \<Rightarrow> Employee res" where
  "lock_employee s employee_id =
     bindE (scalar_one_or_none (filter (\<lambda>e. em_employee_id e = employee_id) (employees s))) (\<lambda>r.
       case r of None \<Rightarrow> Inl (HTTPException 404) | Some e \<Rightarrow> Inr e)"

definition audit :: "string \<Rightarrow> string \<Rightarrow> int \<Rightarrow> db \<Rightarrow> db" where
  "audit subject action employee_id s = s\<lparr>audit_events := audit_events s @
     [\<lparr>au_actor_subject = subject, au_action = action, au_resource_type = ''employee'',
       au_resource_id = str_int employee_id\<rparr>]\<rparr>"

text \<open>The constraints of the ledger table, checked when the session flushes.\<close>

definition sick_row_ok :: "SickLeaveLedger \<Rightarrow> bool" where
  "sick_row_ok e \<longleftrightarrow>
     (sl_entry_type e = ''accrual'' \<and> sl_hours e > 0) \<or> (sl_entry_type e = ''usage'' \<and> sl_hours e < 0)
   \<or> (sl_entry_type e = ''usage_void'' \<and> sl_hours e > 0) \<or> (sl_entry_type e = ''adjustment'' \<and> sl_hours e \<noteq> 0)"

definition dedup_clash :: "SickLeaveLedger list \<Rightarrow> SickLeaveLedger \<Rightarrow> bool" where
  "dedup_clash rows e \<longleftrightarrow> sl_entry_type e = ''usage'' \<and>
     (\<exists>r \<in> set rows. sl_entry_type r = ''usage'' \<and> sl_employee_id r = sl_employee_id e
        \<and> sl_effective_on r = sl_effective_on e \<and> sl_hours r = sl_hours e)"

definition insert_sick :: "SickLeaveLedger \<Rightarrow> db \<Rightarrow> db res" where
  "insert_sick e s =
     (if sick_row_ok e \<and> \<not> dedup_clash (sick_ledger s) e then Inr (s\<lparr>sick_ledger := sick_ledger s @ [e]\<rparr>)
      else Inl IntegrityError)"

definition get_sick_leave :: "db \<Rightarrow> string \<Rightarrow> int \<Rightarrow> date \<Rightarrow> (db \<times> SickLeaveStatus) res" where
  "get_sick_leave s subject employee_id today =
     (case get_employee s employee_id of
        None \<Rightarrow> Inl (HTTPException 404)
      | Some _ \<Rightarrow> bindE (status_of s employee_id today) (\<lambda>st.
          Inr (audit subject ''read_sick_leave_balance'' employee_id s, st)))"

definition usage_row :: "int \<Rightarrow> decimal \<Rightarrow> date \<Rightarrow> SickLeaveLedger" where
  "usage_row employee_id hours on = \<lparr>sl_employee_id = employee_id, sl_entry_type = ''usage'', sl_hours = - hours,
     sl_cap_hours = None, sl_effective_on = on, sl_timecard_id = None\<rparr>"

definition record_usage :: "db \<Rightarrow> string \<Rightarrow> int \<Rightarrow> decimal \<Rightarrow> date \<Rightarrow> (db \<times> SickLeaveStatus) res" where
  "record_usage s subject employee_id body_hours on =
    (if body_hours \<le> 0 then Inl (HTTPException 422)
     else
      bindE (quantize body_hours HOURS ROUND_HALF_EVEN) (\<lambda>hours.
      bindE (lock_employee s employee_id) (\<lambda>_.
      bindE (primary_assignment_on s employee_id on) (\<lambda>primary.
      if primary = None then Inl (HTTPException 422)
      else if would_overdraw s employee_id hours on then Inl (HTTPException 422)
      else
      bindE (rules_for_employee s employee_id on) (\<lambda>rules.
      bindE (case rules of
               None \<Rightarrow> Inr ()
             | Some r \<Rightarrow> bindE (day_length s employee_id on) (\<lambda>d.
                 case d of
                   None \<Rightarrow> Inr ()
                 | Some dl \<Rightarrow>
                     if used_in_year s employee_id (year_of on) + hours > usage_cap_hours r dl
                     then Inl (HTTPException 422) else Inr ())) (\<lambda>_.
      case insert_sick (usage_row employee_id hours on) s of
        Inl _ \<Rightarrow> Inl (HTTPException 409)
      | Inr s1 \<Rightarrow>
          let s2 = audit subject ''record_sick_leave_usage'' employee_id s1 in
          bindE (status_of s2 employee_id on) (\<lambda>st. Inr (s2, st))))))))"

definition void_usage :: "db \<Rightarrow> string \<Rightarrow> int \<Rightarrow> decimal \<Rightarrow> date \<Rightarrow> (db \<times> SickLeaveStatus) res" where
  "void_usage s subject employee_id body_hours on =
    (if body_hours \<le> 0 then Inl (HTTPException 422)
     else
      bindE (quantize body_hours HOURS ROUND_HALF_EVEN) (\<lambda>hours.
      bindE (lock_employee s employee_id) (\<lambda>_.
      if hours > used_in_year s employee_id (year_of on) then Inl (HTTPException 422)
      else
      bindE (insert_sick \<lparr>sl_employee_id = employee_id, sl_entry_type = ''usage_void'', sl_hours = hours,
               sl_cap_hours = None, sl_effective_on = on, sl_timecard_id = None\<rparr> s) (\<lambda>s1.
        let s2 = audit subject ''void_sick_leave_usage'' employee_id s1 in
        bindE (status_of s2 employee_id on) (\<lambda>st. Inr (s2, st))))))"

definition record_adjustment :: "db \<Rightarrow> string \<Rightarrow> int \<Rightarrow> decimal \<Rightarrow> date \<Rightarrow> (db \<times> SickLeaveStatus) res" where
  "record_adjustment s subject employee_id body_hours on =
    (if body_hours = 0 then Inl (HTTPException 422)
     else
      bindE (lock_employee s employee_id) (\<lambda>_.
      bindE (quantize body_hours HOURS ROUND_HALF_EVEN) (\<lambda>hours.
      bindE (if hours > 0 then cap_hours_on s employee_id on else Inr None) (\<lambda>cap.
      bindE (insert_sick \<lparr>sl_employee_id = employee_id, sl_entry_type = ''adjustment'', sl_hours = hours,
               sl_cap_hours = cap, sl_effective_on = on, sl_timecard_id = None\<rparr> s) (\<lambda>s1.
        let s2 = audit subject ''record_sick_leave_adjustment'' employee_id s1 in
        bindE (status_of s2 employee_id on) (\<lambda>st. Inr (s2, st)))))))"

section \<open>The fold, day by day\<close>

definition day_step_of :: "entry list \<Rightarrow> date \<Rightarrow> decimal \<times> decimal \<Rightarrow> decimal \<times> decimal" where
  "day_step_of es d = (\<lambda>(running, lowest).
     let running' = day_close running (filter (\<lambda>x. fst x = d) es) in (running', min lowest running'))"

lemma sorted_takeWhile_eq:
  assumes "sorted (map fst (e # es))"
  shows "takeWhile (\<lambda>x. fst x = fst e) es = filter (\<lambda>x. fst x = fst e) es"
    and "dropWhile (\<lambda>x. fst x = fst e) es = filter (\<lambda>x. fst x \<noteq> fst e) es"
  using assms
proof (induction es)
  case (Cons x xs)
  { case 1
    have "filter (\<lambda>x. fst x = fst e) xs = []" if "fst x \<noteq> fst e"
      using 1 that by (fastforce simp: filter_empty_conv)
    with 1 Cons show ?case by auto }
  { case 2
    have "filter (\<lambda>x. fst x \<noteq> fst e) xs = xs" if "fst x \<noteq> fst e"
      using 2 that by (fastforce simp: filter_id_conv)
    with 2 Cons show ?case by auto }
qed simp_all

lemma sorted_list_of_set_dates:
  assumes "sorted (map fst (e # es))"
  shows "sorted_list_of_set (fst ` set (e # es)) = fst e # sorted_list_of_set (fst ` set (filter (\<lambda>x. fst x \<noteq> fst e) es))"
proof -
  let ?D = "fst ` set (filter (\<lambda>x. fst x \<noteq> fst e) es)"
  have "fst ` set (e # es) = insert (fst e) ?D" by auto
  moreover have "fst e \<notin> ?D" by auto
  moreover have "insort (fst e) (sorted_list_of_set ?D) = fst e # sorted_list_of_set ?D"
    by (rule insort_is_Cons) (use assms in auto)
  ultimately show ?thesis by (simp add: sorted_list_of_set_insert)
qed

lemma sick_loop_sorted:
  "sorted (map fst es) \<Longrightarrow> sick_loop r l es = fold (day_step_of es) (sorted_list_of_set (fst ` set es)) (r, l)"
proof (induction r l es rule: sick_loop.induct)
  case (1 r l)
  then show ?case by simp
next
  case (2 r l e es)
  let ?rest = "filter (\<lambda>x. fst x \<noteq> fst e) es" and ?today = "filter (\<lambda>x. fst x = fst e) (e # es)"
  let ?r = "day_close r ?today"
  note tw = sorted_takeWhile_eq [OF "2.prems"]
  have "sorted (map fst ?rest)" using "2.prems" by (simp add: sorted_filter)
  then have ih: "sick_loop ?r (min l ?r) ?rest = fold (day_step_of ?rest) (sorted_list_of_set (fst ` set ?rest)) (?r, min l ?r)"
    using "2.IH" [OF refl refl] by (simp add: tw)
  have "day_step_of (e # es) d = day_step_of ?rest d" if "d \<in> set (sorted_list_of_set (fst ` set ?rest))" for d
  proof -
    have "d \<noteq> fst e" using that by auto
    then have "filter (\<lambda>x. fst x = d) (e # es) = filter (\<lambda>x. fst x = d) ?rest" by (auto intro: filter_cong)
    then show ?thesis by (simp only: day_step_of_def)
  qed
  then have "fold (day_step_of ?rest) (sorted_list_of_set (fst ` set ?rest)) (?r, min l ?r)
      = fold (day_step_of (e # es)) (sorted_list_of_set (fst ` set ?rest)) (?r, min l ?r)"
    by (intro fold_cong) auto
  moreover have "sick_loop r l (e # es) = sick_loop ?r (min l ?r) ?rest"
    by (simp add: tw Let_def)
  moreover have "day_step_of (e # es) (fst e) (r, l) = (?r, min l ?r)"
    by (simp only: day_step_of_def prod.case Let_def)
  ultimately show ?case
    unfolding sorted_list_of_set_dates [OF "2.prems"] ih by simp
qed

lemma day_close_perm: "mset es = mset es' \<Longrightarrow> day_close r es = day_close r es'"
proof -
  assume m: "mset es = mset es'"
  then have "mset (List.map_filter (snd \<circ> snd) es) = mset (List.map_filter (snd \<circ> snd) es')"
    by (simp add: List.map_filter_def)
  then have "set (List.map_filter (snd \<circ> snd) es) = set (List.map_filter (snd \<circ> snd) es')"
    and "(List.map_filter (snd \<circ> snd) es = []) = (List.map_filter (snd \<circ> snd) es' = [])"
    by (metis set_mset_mset, metis mset_zero_iff)
  then show ?thesis
    using sum_list_map_perm [OF m, of "fst \<circ> snd"] by (simp add: day_close_def Let_def)
qed

lemma day_step_of_perm: "mset es = mset es' \<Longrightarrow> day_step_of es d = day_step_of es' d"
  unfolding day_step_of_def using day_close_perm [of "filter (\<lambda>x. fst x = d) es" "filter (\<lambda>x. fst x = d) es'"]
  by (simp add: mset_filter)

lemma sick_fold_days: "sick_fold es = fold (day_step_of es) (sorted_list_of_set (fst ` set es)) (0, 0)"
proof -
  have "sick_fold es = fold (day_step_of (sort_key fst es)) (sorted_list_of_set (fst ` set es)) (0, 0)"
    unfolding sick_fold_def by (subst sick_loop_sorted) simp_all
  moreover have "day_step_of (sort_key fst es) = day_step_of es"
    using day_step_of_perm [of "sort_key fst es" es] by (simp add: fun_eq_iff)
  ultimately show ?thesis by simp
qed

lemma sick_fold_perm: "mset es = mset es' \<Longrightarrow> sick_fold es = sick_fold es'"
proof -
  assume m: "mset es = mset es'"
  then have "set es = set es'" by (metis set_mset_mset)
  moreover have "day_step_of es = day_step_of es'" using day_step_of_perm [OF m] by (simp add: fun_eq_iff)
  ultimately show ?thesis by (simp add: sick_fold_days)
qed

lemma day_step_of_fst: "fst (day_step_of es d x) = day_close (fst x) (filter (\<lambda>y. fst y = d) es)"
  by (cases x) (simp add: day_step_of_def Let_def)

lemma day_step_of_low:
  "snd (day_step_of es d x) \<le> snd x" "snd (day_step_of es d x) \<le> fst (day_step_of es d x)"
  by (cases x; simp add: day_step_of_def Let_def)+

lemma fold_lowest:
  "snd (fold (day_step_of es) ds x) \<le> snd x"
  "ds \<noteq> [] \<Longrightarrow> snd (fold (day_step_of es) ds x) \<le> fst (fold (day_step_of es) ds x)"
proof -
  show "snd (fold (day_step_of es) ds x) \<le> snd x"
  proof (induction ds arbitrary: x)
    case (Cons d ds)
    from Cons.IH [of "day_step_of es d x"] day_step_of_low(1) [of es d x] show ?case by simp
  qed simp
  show "snd (fold (day_step_of es) ds x) \<le> fst (fold (day_step_of es) ds x)" if "ds \<noteq> []"
    using that day_step_of_low(2) by (cases ds rule: rev_cases) simp_all
qed

lemma sorted_list_of_set_split:
  fixes D :: "date set"
  assumes "finite D"
  shows "sorted_list_of_set D = sorted_list_of_set {x \<in> D. x \<le> d} @ sorted_list_of_set {x \<in> D. d < x}"
proof (rule sorted_distinct_set_unique)
  show "sorted (sorted_list_of_set {x \<in> D. x \<le> d} @ sorted_list_of_set {x \<in> D. d < x})"
    using assms by (auto simp: sorted_append)
  show "distinct (sorted_list_of_set {x \<in> D. x \<le> d} @ sorted_list_of_set {x \<in> D. d < x})"
    using assms by (auto simp: distinct_append)
qed (use assms in auto)

text \<open>The balance of any date is one of the end-of-day balances the lowest ranges over.\<close>

lemma lowest_bounds_prefix:
  "snd (sick_fold es) \<le> fst (sick_fold (filter (\<lambda>x. fst x \<le> d) es))"
proof -
  let ?D = "fst ` set es" and ?es = "filter (\<lambda>x. fst x \<le> d) es"
  have D: "fst ` set ?es = {x \<in> ?D. x \<le> d}" by auto
  have eq: "day_step_of es x = day_step_of ?es x" if "x \<le> d" for x
  proof -
    have "filter (\<lambda>y. fst y = x) es = filter (\<lambda>y. fst y = x) ?es" using that by (auto intro: filter_cong)
    then show ?thesis by (simp only: day_step_of_def)
  qed
  have pre: "fold (day_step_of es) (sorted_list_of_set {x \<in> ?D. x \<le> d}) (0, 0) = sick_fold ?es"
    unfolding sick_fold_days D by (rule fold_cong) (auto simp: eq)
  obtain r l where rl: "sick_fold ?es = (r, l)" by (metis prod.exhaust)
  have "sick_fold es = fold (day_step_of es) (sorted_list_of_set {x \<in> ?D. d < x}) (r, l)"
    unfolding sick_fold_days [of es] by (subst sorted_list_of_set_split [of _ d]) (simp_all add: pre rl)
  then have "snd (sick_fold es) \<le> l" using fold_lowest(1) [of es _ "(r, l)"] by simp
  also have "l \<le> r"
  proof (cases "?es = []")
    case True
    then show ?thesis using rl by (simp add: sick_fold_def)
  next
    case False
    then have "sorted_list_of_set (fst ` set ?es) \<noteq> []"
      by (metis List.finite_set finite_imageI image_is_empty set_empty sorted_list_of_set_eq_Nil_iff)
    from fold_lowest(2) [OF this, of ?es "(0, 0)"] show ?thesis using rl by (simp add: sick_fold_days)
  qed
  finally show ?thesis using rl by simp
qed

text \<open>The unrounded balance of an employee on a date.\<close>

definition ledger_balance :: "db \<Rightarrow> int \<Rightarrow> date \<Rightarrow> decimal" where
  "ledger_balance s e d = fst (sick_fold (map entry_of
     (filter (\<lambda>x. sl_employee_id x = e \<and> sl_effective_on x \<le> d) (sick_ledger s))))"

definition ledger_lowest :: "db \<Rightarrow> int \<Rightarrow> decimal" where
  "ledger_lowest s e = snd (sick_fold (map entry_of (filter (\<lambda>x. sl_employee_id x = e) (sick_ledger s))))"

lemma ledger_lowest_le: "ledger_lowest s e \<le> ledger_balance s e d"
proof -
  have "filter (\<lambda>x. fst x \<le> d) (map entry_of (filter (\<lambda>x. sl_employee_id x = e) xs))
      = map entry_of (filter (\<lambda>x. sl_employee_id x = e \<and> sl_effective_on x \<le> d) xs)" for xs
    by (induction xs) (auto simp: entry_of_def)
  then show ?thesis
    using lowest_bounds_prefix [of "map entry_of (filter (\<lambda>x. sl_employee_id x = e) (sick_ledger s))" d]
    by (simp add: ledger_lowest_def ledger_balance_def)
qed

lemma balance_on_nonneg:
  assumes "0 \<le> ledger_balance s e d" "balance_on s e d = Inr b"
  shows "0 \<le> b"
proof -
  have "b = quantized (ledger_balance s e d) HOURS ROUND_HALF_UP"
    using assms(2) by (auto simp: balance_on_def ledger_balance_def quantize_def quantized_def Let_def split: if_splits)
  then show ?thesis using assms(1) by (simp add: quantized_nonneg)
qed

text \<open>A day's close never exceeds a cap recorded that day.\<close>

lemma day_close_cap:
  assumes "(d, h, Some c) \<in> set es"
  shows "day_close r es \<le> c"
proof -
  have "c \<in> set (List.map_filter (snd \<circ> snd) es)"
    using assms by (force simp: List.map_filter_def)
  then show ?thesis by (auto simp: day_close_def Let_def min.coboundedI2)
qed

lemma sorted_list_of_set_last:
  fixes D :: "date set"
  assumes "finite D" "d \<in> D" "\<forall>y \<in> D. y \<le> d"
  shows "sorted_list_of_set D = sorted_list_of_set {y \<in> D. y < d} @ [d]"
proof (rule sorted_distinct_set_unique)
  have "D = insert d {y \<in> D. y < d}" using assms by (auto simp: order_less_le)
  then show "set (sorted_list_of_set D) = set (sorted_list_of_set {y \<in> D. y < d} @ [d])"
    using assms(1) by simp
qed (use assms(1) in \<open>auto simp: sorted_append\<close>)

lemma balance_cap:
  assumes "x \<in> set (sick_ledger s)" "sl_employee_id x = e" "sl_effective_on x = d" "sl_cap_hours x = Some c"
  shows "ledger_balance s e d \<le> c"
proof -
  let ?es = "map entry_of (filter (\<lambda>x. sl_employee_id x = e \<and> sl_effective_on x \<le> d) (sick_ledger s))"
  let ?D = "fst ` set ?es"
  have mem: "(d, sl_hours x, Some c) \<in> set ?es" using assms by (force simp: entry_of_def)
  have le: "\<forall>y \<in> ?D. y \<le> d" by (auto simp: entry_of_def)
  have "d \<in> ?D" by (rule image_eqI [OF _ mem]) simp
  have "sorted_list_of_set ?D = sorted_list_of_set {y \<in> ?D. y < d} @ [d]"
    by (rule sorted_list_of_set_last [OF _ \<open>d \<in> ?D\<close> le]) simp
  then have "sick_fold ?es = day_step_of ?es d (fold (day_step_of ?es) (sorted_list_of_set {y \<in> ?D. y < d}) (0, 0))"
    by (simp only: sick_fold_days fold_append comp_def fold_simps)
  then have "ledger_balance s e d = day_close (fst (fold (day_step_of ?es) (sorted_list_of_set {y \<in> ?D. y < d}) (0, 0)))
      (filter (\<lambda>y. fst y = d) ?es)"
    by (simp only: ledger_balance_def day_step_of_fst)
  moreover have "(d, sl_hours x, Some c) \<in> set (filter (\<lambda>y. fst y = d) ?es)"
    using mem unfolding set_filter by simp
  ultimately show ?thesis by (simp only: day_close_cap)
qed

section \<open>The writers\<close>

text \<open>What an accepted usage went through.\<close>

lemma record_usage_accepted:
  assumes "record_usage s subject e h on = Inr (s', st)"
  obtains hours where "quantize h HOURS ROUND_HALF_EVEN = Inr hours" "\<not> would_overdraw s e hours on"
    "sick_row_ok (usage_row e hours on)" "\<not> dedup_clash (sick_ledger s) (usage_row e hours on)"
    "sick_ledger s' = sick_ledger s @ [usage_row e hours on]"
proof -
  obtain hours where q: "quantize h HOURS ROUND_HALF_EVEN = Inr hours"
    using assms by (cases "quantize h HOURS ROUND_HALF_EVEN") (auto simp: record_usage_def split: if_splits)
  from assms q have "\<not> would_overdraw s e hours on"
    "\<exists>s1. insert_sick (usage_row e hours on) s = Inr s1 \<and> s' = audit subject ''record_sick_leave_usage'' e s1"
    by (auto simp: record_usage_def bindE_eq_Inr_iff Let_def split: if_splits sum.splits)
  then show thesis using that [OF q]
    by (auto simp: insert_sick_def audit_def split: if_splits)
qed

lemma would_overdraw_lowest:
  assumes "sick_ledger s' = sick_ledger s @ [usage_row e hours on]"
  shows "ledger_lowest s' e < 0 \<longleftrightarrow> would_overdraw s e hours on"
  by (simp add: assms ledger_lowest_def would_overdraw_def usage_row_def entry_of_def)

lemma usage_keeps_nonneg:
  assumes "record_usage s subject e h on = Inr (s', st)"
  shows "0 \<le> ledger_balance s' e d"
proof -
  from assms obtain hours where "\<not> would_overdraw s e hours on" "sick_ledger s' = sick_ledger s @ [usage_row e hours on]"
    by (rule record_usage_accepted)
  then have "0 \<le> ledger_lowest s' e" using would_overdraw_lowest by (metis not_less)
  then show ?thesis using ledger_lowest_le order_trans by blast
qed

lemma ceil_ctx_quotient:
  assumes "0 \<le> a" "0 < b" "a < (10 :: int) ^ 27"
  shows "\<lceil>ctx (of_int a / of_int b * (10 powi p)) / (10 powi p :: rat)\<rceil> = (if a mod b = 0 then a div b else a div b + 1)"
proof -
  let ?q = "10 powi p :: rat" and ?t = "ctx (of_int a / of_int b * (10 powi p))"
  have q: "0 < ?q" by simp
  note f = floor_ctx_quotient [OF assms, of p]
  show ?thesis
  proof (cases "a mod b = 0")
    case True
    then have "?t / ?q = of_int (a div b)" using f(2) q by simp
    then show ?thesis using True by simp
  next
    case False
    then have "?t \<noteq> of_int (a div b) * ?q" using f(2) by blast
    then have "?t / ?q \<noteq> of_int (a div b)" using q by (metis less_irrefl nonzero_eq_divide_eq)
    then show ?thesis using f(1) False by (simp add: ceiling_altdef)
  qed
qed

text \<open>One hour per thirty, never less: the ceiling survives the 28-digit quotient.\<close>

lemma accrual_at_least:
  assumes "0 \<le> n" "n < 10 ^ 27"
  shows "of_int n / 100 \<le> 30 * quantized (ddiv (of_int n / 100) 30) HOURS ROUND_UP"
    and "30 * quantized (ddiv (of_int n / 100) 30) HOURS ROUND_UP < of_int n / 100 + 30 / 100"
    and "quantize (ddiv (of_int n / 100) 30) HOURS ROUND_UP = Inr (quantized (ddiv (of_int n / 100) 30) HOURS ROUND_UP)"
proof -
  have dd: "ddiv (of_int n / 100) 30 = ctx (of_int n / of_int 30 * (10 powi (- 2)))"
    by (simp add: ddiv_def power_int_minus)
  define k where "k = (if n mod 30 = 0 then n div 30 else n div 30 + 1)"
  have "\<lceil>ddiv (of_int n / 100) 30 / HOURS\<rceil> = k"
    using ceil_ctx_quotient [OF assms(1) _ assms(2), of 30 "- 2"] by (simp add: dd k_def power_int_minus)
  moreover have "0 \<le> ddiv (of_int n / 100) 30"
    using assms(1) by (simp add: ddiv_nonneg)
  ultimately have r: "round_int ROUND_UP (ddiv (of_int n / 100) 30 / HOURS) = k" by (simp add: round_int_def)
  then have eq: "quantized (ddiv (of_int n / 100) 30) HOURS ROUND_UP = of_int k / 100" by (simp add: quantized_def)
  define a b where "a = n div 30" and "b = n mod 30"
  have "n = 30 * a + b" "0 \<le> b" "b < 30" by (simp_all add: a_def b_def)
  then have k: "n \<le> 30 * k" "30 * k < n + 30"
    unfolding k_def a_def [symmetric] b_def [symmetric] by auto
  have "(of_int n :: rat) \<le> of_int (30 * k)" using k(1) by (simp only: of_int_le_iff)
  then show "of_int n / 100 \<le> 30 * quantized (ddiv (of_int n / 100) 30) HOURS ROUND_UP" unfolding eq by simp
  have "(of_int (30 * k) :: rat) < of_int (n + 30)" using k(2) by (simp only: of_int_less_iff)
  then show "30 * quantized (ddiv (of_int n / 100) 30) HOURS ROUND_UP < of_int n / 100 + 30 / 100" unfolding eq by simp
  have "\<bar>k\<bar> < 10 ^ prec" using k assms by (simp add: prec_def)
  then show "quantize (ddiv (of_int n / 100) 30) HOURS ROUND_UP = Inr (quantized (ddiv (of_int n / 100) 30) HOURS ROUND_UP)"
    by (intro quantize_quantized) (simp only: r)
qed

section \<open>Properties\<close>

text \<open>
  The balance is a function of the facts alone: reordering the ledger in any way (a
  re-promote moves the accrual row behind every other entry) changes neither the balance
  nor the lowest end-of-day balance.
\<close>

theorem sick_fold_order_free:
  assumes "mset es = mset es'"
  shows "sick_fold es = sick_fold es'"
  using assms by (rule sick_fold_perm)

theorem sick_fold_order_free_witness:
  "sick_fold [(3, 10, Some 8), (3, - 2, None), (1, 5, None)] = sick_fold [(1, 5, None), (3, - 2, None), (3, 10, Some 8)]"
  by (rule sick_fold_order_free) simp

text \<open>
  C30.  Sick leave cannot be overdrawn: after an accepted usage the employee's balance is
  non-negative on every date, past, present and future, whatever the date the usage was
  recorded for.
\<close>

theorem usage_never_overdraws:
  assumes "record_usage s subject e h on = Inr (s', st)"
  shows "0 \<le> ledger_balance s' e d \<and> (\<forall>b. balance_on s' e d = Inr b \<longrightarrow> 0 \<le> b)"
  using usage_keeps_nonneg [OF assms] balance_on_nonneg by blast

definition example_sick :: db where
  "example_sick = empty_db\<lparr>
     properties := [\<lparr>pr_property_id = ''SJCES'', pr_timezone = ''UTC'', pr_wage_jurisdiction = Some ''US''\<rparr>],
     employees := [\<lparr>em_employee_id = 7, em_keycloak_subject = None, em_full_name = ''Ana Ruiz'', em_pay_type = ''hourly'',
       em_full_part_time = None, em_i9_submitted_on = None, em_w4_submitted_on = None, em_employment_status = ''active'',
       em_payroll_data_complete = True, em_hire_date = None, em_termination_date = None,
       em_compensation_note = None\<rparr>],
     assignments := [\<lparr>ea_assignment_id = 1, ea_employee_id = 7, ea_property_id = ''SJCES'', ea_department_id = Some 3,
       ea_position_id = None, ea_is_primary = True, ea_status = ''active'', ea_effective_from = 90, ea_effective_to = None\<rparr>],
     sick_ledger := [\<lparr>sl_employee_id = 7, sl_entry_type = ''accrual'', sl_hours = 8, sl_cap_hours = None,
       sl_effective_on = 100, sl_timecard_id = Some 4\<rparr>]\<rparr>"

lemmas sick_eval = example_sick_def empty_db_def record_usage_def lock_employee_def scalar_one_or_none_def
  primary_assignment_on_def assignments_on_def in_effect_on_def covers_def would_overdraw_def sick_fold_def
  entry_of_def day_close_def List.map_filter_simps rules_for_employee_def get_property_def sick_leave_rules_for_def
  insert_sick_def sick_row_ok_def dedup_clash_def usage_row_def status_of_def day_length_def group_by_def
  balance_on_def used_in_year_def year_of_def ymd2ord_def days_before_year_def days_before_month_def
  is_leap_def quantize_def round_int_def half_even_def prec_def audit_def

theorem usage_never_overdraws_witness:
  "\<exists>s' st. record_usage example_sick ''adm'' 7 4 105 = Inr (s', st) \<and> 0 \<le> ledger_balance s' 7 110"
proof -
  obtain s' st where r: "record_usage example_sick ''adm'' 7 4 105 = Inr (s', st)"
    by (simp add: sick_eval Let_def)
  with usage_never_overdraws [OF r] show ?thesis by blast
qed

text \<open>
   A retry cannot double-book: once a usage is accepted, the identical request on the
  resulting state is never accepted again.
\<close>

theorem usage_retry_refused:
  assumes "record_usage s subject e h on = Inr (s', st)"
  shows "\<not> (\<exists>x. record_usage s' subject' e h on = Inr x)"
proof
  assume "\<exists>x. record_usage s' subject' e h on = Inr x"
  then obtain s'' st' where again: "record_usage s' subject' e h on = Inr (s'', st')" by auto
  from assms obtain hours where h: "quantize h HOURS ROUND_HALF_EVEN = Inr hours"
    "sick_ledger s' = sick_ledger s @ [usage_row e hours on]" by (rule record_usage_accepted)
  from again obtain hours' where h': "quantize h HOURS ROUND_HALF_EVEN = Inr hours'"
    "\<not> dedup_clash (sick_ledger s') (usage_row e hours' on)" by (rule record_usage_accepted)
  have "hours' = hours" using h(1) h'(1) by simp
  then show False using h(2) h'(2) by (simp add: dedup_clash_def usage_row_def)
qed

theorem usage_retry_refused_witness:
  "\<exists>s' st. record_usage example_sick ''adm'' 7 4 105 = Inr (s', st) \<and>
     \<not> (\<exists>x. record_usage s' ''adm'' 7 4 105 = Inr x)"
proof -
  obtain s' st where r: "record_usage example_sick ''adm'' 7 4 105 = Inr (s', st)"
    by (simp add: sick_eval Let_def)
  with usage_retry_refused [OF r] show ?thesis by blast
qed

text \<open>
  C31.  The accrual cap holds where it was recorded: on the date of an entry that carries a
  cap, the balance is at most that cap.
\<close>

theorem balance_within_recorded_cap:
  assumes "x \<in> set (sick_ledger s)" "sl_employee_id x = e" "sl_effective_on x = d" "sl_cap_hours x = Some c"
  shows "ledger_balance s e d \<le> c"
  using assms by (rule balance_cap)

theorem balance_within_recorded_cap_witness:
  "ledger_balance (example_sick\<lparr>sick_ledger := [\<lparr>sl_employee_id = 7, sl_entry_type = ''accrual'', sl_hours = 90,
     sl_cap_hours = Some 80, sl_effective_on = 100, sl_timecard_id = Some 4\<rparr>]\<rparr>) 7 100 \<le> 80"
  by (rule balance_within_recorded_cap [where x = "\<lparr>sl_employee_id = 7, sl_entry_type = ''accrual'', sl_hours = 90,
     sl_cap_hours = Some 80, sl_effective_on = 100, sl_timecard_id = Some 4\<rparr>"]) simp_all

text \<open>
  California accrual is at least one hour per thirty worked: for a non-exempt card whose
  hours add up to a positive number of hundredths, promotion replaces whatever the card
  had accrued by exactly one accrual row dated at the period end, of at least one
  thirtieth of the hours and less than a hundredth more, uncapped in hours and carrying
  the cap in force.
\<close>

theorem accrual_one_per_thirty:
  assumes "dict_sum day_hours = of_int n / 100" "0 < n" "n < 10 ^ 26"
    and "cap_hours_on (s\<lparr>sick_ledger := filter (\<lambda>e. sl_timecard_id e \<noteq> Some (tc_timecard_id c)) (sick_ledger s)\<rparr>)
           (tc_employee_id c) (tc_period_end c) = Inr cap"
  shows "\<exists>row. accrue_for_card s c day_hours False (Some ''US-CA'') =
      Inr (s\<lparr>sick_ledger := filter (\<lambda>e. sl_timecard_id e \<noteq> Some (tc_timecard_id c)) (sick_ledger s) @ [row]\<rparr>)
    \<and> sick_row_ok row \<and> sl_timecard_id row = Some (tc_timecard_id c) \<and> sl_effective_on row = tc_period_end c
    \<and> sl_cap_hours row = cap
    \<and> dict_sum day_hours \<le> 30 * sl_hours row \<and> 30 * sl_hours row < dict_sum day_hours + 30 / 100"
proof -
  have lim: "0 \<le> n" "n < 10 ^ 27" using assms(2,3) by simp_all
  note a = accrual_at_least [OF lim, folded assms(1)]
  let ?h = "quantized (ddiv (dict_sum day_hours) 30) HOURS ROUND_UP"
  have "0 < dict_sum day_hours" using assms(1,2) by simp
  then have "0 < ?h" using a(1) by simp
  then show ?thesis
    using a assms(4)
    by (intro exI [of _ "\<lparr>sl_employee_id = tc_employee_id c, sl_entry_type = ''accrual'', sl_hours = ?h,
        sl_cap_hours = cap, sl_effective_on = tc_period_end c, sl_timecard_id = Some (tc_timecard_id c)\<rparr>"])
      (simp add: accrue_for_card_def sick_leave_rules_for_def CALIFORNIA_def accrual_basis_def sick_row_ok_def)
qed

definition sick_card :: Timecard where
  "sick_card = \<lparr>tc_timecard_id = 4, tc_employee_id = 7, tc_period_start = 87, tc_period_end = 100,
     tc_status = ''approved'', tc_approved_by = None, tc_approved_at = None, tc_photos_purged_at = None\<rparr>"

theorem accrual_one_per_thirty_witness:
  "\<exists>s' row. accrue_for_card example_sick sick_card [(99, 8), (100, 7)] False (Some ''US-CA'') = Inr s'
     \<and> sick_ledger s' = [row] \<and> 15 \<le> 30 * sl_hours row"
proof -
  have "cap_hours_on (example_sick\<lparr>sick_ledger := filter (\<lambda>e. sl_timecard_id e \<noteq> Some (tc_timecard_id sick_card)) (sick_ledger example_sick)\<rparr>)
      (tc_employee_id sick_card) (tc_period_end sick_card) = Inr None"
    by (simp add: cap_hours_on_def sick_eval sick_card_def)
  from accrual_one_per_thirty [OF _ _ _ this, of "[(99, 8), (100, 7)]" 1500]
  show ?thesis by (auto simp: example_sick_def sick_card_def)
qed

section \<open>Two divergences\<close>

text \<open>
  \<^verbatim>\<open>sick_days_taken\<close> catches \<^verbatim>\<open>AmbiguousAssignmentError\<close>, but the lookup raises
  \<^verbatim>\<open>AmbiguousPrimaryError\<close>: an employee with two primaries in force on a sick day makes
  the whole derivation raise instead of yielding an unattributable day.
\<close>

lemma ambiguous_primary_escapes:
  "sick_days_taken (example_sick\<lparr>
     assignments := [\<lparr>ea_assignment_id = 1, ea_employee_id = 7, ea_property_id = ''SJCES'', ea_department_id = Some 3,
       ea_position_id = None, ea_is_primary = True, ea_status = ''active'', ea_effective_from = 90, ea_effective_to = None\<rparr>,
      \<lparr>ea_assignment_id = 2, ea_employee_id = 7, ea_property_id = ''58033'', ea_department_id = Some 3,
       ea_position_id = None, ea_is_primary = True, ea_status = ''active'', ea_effective_from = 90, ea_effective_to = None\<rparr>],
     sick_ledger := [usage_row 7 4 105]\<rparr>) 100 110 = Inl AmbiguousPrimaryError"
  by (simp add: sick_days_taken_def sick_day_def net_usage_by_day_def dict_add_def sick_eval Let_def)

text \<open>
  A positive request below half a hundredth passes the \<^verbatim>\<open>hours <= 0\<close> guard, quantizes to
  zero, breaks the sign constraint and is answered 409 as a duplicate although the
  employee has no usage at all.
\<close>

lemma tiny_usage_reported_as_duplicate:
  "record_usage example_sick ''adm'' 7 (4 / 1000) 105 = Inl (HTTPException 409)
   \<and> filter (\<lambda>e. sl_entry_type e = ''usage'') (sick_ledger example_sick) = []"
  by (simp add: sick_eval Let_def)

end
