(* ===== verification/Labor.thy ===== *)
theory Labor
  imports Timecards SickLeave
begin

text \<open>
  \<^verbatim>\<open>usali/labor.py\<close>: an approved timecard becomes estimated labor facts.  The facts of a
  card are computed as a list (\<open>promoted_facts\<close>) and then replace the card's previous ones;
  the source adds each row to the session as it goes and reads none of them back before
  the accrual, so the two agree.  Log lines are not modelled.
\<close>

section \<open>Pricing\<close>

abbreviation MONEY :: decimal where "MONEY \<equiv> 1 / 10000"

definition EXCLUDE_FROM_PAYROLL :: string where
  "EXCLUDE_FROM_PAYROLL = ''exclude_from_payroll''"

definition price :: "decimal \<Rightarrow> decimal \<Rightarrow> decimal \<Rightarrow> HourlyRates \<Rightarrow> decimal res" where
  "price reg ot dt rates =
     (if dt > 0 \<and> hr_dot rates = None then Inl ValueError
      else
        let dt_cost = (case hr_dot rates of None \<Rightarrow> 0 | Some r \<Rightarrow> dt * r)
        in Inr (reg * hr_regular rates + ot * hr_ot rates + dt_cost))"

definition department_at :: "db \<Rightarrow> int \<Rightarrow> string \<Rightarrow> date \<Rightarrow> int option res" where
  "department_at s employee_id property_id on =
     bindE (assignment_at s employee_id property_id on) (\<lambda>a.
       Inr (case a of Some x \<Rightarrow> ea_department_id x | None \<Rightarrow> None))"

section \<open>The jurisdiction of a card\<close>

definition jurisdiction_for_card ::
  "db \<Rightarrow> int \<Rightarrow> (date, (string, int) dict) dict \<Rightarrow> date \<Rightarrow> string option res" where
  "jurisdiction_for_card s employee_id day_split card_start =
    (let worked = remdups (concat (map (keys \<circ> snd) day_split)) in
     bindE (mapE (\<lambda>p. case get_property s p of
                         None \<Rightarrow> Inl ValueError
                       | Some prop \<Rightarrow> Inr (pr_wage_jurisdiction prop)) (sort worked)) (\<lambda>jurisdictions.
       case remdups jurisdictions of
         [] \<Rightarrow>
           bindE (primary_assignment_on s employee_id card_start) (\<lambda>primary.
             case primary of
               None \<Rightarrow> Inr (Some ''US'')
             | Some a \<Rightarrow>
                 (case get_property s (ea_property_id a) of
                    None \<Rightarrow> Inl ValueError
                  | Some prop \<Rightarrow> Inr (pr_wage_jurisdiction prop)))
       | [j] \<Rightarrow> Inr j
       | _ \<Rightarrow> Inl ValueError))"

definition rules_for_card ::
  "db \<Rightarrow> int \<Rightarrow> (date, (string, int) dict) dict \<Rightarrow> date \<Rightarrow> OvertimeRules res" where
  "rules_for_card s employee_id day_split card_start =
     bindE (jurisdiction_for_card s employee_id day_split card_start) rules_for"

section \<open>Promotion\<close>

definition card_days :: "db \<Rightarrow> Timecard \<Rightarrow> DayResult list res" where
  "card_days s tcard = bindE (compute_timecard s tcard) (\<lambda>days. Inr (filter (\<lambda>d. dr_worked_minutes d > 0) days))"

definition card_day_hours :: "DayResult list \<Rightarrow> (date, decimal) dict res" where
  "card_day_hours days =
     mapE (\<lambda>d. map_sum id (Pair (dr_business_date d))
             (quantize (ddiv (of_int (dr_worked_minutes d)) 60) HOURS ROUND_HALF_EVEN)) days"

definition card_day_split :: "db \<Rightarrow> Timecard \<Rightarrow> DayResult list \<Rightarrow> (date, (string, int) dict) dict res" where
  "card_day_split s tcard days =
     mapE (\<lambda>d. map_sum id (Pair (dr_business_date d))
             (property_minutes_for_day s (tc_employee_id tcard) (dr_business_date d) (dr_property_minutes d))) days"

text \<open>The facts of one overtime row: one per property with hours that day.\<close>

definition property_fact ::
  "db \<Rightarrow> Timecard \<Rightarrow> bool \<Rightarrow> date \<Rightarrow> string \<Rightarrow> decimal \<Rightarrow> decimal \<Rightarrow> decimal \<Rightarrow> UsaliLaborFact list res" where
  "property_fact s tcard exempt d property_id reg ot dt =
    (if reg + ot + dt \<le> 0 then Inr []
     else
      bindE (assignment_at s (tc_employee_id tcard) property_id d) (\<lambda>a.
      bindE (case a of
               None \<Rightarrow> Inr None
             | Some x \<Rightarrow> if exempt then Inr None else hourly_rates_on s (ea_assignment_id x) d) (\<lambda>rates.
      bindE (case rates of None \<Rightarrow> Inr 0 | Some r \<Rightarrow> price reg ot dt r) (\<lambda>cost.
      bindE (department_at s (tc_employee_id tcard) property_id d) (\<lambda>dept.
      bindE (quantize (reg + ot + dt) HOURS ROUND_HALF_EVEN) (\<lambda>h.
      bindE (quantize (ot + dt) HOURS ROUND_HALF_EVEN) (\<lambda>oh.
      bindE (quantize cost MONEY ROUND_HALF_UP) (\<lambda>c.
        Inr [\<lparr>lf_property_id = property_id, lf_business_date = d, lf_department_id = dept, lf_hours = h,
              lf_ot_hours = oh, lf_est_cost = c, lf_timecard_id = tc_timecard_id tcard\<rparr>]))))))))"

definition row_facts ::
  "db \<Rightarrow> Timecard \<Rightarrow> bool \<Rightarrow> (date, (string, int) dict) dict \<Rightarrow> DayOvertime \<Rightarrow> UsaliLaborFact list res" where
  "row_facts s tcard exempt day_split row =
     bindE (dict_index day_split (business_date row)) (\<lambda>split.
     bindE (apportion id (regular_hours row) (dec_weights split) HOURS) (\<lambda>regular.
     bindE (apportion id (ot_hours row) (dec_weights split) HOURS) (\<lambda>overtime_h.
     bindE (apportion id (dt_hours row) (dec_weights split) HOURS) (\<lambda>doubletime.
     bindE (mapE (\<lambda>p. property_fact s tcard exempt (business_date row) p
                        (dict_get regular p 0) (dict_get overtime_h p 0) (dict_get doubletime p 0)) (keys split))
       (\<lambda>fs. Inr (concat fs))))))"

definition promoted_facts ::
  "db \<Rightarrow> Timecard \<Rightarrow> date \<Rightarrow> (UsaliLaborFact list \<times> (date, decimal) dict \<times> bool \<times> string option) res" where
  "promoted_facts s tcard anchor =
     bindE (card_days s tcard) (\<lambda>days.
     bindE (card_day_hours days) (\<lambda>day_hours.
     bindE (card_day_split s tcard days) (\<lambda>day_split.
     bindE (resolve_exemption s (tc_employee_id tcard) (keys day_hours)) (\<lambda>exempt.
     bindE (rules_for_card s (tc_employee_id tcard) day_split (tc_period_start tcard)) (\<lambda>rules.
     bindE (mapE (row_facts s tcard exempt day_split) (compute_overtime day_hours anchor exempt rules)) (\<lambda>fs.
     bindE (jurisdiction_for_card s (tc_employee_id tcard) day_split (tc_period_start tcard)) (\<lambda>j.
       Inr (concat fs, day_hours, exempt, j))))))))"

definition promote_timecard :: "db \<Rightarrow> Timecard \<Rightarrow> date \<Rightarrow> (db \<times> (string \<times> date) set) res" where
  "promote_timecard s tcard anchor =
    (if tc_status tcard \<noteq> ''approved'' then Inl ValueError
     else
       (case get_employee s (tc_employee_id tcard) of
          None \<Rightarrow> Inl AssertionError
        | Some employee \<Rightarrow>
            if em_pay_type employee = EXCLUDE_FROM_PAYROLL then
              (if filter (\<lambda>f. lf_timecard_id f = tc_timecard_id tcard) (labor_facts s) \<noteq> [] then Inl ValueError
               else Inr (s, {}))
            else
              bindE (promoted_facts s tcard anchor) (\<lambda>(facts, day_hours, exempt, j).
                let s1 = s\<lparr>labor_facts := filter (\<lambda>f. lf_timecard_id f \<noteq> tc_timecard_id tcard) (labor_facts s) @ facts\<rparr>
                in bindE (accrue_for_card s1 tcard day_hours exempt j) (\<lambda>s2.
                     Inr (s2, set (map (\<lambda>f. (lf_property_id f, lf_business_date f)) facts))))))"

definition demote_timecard :: "db \<Rightarrow> Timecard \<Rightarrow> db \<times> (string \<times> date) set" where
  "demote_timecard s tcard =
    (let mine = filter (\<lambda>f. lf_timecard_id f = tc_timecard_id tcard) (labor_facts s);
         demoted = set (map (\<lambda>f. (lf_property_id f, lf_business_date f)) mine)
     in (s\<lparr>labor_facts := filter (\<lambda>f. lf_timecard_id f \<noteq> tc_timecard_id tcard) (labor_facts s)\<rparr>, demoted))"

section \<open>What promotion reads\<close>

text \<open>Nothing that computes the facts reads the facts or the sick-leave ledger.\<close>

lemmas full_congs = option.case_cong sum.case_cong list.case_cong if_cong

lemma reads_frame:
  fixes s F L defines "s' \<equiv> s\<lparr>labor_facts := F, sick_ledger := L\<rparr>"
  shows "compute_timecard s' c = compute_timecard s c"
    and "primary_assignment_on s' e d = primary_assignment_on s e d"
    and "assignment_at s' e p d = assignment_at s e p d"
    and "get_property s' p = get_property s p" "get_assignment s' i = get_assignment s i"
    and "get_employee s' e = get_employee s e"
    and "is_exempt_on s' e d = is_exempt_on s e d"
    and "stored_rate s' i t d = stored_rate s i t d"
proof -
  have dev: "get_device s' = get_device s" and pos: "get_position s' = get_position s"
    by (simp_all add: s'_def fun_eq_iff get_device_def get_position_def)
  have ev: "punch_event s' = punch_event s" by (simp add: fun_eq_iff punch_event_def dev)
  show "compute_timecard s' c = compute_timecard s c"
    by (simp add: compute_timecard_def timecard_events_def ev) (simp add: s'_def)
  have on: "assignments_on s' e d b = assignments_on s e d b" for e d b
    by (simp add: assignments_on_def s'_def)
  show "primary_assignment_on s' e d = primary_assignment_on s e d" "assignment_at s' e p d = assignment_at s e p d"
    "is_exempt_on s' e d = is_exempt_on s e d"
    by (simp_all add: primary_assignment_on_def assignment_at_def is_exempt_on_def on pos)
  show "get_property s' p = get_property s p" "get_assignment s' i = get_assignment s i"
    "get_employee s' e = get_employee s e"
    by (simp_all add: s'_def get_property_def get_assignment_def get_employee_def)
  show "stored_rate s' i t d = stored_rate s i t d"
    by (simp add: stored_rate_def rate_rows_def s'_def)
qed

lemma promoted_facts_frame:
  "promoted_facts (s\<lparr>labor_facts := F, sick_ledger := L\<rparr>) c anchor = promoted_facts s c anchor"
proof -
  let ?s = "s\<lparr>labor_facts := F, sick_ledger := L\<rparr>"
  note fr = reads_frame [where s = s and F = F and L = L]
  have rates: "hourly_rates_on ?s i d = hourly_rates_on s i d" for i d
    by (simp add: hourly_rates_on_def rate_on_def refuse_below_floor_def rules_for_assignment_def fr cong: full_congs)
  have fact: "property_fact ?s c = property_fact s c"
    by (simp add: fun_eq_iff property_fact_def department_at_def fr rates cong: full_congs)
  have row: "row_facts ?s c = row_facts s c"
    by (simp add: fun_eq_iff row_facts_def fact)
  have split: "card_day_split ?s c = card_day_split s c"
    by (simp add: fun_eq_iff card_day_split_def property_minutes_for_day_def fr cong: full_congs)
  have jur: "jurisdiction_for_card ?s e ds d = jurisdiction_for_card s e ds d" for e ds d
    by (simp add: jurisdiction_for_card_def fr cong: full_congs)
  have "is_exempt_on ?s = is_exempt_on s" by (intro ext fr)
  then have ex: "resolve_exemption ?s e ds = resolve_exemption s e ds" for e ds
    by (simp add: resolve_exemption_def)
  show ?thesis
    by (simp only: promoted_facts_def card_days_def rules_for_card_def fr row split jur ex)
qed

lemma property_fact_keys:
  "property_fact s c ex d p reg ot dt = Inr fs \<Longrightarrow> f \<in> set fs \<Longrightarrow>
     lf_timecard_id f = tc_timecard_id c \<and> lf_property_id f = p \<and> lf_business_date f = d"
  by (auto simp: property_fact_def bindE_eq_Inr_iff split: if_splits)

lemma promoted_facts_card:
  assumes "promoted_facts s c anchor = Inr (facts, r)" "f \<in> set facts"
  shows "lf_timecard_id f = tc_timecard_id c"
  using assms
  by (auto simp: promoted_facts_def row_facts_def inr mapE_set dest!: property_fact_keys)

section \<open>Promoting twice\<close>

lemma accrue_for_card_ledger:
  assumes "accrue_for_card s c dh ex j = Inr s'"
  shows "\<exists>L. s' = s\<lparr>sick_ledger := L\<rparr> \<and> filter (\<lambda>e. sl_timecard_id e \<noteq> Some (tc_timecard_id c)) L =
            filter (\<lambda>e. sl_timecard_id e \<noteq> Some (tc_timecard_id c)) (sick_ledger s)"
proof -
  let ?old = "filter (\<lambda>e. sl_timecard_id e \<noteq> Some (tc_timecard_id c)) (sick_ledger s)"
  have "\<exists>rows. s' = s\<lparr>sick_ledger := ?old @ rows\<rparr> \<and> (\<forall>e \<in> set rows. sl_timecard_id e = Some (tc_timecard_id c))"
  proof (cases "s' = s\<lparr>sick_ledger := ?old\<rparr>")
    case True
    then show ?thesis by (intro exI [of _ "[]"]) simp
  next
    case False
    define s1 where "s1 = s\<lparr>sick_ledger := ?old\<rparr>"
    have "\<exists>row. s' = s1\<lparr>sick_ledger := sick_ledger s1 @ [row]\<rparr> \<and> sl_timecard_id row = Some (tc_timecard_id c)"
      using assms False unfolding accrue_for_card_def Let_def s1_def [symmetric]
      by (auto simp: bindE_eq_Inr_iff split: option.splits if_splits)
    then obtain row where "s' = s1\<lparr>sick_ledger := sick_ledger s1 @ [row]\<rparr>" "sl_timecard_id row = Some (tc_timecard_id c)" by blast
    then have "s' = s\<lparr>sick_ledger := ?old @ [row]\<rparr>" "sl_timecard_id row = Some (tc_timecard_id c)" by (simp_all add: s1_def)
    then show ?thesis by (intro exI [of _ "[row]"]) simp
  qed
  then obtain rows where "s' = s\<lparr>sick_ledger := ?old @ rows\<rparr>" "\<forall>e \<in> set rows. sl_timecard_id e = Some (tc_timecard_id c)" by blast
  then show ?thesis by (intro exI [of _ "?old @ rows"]) (simp add: filter_empty_conv)
qed

lemma accrue_again:
  assumes "accrue_for_card s c dh ex j = Inr s'"
  shows "accrue_for_card s' c dh ex j = Inr s'"
proof -
  obtain L where L: "s' = s\<lparr>sick_ledger := L\<rparr>" "filter (\<lambda>e. sl_timecard_id e \<noteq> Some (tc_timecard_id c)) L =
            filter (\<lambda>e. sl_timecard_id e \<noteq> Some (tc_timecard_id c)) (sick_ledger s)"
    using accrue_for_card_ledger [OF assms] by blast
  have "accrue_for_card s' c dh ex j = accrue_for_card s c dh ex j"
    by (simp add: accrue_for_card_def L(1) L(2))
  with assms show ?thesis by simp
qed

lemma promote_cases:
  assumes "promote_timecard s c anchor = Inr (s', w)"
  obtains (excluded) e where "get_employee s (tc_employee_id c) = Some e" "em_pay_type e = EXCLUDE_FROM_PAYROLL"
      "filter (\<lambda>f. lf_timecard_id f = tc_timecard_id c) (labor_facts s) = []" "s' = s" "w = {}"
    | (promoted) e facts dh ex j where "get_employee s (tc_employee_id c) = Some e" "em_pay_type e \<noteq> EXCLUDE_FROM_PAYROLL"
      "promoted_facts s c anchor = Inr (facts, dh, ex, j)"
      "accrue_for_card (s\<lparr>labor_facts := filter (\<lambda>f. lf_timecard_id f \<noteq> tc_timecard_id c) (labor_facts s) @ facts\<rparr>) c dh ex j = Inr s'"
      "w = set (map (\<lambda>f. (lf_property_id f, lf_business_date f)) facts)"
proof -
  from assms have ap: "tc_status c = ''approved''" by (simp add: promote_timecard_def split: if_splits)
  from assms ap obtain e where e: "get_employee s (tc_employee_id c) = Some e"
    by (auto simp: promote_timecard_def split: option.splits)
  show thesis
  proof (cases "em_pay_type e = EXCLUDE_FROM_PAYROLL")
    case True
    with assms ap e show thesis by (intro excluded) (auto simp: promote_timecard_def split: if_splits)
  next
    case False
    with assms ap e show thesis
      by (auto simp: promote_timecard_def bindE_eq_Inr_iff Let_def intro!: promoted)
  qed
qed

text \<open>After a promotion, the card's facts are exactly the promoted ones and no others changed.\<close>

lemma promoted_labor_facts:
  assumes "promoted_facts s c anchor = Inr (facts, dh, ex, j)"
    and "accrue_for_card (s\<lparr>labor_facts := filter (\<lambda>f. lf_timecard_id f \<noteq> tc_timecard_id c) (labor_facts s) @ facts\<rparr>) c dh ex j = Inr s'"
  shows "filter (\<lambda>f. lf_timecard_id f = tc_timecard_id c) (labor_facts s') = facts"
    and "filter (\<lambda>f. lf_timecard_id f \<noteq> tc_timecard_id c) (labor_facts s') =
         filter (\<lambda>f. lf_timecard_id f \<noteq> tc_timecard_id c) (labor_facts s)"
    and "labor_facts s' = filter (\<lambda>f. lf_timecard_id f \<noteq> tc_timecard_id c) (labor_facts s) @ facts"
    and "\<exists>F L. s' = s\<lparr>labor_facts := F, sick_ledger := L\<rparr>"
proof -
  have mine: "f \<in> set facts \<Longrightarrow> lf_timecard_id f = tc_timecard_id c" for f
    using promoted_facts_card [OF assms(1)] by blast
  have s': "labor_facts s' = filter (\<lambda>f. lf_timecard_id f \<noteq> tc_timecard_id c) (labor_facts s) @ facts"
    "\<exists>F L. s' = s\<lparr>labor_facts := F, sick_ledger := L\<rparr>"
    using accrue_for_card_ledger [OF assms(2)] by auto
  then show "labor_facts s' = filter (\<lambda>f. lf_timecard_id f \<noteq> tc_timecard_id c) (labor_facts s) @ facts"
    "\<exists>F L. s' = s\<lparr>labor_facts := F, sick_ledger := L\<rparr>" by blast+
  show "filter (\<lambda>f. lf_timecard_id f = tc_timecard_id c) (labor_facts s') = facts"
    "filter (\<lambda>f. lf_timecard_id f \<noteq> tc_timecard_id c) (labor_facts s') =
         filter (\<lambda>f. lf_timecard_id f \<noteq> tc_timecard_id c) (labor_facts s)"
    using mine by (simp_all add: s'(1) filter_empty_conv)
qed

lemma promote_again:
  assumes "promote_timecard s c anchor = Inr (s', w)"
  shows "promote_timecard s' c anchor = Inr (s', w)"
  using assms
proof (cases rule: promote_cases)
  case (excluded e)
  with assms show ?thesis by simp
next
  case (promoted e facts dh ex j)
  note lf = promoted_labor_facts [OF promoted(3,4)]
  obtain F L where L: "s' = s\<lparr>labor_facts := F, sick_ledger := L\<rparr>" using lf(4) by blast
  have "promoted_facts s' c anchor = Inr (facts, dh, ex, j)"
    unfolding L promoted_facts_frame by (rule promoted(3))
  moreover have "get_employee s' (tc_employee_id c) = Some e"
    unfolding L reads_frame by (rule promoted(1))
  moreover have "s'\<lparr>labor_facts := filter (\<lambda>f. lf_timecard_id f \<noteq> tc_timecard_id c) (labor_facts s') @ facts\<rparr> = s'"
    using lf(2,3) by simp
  ultimately show ?thesis
    using promoted assms accrue_again [OF promoted(4)] by (simp add: promote_timecard_def split: if_splits)
qed

section \<open>Hours in hundredths\<close>

definition centi :: "decimal \<Rightarrow> bool" where
  "centi x \<longleftrightarrow> (\<exists>n :: int. x = of_int n / 100)"

lemma centiI: "x = of_int n / 100 \<Longrightarrow> centi x"
  by (auto simp: centi_def)

lemma centi_simps [simp, intro]:
  "centi 0" "centi (numeral k)"
  "centi x \<Longrightarrow> centi y \<Longrightarrow> centi (x + y)" "centi x \<Longrightarrow> centi y \<Longrightarrow> centi (x - y)"
  "centi x \<Longrightarrow> centi y \<Longrightarrow> centi (min x y)" "centi x \<Longrightarrow> centi y \<Longrightarrow> centi (max x y)"
proof -
  show "centi 0" by (rule centiI [of _ 0]) simp
  show "centi (numeral k)" by (rule centiI [of _ "numeral k * 100"]) simp
  show "centi (min x y)" "centi (max x y)" if "centi x" "centi y" using that by (auto simp: min_def max_def)
  show "centi (x + y)" "centi (x - y)" if xy: "centi x" "centi y"
  proof -
    from xy obtain m n where "x = of_int m / 100" "y = of_int n / 100" by (auto simp: centi_def)
    then show "centi (x + y)" "centi (x - y)"
      by (auto intro: centiI [of _ "m + n"] centiI [of _ "m - n"] simp: add_divide_distrib diff_divide_distrib)
  qed
qed

lemma centi_sum_list: "(\<And>x. x \<in> set xs \<Longrightarrow> centi x) \<Longrightarrow> centi (sum_list xs)"
  by (induction xs) auto

lemma quantize_centi:
  assumes "quantize x HOURS m = Inr h" "centi x"
  shows "h = x"
proof -
  obtain n where n: "x = of_int n * HOURS" using assms(2) by (auto simp: centi_def)
  have "h = quantized x HOURS m" using assms(1) by (auto simp: quantize_def quantized_def Let_def split: if_splits)
  then show ?thesis unfolding n by (subst (asm) quantized_multiple) simp_all
qed

lemma quantize_is_centi: "quantize x HOURS m = Inr h \<Longrightarrow> centi h \<and> h = quantized x HOURS m"
  by (auto simp: quantize_def quantized_def Let_def simp del: divide_eq_eq_numeral1 split: if_splits
      intro!: centiI [of _ "round_int m (x * 100)"])

lemma classify_day_centi:
  assumes "rules_for j = Inr rules" "centi h" "classify_day rules sv d h = (r, p, q)"
  shows "centi r \<and> centi p \<and> centi q"
  using assms by (auto simp: rules_for_eq_Inr_iff FLSA_BASELINE_def US_CA_def classify_day_def split: if_splits)

lemma overtime_rows_centi:
  assumes "rules_for j = Inr rules" "\<forall>h \<in> set (map snd dh). 0 \<le> h \<and> centi h" "distinct (keys dh)"
    and "row \<in> set (compute_overtime dh anchor exempt rules)"
  shows "centi (regular_hours row) \<and> centi (ot_hours row) \<and> centi (dt_hours row)"
proof -
  have get: "centi (dict_get dh d 0)" for d
    using assms(2) by (induction dh) auto
  have ds: "daily_split dh anchor rules d = (r, p, q) \<Longrightarrow> centi r \<and> centi p \<and> centi q" for d r p q
    unfolding daily_split_def using assms(1) get by (rule classify_day_centi)
  have "centi (fst (daily_split dh anchor rules d))" for d
    using ds [of d] by (cases "daily_split dh anchor rules d") auto
  then have "centi (regular_through dh anchor rules d)" for d
    unfolding regular_through_def by (intro centi_sum_list) auto
  then have "centi (regular_hours (overtime_row dh anchor rules 40 d)) \<and> centi (ot_hours (overtime_row dh anchor rules 40 d))
      \<and> centi (dt_hours (overtime_row dh anchor rules 40 d))" for d
    using ds [of d] by (auto simp: overtime_row_def Let_def split: prod.split)
  moreover have "weekly_ot_after rules = Some 40"
    using assms(1) by (auto simp: rules_for_eq_Inr_iff FLSA_BASELINE_def US_CA_def)
  ultimately show ?thesis
    using assms(4) get compute_overtime_eq [OF rules_for_wf [OF assms(1), THEN conjunct1], of 40 dh anchor] assms(2,3)
    by (cases exempt) (auto simp: compute_overtime_def)
qed

section \<open>No hour is lost in the split\<close>

lemma property_fact_hours:
  assumes "property_fact s c ex d p reg ot dt = Inr fs" "centi reg" "centi ot" "centi dt" "0 \<le> reg" "0 \<le> ot" "0 \<le> dt"
  shows "sum_list (map lf_hours fs) = reg + ot + dt"
proof (cases "reg + ot + dt \<le> 0")
  case True
  with assms show ?thesis by (auto simp: property_fact_def)
next
  case False
  with assms(1) obtain h where "quantize (reg + ot + dt) HOURS ROUND_HALF_EVEN = Inr h" "map lf_hours fs = [h]"
    by (auto simp: property_fact_def inr)
  with quantize_centi assms(2-4) show ?thesis by simp
qed

text \<open>One bucket of a row over the day's properties.\<close>

lemma sum_list_of_int_mult:
  "sum_list (map (\<lambda>k. of_int (f k) * q) xs) = of_int (sum_list (map f xs)) * (q :: decimal)"
  by (induction xs) (auto simp: algebra_simps)

lemma bucket_split:
  assumes "positive_minutes ws" "ws \<noteq> []" "dict_sum ws < 10 ^ 12" "centi x" "0 \<le> x" "x \<le> 2 * 10 ^ 12"
  shows "\<exists>sh. apportion id x (dec_weights ws) HOURS = Inr sh
    \<and> (\<forall>k. 0 \<le> dict_get sh k 0 \<and> centi (dict_get sh k 0))
    \<and> sum_list (map (\<lambda>k. dict_get sh k 0) (keys ws)) = x"
proof -
  obtain n where n: "x = of_int n / 100" using assms(4) by (auto simp: centi_def)
  have n0: "0 \<le> n" using assms(5) by (simp add: n)
  have "(of_int n :: rat) \<le> of_int (2 * 10 ^ 14)" using assms(6) by (simp add: n)
  then have n14: "n \<le> 2 * 10 ^ 14" by (simp only: of_int_le_iff)
  have pos: "0 < dict_sum ws" by (rule positive_minutes_sum [OF assms(1,2)])
  have "n * dict_sum ws \<le> (2 * 10 ^ 14) * 10 ^ 12" using n0 n14 pos assms(3) by (intro mult_mono) auto
  then have "int_weights n ws" using assms(1) pos n0
    by (auto simp: int_weights_def positive_minutes_def intro: order_less_imp_le)
  from hundredths.split_nonneg [OF this n0] obtain cs where
    cs: "apportion id (of_int n / 100) (dec_weights ws) HOURS = Inr (quanta HOURS cs)" "distinct (keys cs)"
      "set (keys cs) = set (keys ws)" "dict_sum cs = n" "\<forall>c \<in> set (map snd cs). 0 \<le> c \<and> c \<le> n" by blast
  have nn: "0 \<le> dict_get cs k 0" for k using cs(2,5) by (intro dict_get_nonneg) auto
  have "sum_list (map (\<lambda>k. dict_get cs k 0) (keys ws)) = dict_sum cs"
    using cs(2,3) assms(1) unfolding dict_sum_keys [OF cs(2)] positive_minutes_def
    by (intro sum_list_map_perm) (metis set_eq_iff_mset_eq_distinct)
  then have "sum_list (map (\<lambda>k. of_int (dict_get cs k 0) * HOURS) (keys ws)) = x"
    unfolding n cs(4) [symmetric] sum_list_of_int_mult by simp
  with cs(1) nn show ?thesis by (auto simp: n quanta_get centi_def)
qed

lemma row_facts_hours:
  assumes "row_facts s c ex ds row = Inr fs" "dict_index ds (business_date row) = Inr ws"
    and "positive_minutes ws" "ws \<noteq> []" "dict_sum ws < 10 ^ 12"
    and "centi (regular_hours row) \<and> centi (ot_hours row) \<and> centi (dt_hours row)"
    and "0 \<le> regular_hours row" "0 \<le> ot_hours row" "0 \<le> dt_hours row"
    and "regular_hours row + ot_hours row + dt_hours row \<le> 2 * 10 ^ 12"
  shows "sum_list (map lf_hours fs) = regular_hours row + ot_hours row + dt_hours row"
proof -
  let ?ok = "\<lambda>x sh. (\<forall>k. 0 \<le> dict_get sh k 0 \<and> centi (dict_get sh k 0)) \<and> sum_list (map (\<lambda>k. dict_get sh k 0) (keys ws)) = x"
  note b = bucket_split [OF assms(3-5)]
  obtain r where r: "apportion id (regular_hours row) (dec_weights ws) HOURS = Inr r" "?ok (regular_hours row) r"
    using b [of "regular_hours row"] assms(6-10) by auto
  obtain p where p: "apportion id (ot_hours row) (dec_weights ws) HOURS = Inr p" "?ok (ot_hours row) p"
    using b [of "ot_hours row"] assms(6-10) by auto
  obtain q where q: "apportion id (dt_hours row) (dec_weights ws) HOURS = Inr q" "?ok (dt_hours row) q"
    using b [of "dt_hours row"] assms(6-10) by auto
  obtain fss where fss: "fs = concat fss"
    "list_all2 (\<lambda>k f. property_fact s c ex (business_date row) k (dict_get r k 0) (dict_get p k 0) (dict_get q k 0) = Inr f) (keys ws) fss"
    using assms(1) by (auto simp: row_facts_def assms(2) r(1) p(1) q(1) inr mapE_eq_Inr_iff simp del: set_map list.map)
  from fss(2) have "list_all2 (\<lambda>k f. sum_list (map lf_hours f) = dict_get r k 0 + dict_get p k 0 + dict_get q k 0) (keys ws) fss"
    by (rule list.rel_mono_strong) (use r(2) p(2) q(2) in \<open>auto intro: property_fact_hours\<close>)
  then have "sum_list (map lf_hours (concat fss)) = sum_list (map (\<lambda>k. dict_get r k 0 + dict_get p k 0 + dict_get q k 0) (keys ws))"
    by (induction rule: list_all2_induct) auto
  then show ?thesis using r(2) p(2) q(2) by (simp add: fss(1) sum_list_addf comp_def)
qed

lemma row_facts_date:
  "row_facts s c ex ds row = Inr fs \<Longrightarrow> f \<in> set fs \<Longrightarrow> lf_business_date f = business_date row"
  by (auto simp: row_facts_def inr mapE_set dest!: property_fact_keys)

lemma mapE_map: "mapE f xs = Inr ys \<Longrightarrow> (\<And>x y. x \<in> set xs \<Longrightarrow> f x = Inr y \<Longrightarrow> h y = g x) \<Longrightarrow> map h ys = map g xs"
  by (induction xs arbitrary: ys) (auto simp: bindE_eq_Inr_iff)

lemma map_sum_Inr: "map_sum id (Pair k) r = Inr y \<longleftrightarrow> (\<exists>v. r = Inr v \<and> y = (k, v))"
  by (cases r) auto

lemma facts_of_date:
  assumes "list_all2 (\<lambda>row fs. sum_list (map lf_hours fs) = h (business_date row)
      \<and> (\<forall>f \<in> set fs. lf_business_date f = business_date row)) rows fss"
    and "distinct (map business_date rows)"
  shows "sum_list (map lf_hours (filter (\<lambda>f. lf_business_date f = d) (concat fss))) =
    (if d \<in> set (map business_date rows) then h d else 0)"
  using assms
proof (induction rule: list_all2_induct)
  case (Cons row rows fs fss)
  have "filter (\<lambda>f. lf_business_date f = d) fs = (if business_date row = d then fs else [])"
    using Cons.hyps(1) by (auto simp: filter_id_conv filter_empty_conv)
  with Cons show ?case by auto
qed simp

text \<open>The day table of a card: one positive entry per worked day, in hundredths.\<close>

lemma card_day_table:
  assumes "card_datetimes s" "compute_timecard s c = Inr all" "\<forall>r \<in> set all. dr_worked_minutes r < 10 ^ 12"
    and "card_days s c = Inr days" "card_day_hours days = Inr dh"
  shows "distinct (keys dh)" "\<forall>h \<in> set (map snd dh). 0 \<le> h \<and> centi h \<and> h \<le> 2 * 10 ^ 12"
    and "keys dh = map dr_business_date days" "days = filter (\<lambda>d. dr_worked_minutes d > 0) all"
    and "\<forall>r \<in> set all. dict_get dh (dr_business_date r) 0 = quantized (ddiv (of_int (dr_worked_minutes r)) 60) HOURS ROUND_HALF_EVEN"
    and "r \<in> set all \<Longrightarrow> positive_minutes (dr_property_minutes r) \<and> dict_sum (dr_property_minutes r) = dr_worked_minutes r"
proof -
  let ?q = "\<lambda>r. quantized (ddiv (of_int (dr_worked_minutes r)) 60) HOURS ROUND_HALF_EVEN"
  show days: "days = filter (\<lambda>d. dr_worked_minutes d > 0) all" using assms(2,4) by (simp add: card_days_def)
  have all: "distinct (map dr_business_date all)" "r \<in> set all \<Longrightarrow> 0 \<le> dr_worked_minutes r \<and> positive_minutes (dr_property_minutes r)
      \<and> dict_sum (dr_property_minutes r) = dr_worked_minutes r" for r
    using compute_timecard_ok [OF assms(1), of c] timecard_events_datetimes(2) [OF assms(1), of c] assms(2)
    by (auto simp: positive_minutes_def)
  then show "r \<in> set all \<Longrightarrow> positive_minutes (dr_property_minutes r) \<and> dict_sum (dr_property_minutes r) = dr_worked_minutes r" by blast
  have dh: "dh = map (\<lambda>r. (dr_business_date r, ?q r)) days"
    using mapE_map [where h = id, OF assms(5) [unfolded card_day_hours_def], of "\<lambda>r. (dr_business_date r, ?q r)"]
    by (auto simp: map_sum_Inr dest!: quantize_is_centi)
  show "keys dh = map dr_business_date days" by (simp add: dh comp_def)
  have dd: "distinct (map dr_business_date days)" unfolding days using all(1) by (rule distinct_map_filter)
  then show dk: "distinct (keys dh)" by (simp add: dh comp_def)
  show "\<forall>h \<in> set (map snd dh). 0 \<le> h \<and> centi h \<and> h \<le> 2 * 10 ^ 12"
  proof
    fix h assume "h \<in> set (map snd dh)"
    then obtain r where r: "r \<in> set days" "h = ?q r" by (auto simp: dh)
    have m: "0 \<le> dr_worked_minutes r" "dr_worked_minutes r < 10 ^ 12" using r(1) all(2) assms(3) by (auto simp: days)
    have "\<bar>h - ddiv (of_int (dr_worked_minutes r)) 60\<bar> < HOURS" unfolding r(2) by (rule quantized_error) simp
    then have "h \<le> ddiv (of_int (dr_worked_minutes r)) 60 + 1" by linarith
    with ddiv_small(2) [OF m] have "h \<le> 2 * 10 ^ 12" by simp
    moreover have "0 \<le> h" unfolding r(2) using ddiv_small(1) [OF m] by (intro quantized_nonneg) simp_all
    moreover have "centi h" unfolding r(2) quantized_def centi_def by auto
    ultimately show "0 \<le> h \<and> centi h \<and> h \<le> 2 * 10 ^ 12" by blast
  qed
  show "\<forall>r \<in> set all. dict_get dh (dr_business_date r) 0 = ?q r"
  proof
    fix r assume r: "r \<in> set all"
    show "dict_get dh (dr_business_date r) 0 = ?q r"
    proof (cases "0 < dr_worked_minutes r")
      case True
      then have "(dr_business_date r, ?q r) \<in> set dh" using r by (auto simp: dh days)
      with dk show ?thesis by (rule dict_get_map_of)
    next
      case False
      then have "dr_worked_minutes r = 0" using all(2) [OF r] by simp
      moreover have "dr_business_date r \<notin> set (keys dh)"
        using r all(1) False by (auto simp: dh days comp_def dest: inj_onD [OF distinct_map [THEN iffD1, THEN conjunct2]])
      ultimately show ?thesis by (simp add: ddiv_def)
    qed
  qed
qed

lemma card_tables:
  assumes "card_datetimes s" "compute_timecard s c = Inr all" "\<forall>r \<in> set all. dr_worked_minutes r < 10 ^ 12"
    and "card_days s c = Inr days" "card_day_hours days = Inr dh" "card_day_split s c days = Inr ds"
  shows "keys ds = keys dh"
    and "\<forall>d ws. dict_index ds d = Inr ws \<longrightarrow> positive_minutes ws \<and> ws \<noteq> [] \<and> dict_sum ws < 10 ^ 12"
proof -
  note table = card_day_table [OF assms(1-5)] and days = card_day_table(4) [OF assms(1-5)]
  have kds: "keys ds = map dr_business_date days"
    by (rule mapE_map [OF assms(6) [unfolded card_day_split_def]]) (auto simp: map_sum_Inr)
  show "keys ds = keys dh" by (simp add: kds table(3))
  show "\<forall>d ws. dict_index ds d = Inr ws \<longrightarrow> positive_minutes ws \<and> ws \<noteq> [] \<and> dict_sum ws < 10 ^ 12"
  proof (intro allI impI)
    fix d ws assume "dict_index ds d = Inr ws"
    then have "(d, ws) \<in> set ds" by (auto simp: dict_index_def dest: map_of_SomeD split: option.splits)
    then obtain r where r: "r \<in> set days" "property_minutes_for_day s (tc_employee_id c) d (dr_property_minutes r) = Inr ws"
      using mapE_set [OF assms(6) [unfolded card_day_split_def]] by (auto simp: map_sum_Inr)
    have m: "dr_worked_minutes r < 10 ^ 12" "0 < dr_worked_minutes r" using r(1) assms(3) by (auto simp: days)
    have pm: "positive_minutes (dr_property_minutes r)" "dict_sum (dr_property_minutes r) = dr_worked_minutes r"
      using r(1) table(6) by (auto simp: days)
    then have "positive_minutes ws" "dict_sum ws = dr_worked_minutes r"
      using attribution_ok [of "dr_property_minutes r" s "tc_employee_id c" d] r(2) m(1) by auto
    with m show "positive_minutes ws \<and> ws \<noteq> [] \<and> dict_sum ws < 10 ^ 12" by auto
  qed
qed

lemma promoted_hours:
  assumes "card_datetimes s" "compute_timecard s c = Inr all" "\<forall>r \<in> set all. dr_worked_minutes r < 10 ^ 12"
    and "promoted_facts s c anchor = Inr (facts, dh, ex, j)" "r \<in> set all"
  shows "sum_list (map lf_hours (filter (\<lambda>f. lf_business_date f = dr_business_date r) facts)) =
    quantized (ddiv (of_int (dr_worked_minutes r)) 60) HOURS ROUND_HALF_EVEN"
proof -
  from assms(4) obtain days ds rules fss where p: "card_days s c = Inr days" "card_day_hours days = Inr dh"
    "card_day_split s c days = Inr ds" "rules_for_card s (tc_employee_id c) ds (tc_period_start c) = Inr rules"
    "mapE (row_facts s c ex ds) (compute_overtime dh anchor ex rules) = Inr fss" "facts = concat fss"
    by (auto simp: promoted_facts_def inr)
  note t = card_day_table [OF assms(1-3) p(1,2)] and u = card_tables(2) [OF assms(1-3) p(1-3)]
  from p(4) obtain jn where rules: "rules_for jn = Inr rules" by (auto simp: rules_for_card_def inr)
  have nn: "\<forall>h \<in> set (map snd dh). 0 \<le> h" using t(2) by blast
  note ok = overtime_rows_ok [OF rules nn t(1), where anchor = anchor and exempt = ex]
  have "list_all2 (\<lambda>row fs. sum_list (map lf_hours fs) = dict_get dh (business_date row) 0
      \<and> (\<forall>f \<in> set fs. lf_business_date f = business_date row)) (compute_overtime dh anchor ex rules) fss"
  proof (rule list.rel_mono_strong [OF p(5) [unfolded mapE_eq_Inr_iff]])
    fix row fs assume row: "row \<in> set (compute_overtime dh anchor ex rules)" "row_facts s c ex ds row = Inr fs"
    then obtain ws where ws: "dict_index ds (business_date row) = Inr ws" by (auto simp: row_facts_def inr)
    have le: "dict_get dh d 0 \<le> 2 * 10 ^ 12" for d using t(2) by (induction dh) auto
    have "sum_list (map lf_hours fs) = regular_hours row + ot_hours row + dt_hours row"
      using row_facts_hours [OF row(2) ws] u ws ok(2) row(1) le
        overtime_rows_centi [OF rules _ t(1) row(1)] t(2) by auto
    then show "sum_list (map lf_hours fs) = dict_get dh (business_date row) 0 \<and> (\<forall>f \<in> set fs. lf_business_date f = business_date row)"
      using ok(2) row row_facts_date by auto
  qed
  from facts_of_date [OF this, where d = "dr_business_date r"] ok(1) t(1,5) assms(5) show ?thesis
    by (cases "dr_business_date r \<in> set (keys dh)") (auto simp: p(6))
qed

section \<open>An approved card\<close>

text \<open>One hour at one property under the federal rules.\<close>

definition approved_db :: db where
  "approved_db = example_shift\<lparr>
     properties := [\<lparr>pr_property_id = ''SJCES'', pr_timezone = ''UTC'', pr_wage_jurisdiction = Some ''US''\<rparr>],
     employees := [\<lparr>em_employee_id = 7, em_keycloak_subject = None, em_full_name = ''Ana Ruiz'', em_pay_type = ''hourly'',
       em_full_part_time = None, em_i9_submitted_on = None, em_w4_submitted_on = None, em_employment_status = ''active'',
       em_payroll_data_complete = True, em_hire_date = None, em_termination_date = None,
       em_compensation_note = None\<rparr>]\<rparr>"

abbreviation approved_card :: Timecard where
  "approved_card \<equiv> example_card\<lparr>tc_status := ''approved''\<rparr>"

abbreviation approved_day :: DayResult where
  "approved_day \<equiv> \<lparr>dr_business_date = 3, dr_worked_minutes = 60, dr_warnings = [], dr_property_minutes = [(Some ''SJCES'', 60)]\<rparr>"

lemma approved_days: "compute_timecard approved_db approved_card = Inr [approved_day]"
proof -
  have "punch_event approved_db = punch_event example_shift"
    by (simp add: fun_eq_iff punch_event_def get_device_def approved_db_def)
  then have "compute_timecard approved_db approved_card = compute_timecard example_shift example_card"
    by (simp add: compute_timecard_def timecard_events_def) (simp add: approved_db_def)
  then show ?thesis by (simp only: example_shift_days)
qed

lemma apportion_one:
  assumes "centi x" "0 \<le> x" "x \<le> 2 * 10 ^ 12"
  shows "\<exists>sh. apportion id x (dec_weights [(p, 60)]) HOURS = Inr sh \<and> dict_get sh p 0 = x"
  using bucket_split [of "[(p, 60)]" x] assms by (auto simp: positive_minutes_def)

lemma approved_facts:
  "promoted_facts approved_db approved_card 1 = Inr (
     [\<lparr>lf_property_id = ''SJCES'', lf_business_date = 3, lf_department_id = None, lf_hours = 1,
       lf_ot_hours = 0, lf_est_cost = 0, lf_timecard_id = 4\<rparr>], [(3, 1)], False, Some ''US'')"
proof -
  let ?s = approved_db and ?c = approved_card and ?ds = "[(3, [(''SJCES'', 60)])] :: (date, (string, int) dict) dict"
  have "ddiv 60 60 = 1" using ctx_of_int [of 1] by (simp add: ddiv_def prec_def)
  then have h: "card_day_hours [approved_day] = Inr [(3, 1)]"
    by (simp add: card_day_hours_def quantize_def round_int_def half_even_def prec_def)
  have ds: "card_day_split ?s ?c [approved_day] = Inr ?ds"
    by (simp add: card_day_split_def property_minutes_for_day_def recorded_minutes_simps)
  have jur: "jurisdiction_for_card ?s 7 ?ds 1 = Inr (Some ''US'')"
    by (simp add: jurisdiction_for_card_def approved_db_def get_property_def)
  have on: "assignments_on ?s 7 d b = []" for d b
    by (simp add: assignments_on_def approved_db_def example_shift_def empty_db_def)
  have ex: "resolve_exemption ?s 7 [3] = Inr False"
    by (simp add: resolve_exemption_def is_exempt_on_def on List.map_filter_simps)
  have ot: "compute_overtime [(3, 1)] 1 False FLSA_BASELINE =
      [\<lparr>business_date = 3, regular_hours = 1, ot_hours = 0, dt_hours = 0\<rparr>]"
    using compute_overtime_eq [of FLSA_BASELINE 40 "[(3, 1)]" 1]
    by (simp add: rules_wf_def FLSA_BASELINE_def overtime_row_def daily_split_def regular_through_def week_days_def classify_day_def seventh_day_def)
  obtain r z where sh: "apportion id 1 (dec_weights [(''SJCES'', 60)]) HOURS = Inr r" "dict_get r ''SJCES'' 0 = 1"
    "apportion id 0 (dec_weights [(''SJCES'', 60)]) HOURS = Inr z" "dict_get z ''SJCES'' 0 = 0"
    using apportion_one [of 1 "''SJCES''"] apportion_one [of 0 "''SJCES''"] centi_simps(2) [of num.One] by auto
  have q: "quantize 1 HOURS ROUND_HALF_EVEN = Inr 1" "quantize 0 u m = Inr 0" for u m
    by (simp_all add: quantize_def round_int_def half_even_def prec_def split: rounding.split)
  have row: "row_facts ?s ?c False ?ds \<lparr>business_date = 3, regular_hours = 1, ot_hours = 0, dt_hours = 0\<rparr> = Inr
     [\<lparr>lf_property_id = ''SJCES'', lf_business_date = 3, lf_department_id = None, lf_hours = 1,
       lf_ot_hours = 0, lf_est_cost = 0, lf_timecard_id = 4\<rparr>]"
    by (simp add: row_facts_def dict_index_def sh property_fact_def assignment_at_def on department_at_def q example_card_def)
  have e: "tc_employee_id ?c = 7" "tc_period_start ?c = 1" by (simp_all add: example_card_def)
  show ?thesis
    by (simp add: promoted_facts_def card_days_def approved_days h ds e ex rules_for_card_def jur ot row
        rules_for_eq_Inr_iff [THEN iffD2])
qed

lemma approved_promotes:
  "\<exists>s' w. promote_timecard approved_db approved_card 1 = Inr (s', w)"
proof -
  have "get_employee approved_db (tc_employee_id approved_card) = Some (hd (employees approved_db))"
    "em_pay_type (hd (employees approved_db)) \<noteq> EXCLUDE_FROM_PAYROLL"
    by (simp_all add: get_employee_def approved_db_def example_card_def EXCLUDE_FROM_PAYROLL_def)
  moreover have "\<exists>s'. accrue_for_card s approved_card dh ex (Some ''US'') = Inr s'" for s dh ex
    by (simp add: accrue_for_card_def sick_leave_rules_for_def)
  ultimately show ?thesis by (simp add: promote_timecard_def approved_facts) (metis bindE_simps(2))
qed

section \<open>Properties\<close>

text \<open>
  C32.  No worked hour is lost or charged twice: after a promotion, the hours of the card's
  facts on a day add up exactly to that day's worked minutes in hours, rounded to the
  hundredth, over however many properties and overtime buckets they were split.
\<close>

theorem promotion_conserves_hours:
  assumes "card_datetimes s" "compute_timecard s c = Inr days" "\<forall>r \<in> set days. dr_worked_minutes r < 10 ^ 12"
    and "promote_timecard s c anchor = Inr (s', w)"
    and "get_employee s (tc_employee_id c) = Some e" "em_pay_type e \<noteq> EXCLUDE_FROM_PAYROLL" "r \<in> set days"
  shows "sum_list (map lf_hours (filter (\<lambda>f. lf_timecard_id f = tc_timecard_id c \<and> lf_business_date f = dr_business_date r)
      (labor_facts s'))) = quantized (ddiv (of_int (dr_worked_minutes r)) 60) (1 / 100) ROUND_HALF_EVEN"
  using assms(4)
proof (cases rule: promote_cases)
  case (excluded e')
  with assms(5,6) show ?thesis by simp
next
  case (promoted e' facts dh ex j)
  have "filter (\<lambda>f. lf_timecard_id f = tc_timecard_id c \<and> lf_business_date f = dr_business_date r) (labor_facts s') =
      filter (\<lambda>f. lf_business_date f = dr_business_date r) (filter (\<lambda>f. lf_timecard_id f = tc_timecard_id c) (labor_facts s'))"
    by (simp add: conj_commute)
  then show ?thesis
    using promoted_hours [OF assms(1-3) promoted(3) assms(7)] promoted_labor_facts(1) [OF promoted(3,4)] by simp
qed

theorem promotion_conserves_hours_witness:
  "\<exists>s' w. promote_timecard approved_db approved_card 1 = Inr (s', w) \<and>
     sum_list (map lf_hours (filter (\<lambda>f. lf_timecard_id f = 4 \<and> lf_business_date f = 3) (labor_facts s')))
       = quantized (ddiv 60 60) (1 / 100) ROUND_HALF_EVEN"
proof -
  obtain s' w where p: "promote_timecard approved_db approved_card 1 = Inr (s', w)" using approved_promotes by blast
  have "card_datetimes approved_db"
    by (simp add: card_datetimes_def approved_db_def example_shift_def empty_db_def minute_def)
  from promotion_conserves_hours [OF this approved_days _ p, of "hd (employees approved_db)" approved_day] p show ?thesis
    by (simp add: approved_db_def get_employee_def example_card_def EXCLUDE_FROM_PAYROLL_def)
qed

text \<open>
   Promotion is idempotent: promoting a promoted card again gives the same state and
  reports the same grains, so a backfill or a retried approval changes nothing.
\<close>

theorem promote_idempotent:
  assumes "promote_timecard s c anchor = Inr (s', w)"
  shows "promote_timecard s' c anchor = Inr (s', w)"
  using assms by (rule promote_again)

theorem promote_idempotent_witness:
  "\<exists>s' w. promote_timecard approved_db approved_card 1 = Inr (s', w) \<and> promote_timecard s' approved_card 1 = Inr (s', w)"
  using approved_promotes promote_idempotent by blast

text \<open>
  C33. Demotion takes back the facts of a promotion: it removes the card's facts and no
  other card's, and reports exactly the grains the promotion wrote.  It does not take back
  the accrual: the sick-leave ledger is left as the promotion wrote it.
\<close>

theorem demote_after_promote:
  assumes "promote_timecard s c anchor = Inr (s', w)" "demote_timecard s' c = (s'', w')"
  shows "w' = w \<and> labor_facts s'' = filter (\<lambda>f. lf_timecard_id f \<noteq> tc_timecard_id c) (labor_facts s)
    \<and> sick_ledger s'' = sick_ledger s'"
  using assms(1)
proof (cases rule: promote_cases)
  case (excluded e)
  with assms(2) show ?thesis by (auto simp: demote_timecard_def Let_def)
next
  case (promoted e facts dh ex j)
  note lf = promoted_labor_facts(1,2) [OF promoted(3,4)]
  from assms(2) show ?thesis unfolding demote_timecard_def Let_def lf promoted(5) by auto
qed

theorem demote_after_promote_witness:
  "\<exists>s' w s''. promote_timecard approved_db approved_card 1 = Inr (s', w) \<and> demote_timecard s' approved_card = (s'', w)"
  using approved_promotes demote_after_promote by (metis prod.exhaust)

lemma promote_needs_approval: "tc_status c \<noteq> ''approved'' \<Longrightarrow> promote_timecard s c anchor = Inl ValueError"
  by (simp add: promote_timecard_def)

end
