(* ===== verification/PyStr.thy ===== *)
theory PyStr
  imports PyDecimal PyDate
begin

text \<open>
  The string operations of Python the program relies on, on characters up to 255:
  \<^verbatim>\<open>int(s)\<close>, \<^verbatim>\<open>s.split(sep)\<close>, zero-padded formatting, \<^verbatim>\<open>date.isoformat()\<close> and \<^verbatim>\<open>str\<close> of a
  decimal with four fractional digits; and that printing a number and parsing it again
  gives the number.
\<close>

section \<open>Parsing integers\<close>

definition is_space :: "char \<Rightarrow> bool" where
  "is_space c \<longleftrightarrow> (let n = of_char c :: nat in 9 \<le> n \<and> n \<le> 13 \<or> 28 \<le> n \<and> n \<le> 32 \<or> n = 133 \<or> n = 160)"

definition is_digit :: "char \<Rightarrow> bool" where
  "is_digit c \<longleftrightarrow> 48 \<le> (of_char c :: nat) \<and> (of_char c :: nat) \<le> 57"

definition strip :: "string \<Rightarrow> string" where
  "strip s = rev (dropWhile is_space (rev (dropWhile is_space s)))"

text \<open>Digits, single underscores allowed between two of them; \<open>need\<close> when a digit must follow.\<close>

fun digits :: "bool \<Rightarrow> nat \<Rightarrow> string \<Rightarrow> nat option" where
  "digits need acc [] = (if need then None else Some acc)"
| "digits need acc (c # cs) =
    (if is_digit c then digits False (10 * acc + (of_char c - 48)) cs
     else if c = CHR ''_'' \<and> \<not> need then digits True acc cs
     else None)"

text \<open>\<^verbatim>\<open>int(s)\<close>, with the interpreter's limit of 4300 digits; \<open>None\<close> is \<^verbatim>\<open>ValueError\<close>.\<close>

definition py_int :: "string \<Rightarrow> int option" where
  "py_int s =
    (let t = strip s in
     if length (filter is_digit t) > 4300 then None
     else case t of
        [] \<Rightarrow> None
      | c # cs \<Rightarrow>
          if c = CHR ''-'' then map_option (\<lambda>n. - int n) (digits True 0 cs)
          else if c = CHR ''+'' then map_option int (digits True 0 cs)
          else map_option int (digits True 0 t))"

section \<open>Splitting\<close>

function py_split :: "string \<Rightarrow> string \<Rightarrow> string list" where
  "py_split sep [] = [[]]"
| "py_split sep (c # cs) =
    (if take (length sep) (c # cs) = sep then [] # py_split sep (drop (length sep - 1) cs)
     else case py_split sep cs of [] \<Rightarrow> [[c]] | w # ws \<Rightarrow> (c # w) # ws)"
  by pat_completeness auto
termination by (relation "measure (\<lambda>(sep, s). length s)") auto

section \<open>Formatting\<close>

definition zpad :: "nat \<Rightarrow> string \<Rightarrow> string" where
  "zpad w s = replicate (w - length s) (CHR ''0'') @ s"

definition isoformat :: "date \<Rightarrow> string" where
  "isoformat d = zpad 4 (str_int (year_of d)) @ ''-'' @ zpad 2 (str_int (month_of d)) @ ''-'' @ zpad 2 (str_int (day_of d))"

definition str_4dp :: "decimal \<Rightarrow> string" where
  "str_4dp x =
    (let n = round_int ROUND_HALF_EVEN (x * 10000); m = nat \<bar>n\<bar>
     in (if x < 0 then ''-'' else []) @ str_nat (m div 10000) @ ''.'' @ zpad 4 (str_nat (m mod 10000)))"

section \<open>Printing and parsing\<close>

lemma digit_chars:
  "char_of (48 :: nat) = CHR ''0''" "char_of (49 :: nat) = CHR ''1''" "char_of (50 :: nat) = CHR ''2''"
  "char_of (51 :: nat) = CHR ''3''" "char_of (52 :: nat) = CHR ''4''" "char_of (53 :: nat) = CHR ''5''"
  "char_of (54 :: nat) = CHR ''6''" "char_of (55 :: nat) = CHR ''7''" "char_of (56 :: nat) = CHR ''8''"
  "char_of (57 :: nat) = CHR ''9''"
  by code_simp+

lemma str_nat_digits: "list_all is_digit (str_nat n)"
proof (induction n rule: str_nat.induct)
  case (1 n)
  have d: "is_digit (char_of (48 + k))" if "k < 10" for k :: nat
    using that by (simp add: is_digit_def)
  show ?case
  proof (cases "n < 10")
    case True
    then show ?thesis using d by (simp add: str_nat.simps)
  next
    case False
    then show ?thesis using 1 d by (subst str_nat.simps) simp
  qed
qed

lemma str_nat_nonempty [simp]: "str_nat n \<noteq> []"
  by (subst str_nat.simps) auto

lemma digits_append:
  "list_all is_digit xs \<Longrightarrow> digits need acc (xs @ ys) =
     (if xs = [] then digits need acc ys
      else digits False (foldl (\<lambda>a c. 10 * a + (of_char c - 48)) acc xs) ys)"
  by (induction xs arbitrary: need acc) auto

lemma str_nat_value: "foldl (\<lambda>a c. 10 * a + (of_char c - 48)) 0 (str_nat n) = n"
proof (induction n rule: str_nat.induct)
  case (1 n)
  show ?case
  proof (cases "n < 10")
    case True
    then show ?thesis by (simp add: str_nat.simps)
  next
    case False
    then show ?thesis using 1 by (subst str_nat.simps) simp
  qed
qed

lemma foldl_zeros: "foldl (\<lambda>a c. 10 * a + (of_char c - 48)) 0 (replicate k (CHR ''0'')) = (0 :: nat)"
  by (induction k) auto

lemma digits_zpad: "digits True 0 (zpad w (str_nat n)) = Some n"
proof -
  have "list_all is_digit (zpad w (str_nat n))"
    by (simp add: zpad_def str_nat_digits) (simp add: list_all_iff is_digit_def)
  from digits_append [OF this, of True 0 "[]"] show ?thesis
    by (simp add: zpad_def foldl_zeros str_nat_value)
qed

lemma length_str_nat: "n < 10 ^ Suc k \<Longrightarrow> length (str_nat n) \<le> Suc k"
proof (induction k arbitrary: n)
  case 0
  then show ?case by (simp add: str_nat.simps)
next
  case (Suc k)
  show ?case
  proof (cases "n < 10")
    case True
    then show ?thesis by (simp add: str_nat.simps)
  next
    case False
    have "n div 10 < 10 ^ Suc k" using Suc.prems by (simp add: less_mult_imp_div_less)
    then show ?thesis using Suc.IH [of "n div 10"] False by (subst str_nat.simps) simp
  qed
qed

lemma digit_not_special:
  "is_digit c \<Longrightarrow> \<not> is_space c" "is_digit c \<Longrightarrow> c \<noteq> CHR ''-''" "is_digit c \<Longrightarrow> c \<noteq> CHR ''+''" "is_digit c \<Longrightarrow> c \<noteq> CHR ''P''"
  by (auto simp: is_digit_def is_space_def Let_def)

lemma strip_digits:
  assumes "list_all is_digit s"
  shows "strip s = s"
proof -
  have "dropWhile is_space t = t" if "list_all is_digit t" for t
    using that digit_not_special(1) by (cases t) auto
  from this [OF assms] this [of "rev s"] assms show ?thesis by (simp add: strip_def list_all_iff)
qed

lemma zpad_digits: "list_all is_digit (zpad w (str_nat n))"
  by (simp add: zpad_def str_nat_digits) (simp add: list_all_iff is_digit_def)

lemma py_int_zpad:
  assumes "n < 10 ^ 100" "w \<le> 100"
  shows "py_int (zpad w (str_nat n)) = Some (int n)"
proof -
  let ?t = "zpad w (str_nat n)"
  note dg = zpad_digits [of w n]
  have "length (str_nat n) \<le> 100" using assms(1) length_str_nat [of n 99] by simp
  then have "length ?t \<le> 200" using assms(2) by (simp add: zpad_def)
  then have "\<not> length (filter is_digit ?t) > 4300" using length_filter_le [of is_digit ?t] by linarith
  moreover obtain c cs where t: "?t = c # cs" by (cases ?t) (auto simp: zpad_def)
  moreover have "is_digit c" using dg t by simp
  ultimately show ?thesis using digit_not_special(2,3) [of c] digits_zpad [of w n]
    unfolding py_int_def Let_def strip_digits [OF dg] by simp
qed

text \<open>Splitting at a separator whose first character the left part does not contain.\<close>

lemma py_split_here: "sep \<noteq> [] \<Longrightarrow> py_split sep (sep @ ys) = [] # py_split sep ys"
  by (cases sep) auto

lemma py_split_left:
  assumes "\<forall>c \<in> set xs. c \<noteq> a"
  shows "py_split (a # sep) (xs @ (a # sep) @ ys) = xs # py_split (a # sep) ys"
  using assms py_split_here [of "a # sep" ys] by (induction xs) auto

lemma py_split_none: "\<forall>c \<in> set xs. c \<noteq> a \<Longrightarrow> py_split (a # sep) xs = [xs]"
  by (induction xs) auto

end
