(* ===== verification/Fiscal.thy ===== *)
theory Fiscal
  imports PyStr Models
begin

text \<open>
  \<^verbatim>\<open>usali/fiscal.py\<close>: fiscal calendars (calendar months, or 4-4-5 weeks), period keys, and
  the period a day falls in.
\<close>

section \<open>Configuration\<close>

record FiscalConfig =
  calendar_type :: string
  fiscal_year_start_month :: int
  week_start_weekday :: "int option"

definition require_config :: "FiscalConfig option \<Rightarrow> FiscalConfig res" where
  "require_config config = (case config of None \<Rightarrow> Inl FiscalCalendarNotConfigured | Some c \<Rightarrow> Inr c)"

definition config_for :: "db \<Rightarrow> string \<Rightarrow> FiscalConfig option" where
  "config_for s property_id =
     map_option (\<lambda>row. \<lparr>calendar_type = fc_calendar_type row, fiscal_year_start_month = fc_fiscal_year_start_month row,
                        week_start_weekday = fc_week_start_weekday row\<rparr>)
       (find (\<lambda>r. fc_property_id r = property_id) (fiscal_calendars s))"

section \<open>Period keys\<close>

definition parse_key :: "string \<Rightarrow> (int \<times> int) res" where
  "parse_key period_key =
     (case py_split ''-P'' period_key of
        [year_str, period_str] \<Rightarrow>
          (case (py_int year_str, py_int period_str) of
             (Some fiscal_year, Some period) \<Rightarrow>
               if \<not> (1 \<le> period \<and> period \<le> 12) then Inl ValueError else Inr (fiscal_year, period)
           | _ \<Rightarrow> Inl ValueError)
      | _ \<Rightarrow> Inl ValueError)"

definition period_key_of :: "int \<Rightarrow> int \<Rightarrow> string" where
  "period_key_of fiscal_year period = str_int fiscal_year @ ''-P'' @ zpad 2 (str_int period)"

section \<open>Period bounds\<close>

definition add_months :: "date \<Rightarrow> int \<Rightarrow> date res" where
  "add_months d months =
    (let tot = month_of d - 1 + months;
         year = year_of d + tot div 12;
         month = tot mod 12 + 1
     in mk_date year month 1)"

definition month_period :: "FiscalConfig \<Rightarrow> int \<Rightarrow> int \<Rightarrow> (date \<times> date) res" where
  "month_period config fiscal_year period =
     bindE (mk_date fiscal_year (fiscal_year_start_month config) 1) (\<lambda>first.
     bindE (add_months first (period - 1)) (\<lambda>start.
     bindE (add_months start 1) (\<lambda>next_start.
       Inr (start, next_start - 1))))"

definition fy_anchor :: "FiscalConfig \<Rightarrow> int \<Rightarrow> date res" where
  "fy_anchor config fiscal_year =
     (case week_start_weekday config of
        None \<Rightarrow> Inl AssertionError
      | Some w \<Rightarrow>
          bindE (mk_date fiscal_year (fiscal_year_start_month config) 1) (\<lambda>first.
            let delta = (w - weekday first) mod 7 in Inr (first + delta)))"

definition WEEKS_445 :: "int list" where
  "WEEKS_445 = [4, 4, 5, 4, 4, 5, 4, 4, 5, 4, 4, 5]"

fun week_blocks :: "date \<Rightarrow> int list \<Rightarrow> (date \<times> date) list" where
  "week_blocks cursor [] = []"
| "week_blocks cursor (weeks # ws) =
    (let e = cursor + 7 * weeks - 1 in (cursor, e) # week_blocks (e + 1) ws)"

definition bounds_445 :: "FiscalConfig \<Rightarrow> int \<Rightarrow> (date \<times> date) list res" where
  "bounds_445 config fiscal_year =
     bindE (fy_anchor config fiscal_year) (\<lambda>anchor.
     bindE (fy_anchor config (fiscal_year + 1)) (\<lambda>next_anchor.
       let bounds = week_blocks anchor WEEKS_445
       in Inr (butlast bounds @ [(fst (last bounds), next_anchor - 1)])))"

definition resolve_period :: "FiscalConfig \<Rightarrow> string \<Rightarrow> (date \<times> date) res" where
  "resolve_period config period_key =
     bindE (parse_key period_key) (\<lambda>(fiscal_year, period).
       if calendar_type config = ''calendar_month'' then month_period config fiscal_year period
       else bindE (bounds_445 config fiscal_year) (\<lambda>bs. Inr (bs ! nat (period - 1))))"

definition periods_in_year :: "FiscalConfig \<Rightarrow> int \<Rightarrow> (string \<times> date \<times> date) list res" where
  "periods_in_year config fiscal_year =
     mapE (\<lambda>period. let key = period_key_of fiscal_year period
                     in map_sum id (Pair key) (resolve_period config key)) [1..12]"

lemma fy_anchor_year: "fy_anchor config y = Inr a \<Longrightarrow> 1 \<le> y \<and> y \<le> 9999"
  by (auto simp: fy_anchor_def mk_date_def inr split: option.splits if_splits)

text \<open>The search for the fiscal year walks down; \<^verbatim>\<open>date\<close> refuses year 0, so it ends.\<close>

function anchor_year :: "FiscalConfig \<Rightarrow> date \<Rightarrow> int \<Rightarrow> int res" where
  "anchor_year config on fiscal_year =
     (case fy_anchor config fiscal_year of
        Inl e \<Rightarrow> Inl e
      | Inr a \<Rightarrow> if a > on then anchor_year config on (fiscal_year - 1) else Inr fiscal_year)"
  by pat_completeness auto

termination
  by (relation "measure (\<lambda>(config, on, y). nat y)") (auto dest: fy_anchor_year)

declare anchor_year.simps [simp del]

definition fiscal_year_of :: "FiscalConfig \<Rightarrow> date \<Rightarrow> int res" where
  "fiscal_year_of config on =
     (if calendar_type config = ''calendar_month''
      then Inr (if month_of on \<ge> fiscal_year_start_month config then year_of on else year_of on - 1)
      else anchor_year config on (year_of on + 1))"

definition period_containing :: "FiscalConfig \<Rightarrow> date \<Rightarrow> string res" where
  "period_containing config on =
     bindE (fiscal_year_of config on) (\<lambda>fiscal_year.
     bindE (periods_in_year config fiscal_year) (\<lambda>ps.
       case find (\<lambda>(key, start, e). start \<le> on \<and> on \<le> e) ps of
         Some (key, _, _) \<Rightarrow> Inr key
       | None \<Rightarrow> Inl ValueError))"

section \<open>Keys print and parse\<close>

lemma parse_key_padded:
  assumes "0 \<le> y" "y \<le> 9999" "1 \<le> p" "p \<le> 12" "w \<le> 100"
  shows "parse_key (str_int y @ ''-P'' @ zpad w (str_int p)) = Inr (y, p)"
proof -
  let ?y = "zpad 0 (str_nat (nat y))" and ?p = "zpad w (str_nat (nat p))"
  have key: "str_int y @ ''-P'' @ zpad w (str_int p) = ?y @ (CHR ''-'' # ''P'') @ ?p"
    using assms by (simp add: str_int_def zpad_def)
  have no: "\<forall>c \<in> set ?y. c \<noteq> CHR ''-''" "\<forall>c \<in> set ?p. c \<noteq> CHR ''-''"
    using zpad_digits [of 0 "nat y"] zpad_digits [of w "nat p"] digit_not_special(2) by (auto simp: list_all_iff)
  have "py_split ''-P'' (str_int y @ ''-P'' @ zpad w (str_int p)) = [?y, ?p]"
    unfolding key py_split_left [OF no(1)] py_split_none [OF no(2)] ..
  moreover have "nat y < 10 ^ 100" "nat p < 10 ^ 100" using assms by simp_all
  ultimately show ?thesis using assms by (simp add: parse_key_def py_int_zpad)
qed

lemma parse_key_of:
  assumes "0 \<le> y" "y \<le> 9999" "1 \<le> p" "p \<le> 12"
  shows "parse_key (period_key_of y p) = Inr (y, p)"
  unfolding period_key_of_def using assms by (intro parse_key_padded) simp_all

section \<open>Where a fiscal year starts\<close>

text \<open>The constraints of the \<^verbatim>\<open>fiscal_calendar\<close> table.\<close>

definition config_ok :: "FiscalConfig \<Rightarrow> bool" where
  "config_ok config \<longleftrightarrow>
     calendar_type config \<in> {''calendar_month'', ''445''}
   \<and> 1 \<le> fiscal_year_start_month config \<and> fiscal_year_start_month config \<le> 12
   \<and> (calendar_type config = ''445'' \<longleftrightarrow> week_start_weekday config \<noteq> None)
   \<and> (case week_start_weekday config of None \<Rightarrow> True | Some w \<Rightarrow> 0 \<le> w \<and> w \<le> 6)"

definition year_start :: "FiscalConfig \<Rightarrow> int \<Rightarrow> date" where
  "year_start config y =
    (let first = ymd2ord y (fiscal_year_start_month config) 1
     in case week_start_weekday config of None \<Rightarrow> first | Some w \<Rightarrow> first + (w - weekday first) mod 7)"

text \<open>The \<open>p\<close>-th period of a fiscal year, \<open>0 \<le> p \<le> 12\<close>; the thirteenth start is the next year's first.\<close>

definition period_start :: "FiscalConfig \<Rightarrow> int \<Rightarrow> nat \<Rightarrow> date" where
  "period_start config y p =
    (if calendar_type config = ''calendar_month''
     then let m = fiscal_year_start_month config - 1 + int p in ymd2ord (y + m div 12) (m mod 12 + 1) 1
     else if p = 12 then year_start config (y + 1)
     else year_start config y + 7 * sum_list (take p WEEKS_445))"

lemma first_valid [simp]: "1 \<le> m \<Longrightarrow> m \<le> 12 \<Longrightarrow> valid_ymd y m 1"
  by (auto simp: valid_ymd_def days_in_month_def)

lemma next_month_start:
  assumes "1 \<le> m" "m \<le> 12"
  shows "ymd2ord (y + m div 12) (m mod 12 + 1) 1 = ymd2ord y m 1 + days_in_month y m"
  using month_cases [OF assms]
  by (cases "is_leap y"; elim insertE emptyE) (simp_all add: ymd2ord_def month_simps)

lemma days_in_month_pos: "28 \<le> days_in_month y m"
  by (simp add: days_in_month_def)

lemma days_before_month_bounds: "0 \<le> days_before_month y m" "days_before_month y m \<le> 335"
  by (simp_all add: days_before_month_def Let_def)

lemma days_before_month_leap: "\<bar>days_before_month y m - days_before_month z m\<bar> \<le> 1"
  by (simp add: days_before_month_def Let_def)

lemma days_before_month_step:
  assumes "1 \<le> m" "m < k" "k \<le> 12"
  shows "days_before_month y m + days_in_month y m \<le> days_before_month y k"
proof -
  have "m \<in> {1, 2, 3, 4, 5, 6, 7, 8, 9, 10, 11, 12}" using assms by (intro month_cases) auto
  then show ?thesis using assms(2,3)
    by (elim insertE emptyE) (simp_all add: month_simps)
qed

lemma mk_date_ok: "1 \<le> y \<Longrightarrow> y \<le> 9999 \<Longrightarrow> 1 \<le> m \<Longrightarrow> m \<le> 12 \<Longrightarrow> mk_date y m 1 = Inr (ymd2ord y m 1)"
  by (simp add: mk_date_def)

lemma add_months_first:
  assumes "0 \<le> k" "1 \<le> y + k div 12" "y + k div 12 \<le> 9999" "1 \<le> m" "m \<le> 12" "k = m - 1 + n"
  shows "add_months (ymd2ord y m 1) n = Inr (ymd2ord (y + k div 12) (k mod 12 + 1) 1)"
proof -
  have "0 \<le> k mod 12" "k mod 12 < 12" by simp_all
  with assms show ?thesis
    by (simp add: add_months_def ymd_roundtrip mk_date_ok Let_def)
qed

lemma month_carry: "(k + 1) div 12 = k div 12 + (k mod 12 + 1) div (12 :: int)"
proof -
  have "k + 1 = (k mod 12 + 1) + 12 * (k div 12)" by simp
  then have "(k + 1) div 12 = ((k mod 12 + 1) + 12 * (k div 12)) div 12" by (simp only:)
  also have "\<dots> = k div 12 + (k mod 12 + 1) div 12" by (rule div_mult_self2) simp
  finally show ?thesis .
qed

lemma resolve_month:
  assumes "config_ok config" "calendar_type config = ''calendar_month''" "1 \<le> y" "y \<le> 9998" "1 \<le> p" "p \<le> 12"
  shows "month_period config y p = Inr (period_start config y (nat (p - 1)), period_start config y (nat p) - 1)"
proof -
  let ?sm = "fiscal_year_start_month config"
  have sm: "1 \<le> ?sm" "?sm \<le> 12" using assms(1) by (simp_all add: config_ok_def)
  define k where "k = ?sm - 1 + (p - 1)"
  have k: "0 \<le> k" "k < 23" using sm assms(5,6) by (simp_all add: k_def)
  then have kd: "0 \<le> k div 12" "k div 12 \<le> 1" "0 \<le> (k + 1) div 12" "(k + 1) div 12 \<le> 1" by simp_all
  have m: "0 \<le> k mod 12" "k mod 12 < 12" by simp_all
  have kk: "y + k div 12 + (k mod 12 + 1) div 12 = y + (k + 1) div 12" "(k mod 12 + 1) mod 12 = (k + 1) mod 12"
    using month_carry [of k] by (simp_all add: mod_add_left_eq)
  have 1: "add_months (ymd2ord y ?sm 1) (p - 1) = Inr (ymd2ord (y + k div 12) (k mod 12 + 1) 1)"
    using k kd sm assms by (intro add_months_first) (auto simp: k_def)
  have 2: "add_months (ymd2ord (y + k div 12) (k mod 12 + 1) 1) 1 = Inr (ymd2ord (y + (k + 1) div 12) ((k + 1) mod 12 + 1) 1)"
    using add_months_first [of "k mod 12 + 1" "y + k div 12" "k mod 12 + 1" 1] kd m assms(3,4) by (simp add: kk)
  have "?sm - 1 + int (nat (p - 1)) = k" "?sm - 1 + int (nat p) = k + 1" using assms(5) by (simp_all add: k_def)
  then have "period_start config y (nat (p - 1)) = ymd2ord (y + k div 12) (k mod 12 + 1) 1"
    "period_start config y (nat p) = ymd2ord (y + (k + 1) div 12) ((k + 1) mod 12 + 1) 1"
    unfolding period_start_def Let_def by (simp_all only: assms(2) simp_thms if_True)
  with 1 2 sm assms show ?thesis
    by (simp add: month_period_def mk_date_ok)
qed

lemma fy_anchor_start:
  assumes "config_ok config" "calendar_type config \<noteq> ''calendar_month''" "1 \<le> y" "y \<le> 9999"
  shows "fy_anchor config y = Inr (year_start config y)"
  using assms by (auto simp: config_ok_def fy_anchor_def year_start_def mk_date_ok Let_def)

lemma resolve_445:
  assumes "config_ok config" "calendar_type config \<noteq> ''calendar_month''" "1 \<le> y" "y \<le> 9998" "1 \<le> p" "p \<le> 12"
  shows "bindE (bounds_445 config y) (\<lambda>bs. Inr (bs ! nat (p - 1))) =
    Inr (period_start config y (nat (p - 1)), period_start config y (nat p) - 1)"
proof -
  have a: "fy_anchor config y = Inr (year_start config y)" "fy_anchor config (y + 1) = Inr (year_start config (y + 1))"
    using assms by (auto intro!: fy_anchor_start)
  show ?thesis using month_cases [OF assms(5,6)] assms(2)
    by (elim insertE emptyE) (simp_all add: bounds_445_def a WEEKS_445_def period_start_def Let_def)
qed

lemma resolve_period_start:
  assumes "config_ok config" "1 \<le> y" "y \<le> 9998" "1 \<le> p" "p \<le> 12"
  shows "resolve_period config (period_key_of y p) = Inr (period_start config y (nat (p - 1)), period_start config y (nat p) - 1)"
  using resolve_month [OF assms(1) _ assms(2-5)] resolve_445 [OF assms(1) _ assms(2-5)] parse_key_of [of y p] assms
  by (simp add: resolve_period_def)

lemma periods_in_year_eq:
  assumes "config_ok config" "1 \<le> y" "y \<le> 9998"
  shows "periods_in_year config y = Inr (map (\<lambda>p. (period_key_of y p, period_start config y (nat (p - 1)),
    period_start config y (nat p) - 1)) [1..12])"
  unfolding periods_in_year_def Let_def using assms
  by (intro mapE_Inr_map) (simp add: resolve_period_start)

section \<open>Starts increase\<close>

lemma first_gap:
  "ymd2ord y m 1 + 364 \<le> ymd2ord (y + 1) m 1"
  using days_before_month_leap [of y m "y + 1"] days_before_year_Suc [of y] by (auto simp: ymd2ord_def)

lemma year_start_bounds:
  "ymd2ord y (fiscal_year_start_month config) 1 \<le> year_start config y"
  "year_start config y \<le> ymd2ord y (fiscal_year_start_month config) 1 + 6"
proof -
  have "0 \<le> x mod 7 \<and> x mod 7 \<le> 6" for x :: int using pos_mod_bound [of 7 x] by simp
  then show "ymd2ord y (fiscal_year_start_month config) 1 \<le> year_start config y"
    "year_start config y \<le> ymd2ord y (fiscal_year_start_month config) 1 + 6"
    by (auto simp: year_start_def Let_def split: option.split)
qed

lemma period_start_less:
  assumes "config_ok config" "p < 12"
  shows "period_start config y p < period_start config y (Suc p)"
proof (cases "calendar_type config = ''calendar_month''")
  case True
  define k where "k = fiscal_year_start_month config - 1 + int p"
  have m: "0 \<le> k mod 12" "k mod 12 < 12" by simp_all
  have kk: "y + k div 12 + (k mod 12 + 1) div 12 = y + (k + 1) div 12" "(k mod 12 + 1) mod 12 = (k + 1) mod 12"
    using month_carry [of k] by (simp_all add: mod_add_left_eq)
  have "ymd2ord (y + (k + 1) div 12) ((k + 1) mod 12 + 1) 1 =
      ymd2ord (y + k div 12) (k mod 12 + 1) 1 + days_in_month (y + k div 12) (k mod 12 + 1)"
    using next_month_start [of "k mod 12 + 1" "y + k div 12"] m by (simp add: kk)
  moreover have "fiscal_year_start_month config - 1 + int (Suc p) = k + 1" by (simp add: k_def)
  ultimately show ?thesis
    using True days_in_month_pos [of "y + k div 12" "k mod 12 + 1"]
    by (simp add: period_start_def Let_def flip: k_def)
next
  case False
  let ?W = "\<lambda>p. sum_list (take p WEEKS_445)"
  have "p \<in> set [0..<12]" using assms(2) by simp
  then have W: "?W p < ?W (Suc p)" "?W p \<le> 47"
    by (auto simp: upt_rec WEEKS_445_def)
  show ?thesis
  proof (cases "p = 11")
    case True
    have "year_start config y + 7 * 47 < year_start config (y + 1)"
      using year_start_bounds [where config = config] first_gap [of y "fiscal_year_start_month config"] by smt
    with W False True show ?thesis by (simp add: period_start_def)
  next
    case p: False
    with W False assms(2) show ?thesis by (simp add: period_start_def)
  qed
qed

lemma period_start_mono:
  assumes "config_ok config" "p \<le> q" "q \<le> 12"
  shows "period_start config y p \<le> period_start config y q"
  using assms(2,3)
proof (induction q rule: dec_induct)
  case (step q)
  then show ?case using period_start_less [OF assms(1), of q y] by simp
qed simp

lemma year_starts:
  assumes "config_ok config"
  shows "period_start config y 0 = year_start config y" "period_start config y 12 = year_start config (y + 1)"
proof -
  let ?m = "fiscal_year_start_month config - 1"
  have m: "0 \<le> ?m" "?m < 12" using assms by (simp_all add: config_ok_def)
  have "m div 12 = 0 \<and> m mod 12 = m \<and> (m + 12) div 12 = 1 \<and> (m + 12) mod 12 = m" if "0 \<le> m" "m < 12" for m :: int
    using that by simp
  note m = this [OF m]
  have "week_start_weekday config = None" if "calendar_type config = ''calendar_month''"
    using assms that by (simp add: config_ok_def)
  with m show "period_start config y 0 = year_start config y" "period_start config y 12 = year_start config (y + 1)"
    by (simp_all only: period_start_def year_start_def Let_def of_nat_0 of_nat_numeral add_0_right if_True take_0 sum_list.Nil mult_zero_right
        split: if_split option.split) auto
qed

lemma year_start_step: "config_ok config \<Longrightarrow> year_start config y < year_start config (y + 1)"
  using period_start_less [of config 0 y] period_start_mono [of config 1 12 y] year_starts [of config y] by simp

lemma year_start_less:
  assumes "config_ok config" "y < z"
  shows "year_start config y < year_start config z"
  using assms(2)
proof (induction z rule: int_gr_induct)
  case base
  then show ?case by (rule year_start_step [OF assms(1)])
next
  case (step z)
  then show ?case using year_start_step [OF assms(1), of z] by simp
qed

section \<open>The period of a day\<close>

definition in_period :: "FiscalConfig \<Rightarrow> int \<Rightarrow> nat \<Rightarrow> date \<Rightarrow> bool" where
  "in_period config y p d \<longleftrightarrow> p < 12 \<and> period_start config y p \<le> d \<and> d < period_start config y (Suc p)"

lemma in_period_year:
  assumes "config_ok config" "in_period config y p d"
  shows "year_start config y \<le> d" "d < year_start config (y + 1)"
  using assms(2) period_start_mono [OF assms(1), of 0 p y] period_start_mono [OF assms(1), of "Suc p" 12 y]
  by (auto simp: in_period_def year_starts [OF assms(1)])

lemma in_period_unique:
  assumes "config_ok config" "in_period config y p d" "in_period config z q d"
  shows "y = z \<and> p = q"
proof -
  note y = in_period_year [OF assms(1,2)] and z = in_period_year [OF assms(1,3)]
  have "\<not> y < z" "\<not> z < y"
    using year_start_less [OF assms(1), of "y + 1" z] year_start_less [OF assms(1), of "z + 1" y] y z
    by (force simp: order_less_le)+
  then have yz: "y = z" by simp
  have "\<not> p < q" "\<not> q < p"
    using assms(2,3) period_start_mono [OF assms(1), of "Suc p" q z] period_start_mono [OF assms(1), of "Suc q" p z]
    by (auto simp: in_period_def yz)
  with yz show ?thesis by simp
qed

lemma in_period_exists:
  assumes "config_ok config" "year_start config y \<le> d" "d < year_start config (y + 1)"
  shows "\<exists>p. in_period config y p d"
proof -
  let ?P = "\<lambda>p. d < period_start config y p"
  have "?P 12" using assms(3) year_starts(2) [OF assms(1)] by simp
  moreover have "\<not> ?P 0" using assms(2) year_starts(1) [OF assms(1)] by simp
  ultimately obtain p where "p < 12" "\<not> ?P p" "?P (Suc p)"
    using ex_least_nat_less [of ?P 12] by blast
  then show ?thesis by (auto simp: in_period_def)
qed

text \<open>The fiscal year found is the one whose span contains the day.\<close>

lemma year_span:
  "days_before_year (year_of d) + days_before_month (year_of d) (month_of d) < d"
  "d \<le> days_before_year (year_of d) + days_before_month (year_of d) (month_of d) + days_in_month (year_of d) (month_of d)"
  "1 \<le> month_of d" "month_of d \<le> 12"
  using valid_ymd_of [of d] by (auto simp: valid_ymd_def day_of_def)

lemma fiscal_year_of_month:
  assumes "config_ok config" "calendar_type config = ''calendar_month''"
  shows "\<exists>y. fiscal_year_of config d = Inr y \<and> year_start config y \<le> d \<and> d < year_start config (y + 1) \<and> y \<in> {year_of d - 1, year_of d}"
proof -
  let ?sm = "fiscal_year_start_month config" and ?y = "year_of d" and ?m = "month_of d"
  have sm: "1 \<le> ?sm" "?sm \<le> 12" "week_start_weekday config = None" using assms by (auto simp: config_ok_def)
  have ys: "year_start config y = days_before_year y + days_before_month y ?sm + 1" for y
    by (simp add: year_start_def sm(3) ymd2ord_def)
  note d = year_span [of d] and yb = year_of_bounds [of d]
  note Suc1 = days_before_year_Suc [of "?y - 1", simplified]
  show ?thesis
  proof (cases "?m \<ge> ?sm")
    case True
    have "days_before_month ?y ?sm \<le> days_before_month ?y ?m"
      using days_before_month_step [of ?sm ?m ?y] sm d True days_in_month_pos [of ?y ?sm] by (cases "?sm = ?m") auto
    with d yb True assms(2) days_before_month_bounds [of "?y + 1" ?sm] show ?thesis
      by (auto simp: fiscal_year_of_def ys)
  next
    case False
    have "days_before_month ?y ?m + days_in_month ?y ?m \<le> days_before_month ?y ?sm"
      using False d sm by (intro days_before_month_step) auto
    with d yb False assms(2) Suc1 days_before_month_bounds [of "?y - 1" ?sm] show ?thesis
      by (auto simp: fiscal_year_of_def ys split: if_splits)
  qed
qed

lemma fiscal_year_of_445:
  assumes "config_ok config" "calendar_type config \<noteq> ''calendar_month''" "2 \<le> year_of d" "year_of d \<le> 9998"
  shows "\<exists>y. fiscal_year_of config d = Inr y \<and> year_start config y \<le> d \<and> d < year_start config (y + 1) \<and> y \<in> {year_of d - 1, year_of d}"
proof -
  let ?sm = "fiscal_year_start_month config" and ?y = "year_of d"
  have a: "fy_anchor config y = Inr (year_start config y)" if "1 \<le> y" "y \<le> 9999" for y
    using that assms(1,2) by (intro fy_anchor_start)
  note yb = year_of_bounds [of d]
  note Suc1 = days_before_year_Suc [of "?y - 1", simplified]
  have up: "d < year_start config (?y + 1)"
    using year_start_bounds(1) [of "?y + 1" config] yb days_before_month_bounds [of "?y + 1" ?sm] by (simp add: ymd2ord_def)
  have lo: "year_start config (?y - 1) \<le> d"
    using year_start_bounds(2) [where y = "?y - 1" and config = config] yb days_before_month_bounds [of "?y - 1" ?sm] Suc1
    by (simp add: ymd2ord_def split: if_splits)
  have step: "anchor_year config d y = (if year_start config y > d then anchor_year config d (y - 1) else Inr y)"
    if "1 \<le> y" "y \<le> 9999" for y
    by (subst anchor_year.simps) (simp add: a that)
  show ?thesis
    using assms(2-4) up lo by (auto simp: fiscal_year_of_def step)
qed

lemma fiscal_year_of_ok:
  assumes "config_ok config" "2 \<le> year_of d" "year_of d \<le> 9998"
  shows "\<exists>y. fiscal_year_of config d = Inr y \<and> year_start config y \<le> d \<and> d < year_start config (y + 1) \<and> y \<in> {year_of d - 1, year_of d}"
  using fiscal_year_of_month fiscal_year_of_445 assms by blast

lemma period_containing_ok:
  assumes "config_ok config" "2 \<le> year_of d" "year_of d \<le> 9998"
  shows "\<exists>y p. period_containing config d = Inr (period_key_of y (int p + 1)) \<and> in_period config y p d \<and> 1 \<le> y \<and> y \<le> 9998"
proof -
  from fiscal_year_of_ok [OF assms] obtain y where y: "fiscal_year_of config d = Inr y" "year_start config y \<le> d"
    "d < year_start config (y + 1)" "y \<in> {year_of d - 1, year_of d}" by blast
  have y1: "1 \<le> y" "y \<le> 9998" using y(4) assms(2,3) by auto
  define ns where "ns = [1..(12 :: int)]"
  have ns: "k \<in> set ns \<longleftrightarrow> 1 \<le> k \<and> k \<le> 12" for k unfolding ns_def by (simp del: upto_rec_numeral)
  let ?ps = "map (\<lambda>p. (period_key_of y p, period_start config y (nat (p - 1)), period_start config y (nat p) - 1)) ns"
  let ?in = "\<lambda>(key :: string, start, e). start \<le> d \<and> d \<le> e"
  from in_period_exists [OF assms(1) y(2,3)] obtain p where p: "in_period config y p d" by blast
  then have "int p + 1 \<in> set ns" by (auto simp: in_period_def ns)
  then have "(period_key_of y (int p + 1), period_start config y p, period_start config y (Suc p) - 1) \<in> set ?ps"
    by (auto simp: nat_add_distrib intro: rev_image_eqI)
  moreover have "?in (period_key_of y (int p + 1), period_start config y p, period_start config y (Suc p) - 1)"
    using p by (simp add: in_period_def)
  ultimately have "find ?in ?ps \<noteq> None" unfolding find_None_iff by blast
  then obtain k a b where f: "find ?in ?ps = Some (k, a, b)" by (cases "find ?in ?ps") auto
  then obtain q where q: "k = period_key_of y q" "1 \<le> q" "q \<le> 12" "period_start config y (nat (q - 1)) \<le> d" "d < period_start config y (nat q)"
    using find_SomeD [OF f] by (auto simp: ns)
  have "in_period config y (nat (q - 1)) d" using q by (simp add: in_period_def Suc_nat_eq_nat_zadd1)
  then have "nat (q - 1) = p" using in_period_unique [OF assms(1) p] by blast
  then have "q = int p + 1" using q(2) by simp
  then have "period_containing config d = Inr (period_key_of y (int p + 1))"
    using f q(1) by (simp add: period_containing_def y(1) periods_in_year_eq [OF assms(1) y1, folded ns_def])
  then show ?thesis using p y1 by blast
qed

section \<open>Properties\<close>

text \<open>
   Period keys round-trip: the key printed for a fiscal year and period is parsed back
  to that year and period.
\<close>

theorem period_key_roundtrip:
  assumes "0 \<le> y" "y \<le> 9999" "1 \<le> p" "p \<le> 12"
  shows "parse_key (period_key_of y p) = Inr (y, p)"
  using assms by (rule parse_key_of)

theorem period_key_roundtrip_witness:
  "period_key_of 2026 3 = ''2026-P03'' \<and> parse_key (period_key_of 2026 3) = Inr (2026, 3)"
  using period_key_roundtrip [of 2026 3] by (simp add: period_key_of_def str_int_def str_nat.simps zpad_def digit_chars)

text \<open>
  C34.  The periods tile the fiscal year: a year has twelve periods in key order, each
  non-empty, each starting the day after the one before it ends, the first on the year's
  first day and the last ending the day before the next year's first day (so a 53rd week
  falls into the last period and no day is in two periods or none).
\<close>

theorem fiscal_periods_tile:
  assumes "config_ok config" "1 \<le> y" "y \<le> 9998"
  shows "\<exists>ps. periods_in_year config y = Inr ps \<and> map fst ps = map (period_key_of y) [1..12]
    \<and> list_all (\<lambda>(key, start, e). start \<le> e) ps
    \<and> list_all (\<lambda>i. fst (snd (ps ! Suc i)) = snd (snd (ps ! i)) + 1) [0..<11]
    \<and> fst (snd (ps ! 0)) = year_start config y \<and> snd (snd (ps ! 11)) + 1 = year_start config (y + 1)"
proof -
  define ns where "ns = [1..(12 :: int)]"
  have ns: "length ns = 12" "i < 12 \<Longrightarrow> ns ! i = int i + 1" "k \<in> set ns \<longleftrightarrow> 1 \<le> k \<and> k \<le> 12" for i k
    unfolding ns_def by (simp_all add: nth_upto del: upto_rec_numeral)
  let ?ps = "map (\<lambda>p. (period_key_of y p, period_start config y (nat (p - 1)), period_start config y (nat p) - 1)) ns"
  have at: "?ps ! i = (period_key_of y (int i + 1), period_start config y i, period_start config y (Suc i) - 1)" if "i < 12" for i
    using that by (simp add: ns nat_add_distrib)
  have "list_all (\<lambda>(key, start, e). start \<le> e) ?ps"
  proof -
    have "period_start config y (nat (p - 1)) < period_start config y (nat p)" if "1 \<le> p" "p \<le> 12" for p
      using period_start_less [OF assms(1), of "nat (p - 1)" y] that by (simp add: Suc_nat_eq_nat_zadd1)
    then show ?thesis by (auto simp: list_all_iff ns)
  qed
  moreover have "list_all (\<lambda>i. fst (snd (?ps ! Suc i)) = snd (snd (?ps ! i)) + 1) [0..<11]"
    unfolding list_all_iff by (simp add: at del: nth_map upt_rec_numeral)
  moreover have "fst (snd (?ps ! 0)) = year_start config y" "snd (snd (?ps ! 11)) + 1 = year_start config (y + 1)"
    using year_starts [OF assms(1), of y] by (simp_all add: at numeral_eq_Suc del: nth_map)
  ultimately show ?thesis
    using periods_in_year_eq [OF assms] unfolding ns_def [symmetric] by (intro exI [of _ ?ps]) (simp add: comp_def)
qed

definition example_445 :: FiscalConfig where
  "example_445 = \<lparr>calendar_type = ''445'', fiscal_year_start_month = 1, week_start_weekday = Some 6\<rparr>"

theorem fiscal_periods_tile_witness:
  "config_ok example_445 \<and> (\<exists>ps. periods_in_year example_445 2023 = Inr ps
     \<and> snd (snd (ps ! 11)) + 1 = year_start example_445 2024)"
proof -
  have ok: "config_ok example_445" by (simp add: config_ok_def example_445_def)
  show ?thesis using ok fiscal_periods_tile [OF ok, of 2023] by auto
qed

text \<open>
  C35.  Every day of the years 2 to 9998 has its fiscal period, and only one: the search for
  the fiscal year ends, the lookup returns a key, that key resolves to bounds containing
  the day, and no other key's bounds contain it.
\<close>

theorem period_containing_inverse:
  assumes "config_ok config" "2 \<le> year_of d" "year_of d \<le> 9998"
  shows "\<exists>y p a b. 1 \<le> p \<and> p \<le> 12 \<and> period_containing config d = Inr (period_key_of y p)
    \<and> resolve_period config (period_key_of y p) = Inr (a, b) \<and> a \<le> d \<and> d \<le> b
    \<and> (\<forall>z q a' b'. 1 \<le> z \<and> z \<le> 9998 \<and> 1 \<le> q \<and> q \<le> 12 \<and> resolve_period config (period_key_of z q) = Inr (a', b')
          \<and> a' \<le> d \<and> d \<le> b' \<longrightarrow> z = y \<and> q = p)"
proof -
  obtain y p where yp: "period_containing config d = Inr (period_key_of y (int p + 1))" "in_period config y p d" "1 \<le> y" "y \<le> 9998"
    using period_containing_ok [OF assms] by blast
  have r: "resolve_period config (period_key_of z q) = Inr (period_start config z (nat (q - 1)), period_start config z (nat q) - 1)"
    if "1 \<le> z" "z \<le> 9998" "1 \<le> q" "q \<le> 12" for z q using that by (rule resolve_period_start [OF assms(1)])
  have "z = y \<and> q = int p + 1"
    if z: "1 \<le> z" "z \<le> 9998" "1 \<le> q" "q \<le> 12" "resolve_period config (period_key_of z q) = Inr (a', b')" "a' \<le> d" "d \<le> b'" for z q a' b'
  proof -
    have "in_period config z (nat (q - 1)) d" using z r [OF z(1-4)] by (simp add: in_period_def Suc_nat_eq_nat_zadd1)
    from in_period_unique [OF assms(1) this yp(2)] z(3) show ?thesis by auto
  qed
  moreover have "resolve_period config (period_key_of y (int p + 1)) = Inr (period_start config y p, period_start config y (Suc p) - 1)"
    using r [OF yp(3,4), of "int p + 1"] yp(2) by (simp add: in_period_def nat_add_distrib)
  ultimately show ?thesis using yp(1,2) unfolding in_period_def
    by (intro exI [of _ y] exI [of _ "int p + 1"] exI [of _ "period_start config y p"] exI [of _ "period_start config y (Suc p) - 1"]) auto
qed

theorem period_containing_inverse_witness:
  "\<exists>key a b. period_containing example_445 738000 = Inr key \<and> resolve_period example_445 key = Inr (a, b) \<and> a \<le> 738000 \<and> 738000 \<le> b"
proof -
  have ok: "config_ok example_445" by (simp add: config_ok_def example_445_def)
  have "year_of 738000 = 2021" by (simp add: year_of_def days_before_year_def)
  then show ?thesis using period_containing_inverse [OF ok, of 738000] by auto
qed

end
