(* ===== verification/GlPlan.thy ===== *)
theory GlPlan
  imports Fiscal
begin

text \<open>
  The first half of \<^verbatim>\<open>usali/gl_posting.py\<close>: the chart lookups, and the two sources that build
  a balanced journal-entry plan from the day's facts.  \<open>sha256\<close> stands for
  \<^verbatim>\<open>hashlib.sha256(...).hexdigest()\<close> and is an argument of every definition that hashes;
  nothing is assumed of it.  An exception carries its structured arguments, not its text.
\<close>

section \<open>Lines and plans\<close>

record JeLine =
  jn_gl_account_code :: string
  jn_account_name :: string
  jn_posting :: posting
  jn_amount :: decimal
  jn_memo :: string
  jn_fact_id :: "int option"

record JePlan =
  jp_property_id :: string
  jp_business_date :: date
  jp_lines :: "JeLine list"
  jp_total_debits :: decimal
  jp_total_credits :: decimal
  jp_request_hash :: string

definition has_active_chart :: "db \<Rightarrow> bool" where
  "has_active_chart s \<longleftrightarrow> list_ex ga_is_active (gl_accounts s)"

definition chart :: "db \<Rightarrow> (string, GlAccount) dict" where
  "chart s = fold (\<lambda>row. AList.update (ga_account_code row) row) (filter ga_is_active (gl_accounts s)) []"

definition role_account :: "db \<Rightarrow> string \<Rightarrow> GlAccount res" where
  "role_account s role =
     (case find (\<lambda>a. ga_system_role a = Some role \<and> ga_is_active a) (gl_accounts s) of
        None \<Rightarrow> Inl (SystemRoleMissingError role) | Some row \<Rightarrow> Inr row)"

definition group_by_gl :: "UsaliFinancialFact list \<Rightarrow> (string, decimal) dict res" where
  "group_by_gl facts =
     foldE (\<lambda>f acc. bindE (require_not_none (ff_gl_account_code f)) (\<lambda>code.
       Inr (dict_add code (ff_amount f) acc))) facts []"

definition side_total :: "posting \<Rightarrow> JeLine list \<Rightarrow> decimal" where
  "side_total side ls = sum_list (map jn_amount (filter (\<lambda>l. jn_posting l = side) ls))"

fun posting_str :: "posting \<Rightarrow> string" where
  "posting_str Debit = ''Debit''"
| "posting_str Credit = ''Credit''"

text \<open>The canonical text whose digest is the plan's hash.\<close>

definition canonical :: "string \<Rightarrow> date \<Rightarrow> JeLine list \<Rightarrow> string res" where
  "canonical property_id on ls =
     bindE (mapE (\<lambda>l. bindE (quantize (jn_amount l) (1 / 10000) ROUND_HALF_EVEN) (\<lambda>q.
              Inr (jn_gl_account_code l, posting_str (jn_posting l), str_4dp q))) ls) (\<lambda>rows.
       Inr (property_id @ ''|'' @ isoformat on @
         concat (map (\<lambda>(account, p, amount). CHR 0x0A # account @ ''|'' @ p @ ''|'' @ amount) (sort rows))))"

definition finish_plan :: "(string \<Rightarrow> string) \<Rightarrow> string \<Rightarrow> date \<Rightarrow> JeLine list \<Rightarrow> JePlan res" where
  "finish_plan sha256 property_id on ls =
    (let total_credits = side_total Credit ls; total_debits = side_total Debit ls in
     if total_debits \<noteq> total_credits then Inl ValueError
     else bindE (canonical property_id on ls) (\<lambda>text.
       Inr \<lparr>jp_property_id = property_id, jp_business_date = on, jp_lines = ls, jp_total_debits = total_debits,
            jp_total_credits = total_credits, jp_request_hash = sha256 text\<rparr>))"

section \<open>The \<open>pms_daily\<close> source\<close>

definition TAXES_MAJOR :: string where "TAXES_MAJOR = ''Taxes (Pass-Through)''"

definition SETTLEMENTS_MAJOR :: string where "SETTLEMENTS_MAJOR = ''Settlements''"

definition emit_line :: "(string, string) dict \<Rightarrow> UsaliFinancialFact list \<Rightarrow> string \<Rightarrow> string \<times> decimal \<Rightarrow> JeLine option" where
  "emit_line names bucket memo = (\<lambda>(gl, net).
     if net = 0 then None
     else case map_of names gl of
        None \<Rightarrow> None
      | Some name \<Rightarrow>
          let group = filter (\<lambda>f. ff_gl_account_code f = Some gl) bucket in
          Some \<lparr>jn_gl_account_code = gl, jn_account_name = name, jn_posting = (if net > 0 then Credit else Debit),
                jn_amount = \<bar>net\<bar>, jn_memo = memo,
                jn_fact_id = (case group of [f] \<Rightarrow> Some (ff_fact_id f) | _ \<Rightarrow> None)\<rparr>)"

text \<open>One bucket: the lines it emits and the accounts missing from the chart.\<close>

definition emit :: "(string, string) dict \<Rightarrow> UsaliFinancialFact list \<Rightarrow> string \<Rightarrow> (JeLine list \<times> string list) res" where
  "emit names bucket memo =
     bindE (group_by_gl bucket) (\<lambda>acc.
       Inr (List.map_filter (emit_line names bucket memo) (sort_key fst acc),
            map fst (filter (\<lambda>(gl, net). net \<noteq> 0 \<and> map_of names gl = None) (sort_key fst acc))))"

definition unmapped_lines :: "UsaliFinancialFact list \<Rightarrow> (string \<times> string \<times> string) list" where
  "unmapped_lines facts =
     sort (remdups (map (\<lambda>f. (ff_usali_major_category f, ff_usali_sub_category f, ff_usali_line_item f))
       (filter (\<lambda>f. ff_gl_account_code f = None) facts)))"

text \<open>The account of the balancing line: the caller's constant on the YAML path, the role otherwise.\<close>

definition balancing_line ::
  "db \<Rightarrow> date \<Rightarrow> (string, string) dict option \<Rightarrow> string option \<Rightarrow> decimal \<Rightarrow> (JeLine list \<times> string list) res" where
  "balancing_line s on account_names balancing_account remainder =
    (if remainder = 0 then Inr ([], [])
     else
       bindE (case account_names of
           Some names \<Rightarrow>
             (case balancing_account of
                None \<Rightarrow> Inr (None, [''<balancing>''])
              | Some code \<Rightarrow>
                  if code = [] then Inr (None, [''<balancing>''])
                  else (case map_of names code of
                          None \<Rightarrow> Inr (None, [code])
                        | Some name \<Rightarrow> Inr (Some (code, name), [])))
         | None \<Rightarrow>
             bindE (role_account s ''guest_ledger_clearing'') (\<lambda>bal.
               Inr (Some (ga_account_code bal, ga_name bal), []))) (\<lambda>(bal, missing).
         Inr (case bal of
             None \<Rightarrow> ([], missing)
           | Some (code, name) \<Rightarrow>
               ([\<lparr>jn_gl_account_code = code, jn_account_name = name,
                  jn_posting = (if remainder > 0 then Debit else Credit), jn_amount = \<bar>remainder\<bar>,
                  jn_memo = ''Guest ledger clearing '' @ isoformat on, jn_fact_id = None\<rparr>], missing))))"

definition build_pms_daily_plan ::
  "(string \<Rightarrow> string) \<Rightarrow> (string, string) dict option \<Rightarrow> string option \<Rightarrow> db \<Rightarrow> string \<Rightarrow> date \<Rightarrow> JePlan option res" where
  "build_pms_daily_plan sha256 account_names balancing_account s property_id on =
    (let facts = filter (\<lambda>f. ff_property_id f = property_id \<and> ff_business_date f = on) (financial_facts s) in
     if facts = [] then Inr None
     else if unmapped_lines facts \<noteq> [] then Inl (UnmappedGlError (unmapped_lines facts))
     else
       let names = (case account_names of Some m \<Rightarrow> m | None \<Rightarrow> map (\<lambda>(code, row). (code, ga_name row)) (chart s));
           revenue = filter (\<lambda>f. ff_usali_schedule_id f \<noteq> None) facts;
           unscheduled = filter (\<lambda>f. ff_usali_schedule_id f = None) facts;
           taxes = filter (\<lambda>f. ff_usali_major_category f = TAXES_MAJOR) unscheduled;
           settlements = filter (\<lambda>f. ff_usali_major_category f = SETTLEMENTS_MAJOR) unscheduled;
           non_operating = filter (\<lambda>f. ff_usali_major_category f \<notin> {TAXES_MAJOR, SETTLEMENTS_MAJOR}) unscheduled
       in
       bindE (emit names revenue (''Daily revenue '' @ isoformat on)) (\<lambda>(l1, m1).
       bindE (emit names taxes (''Pass-through taxes '' @ isoformat on)) (\<lambda>(l2, m2).
       bindE (emit names settlements (''Settlements '' @ isoformat on)) (\<lambda>(l3, m3).
       bindE (emit names non_operating (''Non-operating '' @ isoformat on)) (\<lambda>(l4, m4).
         let ls = l1 @ l2 @ l3 @ l4; remainder = side_total Credit ls - side_total Debit ls in
         bindE (balancing_line s on account_names balancing_account remainder) (\<lambda>(l5, m5).
           let missing_accounts = m1 @ m2 @ m3 @ m4 @ m5 in
           if missing_accounts \<noteq> [] then Inl (ChartAccountMissingError (sort (remdups missing_accounts)))
           else bindE (finish_plan sha256 property_id on (ls @ l5)) (\<lambda>plan. Inr (Some plan))))))))"

section \<open>The \<open>payroll_accrual\<close> source\<close>

definition dept_line :: "GlAccount \<Rightarrow> date \<Rightarrow> int option \<times> decimal \<Rightarrow> JeLine" where
  "dept_line expense on = (\<lambda>(dept, cost).
     \<lparr>jn_gl_account_code = ga_account_code expense, jn_account_name = ga_name expense,
      jn_posting = (if cost > 0 then Debit else Credit), jn_amount = \<bar>cost\<bar>,
      jn_memo = ''Labor accrual dept '' @ (case dept of Some i \<Rightarrow> str_int i | None \<Rightarrow> ''unassigned'') @ '' '' @ isoformat on,
      jn_fact_id = None\<rparr>)"

definition build_payroll_accrual_plan :: "(string \<Rightarrow> string) \<Rightarrow> db \<Rightarrow> string \<Rightarrow> date \<Rightarrow> JePlan option res" where
  "build_payroll_accrual_plan sha256 s property_id on =
    (let rows = filter (\<lambda>f. lf_property_id f = property_id \<and> lf_business_date f = on) (labor_facts s) in
     if rows = [] then Inr None
     else
       let by_dept = fold (\<lambda>f. dict_add (lf_department_id f) (lf_est_cost f)) rows [];
           tot = dict_sum by_dept
       in if tot = 0 then Inr None
          else
            bindE (role_account s ''labor_wages_expense'') (\<lambda>expense.
            bindE (role_account s ''accrued_payroll'') (\<lambda>liability.
              let ls = map (dept_line expense on)
                         (filter (\<lambda>(dept, cost). cost \<noteq> 0)
                           (sort_key (\<lambda>(dept, cost). (dept = None, case dept of None \<Rightarrow> 0 | Some i \<Rightarrow> i)) by_dept));
                  l = \<lparr>jn_gl_account_code = ga_account_code liability, jn_account_name = ga_name liability,
                       jn_posting = (if tot > 0 then Credit else Debit), jn_amount = \<bar>tot\<bar>,
                       jn_memo = ''Accrued payroll '' @ isoformat on, jn_fact_id = None\<rparr>
              in bindE (finish_plan sha256 property_id on (ls @ [l])) (\<lambda>plan. Inr (Some plan)))))"

section \<open>What a builder promises\<close>

text \<open>A line counts positive on the credit side, as the facts do.\<close>

definition signed :: "JeLine \<Rightarrow> decimal" where
  "signed l = (case jn_posting l of Credit \<Rightarrow> jn_amount l | Debit \<Rightarrow> - jn_amount l)"

definition plan_ok :: "string \<Rightarrow> date \<Rightarrow> JePlan \<Rightarrow> bool" where
  "plan_ok property_id on plan \<longleftrightarrow>
     jp_property_id plan = property_id \<and> jp_business_date plan = on
   \<and> list_all (\<lambda>l. 0 < jn_amount l) (jp_lines plan)
   \<and> sum_list (map signed (jp_lines plan)) = 0
   \<and> jp_total_debits plan = jp_total_credits plan"

text \<open>
  The interface the posting engine relies on: a plan is balanced, positive and about the
  requested grain; an out-of-balance plan is never built; and nothing of the journal is
  read.
\<close>

locale posting_source =
  fixes build :: "db \<Rightarrow> string \<Rightarrow> date \<Rightarrow> JePlan option res"
  assumes build_ok: "build s p d = Inr (Some plan) \<Longrightarrow> plan_ok p d plan"
    and build_balanced: "build s p d \<noteq> Inl ValueError"
    and build_frame [frame]: "build (s\<lparr>journal_entries := E, journal_lines := L, gl_ledger := G, period_events := P\<rparr>) p d = build s p d"

definition line_net :: "string \<Rightarrow> JeLine list \<Rightarrow> decimal" where
  "line_net a ls = sum_list (map signed (filter (\<lambda>l. jn_gl_account_code l = a) ls))"

definition fact_net :: "string \<Rightarrow> UsaliFinancialFact list \<Rightarrow> decimal" where
  "fact_net a fs = sum_list (map ff_amount (filter (\<lambda>f. ff_gl_account_code f = Some a) fs))"

lemma sum_signed: "sum_list (map signed ls) = side_total Credit ls - side_total Debit ls"
  by (induction ls) (auto simp: signed_def side_total_def split: posting.split)

lemma line_net_append [simp]: "line_net a (xs @ ys) = line_net a xs + line_net a ys"
  by (simp add: line_net_def)

lemma finish_plan_inr [inr]:
  "finish_plan sha256 p d ls = Inr plan \<longleftrightarrow> sum_list (map signed ls) = 0 \<and> (\<exists>text. canonical p d ls = Inr text \<and>
     plan = \<lparr>jp_property_id = p, jp_business_date = d, jp_lines = ls, jp_total_debits = side_total Debit ls,
       jp_total_credits = side_total Credit ls, jp_request_hash = sha256 text\<rparr>)"
  by (auto simp: finish_plan_def Let_def bindE_eq_Inr_iff sum_signed)

lemma finish_plan_ok:
  assumes "finish_plan sha256 p d ls = Inr plan" "list_all (\<lambda>l. 0 < jn_amount l) ls"
  shows "plan_ok p d plan \<and> jp_lines plan = ls"
  using assms by (auto simp: inr plan_ok_def sum_signed)

lemma canonical_error: "canonical p d ls \<noteq> Inl ValueError"
proof -
  have "mapE (\<lambda>l. bindE (quantize (jn_amount l) (1 / 10000) ROUND_HALF_EVEN) (\<lambda>q. Inr (f l q))) ls \<noteq> Inl ValueError" for f :: "JeLine \<Rightarrow> decimal \<Rightarrow> string \<times> string \<times> string"
    by (induction ls) (auto simp: bindE_eq_Inl_iff quantize_def Let_def)
  then show ?thesis unfolding canonical_def bindE_eq_Inl_iff by auto
qed

lemma finish_plan_error: "sum_list (map signed ls) = 0 \<Longrightarrow> finish_plan sha256 p d ls \<noteq> Inl ValueError"
  using canonical_error [of p d ls] by (auto simp: finish_plan_def Let_def bindE_eq_Inl_iff sum_signed)

section \<open>The \<open>pms_daily\<close> plan\<close>

lemma group_by_gl_ok:
  assumes "group_by_gl fs = Inr acc"
  shows "distinct (keys acc)" "dict_get acc a 0 = fact_net a fs" "dict_sum acc = sum_list (map ff_amount fs)"
proof -
  have "foldE (\<lambda>f acc. bindE (require_not_none (ff_gl_account_code f)) (\<lambda>code. Inr (dict_add code (ff_amount f) acc))) fs d = Inr acc
    \<Longrightarrow> distinct (keys d) \<Longrightarrow> distinct (keys acc) \<and> dict_get acc a 0 = dict_get d a 0 + fact_net a fs
      \<and> dict_sum acc = dict_sum d + sum_list (map ff_amount fs)" for d
    by (induction fs arbitrary: d) (auto simp: inr fact_net_def)
  from this [of "[]"] assms show "distinct (keys acc)" "dict_get acc a 0 = fact_net a fs" "dict_sum acc = sum_list (map ff_amount fs)"
    by (simp_all add: group_by_gl_def)
qed

lemma emit_line_some:
  assumes "emit_line names b memo (gl, net) = Some l"
  shows "jn_gl_account_code l = gl" "signed l = net" "0 < jn_amount l"
  using assms by (auto simp: emit_line_def signed_def Let_def split: if_splits option.splits)

lemma emit_line_none: "emit_line names b memo (gl, net) = None \<longleftrightarrow> net = 0 \<or> map_of names gl = None"
  by (auto simp: emit_line_def Let_def split: option.split)

lemma emitted:
  assumes "\<forall>(gl, net) \<in> set kvs. net \<noteq> 0 \<longrightarrow> map_of names gl \<noteq> None"
  shows "line_net a (List.map_filter (emit_line names b memo) kvs) = sum_list (map snd (filter (\<lambda>(gl, net). gl = a) kvs))
    \<and> sum_list (map signed (List.map_filter (emit_line names b memo) kvs)) = sum_list (map snd kvs)"
  using assms
proof (induction kvs)
  case (Cons kv kvs)
  obtain gl net where kv: "kv = (gl, net)" by fastforce
  show ?case
  proof (cases "emit_line names b memo kv")
    case None
    then have "net = 0" using Cons.prems by (auto simp: kv emit_line_none)
    with Cons None show ?thesis by (auto simp: kv List.map_filter_simps)
  next
    case (Some l)
    have "List.map_filter (emit_line names b memo) (kv # kvs) = l # List.map_filter (emit_line names b memo) kvs"
      using Some by (simp add: List.map_filter_simps)
    with Cons emit_line_some [OF Some [unfolded kv]] show ?thesis by (auto simp: kv line_net_def)
  qed
qed (simp add: List.map_filter_simps line_net_def)

lemma emit_ok:
  assumes "emit names b memo = Inr (ls, [])"
  shows "line_net a ls = fact_net a b" "sum_list (map signed ls) = sum_list (map ff_amount b)"
    "list_all (\<lambda>l. 0 < jn_amount l) ls"
proof -
  from assms obtain acc where acc: "group_by_gl b = Inr acc" "ls = List.map_filter (emit_line names b memo) (sort_key fst acc)"
    "\<forall>(gl, net) \<in> set acc. net \<noteq> 0 \<longrightarrow> map_of names gl \<noteq> None"
    by (fastforce simp: emit_def inr filter_empty_conv)
  note g = group_by_gl_ok [OF acc(1)]
  have "sum_list (map snd (filter (\<lambda>(gl, net). gl = a) (sort_key fst acc))) = sum_list (map snd (filter (\<lambda>(gl, net). gl = a) acc))"
    by (intro sum_list_map_perm) simp
  also have "\<dots> = dict_get acc a 0" using g(1) by (induction acc) (auto simp: filter_empty_conv)
  finally show "line_net a ls = fact_net a b"
    using emitted [of "sort_key fst acc" names a b memo] acc(2,3) g(2) [of a] by simp
  show "sum_list (map signed ls) = sum_list (map ff_amount b)"
    using emitted [of "sort_key fst acc" names a b memo] acc(2,3) g(3) by (simp add: dict_sum_def)
  show "list_all (\<lambda>l. 0 < jn_amount l) ls"
    using emit_line_some(3) by (fastforce simp: acc(2) list_all_iff List.map_filter_def)
qed

lemma balancing_line_ok:
  assumes "balancing_line s on names ba rem = Inr (ls, [])"
  shows "sum_list (map signed ls) = - rem" "list_all (\<lambda>l. 0 < jn_amount l) ls"
    and "names = None \<Longrightarrow> line_net a ls = - (case role_account s ''guest_ledger_clearing'' of
           Inr bal \<Rightarrow> if ga_account_code bal = a then rem else 0 | Inl e \<Rightarrow> 0)"
proof -
  have *: "(rem = 0 \<and> ls = []) \<or> (rem \<noteq> 0 \<and> (\<exists>code name. (names = None \<longrightarrow> (\<exists>bal. role_account s ''guest_ledger_clearing'' = Inr bal \<and> code = ga_account_code bal))
     \<and> ls = [\<lparr>jn_gl_account_code = code, jn_account_name = name, jn_posting = (if rem > 0 then Debit else Credit),
          jn_amount = \<bar>rem\<bar>, jn_memo = ''Guest ledger clearing '' @ isoformat on, jn_fact_id = None\<rparr>]))"
    using assms by (auto simp: balancing_line_def inr split: if_splits option.splits)
  then show "sum_list (map signed ls) = - rem" "list_all (\<lambda>l. 0 < jn_amount l) ls"
    by (auto simp: signed_def)
  show "line_net a ls = - (case role_account s ''guest_ledger_clearing'' of
      Inr bal \<Rightarrow> if ga_account_code bal = a then rem else 0 | Inl e \<Rightarrow> 0)" if "names = None"
    using * that by (auto simp: line_net_def signed_def split: sum.split)
qed

lemma pms_inversion:
  assumes "build_pms_daily_plan sha256 names ba s p d = Inr (Some plan)"
  defines "facts \<equiv> filter (\<lambda>f. ff_property_id f = p \<and> ff_business_date f = d) (financial_facts s)"
  obtains ls l5 where "facts \<noteq> []" "\<forall>a. line_net a ls = fact_net a facts" "sum_list (map signed ls) = sum_list (map ff_amount facts)"
    "list_all (\<lambda>l. 0 < jn_amount l) ls" "balancing_line s d names ba (sum_list (map signed ls)) = Inr (l5, [])"
    "finish_plan sha256 p d (ls @ l5) = Inr plan"
proof -
  let ?rev = "filter (\<lambda>f. ff_usali_schedule_id f \<noteq> None) facts"
  let ?uns = "filter (\<lambda>f. ff_usali_schedule_id f = None) facts"
  let ?tax = "filter (\<lambda>f. ff_usali_major_category f = TAXES_MAJOR) ?uns"
  let ?set = "filter (\<lambda>f. ff_usali_major_category f = SETTLEMENTS_MAJOR) ?uns"
  let ?non = "filter (\<lambda>f. ff_usali_major_category f \<notin> {TAXES_MAJOR, SETTLEMENTS_MAJOR}) ?uns"
  from assms(1) have ne: "facts \<noteq> []" and un: "unmapped_lines facts = []"
    unfolding build_pms_daily_plan_def Let_def facts_def [symmetric] by (auto split: if_splits)
  from assms(1) ne un obtain nm l1 l2 l3 l4 l5 where
    e: "emit nm ?rev (''Daily revenue '' @ isoformat d) = Inr (l1, [])" "emit nm ?tax (''Pass-through taxes '' @ isoformat d) = Inr (l2, [])"
      "emit nm ?set (''Settlements '' @ isoformat d) = Inr (l3, [])" "emit nm ?non (''Non-operating '' @ isoformat d) = Inr (l4, [])"
    and b: "balancing_line s d names ba (side_total Credit (l1 @ l2 @ l3 @ l4) - side_total Debit (l1 @ l2 @ l3 @ l4)) = Inr (l5, [])"
    and f: "finish_plan sha256 p d ((l1 @ l2 @ l3 @ l4) @ l5) = Inr plan"
    unfolding build_pms_daily_plan_def Let_def facts_def [symmetric]
    by (auto simp only: bindE_eq_Inr_iff if_False simp_thms split_paired_Ex prod.case append_is_Nil_conv sum.inject option.inject split: if_split_asm)
  have ne_major: "TAXES_MAJOR \<noteq> SETTLEMENTS_MAJOR" by (simp add: TAXES_MAJOR_def SETTLEMENTS_MAJOR_def)
  have part: "sum_list (map ff_amount (filter Q ?rev)) + (sum_list (map ff_amount (filter Q ?tax)) + (sum_list (map ff_amount (filter Q ?set))
      + sum_list (map ff_amount (filter Q ?non)))) = sum_list (map ff_amount (filter Q facts))" for Q
    using ne_major by (induction facts) auto
  show thesis
  proof (rule that [of "l1 @ l2 @ l3 @ l4" l5])
    show "\<forall>a. line_net a (l1 @ l2 @ l3 @ l4) = fact_net a facts"
      using part [of "\<lambda>f. ff_gl_account_code f = Some a" for a] e [THEN emit_ok(1)] unfolding fact_net_def by simp
    show "sum_list (map signed (l1 @ l2 @ l3 @ l4)) = sum_list (map ff_amount facts)"
      using part [of "\<lambda>f. True"] e [THEN emit_ok(2)] by simp
    show "list_all (\<lambda>l. 0 < jn_amount l) (l1 @ l2 @ l3 @ l4)" using e [THEN emit_ok(3)] by simp
  qed (use ne b [folded sum_signed] f in simp_all)
qed

lemma emit_error: "emit names b memo \<noteq> Inl ValueError"
proof -
  have "foldE (\<lambda>f acc. bindE (require_not_none (ff_gl_account_code f)) (\<lambda>code. Inr (dict_add code (ff_amount f) acc))) b d \<noteq> Inl ValueError" for d
    by (induction b arbitrary: d) (auto simp: bindE_eq_Inl_iff require_not_none_def split: option.splits)
  then show ?thesis by (simp add: emit_def group_by_gl_def bindE_eq_Inl_iff)
qed

lemma balancing_line_error: "balancing_line s d names ba rem \<noteq> Inl ValueError"
  by (auto simp: balancing_line_def bindE_eq_Inl_iff role_account_def split: option.splits)

lemma pms_never_unbalanced: "build_pms_daily_plan sha256 names ba s p d \<noteq> Inl ValueError"
proof
  assume "build_pms_daily_plan sha256 names ba s p d = Inl ValueError"
  then obtain ls l5 where "balancing_line s d names ba (side_total Credit ls - side_total Debit ls) = Inr (l5, [])"
    "finish_plan sha256 p d (ls @ l5) = Inl ValueError"
    unfolding build_pms_daily_plan_def Let_def
    by (auto simp only: bindE_eq_Inl_iff emit_error balancing_line_error simp_thms split_paired_Ex prod.case append_is_Nil_conv err.distinct sum.inject sum.distinct
        split: if_split_asm)
  then show False using finish_plan_error [of "ls @ l5" sha256 p d] balancing_line_ok(1) by (simp add: sum_signed)
qed

section \<open>The two sources keep the promise\<close>

lemma payroll_inversion:
  assumes "build_payroll_accrual_plan sha256 s p d = x"
  obtains "x = Inr None" | e where "x = Inl e" "e \<noteq> ValueError"
    | ls where "x = bindE (finish_plan sha256 p d ls) (\<lambda>plan. Inr (Some plan))" "sum_list (map signed ls) = 0"
        "list_all (\<lambda>l. 0 < jn_amount l) ls"
proof -
  let ?rows = "filter (\<lambda>f. lf_property_id f = p \<and> lf_business_date f = d) (labor_facts s)"
  define by_dept where "by_dept = fold (\<lambda>f. dict_add (lf_department_id f) (lf_est_cost f)) ?rows []"
  define kvs where "kvs = filter (\<lambda>(dept, cost). cost \<noteq> 0)
     (sort_key (\<lambda>(dept, cost). (dept = None, case dept of None \<Rightarrow> 0 | Some i \<Rightarrow> i)) by_dept)"
  have "sum_list (map snd kvs) = sum_list (map snd (sort_key (\<lambda>(dept, cost). (dept = None, case dept of None \<Rightarrow> 0 | Some i \<Rightarrow> i)) by_dept))"
    unfolding kvs_def by (rule sum_list_map_filter) auto
  then have sum: "sum_list (map snd kvs) = dict_sum by_dept" by (simp add: dict_sum_def)
  have pos: "\<forall>(dept, cost) \<in> set kvs. cost \<noteq> 0" by (auto simp: kvs_def)
  have dl: "sum_list (map signed (map (dept_line e d) kvs)) = - sum_list (map snd kvs) \<and> list_all (\<lambda>l. 0 < jn_amount l) (map (dept_line e d) kvs)" for e
    using pos by (induction kvs) (auto simp: dept_line_def signed_def)
  consider "?rows = [] \<or> dict_sum by_dept = 0" | er where "role_account s ''labor_wages_expense'' = Inl er \<or> role_account s ''accrued_payroll'' = Inl er" "?rows \<noteq> []" "dict_sum by_dept \<noteq> 0"
    | ex li where "role_account s ''labor_wages_expense'' = Inr ex" "role_account s ''accrued_payroll'' = Inr li" "?rows \<noteq> []" "dict_sum by_dept \<noteq> 0"
    by (cases "role_account s ''labor_wages_expense''"; cases "role_account s ''accrued_payroll''") auto
  then show thesis
  proof cases
    case 1
    with assms show thesis by (intro that(1)) (auto simp: build_payroll_accrual_plan_def Let_def by_dept_def)
  next
    case 2
    have role: "role_account s r = Inl e \<Longrightarrow> e \<noteq> ValueError" for r e
      by (auto simp: role_account_def split: option.splits)
    show thesis
    proof (cases "role_account s ''labor_wages_expense''")
      case (Inl e)
      with assms 2 role show thesis by (intro that(2) [of e]) (auto simp: build_payroll_accrual_plan_def Let_def by_dept_def)
    next
      case (Inr ex)
      with assms 2 role show thesis by (intro that(2) [of er]) (auto simp: build_payroll_accrual_plan_def Let_def by_dept_def)
    qed
  next
    case 3
    let ?l = "\<lparr>jn_gl_account_code = ga_account_code li, jn_account_name = ga_name li,
       jn_posting = (if dict_sum by_dept > 0 then Credit else Debit), jn_amount = \<bar>dict_sum by_dept\<bar>,
       jn_memo = ''Accrued payroll '' @ isoformat d, jn_fact_id = None\<rparr>"
    show thesis
    proof (rule that(3) [of "map (dept_line ex d) kvs @ [?l]"])
      show "x = bindE (finish_plan sha256 p d (map (dept_line ex d) kvs @ [?l])) (\<lambda>plan. Inr (Some plan))"
        using assms 3 by (simp add: build_payroll_accrual_plan_def Let_def kvs_def by_dept_def)
    qed (use dl [of ex] sum 3(4) in \<open>auto simp: signed_def\<close>)
  qed
qed

interpretation pms: posting_source "build_pms_daily_plan sha256 None None" for sha256
proof
  fix s p d plan assume b: "build_pms_daily_plan sha256 None None s p d = Inr (Some plan)"
  then obtain ls l5 where "list_all (\<lambda>l. 0 < jn_amount l) ls" "balancing_line s d None None (sum_list (map signed ls)) = Inr (l5, [])"
    "finish_plan sha256 p d (ls @ l5) = Inr plan" by (rule pms_inversion)
  then show "plan_ok p d plan" using finish_plan_ok balancing_line_ok(2) by fastforce
next
  fix s p d
  show "build_pms_daily_plan sha256 None None s p d \<noteq> Inl ValueError" by (rule pms_never_unbalanced)
next
  fix s :: db and E L G P p d
  show "build_pms_daily_plan sha256 None None (s\<lparr>journal_entries := E, journal_lines := L, gl_ledger := G, period_events := P\<rparr>) p d
    = build_pms_daily_plan sha256 None None s p d"
  proof -
    let ?t = "s\<lparr>journal_entries := E, journal_lines := L, gl_ledger := G, period_events := P\<rparr>"
    have "chart ?t = chart s" "financial_facts ?t = financial_facts s" by (simp_all add: chart_def)
    moreover have "role_account ?t r = role_account s r" for r by (simp add: role_account_def)
    then have "balancing_line ?t = balancing_line s" by (intro ext) (simp only: balancing_line_def)
    ultimately show ?thesis by (simp only: build_pms_daily_plan_def)
  qed
qed

interpretation accrual: posting_source "build_payroll_accrual_plan sha256" for sha256
proof
  fix s p d plan assume b: "build_payroll_accrual_plan sha256 s p d = Inr (Some plan)"
  then show "plan_ok p d plan"
  proof (cases rule: payroll_inversion)
    case (3 ls)
    from 3(1) [symmetric] have "finish_plan sha256 p d ls = Inr plan" by (simp add: bindE_eq_Inr_iff)
    then show ?thesis using finish_plan_ok 3(3) by blast
  qed simp_all
next
  fix s p d
  show "build_payroll_accrual_plan sha256 s p d \<noteq> Inl ValueError"
    by (rule payroll_inversion [of sha256 s p d, OF refl]) (auto simp: bindE_eq_Inl_iff dest: finish_plan_error)
next
  fix s :: db and E L G P p d
  show "build_payroll_accrual_plan sha256 (s\<lparr>journal_entries := E, journal_lines := L, gl_ledger := G, period_events := P\<rparr>) p d
    = build_payroll_accrual_plan sha256 s p d"
  proof -
    let ?t = "s\<lparr>journal_entries := E, journal_lines := L, gl_ledger := G, period_events := P\<rparr>"
    have "role_account ?t r = role_account s r" "labor_facts ?t = labor_facts s" for r by (simp_all add: role_account_def)
    then show ?thesis by (simp only: build_payroll_accrual_plan_def)
  qed
qed

section \<open>Properties\<close>

text \<open>
  C36.  Every fact of the day is posted, once: the plan for a property and date carries, on
  every account, exactly the net of the day's facts with that code, except that the
  account in the guest-ledger clearing role takes the opposite of the day's total; the
  plan is balanced and every line is positive.
\<close>

theorem pms_plan_posts_every_fact:
  assumes "build_pms_daily_plan sha256 None None s p d = Inr (Some plan)"
    and facts: "facts = filter (\<lambda>f. ff_property_id f = p \<and> ff_business_date f = d) (financial_facts s)"
  shows "plan_ok p d plan \<and> line_net a (jp_lines plan) = fact_net a facts -
    (case role_account s ''guest_ledger_clearing'' of
       Inr bal \<Rightarrow> if ga_account_code bal = a then sum_list (map ff_amount facts) else 0 | Inl e \<Rightarrow> 0)"
proof -
  from assms(1) obtain ls l5 where l: "\<forall>a. line_net a ls = fact_net a facts" "sum_list (map signed ls) = sum_list (map ff_amount facts)"
    "list_all (\<lambda>l. 0 < jn_amount l) ls" "balancing_line s d None None (sum_list (map signed ls)) = Inr (l5, [])"
    "finish_plan sha256 p d (ls @ l5) = Inr plan" unfolding facts by (rule pms_inversion)
  have "plan_ok p d plan \<and> jp_lines plan = ls @ l5"
    using finish_plan_ok [OF l(5)] l(3) balancing_line_ok(2) [OF l(4)] by simp
  with l(1,2) balancing_line_ok(3) [OF l(4) [unfolded l(2)] refl, of a] show ?thesis by simp
qed

definition example_gl :: db where
  "example_gl = empty_db\<lparr>
     fiscal_calendars := [\<lparr>fc_property_id = ''SJCES'', fc_calendar_type = ''445'', fc_fiscal_year_start_month = 1,
       fc_week_start_weekday = Some 6\<rparr>],
     gl_accounts := [
       \<lparr>ga_org_id = 1, ga_account_code = ''4000'', ga_name = ''Rooms'', ga_account_type = ''income'', ga_usali_schedule_id = Some 1,
        ga_usali_major_category = None, ga_usali_sub_category = None, ga_usali_line_item = None, ga_system_role = None, ga_is_active = True\<rparr>,
       \<lparr>ga_org_id = 1, ga_account_code = ''1200'', ga_name = ''Clearing'', ga_account_type = ''asset'', ga_usali_schedule_id = None,
        ga_usali_major_category = None, ga_usali_sub_category = None, ga_usali_line_item = None,
        ga_system_role = Some ''guest_ledger_clearing'', ga_is_active = True\<rparr>],
     financial_facts := [
       \<lparr>ff_fact_id = 1, ff_property_id = ''SJCES'', ff_business_date = 738000, ff_usali_schedule_id = Some 1,
        ff_usali_major_category = ''Rooms'', ff_usali_sub_category = ''Transient'', ff_usali_line_item = ''Room'',
        ff_gl_account_code = Some ''4000'', ff_amount = 100\<rparr>]\<rparr>"

lemma example_gl_plan: "\<exists>plan. build_pms_daily_plan id None None example_gl ''SJCES'' 738000 = Inr (Some plan)"
proof -
  have q: "quantize 100 (1 / 10000) ROUND_HALF_EVEN = Inr 100"
    by (simp add: quantize_def round_int_def half_even_def prec_def)
  show ?thesis
    by (simp add: build_pms_daily_plan_def example_gl_def empty_db_def unmapped_lines_def chart_def emit_def group_by_gl_def
        require_not_none_def dict_add_def emit_line_def List.map_filter_simps Let_def side_total_def balancing_line_def
        role_account_def finish_plan_def canonical_def q)
qed

theorem pms_plan_posts_every_fact_witness:
  "\<exists>plan. build_pms_daily_plan id None None example_gl ''SJCES'' 738000 = Inr (Some plan) \<and> line_net ''1200'' (jp_lines plan) = - 100"
proof -
  obtain plan where p: "build_pms_daily_plan id None None example_gl ''SJCES'' 738000 = Inr (Some plan)" using example_gl_plan by blast
  from pms_plan_posts_every_fact [OF p refl, of "''1200''"] p show ?thesis
    by (simp add: example_gl_def fact_net_def role_account_def)
qed

end
