(* ===== verification/GlJournal.thy ===== *)
theory GlJournal
  imports GlPlan
begin

text \<open>
  The second half of \<^verbatim>\<open>usali/gl_posting.py\<close>: the append-only journal, the posting ledger with
  its one entry point \<open>post_and_record\<close>, fiscal-period close and reopen, and the handlers of
  \<^verbatim>\<open>usali/gl_api.py\<close> that drive them.  \<open>post_grain\<close> is the body of \<open>post_and_record\<close> for a
  given source; \<open>now\<close> is the clock's answer.  A message keeps the refusal it renders, and
  a row of the ledger is addressed by its grain, which \<^verbatim>\<open>uq_gl_posting_ledger_org_row\<close>
  makes unique.
\<close>

section \<open>Outcomes\<close>

datatype outcome_status = Posted | Noop | Reposted | Reversed | Skipped | Failed

datatype outcome_message = NoChart | Ledger gl_message

record PostOutcome =
  oc_status :: outcome_status
  oc_entry_id :: "int option"
  oc_message :: "outcome_message option"

definition period_state :: "db \<Rightarrow> string \<Rightarrow> string \<Rightarrow> string" where
  "period_state s property_id period_key =
    (let evs = filter (\<lambda>e. pe_property_id e = property_id \<and> pe_period_key e = period_key) (period_events s);
         latest = (case sort_key (\<lambda>e. - pe_period_event_id e) evs of [] \<Rightarrow> None | e # _ \<Rightarrow> Some (pe_event e))
     in if latest = Some ''close'' then ''closed'' else ''open'')"

section \<open>The journal\<close>

fun flip_posting :: "posting \<Rightarrow> posting" where
  "flip_posting Credit = Debit"
| "flip_posting Debit = Credit"

definition write_entry ::
  "db \<Rightarrow> JePlan \<Rightarrow> string \<Rightarrow> string \<Rightarrow> int option \<Rightarrow> bool \<Rightarrow> db \<times> JournalEntry" where
  "write_entry s plan source_type actor reversal_of flip =
    (let entry = \<lparr>je_entry_id = next_id (map je_entry_id (journal_entries s)), je_property_id = jp_property_id plan,
                  je_business_date = jp_business_date plan, je_source_type = source_type,
                  je_source_hash = jp_request_hash plan, je_posted_by = actor, je_reversal_of = reversal_of,
                  je_memo = (if flip then Some (''reversal of entry '' @ (case reversal_of of Some i \<Rightarrow> str_int i | None \<Rightarrow> ''None'')) else None)\<rparr>;
         first = next_id (map jl_line_id (journal_lines s));
         rows = map (\<lambda>(i, l). \<lparr>jl_line_id = first + int i, jl_entry_id = je_entry_id entry,
                    jl_account_code = jn_gl_account_code l,
                    jl_posting = (if flip then flip_posting (jn_posting l) else jn_posting l),
                    jl_amount = jn_amount l, jl_memo = Some (jn_memo l), jl_fact_id = jn_fact_id l\<rparr>)
                  (enumerate 0 (jp_lines plan))
     in (s\<lparr>journal_entries := journal_entries s @ [entry], journal_lines := journal_lines s @ rows\<rparr>, entry))"

definition plan_of_entry :: "(string \<Rightarrow> string) \<Rightarrow> db \<Rightarrow> JournalEntry \<Rightarrow> JePlan res" where
  "plan_of_entry sha256 s entry =
    (let rows = sort_key jl_line_id (filter (\<lambda>l. jl_entry_id l = je_entry_id entry) (journal_lines s));
         names = chart s;
         ls = map (\<lambda>row. \<lparr>jn_gl_account_code = jl_account_code row,
                     jn_account_name = (case map_of names (jl_account_code row) of Some a \<Rightarrow> ga_name a | None \<Rightarrow> jl_account_code row),
                     jn_posting = jl_posting row, jn_amount = jl_amount row,
                     jn_memo = (case jl_memo row of Some m \<Rightarrow> m | None \<Rightarrow> []), jn_fact_id = jl_fact_id row\<rparr>) rows
     in finish_plan sha256 (je_property_id entry) (je_business_date entry) ls)"

section \<open>The posting ledger\<close>

definition at_grain :: "string \<Rightarrow> date \<Rightarrow> string \<Rightarrow> GlPostingLedger \<Rightarrow> bool" where
  "at_grain property_id on source_type r \<longleftrightarrow>
     pl_property_id r = property_id \<and> pl_business_date r = on \<and> pl_source_type r = source_type"

definition ledger_row :: "db \<Rightarrow> string \<Rightarrow> date \<Rightarrow> string \<Rightarrow> GlPostingLedger option" where
  "ledger_row s property_id on source_type = find (at_grain property_id on source_type) (gl_ledger s)"

definition new_row :: "string \<Rightarrow> date \<Rightarrow> string \<Rightarrow> string \<Rightarrow> GlPostingLedger" where
  "new_row property_id on source_type status =
     \<lparr>pl_property_id = property_id, pl_business_date = on, pl_source_type = source_type, pl_source_hash = None,
      pl_entry_id = None, pl_status = status, pl_message = None, pl_posted_at = 0\<rparr>"

text \<open>Write the fields of the grain's row, adding the row first when there is none.\<close>

definition set_row ::
  "db \<Rightarrow> string \<Rightarrow> date \<Rightarrow> string \<Rightarrow> string \<Rightarrow> (GlPostingLedger \<Rightarrow> GlPostingLedger) \<Rightarrow> db" where
  "set_row s property_id on source_type status f =
    (case ledger_row s property_id on source_type of
       None \<Rightarrow> s\<lparr>gl_ledger := gl_ledger s @ [f (new_row property_id on source_type status)]\<rparr>
     | Some _ \<Rightarrow> s\<lparr>gl_ledger := map (\<lambda>r. if at_grain property_id on source_type r then f r else r) (gl_ledger s)\<rparr>)"

definition record_failure ::
  "db \<Rightarrow> string \<Rightarrow> date \<Rightarrow> string \<Rightarrow> instant \<Rightarrow> gl_message \<Rightarrow> db \<times> PostOutcome" where
  "record_failure s property_id on source_type now message =
    (set_row s property_id on source_type ''failed''
       (\<lambda>r. r\<lparr>pl_status := (if pl_entry_id r = None then ''failed'' else pl_status r), pl_message := Some message, pl_posted_at := now\<rparr>),
     \<lparr>oc_status = Failed, oc_entry_id = Option.bind (ledger_row s property_id on source_type) pl_entry_id,
      oc_message = Some (Ledger message)\<rparr>)"

definition record_posted ::
  "db \<Rightarrow> string \<Rightarrow> date \<Rightarrow> string \<Rightarrow> instant \<Rightarrow> JournalEntry \<Rightarrow> JePlan \<Rightarrow> db" where
  "record_posted s property_id on source_type now entry plan =
     set_row s property_id on source_type ''posted''
       (\<lambda>r. r\<lparr>pl_entry_id := Some (je_entry_id entry), pl_source_hash := Some (jp_request_hash plan),
             pl_status := ''posted'', pl_message := None, pl_posted_at := now\<rparr>)"

definition get_entry :: "db \<Rightarrow> int \<Rightarrow> JournalEntry res" where
  "get_entry s i = (case find (\<lambda>e. je_entry_id e = i) (journal_entries s) of None \<Rightarrow> Inl NoResultFound | Some e \<Rightarrow> Inr e)"

text \<open>Write the reversal of the entry \<open>i\<close>.\<close>

definition write_reversal ::
  "(string \<Rightarrow> string) \<Rightarrow> db \<Rightarrow> int \<Rightarrow> string \<Rightarrow> string \<Rightarrow> (db \<times> JournalEntry) res" where
  "write_reversal sha256 s i source_type actor =
     bindE (get_entry s i) (\<lambda>prior.
     bindE (plan_of_entry sha256 s prior) (\<lambda>plan.
       Inr (write_entry s plan source_type actor (Some (je_entry_id prior)) True)))"

text \<open>The refusals that become failed ledger rows.\<close>

fun is_refusal :: "err \<Rightarrow> bool" where
  "is_refusal (UnmappedGlError _) = True"
| "is_refusal (SystemRoleMissingError _) = True"
| "is_refusal (PeriodClosedError _ _) = True"
| "is_refusal (ChartAccountMissingError _) = True"
| "is_refusal FiscalCalendarNotConfigured = True"
| "is_refusal _ = False"

definition outcome :: "outcome_status \<Rightarrow> int option \<Rightarrow> PostOutcome" where
  "outcome st i = \<lparr>oc_status = st, oc_entry_id = i, oc_message = None\<rparr>"

definition post_body ::
  "(string \<Rightarrow> string) \<Rightarrow> (db \<Rightarrow> string \<Rightarrow> date \<Rightarrow> JePlan option res) \<Rightarrow> db \<Rightarrow> string \<Rightarrow> date \<Rightarrow> string \<Rightarrow> string \<Rightarrow> instant
     \<Rightarrow> (db \<times> PostOutcome) res" where
  "post_body sha256 build s property_id on source_type actor now =
    (let row = ledger_row s property_id on source_type; current = Option.bind row pl_entry_id in
     bindE (require_config (config_for s property_id)) (\<lambda>cfg.
     bindE (period_containing cfg on) (\<lambda>period.
     bindE (build s property_id on) (\<lambda>built.
       case built of
         None \<Rightarrow>
           (case current of
              None \<Rightarrow> Inr (s, outcome Skipped None)
            | Some i \<Rightarrow>
                if period_state s property_id period = ''closed''
                then Inr (record_failure s property_id on source_type now (FactsGone property_id on period))
                else
                  bindE (write_reversal sha256 s i source_type actor) (\<lambda>(s1, reversal).
                    Inr (s1\<lparr>gl_ledger := filter (\<lambda>r. \<not> at_grain property_id on source_type r) (gl_ledger s1)\<rparr>,
                         outcome Reversed (Some (je_entry_id reversal)))))
       | Some plan \<Rightarrow>
           if current \<noteq> None \<and> Option.bind row pl_source_hash = Some (jp_request_hash plan)
           then Inr (set_row s property_id on source_type ''posted'' (pl_message_update (\<lambda>_. None)), outcome Noop current)
           else if period_state s property_id period = ''closed'' then Inl (PeriodClosedError property_id period)
           else
             (case current of
                Some i \<Rightarrow>
                  bindE (write_reversal sha256 s i source_type actor) (\<lambda>(s1, _).
                    let (s2, entry) = write_entry s1 plan source_type actor None False
                    in Inr (record_posted s2 property_id on source_type now entry plan, outcome Reposted (Some (je_entry_id entry))))
              | None \<Rightarrow>
                  let (s1, entry) = write_entry s plan source_type actor None False
                  in Inr (record_posted s1 property_id on source_type now entry plan, outcome Posted (Some (je_entry_id entry))))))))"

definition post_grain ::
  "(string \<Rightarrow> string) \<Rightarrow> (db \<Rightarrow> string \<Rightarrow> date \<Rightarrow> JePlan option res) \<Rightarrow> db \<Rightarrow> string \<Rightarrow> date \<Rightarrow> string \<Rightarrow> string \<Rightarrow> instant
     \<Rightarrow> (db \<times> PostOutcome) res" where
  "post_grain sha256 build s property_id on source_type actor now =
    (case post_body sha256 build s property_id on source_type actor now of
       Inr r \<Rightarrow> Inr r
     | Inl e \<Rightarrow> if is_refusal e then Inr (record_failure s property_id on source_type now (Refused e)) else Inl e)"

definition SOURCES :: "(string \<Rightarrow> string) \<Rightarrow> (string, db \<Rightarrow> string \<Rightarrow> date \<Rightarrow> JePlan option res) dict" where
  "SOURCES sha256 =
     [(''pms_daily'', build_pms_daily_plan sha256 None None), (''payroll_accrual'', build_payroll_accrual_plan sha256)]"

definition post_and_record ::
  "(string \<Rightarrow> string) \<Rightarrow> db \<Rightarrow> string \<Rightarrow> date \<Rightarrow> string \<Rightarrow> string \<Rightarrow> instant \<Rightarrow> (db \<times> PostOutcome) res" where
  "post_and_record sha256 s property_id on source_type actor now =
    (if \<not> has_active_chart s then Inr (s, \<lparr>oc_status = Skipped, oc_entry_id = None, oc_message = Some NoChart\<rparr>)
     else bindE (dict_index (SOURCES sha256) source_type) (\<lambda>build.
            post_grain sha256 build s property_id on source_type actor now))"

section \<open>Periods\<close>

definition period_key_for :: "db \<Rightarrow> string \<Rightarrow> date \<Rightarrow> string res" where
  "period_key_for s property_id on =
     bindE (require_config (config_for s property_id)) (\<lambda>cfg. period_containing cfg on)"

record CloseGaps =
  unposted :: "date list"
  orphaned :: "date list"

definition period_gaps :: "db \<Rightarrow> string \<Rightarrow> string \<Rightarrow> CloseGaps res" where
  "period_gaps s property_id period_key =
     bindE (require_config (config_for s property_id)) (\<lambda>cfg.
     bindE (resolve_period cfg period_key) (\<lambda>(start, e).
       let fact_dates = map ff_business_date (filter (\<lambda>f. ff_property_id f = property_id
                          \<and> ff_business_date f \<ge> start \<and> ff_business_date f \<le> e) (financial_facts s));
           labor_dates = map lf_business_date (filter (\<lambda>f. lf_property_id f = property_id
                          \<and> lf_business_date f \<ge> start \<and> lf_business_date f \<le> e) (labor_facts s));
           ledger_rows = filter (\<lambda>r. pl_property_id r = property_id \<and> pl_source_type r \<in> {''pms_daily'', ''payroll_accrual''}
                          \<and> pl_business_date r \<ge> start \<and> pl_business_date r \<le> e) (gl_ledger s);
           posted_dates = map pl_business_date (filter (\<lambda>r. pl_source_type r = ''pms_daily'' \<and> pl_status r = ''posted'') ledger_rows);
           fact_side = (\<lambda>t. if t = ''pms_daily'' then fact_dates else labor_dates)
       in Inr \<lparr>unposted = sort (remdups (filter (\<lambda>d. d \<notin> set posted_dates) fact_dates)),
               orphaned = sort (remdups (map pl_business_date
                 (filter (\<lambda>r. pl_entry_id r \<noteq> None \<and> pl_business_date r \<notin> set (fact_side (pl_source_type r))) ledger_rows)))\<rparr>))"

definition add_period_event :: "db \<Rightarrow> string \<Rightarrow> string \<Rightarrow> string \<Rightarrow> string \<Rightarrow> string option \<Rightarrow> db" where
  "add_period_event s property_id period_key event actor reason =
     s\<lparr>period_events := period_events s @
        [\<lparr>pe_period_event_id = next_id (map pe_period_event_id (period_events s)), pe_property_id = property_id,
          pe_period_key = period_key, pe_event = event, pe_actor_subject = actor, pe_reason = reason\<rparr>]\<rparr>"

definition close_period :: "db \<Rightarrow> string \<Rightarrow> string \<Rightarrow> string \<Rightarrow> (db \<times> CloseGaps) res" where
  "close_period s property_id period_key actor =
     bindE (period_gaps s property_id period_key) (\<lambda>gaps.
       Inr (if period_state s property_id period_key \<noteq> ''closed''
            then add_period_event s property_id period_key ''close'' actor None else s, gaps))"

definition reopen_period :: "db \<Rightarrow> string \<Rightarrow> string \<Rightarrow> string \<Rightarrow> string \<Rightarrow> db res" where
  "reopen_period s property_id period_key actor reason =
    (if reason = [] \<or> strip reason = [] then Inl ValueError
     else if period_state s property_id period_key \<noteq> ''closed'' then Inr s
     else Inr (add_period_event s property_id period_key ''reopen'' actor (Some (strip reason))))"

section \<open>The handlers\<close>

text \<open>\<^verbatim>\<open>gl_api._run\<close>: typed refusals become HTTP errors.\<close>

definition run_query :: "'a res \<Rightarrow> 'a res" where
  "run_query r =
    (case r of
       Inl e \<Rightarrow> if e = NoFactsError then Inl (HTTPException 404)
               else if e = FiscalCalendarNotConfigured \<or> e = ValueError then Inl (HTTPException 422) else Inl e
     | Inr x \<Rightarrow> Inr x)"

record CloseResponse =
  cr_period_key :: string
  cr_state :: string
  cr_gaps :: CloseGaps

definition close_period_handler :: "db \<Rightarrow> string \<Rightarrow> string \<Rightarrow> string \<Rightarrow> (db \<times> CloseResponse) res" where
  "close_period_handler s period_key property_id subject =
     bindE (run_query (close_period s property_id period_key subject)) (\<lambda>(s', gaps).
       Inr (s', \<lparr>cr_period_key = period_key, cr_state = period_state s' property_id period_key, cr_gaps = gaps\<rparr>))"

definition reopen_period_handler :: "db \<Rightarrow> string \<Rightarrow> string \<Rightarrow> string \<Rightarrow> string \<Rightarrow> db res" where
  "reopen_period_handler s period_key property_id subject reason =
     run_query (reopen_period s property_id period_key subject reason)"

text \<open>The nested loop of \<^verbatim>\<open>post_range\<close>: each date, each source in registry order.\<close>

definition post_range ::
  "(string \<Rightarrow> string) \<Rightarrow> db \<Rightarrow> string \<Rightarrow> date \<Rightarrow> date \<Rightarrow> string \<Rightarrow> instant
     \<Rightarrow> (db \<times> (date \<times> string \<times> PostOutcome) list) res" where
  "post_range sha256 s property_id date_from date_to subject now =
    (if date_from > date_to then Inl (HTTPException 422)
     else if date_to - date_from > 400 then Inl (HTTPException 422)
     else
       bindE (run_query (period_key_for s property_id date_from)) (\<lambda>_.
         foldE (\<lambda>(d, src) (t, outcomes).
             bindE (post_and_record sha256 t property_id d src subject now) (\<lambda>(t', out).
               Inr (t', outcomes @ [(d, src, out)])))
           (List.product [date_from..date_to] (keys (SOURCES sha256))) (s, [])))"

end
