(* ===== verification/GlInvariant.thy ===== *)
theory GlInvariant
  imports GlJournal
begin

text \<open>
  What the general ledger keeps invariant over every sequence of postings, closes, reopens
  and changes of the facts: a balanced append-only journal, whose net per grain is the
  grain's current entry.
\<close>

section \<open>Nets of the journal\<close>

definition line_signed :: "JournalLine \<Rightarrow> decimal" where
  "line_signed l = (case jl_posting l of Credit \<Rightarrow> jl_amount l | Debit \<Rightarrow> - jl_amount l)"

definition entry_net :: "db \<Rightarrow> int \<Rightarrow> string \<Rightarrow> decimal" where
  "entry_net s i a = sum_list (map line_signed (filter (\<lambda>l. jl_entry_id l = i \<and> jl_account_code l = a) (journal_lines s)))"

definition entry_total :: "db \<Rightarrow> int \<Rightarrow> decimal" where
  "entry_total s i = sum_list (map line_signed (filter (\<lambda>l. jl_entry_id l = i) (journal_lines s)))"

definition of_grain :: "string \<Rightarrow> date \<Rightarrow> string \<Rightarrow> JournalEntry \<Rightarrow> bool" where
  "of_grain p d src e \<longleftrightarrow> je_property_id e = p \<and> je_business_date e = d \<and> je_source_type e = src"

definition grain_net :: "db \<Rightarrow> string \<Rightarrow> date \<Rightarrow> string \<Rightarrow> string \<Rightarrow> decimal" where
  "grain_net s p d src a =
     sum_list (map (\<lambda>e. entry_net s (je_entry_id e) a) (filter (of_grain p d src) (journal_entries s)))"

definition current_entry :: "db \<Rightarrow> string \<Rightarrow> date \<Rightarrow> string \<Rightarrow> int option" where
  "current_entry s p d src = Option.bind (ledger_row s p d src) pl_entry_id"

section \<open>The invariant\<close>

definition journal_ok :: "db \<Rightarrow> bool" where
  "journal_ok s \<longleftrightarrow>
     distinct (map je_entry_id (journal_entries s))
   \<and> (\<forall>l \<in> set (journal_lines s). 0 < jl_amount l \<and> jl_entry_id l \<in> je_entry_id ` set (journal_entries s))
   \<and> (\<forall>i. entry_total s i = 0)"

definition row_ok :: "db \<Rightarrow> GlPostingLedger \<Rightarrow> bool" where
  "row_ok s r \<longleftrightarrow>
     pl_status r = (if pl_entry_id r = None then ''failed'' else ''posted'')
   \<and> (\<forall>i. pl_entry_id r = Some i \<longrightarrow> (\<exists>e \<in> set (journal_entries s). je_entry_id e = i
        \<and> of_grain (pl_property_id r) (pl_business_date r) (pl_source_type r) e \<and> pl_source_hash r = Some (je_source_hash e)))"

definition grain_of :: "GlPostingLedger \<Rightarrow> string \<times> date \<times> string" where
  "grain_of r = (pl_property_id r, pl_business_date r, pl_source_type r)"

definition ledger_ok :: "db \<Rightarrow> bool" where
  "ledger_ok s \<longleftrightarrow> distinct (map grain_of (gl_ledger s)) \<and> (\<forall>r \<in> set (gl_ledger s). row_ok s r)"

definition nets_ok :: "db \<Rightarrow> bool" where
  "nets_ok s \<longleftrightarrow> (\<forall>p d src a. grain_net s p d src a =
     (case current_entry s p d src of None \<Rightarrow> 0 | Some i \<Rightarrow> entry_net s i a))"

definition gl_inv :: "db \<Rightarrow> bool" where
  "gl_inv s \<longleftrightarrow> journal_ok s \<and> ledger_ok s \<and> nets_ok s"

section \<open>Writing an entry\<close>

lemma write_entry_shape:
  assumes "write_entry s plan src actor ro flip = (s', e)"
  shows "\<exists>rows. s' = s\<lparr>journal_entries := journal_entries s @ [e], journal_lines := journal_lines s @ rows\<rparr>
    \<and> je_entry_id e \<notin> je_entry_id ` set (journal_entries s)
    \<and> of_grain (jp_property_id plan) (jp_business_date plan) src e \<and> je_source_hash e = jp_request_hash plan
    \<and> (\<forall>l \<in> set rows. jl_entry_id l = je_entry_id e \<and> jl_amount l \<in> jn_amount ` set (jp_lines plan))
    \<and> (\<forall>Q. sum_list (map line_signed (filter (\<lambda>l. Q (jl_account_code l)) rows)) =
         (if flip then - 1 else 1) * sum_list (map signed (filter (\<lambda>l. Q (jn_gl_account_code l)) (jp_lines plan))))"
proof -
  define f where "f = (\<lambda>(i, l :: JeLine). \<lparr>jl_line_id = next_id (map jl_line_id (journal_lines s)) + int i, jl_entry_id = je_entry_id e,
      jl_account_code = jn_gl_account_code l, jl_posting = (if flip then flip_posting (jn_posting l) else jn_posting l),
      jl_amount = jn_amount l, jl_memo = Some (jn_memo l), jl_fact_id = jn_fact_id l\<rparr>)"
  have e: "je_entry_id e = next_id (map je_entry_id (journal_entries s))" "of_grain (jp_property_id plan) (jp_business_date plan) src e"
    "je_source_hash e = jp_request_hash plan"
    using assms by (auto simp: write_entry_def Let_def of_grain_def)
  have s': "s' = s\<lparr>journal_entries := journal_entries s @ [e], journal_lines := journal_lines s @ map f (enumerate 0 (jp_lines plan))\<rparr>"
    using assms by (auto simp: write_entry_def Let_def f_def)
  have sg: "line_signed (f (i, l)) = (if flip then - 1 else 1) * signed l" "jl_account_code (f (i, l)) = jn_gl_account_code l" for i l
    by (cases "jn_posting l"; simp add: f_def line_signed_def signed_def)+
  have "sum_list (map line_signed (filter (\<lambda>l. Q (jl_account_code l)) (map f (enumerate n ls)))) =
      (if flip then - 1 else 1) * sum_list (map signed (filter (\<lambda>l. Q (jn_gl_account_code l)) ls))" for Q n ls
    by (induction ls arbitrary: n) (auto simp: sg)
  moreover have "\<forall>l \<in> set (map f (enumerate 0 (jp_lines plan))). jl_entry_id l = je_entry_id e \<and> jl_amount l \<in> jn_amount ` set (jp_lines plan)"
    by (auto simp: f_def in_set_enumerate_eq)
  moreover have "je_entry_id e \<notin> je_entry_id ` set (journal_entries s)"
    using next_id_fresh [of "map je_entry_id (journal_entries s)"] by (simp add: e(1))
  ultimately show ?thesis using e s' by blast
qed

text \<open>What a write does to the nets and to the journal invariant.\<close>

lemma write_entry_ok:
  assumes "write_entry s plan src actor ro flip = (s', e)" "journal_ok s"
    and "list_all (\<lambda>l. 0 < jn_amount l) (jp_lines plan)" "sum_list (map signed (jp_lines plan)) = 0"
  shows "journal_ok s'"
    and "entry_net s' i a = entry_net s i a + (if i = je_entry_id e then (if flip then - 1 else 1) * line_net a (jp_lines plan) else 0)"
    and "je_entry_id e \<notin> je_entry_id ` set (journal_entries s)" "entry_net s (je_entry_id e) a = 0"
    and "grain_net s' p d src' a = grain_net s p d src' a +
      (if of_grain p d src' e then (if flip then - 1 else 1) * line_net a (jp_lines plan) else 0)"
    and "gl_ledger s' = gl_ledger s" "journal_entries s' = journal_entries s @ [e]"
    and "of_grain (jp_property_id plan) (jp_business_date plan) src e" "je_source_hash e = jp_request_hash plan"
proof -
  from write_entry_shape [OF assms(1)] obtain rows where
    s': "s' = s\<lparr>journal_entries := journal_entries s @ [e], journal_lines := journal_lines s @ rows\<rparr>"
    and fresh: "je_entry_id e \<notin> je_entry_id ` set (journal_entries s)"
    and g: "of_grain (jp_property_id plan) (jp_business_date plan) src e" "je_source_hash e = jp_request_hash plan"
    and rows: "\<forall>l \<in> set rows. jl_entry_id l = je_entry_id e \<and> jl_amount l \<in> jn_amount ` set (jp_lines plan)"
    and sums: "\<forall>Q. sum_list (map line_signed (filter (\<lambda>l. Q (jl_account_code l)) rows)) =
         (if flip then - 1 else 1) * sum_list (map signed (filter (\<lambda>l. Q (jn_gl_account_code l)) (jp_lines plan)))"
    by blast
  show "je_entry_id e \<notin> je_entry_id ` set (journal_entries s)" "gl_ledger s' = gl_ledger s" "journal_entries s' = journal_entries s @ [e]"
    "of_grain (jp_property_id plan) (jp_business_date plan) src e" "je_source_hash e = jp_request_hash plan"
    using s' fresh g by simp_all
  have flt: "filter (\<lambda>l. jl_entry_id l = i \<and> Q (jl_account_code l)) rows = (if i = je_entry_id e then filter (\<lambda>l. Q (jl_account_code l)) rows else [])" for i Q
    using rows by (auto simp: filter_empty_conv intro!: filter_cong)
  show net: "entry_net s' i a = entry_net s i a + (if i = je_entry_id e then (if flip then - 1 else 1) * line_net a (jp_lines plan) else 0)" for i a
    using flt [of i "\<lambda>x. x = a"] sums [rule_format, of "\<lambda>x. x = a"] by (simp add: entry_net_def s' line_net_def)
  have tot: "entry_total s' i = entry_total s i" for i
    using flt [of i "\<lambda>_. True"] sums [rule_format, of "\<lambda>_. True"] assms(4) by (simp add: entry_total_def s')
  show "journal_ok s'"
    using assms(2,3) fresh rows tot unfolding journal_ok_def by (auto simp: s' list_all_iff)
  show zero: "entry_net s (je_entry_id e) a = 0" for a
  proof -
    have "filter (\<lambda>l. jl_entry_id l = je_entry_id e \<and> jl_account_code l = a) (journal_lines s) = []"
      using assms(2) fresh unfolding journal_ok_def filter_empty_conv by metis
    then show ?thesis by (simp add: entry_net_def)
  qed
  have "entry_net s' (je_entry_id x) a = entry_net s (je_entry_id x) a" if "x \<in> set (journal_entries s)" for x
  proof -
    have "je_entry_id x \<noteq> je_entry_id e" using fresh that by (metis imageI)
    then show ?thesis by (simp add: net)
  qed
  then have "map (\<lambda>x. entry_net s' (je_entry_id x) a) (filter (of_grain p d src') (journal_entries s)) =
      map (\<lambda>x. entry_net s (je_entry_id x) a) (filter (of_grain p d src') (journal_entries s))"
    by (intro map_cong) auto
  then have "grain_net s p d src' a = sum_list (map (\<lambda>x. entry_net s' (je_entry_id x) a) (filter (of_grain p d src') (journal_entries s)))"
    by (simp only: grain_net_def)
  moreover have "entry_net s' (je_entry_id e) a = (if flip then - 1 else 1) * line_net a (jp_lines plan)" by (simp add: net zero)
  ultimately show "grain_net s' p d src' a = grain_net s p d src' a +
      (if of_grain p d src' e then (if flip then - 1 else 1) * line_net a (jp_lines plan) else 0)"
    by (simp only: grain_net_def \<open>journal_entries s' = journal_entries s @ [e]\<close>) simp
qed

section \<open>Reversing an entry\<close>

lemma plan_of_entry_lines:
  "\<exists>ls. plan_of_entry sha256 s e = finish_plan sha256 (je_property_id e) (je_business_date e) ls
    \<and> (\<forall>a. line_net a ls = entry_net s (je_entry_id e) a) \<and> sum_list (map signed ls) = entry_total s (je_entry_id e)
    \<and> (\<forall>l \<in> set ls. jn_amount l \<in> jl_amount ` set (journal_lines s))"
proof -
  let ?rows = "sort_key jl_line_id (filter (\<lambda>l. jl_entry_id l = je_entry_id e) (journal_lines s))"
  define f where "f = (\<lambda>row :: JournalLine. \<lparr>jn_gl_account_code = jl_account_code row,
     jn_account_name = (case map_of (chart s) (jl_account_code row) of Some a \<Rightarrow> ga_name a | None \<Rightarrow> jl_account_code row),
     jn_posting = jl_posting row, jn_amount = jl_amount row,
     jn_memo = (case jl_memo row of Some m \<Rightarrow> m | None \<Rightarrow> []), jn_fact_id = jl_fact_id row\<rparr>)"
  have sg: "signed (f l) = line_signed l" "jn_gl_account_code (f l) = jl_account_code l" "jn_amount (f l) = jl_amount l" for l
    by (cases "jl_posting l"; simp add: f_def signed_def line_signed_def)+
  have "line_net a (map f ?rows) = entry_net s (je_entry_id e) a" for a
  proof -
    have "line_net a (map f ?rows) = sum_list (map line_signed (filter (\<lambda>l. jl_account_code l = a) ?rows))"
      by (simp add: line_net_def filter_map comp_def sg)
    also have "\<dots> = entry_net s (je_entry_id e) a"
      unfolding entry_net_def by (rule sum_list_map_perm) (simp add: filter_filter_mset conj_commute)
    finally show ?thesis .
  qed
  moreover have "sum_list (map signed (map f ?rows)) = entry_total s (je_entry_id e)"
    by (simp add: entry_total_def comp_def sg)
  moreover have "\<forall>l \<in> set (map f ?rows). jn_amount l \<in> jl_amount ` set (journal_lines s)" by (auto simp: sg)
  moreover have "plan_of_entry sha256 s e = finish_plan sha256 (je_property_id e) (je_business_date e) (map f ?rows)"
    by (simp add: plan_of_entry_def Let_def f_def)
  ultimately show ?thesis by blast
qed

lemma plan_of_entry_ok:
  assumes "plan_of_entry sha256 s e = Inr plan" "journal_ok s"
  shows "line_net a (jp_lines plan) = entry_net s (je_entry_id e) a" "list_all (\<lambda>l. 0 < jn_amount l) (jp_lines plan)"
    "sum_list (map signed (jp_lines plan)) = 0" "jp_property_id plan = je_property_id e" "jp_business_date plan = je_business_date e"
proof -
  obtain ls where ls: "finish_plan sha256 (je_property_id e) (je_business_date e) ls = Inr plan" "\<forall>a. line_net a ls = entry_net s (je_entry_id e) a"
    "\<forall>l \<in> set ls. jn_amount l \<in> jl_amount ` set (journal_lines s)"
    using plan_of_entry_lines [of sha256 s e] assms(1) by auto
  then have "jp_lines plan = ls" "jp_property_id plan = je_property_id e" "jp_business_date plan = je_business_date e"
    "sum_list (map signed ls) = 0" by (auto simp: finish_plan_inr)
  with ls(2,3) assms(2) show "line_net a (jp_lines plan) = entry_net s (je_entry_id e) a" "list_all (\<lambda>l. 0 < jn_amount l) (jp_lines plan)"
    "sum_list (map signed (jp_lines plan)) = 0" "jp_property_id plan = je_property_id e" "jp_business_date plan = je_business_date e"
    by (auto simp: list_all_iff journal_ok_def)
qed

lemma plan_of_entry_balanced: "journal_ok s \<Longrightarrow> plan_of_entry sha256 s e \<noteq> Inl ValueError"
  using plan_of_entry_lines [of sha256 s e] finish_plan_error unfolding journal_ok_def by metis

lemma write_reversal_ok:
  assumes "write_reversal sha256 s i src actor = Inr (s', e)" "journal_ok s" "of_grain p d src prior"
    and "prior \<in> set (journal_entries s)" "je_entry_id prior = i"
  shows "journal_ok s'" "entry_net s' j a = entry_net s j a - (if j = je_entry_id e then entry_net s i a else 0)"
    and "grain_net s' p' d' src' a = grain_net s p' d' src' a - (if (p', d', src') = (p, d, src) then entry_net s i a else 0)"
    and "gl_ledger s' = gl_ledger s" "journal_entries s' = journal_entries s @ [e]" "je_entry_id e \<notin> je_entry_id ` set (journal_entries s)"
proof -
  have "find (\<lambda>e. je_entry_id e = i) (journal_entries s) = Some prior"
    using assms(2,4,5) find_unique [of je_entry_id "journal_entries s" prior] by (simp add: journal_ok_def)
  then obtain plan where plan: "plan_of_entry sha256 s prior = Inr plan" "write_entry s plan src actor (Some i) True = (s', e)"
    using assms(1,5) by (auto simp: write_reversal_def get_entry_def inr)
  note po = plan_of_entry_ok [OF plan(1) assms(2)] and w = write_entry_ok [OF plan(2) assms(2) po(2,3)]
  have g: "of_grain p' d' src' e \<longleftrightarrow> (p', d', src') = (p, d, src)" for p' d' src'
    using w(8) assms(3) po(4,5) by (auto simp: of_grain_def)
  show "journal_ok s'" "entry_net s' j a = entry_net s j a - (if j = je_entry_id e then entry_net s i a else 0)"
    "grain_net s' p' d' src' a = grain_net s p' d' src' a - (if (p', d', src') = (p, d, src) then entry_net s i a else 0)"
    "gl_ledger s' = gl_ledger s" "journal_entries s' = journal_entries s @ [e]" "je_entry_id e \<notin> je_entry_id ` set (journal_entries s)"
    using w g po(1) assms(5) by simp_all
qed

section \<open>Writing the ledger row\<close>

definition keeps_grain :: "(GlPostingLedger \<Rightarrow> GlPostingLedger) \<Rightarrow> bool" where
  "keeps_grain f \<longleftrightarrow> (\<forall>r. grain_of (f r) = grain_of r)"

lemma at_grain_iff: "at_grain p d src r \<longleftrightarrow> grain_of r = (p, d, src)"
  by (auto simp: at_grain_def grain_of_def)

lemma find_map_grain:
  assumes "keeps_grain f"
  shows "find (at_grain p' d' src') (map (\<lambda>r. if at_grain p d src r then f r else r) xs) =
    (if (p', d', src') = (p, d, src) then map_option f (find (at_grain p d src) xs) else find (at_grain p' d' src') xs)"
  using assms by (induction xs) (auto simp: at_grain_iff keeps_grain_def)

lemma find_append: "find P (xs @ ys) = (case find P xs of None \<Rightarrow> find P ys | Some x \<Rightarrow> Some x)"
  by (induction xs) auto

lemma ledger_row_set_row:
  assumes "keeps_grain f"
  shows "ledger_row (set_row s p d src st f) p' d' src' =
    (if (p', d', src') = (p, d, src) then Some (f (case ledger_row s p d src of Some r \<Rightarrow> r | None \<Rightarrow> new_row p d src st))
     else ledger_row s p' d' src')"
proof -
  have g: "grain_of (f (new_row p d src st)) = (p, d, src)" using assms by (simp add: keeps_grain_def grain_of_def new_row_def)
  show ?thesis
  proof (cases "ledger_row s p d src")
    case None
    then have "find (at_grain p d src) (gl_ledger s) = None" by (simp add: ledger_row_def)
    with None g show ?thesis
      by (auto simp: set_row_def ledger_row_def find_append at_grain_iff split: option.split)
  next
    case (Some r)
    then show ?thesis using find_map_grain [OF assms, of p' d' src' p d src "gl_ledger s"] by (auto simp: set_row_def ledger_row_def)
  qed
qed

lemma set_row_frame [simp]:
  "journal_entries (set_row s p d src st f) = journal_entries s" "journal_lines (set_row s p d src st f) = journal_lines s"
  "period_events (set_row s p d src st f) = period_events s" "gl_accounts (set_row s p d src st f) = gl_accounts s"
  by (simp_all add: set_row_def split: option.split)

lemma journal_frame:
  assumes "journal_entries s' = journal_entries s" "journal_lines s' = journal_lines s"
  shows "journal_ok s' = journal_ok s" "entry_net s' = entry_net s" "grain_net s' = grain_net s" "row_ok s' = row_ok s"
  using assms by (simp_all add: journal_ok_def entry_total_def entry_net_def [abs_def] grain_net_def [abs_def] row_ok_def [abs_def])

lemma set_row_ledger:
  assumes "keeps_grain f" "distinct (map grain_of (gl_ledger s))"
  shows "distinct (map grain_of (gl_ledger (set_row s p d src st f)))"
    and "r' \<in> set (gl_ledger (set_row s p d src st f)) \<Longrightarrow>
      r' \<in> set (gl_ledger s) \<or> r' = f (case ledger_row s p d src of Some r \<Rightarrow> r | None \<Rightarrow> new_row p d src st)"
proof -
  have g: "grain_of (f (new_row p d src st)) = (p, d, src)" using assms(1) by (simp add: keeps_grain_def grain_of_def new_row_def)
  have mg: "map (\<lambda>r. grain_of (if at_grain p d src r then f r else r)) (gl_ledger s) = map grain_of (gl_ledger s)"
    using assms(1) by (auto simp: keeps_grain_def)
  have "distinct (map (\<lambda>r. grain_of (if at_grain p d src r then f r else r)) (gl_ledger s))" unfolding mg by (rule assms(2))
  moreover have "(p, d, src) \<notin> set (map grain_of (gl_ledger s))" if "ledger_row s p d src = None"
    using that by (auto simp: ledger_row_def find_None_iff at_grain_iff)
  ultimately show "distinct (map grain_of (gl_ledger (set_row s p d src st f)))"
    using assms(2) g by (auto simp: set_row_def comp_def split: option.split)
  assume r': "r' \<in> set (gl_ledger (set_row s p d src st f))"
  show "r' \<in> set (gl_ledger s) \<or> r' = f (case ledger_row s p d src of Some r \<Rightarrow> r | None \<Rightarrow> new_row p d src st)"
  proof (cases "ledger_row s p d src")
    case None
    with r' show ?thesis by (auto simp: set_row_def)
  next
    case (Some r)
    have "x = r" if "x \<in> set (gl_ledger s)" "at_grain p d src x" for x
      using that Some assms(2) find_unique [of grain_of "gl_ledger s" x]
      by (simp add: ledger_row_def at_grain_iff [abs_def])
    with r' Some show ?thesis by (auto simp: set_row_def)
  qed
qed

text \<open>The ledger stays well formed when the grain's row is rewritten to a good row.\<close>

lemma set_row_ok:
  assumes "ledger_ok s" "keeps_grain f"
    and "row_ok s (f (case ledger_row s p d src of Some r \<Rightarrow> r | None \<Rightarrow> new_row p d src st))"
  shows "ledger_ok (set_row s p d src st f)"
proof -
  have "row_ok (set_row s p d src st f) = row_ok s" by (rule journal_frame) simp_all
  with assms set_row_ledger [OF assms(2)] show ?thesis unfolding ledger_ok_def by metis
qed

lemma current_set_row:
  assumes "keeps_grain f"
  shows "current_entry (set_row s p d src st f) p' d' src' =
    (if (p', d', src') = (p, d, src) then pl_entry_id (f (case ledger_row s p d src of Some r \<Rightarrow> r | None \<Rightarrow> new_row p d src st))
     else current_entry s p' d' src')"
  using assms by (simp add: current_entry_def ledger_row_set_row)

section \<open>Posting keeps the invariant\<close>

lemma row_ok_mono: "row_ok s r \<Longrightarrow> journal_entries t = journal_entries s @ es \<Longrightarrow> row_ok t r"
  by (fastforce simp: row_ok_def)

lemma current_exists:
  assumes "ledger_ok s" "current_entry s p d src = Some i"
  shows "\<exists>e \<in> set (journal_entries s). je_entry_id e = i \<and> of_grain p d src e"
proof -
  obtain r where r: "ledger_row s p d src = Some r" "pl_entry_id r = Some i"
    using assms(2) by (auto simp: current_entry_def bind_eq_Some_conv)
  then have "r \<in> set (gl_ledger s)" "at_grain p d src r" by (auto simp: ledger_row_def dest: find_SomeD)
  with assms(1) r(2) show ?thesis by (auto simp: ledger_ok_def row_ok_def at_grain_def)
qed

text \<open>\<open>t\<close> extends the journal of \<open>s\<close> so that the grain nets to zero and nothing else moved.\<close>

definition cleared :: "db \<Rightarrow> string \<Rightarrow> date \<Rightarrow> string \<Rightarrow> db \<Rightarrow> bool" where
  "cleared s p d src t \<longleftrightarrow>
     journal_ok t \<and> gl_ledger t = gl_ledger s \<and> (\<exists>es. journal_entries t = journal_entries s @ es)
   \<and> (\<forall>a. grain_net t p d src a = 0)
   \<and> (\<forall>p' d' src' a. (p', d', src') \<noteq> (p, d, src) \<longrightarrow> grain_net t p' d' src' a = grain_net s p' d' src' a)
   \<and> (\<forall>e \<in> set (journal_entries s). \<forall>a. entry_net t (je_entry_id e) a = entry_net s (je_entry_id e) a)"

lemma cleared_none: "gl_inv s \<Longrightarrow> current_entry s p d src = None \<Longrightarrow> cleared s p d src s"
  by (auto simp: gl_inv_def cleared_def nets_ok_def)

lemma cleared_reversal:
  assumes "gl_inv s" "current_entry s p d src = Some i" "write_reversal sha256 s i src actor = Inr (t, e)"
  shows "cleared s p d src t"
proof -
  have inv: "journal_ok s" "ledger_ok s" "nets_ok s" using assms(1) by (simp_all add: gl_inv_def)
  obtain prior where prior: "prior \<in> set (journal_entries s)" "je_entry_id prior = i" "of_grain p d src prior"
    using current_exists [OF inv(2) assms(2)] by blast
  note w = write_reversal_ok [OF assms(3) inv(1) prior(3,1,2)]
  have "grain_net s p d src a = entry_net s i a" for a using inv(3) assms(2) by (simp add: nets_ok_def)
  moreover have "je_entry_id x \<noteq> je_entry_id e" if "x \<in> set (journal_entries s)" for x using w(6) that by (metis imageI)
  ultimately show ?thesis unfolding cleared_def using w by simp
qed

lemma cleared_current:
  assumes "cleared s p d src t" "gl_inv s" "current_entry s p' d' src' = Some j"
  shows "entry_net t j a = entry_net s j a"
  using assms current_exists [of s p' d' src' j] by (auto simp: cleared_def gl_inv_def)

lemma cleared_drop:
  assumes "cleared s p d src t" "gl_inv s"
  shows "gl_inv (t\<lparr>gl_ledger := filter (\<lambda>r. \<not> at_grain p d src r) (gl_ledger t)\<rparr>)" (is "gl_inv ?u")
proof -
  have fr: "journal_ok ?u = journal_ok t" "entry_net ?u = entry_net t" "grain_net ?u = grain_net t" "row_ok ?u = row_ok t"
    by (rule journal_frame; simp)+
  have rows: "\<forall>r \<in> set (gl_ledger s). row_ok t r"
    using assms row_ok_mono unfolding gl_inv_def ledger_ok_def cleared_def by metis
  have flt: "find (at_grain p' d' src') (filter (\<lambda>r. \<not> at_grain p d src r) xs) =
      (if (p', d', src') = (p, d, src) then None else find (at_grain p' d' src') xs)" for p' d' src' xs
    by (induction xs) (auto simp: at_grain_iff)
  have cur: "current_entry ?u p' d' src' = (if (p', d', src') = (p, d, src) then None else current_entry s p' d' src')" for p' d' src'
    using assms(1) by (simp add: current_entry_def ledger_row_def flt cleared_def)
  have "nets_ok ?u"
    unfolding nets_ok_def fr cur
  proof (intro allI)
    fix p' d' src' a
    show "grain_net t p' d' src' a = (case if (p', d', src') = (p, d, src) then None else current_entry s p' d' src' of
        None \<Rightarrow> 0 | Some i \<Rightarrow> entry_net t i a)"
      using assms cleared_current [OF assms, of p' d' src'] by (auto simp: cleared_def gl_inv_def nets_ok_def split: option.split)
  qed
  moreover have "ledger_ok ?u"
    using assms(1,2) rows fr(4) by (auto simp: ledger_ok_def gl_inv_def cleared_def distinct_map_filter)
  ultimately show ?thesis using assms(1) fr(1) by (simp add: gl_inv_def cleared_def)
qed

lemma keeps_grain_posted: "keeps_grain (\<lambda>r. r\<lparr>pl_entry_id := i, pl_source_hash := h, pl_status := st, pl_message := m, pl_posted_at := n\<rparr>)"
  by (simp add: keeps_grain_def grain_of_def)

lemma cleared_post:
  assumes "cleared s p d src t" "gl_inv s" "write_entry t plan src actor None False = (u, e)" "plan_ok p d plan"
  shows "gl_inv (record_posted u p d src now e plan)" (is "gl_inv ?v")
proof -
  let ?f = "\<lambda>r. r\<lparr>pl_entry_id := Some (je_entry_id e), pl_source_hash := Some (jp_request_hash plan),
             pl_status := ''posted'', pl_message := None, pl_posted_at := now\<rparr>"
  have v: "?v = set_row u p d src ''posted'' ?f" by (simp add: record_posted_def)
  have jt: "journal_ok t" "gl_ledger t = gl_ledger s" using assms(1) by (simp_all add: cleared_def)
  have pl: "list_all (\<lambda>l. 0 < jn_amount l) (jp_lines plan)" "sum_list (map signed (jp_lines plan)) = 0"
    "jp_property_id plan = p" "jp_business_date plan = d" using assms(4) by (simp_all add: plan_ok_def)
  note w = write_entry_ok [OF assms(3) jt(1) pl(1,2)]
  have fr: "journal_ok ?v = journal_ok u" "entry_net ?v = entry_net u" "grain_net ?v = grain_net u" "row_ok ?v = row_ok u"
    unfolding v by (rule journal_frame; simp)+
  have g: "of_grain p' d' src' e \<longleftrightarrow> (p', d', src') = (p, d, src)" for p' d' src' using w(8) pl(3,4) by (auto simp: of_grain_def)
  have rows: "\<forall>r \<in> set (gl_ledger u). row_ok u r"
    using assms(1,2) row_ok_mono w(6,7) unfolding gl_inv_def ledger_ok_def cleared_def by (metis append_assoc)
  have lu: "ledger_ok u" using rows assms(2) w(6) jt(2) by (simp add: ledger_ok_def gl_inv_def)
  have row_g: "grain_of (case ledger_row u p d src of Some r \<Rightarrow> r | None \<Rightarrow> new_row p d src ''posted'') = (p, d, src)"
    using find_SomeD [of "at_grain p d src" "gl_ledger u"]
    by (auto simp: ledger_row_def at_grain_iff new_row_def grain_of_def split: option.split)
  have "ledger_ok ?v" unfolding v
  proof (rule set_row_ok [OF lu keeps_grain_posted])
    show "row_ok u (?f (case ledger_row u p d src of Some r \<Rightarrow> r | None \<Rightarrow> new_row p d src ''posted''))"
      using row_g w(7,9) g [of p d src] by (auto simp: row_ok_def grain_of_def)
  qed
  moreover have "nets_ok ?v"
    unfolding nets_ok_def
  proof (intro allI)
    fix p' d' src' a
    have cur: "current_entry ?v p' d' src' = (if (p', d', src') = (p, d, src) then Some (je_entry_id e) else current_entry s p' d' src')"
      unfolding v current_set_row [OF keeps_grain_posted] using w(6) jt(2) by (simp add: current_entry_def ledger_row_def)
    have old: "entry_net u j a = entry_net s j a" if "current_entry s p' d' src' = Some j" for j
    proof -
      have "j \<in> je_entry_id ` set (journal_entries s)" using current_exists [of s p' d' src' j] that assms(2) by (auto simp: gl_inv_def)
      then have "j \<in> je_entry_id ` set (journal_entries t)" using assms(1) by (auto simp: cleared_def)
      then have "j \<noteq> je_entry_id e" using w(3) by metis
      then show ?thesis using w(2) [of j a] cleared_current [OF assms(1,2) that] by simp
    qed
    have gn: "grain_net u p' d' src' a = (if (p', d', src') = (p, d, src) then line_net a (jp_lines plan) else grain_net s p' d' src' a)"
      using w(5) [of p' d' src' a] assms(1) by (auto simp: g cleared_def)
    show "grain_net ?v p' d' src' a = (case current_entry ?v p' d' src' of None \<Rightarrow> 0 | Some i \<Rightarrow> entry_net ?v i a)"
      unfolding fr cur gn using old assms(2) w(2) [of "je_entry_id e" a] w(4) [of a]
      by (auto simp: gl_inv_def nets_ok_def split: option.split)
  qed
  ultimately show ?thesis using w(1) fr(1) by (simp add: gl_inv_def)
qed

text \<open>Rewriting fields of the row other than the current entry.\<close>

lemma set_row_inv:
  assumes "gl_inv s" "keeps_grain f"
    and "row_ok s (f (case ledger_row s p d src of Some r \<Rightarrow> r | None \<Rightarrow> new_row p d src st))"
    and "pl_entry_id (f (case ledger_row s p d src of Some r \<Rightarrow> r | None \<Rightarrow> new_row p d src st)) = current_entry s p d src"
  shows "gl_inv (set_row s p d src st f)"
proof -
  have fr: "journal_ok (set_row s p d src st f) = journal_ok s" "entry_net (set_row s p d src st f) = entry_net s"
    "grain_net (set_row s p d src st f) = grain_net s" by (rule journal_frame; simp)+
  have "current_entry (set_row s p d src st f) p' d' src' = current_entry s p' d' src'" for p' d' src'
    using assms(4) by (simp add: current_set_row [OF assms(2)])
  then have "nets_ok (set_row s p d src st f) = nets_ok s" by (simp only: nets_ok_def fr)
  with assms set_row_ok [of s f p d src st] fr(1) show ?thesis by (simp add: gl_inv_def)
qed

lemma ledger_row_ok: "ledger_ok s \<Longrightarrow> ledger_row s p d src = Some r \<Longrightarrow> row_ok s r"
  by (auto simp: ledger_row_def ledger_ok_def dest: find_SomeD)

lemma record_failure_inv:
  assumes "gl_inv s"
  shows "gl_inv (fst (record_failure s p d src now m))"
proof -
  have row: "row_ok s r" if "ledger_row s p d src = Some r" for r
    using that assms by (simp add: ledger_row_ok gl_inv_def)
  show ?thesis
    unfolding record_failure_def fst_conv using assms row
    by (intro set_row_inv) (auto simp: keeps_grain_def grain_of_def new_row_def row_ok_def current_entry_def of_grain_def split: option.split)
qed

text \<open>The ways a posting can return.\<close>

lemma post_body_cases:
  assumes "post_body sha256 build s p d src actor now = Inr (s', out)"
  obtains (skipped) "build s p d = Inr None" "current_entry s p d src = None" "s' = s" "out = outcome Skipped None"
    | (gone) i period where "build s p d = Inr None" "current_entry s p d src = Some i" "period_key_for s p d = Inr period"
        "period_state s p period = ''closed''" "record_failure s p d src now (FactsGone p d period) = (s', out)"
    | (reversed) i t e period where "build s p d = Inr None" "current_entry s p d src = Some i" "period_key_for s p d = Inr period"
        "period_state s p period \<noteq> ''closed''" "write_reversal sha256 s i src actor = Inr (t, e)"
        "s' = t\<lparr>gl_ledger := filter (\<lambda>r. \<not> at_grain p d src r) (gl_ledger t)\<rparr>" "out = outcome Reversed (Some (je_entry_id e))"
    | (noop) plan r i period where "build s p d = Inr (Some plan)" "ledger_row s p d src = Some r" "pl_entry_id r = Some i"
        "pl_source_hash r = Some (jp_request_hash plan)"
        "s' = set_row s p d src ''posted'' (pl_message_update (\<lambda>_. None))" "out = outcome Noop (Some i)"
        "period_key_for s p d = Inr period"
    | (repost) plan i t e u e' period where "build s p d = Inr (Some plan)" "current_entry s p d src = Some i"
        "period_key_for s p d = Inr period" "period_state s p period \<noteq> ''closed''"
        "write_reversal sha256 s i src actor = Inr (t, e)" "write_entry t plan src actor None False = (u, e')"
        "s' = record_posted u p d src now e' plan" "out = outcome Reposted (Some (je_entry_id e'))"
    | (post) plan u e' period where "build s p d = Inr (Some plan)" "current_entry s p d src = None"
        "period_key_for s p d = Inr period" "period_state s p period \<noteq> ''closed''"
        "write_entry s plan src actor None False = (u, e')"
        "s' = record_posted u p d src now e' plan" "out = outcome Posted (Some (je_entry_id e'))"
proof -
  from assms obtain period built where b: "build s p d = Inr built" and per: "period_key_for s p d = Inr period" and rest:
    "(case built of
         None \<Rightarrow>
           (case current_entry s p d src of
              None \<Rightarrow> Inr (s, outcome Skipped None)
            | Some i \<Rightarrow>
                if period_state s p period = ''closed''
                then Inr (record_failure s p d src now (FactsGone p d period))
                else
                  bindE (write_reversal sha256 s i src actor) (\<lambda>(s1, reversal).
                    Inr (s1\<lparr>gl_ledger := filter (\<lambda>r. \<not> at_grain p d src r) (gl_ledger s1)\<rparr>,
                         outcome Reversed (Some (je_entry_id reversal)))))
       | Some plan \<Rightarrow>
           if current_entry s p d src \<noteq> None \<and> Option.bind (ledger_row s p d src) pl_source_hash = Some (jp_request_hash plan)
           then Inr (set_row s p d src ''posted'' (pl_message_update (\<lambda>_. None)), outcome Noop (current_entry s p d src))
           else if period_state s p period = ''closed'' then Inl (PeriodClosedError p period)
           else
             (case current_entry s p d src of
                Some i \<Rightarrow>
                  bindE (write_reversal sha256 s i src actor) (\<lambda>(s1, _).
                    let (s2, entry) = write_entry s1 plan src actor None False
                    in Inr (record_posted s2 p d src now entry plan, outcome Reposted (Some (je_entry_id entry))))
              | None \<Rightarrow>
                  let (s1, entry) = write_entry s plan src actor None False
                  in Inr (record_posted s1 p d src now entry plan, outcome Posted (Some (je_entry_id entry))))) = Inr (s', out)"
    unfolding post_body_def period_key_for_def Let_def current_entry_def [symmetric] bindE_eq_Inr_iff by blast
  show thesis
  proof (cases built)
    case None
    show thesis
    proof (cases "current_entry s p d src")
      case cur: None
      with rest None b show thesis by (intro skipped) simp_all
    next
      case (Some i)
      show thesis
      proof (cases "period_state s p period = ''closed''")
        case True
        with rest None Some b per show thesis by (intro gone) simp_all
      next
        case False
        with rest None Some b per show thesis by (auto simp: inr intro: reversed)
      qed
    qed
  next
    case (Some plan)
    show thesis
    proof (cases "current_entry s p d src \<noteq> None \<and> Option.bind (ledger_row s p d src) pl_source_hash = Some (jp_request_hash plan)")
      case True
      then obtain r i where "ledger_row s p d src = Some r" "pl_entry_id r = Some i" "pl_source_hash r = Some (jp_request_hash plan)"
        by (auto simp: current_entry_def bind_eq_Some_conv)
      with rest Some b True per show thesis by (intro noop) (auto simp: current_entry_def)
    next
      case False
      with rest Some have open_p: "period_state s p period \<noteq> ''closed''" by (auto split: if_splits)
      show thesis
      proof (cases "current_entry s p d src")
        case None
        obtain u e' where u: "write_entry s plan src actor None False = (u, e')" by fastforce
        with rest Some None open_p b per show thesis by (intro post) auto
      next
        case cur: (Some i)
        then obtain t e where t: "write_reversal sha256 s i src actor = Inr (t, e)"
          using rest Some False open_p by (auto simp: inr)
        obtain u e' where u: "write_entry t plan src actor None False = (u, e')" by fastforce
        then have "s' = record_posted u p d src now e' plan" "out = outcome Reposted (Some (je_entry_id e'))"
          using rest Some False cur open_p t by (auto split: if_splits)
        with Some b per cur open_p t u show thesis by (intro repost) simp_all
      qed
    qed
  qed
qed

context posting_source
begin

lemma post_body_inv:
  assumes "gl_inv s" "post_body sha256 build s p d src actor now = Inr (s', out)"
  shows "gl_inv s'"
  using assms(2)
proof (cases rule: post_body_cases)
  case (gone i period)
  then show ?thesis using record_failure_inv [OF assms(1), of p d src now "FactsGone p d period"] by simp
next
  case (reversed i t e period)
  then show ?thesis using cleared_drop cleared_reversal assms(1) by blast
next
  case (noop plan r i period)
  then have "row_ok s r" using assms(1) ledger_row_ok by (auto simp: gl_inv_def)
  with noop assms(1) show ?thesis unfolding noop(5)
    by (intro set_row_inv) (auto simp: keeps_grain_def grain_of_def row_ok_def current_entry_def)
next
  case (repost plan i t e u e' period)
  then show ?thesis using cleared_post cleared_reversal assms(1) build_ok by metis
next
  case (post plan u e' period)
  then show ?thesis using cleared_post cleared_none assms(1) build_ok by metis
qed (use assms(1) in simp)

lemma post_grain_inv:
  assumes "gl_inv s" "post_grain sha256 build s p d src actor now = Inr (s', out)"
  shows "gl_inv s'"
proof (cases "post_body sha256 build s p d src actor now")
  case (Inl e)
  then have "s' = fst (record_failure s p d src now (Refused e))" using assms(2) by (auto simp: post_grain_def split: if_splits)
  then show ?thesis using record_failure_inv [OF assms(1)] by simp
next
  case (Inr r)
  then show ?thesis using post_body_inv assms by (auto simp: post_grain_def)
qed

end

section \<open>Posting only appends\<close>

definition appends :: "db \<Rightarrow> db \<Rightarrow> bool" where
  "appends s s' \<longleftrightarrow> (\<exists>es ls G. s' = s\<lparr>journal_entries := journal_entries s @ es, journal_lines := journal_lines s @ ls, gl_ledger := G\<rparr>)"

lemma appends_refl: "appends s s"
  unfolding appends_def by (intro exI [of _ "[]"] exI [of _ "gl_ledger s"]) simp

lemma appends_trans: "appends s t \<Longrightarrow> appends t u \<Longrightarrow> appends s u"
  unfolding appends_def by (elim exE) (intro exI, simp)

lemma appends_ledger: "appends s (s\<lparr>gl_ledger := G\<rparr>)"
  unfolding appends_def by (intro exI [of _ "[]"] exI [of _ G]) simp

lemma appends_set_row: "appends s (set_row s p d src st f)"
  by (simp add: set_row_def appends_ledger split: option.split)

lemma appends_write:
  assumes "write_entry s plan src actor ro flip = (t, e)"
  shows "appends s t"
proof -
  obtain rows where "t = s\<lparr>journal_entries := journal_entries s @ [e], journal_lines := journal_lines s @ rows\<rparr>"
    using write_entry_shape [OF assms] by blast
  then have "t = s\<lparr>journal_entries := journal_entries s @ [e], journal_lines := journal_lines s @ rows, gl_ledger := gl_ledger s\<rparr>" by simp
  then show ?thesis unfolding appends_def by blast
qed

lemma appends_reversal: "write_reversal sha256 s i src actor = Inr (t, e) \<Longrightarrow> appends s t"
  by (auto simp: write_reversal_def inr intro: appends_write)

lemma post_body_appends:
  assumes "post_body sha256 build s p d src actor now = Inr (s', out)"
  shows "appends s s'"
  using assms
proof (cases rule: post_body_cases)
  case (gone i period)
  from gone(5) show ?thesis unfolding record_failure_def using appends_set_row by blast
next
  case (reversed i t e period)
  then show ?thesis using appends_trans [OF appends_reversal appends_ledger] by blast
next
  case (repost plan i t e u e' period)
  then show ?thesis unfolding record_posted_def
    using appends_trans [OF appends_reversal appends_trans [OF appends_write appends_set_row]] by blast
next
  case (post plan u e' period)
  then show ?thesis unfolding record_posted_def using appends_trans [OF appends_write appends_set_row] by blast
qed (auto intro: appends_refl appends_set_row)

lemma post_grain_appends:
  assumes "post_grain sha256 build s p d src actor now = Inr (s', out)"
  shows "appends s s'"
proof (cases "post_body sha256 build s p d src actor now")
  case (Inl e)
  then have "s' = fst (record_failure s p d src now (Refused e))" using assms by (auto simp: post_grain_def split: if_splits)
  then show ?thesis by (simp add: record_failure_def appends_set_row)
next
  case (Inr r)
  then show ?thesis using post_body_appends assms by (auto simp: post_grain_def)
qed

lemma source_cases:
  assumes "dict_index (SOURCES sha256) src = Inr build"
  obtains "src = ''pms_daily''" "build = build_pms_daily_plan sha256 None None" | "src = ''payroll_accrual''" "build = build_payroll_accrual_plan sha256"
  using assms by (auto simp: SOURCES_def dict_index_def split: if_splits)

lemma post_and_record_ok:
  assumes "post_and_record sha256 s p d src actor now = Inr (s', out)"
  shows "gl_inv s \<Longrightarrow> gl_inv s'" "appends s s'"
proof -
  consider "s' = s" | build where "dict_index (SOURCES sha256) src = Inr build" "post_grain sha256 build s p d src actor now = Inr (s', out)"
    using assms by (auto simp: post_and_record_def inr split: if_splits)
  then have "(gl_inv s \<longrightarrow> gl_inv s') \<and> appends s s'"
  proof cases
    case 2
    then show ?thesis using pms.post_grain_inv accrual.post_grain_inv post_grain_appends by (metis source_cases)
  qed (auto intro: appends_refl)
  then show "gl_inv s \<Longrightarrow> gl_inv s'" "appends s s'" by blast+
qed

end
