(* ===== verification/GlReach.thy ===== *)
theory GlReach
  imports GlInvariant
begin

text \<open>
  The general ledger as a state machine: which states the operations can reach, and what
  holds of all of them.
\<close>

section \<open>Steps\<close>

text \<open>
  A posting, a close, a reopen, or a change of what posting reads: the facts (ingestion,
  promotion and demotion of timecards), the chart and the fiscal calendars.
\<close>

inductive gl_step :: "(string \<Rightarrow> string) \<Rightarrow> db \<Rightarrow> db \<Rightarrow> bool" for sha256 where
  post: "post_and_record sha256 s p d src actor now = Inr (s', out) \<Longrightarrow> gl_step sha256 s s'"
| close: "close_period s p k actor = Inr (s', gaps) \<Longrightarrow> gl_step sha256 s s'"
| reopen: "reopen_period s p k actor reason = Inr s' \<Longrightarrow> gl_step sha256 s s'"
| facts: "gl_step sha256 s (s\<lparr>financial_facts := F\<rparr>)"
| labor: "gl_step sha256 s (s\<lparr>labor_facts := L\<rparr>)"
| accounts: "gl_step sha256 s (s\<lparr>gl_accounts := A\<rparr>)"
| calendars: "gl_step sha256 s (s\<lparr>fiscal_calendars := C\<rparr>)"

inductive gl_reachable :: "(string \<Rightarrow> string) \<Rightarrow> db \<Rightarrow> bool" for sha256 where
  init: "journal_entries s = [] \<Longrightarrow> journal_lines s = [] \<Longrightarrow> gl_ledger s = [] \<Longrightarrow> period_events s = [] \<Longrightarrow> gl_reachable sha256 s"
| step: "gl_reachable sha256 s \<Longrightarrow> gl_step sha256 s s' \<Longrightarrow> gl_reachable sha256 s'"

inductive_cases gl_stepE: "gl_step sha256 s s'"

lemma gl_inv_frame:
  assumes "journal_entries s' = journal_entries s" "journal_lines s' = journal_lines s" "gl_ledger s' = gl_ledger s"
  shows "gl_inv s' = gl_inv s"
proof -
  have "current_entry s' = current_entry s" using assms(3) by (simp add: fun_eq_iff current_entry_def ledger_row_def)
  then show ?thesis using journal_frame [OF assms(1,2)] assms(3) by (simp only: gl_inv_def ledger_ok_def nets_ok_def)
qed

lemma period_ops_frame:
  "close_period s p k actor = Inr (s', gaps) \<Longrightarrow> journal_entries s' = journal_entries s \<and> journal_lines s' = journal_lines s \<and> gl_ledger s' = gl_ledger s"
  "reopen_period s p k actor reason = Inr s' \<Longrightarrow> journal_entries s' = journal_entries s \<and> journal_lines s' = journal_lines s \<and> gl_ledger s' = gl_ledger s"
  by (auto simp: close_period_def reopen_period_def inr add_period_event_def split: if_splits)

lemma gl_step_inv: "gl_step sha256 s s' \<Longrightarrow> gl_inv s \<Longrightarrow> gl_inv s'"
proof (induction rule: gl_step.induct)
  case (post s p d src actor now s' out)
  then show ?case using post_and_record_ok(1) by blast
next
  case (close s p k actor s' gaps)
  then show ?case using period_ops_frame(1) gl_inv_frame by blast
next
  case (reopen s p k actor reason s')
  then show ?case using period_ops_frame(2) gl_inv_frame by blast
next
  case (facts s F)
  then show ?case using gl_inv_frame [of "s\<lparr>financial_facts := F\<rparr>" s] by simp
next
  case (labor s L)
  then show ?case using gl_inv_frame [of "s\<lparr>labor_facts := L\<rparr>" s] by simp
next
  case (accounts s A)
  then show ?case using gl_inv_frame [of "s\<lparr>gl_accounts := A\<rparr>" s] by simp
next
  case (calendars s C)
  then show ?case using gl_inv_frame [of "s\<lparr>fiscal_calendars := C\<rparr>" s] by simp
qed

lemma gl_reachable_inv: "gl_reachable sha256 s \<Longrightarrow> gl_inv s"
proof (induction rule: gl_reachable.induct)
  case (init s)
  then show ?case
    by (simp add: gl_inv_def journal_ok_def ledger_ok_def nets_ok_def entry_total_def grain_net_def current_entry_def ledger_row_def)
qed (rule gl_step_inv)

lemma gl_step_appends:
  "gl_step sha256 s s' \<Longrightarrow> \<exists>es ls. journal_entries s' = journal_entries s @ es \<and> journal_lines s' = journal_lines s @ ls"
proof (induction rule: gl_step.induct)
  case (post s p d src actor now s' out)
  then show ?case using post_and_record_ok(2) unfolding appends_def by fastforce
next
  case (close s p k actor s' gaps)
  then show ?case using period_ops_frame(1) by fastforce
next
  case (reopen s p k actor reason s')
  then show ?case using period_ops_frame(2) by fastforce
qed simp_all

section \<open>Posting twice\<close>

lemma posted_row:
  assumes "post_body sha256 build s p d src actor now = Inr (s', out)" "oc_status out \<in> {Posted, Reposted, Noop}"
  shows "\<exists>plan r i period. build s p d = Inr (Some plan) \<and> period_key_for s p d = Inr period \<and> ledger_row s' p d src = Some r
    \<and> pl_entry_id r = Some i \<and> pl_source_hash r = Some (jp_request_hash plan) \<and> pl_message r = None \<and> oc_entry_id out = Some i"
  using assms(1)
proof (cases rule: post_body_cases)
  case (noop plan r i period)
  then show ?thesis by (auto simp: ledger_row_set_row keeps_grain_def grain_of_def outcome_def)
next
  case (repost plan i t e u e' period)
  then show ?thesis by (auto simp: record_posted_def ledger_row_set_row keeps_grain_posted outcome_def)
next
  case (post plan u e' period)
  then show ?thesis by (auto simp: record_posted_def ledger_row_set_row keeps_grain_posted outcome_def)
qed (use assms(2) in \<open>auto simp: outcome_def record_failure_def\<close>)

lemma set_row_clean:
  assumes "distinct (map grain_of (gl_ledger s))" "ledger_row s p d src = Some r" "pl_message r = None"
  shows "set_row s p d src st (pl_message_update (\<lambda>_. None)) = s"
proof -
  have "x = r" if "x \<in> set (gl_ledger s)" "at_grain p d src x" for x
    using that assms(1,2) find_unique [of grain_of "gl_ledger s" x] by (simp add: ledger_row_def at_grain_iff [abs_def])
  then have "map (\<lambda>x. if at_grain p d src x then x\<lparr>pl_message := None\<rparr> else x) (gl_ledger s) = gl_ledger s"
    using assms(3) by (intro map_idI) auto
  then show ?thesis using assms(2) by (simp add: set_row_def)
qed

context posting_source
begin

lemma post_grain_again:
  assumes "gl_inv s" "post_grain sha256 build s p d src actor now = Inr (s', out)" "oc_status out \<in> {Posted, Reposted, Noop}"
  shows "post_grain sha256 build s' p d src actor' now' = Inr (s', outcome Noop (oc_entry_id out))"
proof -
  have body: "post_body sha256 build s p d src actor now = Inr (s', out)"
    using assms(2,3) by (auto simp: post_grain_def record_failure_def split: sum.splits if_splits)
  obtain plan r i period where r: "build s p d = Inr (Some plan)" "period_key_for s p d = Inr period" "ledger_row s' p d src = Some r"
    "pl_entry_id r = Some i" "pl_source_hash r = Some (jp_request_hash plan)" "pl_message r = None" "oc_entry_id out = Some i"
    using posted_row [OF body assms(3)] by blast
  obtain E L G where s': "s' = s\<lparr>journal_entries := E, journal_lines := L, gl_ledger := G\<rparr>"
    using post_grain_appends [OF assms(2)] unfolding appends_def by blast
  then have "s' = s\<lparr>journal_entries := E, journal_lines := L, gl_ledger := G, period_events := period_events s\<rparr>" by simp
  then have b: "build s' p d = Inr (Some plan)" using build_frame [where s = s and P = "period_events s"] r(1) by (simp only:)
  obtain cfg where cfg: "require_config (config_for s' p) = Inr cfg" "period_containing cfg d = Inr period"
    using r(2) by (auto simp: period_key_for_def inr config_for_def s')
  have "gl_inv s'" using post_grain_inv assms(1,2) by blast
  then have "set_row s' p d src ''posted'' (pl_message_update (\<lambda>_. None)) = s'"
    using set_row_clean r(3,6) by (auto simp: gl_inv_def ledger_ok_def)
  then show ?thesis by (simp add: post_grain_def post_body_def cfg b r(3-7) Let_def)
qed

end

section \<open>Closed periods\<close>

lemma post_grain_closed:
  assumes "post_grain sha256 build s p d src actor now = Inr (s', out)" "period_key_for s p d = Inr k" "period_state s p k = ''closed''"
  shows "journal_entries s' = journal_entries s \<and> journal_lines s' = journal_lines s"
proof (cases "post_body sha256 build s p d src actor now")
  case (Inl e)
  then have "s' = fst (record_failure s p d src now (Refused e))" using assms(1) by (auto simp: post_grain_def split: if_splits)
  then show ?thesis by (simp add: record_failure_def)
next
  case (Inr r)
  then have "post_body sha256 build s p d src actor now = Inr (s', out)" using assms(1) by (simp add: post_grain_def)
  then show ?thesis
    by (cases rule: post_body_cases) (use assms(2,3) in \<open>auto simp: record_failure_def\<close>)
qed

lemma sort_key_snoc_least: "(\<And>y. y \<in> set xs \<Longrightarrow> f x < f y) \<Longrightarrow> sort_key f (xs @ [x]) = x # sort_key f xs"
  by (induction xs) (auto simp: not_le [symmetric])

lemma next_id_greater: "i \<in> set ids \<Longrightarrow> i < next_id ids"
  using fold_max_ge(1) [of i ids 0] by (simp add: next_id_def)

lemma period_state_event:
  "period_state (add_period_event s p k ev actor reason) p' k' =
     (if (p', k') = (p, k) then (if ev = ''close'' then ''closed'' else ''open'') else period_state s p' k')"
proof -
  let ?new = "\<lparr>pe_period_event_id = next_id (map pe_period_event_id (period_events s)), pe_property_id = p,
          pe_period_key = k, pe_event = ev, pe_actor_subject = actor, pe_reason = reason\<rparr>"
  let ?evs = "filter (\<lambda>e. pe_property_id e = p \<and> pe_period_key e = k) (period_events s)"
  have "sort_key (\<lambda>e. - pe_period_event_id e) (?evs @ [?new]) = ?new # sort_key (\<lambda>e. - pe_period_event_id e) ?evs"
    using next_id_greater [of _ "map pe_period_event_id (period_events s)"] by (intro sort_key_snoc_least) auto
  then show ?thesis by (auto simp: period_state_def add_period_event_def Let_def)
qed

lemma close_period_state:
  assumes "close_period s p k actor = Inr (s', gaps)"
  shows "period_state s' p' k' = (if (p', k') = (p, k) then ''closed'' else period_state s p' k')"
  using assms by (auto simp: close_period_def inr period_state_event split: if_splits)

lemma reopen_period_state:
  assumes "reopen_period s p k actor reason = Inr s'"
  shows "period_state s' p' k' = (if (p', k') = (p, k) then ''open'' else period_state s p' k')"
proof -
  have "period_state s p k = ''open''" if "period_state s p k \<noteq> ''closed''" using that by (auto simp: period_state_def Let_def split: if_splits)
  then show ?thesis using assms by (auto simp: reopen_period_def period_state_event split: if_splits)
qed

section \<open>A posted day\<close>

lemma example_gl_period:
  "config_for example_gl ''SJCES'' = Some example_445" "config_ok example_445" "\<exists>k. period_containing example_445 738000 = Inr k"
proof -
  show ok: "config_ok example_445" by (simp add: config_ok_def example_445_def)
  show "config_for example_gl ''SJCES'' = Some example_445" by (simp add: config_for_def example_gl_def example_445_def)
  have "year_of 738000 = 2021" by (simp add: year_of_def days_before_year_def)
  then show "\<exists>k. period_containing example_445 738000 = Inr k" using period_containing_ok [OF ok, of 738000] by auto
qed

lemma example_gl_init: "gl_reachable sha256 example_gl" "has_active_chart example_gl"
  by (auto simp: example_gl_def empty_db_def has_active_chart_def intro!: gl_reachable.init)

lemma example_gl_posts:
  "\<exists>s' out. post_and_record id example_gl ''SJCES'' 738000 ''pms_daily'' ''ops'' 0 = Inr (s', out) \<and> oc_status out = Posted"
proof -
  obtain plan k where p: "build_pms_daily_plan id None None example_gl ''SJCES'' 738000 = Inr (Some plan)"
    and k: "period_containing example_445 738000 = Inr k" using example_gl_plan example_gl_period(3) by blast
  have row: "ledger_row example_gl q d src = None" "period_state example_gl q key = ''open''" for q d src key
    by (simp_all add: ledger_row_def period_state_def example_gl_def empty_db_def)
  show ?thesis
    by (simp add: post_and_record_def example_gl_init(2) SOURCES_def dict_index_def post_grain_def post_body_def p k row
        example_gl_period(1) require_config_def Let_def outcome_def case_prod_unfold)
qed

section \<open>Properties\<close>

text \<open>
  C37.  The journal stays balanced and tells the truth: after any sequence of postings,
  closes, reopens and changes of facts, chart and calendars, every entry's lines are
  positive and its debits equal its credits; and for every property, date and source the
  entries ever posted (reversals included) net, account by account, to exactly the
  entry the posting ledger calls current, or to zero when there is none.
\<close>

theorem journal_truthful:
  assumes "gl_reachable sha256 s"
  shows "(\<forall>i. entry_total s i = 0) \<and> (\<forall>l \<in> set (journal_lines s). 0 < jl_amount l)
    \<and> grain_net s p d src a = (case current_entry s p d src of None \<Rightarrow> 0 | Some i \<Rightarrow> entry_net s i a)"
  using gl_reachable_inv [OF assms] by (simp add: gl_inv_def journal_ok_def nets_ok_def)

theorem journal_truthful_witness:
  "\<exists>s' out. post_and_record id example_gl ''SJCES'' 738000 ''pms_daily'' ''ops'' 0 = Inr (s', out) \<and> oc_status out = Posted
    \<and> (\<forall>i. entry_total s' i = 0)"
proof -
  obtain s' out where p: "post_and_record id example_gl ''SJCES'' 738000 ''pms_daily'' ''ops'' 0 = Inr (s', out)" "oc_status out = Posted"
    using example_gl_posts by blast
  from p(1) have "gl_reachable id s'" by (intro gl_reachable.step [OF example_gl_init(1)] gl_step.post)
  from journal_truthful [OF this] p show ?thesis by blast
qed

text \<open>
  C38.  The journal is append-only: no step changes or removes an entry or a line that is
  already there.
\<close>

theorem journal_append_only:
  assumes "gl_step sha256 s s'"
  shows "\<exists>es ls. journal_entries s' = journal_entries s @ es \<and> journal_lines s' = journal_lines s @ ls"
  using assms by (rule gl_step_appends)

theorem journal_append_only_witness:
  "\<exists>s' out es. post_and_record id example_gl ''SJCES'' 738000 ''pms_daily'' ''ops'' 0 = Inr (s', out) \<and> oc_status out = Posted
    \<and> journal_entries s' = journal_entries example_gl @ es"
proof -
  obtain s' out where p: "post_and_record id example_gl ''SJCES'' 738000 ''pms_daily'' ''ops'' 0 = Inr (s', out)" "oc_status out = Posted"
    using example_gl_posts by blast
  from journal_append_only [OF gl_step.post [OF p(1)]] p show ?thesis by blast
qed

text \<open>
  C39.  Posting is idempotent: once a grain is posted (or found posted), posting it again
  with unchanged facts is a no-op that reports the same entry and changes nothing, whoever
  calls it and whenever.
\<close>

theorem post_twice_noop:
  assumes "gl_reachable sha256 s" "post_and_record sha256 s p d src actor now = Inr (s', out)"
    and "oc_status out \<in> {Posted, Reposted, Noop}"
  shows "post_and_record sha256 s' p d src actor' now' = Inr (s', outcome Noop (oc_entry_id out))"
proof -
  have on: "has_active_chart s" using assms(2,3) by (auto simp: post_and_record_def split: if_splits)
  then obtain build where b: "dict_index (SOURCES sha256) src = Inr build" "post_grain sha256 build s p d src actor now = Inr (s', out)"
    using assms(2) by (auto simp: post_and_record_def inr)
  have "post_grain sha256 build s' p d src actor' now' = Inr (s', outcome Noop (oc_entry_id out))"
    using b(1) pms.post_grain_again accrual.post_grain_again gl_reachable_inv [OF assms(1)] b(2) assms(3) by (metis source_cases)
  moreover have "has_active_chart s'"
    using on post_grain_appends [OF b(2)] by (auto simp: appends_def has_active_chart_def)
  ultimately show ?thesis using b(1) by (simp add: post_and_record_def)
qed

theorem post_twice_noop_witness:
  "\<exists>s' out. post_and_record id example_gl ''SJCES'' 738000 ''pms_daily'' ''ops'' 0 = Inr (s', out) \<and> oc_status out = Posted
    \<and> post_and_record id s' ''SJCES'' 738000 ''pms_daily'' ''audit'' 9 = Inr (s', outcome Noop (oc_entry_id out))"
proof -
  obtain s' out where p: "post_and_record id example_gl ''SJCES'' 738000 ''pms_daily'' ''ops'' 0 = Inr (s', out)" "oc_status out = Posted"
    using example_gl_posts by blast
  from post_twice_noop [OF example_gl_init(1) p(1)] p show ?thesis by auto
qed

text \<open>
  C40.  A closed period is frozen: no posting dated inside it, of any source, adds anything to
  the journal.
\<close>

theorem closed_period_frozen:
  assumes "period_key_for s p d = Inr k" "period_state s p k = ''closed''"
    and "post_and_record sha256 s p d src actor now = Inr (s', out)"
  shows "journal_entries s' = journal_entries s \<and> journal_lines s' = journal_lines s"
  using assms post_grain_closed by (auto simp: post_and_record_def inr split: if_splits)

theorem closed_period_frozen_witness:
  "\<exists>k s' out. period_state (add_period_event example_gl ''SJCES'' k ''close'' ''cfo'' None) ''SJCES'' k = ''closed''
    \<and> post_and_record id (add_period_event example_gl ''SJCES'' k ''close'' ''cfo'' None) ''SJCES'' 738000 ''pms_daily'' ''ops'' 0 = Inr (s', out)
    \<and> journal_entries s' = []"
proof -
  obtain plan k where p: "build_pms_daily_plan id None None example_gl ''SJCES'' 738000 = Inr (Some plan)"
    and k: "period_containing example_445 738000 = Inr k" using example_gl_plan example_gl_period(3) by blast
  define t where "t = add_period_event example_gl ''SJCES'' k ''close'' ''cfo'' None"
  have st: "period_state t ''SJCES'' k = ''closed''" by (simp add: t_def period_state_event)
  obtain P where "t = example_gl\<lparr>period_events := P\<rparr>" by (simp add: t_def add_period_event_def)
  then have t: "t = example_gl\<lparr>journal_entries := journal_entries example_gl, journal_lines := journal_lines example_gl,
      gl_ledger := gl_ledger example_gl, period_events := P\<rparr>" by simp
  have b: "build_pms_daily_plan id None None t ''SJCES'' 738000 = Inr (Some plan)"
    unfolding t pms.build_frame by (rule p)
  have on: "has_active_chart t" "config_for t ''SJCES'' = Some example_445" "journal_entries t = []" "ledger_row t ''SJCES'' 738000 src = None" for src
    unfolding t using example_gl_init(2) example_gl_period(1)
    by (simp_all add: has_active_chart_def config_for_def ledger_row_def example_gl_def empty_db_def)
  have "\<exists>s' out. post_and_record id t ''SJCES'' 738000 ''pms_daily'' ''ops'' 0 = Inr (s', out)"
    by (simp add: post_and_record_def on SOURCES_def dict_index_def post_grain_def post_body_def b k st require_config_def Let_def record_failure_def)
  moreover have "period_key_for t ''SJCES'' 738000 = Inr k" by (simp add: period_key_for_def on require_config_def k)
  ultimately show ?thesis using closed_period_frozen [of t "''SJCES''" 738000 k] st on(3) unfolding t_def by metis
qed

text \<open>
   Close and reopen are exact: after a close the period is closed, after a reopen it is
  open, and no other period of any property changes state.
\<close>

theorem close_reopen_exact:
  assumes "close_period s p k actor = Inr (s1, gaps)" "reopen_period s1 p k actor' reason = Inr s2"
  shows "period_state s1 p k = ''closed'' \<and> period_state s2 p k = ''open'' \<and>
    ((p', k') \<noteq> (p, k) \<longrightarrow> period_state s1 p' k' = period_state s p' k' \<and> period_state s2 p' k' = period_state s p' k')"
  using close_period_state [OF assms(1)] reopen_period_state [OF assms(2)] by auto

theorem close_reopen_exact_witness:
  "\<exists>s1 gaps s2. close_period example_gl ''SJCES'' (period_key_of 2021 7) ''cfo'' = Inr (s1, gaps)
    \<and> reopen_period s1 ''SJCES'' (period_key_of 2021 7) ''cfo'' ''late invoice'' = Inr s2
    \<and> period_state s2 ''SJCES'' (period_key_of 2021 7) = ''open''"
proof -
  have "\<exists>s1 gaps. close_period example_gl ''SJCES'' (period_key_of 2021 7) ''cfo'' = Inr (s1, gaps)"
    using resolve_period_start [OF example_gl_period(2), of 2021 7]
    by (auto simp: close_period_def period_gaps_def example_gl_period(1) require_config_def Let_def)
  moreover have "\<exists>s2. reopen_period s1 ''SJCES'' key ''cfo'' ''late invoice'' = Inr s2" for s1 key
    by (simp add: reopen_period_def strip_def is_space_def)
  ultimately show ?thesis using close_reopen_exact by blast
qed

text \<open>
  A close under an unpadded key does not close the period: the key \<^verbatim>\<open>2026-P1\<close> resolves
  to the bounds of \<^verbatim>\<open>2026-P01\<close> and the handler answers that it is closed, but the state of
  the period under its own key, which is the one postings are checked against, is what it
  was before.
\<close>

theorem unpadded_close_ineffective:
  assumes "config_for s p = Some cfg" "config_ok cfg" "1 \<le> y" "y \<le> 9998" "1 \<le> n" "n \<le> 9"
    and unpadded: "key = str_int y @ ''-P'' @ str_int n"
  shows "\<exists>s' r. close_period_handler s key p subject = Inr (s', r) \<and> cr_state r = ''closed''
    \<and> resolve_period cfg key = resolve_period cfg (period_key_of y n)
    \<and> period_state s' p (period_key_of y n) = period_state s p (period_key_of y n)"
proof -
  have k: "key = str_int y @ ''-P'' @ zpad 0 (str_int n)" by (simp add: unpadded zpad_def)
  have same: "resolve_period cfg key = resolve_period cfg (period_key_of y n)"
    using parse_key_padded [of y n 0] parse_key_of [of y n] assms(3-6) by (simp add: resolve_period_def k)
  have len: "length (str_nat (nat n)) = 1" using assms(5,6) by (simp add: str_nat.simps)
  have ne: "period_key_of y n \<noteq> key"
    using len assms(5) by (simp add: unpadded period_key_of_def zpad_def str_int_def)
  obtain a b where "resolve_period cfg key = Inr (a, b)"
    using same resolve_period_start [OF assms(2-5)] assms(6) by auto
  then obtain gaps where "period_gaps s p key = Inr gaps" by (auto simp: period_gaps_def assms(1) require_config_def Let_def)
  then obtain s' where c: "close_period s p key subject = Inr (s', gaps)" by (simp add: close_period_def)
  have st: "period_state s' p key = ''closed''" "period_state s' p (period_key_of y n) = period_state s p (period_key_of y n)"
    using close_period_state [OF c] ne by auto
  show ?thesis using same st
    by (intro exI [of _ s'] exI [of _ "\<lparr>cr_period_key = key, cr_state = ''closed'', cr_gaps = gaps\<rparr>"]) (simp add: close_period_handler_def run_query_def c)
qed

theorem unpadded_close_ineffective_witness:
  "\<exists>s' r. close_period_handler example_gl (str_int 2021 @ ''-P'' @ str_int 7) ''SJCES'' ''cfo'' = Inr (s', r) \<and> cr_state r = ''closed''
    \<and> period_state s' ''SJCES'' (period_key_of 2021 7) = ''open''"
proof -
  have "period_state example_gl ''SJCES'' (period_key_of 2021 7) = ''open''" by (simp add: period_state_def example_gl_def empty_db_def)
  then show ?thesis
    using unpadded_close_ineffective [OF example_gl_period(1,2), of 2021 7 _ "''cfo''"] by auto
qed

end
