(* ===== verification/GlChart.thy ===== *)
theory GlChart
  imports GlReach
begin

text \<open>
  \<^verbatim>\<open>usali/gl_chart.py\<close> (seeding a tenant's chart of accounts), \<^verbatim>\<open>gl_api.put_account\<close>, and the
  trial balance of \<^verbatim>\<open>usali/reporting.py\<close>.  The template is the list the YAML file parses
  to; reading it is not modelled.  A flush that violates a constraint of \<^verbatim>\<open>gl_account\<close>
  raises \<open>IntegrityError\<close>.
\<close>

section \<open>Seeding\<close>

record TemplateAccount =
  ta_account_code :: string
  ta_name :: string
  ta_account_type :: string
  ta_usali_schedule_id :: "int option"
  ta_usali_major_category :: "string option"
  ta_usali_sub_category :: "string option"
  ta_usali_line_item :: "string option"
  ta_system_role :: "string option"

definition ACCOUNT_TYPES :: "string list" where
  "ACCOUNT_TYPES = [''asset'', ''contra_asset'', ''liability'', ''equity'', ''income'', ''expense'']"

definition roles_of :: "GlAccount list \<Rightarrow> (int \<times> string) list" where
  "roles_of as = List.map_filter (\<lambda>a. map_option (Pair (ga_org_id a)) (ga_system_role a)) as"

text \<open>The primary key, \<^verbatim>\<open>uq_gl_account_org_role\<close> and \<^verbatim>\<open>ck_gl_account_type\<close>.\<close>

definition accounts_ok :: "GlAccount list \<Rightarrow> bool" where
  "accounts_ok as \<longleftrightarrow> distinct (map (\<lambda>a. (ga_org_id a, ga_account_code a)) as) \<and> distinct (roles_of as)
     \<and> list_all (\<lambda>a. ga_account_type a \<in> set ACCOUNT_TYPES) as"

definition account_of :: "int \<Rightarrow> TemplateAccount \<Rightarrow> GlAccount" where
  "account_of org_id t =
     \<lparr>ga_org_id = org_id, ga_account_code = ta_account_code t, ga_name = ta_name t, ga_account_type = ta_account_type t,
      ga_usali_schedule_id = ta_usali_schedule_id t, ga_usali_major_category = ta_usali_major_category t,
      ga_usali_sub_category = ta_usali_sub_category t, ga_usali_line_item = ta_usali_line_item t,
      ga_system_role = ta_system_role t, ga_is_active = True\<rparr>"

definition flush_accounts :: "db \<Rightarrow> GlAccount list \<Rightarrow> db res" where
  "flush_accounts s as = (if accounts_ok as then Inr (s\<lparr>gl_accounts := as\<rparr>) else Inl IntegrityError)"

definition seed_chart :: "db \<Rightarrow> int \<Rightarrow> TemplateAccount list \<Rightarrow> (db \<times> nat) res" where
  "seed_chart s org_id template =
    (let have_codes = map ga_account_code (filter (\<lambda>a. ga_org_id a = org_id) (gl_accounts s));
         added = map (account_of org_id) (filter (\<lambda>t. ta_account_code t \<notin> set have_codes) template)
     in bindE (flush_accounts s (gl_accounts s @ added)) (\<lambda>s'. Inr (s', length added)))"

definition fill_null :: "'a option \<Rightarrow> 'a option \<Rightarrow> 'a option" where
  "fill_null row_value template_value = (if template_value \<noteq> None \<and> row_value = None then template_value else row_value)"

definition fill_row :: "TemplateAccount \<Rightarrow> GlAccount \<Rightarrow> GlAccount" where
  "fill_row t a = a\<lparr>
     ga_usali_schedule_id := fill_null (ga_usali_schedule_id a) (ta_usali_schedule_id t),
     ga_usali_major_category := fill_null (ga_usali_major_category a) (ta_usali_major_category t),
     ga_usali_sub_category := fill_null (ga_usali_sub_category a) (ta_usali_sub_category t),
     ga_usali_line_item := fill_null (ga_usali_line_item a) (ta_usali_line_item t)\<rparr>"

definition fill_account :: "int \<Rightarrow> TemplateAccount \<Rightarrow> GlAccount list \<times> nat \<times> nat \<Rightarrow> GlAccount list \<times> nat \<times> nat" where
  "fill_account org_id t = (\<lambda>(as, filled, unchanged).
     let mine = (\<lambda>a. ga_org_id a = org_id \<and> ga_account_code a = ta_account_code t) in
     case find mine as of
       None \<Rightarrow> (as, filled, unchanged)
     | Some a \<Rightarrow>
         (map (\<lambda>a. if mine a then fill_row t a else a) as,
          if fill_row t a \<noteq> a then filled + 1 else filled,
          if fill_row t a \<noteq> a then unchanged else unchanged + 1))"

definition fill_usali :: "db \<Rightarrow> int \<Rightarrow> TemplateAccount list \<Rightarrow> db \<times> nat \<times> nat" where
  "fill_usali s org_id template =
    (case fold (fill_account org_id) template (gl_accounts s, 0, 0) of
       (as, filled, unchanged) \<Rightarrow> (s\<lparr>gl_accounts := as\<rparr>, filled, unchanged))"

section \<open>Editing\<close>

definition put_account :: "db \<Rightarrow> int \<Rightarrow> string \<Rightarrow> string \<Rightarrow> string \<Rightarrow> bool \<Rightarrow> db res" where
  "put_account s org_id account_code name account_type is_active =
    (if account_type \<notin> set ACCOUNT_TYPES then Inl (HTTPException 422)
     else
       (case find (\<lambda>a. ga_account_code a = account_code) (gl_accounts s) of
          None \<Rightarrow>
            flush_accounts s (gl_accounts s @
              [\<lparr>ga_org_id = org_id, ga_account_code = account_code, ga_name = name, ga_account_type = account_type,
                ga_usali_schedule_id = None, ga_usali_major_category = None, ga_usali_sub_category = None,
                ga_usali_line_item = None, ga_system_role = None, ga_is_active = is_active\<rparr>])
        | Some row \<Rightarrow>
            if ga_system_role row \<noteq> None \<and> \<not> is_active then Inl (HTTPException 422)
            else Inr (s\<lparr>gl_accounts := map (\<lambda>a. if ga_account_code a = account_code
                then a\<lparr>ga_name := name, ga_account_type := account_type, ga_is_active := is_active\<rparr> else a) (gl_accounts s)\<rparr>)))"

section \<open>The trial balance\<close>

record TrialBalanceLine =
  tb_account_code :: string
  tb_name :: string
  tb_account_type :: string
  tb_debits :: decimal
  tb_credits :: decimal

record TrialBalanceReport =
  tr_property_id :: string
  tr_period_key :: string
  tr_date_from :: date
  tr_date_to :: date
  tr_lines :: "TrialBalanceLine list"
  tr_total_debits :: decimal
  tr_total_credits :: decimal

text \<open>The join of lines, entries in scope and accounts.\<close>

definition trial_rows :: "db \<Rightarrow> string \<Rightarrow> date \<Rightarrow> date \<Rightarrow> (JournalLine \<times> GlAccount) list" where
  "trial_rows s property_id date_from date_to =
     concat (map (\<lambda>l. concat (map (\<lambda>e. map (Pair l) (filter (\<lambda>a. ga_account_code a = jl_account_code l) (gl_accounts s)))
         (filter (\<lambda>e. je_entry_id e = jl_entry_id l \<and> je_property_id e = property_id
                    \<and> je_business_date e \<ge> date_from \<and> je_business_date e \<le> date_to) (journal_entries s))))
       (journal_lines s))"

definition trial_add :: "JournalLine \<times> GlAccount \<Rightarrow> (string, TrialBalanceLine) dict \<Rightarrow> (string, TrialBalanceLine) dict" where
  "trial_add = (\<lambda>(l, a) acc.
    let code = jl_account_code l; prior = map_of acc code;
        debits = (case prior of Some x \<Rightarrow> tb_debits x | None \<Rightarrow> 0) + (if jl_posting l = Debit then jl_amount l else 0);
        credits = (case prior of Some x \<Rightarrow> tb_credits x | None \<Rightarrow> 0) + (if jl_posting l = Credit then jl_amount l else 0)
    in AList.update code \<lparr>tb_account_code = code, tb_name = ga_name a, tb_account_type = ga_account_type a,
         tb_debits = debits, tb_credits = credits\<rparr> acc)"

definition trial_balance :: "db \<Rightarrow> string \<Rightarrow> string \<Rightarrow> TrialBalanceReport res" where
  "trial_balance s property_id period_key =
     bindE (require_config (config_for s property_id)) (\<lambda>cfg.
     bindE (resolve_period cfg period_key) (\<lambda>(date_from, date_to).
       let rows = trial_rows s property_id date_from date_to in
       if rows = [] then Inl NoFactsError
       else
         let acc = fold trial_add rows [];
             ls = map snd (sort_key fst acc)
         in Inr \<lparr>tr_property_id = property_id, tr_period_key = period_key, tr_date_from = date_from, tr_date_to = date_to,
                 tr_lines = ls, tr_total_debits = sum_list (map tb_debits ls), tr_total_credits = sum_list (map tb_credits ls)\<rparr>))"

section \<open>The trial balance balances\<close>

definition tb_signed :: "TrialBalanceLine \<Rightarrow> decimal" where
  "tb_signed x = tb_credits x - tb_debits x"

lemma sum_list_minus: "sum_list (map (\<lambda>x. f x - g x) xs) = sum_list (map f xs) - (sum_list (map g xs) :: 'a :: ab_group_add)"
  by (induction xs) simp_all

lemma sum_update:
  fixes f :: "'v \<Rightarrow> 'a :: ab_group_add"
  assumes "distinct (map fst m)"
  shows "sum_list (map (f \<circ> snd) (AList.update k v m)) =
    sum_list (map (f \<circ> snd) m) - (case map_of m k of Some x \<Rightarrow> f x | None \<Rightarrow> 0) + f v"
  using assms
proof (induction m)
  case (Cons p m)
  then show ?case by (cases p) (auto simp: algebra_simps map_of_eq_None_iff split: option.splits)
qed simp

lemma trial_add_signed:
  assumes "distinct (map fst acc)"
  shows "sum_list (map (tb_signed \<circ> snd) (trial_add (l, a) acc)) = sum_list (map (tb_signed \<circ> snd) acc) + line_signed l"
  using sum_update [OF assms, of tb_signed "jl_account_code l"]
  by (cases "jl_posting l") (simp_all add: trial_add_def Let_def tb_signed_def line_signed_def split: option.splits)

lemma trial_fold_signed:
  assumes "distinct (map fst acc)"
  shows "distinct (map fst (fold trial_add rows acc))
    \<and> sum_list (map (tb_signed \<circ> snd) (fold trial_add rows acc)) =
        sum_list (map (tb_signed \<circ> snd) acc) + sum_list (map (line_signed \<circ> fst) rows)"
  using assms
proof (induction rows arbitrary: acc)
  case (Cons r rows)
  obtain l a where r: "r = (l, a)" by (cases r)
  have "distinct (map fst (trial_add (l, a) acc))"
    using Cons.prems by (simp add: trial_add_def Let_def distinct_update)
  from Cons.IH [OF this] show ?case by (simp only: r fold_simps list.map sum_list.Cons comp_def trial_add_signed [OF Cons.prems, unfolded comp_def]) simp
qed simp

lemma sum_list_sort_key_map: "sum_list (map (f :: _ \<Rightarrow> 'a :: comm_monoid_add) (sort_key g xs)) = sum_list (map f xs)"
proof -
  have "mset (map f (sort_key g xs)) = mset (map f xs)" by simp
  then show ?thesis by (metis sum_mset_sum_list)
qed

lemma sum_list_map_concat: "sum_list (map f (concat xss)) = sum_list (map (\<lambda>xs. sum_list (map f xs)) xss)"
  by (induction xss) simp_all

lemma filter_one:
  assumes "distinct (map f xs)" "k \<in> f ` set xs"
  shows "\<exists>x. filter (\<lambda>x. f x = k) xs = [x]"
  using assms
proof (induction xs)
  case (Cons y xs)
  show ?case
  proof (cases "f y = k")
    case True
    then have "filter (\<lambda>x. f x = k) xs = []" using Cons.prems(1) by (simp add: filter_empty_conv) (metis imageI)
    then show ?thesis using True by simp
  qed (use Cons in auto)
qed simp

lemma sum_list_nested_filter:
  fixes f :: "'a \<Rightarrow> 'b :: ab_group_add"
  shows "sum_list (map (\<lambda>l. sum_list (map (\<lambda>e. f l) (filter (R l) es))) ls) =
    sum_list (map (\<lambda>e. sum_list (map f (filter (\<lambda>l. R l e) ls))) es)"
proof (induction ls)
  case (Cons l ls)
  have "sum_list (map (\<lambda>e. sum_list (map f (filter (\<lambda>l. R l e) (l # ls)))) es) =
      sum_list (map (\<lambda>e. (if R l e then f l else 0) + sum_list (map f (filter (\<lambda>l. R l e) ls))) es)"
    by (rule arg_cong [where f = sum_list]) simp
  also have "\<dots> = sum_list (map (\<lambda>e. if R l e then f l else 0) es) + sum_list (map (\<lambda>e. sum_list (map f (filter (\<lambda>l. R l e) ls))) es)"
    by (simp add: sum_list_addf)
  also have "sum_list (map (\<lambda>e. if R l e then f l else 0) es) = sum_list (map (\<lambda>e. f l) (filter (R l) es))"
    by (simp add: sum_list_map_filter')
  finally show ?case using Cons.IH by simp
qed simp

lemma trial_rows_signed:
  assumes "gl_inv s" and codes: "distinct (map ga_account_code (gl_accounts s))"
    and fk: "\<forall>l \<in> set (journal_lines s). jl_account_code l \<in> ga_account_code ` set (gl_accounts s)"
  shows "sum_list (map (line_signed \<circ> fst) (trial_rows s p d1 d2)) = 0"
proof -
  let ?in = "\<lambda>e. je_property_id e = p \<and> je_business_date e \<ge> d1 \<and> je_business_date e \<le> d2"
  let ?es = "filter ?in (journal_entries s)"
  have one: "map (line_signed \<circ> fst) (map (Pair l) (filter (\<lambda>a. ga_account_code a = jl_account_code l) (gl_accounts s))) = [line_signed l]"
    if "l \<in> set (journal_lines s)" for l using filter_one [OF codes] fk that by fastforce
  have "sum_list (map (line_signed \<circ> fst) (trial_rows s p d1 d2)) =
      sum_list (map (\<lambda>l. sum_list (map (\<lambda>e. line_signed l) (filter (\<lambda>e. je_entry_id e = jl_entry_id l) ?es))) (journal_lines s))"
    unfolding trial_rows_def sum_list_map_concat map_map
    by (rule arg_cong [where f = sum_list], rule map_cong [OF refl])
       (simp only: comp_apply sum_list_map_concat map_map one [unfolded map_map comp_def] filter_filter comp_def, simp add: conj_commute conj_left_commute)
  also have "\<dots> = sum_list (map (\<lambda>e. entry_total s (je_entry_id e)) ?es)"
    unfolding sum_list_nested_filter [where R = "\<lambda>l e. je_entry_id e = jl_entry_id l"] entry_total_def
    by (simp add: eq_commute)
  also have "\<dots> = 0" using assms(1) by (simp add: gl_inv_def journal_ok_def)
  finally show ?thesis .
qed

section \<open>Accounts and roles\<close>

lemma map_filter_distinct_unique:
  assumes "distinct (List.map_filter f xs)" "x \<in> set xs" "y \<in> set xs" "f x = Some k" "f y = Some k"
  shows "x = y"
  using assms
proof (induction xs)
  case (Cons z xs)
  have in_rest: "k \<in> set (List.map_filter f xs)" if "w \<in> set xs" "f w = Some k" for w
    using that by (force simp: List.map_filter_def)
  show ?case
  proof (cases "f z")
    case None
    with Cons show ?thesis by (auto simp: List.map_filter_simps)
  next
    case (Some v)
    with Cons in_rest show ?thesis by (auto simp: List.map_filter_simps)
  qed
qed simp

lemma role_unique:
  assumes "accounts_ok as" "a \<in> set as" "b \<in> set as" "ga_org_id a = ga_org_id b" "ga_system_role a = Some r" "ga_system_role b = Some r"
  shows "a = b"
  using assms map_filter_distinct_unique [of "\<lambda>a. map_option (Pair (ga_org_id a)) (ga_system_role a)" as a b "(ga_org_id b, r)"]
  by (simp add: accounts_ok_def roles_of_def)

lemma role_account_iff:
  assumes "accounts_ok (gl_accounts s)" "\<forall>a \<in> set (gl_accounts s). ga_org_id a = org_id"
  shows "role_account s role = Inr a \<longleftrightarrow> a \<in> set (gl_accounts s) \<and> ga_system_role a = Some role \<and> ga_is_active a"
proof -
  let ?P = "\<lambda>a. ga_system_role a = Some role \<and> ga_is_active a"
  have uniq: "x = y" if "x \<in> set (gl_accounts s)" "y \<in> set (gl_accounts s)" "?P x" "?P y" for x y
    using that role_unique [OF assms(1) that(1,2)] assms(2) by simp
  show ?thesis
  proof (cases "find ?P (gl_accounts s)")
    case None
    then have "\<not> (\<exists>x. x \<in> set (gl_accounts s) \<and> ?P x)" unfolding find_None_iff .
    then show ?thesis using None by (auto simp: role_account_def)
  next
    case (Some b)
    then show ?thesis using find_SomeD [OF Some] uniq by (auto simp: role_account_def)
  qed
qed

text \<open>
  C24.  The trial balance balances: whenever the report of a period is produced, over any
  ledger the operations can reach, its debits total its credits.  The chart's primary key and the
  foreign key of a journal line to its account are what the join needs.
\<close>

theorem trial_balance_balances:
  assumes "gl_reachable sha256 s" "distinct (map ga_account_code (gl_accounts s))"
    and "\<forall>l \<in> set (journal_lines s). jl_account_code l \<in> ga_account_code ` set (gl_accounts s)"
    and "trial_balance s property_id period_key = Inr r"
  shows "tr_total_debits r = tr_total_credits r"
proof -
  from assms(4) obtain d1 d2 where r: "tr_total_credits r - tr_total_debits r =
      sum_list (map (tb_signed \<circ> snd) (sort_key fst (fold trial_add (trial_rows s property_id d1 d2) [])))"
    by (auto simp: trial_balance_def inr Let_def tb_signed_def comp_def sum_list_minus split: if_splits)
  also have "\<dots> = sum_list (map (line_signed \<circ> fst) (trial_rows s property_id d1 d2))"
    unfolding sum_list_sort_key_map using trial_fold_signed [of "[]" "trial_rows s property_id d1 d2"] by simp
  also have "\<dots> = 0" using trial_rows_signed gl_reachable_inv assms(1-3) by blast
  finally show ?thesis by simp
qed

lemma example_gl_lines:
  assumes "build_pms_daily_plan id None None example_gl ''SJCES'' 738000 = Inr (Some plan)"
  shows "map jn_gl_account_code (jp_lines plan) = [''4000'', ''1200'']" "jp_property_id plan = ''SJCES''" "jp_business_date plan = 738000"
proof -
  have q: "quantize 100 (1 / 10000) ROUND_HALF_EVEN = Inr 100"
    by (simp add: quantize_def round_int_def half_even_def prec_def)
  show "map jn_gl_account_code (jp_lines plan) = [''4000'', ''1200'']" "jp_property_id plan = ''SJCES''" "jp_business_date plan = 738000"
    using assms
    by (auto simp add: build_pms_daily_plan_def example_gl_def empty_db_def unmapped_lines_def chart_def emit_def group_by_gl_def
        require_not_none_def dict_add_def emit_line_def List.map_filter_simps Let_def side_total_def balancing_line_def
        role_account_def finish_plan_def canonical_def q)
qed

theorem trial_balance_balances_witness:
  "\<exists>s k r. trial_balance s ''SJCES'' k = Inr r \<and> tr_total_debits r = tr_total_credits r"
proof -
  obtain plan where p: "build_pms_daily_plan id None None example_gl ''SJCES'' 738000 = Inr (Some plan)" using example_gl_plan by blast
  have y: "year_of 738000 = 2021" by (simp add: year_of_def days_before_year_def)
  obtain y q where k: "period_containing example_445 738000 = Inr (period_key_of y (int q + 1))" "in_period example_445 y q 738000" "1 \<le> y" "y \<le> 9998"
    using period_containing_ok [OF example_gl_period(2), of 738000] y by auto
  define key where "key = period_key_of y (int q + 1)"
  have res: "\<exists>a b. resolve_period example_445 key = Inr (a, b) \<and> a \<le> 738000 \<and> 738000 \<le> b"
    using k(2) resolve_period_start [OF example_gl_period(2) k(3,4), of "int q + 1"]
    by (simp add: in_period_def key_def nat_add_distrib)
  obtain s e where s: "write_entry example_gl plan ''pms_daily'' ''ops'' None False = (s, e)" by fastforce
  define t where "t = record_posted s ''SJCES'' 738000 ''pms_daily'' 0 e plan"
  have row: "ledger_row example_gl q d src = None" "period_state example_gl q key = ''open''" for q d src key
    by (simp_all add: ledger_row_def period_state_def example_gl_def empty_db_def)
  have "\<exists>out. post_and_record id example_gl ''SJCES'' 738000 ''pms_daily'' ''ops'' 0 = Inr (t, out)"
    by (simp add: post_and_record_def example_gl_init(2) SOURCES_def dict_index_def post_grain_def post_body_def p k(1) row
        example_gl_period(1) require_config_def Let_def outcome_def s t_def)
  then have reach: "gl_reachable id t" by (auto intro: gl_reachable.step [OF example_gl_init(1)] gl_step.post)
  obtain rows where w: "s = example_gl\<lparr>journal_entries := [e], journal_lines := rows\<rparr>" "je_entry_id e = 1"
      "je_property_id e = ''SJCES''" "je_business_date e = 738000" "map jl_account_code rows = [''4000'', ''1200'']" "\<forall>l \<in> set rows. jl_entry_id l = 1"
    using s example_gl_lines [OF p] unfolding write_entry_def Let_def
    by (auto simp: example_gl_def empty_db_def next_id_def comp_def case_prod_unfold)
  have t: "journal_entries t = [e]" "journal_lines t = rows" "gl_accounts t = gl_accounts example_gl" "config_for t ''SJCES'' = Some example_445"
    using example_gl_period(1) by (simp_all add: t_def record_posted_def set_row_def w(1) config_for_def split: option.split)
  have fk: "\<forall>l \<in> set (journal_lines t). jl_account_code l \<in> ga_account_code ` set (gl_accounts t)"
    using w(5) by (auto simp: t example_gl_def map_eq_Cons_conv)
  have codes: "distinct (map ga_account_code (gl_accounts t))" by (simp add: t example_gl_def)
  have "\<exists>r. trial_balance t ''SJCES'' key = Inr r"
    using res w(2-6) by (auto simp: trial_balance_def t require_config_def Let_def trial_rows_def map_eq_Cons_conv example_gl_def)
  then obtain r where r: "trial_balance t ''SJCES'' key = Inr r" by blast
  from trial_balance_balances [OF reach codes fk r] r show ?thesis by blast
qed

text \<open>
   Seeding a chart only ever adds: the rows that are there stay as they are and in
  place, the rows added are exactly those the template has and the organisation lacks, every
  template code is present afterwards, and seeding again adds nothing.
\<close>

theorem seed_chart_only_adds:
  assumes "seed_chart s org_id template = Inr (s', n)"
  shows "\<exists>added. s' = s\<lparr>gl_accounts := gl_accounts s @ added\<rparr> \<and> length added = n
    \<and> (\<forall>a \<in> set added. ga_org_id a = org_id \<and> ga_account_code a \<notin> ga_account_code ` {b \<in> set (gl_accounts s). ga_org_id b = org_id})
    \<and> (\<forall>t \<in> set template. \<exists>a \<in> set (gl_accounts s'). ga_org_id a = org_id \<and> ga_account_code a = ta_account_code t)
    \<and> seed_chart s' org_id template = Inr (s', 0)"
proof -
  let ?have = "\<lambda>s. map ga_account_code (filter (\<lambda>a. ga_org_id a = org_id) (gl_accounts s))"
  let ?added = "map (account_of org_id) (filter (\<lambda>t. ta_account_code t \<notin> set (?have s)) template)"
  have s': "s' = s\<lparr>gl_accounts := gl_accounts s @ ?added\<rparr>" "n = length ?added" and ok: "accounts_ok (gl_accounts s @ ?added)"
    using assms by (auto simp: seed_chart_def inr flush_accounts_def split: if_splits)
  have present: "\<exists>a \<in> set (gl_accounts s'). ga_org_id a = org_id \<and> ga_account_code a = ta_account_code t" if "t \<in> set template" for t
  proof (cases "ta_account_code t \<in> set (?have s)")
    case True
    then show ?thesis by (auto simp: s'(1))
  next
    case False
    with that have "account_of org_id t \<in> set (gl_accounts s')" by (simp add: s'(1))
    then show ?thesis by (rule bexI [rotated]) (simp add: account_of_def)
  qed
  then have "filter (\<lambda>t. ta_account_code t \<notin> set (?have s')) template = []"
    by (force simp: filter_empty_conv image_iff)
  then have "seed_chart s' org_id template = Inr (s', 0)"
    using ok unfolding seed_chart_def by (simp add: flush_accounts_def s'(1))
  with present s' show ?thesis by (auto simp: account_of_def intro!: exI [of _ ?added])
qed

definition example_template :: "TemplateAccount list" where
  "example_template = [\<lparr>ta_account_code = ''4000'', ta_name = ''Rooms revenue'', ta_account_type = ''income'', ta_usali_schedule_id = Some 1,
      ta_usali_major_category = None, ta_usali_sub_category = None, ta_usali_line_item = None, ta_system_role = None\<rparr>,
    \<lparr>ta_account_code = ''2300'', ta_name = ''Accrued payroll'', ta_account_type = ''liability'', ta_usali_schedule_id = None,
      ta_usali_major_category = None, ta_usali_sub_category = None, ta_usali_line_item = None, ta_system_role = Some ''accrued_payroll''\<rparr>]"

theorem seed_chart_only_adds_witness:
  "\<exists>s' added. seed_chart example_gl 1 example_template = Inr (s', 1) \<and> gl_accounts s' = gl_accounts example_gl @ added
    \<and> seed_chart s' 1 example_template = Inr (s', 0)"
proof -
  have "\<exists>s'. seed_chart example_gl 1 example_template = Inr (s', 1)"
    by (simp add: seed_chart_def example_template_def example_gl_def flush_accounts_def accounts_ok_def roles_of_def List.map_filter_simps
        account_of_def ACCOUNT_TYPES_def)
  then obtain s' where s': "seed_chart example_gl 1 example_template = Inr (s', 1)" by blast
  from seed_chart_only_adds [OF s'] s' show ?thesis by auto
qed

text \<open>
   Editing the chart never unhooks the posting engine: every structural role that resolves
  before an account is created or edited resolves afterwards, to the same account code.
\<close>

theorem put_account_keeps_roles:
  assumes "accounts_ok (gl_accounts s)" "\<forall>a \<in> set (gl_accounts s). ga_org_id a = org_id"
    and "put_account s org_id account_code name account_type is_active = Inr s'" "role_account s role = Inr a"
  shows "\<exists>a'. role_account s' role = Inr a' \<and> ga_account_code a' = ga_account_code a"
proof -
  have a: "a \<in> set (gl_accounts s)" "ga_system_role a = Some role" "ga_is_active a"
    using assms(4) role_account_iff [OF assms(1,2)] by auto
  show ?thesis
  proof (cases "find (\<lambda>a. ga_account_code a = account_code) (gl_accounts s)")
    case None
    obtain new where s': "gl_accounts s' = gl_accounts s @ [new]"
      using assms(3) None by (auto simp: put_account_def flush_accounts_def split: if_splits)
    then have "find (\<lambda>a. ga_system_role a = Some role \<and> ga_is_active a) (gl_accounts s') = Some a"
      using assms(4) by (simp add: role_account_def find_append split: option.splits)
    then show ?thesis by (simp add: role_account_def)
  next
    case (Some row)
    define g where "g = (\<lambda>a :: GlAccount. if ga_account_code a = account_code
      then a\<lparr>ga_name := name, ga_account_type := account_type, ga_is_active := is_active\<rparr> else a)"
    have s': "gl_accounts s' = map g (gl_accounts s)" and on: "ga_system_role row = None \<or> is_active"
      using assms(3) Some by (auto simp: put_account_def g_def split: if_splits)
    have g: "ga_system_role (g x) = ga_system_role x" "ga_account_code (g x) = ga_account_code x" "ga_org_id (g x) = ga_org_id x" for x
      by (simp_all add: g_def)
    have row: "row \<in> set (gl_accounts s)" "ga_account_code row = account_code" using find_SomeD [OF Some] by auto
    have inj: "inj_on (\<lambda>a. (ga_org_id a, ga_account_code a)) (set (gl_accounts s))"
      using assms(1) by (simp add: accounts_ok_def distinct_map)
    have "ga_is_active (g a)"
    proof (cases "ga_account_code a = account_code")
      case True
      then have "a = row" using inj_onD [OF inj, of a row] a(1) row assms(2) by simp
      then show ?thesis using on a(2) True by (simp add: g_def)
    qed (simp add: g_def a(3))
    moreover have "find (\<lambda>a. ga_system_role a = Some role \<and> ga_is_active a) (gl_accounts s') \<noteq> None"
      unfolding find_None_iff s' using a(1,2) g calculation by auto
    moreover have "ga_account_code y = ga_account_code a"
      if "find (\<lambda>a. ga_system_role a = Some role \<and> ga_is_active a) (gl_accounts s') = Some y" for y
    proof -
      from find_SomeD [OF that] obtain x where x: "x \<in> set (gl_accounts s)" "y = g x" "ga_system_role x = Some role"
        by (auto simp: s' g)
      then have "x = a" using role_unique [OF assms(1) x(1) a(1)] assms(2) a by simp
      then show ?thesis by (simp add: x(2) g)
    qed
    ultimately show ?thesis by (auto simp: role_account_def split: option.splits)
  qed
qed

theorem put_account_keeps_roles_witness:
  "\<exists>s' a'. put_account example_gl 1 ''1200'' ''Guest ledger'' ''asset'' True = Inr s'
    \<and> role_account s' ''guest_ledger_clearing'' = Inr a' \<and> ga_account_code a' = ''1200''"
proof -
  have ok: "accounts_ok (gl_accounts example_gl)" "\<forall>a \<in> set (gl_accounts example_gl). ga_org_id a = 1"
    by (simp_all add: example_gl_def accounts_ok_def roles_of_def List.map_filter_simps ACCOUNT_TYPES_def)
  have "\<exists>s'. put_account example_gl 1 ''1200'' ''Guest ledger'' ''asset'' True = Inr s'"
    and "\<exists>a. role_account example_gl ''guest_ledger_clearing'' = Inr a \<and> ga_account_code a = ''1200''"
    by (simp_all add: put_account_def role_account_def example_gl_def ACCOUNT_TYPES_def)
  then obtain s' a where p: "put_account example_gl 1 ''1200'' ''Guest ledger'' ''asset'' True = Inr s'"
    "role_account example_gl ''guest_ledger_clearing'' = Inr a" "ga_account_code a = ''1200''" by blast
  from put_account_keeps_roles [OF ok p(1,2)] p show ?thesis by auto
qed

end
