(* ===== verification/PayModels.thy ===== *)
theory PayModels
  imports Labor PyStr
begin

text \<open>
  The payroll tables of \<^verbatim>\<open>usali/models.py\<close>, with the wage spine (\<open>db\<close>) as one field
  of their state; the deposit chain of \<^verbatim>\<open>usali/deposit_accounts.py\<close>; and the blockers of a
  preflight report.  A blocker is a constructor per message of the source with the values the
  message names; its first argument is the employee where the message opens with one.
  A money column that stores an encrypted decimal string holds that decimal.
\<close>

section \<open>Rows\<close>

record PaySchedule =
  ps_property_id :: string
  ps_check_date_offset_days :: int

record EmployeePayrollProfile =
  pp_employee_id :: int
  pp_ssn_sealed :: "string option"
  pp_tax_elections_sealed :: "string option"

record DepositAccount =
  da_employee_id :: int
  da_ordinal :: int
  da_allocation_type :: string
  da_allocation_value :: "decimal option"
  da_account_type :: "string option"
  da_sealed_account :: string
  da_sealed_routing :: string
  da_legacy_sealed :: bool

record ProviderEmployeeRef =
  rf_employee_id :: int
  rf_provider :: string
  rf_provider_employee_id :: string
  rf_payload_fingerprint :: "string option"

record PayRun =
  rn_pay_run_id :: int
  rn_property_id :: string
  rn_period_start :: date
  rn_period_end :: date
  rn_check_date :: date
  rn_status :: string
  rn_provider :: string
  rn_provider_run_id :: "string option"
  rn_created_by :: string
  rn_submitted_at :: "instant option"
  rn_processed_at :: "instant option"
  rn_failure_reason :: "string option"

record PayRunLine =
  ln_pay_run_id :: int
  ln_employee_id :: int
  ln_department_id :: "int option"
  ln_hours :: decimal
  ln_sick_hours :: decimal
  ln_gross :: decimal
  ln_employee_taxes :: decimal
  ln_employer_taxes :: decimal
  ln_net :: decimal

record PayRunLineProperty =
  cn_pay_run_id :: int
  cn_employee_id :: int
  cn_property_id :: string
  cn_department_id :: "int option"
  cn_hours :: decimal
  cn_gross :: decimal
  cn_employer_burden :: decimal

record WageSettlement =
  ws_pay_run_id :: int
  ws_employee_id :: int
  ws_hours :: decimal
  ws_actor_subject :: string
  ws_note :: string

record UsaliActualLaborFact =
  af_property_id :: string
  af_period_start :: date
  af_period_end :: date
  af_department_id :: "int option"
  af_hours :: decimal
  af_gross :: decimal
  af_employer_burden :: decimal
  af_pay_run_id :: int

record pay_db =
  core :: db
  pay_schedules :: "PaySchedule list"
  payroll_profiles :: "EmployeePayrollProfile list"
  deposit_accounts :: "DepositAccount list"
  provider_refs :: "ProviderEmployeeRef list"
  pay_runs :: "PayRun list"
  pay_run_lines :: "PayRunLine list"
  pay_run_line_properties :: "PayRunLineProperty list"
  wage_settlements :: "WageSettlement list"
  actual_labor_facts :: "UsaliActualLaborFact list"

abbreviation CENTS :: decimal where "CENTS \<equiv> 1 / 100"

abbreviation cents :: "decimal \<Rightarrow> decimal res" where "cents x \<equiv> quantize x CENTS ROUND_HALF_EVEN"

section \<open>Blockers\<close>

datatype violation =
    BadAllocationType
  | RemainderIffNoValue
  | NotOneRemainder
  | RemainderNotLast
  | AmountNotPositive
  | PercentOutOfRange
  | PercentSumTooLarge

datatype problem =
    NoPaySchedule string
  | UnknownProperty string
  | NoTimecards string date
  | ExcludedButPromoted int
  | DataIncomplete int
  | NotApproved int int
  | Refusal int err
  | SickUnattributable int "date list"
  | SickUnpriced int "date list"
  | SickManyRates int nat
  | NoPayRate int
  | Uncosted int "date list"
  | ManyRates int nat
  | StoredPremium int "string list"
  | SickRateDiffers int
  | ProfileMissing int "string list"
  | NoDepositAccounts int
  | DepositMissing int int "string list"
  | DepositNoType int int
  | DepositInvalid int violation
  | StalePayload int "string list"
  | FixedExceedGross int
  | StackedSick int date decimal decimal decimal
  | LateSick int "date list" decimal date decimal
  | OrphanPunch int date
  | CardReopened int date
  | UnpaidWorked int date decimal decimal decimal
  | SickNotPaidHere int

text \<open>The employee a blocker names.\<close>

fun problem_employee :: "problem \<Rightarrow> int option" where
  "problem_employee (NoPaySchedule _) = None"
| "problem_employee (UnknownProperty _) = None"
| "problem_employee (NoTimecards _ _) = None"
| "problem_employee (ExcludedButPromoted e) = Some e"
| "problem_employee (DataIncomplete e) = Some e"
| "problem_employee (NotApproved e _) = Some e"
| "problem_employee (Refusal e _) = Some e"
| "problem_employee (SickUnattributable e _) = Some e"
| "problem_employee (SickUnpriced e _) = Some e"
| "problem_employee (SickManyRates e _) = Some e"
| "problem_employee (NoPayRate e) = Some e"
| "problem_employee (Uncosted e _) = Some e"
| "problem_employee (ManyRates e _) = Some e"
| "problem_employee (StoredPremium e _) = Some e"
| "problem_employee (SickRateDiffers e) = Some e"
| "problem_employee (ProfileMissing e _) = Some e"
| "problem_employee (NoDepositAccounts e) = Some e"
| "problem_employee (DepositMissing e _ _) = Some e"
| "problem_employee (DepositNoType e _) = Some e"
| "problem_employee (DepositInvalid e _) = Some e"
| "problem_employee (StalePayload e _) = Some e"
| "problem_employee (FixedExceedGross e) = Some e"
| "problem_employee (StackedSick e _ _ _ _) = Some e"
| "problem_employee (LateSick e _ _ _ _) = Some e"
| "problem_employee (OrphanPunch e _) = Some e"
| "problem_employee (CardReopened e _) = Some e"
| "problem_employee (UnpaidWorked e _ _ _ _) = Some e"
| "problem_employee (SickNotPaidHere e) = Some e"

definition names :: "int \<Rightarrow> problem list \<Rightarrow> bool" where
  "names e ps \<longleftrightarrow> list_all (\<lambda>p. problem_employee p = Some e) ps"

lemma names_simps [simp]:
  "names e []" "names e (p # ps) \<longleftrightarrow> problem_employee p = Some e \<and> names e ps" "names e (ps @ qs) \<longleftrightarrow> names e ps \<and> names e qs"
  by (simp_all add: names_def)

section \<open>The deposit chain\<close>

definition account_slot :: "int \<Rightarrow> bool \<Rightarrow> string" where
  "account_slot ordinal legacy = (if legacy then ''bank_account'' else ''deposit:'' @ str_int ordinal @ '':account'')"

definition routing_slot :: "int \<Rightarrow> bool \<Rightarrow> string" where
  "routing_slot ordinal legacy = (if legacy then ''bank_routing'' else ''deposit:'' @ str_int ordinal @ '':routing'')"

record AllocationSpec =
  al_allocation_type :: string
  al_allocation_value :: "decimal option"

definition ALLOCATION_TYPES :: "string list" where
  "ALLOCATION_TYPES = [''amount'', ''percent'', ''remainder'']"

text \<open>The first loop of \<^verbatim>\<open>allocation_violation\<close>, the second, and the function.\<close>

fun shape_violation :: "AllocationSpec list \<Rightarrow> violation option" where
  "shape_violation [] = None"
| "shape_violation (s # ss) =
    (if al_allocation_type s \<notin> set ALLOCATION_TYPES then Some BadAllocationType
     else if (al_allocation_type s = ''remainder'') \<noteq> (al_allocation_value s = None) then Some RemainderIffNoValue
     else shape_violation ss)"

fun value_violation :: "AllocationSpec list \<Rightarrow> violation option res" where
  "value_violation [] = Inr None"
| "value_violation (s # ss) =
    (if al_allocation_type s = ''amount'' then
       (case al_allocation_value s of
          None \<Rightarrow> Inl AssertionError
        | Some v \<Rightarrow> if v \<le> 0 then Inr (Some AmountNotPositive) else value_violation ss)
     else if al_allocation_type s = ''percent'' then
       (case al_allocation_value s of
          None \<Rightarrow> Inl AssertionError
        | Some v \<Rightarrow> if \<not> (0 < v \<and> v < 100) then Inr (Some PercentOutOfRange) else value_violation ss)
     else value_violation ss)"

definition percent_sum :: "AllocationSpec list \<Rightarrow> decimal" where
  "percent_sum specs =
     sum_list (List.map_filter (\<lambda>s. if al_allocation_type s = ''percent'' then al_allocation_value s else None) specs)"

definition allocation_violation :: "AllocationSpec list \<Rightarrow> violation option res" where
  "allocation_violation specs =
    (if specs = [] then Inr None
     else case shape_violation specs of
       Some v \<Rightarrow> Inr (Some v)
     | None \<Rightarrow>
        let remainders = filter (\<lambda>s. al_allocation_type s = ''remainder'') specs in
        if length remainders \<noteq> 1 then Inr (Some NotOneRemainder)
        else if al_allocation_type (List.last specs) \<noteq> ''remainder'' then Inr (Some RemainderNotLast)
        else bindE (value_violation specs) (\<lambda>v.
          case v of
            Some x \<Rightarrow> Inr (Some x)
          | None \<Rightarrow> if percent_sum specs \<ge> 100 then Inr (Some PercentSumTooLarge) else Inr None))"

definition deposit_chain :: "pay_db \<Rightarrow> int \<Rightarrow> DepositAccount list" where
  "deposit_chain s employee_id = sort_key da_ordinal (filter (\<lambda>r. da_employee_id r = employee_id) (deposit_accounts s))"

definition row_problems :: "int \<Rightarrow> DepositAccount \<Rightarrow> problem list" where
  "row_problems employee_id r =
    (let missing = (if da_sealed_account r = [] then [''account''] else []) @ (if da_sealed_routing r = [] then [''routing''] else [])
     in (if missing \<noteq> [] then [DepositMissing employee_id (da_ordinal r) missing] else [])
        @ (if da_account_type r = None then [DepositNoType employee_id (da_ordinal r)] else []))"

definition deposit_problems :: "pay_db \<Rightarrow> int \<Rightarrow> problem list res" where
  "deposit_problems s employee_id =
    (let rows = deposit_chain s employee_id in
     if rows = [] then Inr [NoDepositAccounts employee_id]
     else
       bindE (allocation_violation (map (\<lambda>r. \<lparr>al_allocation_type = da_allocation_type r, al_allocation_value = da_allocation_value r\<rparr>) rows))
         (\<lambda>violation. Inr (concat (map (row_problems employee_id) rows)
            @ (case violation of None \<Rightarrow> [] | Some v \<Rightarrow> [DepositInvalid employee_id v]))))"

section \<open>What a legal chain is\<close>

definition carve_ok :: "AllocationSpec \<Rightarrow> bool" where
  "carve_ok s \<longleftrightarrow> (case al_allocation_value s of
      None \<Rightarrow> False
    | Some v \<Rightarrow> al_allocation_type s = ''amount'' \<and> 0 < v \<or> al_allocation_type s = ''percent'' \<and> 0 < v \<and> v < 100)"

definition legal_chain :: "AllocationSpec list \<Rightarrow> bool" where
  "legal_chain specs \<longleftrightarrow> specs = [] \<or>
     (\<exists>carves rest. specs = carves @ [rest] \<and> list_all carve_ok carves
        \<and> al_allocation_type rest = ''remainder'' \<and> al_allocation_value rest = None \<and> percent_sum carves < 100)"

lemma percent_sum_snoc: "al_allocation_type r = ''remainder'' \<Longrightarrow> percent_sum (cs @ [r]) = percent_sum cs"
  by (simp add: percent_sum_def List.map_filter_def)

lemma shape_violation_none:
  "shape_violation ss = None \<longleftrightarrow> list_all (\<lambda>s. al_allocation_type s \<in> set ALLOCATION_TYPES
     \<and> (al_allocation_type s = ''remainder'' \<longleftrightarrow> al_allocation_value s = None)) ss"
  by (induction ss) auto

lemma value_violation_shaped:
  assumes "list_all (\<lambda>s. al_allocation_type s \<in> set ALLOCATION_TYPES
     \<and> (al_allocation_type s = ''remainder'' \<longleftrightarrow> al_allocation_value s = None)) ss"
  shows "\<exists>v. value_violation ss = Inr v \<and> (v = None \<longleftrightarrow> list_all (\<lambda>s. al_allocation_type s \<noteq> ''remainder'' \<longrightarrow> carve_ok s) ss)"
  using assms
proof (induction ss)
  case (Cons s ss)
  then show ?case by (cases "al_allocation_value s") (auto simp: ALLOCATION_TYPES_def carve_ok_def)
qed simp

lemma remainder_last_only:
  assumes "specs \<noteq> []" "length (filter P specs) = 1" "P (List.last specs)"
  shows "\<exists>cs r. specs = cs @ [r] \<and> P r \<and> (\<forall>c \<in> set cs. \<not> P c)"
proof -
  obtain cs r where s: "specs = cs @ [r]" using assms(1) by (cases specs rule: rev_cases) auto
  then have "P r" using assms(3) by simp
  moreover have "filter P cs = []" using assms(2) calculation by (simp add: s)
  ultimately show ?thesis using s by (auto simp: filter_empty_conv)
qed

lemma legal_chain_violation: "legal_chain specs \<Longrightarrow> allocation_violation specs = Inr None"
proof -
  assume "legal_chain specs"
  then consider "specs = []" | cs r where "specs = cs @ [r]" "list_all carve_ok cs" "al_allocation_type r = ''remainder''"
      "al_allocation_value r = None" "percent_sum cs < 100" by (auto simp: legal_chain_def)
  then show ?thesis
  proof cases
    case 2
    have shape: "list_all (\<lambda>s. al_allocation_type s \<in> set ALLOCATION_TYPES
       \<and> (al_allocation_type s = ''remainder'' \<longleftrightarrow> al_allocation_value s = None)) specs"
      using 2 by (fastforce simp: list_all_iff carve_ok_def ALLOCATION_TYPES_def split: option.splits)
    have "filter (\<lambda>s. al_allocation_type s = ''remainder'') cs = []"
      using 2(2) by (force simp: filter_empty_conv list_all_iff carve_ok_def split: option.splits)
    moreover have "value_violation specs = Inr None"
      using value_violation_shaped [OF shape] 2 by (auto simp: list_all_iff)
    ultimately show ?thesis
      using shape 2 by (simp add: allocation_violation_def shape_violation_none [THEN iffD2] percent_sum_snoc)
  qed (simp add: allocation_violation_def)
qed

lemma violation_none_legal: "allocation_violation specs = Inr None \<Longrightarrow> legal_chain specs"
proof (cases "specs = []")
  case False
  assume v: "allocation_violation specs = Inr None"
  then have shape: "list_all (\<lambda>s. al_allocation_type s \<in> set ALLOCATION_TYPES
       \<and> (al_allocation_type s = ''remainder'' \<longleftrightarrow> al_allocation_value s = None)) specs"
    and one: "length (filter (\<lambda>s. al_allocation_type s = ''remainder'') specs) = 1" "al_allocation_type (List.last specs) = ''remainder''"
    and val: "value_violation specs = Inr None" "percent_sum specs < 100"
    using False by (auto simp: allocation_violation_def shape_violation_none [symmetric] inr Let_def split: if_splits option.splits)
  obtain cs r where s: "specs = cs @ [r]" "al_allocation_type r = ''remainder''" "\<forall>c \<in> set cs. al_allocation_type c \<noteq> ''remainder''"
    using remainder_last_only [OF False, where P = "\<lambda>s. al_allocation_type s = ''remainder''"] one by blast
  have "list_all (\<lambda>s. al_allocation_type s \<noteq> ''remainder'' \<longrightarrow> carve_ok s) specs"
    using value_violation_shaped [OF shape] val(1) by simp
  then have "list_all carve_ok cs" using s by (simp add: list_all_iff)
  moreover have "al_allocation_value r = None" using shape s by (simp add: list_all_iff)
  ultimately show ?thesis using s val(2) percent_sum_snoc [OF s(2), of cs] unfolding legal_chain_def by auto
qed (simp add: legal_chain_def)

lemma violation_total: "\<exists>v. allocation_violation specs = Inr v"
proof (cases "shape_violation specs")
  case None
  then obtain v where "value_violation specs = Inr v" using value_violation_shaped by (auto simp: shape_violation_none)
  then show ?thesis by (cases v) (auto simp: allocation_violation_def Let_def None)
qed (simp add: allocation_violation_def)

lemma deposit_problems_total: "\<exists>ps. deposit_problems s e = Inr ps \<and> names e ps"
proof -
  have "names e (concat (map (row_problems e) rows))" for rows
    by (induction rows) (simp_all add: row_problems_def Let_def)
  then show ?thesis
    using violation_total [of "map (\<lambda>r. \<lparr>al_allocation_type = da_allocation_type r, al_allocation_value = da_allocation_value r\<rparr>) (deposit_chain s e)"]
    by (auto simp: deposit_problems_def Let_def split: option.split)
qed

section \<open>Slots\<close>

lemma str_nat_inj: "str_nat m = str_nat n \<Longrightarrow> m = n"
  by (metis str_nat_value)

lemma str_int_inj: "str_int i = str_int j \<Longrightarrow> i = j"
proof -
  assume eq: "str_int i = str_int j"
  have minus: "str_nat n \<noteq> CHR ''-'' # xs" for n xs
    using str_nat_digits [of n] by (auto simp: is_digit_def)
  show ?thesis
  proof (cases "i < 0"; cases "j < 0")
    assume "i < 0" "j < 0"
    then show ?thesis using eq str_nat_inj [of "nat (- i)" "nat (- j)"] by (simp add: str_int_def)
  next
    assume "\<not> i < 0" "\<not> j < 0"
    then show ?thesis using eq str_nat_inj [of "nat i" "nat j"] by (simp add: str_int_def)
  next
    assume "i < 0" "\<not> j < 0"
    then show ?thesis using eq minus [of "nat j"] by (simp add: str_int_def) metis
  next
    assume "\<not> i < 0" "j < 0"
    then show ?thesis using eq minus [of "nat i"] by (simp add: str_int_def)
  qed
qed

lemma str_int_no_colon: "CHR '':'' \<notin> set (str_int i)"
proof -
  have "CHR '':'' \<notin> set (str_nat n)" for n using str_nat_digits [of n] by (auto simp: list_all_iff is_digit_def)
  then show ?thesis by (simp add: str_int_def)
qed

lemma split_at_unique:
  assumes "xs @ c # ys = xs' @ c # ys'" "c \<notin> set xs" "c \<notin> set xs'"
  shows "xs = xs' \<and> ys = ys'"
proof -
  have tw: "c \<notin> set zs \<Longrightarrow> takeWhile (\<lambda>x. x \<noteq> c) (zs @ c # ws) = zs" for zs ws by (induction zs) auto
  have "xs = xs'" using tw [OF assms(2), of ys] tw [OF assms(3), of ys'] assms(1) by simp
  then show ?thesis using assms(1) by simp
qed

end
