(* ===== verification/PayGuards.thy ===== *)
theory PayGuards
  imports PayModels
begin

text \<open>
  The guards of \<^verbatim>\<open>usali/payroll_run.py\<close>: what a preflight asks about one person (profile, deposit
  chain, a stale copy at the provider, fixed deposits against gross, sick days), what it asks about
  earlier periods (sick and worked hours the runs did not pay), and the settlement act that resolves
  a worked-hours difference.  Log lines are not modelled.  \<open>sha256\<close> is
  \<^verbatim>\<open>hashlib.sha256(...).hexdigest()\<close> of the text.
\<close>

section \<open>The provider's copy\<close>

record ProviderCapabilities =
  pc_supports_field_encryption :: bool
  pc_supports_employee_update :: bool
  pc_supports_sick_balance_display :: bool

text \<open>\<^verbatim>\<open>str\<close> of a \<^verbatim>\<open>Numeric(10, 2)\<close> value, and of a nullable column.\<close>

definition str_2dp :: "decimal \<Rightarrow> string" where
  "str_2dp x =
    (let m = nat \<lfloor>\<bar>x\<bar> * 100\<rfloor> in (if x < 0 then ''-'' else []) @ str_nat (m div 100) @ ''.'' @ zpad 2 (str_nat (m mod 100)))"

definition str_null :: "('a \<Rightarrow> string) \<Rightarrow> 'a option \<Rightarrow> string" where
  "str_null f v = (case v of None \<Rightarrow> ''None'' | Some x \<Rightarrow> f x)"

definition row_parts :: "DepositAccount \<Rightarrow> string list" where
  "row_parts r =
     [str_int (da_ordinal r), da_allocation_type r, str_null str_2dp (da_allocation_value r),
      str_null id (da_account_type r), da_sealed_routing r, da_sealed_account r]"

definition fingerprint_parts :: "pay_db \<Rightarrow> int \<Rightarrow> string list res" where
  "fingerprint_parts s employee_id =
     bindE (require_not_none (get_employee (core s) employee_id)) (\<lambda>employee.
     bindE (scalar_one_or_none (map pp_ssn_sealed (filter (\<lambda>p. pp_employee_id p = employee_id) (payroll_profiles s)))) (\<lambda>row.
       Inr ([em_full_name employee, (case row of Some (Some x) \<Rightarrow> x | _ \<Rightarrow> [])]
            @ concat (map row_parts (deposit_chain s employee_id)))))"

definition payload_fingerprint :: "(string \<Rightarrow> string) \<Rightarrow> pay_db \<Rightarrow> int \<Rightarrow> string res" where
  "payload_fingerprint sha256 s employee_id =
     bindE (fingerprint_parts s employee_id) (\<lambda>ps. Inr (sha256 (concat (map (\<lambda>p. p @ [CHR 0x00]) ps))))"

definition provider_payload_stale :: "(string \<Rightarrow> string) \<Rightarrow> pay_db \<Rightarrow> int \<Rightarrow> ProviderEmployeeRef \<Rightarrow> bool res" where
  "provider_payload_stale sha256 s employee_id ref =
    (case rf_payload_fingerprint ref of
       None \<Rightarrow> Inr True
     | Some f \<Rightarrow> bindE (payload_fingerprint sha256 s employee_id) (\<lambda>g. Inr (f \<noteq> g)))"

fun filterE :: "('a \<Rightarrow> bool res) \<Rightarrow> 'a list \<Rightarrow> 'a list res" where
  "filterE f [] = Inr []"
| "filterE f (x # xs) = bindE (f x) (\<lambda>b. bindE (filterE f xs) (\<lambda>ys. Inr (if b then x # ys else ys)))"

definition stale_provider_payload_problems :: "(string \<Rightarrow> string) \<Rightarrow> pay_db \<Rightarrow> int \<Rightarrow> problem list res" where
  "stale_provider_payload_problems sha256 s employee_id =
     bindE (filterE (provider_payload_stale sha256 s employee_id)
              (filter (\<lambda>r. rf_employee_id r = employee_id) (provider_refs s))) (\<lambda>rs.
       Inr (if rs = [] then [] else [StalePayload employee_id (sort (map rf_provider rs))]))"

section \<open>One person\<close>

definition person_problems ::
  "(string \<Rightarrow> string) \<Rightarrow> pay_db \<Rightarrow> int \<Rightarrow> ProviderCapabilities option \<Rightarrow> problem list res" where
  "person_problems sha256 s employee_id caps =
     bindE (scalar_one_or_none (filter (\<lambda>p. pp_employee_id p = employee_id) (payroll_profiles s))) (\<lambda>profile.
     bindE (deposit_problems s employee_id) (\<lambda>deposit.
     bindE (if (case caps of None \<Rightarrow> True | Some c \<Rightarrow> \<not> pc_supports_employee_update c)
            then stale_provider_payload_problems sha256 s employee_id else Inr []) (\<lambda>stale.
       let missing = (if (case profile of None \<Rightarrow> True | Some p \<Rightarrow> pp_ssn_sealed p = None) then [''ssn''] else [])
       in Inr ((if missing \<noteq> [] then [ProfileMissing employee_id missing] else []) @ deposit @ stale))))"

definition carve_problem :: "pay_db \<Rightarrow> int \<Rightarrow> decimal \<Rightarrow> problem option" where
  "carve_problem s employee_id est_gross =
    (let fixed_carve = sum_list (List.map_filter da_allocation_value
           (filter (\<lambda>r. da_employee_id r = employee_id \<and> da_allocation_type r = ''amount'') (deposit_accounts s)))
     in if fixed_carve > est_gross then Some (FixedExceedGross employee_id) else None)"

section \<open>Sick days\<close>

definition resolve_employee_sick :: "SickDayTaken list \<Rightarrow> string \<Rightarrow> int \<Rightarrow> decimal \<times> decimal option \<times> problem list" where
  "resolve_employee_sick days property_id who =
    (let unattributable = sort (map sd_day (filter (\<lambda>t. sd_property_id t = None) days));
         here = filter (\<lambda>t. sd_property_id t = Some property_id) days;
         unpriced = sort (map sd_day (filter (\<lambda>t. sd_rate t = None) here));
         rates = remdups (List.map_filter sd_rate here)
     in (sum_list (map sd_hours here),
         (case rates of [r] \<Rightarrow> Some r | _ \<Rightarrow> None),
         (if unattributable \<noteq> [] then [SickUnattributable who unattributable] else [])
         @ (if unpriced \<noteq> [] then [SickUnpriced who unpriced] else [])
         @ (if length rates > 1 then [SickManyRates who (length rates)] else [])))"

definition stacked_sick_problems :: "db \<Rightarrow> int \<Rightarrow> (date, decimal) dict \<Rightarrow> SickDayTaken list \<Rightarrow> problem list res" where
  "stacked_sick_problems s employee_id day_hours here_days =
     bindE (mapE (\<lambda>t.
        let worked = dict_get day_hours (sd_day t) 0 in
        if worked \<le> 0 then Inr []
        else bindE (day_length s employee_id (sd_day t)) (\<lambda>len.
               let bound = (case len of Some b \<Rightarrow> if b = 0 then 8 else b | None \<Rightarrow> 8)
               in Inr (if worked + sd_hours t > bound
                       then [StackedSick employee_id (sd_day t) worked (sd_hours t) bound] else [])))
       (sort_key sd_day here_days)) (\<lambda>pss. Inr (concat pss))"

section \<open>Earlier periods: sick hours\<close>

definition earlier_runs :: "pay_db \<Rightarrow> string \<Rightarrow> date \<Rightarrow> PayRun list" where
  "earlier_runs s property_id period_start =
     sort_key rn_period_start (filter (\<lambda>r. rn_property_id r = property_id \<and> rn_period_start r < period_start
       \<and> rn_submitted_at r \<noteq> None) (pay_runs s))"

definition lines_of :: "pay_db \<Rightarrow> PayRun \<Rightarrow> PayRunLine list" where
  "lines_of s run = filter (\<lambda>l. ln_pay_run_id l = rn_pay_run_id run) (pay_run_lines s)"

definition period_paid :: "pay_db \<Rightarrow> PayRun \<Rightarrow> (int, decimal) dict" where
  "period_paid s run =
    (let same = filter (\<lambda>r. rn_period_start r = rn_period_start run \<and> rn_period_end r = rn_period_end run
                          \<and> rn_submitted_at r \<noteq> None) (pay_runs s)
     in fold (\<lambda>l. dict_add (ln_employee_id l) (ln_sick_hours l))
          (filter (\<lambda>l. \<exists>r \<in> set same. rn_pay_run_id r = ln_pay_run_id l) (pay_run_lines s)) [])"

definition voided :: "pay_db \<Rightarrow> PayRun \<Rightarrow> int list" where
  "voided s run = map sl_employee_id (filter (\<lambda>e. sl_entry_type e = ''usage_void''
     \<and> sl_effective_on e \<ge> rn_period_start run \<and> sl_effective_on e \<le> rn_period_end run) (sick_ledger (core s)))"

definition late_sick_person ::
  "pay_db \<Rightarrow> PayRun \<Rightarrow> SickDayTaken list \<Rightarrow> (int, decimal) dict \<Rightarrow> decimal \<Rightarrow> int \<Rightarrow> problem list res" where
  "late_sick_person s run taken period_derived paid employee_id =
     bindE (cents (sum_list (map sd_hours taken))) (\<lambda>derived_hours.
       if derived_hours = paid then Inr []
       else
         bindE (cents (dict_get period_derived employee_id 0)) (\<lambda>whole_derived.
         bindE (cents (dict_get (period_paid s run) employee_id 0)) (\<lambda>whole_paid.
           if employee_id \<notin> set (voided s run) \<and> whole_derived = whole_paid then Inr []
           else bindE (require_not_none (get_employee (core s) employee_id)) (\<lambda>_.
             Inr (if derived_hours > paid
                  then [LateSick employee_id (map sd_day taken) derived_hours (rn_period_start run) paid] else [])))))"

definition late_sick_run :: "pay_db \<Rightarrow> string \<Rightarrow> PayRun \<Rightarrow> problem list res" where
  "late_sick_run s property_id run =
     bindE (sick_days_taken (core s) (rn_period_start run) (rn_period_end run)) (\<lambda>all_days.
       let derived = group_by sd_employee_id (filter (\<lambda>t. sd_property_id t = Some property_id) all_days);
           period_derived = fold (\<lambda>t. dict_add (sd_employee_id t) (sd_hours t)) all_days [];
           stored = fold (\<lambda>l. AList.update (ln_employee_id l) (ln_sick_hours l)) (lines_of s run) [];
           people = sort (remdups (keys derived @ keys (filter (\<lambda>(e, h). h > 0) stored)))
       in bindE (mapE (\<lambda>e. late_sick_person s run (dict_get derived e []) period_derived (dict_get stored e 0) e) people)
            (\<lambda>pss. Inr (concat pss)))"

definition late_sick_problems :: "pay_db \<Rightarrow> string \<Rightarrow> date \<Rightarrow> problem list res" where
  "late_sick_problems s property_id period_start =
     bindE (mapE (late_sick_run s property_id) (earlier_runs s property_id period_start)) (\<lambda>pss. Inr (concat pss))"

section \<open>Earlier periods: worked hours\<close>

definition orphan_owner :: "db \<Rightarrow> Punch \<times> string \<Rightarrow> string res" where
  "orphan_owner s = (\<lambda>(punch, device_property).
     bindE (catchE (\<lambda>e. e = AmbiguousAssignmentError) (primary_assignment_on s (pn_employee_id punch) (pn_business_date punch))) (\<lambda>r.
       Inr (case r of Inr (Some primary) \<Rightarrow> ea_property_id primary | _ \<Rightarrow> device_property)))"

definition orphan_punches :: "db \<Rightarrow> date \<Rightarrow> (Punch \<times> string) list" where
  "orphan_punches s period_end =
     concat (map (\<lambda>p. map (\<lambda>k. (p, kd_property_id k)) (filter (\<lambda>k. kd_device_id k = pn_kiosk_device_id p) (devices s)))
       (filter (\<lambda>p. pn_timecard_id p = None \<and> pn_business_date p \<le> period_end) (punches s)))"

definition late_worked_problems :: "db \<Rightarrow> string \<Rightarrow> date \<Rightarrow> problem list res" where
  "late_worked_problems s property_id period_end =
     bindE (mapE (\<lambda>orphan. bindE (orphan_owner s orphan) (\<lambda>owner. Inr (owner, pn_business_date (fst orphan), pn_employee_id (fst orphan))))
              (orphan_punches s period_end)) (\<lambda>owned.
     let days = sort (remdups (map snd (filter (\<lambda>x. fst x = property_id) owned)))
     in mapE (\<lambda>(d, employee_id). bindE (require_not_none (get_employee s employee_id)) (\<lambda>_. Inr (OrphanPunch employee_id d))) days)"

datatype card_state = NoCard | Unapproved | Approved

text \<open>
  \<^verbatim>\<open>_worked_hours_facts\<close>: the card's state and its hours now, what the run paid, what was
  settled.
\<close>

definition card_worked :: "db \<Rightarrow> int \<Rightarrow> date \<Rightarrow> (card_state \<times> decimal) res" where
  "card_worked s employee_id period_start =
     bindE (scalar_one_or_none (filter (\<lambda>c. tc_employee_id c = employee_id \<and> tc_period_start c = period_start) (timecards s))) (\<lambda>card.
       case card of
         None \<Rightarrow> Inr (NoCard, 0)
       | Some c \<Rightarrow>
           if tc_status c \<noteq> ''approved'' then Inr (Unapproved, 0)
           else
             bindE (compute_timecard s c) (\<lambda>days.
             bindE (mapE (\<lambda>d. cents (ddiv (of_int (dr_worked_minutes d)) 60)) days) (\<lambda>hs.
             bindE (cents (sum_list hs)) (\<lambda>derived. Inr (Approved, derived)))))"

definition settled_hours :: "pay_db \<Rightarrow> PayRun \<Rightarrow> int \<Rightarrow> decimal" where
  "settled_hours s run employee_id =
     sum_list (map ws_hours (filter (\<lambda>w. ws_pay_run_id w = rn_pay_run_id run \<and> ws_employee_id w = employee_id) (wage_settlements s)))"

definition worked_hours_facts :: "pay_db \<Rightarrow> PayRun \<Rightarrow> PayRunLine \<Rightarrow> (card_state \<times> decimal \<times> decimal \<times> decimal) res" where
  "worked_hours_facts s run line =
     bindE (cents (ln_hours line - ln_sick_hours line)) (\<lambda>stored_worked.
     bindE (cents (settled_hours s run (ln_employee_id line))) (\<lambda>settled.
     bindE (card_worked (core s) (ln_employee_id line) (rn_period_start run)) (\<lambda>(state, derived).
       Inr (state, derived, stored_worked, settled))))"

definition paid_worked_line :: "pay_db \<Rightarrow> PayRun \<Rightarrow> PayRunLine \<Rightarrow> problem list res" where
  "paid_worked_line s run line =
     bindE (worked_hours_facts s run line) (\<lambda>(state, derived, stored_worked, settled).
       if state = NoCard \<and> stored_worked = 0 then Inr []
       else if state = Unapproved then
         bindE (require_not_none (get_employee (core s) (ln_employee_id line))) (\<lambda>_.
           Inr [CardReopened (ln_employee_id line) (rn_period_start run)])
       else
         bindE (cents (stored_worked + settled)) (\<lambda>paid.
           if derived = paid then Inr []
           else bindE (require_not_none (get_employee (core s) (ln_employee_id line))) (\<lambda>_.
             Inr (if derived > paid
                  then [UnpaidWorked (ln_employee_id line) (rn_period_start run) derived stored_worked settled] else []))))"

definition paid_worked_problems :: "pay_db \<Rightarrow> string \<Rightarrow> date \<Rightarrow> problem list res" where
  "paid_worked_problems s property_id period_start =
     bindE (mapE (\<lambda>run. bindE (mapE (paid_worked_line s run) (sort_key ln_employee_id (lines_of s run))) (\<lambda>pss. Inr (concat pss)))
              (earlier_runs s property_id period_start)) (\<lambda>pss. Inr (concat pss))"

section \<open>The settlement act\<close>

definition settle_worked_hours :: "pay_db \<Rightarrow> PayRun \<Rightarrow> int \<Rightarrow> string \<Rightarrow> string \<Rightarrow> (pay_db \<times> WageSettlement) res" where
  "settle_worked_hours s run employee_id actor note =
    (if rn_submitted_at run = None then Inl SettlementRefused
     else
       bindE (scalar_one_or_none (filter (\<lambda>l. ln_pay_run_id l = rn_pay_run_id run \<and> ln_employee_id l = employee_id)
                (pay_run_lines s))) (\<lambda>row.
         case row of
           None \<Rightarrow> Inl SettlementNotFound
         | Some line \<Rightarrow>
             bindE (worked_hours_facts s run line) (\<lambda>(state, derived, stored_worked, settled).
               if state = Unapproved then Inl SettlementRefused
               else
                 bindE (cents (derived - stored_worked - settled)) (\<lambda>delta.
                   if delta \<le> 0 then Inl SettlementRefused
                   else
                     let settlement = \<lparr>ws_pay_run_id = rn_pay_run_id run, ws_employee_id = employee_id, ws_hours = delta,
                                       ws_actor_subject = actor, ws_note = note\<rparr>
                     in Inr (s\<lparr>wage_settlements := wage_settlements s @ [settlement]\<rparr>, settlement)))))"

section \<open>Exact cents\<close>

lemma cents_inr:
  assumes "cents x = Inr y"
  shows "centi y" "\<bar>y\<bar> < 10 ^ 26"
proof -
  let ?c = "round_int ROUND_HALF_EVEN (x / CENTS)"
  have y: "y = of_int ?c / 100" and c: "\<bar>?c\<bar> < 10 ^ 28"
    using assms by (auto simp: quantize_def Let_def prec_def split: if_splits)
  show "centi y" unfolding y by (rule centiI) (rule refl)
  have "\<bar>of_int ?c\<bar> < (10 ^ 28 :: rat)" using c by (metis of_int_abs of_int_less_iff of_int_numeral of_int_power)
  then show "\<bar>y\<bar> < 10 ^ 26" unfolding y by (simp add: abs_divide)
qed

lemma cents_centi:
  assumes "centi x" "\<bar>x\<bar> < 10 ^ 26"
  shows "cents x = Inr x"
proof -
  from assms(1) obtain n where n: "x = of_int n / 100" by (auto simp: centi_def)
  have "\<bar>of_int n\<bar> < (10 ^ 28 :: rat)" using assms(2) by (simp add: n abs_divide)
  then have "\<bar>n\<bar> < 10 ^ 28" by (metis of_int_abs of_int_less_iff of_int_numeral of_int_power)
  then show ?thesis by (simp add: quantize_def n prec_def)
qed

lemma centi_sum: "\<forall>x \<in> set xs. centi (f x) \<Longrightarrow> centi (sum_list (map f xs))"
  by (induction xs) auto

section \<open>Settlement\<close>

text \<open>
  What the schema keeps of the two tables: a settlement is a positive number of hundredths,
  and a line's sick hours are part of its hours.
\<close>

definition settlements_ok :: "pay_db \<Rightarrow> bool" where
  "settlements_ok s \<longleftrightarrow> (\<forall>w \<in> set (wage_settlements s). centi (ws_hours w) \<and> 0 < ws_hours w)"

definition line_ok :: "PayRunLine \<Rightarrow> bool" where
  "line_ok l \<longleftrightarrow> centi (ln_hours l) \<and> centi (ln_sick_hours l) \<and> 0 \<le> ln_sick_hours l \<and> ln_sick_hours l \<le> ln_hours l"

lemma settled_hours_ok:
  assumes "settlements_ok s"
  shows "centi (settled_hours s run e)" "0 \<le> settled_hours s run e"
proof -
  let ?ws = "filter (\<lambda>w. ws_pay_run_id w = rn_pay_run_id run \<and> ws_employee_id w = e) (wage_settlements s)"
  have "\<forall>w \<in> set ?ws. centi (ws_hours w) \<and> 0 \<le> ws_hours w" using assms by (force simp: settlements_ok_def)
  then show "centi (settled_hours s run e)" "0 \<le> settled_hours s run e"
    unfolding settled_hours_def by (auto intro!: centi_sum sum_list_nonneg)
qed

lemma card_worked_inr:
  assumes "card_worked s e d = Inr (st, derived)"
  shows "centi derived" "\<bar>derived\<bar> < 10 ^ 26"
proof -
  have "derived = 0 \<or> (\<exists>h. cents h = Inr derived)"
    using assms by (auto simp: card_worked_def inr split: option.splits if_splits)
  then show "centi derived" "\<bar>derived\<bar> < 10 ^ 26" using cents_inr by auto
qed

lemma worked_hours_facts_inr:
  assumes "worked_hours_facts s run line = Inr (st, derived, stored, settled)" "settlements_ok s" "line_ok line"
  shows "card_worked (core s) (ln_employee_id line) (rn_period_start run) = Inr (st, derived)"
    "cents (ln_hours line - ln_sick_hours line) = Inr stored"
    "stored = ln_hours line - ln_sick_hours line" "0 \<le> stored" "centi stored"
    "settled = settled_hours s run (ln_employee_id line)" "0 \<le> settled" "centi settled"
proof -
  show q: "card_worked (core s) (ln_employee_id line) (rn_period_start run) = Inr (st, derived)"
      "cents (ln_hours line - ln_sick_hours line) = Inr stored"
    and se: "settled = settled_hours s run (ln_employee_id line)"
    using assms(1) quantize_centi [OF _ settled_hours_ok(1) [OF assms(2)]] by (auto simp: worked_hours_facts_def inr)
  show "stored = ln_hours line - ln_sick_hours line" using quantize_centi [OF q(2)] assms(3) by (auto simp: line_ok_def)
  then show "0 \<le> stored" "centi stored" using assms(3) by (auto simp: line_ok_def)
  show "0 \<le> settled" "centi settled" unfolding se using settled_hours_ok [OF assms(2)] by auto
qed

lemma worked_hours_facts_settled:
  assumes "worked_hours_facts s run line = Inr (st, derived, stored, settled)" "settlements_ok s" "line_ok line"
    and "ws_pay_run_id w = rn_pay_run_id run" "ws_employee_id w = ln_employee_id line" "centi (ws_hours w)" "\<bar>settled + ws_hours w\<bar> < 10 ^ 26"
  shows "worked_hours_facts (s\<lparr>wage_settlements := wage_settlements s @ [w]\<rparr>) run line = Inr (st, derived, stored, settled + ws_hours w)"
proof -
  note f = worked_hours_facts_inr [OF assms(1-3)]
  have "cents (settled + ws_hours w) = Inr (settled + ws_hours w)" using f(8) assms(6,7) by (intro cents_centi) auto
  moreover have "settled_hours (s\<lparr>wage_settlements := wage_settlements s @ [w]\<rparr>) run (ln_employee_id line) = settled + ws_hours w"
    using assms(4,5) unfolding f(6) by (simp add: settled_hours_def)
  ultimately show ?thesis using f(1,2) by (simp add: worked_hours_facts_def)
qed

text \<open>The difference a settlement records, and that recording it closes the difference.\<close>

lemma settle_worked_hours_inr:
  assumes "settle_worked_hours s run e actor note = Inr (s', w)" "settlements_ok s" "\<forall>l \<in> set (pay_run_lines s). line_ok l"
  obtains line st derived stored settled where
    "line \<in> set (lines_of s run)" "ln_employee_id line = e" "rn_submitted_at run \<noteq> None" "st \<noteq> Unapproved"
    "filter (\<lambda>l. ln_pay_run_id l = rn_pay_run_id run \<and> ln_employee_id l = e) (pay_run_lines s) = [line]"
    "worked_hours_facts s run line = Inr (st, derived, stored, settled)"
    "s' = s\<lparr>wage_settlements := wage_settlements s @ [w]\<rparr>" "ws_pay_run_id w = rn_pay_run_id run" "ws_employee_id w = e"
    "ws_hours w = derived - stored - settled" "0 < ws_hours w"
    "worked_hours_facts s' run line = Inr (st, derived, stored, derived - stored)" "cents derived = Inr derived"
proof -
  let ?ls = "filter (\<lambda>l. ln_pay_run_id l = rn_pay_run_id run \<and> ln_employee_id l = e) (pay_run_lines s)"
  from assms(1) have sub: "rn_submitted_at run \<noteq> None" by (auto simp: settle_worked_hours_def split: if_splits)
  from assms(1) sub obtain line st derived stored settled delta where
    l: "scalar_one_or_none ?ls = Inr (Some line)" and f: "worked_hours_facts s run line = Inr (st, derived, stored, settled)"
    and st: "st \<noteq> Unapproved" and d: "cents (derived - stored - settled) = Inr delta" "0 < delta"
    and w: "w = \<lparr>ws_pay_run_id = rn_pay_run_id run, ws_employee_id = e, ws_hours = delta, ws_actor_subject = actor, ws_note = note\<rparr>"
    and s': "s' = s\<lparr>wage_settlements := wage_settlements s @ [w]\<rparr>"
    unfolding settle_worked_hours_def by (auto simp: inr Let_def split: option.splits if_splits)
  have one: "?ls = [line]" using l by (auto simp: scalar_one_or_none_def split: list.splits)
  then have "line \<in> set ?ls" by simp
  then have line: "line \<in> set (lines_of s run)" "ln_employee_id line = e" "line \<in> set (pay_run_lines s)" by (auto simp: lines_of_def)
  have ok: "line_ok line" using line(3) assms(3) by blast
  note F = worked_hours_facts_inr [OF f assms(2) ok]
  have delta: "delta = derived - stored - settled"
    using quantize_centi [OF d(1)] F(5,8) card_worked_inr(1) [OF F(1)] by simp
  have "settled + ws_hours w = derived - stored" using delta by (simp add: w)
  moreover have "\<bar>derived - stored\<bar> < 10 ^ 26" using card_worked_inr(2) [OF F(1)] F(4,7) d(2) delta by linarith
  ultimately have "worked_hours_facts s' run line = Inr (st, derived, stored, derived - stored)"
    using worked_hours_facts_settled [OF f assms(2) ok, of w] cents_inr(1) [OF d(1)] line(2) unfolding s' by (simp add: w)
  moreover have "cents derived = Inr derived" using card_worked_inr [OF F(1)] by (rule cents_centi)
  ultimately show thesis using that [of line st derived stored settled] line(1,2) one sub st f s' delta d(2) by (simp add: w)
qed

lemma settled_line_clean:
  assumes "worked_hours_facts s run line = Inr (st, derived, stored, derived - stored)" "st \<noteq> Unapproved" "cents derived = Inr derived"
  shows "paid_worked_line s run line = Inr []"
  using assms by (simp add: paid_worked_line_def)

lemma settle_again_refused:
  assumes "filter (\<lambda>l. ln_pay_run_id l = rn_pay_run_id run \<and> ln_employee_id l = e) (pay_run_lines s) = [line]"
    and "worked_hours_facts s run line = Inr (st, derived, stored, derived - stored)"
  shows "settle_worked_hours s run e actor note = Inl SettlementRefused"
proof -
  have "cents 0 = Inr 0" by (rule cents_centi) simp_all
  then show ?thesis using assms by (simp add: settle_worked_hours_def scalar_one_or_none_def)
qed

lemma unpaid_worked_inr:
  assumes "paid_worked_line s run line = Inr [UnpaidWorked e d derived stored settled]"
  obtains st paid where "worked_hours_facts s run line = Inr (st, derived, stored, settled)" "st \<noteq> Unapproved" "e = ln_employee_id line"
    "d = rn_period_start run" "cents (stored + settled) = Inr paid" "paid < derived"
  using assms by (auto simp: paid_worked_line_def inr split: if_splits)

section \<open>Properties\<close>

text \<open>
  C19.  A worked-hours blocker can always be resolved: whenever the guard names unpaid hours on
  a line of a submitted run, the settlement act succeeds, it records exactly the hours the
  guard found unpaid, the guard is silent about the line afterwards, and settling once more is
  refused, so the same hours are never settled twice.
\<close>

theorem unpaid_hours_settle:
  assumes "settlements_ok s" "\<forall>l \<in> set (pay_run_lines s). line_ok l" "rn_submitted_at run \<noteq> None"
    and "filter (\<lambda>l. ln_pay_run_id l = rn_pay_run_id run \<and> ln_employee_id l = ln_employee_id line) (pay_run_lines s) = [line]"
    and "paid_worked_line s run line = Inr [UnpaidWorked e d derived stored settled]"
  shows "\<exists>s' w. settle_worked_hours s run e actor note = Inr (s', w) \<and> ws_hours w = derived - stored - settled
    \<and> settlements_ok s' \<and> paid_worked_line s' run line = Inr []
    \<and> settle_worked_hours s' run e actor' note' = Inl SettlementRefused"
proof -
  obtain st paid where f: "worked_hours_facts s run line = Inr (st, derived, stored, settled)" "st \<noteq> Unapproved"
    "e = ln_employee_id line" "cents (stored + settled) = Inr paid" "paid < derived"
    using unpaid_worked_inr [OF assms(5)] by blast
  have "line \<in> set (filter (\<lambda>l. ln_pay_run_id l = rn_pay_run_id run \<and> ln_employee_id l = ln_employee_id line) (pay_run_lines s))"
    unfolding assms(4) by simp
  then have ok: "line_ok line" using assms(2) by simp
  note F = worked_hours_facts_inr [OF f(1) assms(1) ok] and C = card_worked_inr [OF worked_hours_facts_inr(1) [OF f(1) assms(1) ok]]
  have "paid = stored + settled" using quantize_centi [OF f(4)] F(5,8) by simp
  then have pos: "0 < derived - stored - settled" using f(5) by simp
  have "cents (derived - stored - settled) = Inr (derived - stored - settled)"
    using C F(4,5,7,8) pos by (intro cents_centi) auto
  then obtain s' w where s': "settle_worked_hours s run e actor note = Inr (s', w)"
    using assms(3,4) f pos by (simp add: settle_worked_hours_def scalar_one_or_none_def Let_def)
  show ?thesis
  proof (rule settle_worked_hours_inr [OF s' assms(1,2)])
    fix line' st' derived' stored' settled'
    assume a: "filter (\<lambda>l. ln_pay_run_id l = rn_pay_run_id run \<and> ln_employee_id l = e) (pay_run_lines s) = [line']"
      "worked_hours_facts s run line' = Inr (st', derived', stored', settled')" "st' \<noteq> Unapproved"
      "s' = s\<lparr>wage_settlements := wage_settlements s @ [w]\<rparr>" "ws_hours w = derived' - stored' - settled'" "0 < ws_hours w"
      "worked_hours_facts s' run line' = Inr (st', derived', stored', derived' - stored')" "cents derived' = Inr derived'"
    have l: "line' = line" using a(1) assms(4) f(3) by simp
    have eq: "st' = st" "derived' = derived" "stored' = stored" "settled' = settled" using a(2) f(1) by (simp_all add: l)
    have "settlements_ok s'" using assms(1) a(6) C(1) F(5,8) by (auto simp: settlements_ok_def a(4,5) eq)
    moreover have "paid_worked_line s' run line = Inr []"
      using settled_line_clean a(3,7,8) by (simp add: l)
    moreover have "settle_worked_hours s' run e actor' note' = Inl SettlementRefused"
      using settle_again_refused a(1,7) by (simp add: a(4))
    ultimately show ?thesis using s' a(5) eq by blast
  qed
qed

definition example_run :: PayRun where
  "example_run = \<lparr>rn_pay_run_id = 1, rn_property_id = ''SJCES'', rn_period_start = 1, rn_period_end = 14, rn_check_date = 19,
     rn_status = ''submitted'', rn_provider = ''gusto'', rn_provider_run_id = Some ''g-1'', rn_created_by = ''ops'',
     rn_submitted_at = Some 0, rn_processed_at = None, rn_failure_reason = None\<rparr>"

definition example_line :: PayRunLine where
  "example_line = \<lparr>ln_pay_run_id = 1, ln_employee_id = 7, ln_department_id = None, ln_hours = 1 / 2, ln_sick_hours = 0, ln_gross = 0,
     ln_employee_taxes = 0, ln_employer_taxes = 0, ln_net = 0\<rparr>"

definition example_pay :: pay_db where
  "example_pay = \<lparr>core = approved_db\<lparr>timecards := [approved_card]\<rparr>, pay_schedules = [], payroll_profiles = [], deposit_accounts = [],
     provider_refs = [], pay_runs = [example_run], pay_run_lines = [example_line], pay_run_line_properties = [], wage_settlements = [],
     actual_labor_facts = []\<rparr>"

lemma example_card_worked: "card_worked (core example_pay) 7 1 = Inr (Approved, 1)"
proof -
  let ?s = "approved_db\<lparr>timecards := [approved_card]\<rparr>"
  have "punch_event ?s = punch_event approved_db" by (simp add: fun_eq_iff punch_event_def get_device_def)
  then have "compute_timecard ?s approved_card = compute_timecard approved_db approved_card"
    by (simp add: compute_timecard_def timecard_events_def)
  then have days: "compute_timecard ?s approved_card = Inr [approved_day]" by (simp only: approved_days)
  have "ddiv 60 60 = 1" using ctx_of_int [of 1] by (simp add: ddiv_def prec_def)
  moreover have "cents 1 = Inr 1" using centi_simps(2) [of num.One] by (intro cents_centi) simp_all
  ultimately show ?thesis using days
    by (simp add: card_worked_def example_pay_def scalar_one_or_none_def example_card_def)
qed

theorem unpaid_hours_settle_witness:
  "\<exists>s' w. paid_worked_line example_pay example_run example_line = Inr [UnpaidWorked 7 1 1 (1 / 2) 0]
    \<and> settle_worked_hours example_pay example_run 7 ''hr'' ''paid by check'' = Inr (s', w) \<and> ws_hours w = 1 / 2
    \<and> paid_worked_line s' example_run example_line = Inr []"
proof -
  have half: "centi (1 / 2)" by (rule centiI [of _ 50]) simp
  have q: "cents (1 / 2) = Inr (1 / 2)" "cents 0 = Inr 0" using half by (auto intro!: cents_centi)
  have b: "paid_worked_line example_pay example_run example_line = Inr [UnpaidWorked 7 1 1 (1 / 2) 0]"
    using example_card_worked q
    by (simp add: paid_worked_line_def worked_hours_facts_def settled_hours_def example_line_def example_run_def)
       (simp add: example_pay_def approved_db_def get_employee_def require_not_none_def)
  have ok: "settlements_ok example_pay" "\<forall>l \<in> set (pay_run_lines example_pay). line_ok l" "rn_submitted_at example_run \<noteq> None"
    "filter (\<lambda>l. ln_pay_run_id l = rn_pay_run_id example_run \<and> ln_employee_id l = ln_employee_id example_line) (pay_run_lines example_pay) = [example_line]"
    using half by (simp_all add: settlements_ok_def line_ok_def example_pay_def example_run_def example_line_def)
  from unpaid_hours_settle [OF ok b, of "''hr''" "''paid by check''" "''hr''" "''again''"] b show ?thesis by auto
qed

end
