(* ===== verification/PayAssemble.thy ===== *)
theory PayAssemble
  imports PayGuards
begin

text \<open>
  \<^verbatim>\<open>assemble_pay_run_entries\<close> of \<^verbatim>\<open>usali/payroll_run.py\<close>: from the approved cards and the sick days
  of a period to the entries a run would submit and the blockers that stop it.  Python sets of
  rates and rate types are duplicate-free lists.
\<close>

section \<open>The report\<close>

record PreflightEntry =
  en_employee_id :: int
  en_regular_hours :: decimal
  en_ot_hours :: decimal
  en_dt_hours :: decimal
  en_hourly_rate :: decimal
  en_sick_hours :: decimal
  en_sick_balance_hours :: "decimal option"

record PreflightReport =
  rp_property_id :: string
  rp_period_start :: date
  rp_period_end :: date
  rp_check_date :: "date option"
  rp_entries :: "PreflightEntry list"
  rp_problems :: "problem list"

definition report_ok :: "PreflightReport \<Rightarrow> bool" where
  "report_ok r \<longleftrightarrow> rp_problems r = [] \<and> rp_entries r \<noteq> []"

section \<open>The rates of a card\<close>

definition worked_placements :: "db \<Rightarrow> Timecard \<Rightarrow> int \<Rightarrow> (int \<times> date) list res" where
  "worked_placements s tcard employee_id =
     bindE (compute_timecard s tcard) (\<lambda>days.
     bindE (mapE (\<lambda>d.
        if dr_worked_minutes d \<le> 0 then Inr []
        else bindE (mapE (\<lambda>p. case p of
               None \<Rightarrow> Inr []
             | Some property_id \<Rightarrow>
                 bindE (assignment_at s employee_id property_id (dr_business_date d)) (\<lambda>a.
                   Inr (case a of None \<Rightarrow> [] | Some x \<Rightarrow> [(ea_assignment_id x, dr_business_date d)])))
             (keys (dr_property_minutes d))) (\<lambda>xs. Inr (concat xs))) days) (\<lambda>xss. Inr (concat xss)))"

definition distinct_rates :: "db \<Rightarrow> Timecard \<Rightarrow> int \<Rightarrow> decimal list res" where
  "distinct_rates s tcard employee_id =
     bindE (worked_placements s tcard employee_id) (\<lambda>ps.
     bindE (mapE (\<lambda>(a, d). rate_on s a ''regular'' d) ps) (\<lambda>rs. Inr (remdups (List.map_filter id rs))))"

definition uncosted_worked_days :: "db \<Rightarrow> Timecard \<Rightarrow> int \<Rightarrow> date list res" where
  "uncosted_worked_days s tcard employee_id =
     bindE (worked_placements s tcard employee_id) (\<lambda>ps.
     bindE (filterE (\<lambda>(a, d). bindE (rate_on s a ''regular'' d) (\<lambda>r. Inr (r = None))) ps) (\<lambda>bad. Inr (sort (map snd bad))))"

definition stored_premium_types :: "db \<Rightarrow> Timecard \<Rightarrow> int \<Rightarrow> string list res" where
  "stored_premium_types s tcard employee_id =
     bindE (worked_placements s tcard employee_id) (\<lambda>ps.
     bindE (mapE (\<lambda>(a, d). filterE (\<lambda>t. bindE (rate_on s a t d) (\<lambda>r. Inr (r \<noteq> None))) [''ot'', ''dot'', ''holiday'']) ps)
       (\<lambda>tss. Inr (remdups (concat tss))))"

section \<open>The population\<close>

definition excluded_staff :: "db \<Rightarrow> int set \<Rightarrow> int list" where
  "excluded_staff s paid_here = map em_employee_id
     (filter (\<lambda>e. em_employee_id e \<in> paid_here \<and> em_pay_type e = EXCLUDE_FROM_PAYROLL) (employees s))"

definition flipped_staff :: "db \<Rightarrow> int list \<Rightarrow> date \<Rightarrow> int list" where
  "flipped_staff s excluded period_start = remdups (map tc_employee_id
     (filter (\<lambda>c. tc_employee_id c \<in> set excluded \<and> tc_period_start c = period_start
        \<and> (\<exists>f \<in> set (labor_facts s). lf_timecard_id f = tc_timecard_id c)) (timecards s)))"

text \<open>The population without the excluded, and a blocker for each who was priced this period.\<close>

definition payable :: "db \<Rightarrow> int set \<Rightarrow> date \<Rightarrow> (int set \<times> problem list) res" where
  "payable s paid_here period_start =
    (let excluded = excluded_staff s paid_here; flipped = sort (flipped_staff s excluded period_start) in
     bindE (mapE (\<lambda>e. bindE (require_not_none (get_employee s e)) (\<lambda>_. Inr (ExcludedButPromoted e))) flipped) (\<lambda>ps.
       Inr (paid_here - set excluded, ps)))"

section \<open>One card\<close>

definition card_rates :: "db \<Rightarrow> Timecard \<Rightarrow> int \<Rightarrow> (decimal list \<times> string list \<times> date list) res" where
  "card_rates s tcard employee_id =
     bindE (distinct_rates s tcard employee_id) (\<lambda>rates.
     bindE (stored_premium_types s tcard employee_id) (\<lambda>premiums.
     bindE (uncosted_worked_days s tcard employee_id) (\<lambda>uncosted. Inr (rates, premiums, uncosted))))"

definition worked_split :: "(date, decimal) dict \<Rightarrow> date \<Rightarrow> bool \<Rightarrow> OvertimeRules \<Rightarrow> split3" where
  "worked_split day_hours anchor exempt rules =
     fold (\<lambda>row (reg, ot, dt). (reg + regular_hours row, ot + ot_hours row, dt + dt_hours row))
       (compute_overtime day_hours anchor exempt rules) (0, 0, 0)"

definition est_gross_of :: "OvertimeRules \<Rightarrow> decimal \<Rightarrow> split3 \<Rightarrow> decimal \<Rightarrow> decimal" where
  "est_gross_of rules rate = (\<lambda>(reg, ot, dt) sick_total.
     rate * (reg + ot * ot_multiplier rules + dt * (case dt_multiplier rules of Some m \<Rightarrow> m | None \<Rightarrow> 1) + sick_total))"

definition mk_entry :: "int \<Rightarrow> split3 \<Rightarrow> decimal \<Rightarrow> decimal \<Rightarrow> PreflightEntry res" where
  "mk_entry employee_id = (\<lambda>(reg, ot, dt) rate sick_total.
     bindE (cents reg) (\<lambda>r. bindE (cents ot) (\<lambda>ov. bindE (cents dt) (\<lambda>d. bindE (cents sick_total) (\<lambda>sk.
       Inr \<lparr>en_employee_id = employee_id, en_regular_hours = r, en_ot_hours = ov, en_dt_hours = d, en_hourly_rate = rate,
            en_sick_hours = sk, en_sick_balance_hours = None\<rparr>)))))"

text \<open>The card once its rates are known: blockers, or the entry.\<close>

definition priced_card ::
  "(string \<Rightarrow> string) \<Rightarrow> pay_db \<Rightarrow> ProviderCapabilities option \<Rightarrow> string \<Rightarrow> date \<Rightarrow> OvertimeRules \<Rightarrow> Timecard \<Rightarrow> int
     \<Rightarrow> SickDayTaken list \<Rightarrow> decimal list \<times> string list \<times> date list \<Rightarrow> (problem list + PreflightEntry) res" where
  "priced_card sha256 s caps property_id anchor rules tcard e sick_days = (\<lambda>(rates, premiums, uncosted).
     let (sick_total, sick_rate, sick_problems) = resolve_employee_sick sick_days property_id e in
     if sick_problems \<noteq> [] then Inr (Inl sick_problems)
     else if rates = [] \<and> sick_total = 0 then Inr (Inl [NoPayRate e])
     else if uncosted \<noteq> [] then Inr (Inl [Uncosted e uncosted])
     else if length rates > 1 then Inr (Inl [ManyRates e (length rates)])
     else if premiums \<noteq> [] then Inr (Inl [StoredPremium e (sort premiums)])
     else if rates \<noteq> [] \<and> (case sick_rate of Some r \<Rightarrow> r \<notin> set rates | None \<Rightarrow> False) then Inr (Inl [SickRateDiffers e])
     else
       bindE (person_problems sha256 s e caps) (\<lambda>pps.
       if pps \<noteq> [] then Inr (Inl pps)
       else
         bindE (card_days (core s) tcard) (\<lambda>days.
         bindE (card_day_hours days) (\<lambda>day_hours.
         bindE (stacked_sick_problems (core s) e day_hours (filter (\<lambda>t. sd_property_id t = Some property_id) sick_days)) (\<lambda>stacked.
         if stacked \<noteq> [] then Inr (Inl stacked)
         else
           bindE (catchE (\<lambda>x. x = MixedExemptionError) (resolve_exemption (core s) e (keys day_hours))) (\<lambda>ex.
             case ex of
               Inl x \<Rightarrow> Inr (Inl [Refusal e x])
             | Inr exempt \<Rightarrow>
                 let hours = worked_split day_hours anchor exempt rules in
                 bindE (require_not_none (case rates of r # _ \<Rightarrow> Some r | [] \<Rightarrow> sick_rate)) (\<lambda>rate.
                   case carve_problem s e (est_gross_of rules rate hours sick_total) of
                     Some p \<Rightarrow> Inr (Inl [p])
                   | None \<Rightarrow> bindE (mk_entry e hours rate sick_total) (\<lambda>entry. Inr (Inr entry)))))))))"

type_synonym sick_dict = "(int, SickDayTaken list) dict"

definition card_step ::
  "(string \<Rightarrow> string) \<Rightarrow> pay_db \<Rightarrow> ProviderCapabilities option \<Rightarrow> string \<Rightarrow> date \<Rightarrow> OvertimeRules \<Rightarrow> Timecard
     \<Rightarrow> problem list \<times> PreflightEntry list \<times> sick_dict \<Rightarrow> (problem list \<times> PreflightEntry list \<times> sick_dict) res" where
  "card_step sha256 s caps property_id anchor rules tcard = (\<lambda>(ps, es, sick).
     bindE (require_not_none (get_employee (core s) (tc_employee_id tcard))) (\<lambda>employee.
       let e = em_employee_id employee in
       if \<not> em_payroll_data_complete employee then Inr (ps @ [DataIncomplete e], es, sick)
       else if tc_status tcard \<noteq> ''approved'' then Inr (ps @ [NotApproved e (tc_timecard_id tcard)], es, sick)
       else
         bindE (catchE (\<lambda>x. is_RateError x \<or> x = AmbiguousAssignmentError) (card_rates (core s) tcard e)) (\<lambda>r.
           case r of
             Inl x \<Rightarrow> Inr (ps @ [Refusal e x], es, sick)
           | Inr rates \<Rightarrow>
               bindE (priced_card sha256 s caps property_id anchor rules tcard e (dict_get sick e []) rates) (\<lambda>out.
                 let sick' = AList.delete e sick in
                 case out of
                   Inl new \<Rightarrow> Inr (ps @ new, es, sick')
                 | Inr entry \<Rightarrow> Inr (ps, es @ [entry], sick')))))"

section \<open>Sick leave without a card\<close>

definition sick_only ::
  "(string \<Rightarrow> string) \<Rightarrow> pay_db \<Rightarrow> ProviderCapabilities option \<Rightarrow> string \<Rightarrow> int set \<Rightarrow> int \<times> SickDayTaken list
     \<Rightarrow> (problem list \<times> PreflightEntry list) res" where
  "sick_only sha256 s caps property_id paid_here = (\<lambda>(e, days).
     bindE (require_not_none (get_employee (core s) e)) (\<lambda>employee.
       if e \<notin> paid_here then
         Inr (if filter (\<lambda>t. sd_property_id t = Some property_id) days \<noteq> [] then [SickNotPaidHere e] else [], [])
       else if \<not> list_ex (\<lambda>t. sd_property_id t = Some property_id \<or> sd_property_id t = None) days then Inr ([], [])
       else if \<not> em_payroll_data_complete employee then Inr ([DataIncomplete e], [])
       else
         let (sick_total, sick_rate, sick_problems) = resolve_employee_sick days property_id e in
         if sick_problems \<noteq> [] then Inr (sick_problems, [])
         else if sick_total = 0 then Inr ([], [])
         else
           bindE (require_not_none sick_rate) (\<lambda>rate.
           bindE (person_problems sha256 s e caps) (\<lambda>pps.
             if pps \<noteq> [] then Inr (pps, [])
             else case carve_problem s e (rate * sick_total) of
                 Some p \<Rightarrow> Inr ([p], [])
               | None \<Rightarrow> bindE (mk_entry e (0, 0, 0) rate sick_total) (\<lambda>entry. Inr ([], [entry]))))))"

definition with_balances :: "db \<Rightarrow> ProviderCapabilities option \<Rightarrow> date option \<Rightarrow> PreflightEntry list \<Rightarrow> PreflightEntry list res" where
  "with_balances s caps check_date es =
    (case (caps, check_date) of
       (Some c, Some d) \<Rightarrow>
         if pc_supports_sick_balance_display c
         then mapE (\<lambda>e. bindE (balance_on s (en_employee_id e) d) (\<lambda>b. Inr (e\<lparr>en_sick_balance_hours := Some b\<rparr>))) es
         else Inr es
     | _ \<Rightarrow> Inr es)"

section \<open>The assembly\<close>

definition assemble_pay_run_entries ::
  "(string \<Rightarrow> string) \<Rightarrow> pay_db \<Rightarrow> string \<Rightarrow> date \<Rightarrow> date \<Rightarrow> ProviderCapabilities option \<Rightarrow> PreflightReport res" where
  "assemble_pay_run_entries sha256 s property_id in_period anchor caps =
    (let (period_start, period_end) = period_for in_period anchor in
     bindE (scalar_one_or_none (filter (\<lambda>p. ps_property_id p = property_id) (pay_schedules s))) (\<lambda>schedule.
     let check_date = map_option (\<lambda>p. period_end + ps_check_date_offset_days p) schedule;
         report = (\<lambda>ps es. \<lparr>rp_property_id = property_id, rp_period_start = period_start, rp_period_end = period_end,
                     rp_check_date = check_date, rp_entries = es, rp_problems = ps\<rparr>);
         p0 = (if schedule = None then [NoPaySchedule property_id] else [])
     in case get_property (core s) property_id of
          None \<Rightarrow> Inr (report (p0 @ [UnknownProperty property_id]) [])
        | Some prop \<Rightarrow>
            bindE (rules_for (pr_wage_jurisdiction prop)) (\<lambda>rules.
            bindE (employee_ids_paid_by_during (core s) property_id period_start period_end) (\<lambda>population.
            bindE (payable (core s) population period_start) (\<lambda>(paid_here, p1).
            bindE (sick_days_taken (core s) period_start period_end) (\<lambda>taken.
            let sick_by_emp = group_by sd_employee_id taken in
            bindE (late_sick_problems s property_id period_start) (\<lambda>p2.
            bindE (late_worked_problems (core s) property_id period_end) (\<lambda>p3.
            bindE (paid_worked_problems s property_id period_start) (\<lambda>p4.
            let cards = filter (\<lambda>c. tc_employee_id c \<in> paid_here \<and> tc_period_start c = period_start) (timecards (core s));
                early = p0 @ p1 @ p2 @ p3 @ p4
            in if cards = [] then Inr (report (early @ [NoTimecards property_id period_start]) [])
               else
                 bindE (foldE (card_step sha256 s caps property_id anchor rules) cards (early, [], sick_by_emp)) (\<lambda>(ps, es, sick).
                 bindE (mapE (sick_only sha256 s caps property_id paid_here)
                          (filter (\<lambda>(e, days). e \<notin> set (map tc_employee_id cards)) (sort_key fst sick))) (\<lambda>outs.
                 bindE (with_balances (core s) caps check_date (es @ concat (map snd outs))) (\<lambda>entries.
                   Inr (report (ps @ concat (map fst outs)) entries)))))))))))))"

section \<open>A blocker names its employee\<close>

lemma sort_key_Nil [simp]: "sort_key f xs = [] \<longleftrightarrow> xs = []"
  by (metis length_0_conv length_sort)

lemma resolve_employee_sick_names:
  "resolve_employee_sick days p e = (t, r, ps) \<Longrightarrow> names e ps"
  by (auto simp: resolve_employee_sick_def Let_def)

lemma names_concat: "\<forall>ps \<in> set pss. names e ps \<Longrightarrow> names e (concat pss)"
  by (induction pss) simp_all

lemma stale_names: "stale_provider_payload_problems sha256 s e = Inr ps \<Longrightarrow> names e ps"
  by (auto simp: stale_provider_payload_problems_def inr)

lemma person_problems_names: "person_problems sha256 s e caps = Inr ps \<Longrightarrow> names e ps"
  using deposit_problems_total [of s e] stale_names [of sha256 s e]
  by (auto simp: person_problems_def inr Let_def split: if_splits)

lemma stacked_names: "stacked_sick_problems s e day_hours days = Inr ps \<Longrightarrow> names e ps"
proof -
  assume "stacked_sick_problems s e day_hours days = Inr ps"
  then obtain pss where pss: "ps = concat pss" "\<forall>x \<in> set pss. names e x"
    by (fastforce simp: stacked_sick_problems_def inr mapE_set Let_def split: if_splits)
  then show ?thesis by (simp add: names_concat)
qed

lemma carve_names: "carve_problem s e g = Some p \<Longrightarrow> problem_employee p = Some e"
  by (auto simp: carve_problem_def Let_def split: if_splits)

lemma mk_entry_employee: "mk_entry e hours rate sick = Inr x \<Longrightarrow> en_employee_id x = e"
  by (cases hours) (auto simp: mk_entry_def inr)

definition blocks_or_pays :: "int \<Rightarrow> (PreflightEntry \<Rightarrow> bool) \<Rightarrow> problem list + PreflightEntry \<Rightarrow> bool" where
  "blocks_or_pays e Q out = (case out of Inl ps \<Rightarrow> ps \<noteq> [] \<and> names e ps | Inr x \<Rightarrow> en_employee_id x = e \<and> Q x)"

lemma blocks_or_pays_simps [simp]:
  "blocks_or_pays e Q (Inl ps) \<longleftrightarrow> ps \<noteq> [] \<and> names e ps"
  "blocks_or_pays e Q (Inr x) \<longleftrightarrow> en_employee_id x = e \<and> Q x"
  by (simp_all add: blocks_or_pays_def)

text \<open>What an entry of a card says: one rate, the worked hours split by the overtime rules, the sick hours here.\<close>

definition entry_of_card ::
  "pay_db \<Rightarrow> string \<Rightarrow> date \<Rightarrow> OvertimeRules \<Rightarrow> Timecard \<Rightarrow> int \<Rightarrow> SickDayTaken list \<Rightarrow> decimal list \<Rightarrow> PreflightEntry \<Rightarrow> bool" where
  "entry_of_card s p anchor rules tcard e sick_days rates x \<longleftrightarrow>
     (\<exists>total sick_rate days day_hours exempt. resolve_employee_sick sick_days p e = (total, sick_rate, [])
        \<and> (rates = [en_hourly_rate x] \<and> sick_rate \<in> {None, Some (en_hourly_rate x)} \<or> rates = [] \<and> sick_rate = Some (en_hourly_rate x))
        \<and> card_days (core s) tcard = Inr days \<and> card_day_hours days = Inr day_hours
        \<and> resolve_exemption (core s) e (keys day_hours) = Inr exempt
        \<and> mk_entry e (worked_split day_hours anchor exempt rules) (en_hourly_rate x) total = Inr x)"

lemma mk_entry_rate: "mk_entry e h rate t = Inr x \<Longrightarrow> en_hourly_rate x = rate"
  by (cases h) (auto simp: mk_entry_def inr)

lemma priced_card_yields:
  "yields (blocks_or_pays e (\<lambda>x. premiums = [] \<and> uncosted = [] \<and> entry_of_card s p anchor rules tcard e sick_days rates x))
     (priced_card sha256 s caps p anchor rules tcard e sick_days (rates, premiums, uncosted))"
proof -
  obtain total sick_rate sps where r: "resolve_employee_sick sick_days p e = (total, sick_rate, sps)" by (cases "resolve_employee_sick sick_days p e")
  have pays: "entry_of_card s p anchor rules tcard e sick_days rates x"
    if "sps = []" "\<not> 1 < length rates" "\<not> (rates \<noteq> [] \<and> (case sick_rate of Some r \<Rightarrow> r \<notin> set rates | None \<Rightarrow> False))"
      "card_days (core s) tcard = Inr days" "card_day_hours days = Inr day_hours" "resolve_exemption (core s) e (keys day_hours) = Inr exempt"
      "require_not_none (case rates of r # _ \<Rightarrow> Some r | [] \<Rightarrow> sick_rate) = Inr rate"
      "mk_entry e (worked_split day_hours anchor exempt rules) rate total = Inr x" for days day_hours exempt rate x
  proof -
    have "rates = [rate] \<and> sick_rate \<in> {None, Some rate} \<or> rates = [] \<and> sick_rate = Some rate"
      using that(2,3,7) by (cases rates; cases sick_rate) (auto simp: require_not_none_def)
    then show ?thesis unfolding entry_of_card_def using r that mk_entry_rate [OF that(8)] by blast
  qed
  have none_worked: "entry_of_card s p anchor rules tcard e sick_days [] x"
    if "rates = []" "sps = []" "sick_rate = Some rate" "card_days (core s) tcard = Inr days" "card_day_hours days = Inr day_hours"
      "catchE (\<lambda>x. x = MixedExemptionError) (resolve_exemption (core s) e (keys day_hours)) = Inr (Inr exempt)"
      "mk_entry e (worked_split day_hours anchor exempt rules) rate total = Inr x" for days day_hours exempt rate x
    using pays [of days day_hours exempt rate x] that catchE_inr(2) [OF that(6)] by (simp add: require_not_none_def)
  show ?thesis
    unfolding priced_card_def r Let_def prod.case
    by (intro yields_rules)
       (auto dest: catchE_inr resolve_employee_sick_names [OF r [THEN trans]] stacked_names person_problems_names carve_names mk_entry_employee
             intro: pays none_worked simp: resolve_employee_sick_names [OF r])
qed

section \<open>The card loop\<close>

text \<open>Which entries the card of an employee can add: the entry for its rates, priced as above.\<close>

definition card_entry ::
  "pay_db \<Rightarrow> string \<Rightarrow> date \<Rightarrow> OvertimeRules \<Rightarrow> sick_dict \<Rightarrow> Timecard \<Rightarrow> PreflightEntry \<Rightarrow> bool" where
  "card_entry s p anchor rules sick tcard x \<longleftrightarrow>
     en_employee_id x = tc_employee_id tcard \<and> tc_status tcard = ''approved''
   \<and> (\<exists>rates. card_rates (core s) tcard (tc_employee_id tcard) = Inr (rates, [], [])
        \<and> entry_of_card s p anchor rules tcard (tc_employee_id tcard) (dict_get sick (tc_employee_id tcard) []) rates x)"

lemma card_entry_id: "card_entry s p anchor rules sick c x \<Longrightarrow> en_employee_id x = tc_employee_id c"
  by (simp add: card_entry_def)

lemma get_employee_id: "get_employee s e = Some x \<Longrightarrow> em_employee_id x = e"
  by (auto simp: get_employee_def dest: find_SomeD)

lemma card_step_inr:
  assumes "card_step sha256 s caps p anchor rules tcard (ps, es, sick) = Inr (ps', es', sick')"
  obtains (blocked) new where "ps' = ps @ new" "new \<noteq> []" "names (tc_employee_id tcard) new" "es' = es"
      "sick' = sick \<or> sick' = AList.delete (tc_employee_id tcard) sick"
    | (paid) x where "ps' = ps" "es' = es @ [x]" "card_entry s p anchor rules sick tcard x" "sick' = AList.delete (tc_employee_id tcard) sick"
proof -
  let ?e = "tc_employee_id tcard"
  have id: "em_employee_id emp = ?e" if "require_not_none (get_employee (core s) ?e) = Inr emp" for emp
    using that get_employee_id by (auto simp: require_not_none_def split: option.splits)
  have "(\<exists>x. ps' = ps @ [x] \<and> problem_employee x = Some ?e \<and> es' = es \<and> sick' = sick)
    \<or> (\<exists>rates out. tc_status tcard = ''approved'' \<and> card_rates (core s) tcard ?e = Inr rates
         \<and> priced_card sha256 s caps p anchor rules tcard ?e (dict_get sick ?e []) rates = Inr out \<and> sick' = AList.delete ?e sick
         \<and> (case out of Inl new \<Rightarrow> ps' = ps @ new \<and> es' = es | Inr x \<Rightarrow> ps' = ps \<and> es' = es @ [x]))"
  proof -
    obtain emp where emp: "require_not_none (get_employee (core s) ?e) = Inr emp"
      using assms unfolding card_step_def prod.case bindE_eq_Inr_iff by blast
    note e = id [OF emp]
    consider "\<not> em_payroll_data_complete emp" | "em_payroll_data_complete emp" "tc_status tcard \<noteq> ''approved''"
      | "em_payroll_data_complete emp" "tc_status tcard = ''approved''" by blast
    then show ?thesis
    proof cases
      case 3
      then obtain r where r: "catchE (\<lambda>x. is_RateError x \<or> x = AmbiguousAssignmentError) (card_rates (core s) tcard ?e) = Inr r"
        using assms unfolding card_step_def prod.case emp bindE_simps e Let_def by (auto simp: bindE_eq_Inr_iff)
      show ?thesis
      proof (cases r)
        case (Inl x)
        then have "ps' = ps @ [Refusal ?e x] \<and> es' = es \<and> sick' = sick" using assms 3 r by (auto simp: card_step_def emp e)
        then show ?thesis by (intro disjI1 exI [of _ "Refusal ?e x"]) simp
      next
        case (Inr rates)
        then obtain out where "priced_card sha256 s caps p anchor rules tcard ?e (dict_get sick ?e []) rates = Inr out"
          using assms 3 r by (auto simp: card_step_def emp e bindE_eq_Inr_iff Let_def)
        moreover from this have "sick' = AList.delete ?e sick"
            "case out of Inl new \<Rightarrow> ps' = ps @ new \<and> es' = es | Inr x \<Rightarrow> ps' = ps \<and> es' = es @ [x]"
          using assms 3 r Inr by (cases out; auto simp: card_step_def emp e Let_def)+
        ultimately show ?thesis using 3(2) catchE_inr(2) [OF r [unfolded Inr]] by blast
      qed
    next
      case 1
      then show ?thesis using assms by (intro disjI1 exI [of _ "DataIncomplete ?e"]) (auto simp: card_step_def emp e)
    next
      case 2
      then show ?thesis using assms by (intro disjI1 exI [of _ "NotApproved ?e (tc_timecard_id tcard)"]) (auto simp: card_step_def emp e)
    qed
  qed
  then show thesis
  proof (elim disjE exE conjE)
    fix x assume "ps' = ps @ [x]" "problem_employee x = Some ?e" "es' = es" "sick' = sick"
    then show thesis using blocked [of "[x]"] by simp
  next
    fix rates out
    assume a: "tc_status tcard = ''approved''" "card_rates (core s) tcard ?e = Inr rates" "sick' = AList.delete ?e sick"
      "priced_card sha256 s caps p anchor rules tcard ?e (dict_get sick ?e []) rates = Inr out"
      "case out of Inl new \<Rightarrow> ps' = ps @ new \<and> es' = es | Inr x \<Rightarrow> ps' = ps \<and> es' = es @ [x]"
    obtain rs pr un where r: "rates = (rs, pr, un)" by (cases rates)
    have b: "blocks_or_pays ?e (\<lambda>x. pr = [] \<and> un = [] \<and> entry_of_card s p anchor rules tcard ?e (dict_get sick ?e []) rs x) out"
      using yieldsD [OF priced_card_yields] a(4) unfolding r by blast
    show thesis
    proof (cases out)
      case (Inl new)
      then show thesis using blocked [of new] a(3,5) b by simp
    next
      case (Inr x)
      then show thesis using paid [of x] a b by (simp add: card_entry_def r)
    qed
  qed
qed

lemma card_entry_delete:
  assumes "e \<noteq> tc_employee_id c"
  shows "card_entry s p anchor rules (AList.delete e sick) c x = card_entry s p anchor rules sick c x"
  using assms by (simp add: card_entry_def dict_get_def delete_conv')

lemma card_entry_sick_cong:
  assumes "sick' = sick \<or> sick' = AList.delete e sick" "e \<noteq> tc_employee_id c"
  shows "card_entry s p anchor rules sick' c x = card_entry s p anchor rules sick c x"
  using assms card_entry_delete by auto

lemma filter_delete:
  assumes "sick' = sick \<or> sick' = AList.delete e sick"
  shows "filter (\<lambda>kv. fst kv \<noteq> e \<and> fst kv \<notin> A) sick' = filter (\<lambda>kv. fst kv \<noteq> e \<and> fst kv \<notin> A) sick"
  using assms by (elim disjE) (simp_all add: AList.delete_eq case_prod_beta' conj_commute, metis (mono_tags, lifting) filter_cong)

lemma card_loop:
  assumes "foldE (card_step sha256 s caps p anchor rules) cards (ps, es, sick) = Inr (ps', es', sick')"
    and "distinct (map tc_employee_id cards)"
  shows "\<exists>new ents. ps' = ps @ new \<and> es' = es @ ents
    \<and> (\<forall>c \<in> set cards. (\<exists>q \<in> set new. problem_employee q = Some (tc_employee_id c)) \<or> (\<exists>x \<in> set ents. card_entry s p anchor rules sick c x))
    \<and> (\<forall>x \<in> set ents. \<exists>c \<in> set cards. card_entry s p anchor rules sick c x) \<and> distinct (map en_employee_id ents)
    \<and> filter (\<lambda>kv. fst kv \<notin> tc_employee_id ` set cards) sick' = filter (\<lambda>kv. fst kv \<notin> tc_employee_id ` set cards) sick"
  using assms
proof (induction cards arbitrary: ps es sick)
  case (Cons c cards)
  obtain ps1 es1 sick1 where 1: "card_step sha256 s caps p anchor rules c (ps, es, sick) = Inr (ps1, es1, sick1)"
    and 2: "foldE (card_step sha256 s caps p anchor rules) cards (ps1, es1, sick1) = Inr (ps', es', sick')"
    using Cons.prems(1) by (auto simp: inr)
  have c: "tc_employee_id c \<noteq> tc_employee_id c'" if "c' \<in> set cards" for c'
    using Cons.prems(2) that by (auto simp: image_iff)
  have dist: "distinct (map tc_employee_id cards)" using Cons.prems(2) by simp
  obtain new ents where IH: "ps' = ps1 @ new" "es' = es1 @ ents"
    "\<forall>c \<in> set cards. (\<exists>q \<in> set new. problem_employee q = Some (tc_employee_id c)) \<or> (\<exists>x \<in> set ents. card_entry s p anchor rules sick1 c x)"
    "\<forall>x \<in> set ents. \<exists>c \<in> set cards. card_entry s p anchor rules sick1 c x" "distinct (map en_employee_id ents)"
    "filter (\<lambda>kv. fst kv \<notin> tc_employee_id ` set cards) sick' = filter (\<lambda>kv. fst kv \<notin> tc_employee_id ` set cards) sick1"
    using Cons.IH [OF 2 dist] by blast
  have sick1: "sick1 = sick \<or> sick1 = AList.delete (tc_employee_id c) sick" using 1 by (cases rule: card_step_inr) auto
  have ce: "card_entry s p anchor rules sick1 c' x = card_entry s p anchor rules sick c' x" if "c' \<in> set cards" for c' x
    using card_entry_sick_cong [OF sick1] c [OF that] by blast
  have split: "filter (\<lambda>kv. fst kv \<notin> tc_employee_id ` set (c # cards)) m =
      filter (\<lambda>kv. fst kv \<noteq> tc_employee_id c) (filter (\<lambda>kv. fst kv \<notin> tc_employee_id ` set cards) m)" for m :: sick_dict
    by (auto intro!: filter_cong)
  have sick: "filter (\<lambda>kv. fst kv \<notin> tc_employee_id ` set (c # cards)) sick' = filter (\<lambda>kv. fst kv \<notin> tc_employee_id ` set (c # cards)) sick"
    unfolding split IH(6) using filter_delete [OF sick1, of "tc_employee_id ` set cards"] by (simp add: conj_commute)
  have ids: "\<forall>x \<in> set ents. en_employee_id x \<in> tc_employee_id ` set cards" using IH(4) by (auto simp: card_entry_def)
  from 1 show ?case
  proof (cases rule: card_step_inr)
    case (blocked b)
    have "\<exists>q \<in> set b. problem_employee q = Some (tc_employee_id c)" using blocked(2,3) by (cases b) auto
    then show ?thesis using blocked(1,4) IH ce sick by (intro exI [of _ "b @ new"] exI [of _ ents]) auto
  next
    case (paid x)
    have "en_employee_id x = tc_employee_id c" using paid(3) by (simp add: card_entry_def)
    moreover have "tc_employee_id c \<notin> tc_employee_id ` set cards" using Cons.prems(2) by simp
    ultimately have "en_employee_id x \<notin> en_employee_id ` set ents" using ids by (metis imageE)
    then show ?thesis using paid IH ce sick by (intro exI [of _ new] exI [of _ "x # ents"]) auto
  qed
qed simp

section \<open>The sick-only loop\<close>

lemma sick_day_pos: "sick_day s kv = Inr ts \<Longrightarrow> t \<in> set ts \<Longrightarrow> 0 < sd_hours t"
  by (cases kv) (auto simp: sick_day_def inr Let_def split: if_splits option.splits)

lemma sick_days_taken_pos: "sick_days_taken s a b = Inr ts \<Longrightarrow> t \<in> set ts \<Longrightarrow> 0 < sd_hours t"
  using sick_day_pos by (fastforce simp: sick_days_taken_def inr mapE_set Let_def)

lemma resolve_employee_sick_total:
  assumes "resolve_employee_sick days p e = (tot, rate, ps)" "\<forall>t \<in> set days. 0 < sd_hours t" "t \<in> set days" "sd_property_id t = Some p"
  shows "0 < tot"
proof -
  let ?here = "filter (\<lambda>t. sd_property_id t = Some p) days"
  have "t \<in> set ?here" using assms(3,4) by simp
  then have "sd_hours t \<le> sum_list (map sd_hours ?here)"
    using assms(2) by (intro member_le_sum_list) (auto intro: less_imp_le)
  then show ?thesis using assms by (auto simp: resolve_employee_sick_def Let_def intro: less_le_trans)
qed

lemma sick_only_inr:
  assumes "sick_only sha256 s caps p paid_here (e, days) = Inr (ps, es)" "\<forall>t \<in> set days. 0 < sd_hours t"
  shows "names e ps" "es = [] \<or> (\<exists>x. es = [x] \<and> en_employee_id x = e \<and> e \<in> paid_here)"
    "\<exists>t \<in> set days. sd_property_id t = Some p \<Longrightarrow> ps \<noteq> [] \<or> es \<noteq> []"
proof -
  let ?here = "\<exists>t \<in> set days. sd_property_id t = Some p"
  obtain tot rate sps where r: "resolve_employee_sick days p e = (tot, rate, sps)" by (cases "resolve_employee_sick days p e")
  have pos: "tot \<noteq> 0" if "t \<in> set days" "sd_property_id t = Some p" for t
    using resolve_employee_sick_total [OF r assms(2) that] by simp
  let ?P = "\<lambda>(ps, es). names e ps \<and> (es = [] \<or> (\<exists>x. es = [x] \<and> en_employee_id x = e \<and> e \<in> paid_here)) \<and> (?here \<longrightarrow> ps \<noteq> [] \<or> es \<noteq> [])"
  have "yields ?P (sick_only sha256 s caps p paid_here (e, days))"
    unfolding sick_only_def prod.case r Let_def
    by (intro yields_rules)
       (auto simp: filter_empty_conv list_ex_iff resolve_employee_sick_names [OF r] dest: pos person_problems_names carve_names mk_entry_employee)
  from yieldsD [OF this assms(1)] show "names e ps" "es = [] \<or> (\<exists>x. es = [x] \<and> en_employee_id x = e \<and> e \<in> paid_here)"
    "?here \<Longrightarrow> ps \<noteq> [] \<or> es \<noteq> []" by auto
qed

lemma sick_only_ids:
  assumes "mapE (sick_only sha256 s caps p paid_here) kvs = Inr outs" "distinct (map fst kvs)" "\<forall>(e, days) \<in> set kvs. \<forall>t \<in> set days. 0 < sd_hours t"
  shows "distinct (map en_employee_id (concat (map snd outs))) \<and> en_employee_id ` set (concat (map snd outs)) \<subseteq> fst ` set kvs \<inter> paid_here
    \<and> (\<forall>(e, days) \<in> set kvs. (\<exists>t \<in> set days. sd_property_id t = Some p) \<longrightarrow>
         (\<exists>q \<in> set (concat (map fst outs)). problem_employee q = Some e) \<or> e \<in> en_employee_id ` set (concat (map snd outs)))"
  using assms
proof (induction kvs arbitrary: outs)
  case (Cons kv kvs)
  obtain e days where kv: "kv = (e, days)" by (cases kv)
  obtain ps es outs' where o: "sick_only sha256 s caps p paid_here (e, days) = Inr (ps, es)" "outs = (ps, es) # outs'"
    "mapE (sick_only sha256 s caps p paid_here) kvs = Inr outs'"
    using Cons.prems(1) by (auto simp: inr kv)
  have pos: "\<forall>t \<in> set days. 0 < sd_hours t" using Cons.prems(3) by (simp add: kv)
  note one = sick_only_inr [OF o(1) pos]
  have rest: "\<forall>(e, days) \<in> set kvs. \<forall>t \<in> set days. 0 < sd_hours t" "distinct (map fst kvs)" "e \<notin> fst ` set kvs"
    using Cons.prems(2,3) by (auto simp: kv)
  note IH = Cons.IH [OF o(3) rest(2,1)]
  have named: "\<exists>q \<in> set ps. problem_employee q = Some e" if "ps \<noteq> []" using one(1) that by (cases ps) auto
  define E Q where "E = concat (map snd outs')" and "Q = concat (map fst outs')"
  have eq: "concat (map snd outs) = es @ E" "concat (map fst outs) = ps @ Q" by (simp_all add: o(2) E_def Q_def)
  note IH = IH [folded E_def Q_def]
  have "e \<notin> en_employee_id ` set E" using IH rest(3) by blast
  then have "distinct (map en_employee_id (es @ E))" using one(2) IH by auto
  moreover have "en_employee_id ` set (es @ E) \<subseteq> fst ` set (kv # kvs) \<inter> paid_here" using one(2) IH by (auto simp: kv)
  moreover have "(\<exists>q \<in> set (ps @ Q). problem_employee q = Some e') \<or> e' \<in> en_employee_id ` set (es @ E)"
    if "(e', days') \<in> set (kv # kvs)" "t \<in> set days'" "sd_property_id t = Some p" for e' days' t
  proof (cases "(e', days') = kv")
    case True
    then show ?thesis using one(2,3) named that(2,3) by (auto simp: kv)
  next
    case False
    then have "(e', days') \<in> set kvs" using that(1) by simp
    then show ?thesis using IH that(2,3) by fastforce
  qed
  ultimately show ?case unfolding eq by blast
qed simp

section \<open>The report\<close>

lemma with_balances_ids:
  assumes "with_balances s caps d es = Inr es'"
  shows "map (en_sick_balance_hours_update (\<lambda>_. None)) es' = map (en_sick_balance_hours_update (\<lambda>_. None)) es"
    "map en_employee_id es' = map en_employee_id es"
proof -
  have "map (en_sick_balance_hours_update (\<lambda>_. None)) es' = map (en_sick_balance_hours_update (\<lambda>_. None)) es \<and> map en_employee_id es' = map en_employee_id es"
    if "mapE (\<lambda>e. bindE (b e) (\<lambda>v. Inr (e\<lparr>en_sick_balance_hours := Some v\<rparr>))) es = Inr es'" for b
    using that by (induction es arbitrary: es') (auto simp: inr)
  then show "map (en_sick_balance_hours_update (\<lambda>_. None)) es' = map (en_sick_balance_hours_update (\<lambda>_. None)) es"
    "map en_employee_id es' = map en_employee_id es"
    using assms by (auto simp: with_balances_def split: option.splits if_splits)
qed

lemma assemble_inr:
  assumes "assemble_pay_run_entries sha256 s p in_period anchor caps = Inr report" "get_property (core s) p = Some prop"
  obtains rules population paid_here p1 taken early cards where
    "rp_period_start report = fst (period_for in_period anchor)" "rp_period_end report = snd (period_for in_period anchor)"
    "rules_for (pr_wage_jurisdiction prop) = Inr rules"
    "employee_ids_paid_by_during (core s) p (rp_period_start report) (rp_period_end report) = Inr population"
    "payable (core s) population (rp_period_start report) = Inr (paid_here, p1)" "set p1 \<subseteq> set early"
    "sick_days_taken (core s) (rp_period_start report) (rp_period_end report) = Inr taken"
    "cards = filter (\<lambda>c. tc_employee_id c \<in> paid_here \<and> tc_period_start c = rp_period_start report) (timecards (core s))"
    "cards = [] \<Longrightarrow> rp_problems report = early @ [NoTimecards p (rp_period_start report)] \<and> rp_entries report = []"
    "cards \<noteq> [] \<Longrightarrow> \<exists>ps es sick outs. foldE (card_step sha256 s caps p anchor rules) cards (early, [], group_by sd_employee_id taken) = Inr (ps, es, sick)
       \<and> mapE (sick_only sha256 s caps p paid_here) (filter (\<lambda>(e, days). e \<notin> set (map tc_employee_id cards)) (sort_key fst sick)) = Inr outs
       \<and> with_balances (core s) caps (rp_check_date report) (es @ concat (map snd outs)) = Inr (rp_entries report)
       \<and> rp_problems report = ps @ concat (map fst outs)"
proof -
  obtain a b where ab: "period_for in_period anchor = (a, b)" by (cases "period_for in_period anchor")
  obtain schedule where sch: "scalar_one_or_none (filter (\<lambda>q. ps_property_id q = p) (pay_schedules s)) = Inr schedule"
    using assms(1) unfolding assemble_pay_run_entries_def Let_def ab prod.case bindE_eq_Inr_iff by blast
  note d = assms(1) [unfolded assemble_pay_run_entries_def Let_def ab prod.case sch bindE_simps assms(2) option.case]
  obtain rules population pp taken p2 p3 p4 where o: "rules_for (pr_wage_jurisdiction prop) = Inr rules"
    "employee_ids_paid_by_during (core s) p a b = Inr population" "payable (core s) population a = Inr pp"
    "sick_days_taken (core s) a b = Inr taken" "late_sick_problems s p a = Inr p2" "late_worked_problems (core s) p b = Inr p3"
    "paid_worked_problems s p a = Inr p4"
    using d unfolding bindE_eq_Inr_iff by (fastforce simp: bindE_eq_Inr_iff split: prod.splits)
  obtain paid_here p1 where pp: "pp = (paid_here, p1)" by (cases pp)
  note d = d [unfolded o bindE_simps pp prod.case]
  let ?cards = "filter (\<lambda>c. tc_employee_id c \<in> paid_here \<and> tc_period_start c = a) (timecards (core s))"
  let ?early = "(if schedule = None then [NoPaySchedule p] else []) @ p1 @ p2 @ p3 @ p4"
  have per: "rp_period_start report = a" "rp_period_end report = b"
    using d by (auto simp: inr split: if_splits)
  show thesis
  proof (rule that [of rules population paid_here p1 ?early taken ?cards])
    show "?cards = [] \<Longrightarrow> rp_problems report = ?early @ [NoTimecards p (rp_period_start report)] \<and> rp_entries report = []"
      using d by (auto simp: per)
    assume "?cards \<noteq> []"
    then show "\<exists>ps es sick outs. foldE (card_step sha256 s caps p anchor rules) ?cards (?early, [], group_by sd_employee_id taken) = Inr (ps, es, sick)
       \<and> mapE (sick_only sha256 s caps p paid_here) (filter (\<lambda>(e, days). e \<notin> set (map tc_employee_id ?cards)) (sort_key fst sick)) = Inr outs
       \<and> with_balances (core s) caps (rp_check_date report) (es @ concat (map snd outs)) = Inr (rp_entries report)
       \<and> rp_problems report = ps @ concat (map fst outs)"
      using d by (auto simp: inr)
  qed (use o pp per ab in auto)
qed

lemma payable_inr:
  assumes "payable s population d = Inr (paid_here, ps)" "distinct (map em_employee_id (employees s))"
  shows "e \<in> paid_here \<longleftrightarrow> e \<in> population \<and> (\<forall>emp. get_employee s e = Some emp \<longrightarrow> em_pay_type emp \<noteq> EXCLUDE_FROM_PAYROLL)"
    "\<lbrakk>e \<in> population; get_employee s e = Some emp; em_pay_type emp = EXCLUDE_FROM_PAYROLL; c \<in> set (timecards s); tc_employee_id c = e;
      tc_period_start c = d; f \<in> set (labor_facts s); lf_timecard_id f = tc_timecard_id c\<rbrakk> \<Longrightarrow> ExcludedButPromoted e \<in> set ps"
proof -
  have get: "get_employee s e = Some emp \<longleftrightarrow> emp \<in> set (employees s) \<and> em_employee_id emp = e" for e emp
    unfolding get_employee_def using find_unique [OF assms(2), of emp] by (auto dest: find_SomeD)
  have p: "paid_here = population - set (excluded_staff s population)"
    "mapE (\<lambda>e. bindE (require_not_none (get_employee s e)) (\<lambda>_. Inr (ExcludedButPromoted e)))
       (sort (flipped_staff s (excluded_staff s population) d)) = Inr ps"
    using assms(1) by (auto simp: payable_def Let_def inr)
  show "e \<in> paid_here \<longleftrightarrow> e \<in> population \<and> (\<forall>emp. get_employee s e = Some emp \<longrightarrow> em_pay_type emp \<noteq> EXCLUDE_FROM_PAYROLL)"
    by (auto simp: p(1) excluded_staff_def get)
  assume a: "e \<in> population" "get_employee s e = Some emp" "em_pay_type emp = EXCLUDE_FROM_PAYROLL" "c \<in> set (timecards s)" "tc_employee_id c = e"
      "tc_period_start c = d" "f \<in> set (labor_facts s)" "lf_timecard_id f = tc_timecard_id c"
  then have "e \<in> set (flipped_staff s (excluded_staff s population) d)"
    by (force simp: flipped_staff_def excluded_staff_def get)
  then show "ExcludedButPromoted e \<in> set ps" using a(2) by (auto simp: mapE_set [OF p(2)] require_not_none_def intro!: bexI [of _ e])
qed

lemma distinct_cards:
  assumes "distinct (map (\<lambda>c. (tc_employee_id c, tc_period_start c)) cs)"
  shows "distinct (map tc_employee_id (filter (\<lambda>c. P c \<and> tc_period_start c = d) cs))"
  using assms by (induction cs) (auto simp: image_iff)

text \<open>Everything the report promises, at once: who is named, who is paid, and that nobody is paid twice.\<close>

definition accounted :: "PreflightReport \<Rightarrow> int \<Rightarrow> bool" where
  "accounted report e \<longleftrightarrow> (\<exists>q \<in> set (rp_problems report). problem_employee q = Some e) \<or> (\<exists>x \<in> set (rp_entries report). en_employee_id x = e)"

text \<open>The loops of a report with cards.\<close>

lemma loops_account:
  assumes "foldE (card_step sha256 s caps p anchor rules) cards (early, [], group_by sd_employee_id taken) = Inr (ps, es, sick)"
    and "mapE (sick_only sha256 s caps p paid_here) (filter (\<lambda>(e, days). e \<notin> set (map tc_employee_id cards)) (sort_key fst sick)) = Inr outs"
    and "distinct (map tc_employee_id cards)" "\<forall>t \<in> set taken. 0 < sd_hours t"
  shows "distinct (map en_employee_id (es @ concat (map snd outs)))"
    "set early \<subseteq> set (ps @ concat (map fst outs))"
    "c \<in> set cards \<Longrightarrow> (\<exists>q \<in> set (ps @ concat (map fst outs)). problem_employee q = Some (tc_employee_id c))
       \<or> (\<exists>x \<in> set (es @ concat (map snd outs)). card_entry s p anchor rules (group_by sd_employee_id taken) c x)"
    "t \<in> set taken \<Longrightarrow> sd_property_id t = Some p \<Longrightarrow> (\<exists>q \<in> set (ps @ concat (map fst outs)). problem_employee q = Some (sd_employee_id t))
       \<or> sd_employee_id t \<in> en_employee_id ` set (es @ concat (map snd outs))"
    "x \<in> set (es @ concat (map snd outs)) \<Longrightarrow> en_employee_id x \<in> tc_employee_id ` set cards \<union> paid_here"
proof -
  let ?G = "group_by sd_employee_id taken"
  let ?kvs = "filter (\<lambda>(e, days). e \<notin> set (map tc_employee_id cards)) (sort_key fst sick)"
  obtain new where n: "ps = early @ new"
    "\<forall>c \<in> set cards. (\<exists>q \<in> set new. problem_employee q = Some (tc_employee_id c)) \<or> (\<exists>x \<in> set es. card_entry s p anchor rules ?G c x)"
    "\<forall>x \<in> set es. \<exists>c \<in> set cards. card_entry s p anchor rules ?G c x" "distinct (map en_employee_id es)"
    "filter (\<lambda>kv. fst kv \<notin> tc_employee_id ` set cards) sick = filter (\<lambda>kv. fst kv \<notin> tc_employee_id ` set cards) ?G"
    using card_loop [OF assms(1,3)] by auto
  have kvs: "?kvs = sort_key fst (filter (\<lambda>kv. fst kv \<notin> tc_employee_id ` set cards) ?G)"
    unfolding n(5) [symmetric] by (simp add: case_prod_beta' filter_sort)
  have mem: "(e, days) \<in> set ?kvs \<longleftrightarrow> e \<notin> tc_employee_id ` set cards \<and> e \<in> sd_employee_id ` set taken \<and> days = filter (\<lambda>t. sd_employee_id t = e) taken"
    for e days unfolding kvs by (auto simp: group_by_entry)
  have dk: "distinct (map fst ?kvs)"
    unfolding kvs using group_by_simps(4) [of sd_employee_id taken] by (simp add: distinct_sort_key_keys distinct_map_filter)
  have pos: "\<forall>(e, days) \<in> set ?kvs. \<forall>t \<in> set days. 0 < sd_hours t" using assms(4) mem by auto
  note so = sick_only_ids [OF assms(2) dk pos]
  define E Q where "E = concat (map snd outs)" and "Q = concat (map fst outs)"
  note so = so [folded E_def Q_def]
  have disj: "en_employee_id ` set E \<inter> tc_employee_id ` set cards = {}" using so by (auto simp: image_iff mem)
  have es_ids: "en_employee_id ` set es \<subseteq> tc_employee_id ` set cards" using n(3) by (auto simp: card_entry_def)
  show "distinct (map en_employee_id (es @ concat (map snd outs)))"
  proof -
    have "en_employee_id ` set es \<inter> en_employee_id ` set E = {}" using disj es_ids by blast
    then show ?thesis using n(4) so unfolding E_def [symmetric] by (simp only: map_append distinct_append set_map)
  qed
  show "set early \<subseteq> set (ps @ concat (map fst outs))" by (simp add: n(1))
  show card: "(\<exists>q \<in> set (ps @ concat (map fst outs)). problem_employee q = Some (tc_employee_id c))
       \<or> (\<exists>x \<in> set (es @ concat (map snd outs)). card_entry s p anchor rules ?G c x)" if "c \<in> set cards" for c
    using n(1,2) that by auto
  show "x \<in> set (es @ concat (map snd outs)) \<Longrightarrow> en_employee_id x \<in> tc_employee_id ` set cards \<union> paid_here"
    using so es_ids unfolding E_def [symmetric] by auto
  assume t: "t \<in> set taken" "sd_property_id t = Some p"
  show "(\<exists>q \<in> set (ps @ concat (map fst outs)). problem_employee q = Some (sd_employee_id t))
       \<or> sd_employee_id t \<in> en_employee_id ` set (es @ concat (map snd outs))"
  proof (cases "sd_employee_id t \<in> tc_employee_id ` set cards")
    case True
    then obtain c where c: "c \<in> set cards" "tc_employee_id c = sd_employee_id t" by auto
    from card [OF c(1)] show ?thesis using card_entry_id c(2) by (metis image_eqI)
  next
    case False
    then have "(sd_employee_id t, filter (\<lambda>u. sd_employee_id u = sd_employee_id t) taken) \<in> set ?kvs" unfolding mem using t(1) by simp
    from bspec [OF so [THEN conjunct2, THEN conjunct2] this] show ?thesis using t unfolding E_def [symmetric] Q_def [symmetric] by auto
  qed
qed

lemma same_ids: "map f xs = map f ys \<Longrightarrow> f ` set xs = f ` set ys"
  by (metis set_map)

lemma assemble_accounts:
  assumes "assemble_pay_run_entries sha256 s p in_period anchor caps = Inr report" "get_property (core s) p = Some prop"
    and "distinct (map em_employee_id (employees (core s)))" "distinct (map (\<lambda>c. (tc_employee_id c, tc_period_start c)) (timecards (core s)))"
  obtains population paid_here taken where
    "employee_ids_paid_by_during (core s) p (rp_period_start report) (rp_period_end report) = Inr population"
    "sick_days_taken (core s) (rp_period_start report) (rp_period_end report) = Inr taken"
    "\<forall>e. e \<in> paid_here \<longleftrightarrow> e \<in> population \<and> (\<forall>emp. get_employee (core s) e = Some emp \<longrightarrow> em_pay_type emp \<noteq> EXCLUDE_FROM_PAYROLL)"
    "distinct (map en_employee_id (rp_entries report))" "en_employee_id ` set (rp_entries report) \<subseteq> paid_here"
    "\<forall>c \<in> set (timecards (core s)). tc_employee_id c \<in> paid_here \<and> tc_period_start c = rp_period_start report \<longrightarrow> accounted report (tc_employee_id c)"
    "\<forall>c \<in> set (timecards (core s)). \<forall>f \<in> set (labor_facts (core s)). tc_employee_id c \<in> population - paid_here
        \<and> tc_period_start c = rp_period_start report \<and> lf_timecard_id f = tc_timecard_id c \<longrightarrow> accounted report (tc_employee_id c)"
    "rp_entries report \<noteq> [] \<Longrightarrow> \<forall>t \<in> set taken. sd_property_id t = Some p \<longrightarrow> accounted report (sd_employee_id t)"
proof (rule assemble_inr [OF assms(1,2)])
  fix rules population paid_here p1 taken early cards
  assume pop: "employee_ids_paid_by_during (core s) p (rp_period_start report) (rp_period_end report) = Inr population"
    and tk: "sick_days_taken (core s) (rp_period_start report) (rp_period_end report) = Inr taken"
    and i: "payable (core s) population (rp_period_start report) = Inr (paid_here, p1)" "set p1 \<subseteq> set early"
    and cards: "cards = filter (\<lambda>c. tc_employee_id c \<in> paid_here \<and> tc_period_start c = rp_period_start report) (timecards (core s))"
    and nocards: "cards = [] \<Longrightarrow> rp_problems report = early @ [NoTimecards p (rp_period_start report)] \<and> rp_entries report = []"
    and loops: "cards \<noteq> [] \<Longrightarrow> \<exists>ps es sick outs. foldE (card_step sha256 s caps p anchor rules) cards (early, [], group_by sd_employee_id taken) = Inr (ps, es, sick)
       \<and> mapE (sick_only sha256 s caps p paid_here) (filter (\<lambda>(e, days). e \<notin> set (map tc_employee_id cards)) (sort_key fst sick)) = Inr outs
       \<and> with_balances (core s) caps (rp_check_date report) (es @ concat (map snd outs)) = Inr (rp_entries report)
       \<and> rp_problems report = ps @ concat (map fst outs)"
  note pay = payable_inr [OF i(1) assms(3)]
  have dc: "distinct (map tc_employee_id cards)" unfolding cards using assms(4) by (rule distinct_cards)
  have excluded: "\<forall>c \<in> set (timecards (core s)). \<forall>f \<in> set (labor_facts (core s)). tc_employee_id c \<in> population - paid_here
        \<and> tc_period_start c = rp_period_start report \<and> lf_timecard_id f = tc_timecard_id c \<longrightarrow> accounted report (tc_employee_id c)"
    if early: "set early \<subseteq> set (rp_problems report)"
  proof (intro ballI impI)
    fix c f assume a: "c \<in> set (timecards (core s))" "f \<in> set (labor_facts (core s))"
      "tc_employee_id c \<in> population - paid_here \<and> tc_period_start c = rp_period_start report \<and> lf_timecard_id f = tc_timecard_id c"
    then obtain emp where "get_employee (core s) (tc_employee_id c) = Some emp" "em_pay_type emp = EXCLUDE_FROM_PAYROLL" using pay(1) by auto
    then have "ExcludedButPromoted (tc_employee_id c) \<in> set (rp_problems report)" using pay(2) a i(2) early by blast
    then show "accounted report (tc_employee_id c)" by (auto simp: accounted_def intro!: bexI)
  qed
  show thesis
  proof (cases "cards = []")
    case True
    have r: "rp_problems report = early @ [NoTimecards p (rp_period_start report)]" "rp_entries report = []" using nocards True by auto
    have none: "\<not> (tc_employee_id c \<in> paid_here \<and> tc_period_start c = rp_period_start report)" if "c \<in> set (timecards (core s))" for c
      using True that unfolding cards filter_empty_conv by blast
    show thesis
    proof (rule that [OF pop tk, of paid_here])
      show "\<forall>c \<in> set (timecards (core s)). tc_employee_id c \<in> paid_here \<and> tc_period_start c = rp_period_start report
          \<longrightarrow> accounted report (tc_employee_id c)" using none by blast
      show "\<forall>c \<in> set (timecards (core s)). \<forall>f \<in> set (labor_facts (core s)). tc_employee_id c \<in> population - paid_here
        \<and> tc_period_start c = rp_period_start report \<and> lf_timecard_id f = tc_timecard_id c \<longrightarrow> accounted report (tc_employee_id c)"
        by (rule excluded) (auto simp: r)
    qed (use pay(1) in blast, simp_all add: r)
  next
    case False
    then obtain ps es sick outs where l: "foldE (card_step sha256 s caps p anchor rules) cards (early, [], group_by sd_employee_id taken) = Inr (ps, es, sick)"
       "mapE (sick_only sha256 s caps p paid_here) (filter (\<lambda>(e, days). e \<notin> set (map tc_employee_id cards)) (sort_key fst sick)) = Inr outs"
       "with_balances (core s) caps (rp_check_date report) (es @ concat (map snd outs)) = Inr (rp_entries report)"
       "rp_problems report = ps @ concat (map fst outs)" using loops by blast
    have pos: "\<forall>t \<in> set taken. 0 < sd_hours t" using sick_days_taken_pos [OF tk] by blast
    define E where "E = es @ concat (map snd outs)"
    note L = loops_account [OF l(1,2) dc pos, folded E_def l(4)]
    have ids: "map en_employee_id (rp_entries report) = map en_employee_id E" using with_balances_ids(2) [OF l(3)] by (simp add: E_def)
    then have img: "en_employee_id ` set (rp_entries report) = en_employee_id ` set E" by (rule same_ids)
    have acc: "accounted report e" if "(\<exists>q \<in> set (rp_problems report). problem_employee q = Some e) \<or> e \<in> en_employee_id ` set E" for e
      using that unfolding img [symmetric] by (auto simp: accounted_def)
    have "en_employee_id ` set (rp_entries report) \<subseteq> paid_here" unfolding img
    proof (rule image_subsetI)
      fix x assume "x \<in> set E"
      from L(5) [OF this] show "en_employee_id x \<in> paid_here" by (auto simp: cards)
    qed
    moreover have "accounted report (tc_employee_id c)" if "c \<in> set cards" for c
      using L(3) [OF that] card_entry_id by (intro acc) (metis image_eqI)
    moreover have "accounted report (sd_employee_id t)" if "t \<in> set taken" "sd_property_id t = Some p" for t
      using L(4) [OF that] by (rule acc)
    moreover have "distinct (map en_employee_id (rp_entries report))" unfolding ids by (rule L(1))
    moreover have "\<forall>c \<in> set (timecards (core s)). tc_employee_id c \<in> paid_here \<and> tc_period_start c = rp_period_start report
          \<longrightarrow> accounted report (tc_employee_id c)" using calculation(2) by (simp add: cards)
    ultimately show thesis
      by (intro that [OF pop tk, of paid_here]) (use pay(1) excluded [OF L(2)] in blast)+
  qed
qed

section \<open>What an entry says\<close>

lemma worked_split_sums:
  "worked_split dh anchor exempt rules =
     (sum_list (map regular_hours (compute_overtime dh anchor exempt rules)), sum_list (map ot_hours (compute_overtime dh anchor exempt rules)),
      sum_list (map dt_hours (compute_overtime dh anchor exempt rules)))"
proof -
  have "fold (\<lambda>row (reg, ot, dt). (reg + regular_hours row, ot + ot_hours row, dt + dt_hours row)) rows (a, b, c) =
    (a + sum_list (map regular_hours rows), b + sum_list (map ot_hours rows), c + sum_list (map dt_hours rows))"
    for rows :: "DayOvertime list" and a b c
    by (induction rows arbitrary: a b c) (simp_all add: algebra_simps)
  then show ?thesis by (simp add: worked_split_def)
qed

lemma rows_total:
  fixes anchor :: date and exempt :: bool
  assumes "rules_for j = Inr rules" "\<forall>h \<in> set (map snd dh). 0 \<le> h \<and> centi h" "distinct (keys dh)"
  defines "rows \<equiv> compute_overtime dh anchor exempt rules"
  shows "sum_list (map regular_hours rows) + sum_list (map ot_hours rows) + sum_list (map dt_hours rows) = sum_list (map snd dh)"
    "centi (sum_list (map regular_hours rows))" "centi (sum_list (map ot_hours rows))" "centi (sum_list (map dt_hours rows))"
proof -
  have nn: "\<forall>h \<in> set (map snd dh). 0 \<le> h" using assms(2) by blast
  note ok = overtime_rows_ok [OF assms(1) nn assms(3), where anchor = anchor and exempt = exempt, folded rows_def]
  have "sum_list (map regular_hours rows) + sum_list (map ot_hours rows) + sum_list (map dt_hours rows)
      = sum_list (map (\<lambda>r. regular_hours r + ot_hours r + dt_hours r) rows)"
    by (simp add: sum_list_addf)
  also have "\<dots> = sum_list (map (\<lambda>d. dict_get dh d 0) (map business_date rows))"
    using ok(2) by (simp add: comp_def cong: map_cong)
  also have "\<dots> = sum_list (map (\<lambda>d. dict_get dh d 0) (keys dh))" unfolding ok(1) by (rule sum_list_map_perm) simp
  also have "\<dots> = sum_list (map snd dh)"
    using assms(3) by (intro arg_cong [where f = sum_list]) (auto intro!: map_cong simp: dict_get_map_of)
  finally show "sum_list (map regular_hours rows) + sum_list (map ot_hours rows) + sum_list (map dt_hours rows) = sum_list (map snd dh)" .
  have "\<forall>r \<in> set rows. centi (regular_hours r) \<and> centi (ot_hours r) \<and> centi (dt_hours r)"
    using overtime_rows_centi [OF assms(1-3)] unfolding rows_def by blast
  then show "centi (sum_list (map regular_hours rows))" "centi (sum_list (map ot_hours rows))" "centi (sum_list (map dt_hours rows))"
    by (auto intro: centi_sum)
qed

lemma mk_entry_hours:
  assumes "mk_entry e (r, ot, dt) rate tot = Inr x"
  shows "cents r = Inr (en_regular_hours x)" "cents ot = Inr (en_ot_hours x)" "cents dt = Inr (en_dt_hours x)" "cents tot = Inr (en_sick_hours x)"
  using assms by (auto simp: mk_entry_def inr)

lemma card_rates_single:
  assumes "card_rates s c e = Inr (rates, [], [])" "set rates \<subseteq> {r}"
  shows "\<exists>ps. worked_placements s c e = Inr ps \<and> (\<forall>(a, d) \<in> set ps. rate_on s a ''regular'' d = Inr (Some r))"
proof -
  obtain ps rs where p: "worked_placements s c e = Inr ps" "mapE (\<lambda>(a, d). rate_on s a ''regular'' d) ps = Inr rs"
    "rates = remdups (List.map_filter id rs)"
    and un: "filterE (\<lambda>(a, d). bindE (rate_on s a ''regular'' d) (\<lambda>r. Inr (r = None))) ps = Inr []"
    using assms(1) by (auto simp: card_rates_def distinct_rates_def uncosted_worked_days_def inr)
  have "rate_on s a ''regular'' d = Inr (Some r)" if "(a, d) \<in> set ps" for a d
  proof -
    have "\<exists>v \<in> set rs. rate_on s a ''regular'' d = Inr v"
      using p(2) that by (induction ps arbitrary: rs) (auto simp: inr)
    then obtain v where v: "rate_on s a ''regular'' d = Inr v" "v \<in> set rs" by blast
    have "v \<noteq> None" using un that v(1) by (induction ps) (auto simp: inr split: if_splits)
    then obtain w where w: "v = Some w" by blast
    have "w \<in> set rates" using v(2) unfolding p(3) w by (force simp: List.map_filter_def)
    then show ?thesis using assms(2) v(1) w by auto
  qed
  then show ?thesis using p(1) by auto
qed

text \<open>The rate and the hours of a card's entry.\<close>

lemma card_entry_exact:
  assumes "card_entry s p anchor rules (group_by sd_employee_id taken) c x" "rules_for j = Inr rules"
    and "card_datetimes (core s)" "compute_timecard (core s) c = Inr all" "\<forall>r \<in> set all. dr_worked_minutes r < 10 ^ 12"
  obtains ps days dh where "worked_placements (core s) c (tc_employee_id c) = Inr ps"
    "\<forall>(a, d) \<in> set ps. rate_on (core s) a ''regular'' d = Inr (Some (en_hourly_rate x))"
    "card_days (core s) c = Inr days" "card_day_hours days = Inr dh"
    "en_regular_hours x + en_ot_hours x + en_dt_hours x = sum_list (map snd dh)"
    "\<forall>t \<in> set taken. sd_employee_id t = tc_employee_id c \<and> sd_property_id t = Some p \<longrightarrow> sd_rate t = Some (en_hourly_rate x)"
    "cents (sum_list (map sd_hours (filter (\<lambda>t. sd_employee_id t = tc_employee_id c \<and> sd_property_id t = Some p) taken))) = Inr (en_sick_hours x)"
proof -
  let ?e = "tc_employee_id c" and ?days = "filter (\<lambda>t. sd_employee_id t = tc_employee_id c) taken"
  obtain rates where r: "card_rates (core s) c ?e = Inr (rates, [], [])" "entry_of_card s p anchor rules c ?e ?days rates x"
    using assms(1) by (auto simp: card_entry_def group_by_simps)
  obtain tot sick_rate days dh exempt where o: "resolve_employee_sick ?days p ?e = (tot, sick_rate, [])"
    "rates = [en_hourly_rate x] \<and> sick_rate \<in> {None, Some (en_hourly_rate x)} \<or> rates = [] \<and> sick_rate = Some (en_hourly_rate x)"
    "card_days (core s) c = Inr days" "card_day_hours days = Inr dh"
    "mk_entry ?e (worked_split dh anchor exempt rules) (en_hourly_rate x) tot = Inr x"
    using r(2) by (auto simp: entry_of_card_def)
  have "set rates \<subseteq> {en_hourly_rate x}" using o(2) by auto
  from card_rates_single [OF r(1) this] obtain ps where ps: "worked_placements (core s) c ?e = Inr ps"
    "\<forall>(a, d) \<in> set ps. rate_on (core s) a ''regular'' d = Inr (Some (en_hourly_rate x))" by blast
  note t = card_day_table [OF assms(3-5) o(3,4)]
  have cent: "\<forall>h \<in> set (map snd dh). 0 \<le> h \<and> centi h" using t(2) by blast
  note rows = rows_total [OF assms(2) cent t(1), where anchor = anchor and exempt = exempt]
  have x: "cents (sum_list (map regular_hours (compute_overtime dh anchor exempt rules))) = Inr (en_regular_hours x)"
    "cents (sum_list (map ot_hours (compute_overtime dh anchor exempt rules))) = Inr (en_ot_hours x)"
    "cents (sum_list (map dt_hours (compute_overtime dh anchor exempt rules))) = Inr (en_dt_hours x)" "cents tot = Inr (en_sick_hours x)"
    using mk_entry_hours [OF o(5) [unfolded worked_split_sums]] by auto
  have hours: "en_regular_hours x + en_ot_hours x + en_dt_hours x = sum_list (map snd dh)"
    using rows quantize_centi [OF x(1)] quantize_centi [OF x(2)] quantize_centi [OF x(3)] by simp
  let ?here = "filter (\<lambda>t. sd_property_id t = Some p) ?days"
  have h: "?here = filter (\<lambda>t. sd_employee_id t = ?e \<and> sd_property_id t = Some p) taken"
    by (simp add: conj_commute)
  have "sd_rate t = Some (en_hourly_rate x)" if "t \<in> set ?here" for t
  proof -
    have priced: "sd_rate t \<noteq> None" and one: "\<not> 1 < length (remdups (List.map_filter sd_rate ?here))"
      and sr: "sick_rate = (case remdups (List.map_filter sd_rate ?here) of [r] \<Rightarrow> Some r | _ \<Rightarrow> None)"
      using o(1) that by (auto simp: resolve_employee_sick_def Let_def filter_empty_conv split: if_splits)
    then obtain v where v: "sd_rate t = Some v" by blast
    then have "v \<in> set (remdups (List.map_filter sd_rate ?here))" using that by (force simp: List.map_filter_def)
    moreover have "rs = [v]" if "v \<in> set rs" "\<not> 1 < length rs" for rs using that by (cases rs) auto
    ultimately have "remdups (List.map_filter sd_rate ?here) = [v]" using one by blast
    then show ?thesis using sr o(2) v by auto
  qed
  then have "\<forall>t \<in> set taken. sd_employee_id t = ?e \<and> sd_property_id t = Some p \<longrightarrow> sd_rate t = Some (en_hourly_rate x)" unfolding h by simp
  moreover have "tot = sum_list (map sd_hours ?here)" using o(1) by (auto simp: resolve_employee_sick_def Let_def)
  ultimately show thesis using that [OF ps o(3,4) hours] x(4) unfolding h by blast
qed

lemma with_balances_mem:
  assumes "with_balances s caps d es = Inr es'" "x \<in> set es"
  shows "\<exists>b. x\<lparr>en_sick_balance_hours := b\<rparr> \<in> set es'"
proof -
  have "x\<lparr>en_sick_balance_hours := None\<rparr> \<in> set (map (en_sick_balance_hours_update (\<lambda>_. None)) es')"
    unfolding with_balances_ids(1) [OF assms(1)] using assms(2) by simp
  then obtain y where y: "y \<in> set es'" "x\<lparr>en_sick_balance_hours := None\<rparr> = y\<lparr>en_sick_balance_hours := None\<rparr>" by auto
  have "x\<lparr>en_sick_balance_hours := en_sick_balance_hours y\<rparr> = x\<lparr>en_sick_balance_hours := None, en_sick_balance_hours := en_sick_balance_hours y\<rparr>" by simp
  also have "\<dots> = y" unfolding y(2) by simp
  finally show ?thesis using y(1) by metis
qed

section \<open>Properties\<close>

text \<open>
  C1.  Nobody vanishes from a pay run and nobody is in it twice: the entries are distinct employees of
  the paying population; everyone of the population with a card for the period has an entry or a blocker
  that names them (an excluded person without promoted cost apart); and, in a report with entries,
  so has everyone with a sick day attributed to this property.
\<close>

theorem preflight_names_or_pays:
  assumes "assemble_pay_run_entries sha256 s p in_period anchor caps = Inr report" "get_property (core s) p = Some prop"
    and "distinct (map em_employee_id (employees (core s)))" "distinct (map (\<lambda>c. (tc_employee_id c, tc_period_start c)) (timecards (core s)))"
  shows "\<exists>population taken. employee_ids_paid_by_during (core s) p (rp_period_start report) (rp_period_end report) = Inr population
    \<and> sick_days_taken (core s) (rp_period_start report) (rp_period_end report) = Inr taken
    \<and> distinct (map en_employee_id (rp_entries report)) \<and> en_employee_id ` set (rp_entries report) \<subseteq> population
    \<and> (\<forall>c \<in> set (timecards (core s)). tc_employee_id c \<in> population \<and> tc_period_start c = rp_period_start report \<longrightarrow>
         accounted report (tc_employee_id c)
       \<or> (\<exists>emp. get_employee (core s) (tc_employee_id c) = Some emp \<and> em_pay_type emp = EXCLUDE_FROM_PAYROLL)
          \<and> (\<forall>f \<in> set (labor_facts (core s)). lf_timecard_id f \<noteq> tc_timecard_id c))
    \<and> (rp_entries report \<noteq> [] \<longrightarrow> (\<forall>t \<in> set taken. sd_property_id t = Some p \<longrightarrow> accounted report (sd_employee_id t)))"
proof (rule assemble_accounts [OF assms])
  fix population paid_here taken
  assume a: "employee_ids_paid_by_during (core s) p (rp_period_start report) (rp_period_end report) = Inr population"
    "sick_days_taken (core s) (rp_period_start report) (rp_period_end report) = Inr taken"
    "\<forall>e. e \<in> paid_here \<longleftrightarrow> e \<in> population \<and> (\<forall>emp. get_employee (core s) e = Some emp \<longrightarrow> em_pay_type emp \<noteq> EXCLUDE_FROM_PAYROLL)"
    "distinct (map en_employee_id (rp_entries report))" "en_employee_id ` set (rp_entries report) \<subseteq> paid_here"
    "\<forall>c \<in> set (timecards (core s)). tc_employee_id c \<in> paid_here \<and> tc_period_start c = rp_period_start report \<longrightarrow> accounted report (tc_employee_id c)"
    "\<forall>c \<in> set (timecards (core s)). \<forall>f \<in> set (labor_facts (core s)). tc_employee_id c \<in> population - paid_here
        \<and> tc_period_start c = rp_period_start report \<and> lf_timecard_id f = tc_timecard_id c \<longrightarrow> accounted report (tc_employee_id c)"
    "rp_entries report \<noteq> [] \<Longrightarrow> \<forall>t \<in> set taken. sd_property_id t = Some p \<longrightarrow> accounted report (sd_employee_id t)"
  have "accounted report (tc_employee_id c)
       \<or> (\<exists>emp. get_employee (core s) (tc_employee_id c) = Some emp \<and> em_pay_type emp = EXCLUDE_FROM_PAYROLL)
          \<and> (\<forall>f \<in> set (labor_facts (core s)). lf_timecard_id f \<noteq> tc_timecard_id c)"
    if "c \<in> set (timecards (core s))" "tc_employee_id c \<in> population" "tc_period_start c = rp_period_start report" for c
    using that a(3,6,7) by blast
  then show ?thesis using a(1,2,4,5,3,8) by (intro exI [of _ population] exI [of _ taken] conjI ballI impI) blast+
qed

text \<open>
  C2.  A clean preflight pays exactly what was worked, at the one rate in force: when nothing blocks,
  every payable card has an entry whose regular, overtime and double-time hours add up to the
  card's hours day by day, whose sick hours are the sick hours taken at this property, and whose single
  rate is the regular rate of every placement on every day worked and of every sick day paid.
\<close>

theorem clean_preflight_exact:
  assumes "assemble_pay_run_entries sha256 s p in_period anchor caps = Inr report" "get_property (core s) p = Some prop"
    and "distinct (map em_employee_id (employees (core s)))" "distinct (map (\<lambda>c. (tc_employee_id c, tc_period_start c)) (timecards (core s)))"
    and "rp_problems report = []" "employee_ids_paid_by_during (core s) p (rp_period_start report) (rp_period_end report) = Inr population"
    and "sick_days_taken (core s) (rp_period_start report) (rp_period_end report) = Inr taken"
    and "c \<in> set (timecards (core s))" "tc_period_start c = rp_period_start report" "tc_employee_id c \<in> population"
    and "get_employee (core s) (tc_employee_id c) = Some emp" "em_pay_type emp \<noteq> EXCLUDE_FROM_PAYROLL"
    and "card_datetimes (core s)" "compute_timecard (core s) c = Inr all" "\<forall>r \<in> set all. dr_worked_minutes r < 10 ^ 12"
  shows "\<exists>x \<in> set (rp_entries report). \<exists>ps days dh. en_employee_id x = tc_employee_id c
    \<and> worked_placements (core s) c (tc_employee_id c) = Inr ps
    \<and> (\<forall>(a, d) \<in> set ps. rate_on (core s) a ''regular'' d = Inr (Some (en_hourly_rate x)))
    \<and> card_days (core s) c = Inr days \<and> card_day_hours days = Inr dh
    \<and> en_regular_hours x + en_ot_hours x + en_dt_hours x = sum_list (map snd dh)
    \<and> (\<forall>t \<in> set taken. sd_employee_id t = tc_employee_id c \<and> sd_property_id t = Some p \<longrightarrow> sd_rate t = Some (en_hourly_rate x))
    \<and> cents (sum_list (map sd_hours (filter (\<lambda>t. sd_employee_id t = tc_employee_id c \<and> sd_property_id t = Some p) taken))) = Inr (en_sick_hours x)"
proof (rule assemble_inr [OF assms(1,2)])
  fix rules population' paid_here p1 taken' early cards
  assume rules: "rules_for (pr_wage_jurisdiction prop) = Inr rules"
    and pop: "employee_ids_paid_by_during (core s) p (rp_period_start report) (rp_period_end report) = Inr population'"
    and tk: "sick_days_taken (core s) (rp_period_start report) (rp_period_end report) = Inr taken'"
    and i: "payable (core s) population' (rp_period_start report) = Inr (paid_here, p1)"
    and cards: "cards = filter (\<lambda>c. tc_employee_id c \<in> paid_here \<and> tc_period_start c = rp_period_start report) (timecards (core s))"
    and loops: "cards \<noteq> [] \<Longrightarrow> \<exists>ps es sick outs. foldE (card_step sha256 s caps p anchor rules) cards (early, [], group_by sd_employee_id taken') = Inr (ps, es, sick)
       \<and> mapE (sick_only sha256 s caps p paid_here) (filter (\<lambda>(e, days). e \<notin> set (map tc_employee_id cards)) (sort_key fst sick)) = Inr outs
       \<and> with_balances (core s) caps (rp_check_date report) (es @ concat (map snd outs)) = Inr (rp_entries report)
       \<and> rp_problems report = ps @ concat (map fst outs)"
  have eq: "taken' = taken" "population' = population" using tk assms(7) pop assms(6) by simp_all
  have c: "c \<in> set cards" using assms(8-12) payable_inr(1) [OF i assms(3)] by (simp add: cards eq)
  then obtain ps es sick outs where l: "foldE (card_step sha256 s caps p anchor rules) cards (early, [], group_by sd_employee_id taken) = Inr (ps, es, sick)"
       "mapE (sick_only sha256 s caps p paid_here) (filter (\<lambda>(e, days). e \<notin> set (map tc_employee_id cards)) (sort_key fst sick)) = Inr outs"
       "with_balances (core s) caps (rp_check_date report) (es @ concat (map snd outs)) = Inr (rp_entries report)"
       "rp_problems report = ps @ concat (map fst outs)" using loops unfolding eq by force
  have dc: "distinct (map tc_employee_id cards)" unfolding cards using assms(4) by (rule distinct_cards)
  have pos: "\<forall>t \<in> set taken. 0 < sd_hours t" using sick_days_taken_pos [OF assms(7)] by blast
  obtain x where x: "x \<in> set (es @ concat (map snd outs))" "card_entry s p anchor rules (group_by sd_employee_id taken) c x"
    using loops_account(3) [OF l(1,2) dc pos c] assms(5) unfolding l(4) by auto
  obtain b where b: "x\<lparr>en_sick_balance_hours := b\<rparr> \<in> set (rp_entries report)" using with_balances_mem [OF l(3) x(1)] by blast
  show ?thesis
    by (rule card_entry_exact [OF x(2) rules assms(13-15)])
       (use b card_entry_id [OF x(2)] in \<open>intro bexI [of _ "x\<lparr>en_sick_balance_hours := b\<rparr>"] exI conjI; (simp; fail)?\<close>)
qed

section \<open>A run that is ready\<close>

definition ready_core :: db where
  "ready_core = approved_db\<lparr>
     assignments := [\<lparr>ea_assignment_id = 1, ea_employee_id = 7, ea_property_id = ''SJCES'', ea_department_id = Some 3, ea_position_id = None,
       ea_is_primary = True, ea_status = ''active'', ea_effective_from = 1, ea_effective_to = None\<rparr>],
     assignment_rates := [\<lparr>ar_assignment_id = 1, ar_rate_type = ''regular'', ar_amount = Some 20, ar_effective_from = 1, ar_effective_to = None\<rparr>],
     timecards := [approved_card]\<rparr>"

definition ready_pay :: pay_db where
  "ready_pay = \<lparr>core = ready_core, pay_schedules = [\<lparr>ps_property_id = ''SJCES'', ps_check_date_offset_days = 5\<rparr>],
     payroll_profiles = [\<lparr>pp_employee_id = 7, pp_ssn_sealed = Some ''s'', pp_tax_elections_sealed = None\<rparr>],
     deposit_accounts = [\<lparr>da_employee_id = 7, da_ordinal = 1, da_allocation_type = ''remainder'', da_allocation_value = None,
       da_account_type = Some ''checking'', da_sealed_account = ''a'', da_sealed_routing = ''r'', da_legacy_sealed = False\<rparr>],
     provider_refs = [], pay_runs = [], pay_run_lines = [], pay_run_line_properties = [], wage_settlements = [], actual_labor_facts = []\<rparr>"

definition ready_at :: "PayRun list \<Rightarrow> ProviderEmployeeRef list \<Rightarrow> pay_db" where
  "ready_at runs refs = ready_pay\<lparr>pay_runs := runs, provider_refs := refs\<rparr>"

lemma ready_at_Nil: "ready_pay = ready_at [] []"
  by (simp add: ready_at_def ready_pay_def)

definition ready_entry :: PreflightEntry where
  "ready_entry = \<lparr>en_employee_id = 7, en_regular_hours = 1, en_ot_hours = 0, en_dt_hours = 0, en_hourly_rate = 20, en_sick_hours = 0,
     en_sick_balance_hours = None\<rparr>"

lemma ready_days: "compute_timecard ready_core approved_card = Inr [approved_day]"
proof -
  have "punch_event ready_core = punch_event approved_db" by (simp add: fun_eq_iff punch_event_def get_device_def ready_core_def)
  then have "compute_timecard ready_core approved_card = compute_timecard approved_db approved_card"
    by (simp add: compute_timecard_def timecard_events_def) (simp add: ready_core_def)
  then show ?thesis by (simp only: approved_days)
qed

lemma ready_on: "assignments_on ready_core 7 d True = (if 1 \<le> d then assignments ready_core else [])"
  by (simp add: assignments_on_def ready_core_def in_effect_on_def covers_def)

lemma ready_population: "employee_ids_paid_by_during ready_core ''SJCES'' 1 14 = Inr {7}"
  by (simp add: employee_ids_paid_by_during_def ready_core_def overlaps_period_def group_by_def dict_append_def in_effect_on_def covers_def
      owner_on_last_covered_day.simps [of _ 1 14] Let_def) auto

lemma ready_rates: "card_rates ready_core approved_card 7 = Inr ([20], [], [])"
proof -
  have pl: "worked_placements ready_core approved_card 7 = Inr [(1, 3)]"
    by (simp add: worked_placements_def ready_days assignment_at_def ready_on) (simp add: ready_core_def)
  have r: "rate_on ready_core 1 t 3 = (if t \<in> set RATE_TYPES then Inr (if t = ''regular'' then Some 20 else None) else Inl ValueError)" for t
    by (auto simp: rate_on_def stored_rate_def rate_rows_def ready_core_def covers_def decode_def floor_multiplier_attr_def RATE_TYPES_def)
  show ?thesis
    by (simp add: card_rates_def distinct_rates_def stored_premium_types_def uncosted_worked_days_def pl r RATE_TYPES_def List.map_filter_simps)
qed

lemma ready_person:
  assumes "refs = [] \<or> (\<exists>c. caps = Some c \<and> pc_supports_employee_update c)"
  shows "person_problems sha256 (ready_at runs refs) 7 caps = Inr []"
proof -
  have d: "deposit_problems (ready_at runs refs) 7 = Inr []"
    by (simp add: deposit_problems_def deposit_chain_def ready_at_def ready_pay_def allocation_violation_def ALLOCATION_TYPES_def row_problems_def
        percent_sum_def List.map_filter_simps)
  have "(if (case caps of None \<Rightarrow> True | Some c \<Rightarrow> \<not> pc_supports_employee_update c)
    then stale_provider_payload_problems sha256 (ready_at runs refs) 7 else Inr []) = Inr []"
    using assms by (auto simp: stale_provider_payload_problems_def ready_at_def ready_pay_def)
  then show ?thesis using d unfolding person_problems_def by (simp add: ready_at_def ready_pay_def scalar_one_or_none_def)
qed

lemma ready_card:
  assumes person: "person_problems sha256 (ready_at runs refs) 7 caps = Inr []"
  shows "priced_card sha256 (ready_at runs refs) caps ''SJCES'' 1 FLSA_BASELINE approved_card 7 [] ([20], [], []) = Inr (Inr ready_entry)"
proof -
  have "ddiv 60 60 = 1" using ctx_of_int [of 1] by (simp add: ddiv_def prec_def)
  then have h: "card_day_hours [approved_day] = Inr [(3, 1)]"
    by (simp add: card_day_hours_def quantize_def round_int_def half_even_def prec_def)
  have ot: "compute_overtime [(3, 1)] 1 False FLSA_BASELINE = [\<lparr>business_date = 3, regular_hours = 1, ot_hours = 0, dt_hours = 0\<rparr>]"
    using compute_overtime_eq [of FLSA_BASELINE 40 "[(3, 1)]" 1]
    by (simp add: rules_wf_def FLSA_BASELINE_def overtime_row_def daily_split_def regular_through_def week_days_def classify_day_def seventh_day_def)
  have ex: "resolve_exemption ready_core 7 [3] = Inr False"
    by (simp add: resolve_exemption_def is_exempt_on_def ready_on) (simp add: ready_core_def List.map_filter_simps)
  have core: "core (ready_at runs refs) = ready_core" by (simp add: ready_at_def ready_pay_def)
  have cd: "card_days ready_core approved_card = Inr [approved_day]" by (simp add: card_days_def ready_days)
  have q: "cents 1 = Inr 1" "cents 0 = Inr 0" by (simp_all add: quantize_def round_int_def half_even_def prec_def)
  have carve: "carve_problem (ready_at runs refs) 7 g = (if 0 > g then Some (FixedExceedGross 7) else None)" for g
    by (simp add: carve_problem_def ready_at_def ready_pay_def List.map_filter_simps)
  show ?thesis
    by (simp add: priced_card_def resolve_employee_sick_def person core cd h stacked_sick_problems_def ex catchE_def
        worked_split_def ot require_not_none_def carve est_gross_of_def mk_entry_def q ready_entry_def List.map_filter_simps Let_def)
qed

lemma ready_report_at:
  assumes person: "person_problems sha256 (ready_at runs refs) 7 caps = Inr []"
    and runs: "\<And>p d. earlier_runs (ready_at runs refs) p d = []"
    and shown: "with_balances ready_core caps (Some 19) [ready_entry] = Inr es"
  shows "\<exists>report. assemble_pay_run_entries sha256 (ready_at runs refs) ''SJCES'' 3 1 caps = Inr report \<and> rp_problems report = [] \<and> rp_entries report = es
    \<and> rp_property_id report = ''SJCES'' \<and> rp_period_start report = 1 \<and> rp_period_end report = 14 \<and> rp_check_date report = Some 19"
proof -
  have core: "core (ready_at runs refs) = ready_core" by (simp add: ready_at_def ready_pay_def)
  have emp: "get_employee ready_core 7 = Some (hd (employees ready_core))" "em_payroll_data_complete (hd (employees ready_core))"
      "em_employee_id (hd (employees ready_core)) = 7"
    by (simp_all add: get_employee_def ready_core_def approved_db_def)
  have hotel: "get_property ready_core ''SJCES'' = Some (hd (properties ready_core))" "pr_wage_jurisdiction (hd (properties ready_core)) = Some ''US''"
    by (simp_all add: get_property_def ready_core_def approved_db_def)
  have rules: "rules_for (Some ''US'') = Inr FLSA_BASELINE" by (simp add: rules_for_eq_Inr_iff)
  have pay: "payable ready_core {7} 1 = Inr ({7}, [])"
    by (simp add: payable_def excluded_staff_def flipped_staff_def ready_core_def approved_db_def EXCLUDE_FROM_PAYROLL_def)
  have sick: "sick_days_taken ready_core 1 14 = Inr []"
    by (simp add: sick_days_taken_def ready_core_def approved_db_def example_shift_def empty_db_def net_usage_by_day_def)
  have orphans: "orphan_punches ready_core 14 = []"
    by (simp add: orphan_punches_def ready_core_def approved_db_def example_shift_def)
  have cards: "filter (\<lambda>c. tc_employee_id c \<in> {7} \<and> tc_period_start c = 1) (timecards ready_core) = [approved_card]"
    by (simp add: ready_core_def example_card_def)
  have c: "tc_employee_id approved_card = 7" "tc_status approved_card = ''approved''" by (simp_all add: example_card_def)
  have step: "card_step sha256 (ready_at runs refs) caps ''SJCES'' 1 FLSA_BASELINE approved_card ([], [], []) = Inr ([], [ready_entry], [])"
    unfolding card_step_def prod.case c core emp require_not_none_def option.case bindE_simps Let_def
    using emp(2) by (simp add: ready_rates catchE_def ready_card [OF person])
  have per: "period_for 3 1 = (1, 14)" by (simp add: period_for_def PERIOD_DAYS_def)
  have sch: "scalar_one_or_none (filter (\<lambda>p. ps_property_id p = ''SJCES'') (pay_schedules (ready_at runs refs))) = Inr (Some (hd (pay_schedules (ready_at runs refs))))"
    "ps_check_date_offset_days (hd (pay_schedules (ready_at runs refs))) = 5"
    by (simp_all add: ready_at_def ready_pay_def scalar_one_or_none_def)
  show ?thesis
    unfolding assemble_pay_run_entries_def Let_def per prod.case sch bindE_simps core hotel option.case rules ready_population pay sick
      late_sick_problems_def paid_worked_problems_def runs late_worked_problems_def orphans cards
    by (simp add: group_by_def step shown sch(2))
qed

lemma ready_report:
  "\<exists>report. assemble_pay_run_entries sha256 ready_pay ''SJCES'' 3 1 None = Inr report \<and> rp_problems report = [] \<and> rp_entries report = [ready_entry]
    \<and> rp_period_start report = 1 \<and> rp_period_end report = 14 \<and> rp_check_date report = Some 19"
proof -
  have runs: "earlier_runs (ready_at [] []) p d = []" for p d by (simp add: earlier_runs_def ready_at_def)
  have "with_balances ready_core None (Some 19) [ready_entry] = Inr [ready_entry]" by (simp add: with_balances_def)
  from ready_report_at [OF ready_person runs this] show ?thesis unfolding ready_at_Nil by blast
qed

lemma ready_keys:
  "get_property (core ready_pay) ''SJCES'' = Some (hd (properties ready_core))" "distinct (map em_employee_id (employees (core ready_pay)))"
  "distinct (map (\<lambda>c. (tc_employee_id c, tc_period_start c)) (timecards (core ready_pay)))"
  by (simp_all add: ready_pay_def ready_core_def approved_db_def get_property_def)

theorem preflight_names_or_pays_witness:
  "\<exists>report population. assemble_pay_run_entries id ready_pay ''SJCES'' 3 1 None = Inr report \<and> rp_entries report = [ready_entry]
    \<and> employee_ids_paid_by_during ready_core ''SJCES'' 1 14 = Inr population \<and> en_employee_id ready_entry \<in> population"
proof -
  obtain report where r: "assemble_pay_run_entries id ready_pay ''SJCES'' 3 1 None = Inr report" "rp_entries report = [ready_entry]"
    "rp_period_start report = 1" "rp_period_end report = 14" using ready_report by blast
  from preflight_names_or_pays [OF r(1) ready_keys] r show ?thesis by (auto simp: ready_pay_def)
qed

theorem clean_preflight_exact_witness:
  "\<exists>report x. assemble_pay_run_entries id ready_pay ''SJCES'' 3 1 None = Inr report \<and> x \<in> set (rp_entries report)
    \<and> en_regular_hours x + en_ot_hours x + en_dt_hours x = 1"
proof -
  obtain report where r: "assemble_pay_run_entries id ready_pay ''SJCES'' 3 1 None = Inr report" "rp_problems report = []"
    "rp_period_start report = 1" "rp_period_end report = 14" using ready_report by blast
  have core: "core ready_pay = ready_core" by (simp add: ready_pay_def)
  have a: "employee_ids_paid_by_during (core ready_pay) ''SJCES'' (rp_period_start report) (rp_period_end report) = Inr {7}"
    "sick_days_taken (core ready_pay) (rp_period_start report) (rp_period_end report) = Inr []"
    using ready_population unfolding r core
    by (simp_all add: sick_days_taken_def ready_core_def approved_db_def example_shift_def empty_db_def net_usage_by_day_def)
  have b: "approved_card \<in> set (timecards (core ready_pay))" "tc_period_start approved_card = rp_period_start report"
    "tc_employee_id approved_card \<in> {7}" "get_employee (core ready_pay) (tc_employee_id approved_card) = Some (hd (employees ready_core))"
    "em_pay_type (hd (employees ready_core)) \<noteq> EXCLUDE_FROM_PAYROLL"
    unfolding r core by (simp_all add: ready_core_def example_card_def get_employee_def approved_db_def EXCLUDE_FROM_PAYROLL_def)
  have d: "card_datetimes (core ready_pay)" "compute_timecard (core ready_pay) approved_card = Inr [approved_day]"
    "\<forall>r \<in> set [approved_day]. dr_worked_minutes r < 10 ^ 12"
    using ready_days by (simp_all add: core) (simp add: card_datetimes_def ready_core_def approved_db_def example_shift_def empty_db_def minute_def)
  have "ddiv 60 60 = 1" using ctx_of_int [of 1] by (simp add: ddiv_def prec_def)
  then have h: "card_day_hours [approved_day] = Inr [(3, 1)]"
    by (simp add: card_day_hours_def quantize_def round_int_def half_even_def prec_def)
  have cd: "card_days ready_core approved_card = Inr [approved_day]" by (simp add: card_days_def ready_days)
  from clean_preflight_exact [OF r(1) ready_keys r(2) a b d] r(1) show ?thesis by (auto simp: core cd h)
qed

end
