(* ===== verification/PayExecute.thy ===== *)
theory PayExecute
  imports PayAssemble
begin

text \<open>
  The provider round trip of \<^verbatim>\<open>usali/payroll_run.py\<close>: opening the sealed fields, syncing employees,
  and executing a run, with the port of \<^verbatim>\<open>usali/payroll_provider.py\<close> and its in-memory provider.  The provider is a parameter: a record of functions over
  a state \<open>'w\<close> of its own that survives an exception, while the session's changes do not.
  \<open>open_env sealed aad\<close> is \<^verbatim>\<open>SealedEnvelope.parse\<close> and \<^verbatim>\<open>Opener.open\<close>, \<open>None\<close> when either raises.
  \<open>env\<close> is what other sessions commit while the employees are being synced.
\<close>

section \<open>The port\<close>

record PlainDepositAccount =
  pd_ordinal :: int
  pd_allocation_type :: string
  pd_allocation_value :: "decimal option"
  pd_account_type :: "string option"
  pd_routing :: string
  pd_account :: string

record PayrollEmployee =
  py_full_name :: string
  py_ssn :: string
  py_deposit_accounts :: "PlainDepositAccount list"

record PayRunEntry =
  pe_provider_employee_id :: string
  pe_regular_hours :: decimal
  pe_ot_hours :: decimal
  pe_dt_hours :: decimal
  pe_hourly_rate :: decimal
  pe_sick_hours :: decimal
  pe_sick_balance_hours :: "decimal option"

record PayRunResultLine =
  rl_provider_employee_id :: string
  rl_gross :: decimal
  rl_employee_taxes :: decimal
  rl_employer_taxes :: decimal
  rl_net :: decimal

record PayRunResult =
  rs_status :: string
  rs_lines :: "PayRunResultLine list"

text \<open>\<^verbatim>\<open>submit_pay_run\<close> returns the id of the provider's run.\<close>

record 'w PayrollProvider =
  pv_capabilities :: ProviderCapabilities
  pv_sync_employee :: "'w \<Rightarrow> PayrollEmployee \<Rightarrow> 'w \<times> string res"
  pv_update_employee :: "'w \<Rightarrow> string \<Rightarrow> PayrollEmployee \<Rightarrow> 'w \<times> unit res"
  pv_submit_pay_run :: "'w \<Rightarrow> date \<Rightarrow> date \<Rightarrow> date \<Rightarrow> PayRunEntry list \<Rightarrow> 'w \<times> string res"
  pv_get_pay_run :: "'w \<Rightarrow> string \<Rightarrow> PayRunResult res"

section \<open>The in-memory provider\<close>

record InMemoryPayrollProvider =
  im_employees :: "PayrollEmployee list"
  im_by_id :: "(string, PayrollEmployee) dict"
  im_runs :: "(string, PayRunResult) dict"
  im_submitted :: "(string, PayRunEntry list) dict"

definition gross_of :: "PayRunEntry \<Rightarrow> decimal res" where
  "gross_of e = cents (pe_regular_hours e * pe_hourly_rate e + pe_ot_hours e * pe_hourly_rate e * (3 / 2)
     + pe_dt_hours e * pe_hourly_rate e * 2 + pe_sick_hours e * pe_hourly_rate e)"

definition im_sync_employee :: "InMemoryPayrollProvider \<Rightarrow> PayrollEmployee \<Rightarrow> InMemoryPayrollProvider \<times> string res" where
  "im_sync_employee w employee =
    (let es = im_employees w @ [employee]; i = ''mem-'' @ str_nat (length es)
     in (w\<lparr>im_employees := es, im_by_id := AList.update i employee (im_by_id w)\<rparr>, Inr i))"

definition im_update_employee :: "InMemoryPayrollProvider \<Rightarrow> string \<Rightarrow> PayrollEmployee \<Rightarrow> InMemoryPayrollProvider \<times> unit res" where
  "im_update_employee w i employee =
    (if i \<notin> set (keys (im_by_id w)) then (w, Inl (ProviderError (''unknown employee '' @ i)))
     else (w\<lparr>im_employees := im_employees w @ [employee], im_by_id := AList.update i employee (im_by_id w)\<rparr>, Inr ()))"

definition im_result_line :: "PayRunEntry \<Rightarrow> PayRunResultLine res" where
  "im_result_line e =
     bindE (gross_of e) (\<lambda>gross.
     bindE (cents (gross * (15 / 100))) (\<lambda>etax.
     bindE (cents (gross * (10 / 100))) (\<lambda>xtax.
       Inr \<lparr>rl_provider_employee_id = pe_provider_employee_id e, rl_gross = gross, rl_employee_taxes = etax,
            rl_employer_taxes = xtax, rl_net = gross - etax\<rparr>)))"

definition im_submit_pay_run ::
  "InMemoryPayrollProvider \<Rightarrow> date \<Rightarrow> date \<Rightarrow> date \<Rightarrow> PayRunEntry list \<Rightarrow> InMemoryPayrollProvider \<times> string res" where
  "im_submit_pay_run w period_start period_end check_date entries =
    (case mapE im_result_line entries of
       Inl e \<Rightarrow> (w, Inl e)
     | Inr ls \<Rightarrow>
         let i = ''mem-run-'' @ str_nat (length (im_runs w) + 1)
         in (w\<lparr>im_runs := AList.update i \<lparr>rs_status = ''processed'', rs_lines = ls\<rparr> (im_runs w),
               im_submitted := AList.update i entries (im_submitted w)\<rparr>, Inr i))"

definition im_get_pay_run :: "InMemoryPayrollProvider \<Rightarrow> string \<Rightarrow> PayRunResult res" where
  "im_get_pay_run w i = (case map_of (im_runs w) i of None \<Rightarrow> Inl (ProviderError (''unknown pay run '' @ i)) | Some r \<Rightarrow> Inr r)"

definition in_memory :: "InMemoryPayrollProvider PayrollProvider" where
  "in_memory = \<lparr>pv_capabilities = \<lparr>pc_supports_field_encryption = False, pc_supports_employee_update = True,
       pc_supports_sick_balance_display = True\<rparr>,
     pv_sync_employee = im_sync_employee, pv_update_employee = im_update_employee,
     pv_submit_pay_run = im_submit_pay_run, pv_get_pay_run = im_get_pay_run\<rparr>"

section \<open>Opening the vault\<close>

type_synonym opener = "string \<Rightarrow> string \<Rightarrow> string option"

definition aad_of :: "int \<Rightarrow> string \<Rightarrow> string" where
  "aad_of employee_id field_name = str_int employee_id @ '':'' @ field_name"

definition open_field :: "opener \<Rightarrow> int \<Rightarrow> string \<Rightarrow> string \<Rightarrow> string res" where
  "open_field open_env employee_id field_name sealed =
    (case open_env sealed (aad_of employee_id field_name) of None \<Rightarrow> Inl (SealedFieldError field_name) | Some v \<Rightarrow> Inr v)"

definition open_account :: "opener \<Rightarrow> int \<Rightarrow> DepositAccount \<Rightarrow> PlainDepositAccount res" where
  "open_account open_env employee_id r =
     bindE (open_field open_env employee_id (routing_slot (da_ordinal r) (da_legacy_sealed r)) (da_sealed_routing r)) (\<lambda>routing.
     bindE (open_field open_env employee_id (account_slot (da_ordinal r) (da_legacy_sealed r)) (da_sealed_account r)) (\<lambda>account.
       Inr \<lparr>pd_ordinal = da_ordinal r, pd_allocation_type = da_allocation_type r, pd_allocation_value = da_allocation_value r,
            pd_account_type = da_account_type r, pd_routing = routing, pd_account = account\<rparr>))"

fun is_SealedFieldError :: "err \<Rightarrow> bool" where
  "is_SealedFieldError (SealedFieldError _) = True"
| "is_SealedFieldError _ = False"

definition build_payroll_employee :: "opener \<Rightarrow> pay_db \<Rightarrow> int \<Rightarrow> PayrollEmployee res" where
  "build_payroll_employee open_env s employee_id =
     bindE (scalar_one_or_none (filter (\<lambda>p. pp_employee_id p = employee_id) (payroll_profiles s))) (\<lambda>row.
     bindE (case row of None \<Rightarrow> Inl NoResultFound | Some p \<Rightarrow> Inr p) (\<lambda>profile.
     bindE (require_not_none (get_employee (core s) employee_id)) (\<lambda>employee.
     bindE (require_not_none (pp_ssn_sealed profile)) (\<lambda>ssn_sealed.
     bindE (require (deposit_chain s employee_id \<noteq> [])) (\<lambda>_.
     bindE (catchE is_SealedFieldError
              (bindE (open_field open_env employee_id ''ssn'' ssn_sealed) (\<lambda>ssn.
               bindE (mapE (open_account open_env employee_id) (deposit_chain s employee_id)) (\<lambda>accounts.
                 Inr \<lparr>py_full_name = em_full_name employee, py_ssn = ssn, py_deposit_accounts = accounts\<rparr>)))) (\<lambda>r.
       case r of Inl e \<Rightarrow> Inl PayRunBlocked | Inr payload \<Rightarrow> Inr payload))))))"

section \<open>Syncing\<close>

definition set_fingerprint :: "string \<Rightarrow> int \<Rightarrow> string \<Rightarrow> pay_db \<Rightarrow> pay_db" where
  "set_fingerprint provider_name employee_id fp s =
     s\<lparr>provider_refs := map (\<lambda>r. if rf_provider r = provider_name \<and> rf_employee_id r = employee_id
        then r\<lparr>rf_payload_fingerprint := Some fp\<rparr> else r) (provider_refs s)\<rparr>"

definition add_ref :: "string \<Rightarrow> int \<Rightarrow> string \<Rightarrow> string \<Rightarrow> pay_db \<Rightarrow> pay_db" where
  "add_ref provider_name employee_id provider_employee_id fp s =
     s\<lparr>provider_refs := provider_refs s @ [\<lparr>rf_employee_id = employee_id, rf_provider = provider_name,
        rf_provider_employee_id = provider_employee_id, rf_payload_fingerprint = Some fp\<rparr>]\<rparr>"

text \<open>A re-send to a stale reference.  A \<^verbatim>\<open>ProviderError\<close> of the update becomes \<^verbatim>\<open>PayRunBlocked\<close>.\<close>

definition resync ::
  "(string \<Rightarrow> string) \<Rightarrow> opener \<Rightarrow> 'w PayrollProvider \<Rightarrow> string \<Rightarrow> ProviderEmployeeRef \<Rightarrow> 'w \<Rightarrow> pay_db \<Rightarrow> 'w \<times> pay_db res" where
  "resync sha256 open_env pv provider_name ref w s =
    (let employee_id = rf_employee_id ref in
     case provider_payload_stale sha256 s employee_id ref of
       Inl e \<Rightarrow> (w, Inl e)
     | Inr stale \<Rightarrow>
         if \<not> stale then (w, Inr s)
         else if get_employee (core s) employee_id = None then (w, Inl InvariantViolation)
         else if \<not> pc_supports_employee_update (pv_capabilities pv) then (w, Inl PayRunBlocked)
         else
           (case bindE (payload_fingerprint sha256 s employee_id) (\<lambda>fp.
                   bindE (build_payroll_employee open_env s employee_id) (\<lambda>payload. Inr (fp, payload))) of
              Inl e \<Rightarrow> (w, Inl e)
            | Inr (fp, payload) \<Rightarrow>
                (case pv_update_employee pv w (rf_provider_employee_id ref) payload of
                   (w', Inl e) \<Rightarrow> (w', Inl (case e of ProviderError m \<Rightarrow> PayRunBlocked | _ \<Rightarrow> e))
                 | (w', Inr ok) \<Rightarrow> (w', Inr (set_fingerprint provider_name employee_id fp s)))))"

definition first_sync ::
  "(string \<Rightarrow> string) \<Rightarrow> opener \<Rightarrow> 'w PayrollProvider \<Rightarrow> string \<Rightarrow> int \<Rightarrow> 'w \<Rightarrow> pay_db \<Rightarrow> 'w \<times> (pay_db \<times> string) res" where
  "first_sync sha256 open_env pv provider_name employee_id w s =
    (case bindE (payload_fingerprint sha256 s employee_id) (\<lambda>fp.
            bindE (build_payroll_employee open_env s employee_id) (\<lambda>payload. Inr (fp, payload))) of
       Inl e \<Rightarrow> (w, Inl e)
     | Inr (fp, payload) \<Rightarrow>
         (case pv_sync_employee pv w payload of
            (w', Inl e) \<Rightarrow> (w', Inl e)
          | (w', Inr i) \<Rightarrow> (w', Inr (add_ref provider_name employee_id i fp s, i))))"

text \<open>
  The loop.  The session's state is returned with an exception too, because \<^verbatim>\<open>execute_pay_run\<close> goes
  on with it when it catches a \<^verbatim>\<open>ProviderError\<close>.
\<close>

fun sync_loop ::
  "(string \<Rightarrow> string) \<Rightarrow> opener \<Rightarrow> 'w PayrollProvider \<Rightarrow> string \<Rightarrow> (int, ProviderEmployeeRef) dict \<Rightarrow> int list
     \<Rightarrow> 'w \<Rightarrow> pay_db \<Rightarrow> (int, string) dict \<Rightarrow> 'w \<times> pay_db \<times> (int, string) dict res" where
  "sync_loop sha256 open_env pv provider_name ref_rows [] w s refs = (w, s, Inr refs)"
| "sync_loop sha256 open_env pv provider_name ref_rows (e # es) w s refs =
    (case map_of ref_rows e of
       Some ref \<Rightarrow>
         (case resync sha256 open_env pv provider_name ref w s of
            (w', Inl x) \<Rightarrow> (w', s, Inl x)
          | (w', Inr s') \<Rightarrow> sync_loop sha256 open_env pv provider_name ref_rows es w' s' refs)
     | None \<Rightarrow>
         (case first_sync sha256 open_env pv provider_name e w s of
            (w', Inl x) \<Rightarrow> (w', s, Inl x)
          | (w', Inr (s', i)) \<Rightarrow> sync_loop sha256 open_env pv provider_name ref_rows es w' s' (AList.update e i refs)))"

definition sync_employees ::
  "(string \<Rightarrow> string) \<Rightarrow> opener \<Rightarrow> 'w PayrollProvider \<Rightarrow> string \<Rightarrow> int list \<Rightarrow> 'w \<Rightarrow> pay_db \<Rightarrow> 'w \<times> pay_db \<times> (int, string) dict res" where
  "sync_employees sha256 open_env pv provider_name employee_ids w s =
    (let rows = filter (\<lambda>r. rf_provider r = provider_name \<and> rf_employee_id r \<in> set employee_ids) (provider_refs s);
         ref_rows = fold (\<lambda>r. AList.update (rf_employee_id r) r) rows []
     in sync_loop sha256 open_env pv provider_name ref_rows employee_ids w s
          (map (\<lambda>(e, r). (e, rf_provider_employee_id r)) ref_rows))"

section \<open>Executing a run\<close>

definition set_run :: "int \<Rightarrow> (PayRun \<Rightarrow> PayRun) \<Rightarrow> pay_db \<Rightarrow> pay_db" where
  "set_run i f s = s\<lparr>pay_runs := map (\<lambda>r. if rn_pay_run_id r = i then f r else r) (pay_runs s)\<rparr>"

definition audit_run :: "string \<Rightarrow> string \<Rightarrow> int \<Rightarrow> pay_db \<Rightarrow> pay_db" where
  "audit_run actor action i s = s\<lparr>core := core s\<lparr>audit_events := audit_events (core s) @
     [\<lparr>au_actor_subject = actor, au_action = action, au_resource_type = ''pay_run'', au_resource_id = str_int i\<rparr>]\<rparr>\<rparr>"

definition mark_failed :: "string \<Rightarrow> string \<Rightarrow> int \<Rightarrow> pay_db \<Rightarrow> pay_db" where
  "mark_failed actor reason i s =
     audit_run actor ''pay_run_failed'' i (set_run i (\<lambda>r. r\<lparr>rn_status := ''failed'', rn_failure_reason := Some reason\<rparr>) s)"

definition DRIFTED :: string where
  "DRIFTED = ''preflight drifted during submission (a timecard or sick entry changed after assembly); nothing was sent -- re-run the period''"

text \<open>Replacing a failed run, or refusing: the state the new draft is added to.\<close>

definition clear_failed :: "pay_db \<Rightarrow> string \<Rightarrow> date \<Rightarrow> pay_db res" where
  "clear_failed s property_id period_start =
     bindE (scalar_one_or_none (filter (\<lambda>r. rn_property_id r = property_id \<and> rn_period_start r = period_start) (pay_runs s))) (\<lambda>existing.
       case existing of
         None \<Rightarrow> Inr s
       | Some run \<Rightarrow>
           if rn_status run \<noteq> ''failed'' then Inl PayRunConflict
           else Inr (s\<lparr>pay_run_lines := filter (\<lambda>l. ln_pay_run_id l \<noteq> rn_pay_run_id run) (pay_run_lines s),
                      pay_run_line_properties := filter (\<lambda>c. cn_pay_run_id c \<noteq> rn_pay_run_id run) (pay_run_line_properties s),
                      pay_runs := filter (\<lambda>r. rn_pay_run_id r \<noteq> rn_pay_run_id run) (pay_runs s)\<rparr>))"

definition add_draft :: "pay_db \<Rightarrow> int \<Rightarrow> PreflightReport \<Rightarrow> date \<Rightarrow> string \<Rightarrow> string \<Rightarrow> pay_db" where
  "add_draft s i report check_date provider_name actor =
     s\<lparr>pay_runs := pay_runs s @ [\<lparr>rn_pay_run_id = i, rn_property_id = rp_property_id report, rn_period_start = rp_period_start report,
        rn_period_end = rp_period_end report, rn_check_date = check_date, rn_status = ''draft'', rn_provider = provider_name,
        rn_provider_run_id = None, rn_created_by = actor, rn_submitted_at = None, rn_processed_at = None, rn_failure_reason = None\<rparr>]\<rparr>"

definition provider_entry :: "(int, string) dict \<Rightarrow> PreflightEntry \<Rightarrow> PayRunEntry res" where
  "provider_entry refs e =
     bindE (dict_index refs (en_employee_id e)) (\<lambda>i.
       Inr \<lparr>pe_provider_employee_id = i, pe_regular_hours = en_regular_hours e, pe_ot_hours = en_ot_hours e, pe_dt_hours = en_dt_hours e,
            pe_hourly_rate = en_hourly_rate e, pe_sick_hours = en_sick_hours e, pe_sick_balance_hours = en_sick_balance_hours e\<rparr>)"

definition line_weights :: "db \<Rightarrow> string \<Rightarrow> int \<Rightarrow> date \<Rightarrow> decimal \<Rightarrow> decimal \<Rightarrow> (string, decimal) dict res" where
  "line_weights s run_property employee_id period_start total_hours sick_hours =
     bindE (scalar_one_or_none (filter (\<lambda>c. tc_employee_id c = employee_id \<and> tc_period_start c = period_start) (timecards s))) (\<lambda>row.
     bindE (case row of None \<Rightarrow> Inr [] | Some c \<Rightarrow> property_hours_for_timecard s c) (\<lambda>weights.
       let w1 = (if sick_hours > 0 then dict_add run_property sick_hours weights else weights)
       in Inr (if w1 = [] then [(run_property, if total_hours > 0 then total_hours else 1)] else w1)))"

definition entry_total_hours :: "PreflightEntry \<Rightarrow> decimal" where
  "entry_total_hours e = en_regular_hours e + en_ot_hours e + en_dt_hours e + en_sick_hours e"

text \<open>The line of one entry, and the census rows of its hours by property.\<close>

definition run_line :: "int \<Rightarrow> PreflightEntry \<Rightarrow> PayRunLine" where
  "run_line i e = \<lparr>ln_pay_run_id = i, ln_employee_id = en_employee_id e, ln_department_id = None, ln_hours = entry_total_hours e,
     ln_sick_hours = en_sick_hours e, ln_gross = 0, ln_employee_taxes = 0, ln_employer_taxes = 0, ln_net = 0\<rparr>"

definition census_rows :: "int \<Rightarrow> int \<Rightarrow> (string, decimal) dict \<Rightarrow> PayRunLineProperty list" where
  "census_rows i employee_id shares =
     map (\<lambda>(p, h). \<lparr>cn_pay_run_id = i, cn_employee_id = employee_id, cn_property_id = p, cn_department_id = None, cn_hours = h,
        cn_gross = 0, cn_employer_burden = 0\<rparr>) (sort_key fst shares)"

definition entry_census :: "db \<Rightarrow> int \<Rightarrow> string \<Rightarrow> date \<Rightarrow> PreflightEntry \<Rightarrow> PayRunLineProperty list res" where
  "entry_census s i property_id period_start e =
     bindE (line_weights s property_id (en_employee_id e) period_start (entry_total_hours e) (en_sick_hours e)) (\<lambda>weights.
     bindE (apportion id (entry_total_hours e) weights CENTS) (\<lambda>shares. Inr (census_rows i (en_employee_id e) shares)))"

definition record_submitted :: "pay_db \<Rightarrow> int \<Rightarrow> PreflightReport \<Rightarrow> string \<Rightarrow> string \<Rightarrow> instant \<Rightarrow> pay_db res" where
  "record_submitted s i report actor provider_run_id now =
     bindE (mapE (entry_census (core s) i (rp_property_id report) (rp_period_start report)) (rp_entries report)) (\<lambda>rows.
       let s1 = set_run i (\<lambda>r. r\<lparr>rn_status := ''submitted'', rn_provider_run_id := Some provider_run_id, rn_submitted_at := Some now\<rparr>) s
       in Inr (audit_run actor ''submit_pay_run'' i
            (s1\<lparr>pay_run_lines := pay_run_lines s1 @ map (run_line i) (rp_entries report),
                pay_run_line_properties := pay_run_line_properties s1 @ concat rows\<rparr>)))"

text \<open>The \<^verbatim>\<open>try\<close> block after the draft is in: the state it leaves, or the exception that escapes.\<close>

definition submit_run ::
  "(string \<Rightarrow> string) \<Rightarrow> opener \<Rightarrow> 'w PayrollProvider \<Rightarrow> (pay_db \<Rightarrow> pay_db) \<Rightarrow> string \<Rightarrow> string \<Rightarrow> date \<Rightarrow> date \<Rightarrow> instant
     \<Rightarrow> PreflightReport \<Rightarrow> date \<Rightarrow> int \<Rightarrow> 'w \<Rightarrow> pay_db \<Rightarrow> 'w \<times> pay_db res" where
  "submit_run sha256 open_env pv env provider_name actor in_period anchor now report check_date i w s =
    (case sync_employees sha256 open_env pv provider_name (map en_employee_id (rp_entries report)) w s of
       (w1, s1, Inl (ProviderError m)) \<Rightarrow> (w1, Inr (mark_failed actor (take 300 m) i s1))
     | (w1, s1, Inl e) \<Rightarrow> (w1, Inl e)
     | (w1, s1, Inr refs) \<Rightarrow>
         let s2 = env s1 in
         (case assemble_pay_run_entries sha256 s2 (rp_property_id report) in_period anchor (Some (pv_capabilities pv)) of
            Inl e \<Rightarrow> (w1, Inl e)
          | Inr recheck \<Rightarrow>
              if rp_problems recheck \<noteq> [] \<or> sort_key en_employee_id (rp_entries recheck) \<noteq> sort_key en_employee_id (rp_entries report)
              then (w1, Inr (mark_failed actor DRIFTED i s2))
              else
                (case mapE (provider_entry refs) (rp_entries report) of
                   Inl e \<Rightarrow> (w1, Inl e)
                 | Inr entries \<Rightarrow>
                     (case pv_submit_pay_run pv w1 (rp_period_start report) (rp_period_end report) check_date entries of
                        (w2, Inl (ProviderError m)) \<Rightarrow> (w2, Inr (mark_failed actor (take 300 m) i s2))
                      | (w2, Inl e) \<Rightarrow> (w2, Inl e)
                      | (w2, Inr provider_run_id) \<Rightarrow> (w2, record_submitted s2 i report actor provider_run_id now)))))"

definition execute_pay_run ::
  "(string \<Rightarrow> string) \<Rightarrow> opener \<Rightarrow> 'w PayrollProvider \<Rightarrow> (pay_db \<Rightarrow> pay_db) \<Rightarrow> string \<Rightarrow> string \<Rightarrow> date \<Rightarrow> date \<Rightarrow> instant
     \<Rightarrow> string \<Rightarrow> 'w \<Rightarrow> pay_db \<Rightarrow> 'w \<times> (pay_db \<times> int) res" where
  "execute_pay_run sha256 open_env pv env provider_name actor in_period anchor now property_id w s =
    (case assemble_pay_run_entries sha256 s property_id in_period anchor (Some (pv_capabilities pv)) of
       Inl e \<Rightarrow> (w, Inl e)
     | Inr report \<Rightarrow>
         if \<not> report_ok report then (w, Inl PayRunBlocked)
         else
           (case bindE (require_not_none (rp_check_date report)) (\<lambda>check_date.
                   bindE (clear_failed s property_id (rp_period_start report)) (\<lambda>s1. Inr (check_date, s1))) of
              Inl e \<Rightarrow> (w, Inl e)
            | Inr (check_date, s1) \<Rightarrow>
                let i = next_id (map rn_pay_run_id (pay_runs s));
                    s2 = add_draft s1 i report check_date provider_name actor
                in (case submit_run sha256 open_env pv env provider_name actor in_period anchor now report check_date i w s2 of
                      (w', r) \<Rightarrow> (w', bindE r (\<lambda>s'. Inr (s', i))))))"

section \<open>What a run leaves behind\<close>

lemma set_run_simps [simp]:
  "core (set_run i f s) = core s" "pay_run_lines (set_run i f s) = pay_run_lines s" "provider_refs (set_run i f s) = provider_refs s"
  "pay_run_line_properties (set_run i f s) = pay_run_line_properties s" "wage_settlements (set_run i f s) = wage_settlements s"
  by (simp_all add: set_run_def)

lemma audit_run_simps [simp]:
  "pay_run_lines (audit_run a b i s) = pay_run_lines s" "provider_refs (audit_run a b i s) = provider_refs s" "pay_runs (audit_run a b i s) = pay_runs s"
  "pay_run_line_properties (audit_run a b i s) = pay_run_line_properties s"
  by (simp_all add: audit_run_def)

lemma dict_sum_zeros: "dict_sum (map (\<lambda>k. (k, 0 :: decimal)) ks) = 0"
  by (induction ks) (simp_all add: dict_sum_def)

lemma keys_of_mapped_pairs:
  assumes "mapE (\<lambda>(k, v). map_sum id (Pair k) (f v)) exact = Inr shares"
  shows "keys shares = map fst exact"
  using assms by (induction exact arbitrary: shares) (auto simp: inr map_sum_Inr)

lemma keys_bumped:
  "keys (fold (\<lambda>k d. dict_add k q d) (take n (sort_key g (keys shares))) shares) = keys shares"
  by (intro keys_fold_add) (auto dest: in_set_takeD)

lemma yields_Inl: "yields P (Inl e)"
  by (simp add: yields_def)

lemma keys_scaled: "keys (map (\<lambda>(k, v). (k, f v)) d) = keys d"
  by (induction d) auto

lemma apportion_keys:
  assumes "apportion kstr tot ws q = Inr sh"
  shows "keys sh = sort_key kstr (keys ws)"
proof -
  define ks where "ks = sort_key kstr (keys ws)"
  have "yields (\<lambda>sh. keys sh = ks) (apportion kstr tot ws q)"
    unfolding apportion_def Let_def ks_def [symmetric]
  proof (intro yields_rules yields_Inl)
    fix shares
    assume m: "mapE (\<lambda>(k, v). map_sum id (Pair k) (quantize v q ROUND_DOWN)) (map (\<lambda>k. (k, ddiv (\<bar>tot\<bar> * dict_get ws k 0) (dict_sum ws))) ks) = Inr shares"
    have k: "ks = keys shares" using keys_of_mapped_pairs [OF m] by (simp add: comp_def)
    show "keys (map (\<lambda>(k, v). (k, v * (if tot < 0 then - 1 else 1))) (if 0 < half_even (ddiv (\<bar>tot\<bar> - dict_sum shares) q)
        then fold (\<lambda>k. dict_add k q) (take (nat (half_even (ddiv (\<bar>tot\<bar> - dict_sum shares) q)))
          (sort_key (\<lambda>k. (- (dict_get (map (\<lambda>k. (k, ddiv (\<bar>tot\<bar> * dict_get ws k 0) (dict_sum ws))) ks) k 0 - dict_get shares k 0), kstr k)) ks)) shares
        else shares)) = ks"
      unfolding keys_scaled by (simp add: keys_bumped [where shares = shares, folded k] k [symmetric])
  qed (auto simp: comp_def)
  then show ?thesis using assms by (auto simp: ks_def dest: yieldsD)
qed

lemma apportion_sum:
  assumes "apportion kstr tot ws q = Inr sh" "0 < dict_sum ws"
  shows "dict_sum sh = tot"
proof -
  have "keys ws \<noteq> []" using assms(2) by (cases ws) auto
  then show ?thesis using assms by (auto simp: apportion_def Let_def inr require_def dict_sum_zeros split: if_splits)
qed

lemma sync_refs_only:
  assumes "sync_loop sha256 open_env pv n rows es w s refs = (w', s', r)"
  shows "\<exists>R. s' = s\<lparr>provider_refs := R\<rparr>"
  using assms
proof (induction es arbitrary: w s refs)
  case Nil
  then show ?case by (auto intro: exI [of _ "provider_refs s"])
next
  case (Cons e es)
  have R: "\<exists>R. s1 = s\<lparr>provider_refs := R\<rparr>" if "resync sha256 open_env pv n ref w s = (w1, Inr s1)" for ref w1 s1
    using that by (auto simp: resync_def set_fingerprint_def Let_def split: sum.splits if_splits prod.splits intro: exI [of _ "provider_refs s"])
  have F: "\<exists>R. s1 = s\<lparr>provider_refs := R\<rparr>" if "first_sync sha256 open_env pv n e w s = (w1, Inr (s1, i))" for w1 s1 i
    using that by (auto simp: first_sync_def add_ref_def split: sum.splits prod.splits)
  have trans: "\<exists>R. s' = s\<lparr>provider_refs := R\<rparr>" if "\<exists>R. s1 = s\<lparr>provider_refs := R\<rparr>" "\<exists>R. s' = s1\<lparr>provider_refs := R\<rparr>" for s1
    using that by auto
  have self: "\<exists>R. s = s\<lparr>provider_refs := R\<rparr>" by (intro exI [of _ "provider_refs s"]) simp
  show ?case
  proof (cases "map_of rows e")
    case None
    obtain w1 x where x: "first_sync sha256 open_env pv n e w s = (w1, x)" by fastforce
    show ?thesis
    proof (cases x)
      case (Inl err)
      then show ?thesis using Cons.prems None x self by simp
    next
      case (Inr p)
      then show ?thesis using Cons.prems None x F [of w1 "fst p" "snd p"] Cons.IH trans [of "fst p"] by (cases p) fastforce
    qed
  next
    case (Some ref)
    obtain w1 x where x: "resync sha256 open_env pv n ref w s = (w1, x)" by fastforce
    show ?thesis
    proof (cases x)
      case (Inl err)
      then show ?thesis using Cons.prems Some x self by simp
    next
      case (Inr s1)
      then show ?thesis using Cons.prems Some x R [of ref w1 s1] Cons.IH trans [of s1] by fastforce
    qed
  qed
qed

text \<open>
  A conflict is found before the provider is called: with a run of the period that has not failed,
  executing raises and leaves the provider as it was.
\<close>

lemma clear_failed_conflict:
  assumes "filter (\<lambda>r. rn_property_id r = p \<and> rn_period_start r = d) (pay_runs s) = [run]" "rn_status run \<noteq> ''failed''"
  shows "clear_failed s p d = Inl PayRunConflict"
  using assms by (simp add: clear_failed_def scalar_one_or_none_def)

section \<open>The outcomes of an execution\<close>

lemma execute_inr:
  assumes "execute_pay_run sha256 open_env pv env n actor in_period anchor now p w s = (w', Inr (s', i))"
  obtains report check_date s1 where
    "assemble_pay_run_entries sha256 s p in_period anchor (Some (pv_capabilities pv)) = Inr report" "report_ok report"
    "rp_check_date report = Some check_date" "clear_failed s p (rp_period_start report) = Inr s1"
    "i = next_id (map rn_pay_run_id (pay_runs s))"
    "submit_run sha256 open_env pv env n actor in_period anchor now report check_date i w (add_draft s1 i report check_date n actor) = (w', Inr s')"
  using assms
  by (auto simp: execute_pay_run_def Let_def inr require_not_none_def split: sum.splits if_splits prod.splits option.splits)

lemma submit_run_inr:
  assumes "submit_run sha256 open_env pv env n actor in_period anchor now report check_date i w s = (w', Inr s')"
  obtains (sync_failed) m s1 where "sync_employees sha256 open_env pv n (map en_employee_id (rp_entries report)) w s = (w', s1, Inl (ProviderError m))"
      "s' = mark_failed actor (take 300 m) i s1"
    | (drifted) s1 refs where "sync_employees sha256 open_env pv n (map en_employee_id (rp_entries report)) w s = (w', s1, Inr refs)"
      "s' = mark_failed actor DRIFTED i (env s1)"
    | (submit_failed) m w1 s1 refs entries where "sync_employees sha256 open_env pv n (map en_employee_id (rp_entries report)) w s = (w1, s1, Inr refs)"
      "pv_submit_pay_run pv w1 (rp_period_start report) (rp_period_end report) check_date entries = (w', Inl (ProviderError m))"
      "s' = mark_failed actor (take 300 m) i (env s1)"
    | (submitted) w1 s1 refs recheck entries rid where "sync_employees sha256 open_env pv n (map en_employee_id (rp_entries report)) w s = (w1, s1, Inr refs)"
      "assemble_pay_run_entries sha256 (env s1) (rp_property_id report) in_period anchor (Some (pv_capabilities pv)) = Inr recheck"
      "rp_problems recheck = []" "sort_key en_employee_id (rp_entries recheck) = sort_key en_employee_id (rp_entries report)"
      "mapE (provider_entry refs) (rp_entries report) = Inr entries"
      "pv_submit_pay_run pv w1 (rp_period_start report) (rp_period_end report) check_date entries = (w', Inr rid)"
      "record_submitted (env s1) i report actor rid now = Inr s'"
proof -
  obtain w1 s1 x where sy: "sync_employees sha256 open_env pv n (map en_employee_id (rp_entries report)) w s = (w1, s1, x)" by (metis prod_cases3)
  show thesis
  proof (cases x)
    case (Inl e)
    then have "\<exists>m. e = ProviderError m \<and> w' = w1 \<and> s' = mark_failed actor (take 300 m) i s1"
      using assms sy by (cases e) (auto simp: submit_run_def)
    then show thesis using sync_failed sy Inl by blast
  next
    case (Inr refs)
    note a = assms [unfolded submit_run_def sy Inr, simplified]
    obtain recheck where re: "assemble_pay_run_entries sha256 (env s1) (rp_property_id report) in_period anchor (Some (pv_capabilities pv)) = Inr recheck"
      using a by (auto simp: Let_def split: sum.splits)
    show thesis
    proof (cases "rp_problems recheck \<noteq> [] \<or> sort_key en_employee_id (rp_entries recheck) \<noteq> sort_key en_employee_id (rp_entries report)")
      case True
      then have "w' = w1 \<and> s' = mark_failed actor DRIFTED i (env s1)" using a re by (auto simp: Let_def)
      then show thesis using drifted sy Inr by blast
    next
      case False
      then obtain entries where en: "mapE (provider_entry refs) (rp_entries report) = Inr entries"
        using a re by (auto simp: Let_def split: sum.splits)
      obtain w2 y where su: "pv_submit_pay_run pv w1 (rp_period_start report) (rp_period_end report) check_date entries = (w2, y)" by fastforce
      show thesis
      proof (cases y)
        case (Inl e)
        then have "\<exists>m. e = ProviderError m \<and> w' = w2 \<and> s' = mark_failed actor (take 300 m) i (env s1)"
          using a re False en su by (cases e) (auto simp: Let_def)
        then show thesis using submit_failed sy Inr su Inl by blast
      next
        case y: (Inr rid)
        then have "w' = w2 \<and> record_submitted (env s1) i report actor rid now = Inr s'" using a re False en su by (auto simp: Let_def)
        then show thesis using submitted sy Inr re False en su y by blast
      qed
    qed
  qed
qed

section \<open>The hours of a submitted line\<close>

definition sane_cards :: "db \<Rightarrow> bool" where
  "sane_cards s \<longleftrightarrow> card_datetimes s
     \<and> (\<forall>c \<in> set (timecards s). \<forall>days. compute_timecard s c = Inr days \<longrightarrow> sum_list (map dr_worked_minutes days) < 10 ^ 12)"

lemma hours_positive:
  assumes "0 < m" "m < (10 :: int) ^ 12"
  shows "0 < quantized (ddiv (of_int m) 60) (1 / 100) ROUND_HALF_EVEN"
proof -
  define x where "x = (of_int m / 60 :: rat)"
  have x: "1 / 60 \<le> x" using assms(1) by (simp add: x_def)
  then have "\<bar>x\<bar> / (2 * 10 ^ 27) \<le> x / 10" by (intro frac_le) auto
  with ctx_error [of x] have "\<bar>ctx x - x\<bar> \<le> x / 10" by (rule order_trans)
  then have "1 / 100 < ctx x" using x unfolding abs_le_iff by linarith
  then have "1 / 100 < ddiv (of_int m) 60" by (simp add: ddiv_def x_def)
  moreover have "\<bar>quantized (ddiv (of_int m) 60) (1 / 100) ROUND_HALF_EVEN - ddiv (of_int m) 60\<bar> < 1 / 100" by (rule quantized_error) simp
  ultimately show ?thesis by linarith
qed

lemma property_hours_positive:
  assumes "sane_cards s" "c \<in> set (timecards s)" "property_hours_for_timecard s c = Inr h"
  shows "distinct (keys h)" "h = [] \<or> 0 < dict_sum h"
proof -
  have dt: "card_datetimes s" using assms(1) by (simp add: sane_cards_def)
  obtain days where days: "compute_timecard s c = Inr days" using compute_timecard_ok [OF dt, of c] by blast
  have small: "sum_list (map dr_worked_minutes days) < 10 ^ 12" using assms(1,2) days by (simp add: sane_cards_def)
  obtain totals where t: "card_property_minutes s c = Inr totals" using assms(3) by (auto simp: property_hours_for_timecard_def inr)
  note tot = card_property_minutes_sum [OF t days dt small]
  have lt: "dict_sum totals < 10 ^ 12" using tot(2) small by simp
  obtain q where q: "quantize (ddiv (of_int (dict_sum totals)) 60) (1 / 100) ROUND_HALF_EVEN = Inr q" "apportion id q (dec_weights totals) (1 / 100) = Inr h"
    using assms(3) by (auto simp: property_hours_for_timecard_def t inr)
  have "distinct (keys totals)" using tot(1) by (simp add: positive_minutes_def)
  then show "distinct (keys h)" using apportion_keys [OF q(2)] by (simp add: distinct_sort_key_keys [where f = id, simplified])
  show "h = [] \<or> 0 < dict_sum h"
  proof (cases "totals = []")
    case True
    then show ?thesis using q(2) by (simp add: apportion_def dec_weights_def)
  next
    case False
    then have pos: "0 < dict_sum totals" using tot(1) positive_minutes_sum by blast
    have "q = quantized (ddiv (of_int (dict_sum totals)) 60) (1 / 100) ROUND_HALF_EVEN" using q(1) quantize_is_centi by blast
    then have "0 < q" using hours_positive [OF pos lt] by simp
    moreover have "dict_sum h = q" using apportion_sum [OF q(2)] pos by simp
    ultimately show ?thesis by simp
  qed
qed

lemma line_weights_positive:
  assumes "line_weights s p e d tot sick = Inr ws" "sane_cards s"
  shows "0 < dict_sum ws"
proof -
  obtain row h where r: "scalar_one_or_none (filter (\<lambda>c. tc_employee_id c = e \<and> tc_period_start c = d) (timecards s)) = Inr row"
    "(case row of None \<Rightarrow> Inr [] | Some c \<Rightarrow> property_hours_for_timecard s c) = Inr h"
    "ws = (let w1 = (if sick > 0 then dict_add p sick h else h) in if w1 = [] then [(p, if tot > 0 then tot else 1)] else w1)"
    using assms(1) by (auto simp: line_weights_def inr Let_def)
  have h: "distinct (keys h)" "h = [] \<or> 0 < dict_sum h"
  proof -
    have "row = None \<and> h = [] \<or> (\<exists>c \<in> set (timecards s). property_hours_for_timecard s c = Inr h)"
      using r(1,2) by (auto simp: scalar_one_or_none_def filter_eq_Cons_iff split: option.splits list.splits)
    then show "distinct (keys h)" "h = [] \<or> 0 < dict_sum h" using property_hours_positive [OF assms(2)] by auto
  qed
  show ?thesis
  proof (cases "sick > 0")
    case True
    then have "dict_sum (dict_add p sick h) = dict_sum h + sick" using h(1) by simp
    then have "0 < dict_sum (dict_add p sick h)" using h(2) True by auto
    then show ?thesis using True unfolding r(3) by (auto simp: Let_def)
  next
    case False
    then show ?thesis using h(2) unfolding r(3) by (auto simp: Let_def)
  qed
qed

lemma entry_census_exact:
  assumes "entry_census s i p d x = Inr rows" "sane_cards s"
  shows "sum_list (map cn_hours rows) = entry_total_hours x" "\<forall>c \<in> set rows. cn_pay_run_id c = i \<and> cn_employee_id c = en_employee_id x"
proof -
  obtain ws sh where e: "line_weights s p (en_employee_id x) d (entry_total_hours x) (en_sick_hours x) = Inr ws"
    "apportion id (entry_total_hours x) ws CENTS = Inr sh" "rows = census_rows i (en_employee_id x) sh"
    using assms(1) by (auto simp: entry_census_def inr)
  have "sum_list (map cn_hours rows) = sum_list (map snd (sort_key fst sh))" by (simp add: e(3) census_rows_def comp_def case_prod_beta')
  also have "\<dots> = dict_sum sh" unfolding dict_sum_def by (rule sum_list_map_perm) simp
  finally show "sum_list (map cn_hours rows) = entry_total_hours x"
    using apportion_sum [OF e(2) line_weights_positive [OF e(1) assms(2)]] by simp
  show "\<forall>c \<in> set rows. cn_pay_run_id c = i \<and> cn_employee_id c = en_employee_id x" by (auto simp: e(3) census_rows_def)
qed

end
