(* ===== verification/PayFetch.thy ===== *)
theory PayFetch
  imports PayExecute
begin

text \<open>
  \<^verbatim>\<open>fetch_pay_run_results\<close> of \<^verbatim>\<open>usali/payroll_run.py\<close>, which prices the lines and the
  census of a submitted run and files its labor cost, and the handlers of \<^verbatim>\<open>usali/payroll_run_api.py\<close>.
\<close>

section \<open>Pricing one line\<close>

text \<open>The state of the loop: the two tables, the aggregate by property and department, the count.\<close>

type_synonym agg = "(string \<times> int option, decimal \<times> decimal \<times> decimal) dict"

record fetch_state =
  fs_lines :: "PayRunLine list"
  fs_census :: "PayRunLineProperty list"
  fs_agg :: agg
  fs_written :: nat

definition agg_add :: "string \<times> int option \<Rightarrow> decimal \<times> decimal \<times> decimal \<Rightarrow> agg \<Rightarrow> agg" where
  "agg_add k = (\<lambda>(h, g, b) d. let (h0, g0, b0) = dict_get d k (0, 0, 0) in AList.update k (h0 + h, g0 + g, b0 + b) d)"

definition price_row ::
  "db \<Rightarrow> int \<Rightarrow> date \<Rightarrow> (string, decimal) dict \<Rightarrow> (string, decimal) dict \<Rightarrow> PayRunLineProperty \<Rightarrow> PayRunLineProperty res" where
  "price_row s employee_id on gross_shares burden_shares row =
     bindE (department_at s employee_id (cn_property_id row) on) (\<lambda>dept.
     bindE (dict_index gross_shares (cn_property_id row)) (\<lambda>g.
     bindE (dict_index burden_shares (cn_property_id row)) (\<lambda>b.
       Inr (row\<lparr>cn_department_id := dept, cn_gross := g, cn_employer_burden := b\<rparr>))))"

text \<open>
  The stored census rows of a line, or, for a run that predates the census, its rows derived now.  \<open>census\<close> is the
  table as it was read before the loop, \<open>now_stored\<close> as it is now: a second line of the same employee would derive
  the same rows again, which the unique key refuses.
\<close>

definition census_key :: "PayRunLineProperty \<Rightarrow> int \<times> int \<times> string" where
  "census_key c = (cn_pay_run_id c, cn_employee_id c, cn_property_id c)"

definition line_census ::
  "db \<Rightarrow> PayRun \<Rightarrow> PayRunLineProperty list \<Rightarrow> PayRunLineProperty list \<Rightarrow> PayRunLine \<Rightarrow> PayRunLineProperty list res" where
  "line_census s run census now_stored stored =
    (let rows = filter (\<lambda>c. cn_pay_run_id c = rn_pay_run_id run \<and> cn_employee_id c = ln_employee_id stored) census in
     if rows \<noteq> [] then Inr rows
     else
       bindE (line_weights s (rn_property_id run) (ln_employee_id stored) (rn_period_start run) (ln_hours stored) (ln_sick_hours stored)) (\<lambda>weights.
       bindE (apportion id (ln_hours stored) weights CENTS) (\<lambda>shares.
         let rows = census_rows (rn_pay_run_id run) (ln_employee_id stored) shares
         in if \<exists>c \<in> set now_stored. census_key c \<in> census_key ` set rows then Inl IntegrityError else Inr rows)))"

text \<open>Assigning to rows in place, new rows being added.\<close>

definition put_census :: "PayRunLineProperty list \<Rightarrow> PayRunLineProperty list \<Rightarrow> PayRunLineProperty list" where
  "put_census priced census =
     map (\<lambda>c. case find (\<lambda>p. census_key p = census_key c) priced of Some p \<Rightarrow> p | None \<Rightarrow> c) census
     @ filter (\<lambda>p. census_key p \<notin> set (map census_key census)) priced"

definition row_weights :: "PayRunLineProperty list \<Rightarrow> (string, decimal) dict" where
  "row_weights rows = fold (\<lambda>r. AList.update (cn_property_id r) (cn_hours r)) rows []"

definition fetch_line ::
  "db \<Rightarrow> PayRun \<Rightarrow> (string, int) dict \<Rightarrow> PayRunLineProperty list \<Rightarrow> PayRunResultLine \<Rightarrow> fetch_state \<Rightarrow> fetch_state res" where
  "fetch_line s run by_provider_id census line st =
    (case map_of by_provider_id (rl_provider_employee_id line) of
       None \<Rightarrow> Inl ValueError
     | Some e \<Rightarrow>
         (case find (\<lambda>l. ln_pay_run_id l = rn_pay_run_id run \<and> ln_employee_id l = e) (fs_lines st) of
            None \<Rightarrow> Inl ValueError
          | Some stored \<Rightarrow>
              bindE (require_not_none (get_employee s e)) (\<lambda>_.
              bindE (primary_assignment_on s e (rn_period_end run)) (\<lambda>primary.
              bindE (line_census s run census (fs_census st) stored) (\<lambda>rows.
              bindE (apportion id (rl_gross line) (row_weights rows) CENTS) (\<lambda>gross_shares.
              bindE (apportion id (rl_employer_taxes line) (row_weights rows) CENTS) (\<lambda>burden_shares.
              bindE (mapE (price_row s e (rn_period_end run) gross_shares burden_shares) (sort_key cn_property_id rows)) (\<lambda>priced.
                Inr \<lparr>fs_lines = map (\<lambda>l. if ln_pay_run_id l = rn_pay_run_id run \<and> ln_employee_id l = e
                       then l\<lparr>ln_gross := rl_gross line, ln_employee_taxes := rl_employee_taxes line,
                              ln_employer_taxes := rl_employer_taxes line, ln_net := rl_net line,
                              ln_department_id := Option.bind primary ea_department_id\<rparr> else l) (fs_lines st),
                     fs_census = put_census priced (fs_census st),
                     fs_agg = fold (\<lambda>r. agg_add (cn_property_id r, cn_department_id r) (cn_hours r, cn_gross r, cn_employer_burden r)) priced (fs_agg st),
                     fs_written = fs_written st + 1\<rparr>))))))))"

section \<open>The fetch\<close>

definition fact_of_agg :: "PayRun \<Rightarrow> (string \<times> int option) \<times> decimal \<times> decimal \<times> decimal \<Rightarrow> UsaliActualLaborFact" where
  "fact_of_agg run = (\<lambda>((p, dept), (h, g, b)).
     \<lparr>af_property_id = p, af_period_start = rn_period_start run, af_period_end = rn_period_end run, af_department_id = dept,
      af_hours = h, af_gross = g, af_employer_burden = b, af_pay_run_id = rn_pay_run_id run\<rparr>)"

definition fetch_pay_run_results :: "'w PayrollProvider \<Rightarrow> 'w \<Rightarrow> pay_db \<Rightarrow> PayRun \<Rightarrow> instant \<Rightarrow> (pay_db \<times> nat) res" where
  "fetch_pay_run_results pv w s run now =
    (case rn_provider_run_id run of
       None \<Rightarrow> Inl ValueError
     | Some i \<Rightarrow>
         bindE (pv_get_pay_run pv w i) (\<lambda>result.
           if rs_status result \<noteq> ''processed'' then Inr (s, 0)
           else
             let by_provider_id = fold (\<lambda>r. AList.update (rf_provider_employee_id r) (rf_employee_id r))
                   (filter (\<lambda>r. rf_provider r = rn_provider run) (provider_refs s)) []
             in bindE (foldE (fetch_line (core s) run by_provider_id (pay_run_line_properties s)) (rs_lines result)
                    \<lparr>fs_lines = pay_run_lines s, fs_census = pay_run_line_properties s, fs_agg = [], fs_written = 0\<rparr>) (\<lambda>st.
                  Inr (set_run (rn_pay_run_id run) (\<lambda>r. r\<lparr>rn_status := ''processed'', rn_processed_at := Some now\<rparr>)
                    (s\<lparr>pay_run_lines := fs_lines st, pay_run_line_properties := fs_census st,
                       actual_labor_facts := filter (\<lambda>f. af_pay_run_id f \<noteq> rn_pay_run_id run) (actual_labor_facts s)
                         @ map (fact_of_agg run) (fs_agg st)\<rparr>), fs_written st))))"

section \<open>The handlers\<close>

definition get_run :: "pay_db \<Rightarrow> int \<Rightarrow> PayRun res" where
  "get_run s i = (case find (\<lambda>r. rn_pay_run_id r = i) (pay_runs s) of None \<Rightarrow> Inl (HTTPException 404) | Some r \<Rightarrow> Inr r)"

text \<open>The row of a failed run is committed before the 502 is raised, so the state is returned beside the answer.\<close>

definition create_run ::
  "(string \<Rightarrow> string) \<Rightarrow> opener \<Rightarrow> 'w PayrollProvider \<Rightarrow> (pay_db \<Rightarrow> pay_db) \<Rightarrow> string \<Rightarrow> string \<Rightarrow> date \<Rightarrow> date \<Rightarrow> instant
     \<Rightarrow> string \<Rightarrow> 'w \<Rightarrow> pay_db \<Rightarrow> 'w \<times> pay_db \<times> PayRun res" where
  "create_run sha256 open_env pv env provider_name subject in_period anchor now property_id w s =
    (case execute_pay_run sha256 open_env pv env provider_name subject in_period anchor now property_id w s of
       (w', Inl e) \<Rightarrow> (w', s, Inl (if e = PayRunConflict then HTTPException 409 else if e = PayRunBlocked then HTTPException 422 else e))
     | (w', Inr (s', i)) \<Rightarrow>
         (w', s', bindE (get_run s' i) (\<lambda>run. if rn_status run = ''failed'' then Inl (HTTPException 502) else Inr run)))"

definition fetch_results :: "'w PayrollProvider \<Rightarrow> string \<Rightarrow> 'w \<Rightarrow> pay_db \<Rightarrow> string \<Rightarrow> int \<Rightarrow> instant \<Rightarrow> (pay_db \<times> string \<times> nat) res" where
  "fetch_results pv provider_name w s subject i now =
     bindE (get_run s i) (\<lambda>run.
       if rn_status run \<in> {''draft'', ''failed''} then Inl (HTTPException 409)
       else if provider_name \<noteq> rn_provider run then Inl (HTTPException 409)
       else bindE (fetch_pay_run_results pv w s run now) (\<lambda>(s', n).
         bindE (get_run s' i) (\<lambda>run'. Inr (audit_run subject ''fetch_pay_run_results'' i s', rn_status run', n))))"

definition settle_run_worked_hours :: "pay_db \<Rightarrow> string \<Rightarrow> int \<Rightarrow> int \<Rightarrow> string \<Rightarrow> pay_db \<times> WageSettlement res" where
  "settle_run_worked_hours s subject i employee_id note =
    (let refused = audit_run subject ''settle_worked_hours_refused'' i s in
     case get_run s i of
       Inl e \<Rightarrow> (refused, Inl e)
     | Inr run \<Rightarrow>
         (case settle_worked_hours s run employee_id subject note of
            Inl SettlementNotFound \<Rightarrow> (refused, Inl (HTTPException 404))
          | Inl SettlementRefused \<Rightarrow> (refused, Inl (HTTPException 409))
          | Inl e \<Rightarrow> (s, Inl e)
          | Inr (s', w) \<Rightarrow>
              (s'\<lparr>core := core s'\<lparr>audit_events := audit_events (core s') @
                 [\<lparr>au_actor_subject = subject, au_action = ''settle_worked_hours'', au_resource_type = ''wage_settlement'',
                   au_resource_id = str_int (int (length (wage_settlements s')))\<rparr>]\<rparr>\<rparr>, Inr w)))"

end
