(* ===== verification/PayCensus.thy ===== *)
theory PayCensus
  imports PayFetch
begin

text \<open>
  The census of a submitted run and what a fetch makes of it: the hours stay as submitted, the money
  of every result line reaches the labor cost to the cent, and fetching again changes nothing.
\<close>

section \<open>The keys of the census\<close>

lemma line_weights_distinct:
  assumes "line_weights s p e d tot sick = Inr ws" "sane_cards s"
  shows "distinct (keys ws)"
proof -
  obtain row h where r: "scalar_one_or_none (filter (\<lambda>c. tc_employee_id c = e \<and> tc_period_start c = d) (timecards s)) = Inr row"
    "(case row of None \<Rightarrow> Inr [] | Some c \<Rightarrow> property_hours_for_timecard s c) = Inr h"
    "ws = (let w1 = (if sick > 0 then dict_add p sick h else h) in if w1 = [] then [(p, if tot > 0 then tot else 1)] else w1)"
    using assms(1) by (auto simp: line_weights_def inr Let_def)
  have "row = None \<and> h = [] \<or> (\<exists>c \<in> set (timecards s). property_hours_for_timecard s c = Inr h)"
    using r(1,2) by (auto simp: scalar_one_or_none_def filter_eq_Cons_iff split: option.splits list.splits)
  then have "distinct (keys h)" using property_hours_positive(1) [OF assms(2)] by auto
  then show ?thesis by (auto simp: r(3) Let_def dict_add_def distinct_update)
qed

lemma census_rows_keys:
  "map census_key (census_rows i e sh) = map (\<lambda>p. (i, e, p)) (sort (keys sh))"
proof -
  have "sort (keys sh) = map fst (sort_key fst sh)" by (rule properties_for_sort) simp_all
  then show ?thesis by (simp add: census_rows_def census_key_def case_prod_beta')
qed

lemma derived_rows_distinct:
  assumes "line_weights s p e d tot sick = Inr ws" "apportion id tot' ws CENTS = Inr sh" "sane_cards s"
  shows "distinct (map census_key (census_rows i e sh))" "\<forall>c \<in> set (census_rows i e sh). cn_pay_run_id c = i \<and> cn_employee_id c = e"
proof -
  have "distinct (keys sh)" using apportion_keys [OF assms(2)] line_weights_distinct [OF assms(1,3)] by simp
  then show "distinct (map census_key (census_rows i e sh))" by (simp add: census_rows_keys distinct_map inj_on_def)
  show "\<forall>c \<in> set (census_rows i e sh). cn_pay_run_id c = i \<and> cn_employee_id c = e" by (auto simp: census_rows_def)
qed

lemma entries_census_ids:
  assumes "mapE (entry_census s i p d) es = Inr rowss" "sane_cards s"
  shows "\<forall>c \<in> set (concat rowss). cn_pay_run_id c = i \<and> cn_employee_id c \<in> en_employee_id ` set es"
proof
  fix c
  assume "c \<in> set (concat rowss)"
  then obtain rows where "rows \<in> set rowss" "c \<in> set rows" by auto
  with mapE_set [OF assms(1)] obtain e where "e \<in> set es" "entry_census s i p d e = Inr rows" by blast
  with entry_census_exact(2) [OF _ assms(2)] \<open>c \<in> set rows\<close> show "cn_pay_run_id c = i \<and> cn_employee_id c \<in> en_employee_id ` set es" by blast
qed

lemma entries_census_distinct:
  assumes "mapE (entry_census s i p d) es = Inr rowss" "distinct (map en_employee_id es)" "sane_cards s"
  shows "distinct (map census_key (concat rowss))"
  using assms
proof (induction es arbitrary: rowss)
  case (Cons e es)
  from Cons.prems obtain rows rest where r: "entry_census s i p d e = Inr rows" "mapE (entry_census s i p d) es = Inr rest" "rowss = rows # rest" by (auto simp: inr)
  obtain ws sh where x: "line_weights s p (en_employee_id e) d (entry_total_hours e) (en_sick_hours e) = Inr ws"
      "apportion id (entry_total_hours e) ws CENTS = Inr sh" "rows = census_rows i (en_employee_id e) sh"
    using r(1) by (auto simp: entry_census_def inr)
  note d = derived_rows_distinct [OF x(1,2) assms(3), of i, folded x(3)]
  have IH: "distinct (map census_key (concat rest))" "\<forall>c \<in> set (concat rest). cn_pay_run_id c = i \<and> cn_employee_id c \<in> en_employee_id ` set es"
    using Cons.IH [OF r(2)] Cons.prems(2) assms(3) entries_census_ids [OF r(2) assms(3)] by auto
  have "census_key a \<noteq> census_key b" if "a \<in> set rows" "b \<in> set (concat rest)" for a b
  proof -
    have "cn_employee_id a = en_employee_id e" "cn_employee_id b \<in> en_employee_id ` set es" using d(2) IH(2) that by blast+
    moreover have "en_employee_id e \<notin> en_employee_id ` set es" using Cons.prems(2) by simp
    ultimately show ?thesis by (metis census_key_def prod.inject)
  qed
  then have "census_key ` set rows \<inter> census_key ` set (concat rest) = {}" by blast
  then show ?case unfolding r(3) concat.simps map_append distinct_append set_map using d(1) IH(1) by blast
qed simp

section \<open>One result line\<close>

text \<open>A line and a census row without the money and the department a fetch writes into them.\<close>

definition bare_line :: "PayRunLine \<Rightarrow> PayRunLine" where
  "bare_line l = l\<lparr>ln_gross := 0, ln_employee_taxes := 0, ln_employer_taxes := 0, ln_net := 0, ln_department_id := None\<rparr>"

definition bare_row :: "PayRunLineProperty \<Rightarrow> PayRunLineProperty" where
  "bare_row c = c\<lparr>cn_department_id := None, cn_gross := 0, cn_employer_burden := 0\<rparr>"

lemma bare_simps [simp]:
  "ln_pay_run_id (bare_line l) = ln_pay_run_id l" "ln_employee_id (bare_line l) = ln_employee_id l" "ln_hours (bare_line l) = ln_hours l"
  "census_key (bare_row c) = census_key c" "cn_pay_run_id (bare_row c) = cn_pay_run_id c" "cn_hours (bare_row c) = cn_hours c"
  "cn_employee_id (bare_row c) = cn_employee_id c" "cn_property_id (bare_row c) = cn_property_id c"
  by (simp_all add: bare_line_def bare_row_def census_key_def)

definition price_line :: "PayRunResultLine \<Rightarrow> int option \<Rightarrow> PayRunLine \<Rightarrow> PayRunLine" where
  "price_line line dept l = l\<lparr>ln_gross := rl_gross line, ln_employee_taxes := rl_employee_taxes line,
     ln_employer_taxes := rl_employer_taxes line, ln_net := rl_net line, ln_department_id := dept\<rparr>"

lemma bare_price_line [simp]: "bare_line (price_line line dept l) = bare_line l"
  by (simp add: bare_line_def price_line_def)

lemma fetch_line_inr:
  assumes "fetch_line s run ids census line st = Inr st'"
  obtains e stored dept rows gross burden priced emp primary where
    "map_of ids (rl_provider_employee_id line) = Some e"
    "find (\<lambda>l. ln_pay_run_id l = rn_pay_run_id run \<and> ln_employee_id l = e) (fs_lines st) = Some stored"
    "line_census s run census (fs_census st) stored = Inr rows"
    "apportion id (rl_gross line) (row_weights rows) CENTS = Inr gross"
    "apportion id (rl_employer_taxes line) (row_weights rows) CENTS = Inr burden"
    "mapE (price_row s e (rn_period_end run) gross burden) (sort_key cn_property_id rows) = Inr priced"
    "fs_lines st' = map (\<lambda>l. if ln_pay_run_id l = rn_pay_run_id run \<and> ln_employee_id l = e then price_line line dept l else l) (fs_lines st)"
    "fs_census st' = put_census priced (fs_census st)"
    "fs_agg st' = fold (\<lambda>r. agg_add (cn_property_id r, cn_department_id r) (cn_hours r, cn_gross r, cn_employer_burden r)) priced (fs_agg st)"
    "fs_written st' = fs_written st + 1"
    "require_not_none (get_employee s e) = Inr emp" "primary_assignment_on s e (rn_period_end run) = Inr primary" "dept = Option.bind primary ea_department_id"
proof -
  obtain e where e: "map_of ids (rl_provider_employee_id line) = Some e"
    using assms by (auto simp: fetch_line_def split: option.splits)
  obtain stored where st: "find (\<lambda>l. ln_pay_run_id l = rn_pay_run_id run \<and> ln_employee_id l = e) (fs_lines st) = Some stored"
    using assms e by (auto simp: fetch_line_def split: option.splits)
  note a = assms [unfolded fetch_line_def e option.case st]
  obtain emp primary rows gross burden priced where x:
    "require_not_none (get_employee s e) = Inr emp" "primary_assignment_on s e (rn_period_end run) = Inr primary"
    "line_census s run census (fs_census st) stored = Inr rows"
    "apportion id (rl_gross line) (row_weights rows) CENTS = Inr gross"
    "apportion id (rl_employer_taxes line) (row_weights rows) CENTS = Inr burden"
    "mapE (price_row s e (rn_period_end run) gross burden) (sort_key cn_property_id rows) = Inr priced"
    using a unfolding bindE_eq_Inr_iff by blast
  show thesis
    by (rule that [OF e st x(3-6), of "Option.bind primary ea_department_id"]) (use a in \<open>auto simp: x price_line_def\<close>)
qed

lemma price_row_bare: "price_row s e on g b row = Inr row' \<Longrightarrow> bare_row row' = bare_row row"
  by (auto simp: price_row_def inr bare_row_def)

lemma priced_bare:
  assumes "mapE (price_row s e on g b) rows = Inr priced"
  shows "map bare_row priced = map bare_row rows"
  using assms by (induction rows arbitrary: priced) (auto simp: inr price_row_bare)

lemma put_census_bare:
  assumes "\<forall>c \<in> set cs. \<forall>p \<in> set priced. census_key p = census_key c \<longrightarrow> bare_row p = bare_row c"
  shows "map bare_row (put_census priced cs) = map bare_row cs @ map bare_row (filter (\<lambda>p. census_key p \<notin> set (map census_key cs)) priced)"
proof -
  have "bare_row (case find (\<lambda>p. census_key p = census_key c) priced of Some p \<Rightarrow> p | None \<Rightarrow> c) = bare_row c" if "c \<in> set cs" for c
  proof (cases "find (\<lambda>p. census_key p = census_key c) priced")
    case (Some p)
    then have "p \<in> set priced" "census_key p = census_key c" by (auto simp: find_Some_iff)
    then show ?thesis using assms that Some by simp
  qed simp
  then show ?thesis by (simp add: put_census_def cong: map_cong)
qed

section \<open>The loop\<close>

text \<open>The tables keep their rows and hours; new rows come only for employees of the run that had none.\<close>

definition fetch_inv :: "PayRun \<Rightarrow> PayRunLine list \<Rightarrow> PayRunLineProperty list \<Rightarrow> fetch_state \<Rightarrow> bool" where
  "fetch_inv run ls census st \<longleftrightarrow> map bare_line (fs_lines st) = map bare_line ls
     \<and> (\<exists>new. map bare_row (fs_census st) = map bare_row census @ new
          \<and> (\<forall>x \<in> set new. cn_pay_run_id x = rn_pay_run_id run
               \<and> (\<forall>c \<in> set census. (cn_pay_run_id c, cn_employee_id c) \<noteq> (cn_pay_run_id x, cn_employee_id x))))
     \<and> distinct (map census_key (fs_census st))"

text \<open>Where the rows of a line come from: the stored ones, or derived ones whose keys are new.\<close>

lemma line_census_inr:
  assumes "line_census s run census now stored = Inr rows" "sane_cards s" "distinct (map census_key census)"
  obtains (stored) "rows \<noteq> []" "rows = filter (\<lambda>c. cn_pay_run_id c = rn_pay_run_id run \<and> cn_employee_id c = ln_employee_id stored) census"
      "distinct (map census_key rows)" "\<forall>c \<in> set rows. cn_pay_run_id c = rn_pay_run_id run \<and> cn_employee_id c = ln_employee_id stored"
  | (derived) "filter (\<lambda>c. cn_pay_run_id c = rn_pay_run_id run \<and> cn_employee_id c = ln_employee_id stored) census = []"
      "census_key ` set now \<inter> census_key ` set rows = {}"
      "distinct (map census_key rows)" "\<forall>c \<in> set rows. cn_pay_run_id c = rn_pay_run_id run \<and> cn_employee_id c = ln_employee_id stored"
proof (cases "filter (\<lambda>c. cn_pay_run_id c = rn_pay_run_id run \<and> cn_employee_id c = ln_employee_id stored) census = []")
  case False
  then have r: "rows = filter (\<lambda>c. cn_pay_run_id c = rn_pay_run_id run \<and> cn_employee_id c = ln_employee_id stored) census"
    using assms(1) by (simp add: line_census_def Let_def)
  have "distinct (map census_key rows)" unfolding r using assms(3) by (simp add: distinct_map inj_on_def)
  moreover have "\<forall>c \<in> set rows. cn_pay_run_id c = rn_pay_run_id run \<and> cn_employee_id c = ln_employee_id stored" unfolding r by simp
  moreover have "rows \<noteq> []" using False unfolding r .
  ultimately show thesis using stored r by blast
next
  case True
  then obtain ws sh where x: "line_weights s (rn_property_id run) (ln_employee_id stored) (rn_period_start run) (ln_hours stored) (ln_sick_hours stored) = Inr ws"
    "apportion id (ln_hours stored) ws CENTS = Inr sh" "rows = census_rows (rn_pay_run_id run) (ln_employee_id stored) sh"
    "\<not> (\<exists>c \<in> set now. census_key c \<in> census_key ` set rows)"
    using assms(1) by (auto simp: line_census_def inr Let_def split: if_splits)
  have "census_key ` set now \<inter> census_key ` set rows = {}" using x(4) by blast
  with derived True derived_rows_distinct [OF x(1,2) assms(2), of "rn_pay_run_id run", folded x(3)] show thesis by blast
qed

lemma keys_of_bare: "map census_key xs = map census_key (map bare_row xs)"
  by simp

lemma bare_key: "bare_row a = bare_row b \<Longrightarrow> census_key a = census_key b"
  by (metis bare_simps(4))

lemma fetch_line_inv:
  assumes ok: "fetch_line s run ids census line st = Inr st'" and inv: "fetch_inv run ls census st"
    and cards: "sane_cards s" and keys: "distinct (map census_key census)"
  shows "fetch_inv run ls census st'"
  using ok
proof (cases rule: fetch_line_inr)
  case (1 e stored dept rows gross burden priced emp primary)
  obtain new where new: "map bare_row (fs_census st) = map bare_row census @ new"
    "\<forall>x \<in> set new. cn_pay_run_id x = rn_pay_run_id run \<and> (\<forall>c \<in> set census. (cn_pay_run_id c, cn_employee_id c) \<noteq> (cn_pay_run_id x, cn_employee_id x))"
    and dis: "distinct (map census_key (fs_census st))" and lines: "map bare_line (fs_lines st) = map bare_line ls"
    using inv unfolding fetch_inv_def by blast
  have pb: "map bare_row priced = map bare_row (sort_key cn_property_id rows)" using priced_bare [OF 1(6)] .
  have pk: "map census_key priced = map census_key (sort_key cn_property_id rows)"
    using arg_cong [OF pb, of "map census_key"] by (simp add: comp_def)
  have pset: "bare_row ` set priced = bare_row ` set rows" using arg_cong [OF pb, of set] by simp
  have lines': "map bare_line (fs_lines st') = map bare_line ls" using lines by (simp add: 1(7) comp_def if_distrib cong: if_cong)
  have pdis: "distinct (map census_key priced)" if "distinct (map census_key rows)"
    using that by (simp add: pk distinct_map)
  from 1(3) cards keys show ?thesis
  proof (cases rule: line_census_inr)
    case stored
    have inside: "\<exists>c' \<in> set (fs_census st). bare_row c' = bare_row p" if "p \<in> set priced" for p
    proof -
      have "bare_row p \<in> bare_row ` set census" using pset that stored(2) by (metis (no_types, lifting) filter_is_subset image_eqI image_mono subsetD)
      then have "bare_row p \<in> set (map bare_row (fs_census st))" unfolding new(1) by simp
      then show ?thesis by auto
    qed
    have match: "bare_row p = bare_row c" if "c \<in> set (fs_census st)" "p \<in> set priced" "census_key p = census_key c" for c p
    proof -
      obtain c' where c': "c' \<in> set (fs_census st)" "bare_row c' = bare_row p" using inside \<open>p \<in> set priced\<close> by blast
      then have "census_key c' = census_key c" using that(3) bare_key by metis
      then have "c' = c" using dis c'(1) that(1) by (auto simp: distinct_map dest: inj_onD)
      then show ?thesis using c'(2) by simp
    qed
    have "filter (\<lambda>p. census_key p \<notin> set (map census_key (fs_census st))) priced = []"
      unfolding filter_empty_conv set_map using inside bare_key by (metis image_eqI)
    then have b: "map bare_row (fs_census st') = map bare_row (fs_census st)"
      using put_census_bare [of "fs_census st" priced] match by (simp add: 1(8))
    then have "map census_key (fs_census st') = map census_key (fs_census st)" using keys_of_bare b by metis
    then show ?thesis using lines' b new dis by (auto simp: fetch_inv_def)
  next
    case derived
    have fresh: "census_key p \<notin> census_key ` set (fs_census st)" if "p \<in> set priced" for p
    proof -
      have "census_key p \<in> set (map census_key (sort_key cn_property_id rows))" using that unfolding pk [symmetric] by simp
      then have "census_key p \<in> census_key ` set rows" by simp
      then show ?thesis using derived(2) by blast
    qed
    then have "filter (\<lambda>p. census_key p \<notin> set (map census_key (fs_census st))) priced = priced" by (auto intro: filter_True)
    then have b: "map bare_row (fs_census st') = map bare_row (fs_census st) @ map bare_row priced"
      using put_census_bare [of "fs_census st" priced] fresh by (fastforce simp: 1(8))
    then have k: "map census_key (fs_census st') = map census_key (fs_census st) @ map census_key priced"
      using keys_of_bare [of "fs_census st'"] by simp
    have "set (map census_key (fs_census st)) \<inter> set (map census_key priced) = {}" unfolding set_map disjoint_iff using fresh by (metis imageE)
    then have "distinct (map census_key (fs_census st'))" unfolding k distinct_append using dis pdis [OF derived(3)] by blast
    moreover have "\<forall>x \<in> set (map bare_row priced). cn_pay_run_id x = rn_pay_run_id run
      \<and> (\<forall>c \<in> set census. (cn_pay_run_id c, cn_employee_id c) \<noteq> (cn_pay_run_id x, cn_employee_id x))"
    proof
      fix x
      assume "x \<in> set (map bare_row priced)"
      then obtain c where "c \<in> set rows" "x = bare_row c" using pset by auto
      then have "cn_pay_run_id x = rn_pay_run_id run" "cn_employee_id x = ln_employee_id stored" using derived(4) by auto
      moreover have "\<forall>c \<in> set census. \<not> (cn_pay_run_id c = rn_pay_run_id run \<and> cn_employee_id c = ln_employee_id stored)"
        using derived(1) by (simp add: filter_empty_conv)
      ultimately show "cn_pay_run_id x = rn_pay_run_id run \<and> (\<forall>c \<in> set census. (cn_pay_run_id c, cn_employee_id c) \<noteq> (cn_pay_run_id x, cn_employee_id x))"
        by simp
    qed
    moreover have "map bare_row (fs_census st') = map bare_row census @ (new @ map bare_row priced)" unfolding b new(1) by simp
    ultimately show ?thesis using lines' new(2) unfolding fetch_inv_def
      by (intro conjI exI [of _ "new @ map bare_row priced"]) (assumption | simp add: ball_Un)+
  qed
qed

lemma fetch_loop_inv:
  assumes "foldE (fetch_line s run ids census) ls st = Inr st'" "fetch_inv run lines0 census st" "sane_cards s" "distinct (map census_key census)"
  shows "fetch_inv run lines0 census st'"
  using assms(1,2) by (rule foldE_invariant) (rule fetch_line_inv [OF _ _ assms(3,4)])

section \<open>Money and hours reach the labor cost\<close>

text \<open>One measure of the aggregate: its hours, its gross or its burden.\<close>

abbreviation measure_of :: "(decimal \<times> decimal \<times> decimal \<Rightarrow> decimal) \<Rightarrow> agg \<Rightarrow> (string \<times> int option, decimal) dict" where
  "measure_of \<pi> d \<equiv> map (\<lambda>(k, v). (k, \<pi> v)) d"

definition additive :: "(decimal \<times> decimal \<times> decimal \<Rightarrow> decimal) \<Rightarrow> bool" where
  "additive \<pi> \<longleftrightarrow> \<pi> (0, 0, 0) = 0 \<and> (\<forall>a b c a' b' c'. \<pi> (a + a', b + b', c + c') = \<pi> (a, b, c) + \<pi> (a', b', c'))"

lemma additive_proj: "additive fst" "additive (\<lambda>v. fst (snd v))" "additive (\<lambda>v. snd (snd v))"
  by (simp_all add: additive_def)

lemma measure_agg_add:
  assumes "additive \<pi>"
  shows "measure_of \<pi> (agg_add k v d) = dict_add k (\<pi> v) (measure_of \<pi> d)"
proof -
  have upd: "measure_of \<pi> (AList.update k x d) = AList.update k (\<pi> x) (measure_of \<pi> d)" for x by (induction d) auto
  have get: "dict_get (measure_of \<pi> d) k 0 = \<pi> (dict_get d k (0, 0, 0))" using assms by (induction d) (auto simp: additive_def)
  show ?thesis using assms by (cases v; cases "dict_get d k (0, 0, 0)") (auto simp: agg_add_def dict_add_def upd get additive_def)
qed

lemma agg_add_keys [simp]: "distinct (keys d) \<Longrightarrow> distinct (keys (agg_add k v d))"
  by (cases v; cases "dict_get d k (0, 0, 0)") (simp add: agg_add_def)

lemma keys_measure [simp]: "keys (measure_of \<pi> d) = keys d"
  by (induction d) auto

lemma measure_add: "distinct (keys d) \<Longrightarrow> dict_sum (dict_add k v (measure_of \<pi> d)) = dict_sum (measure_of \<pi> d) + v"
  by (rule dict_sum_add) (simp only: keys_measure)

lemma update_new_key: "k \<notin> set (keys d) \<Longrightarrow> AList.update k v d = d @ [(k, v)]"
  by (induction d) auto

lemma measure_fold:
  assumes "additive \<pi>" "distinct (keys d)"
  shows "dict_sum (measure_of \<pi> (fold (\<lambda>r. agg_add (f r) (g r)) rs d)) = dict_sum (measure_of \<pi> d) + sum_list (map (\<lambda>r. \<pi> (g r)) rs)"
    "distinct (keys (fold (\<lambda>r. agg_add (f r) (g r)) rs d))"
  using assms(2) by (induction rs arbitrary: d) (simp_all add: measure_agg_add [OF assms(1)] measure_add)

lemma row_weights_map:
  assumes "distinct (map cn_property_id rows)"
  shows "row_weights rows = map (\<lambda>r. (cn_property_id r, cn_hours r)) rows"
proof -
  have "fold (\<lambda>r. AList.update (cn_property_id r) (cn_hours r)) rs d = d @ map (\<lambda>r. (cn_property_id r, cn_hours r)) rs"
    if "distinct (keys d @ map cn_property_id rs)" for rs and d :: "(string, decimal) dict"
    using that by (induction rs arbitrary: d) (simp_all add: update_new_key)
  from this [of "[]" rows] assms show ?thesis by (simp add: row_weights_def)
qed

text \<open>The shares of the rows add up to the line.\<close>

lemma share_sum:
  assumes ap: "apportion id tot (row_weights rows) CENTS = Inr sh" and dis: "distinct (map cn_property_id rows)"
    and pos: "0 < sum_list (map cn_hours rows)"
  shows "sum_list (map (\<lambda>r. dict_get sh (cn_property_id r) 0) rows) = tot" "set (keys sh) = cn_property_id ` set rows"
proof -
  have w: "row_weights rows = map (\<lambda>r. (cn_property_id r, cn_hours r)) rows" by (rule row_weights_map [OF dis])
  have ks: "keys sh = sort (map cn_property_id rows)" using apportion_keys [OF ap] by (simp add: w comp_def id_def)
  then have dk: "distinct (keys sh)" using dis by simp
  have "sum_list (map (\<lambda>r. dict_get sh (cn_property_id r) 0) rows) = sum_list (map (\<lambda>k. dict_get sh k 0) (map cn_property_id rows))" by (simp add: comp_def)
  also have "\<dots> = sum_list (map (\<lambda>k. dict_get sh k 0) (keys sh))" unfolding ks by (rule sum_list_map_perm) simp
  also have "\<dots> = dict_sum sh" using dk by (simp add: dict_sum_def comp_def dict_get_eqI cong: map_cong)
  also have "\<dots> = tot" using apportion_sum [OF ap] pos by (simp add: w dict_sum_def comp_def)
  finally show "sum_list (map (\<lambda>r. dict_get sh (cn_property_id r) 0) rows) = tot" .
  show "set (keys sh) = cn_property_id ` set rows" unfolding ks by simp
qed

lemma priced_money:
  assumes "mapE (price_row s e on g b) rows = Inr priced"
  shows "map cn_gross priced = map (\<lambda>r. dict_get g (cn_property_id r) 0) rows"
    "map cn_employer_burden priced = map (\<lambda>r. dict_get b (cn_property_id r) 0) rows"
  using assms
proof (induction rows arbitrary: priced)
  case (Cons r rows)
  { case 1 then show ?case using Cons.IH(1) by (auto simp: inr price_row_def dict_index_def dict_get_def split: option.splits) }
  { case 2 then show ?case using Cons.IH(2) by (auto simp: inr price_row_def dict_index_def dict_get_def split: option.splits) }
qed simp_all

lemma rows_properties_distinct:
  assumes "distinct (map census_key rows)" "\<forall>c \<in> set rows. cn_pay_run_id c = i \<and> cn_employee_id c = e"
  shows "distinct (map cn_property_id rows)"
proof -
  have e: "map census_key rows = map (\<lambda>p. (i, e, p)) (map cn_property_id rows)" using assms(2) by (simp add: census_key_def)
  show ?thesis using assms(1) unfolding e distinct_map [of "\<lambda>p. (i, e, p)"] by blast
qed

text \<open>
  The hours of every line of the run are known, positive, and where its census is stored, what the
  census adds up to.  A submission leaves a run like that.
\<close>

definition census_matches :: "pay_db \<Rightarrow> PayRun \<Rightarrow> bool" where
  "census_matches s run \<longleftrightarrow> (\<forall>l \<in> set (pay_run_lines s). ln_pay_run_id l = rn_pay_run_id run \<longrightarrow> 0 < ln_hours l
     \<and> (let rows = filter (\<lambda>c. cn_pay_run_id c = rn_pay_run_id run \<and> cn_employee_id c = ln_employee_id l) (pay_run_line_properties s)
        in rows \<noteq> [] \<longrightarrow> sum_list (map cn_hours rows) = ln_hours l))"

lemma derived_rows_sum:
  assumes "line_weights s p e d tot sick = Inr ws" "apportion id h ws CENTS = Inr sh" "sane_cards s"
  shows "sum_list (map cn_hours (census_rows i e sh)) = h"
proof -
  have "sum_list (map cn_hours (census_rows i e sh)) = sum_list (map snd (sort_key fst sh))" by (simp add: census_rows_def comp_def case_prod_beta')
  also have "\<dots> = dict_sum sh" unfolding dict_sum_def by (rule sum_list_map_perm) simp
  finally show ?thesis using apportion_sum [OF assms(2) line_weights_positive [OF assms(1,3)]] by simp
qed

lemma line_census_hours:
  assumes ok: "line_census (core s) run (pay_run_line_properties s) now stored = Inr rows" and m: "census_matches s run"
    and l: "l \<in> set (pay_run_lines s)" "bare_line l = bare_line stored" "ln_pay_run_id stored = rn_pay_run_id run"
    and cards: "sane_cards (core s)"
  shows "sum_list (map cn_hours rows) = ln_hours stored" "0 < ln_hours stored"
proof -
  have eq: "ln_pay_run_id l = ln_pay_run_id stored" "ln_employee_id l = ln_employee_id stored" "ln_hours l = ln_hours stored"
    using l(2) by (metis bare_simps(1), metis bare_simps(2), metis bare_simps(3))
  define stored_rows where "stored_rows = filter (\<lambda>c. cn_pay_run_id c = rn_pay_run_id run \<and> cn_employee_id c = ln_employee_id stored) (pay_run_line_properties s)"
  have h: "0 < ln_hours stored" "stored_rows \<noteq> [] \<Longrightarrow> sum_list (map cn_hours stored_rows) = ln_hours stored"
  proof -
    have "ln_pay_run_id l = rn_pay_run_id run" using l(3) eq by simp
    with m l(1) have a: "0 < ln_hours l \<and> (let rows = filter (\<lambda>c. cn_pay_run_id c = rn_pay_run_id run \<and> cn_employee_id c = ln_employee_id l) (pay_run_line_properties s)
        in rows \<noteq> [] \<longrightarrow> sum_list (map cn_hours rows) = ln_hours l)" unfolding census_matches_def by blast
    show "0 < ln_hours stored" "stored_rows \<noteq> [] \<Longrightarrow> sum_list (map cn_hours stored_rows) = ln_hours stored"
      using a unfolding eq Let_def stored_rows_def by blast+
  qed
  show "0 < ln_hours stored" by (rule h)
  show "sum_list (map cn_hours rows) = ln_hours stored"
  proof (cases "stored_rows = []")
    case False
    then show ?thesis using ok h(2) by (simp add: line_census_def Let_def flip: stored_rows_def)
  next
    case True
    then obtain ws sh where x: "line_weights (core s) (rn_property_id run) (ln_employee_id stored) (rn_period_start run) (ln_hours stored) (ln_sick_hours stored) = Inr ws"
      "apportion id (ln_hours stored) ws CENTS = Inr sh" "rows = census_rows (rn_pay_run_id run) (ln_employee_id stored) sh"
      using ok by (auto simp: line_census_def inr Let_def stored_rows_def [symmetric] split: if_splits)
    show ?thesis unfolding x(3) by (rule derived_rows_sum [OF x(1,2) cards])
  qed
qed

text \<open>One result line adds its gross, its employer taxes and its hours to the aggregate.\<close>

lemma fetch_line_money:
  assumes ok: "fetch_line (core s) run ids (pay_run_line_properties s) line st = Inr st'"
    and inv: "fetch_inv run (pay_run_lines s) (pay_run_line_properties s) st"
    and m: "census_matches s run" and cards: "sane_cards (core s)" and keys: "distinct (map census_key (pay_run_line_properties s))"
    and agg: "distinct (keys (fs_agg st))"
  shows "dict_sum (measure_of (\<lambda>v. fst (snd v)) (fs_agg st')) = dict_sum (measure_of (\<lambda>v. fst (snd v)) (fs_agg st)) + rl_gross line
    \<and> dict_sum (measure_of (\<lambda>v. snd (snd v)) (fs_agg st')) = dict_sum (measure_of (\<lambda>v. snd (snd v)) (fs_agg st)) + rl_employer_taxes line
    \<and> distinct (keys (fs_agg st'))"
  using ok
proof (cases rule: fetch_line_inr)
  case (1 e stored dept rows gross burden priced emp primary)
  have st: "stored \<in> set (fs_lines st)" "ln_pay_run_id stored = rn_pay_run_id run" using 1(2) by (auto simp: find_Some_iff)
  have "bare_line stored \<in> set (map bare_line (pay_run_lines s))"
    using st(1) inv unfolding fetch_inv_def by (metis image_eqI set_map)
  then obtain l where l: "l \<in> set (pay_run_lines s)" "bare_line l = bare_line stored" by auto
  have "0 < sum_list (map cn_hours rows)" using line_census_hours [OF 1(3) m l st(2) cards] by simp
  moreover from 1(3) cards keys have "distinct (map cn_property_id rows)"
    by (cases rule: line_census_inr) (blast intro: rows_properties_distinct)+
  ultimately have gs: "sum_list (map (\<lambda>r. dict_get gross (cn_property_id r) 0) rows) = rl_gross line"
    and bs: "sum_list (map (\<lambda>r. dict_get burden (cn_property_id r) 0) rows) = rl_employer_taxes line"
    using share_sum(1) [OF 1(4)] share_sum(1) [OF 1(5)] by blast+
  have perm: "sum_list (map f (sort_key cn_property_id rows)) = sum_list (map f rows)" for f :: "PayRunLineProperty \<Rightarrow> decimal"
    by (rule sum_list_map_perm) simp
  have "sum_list (map cn_gross priced) = rl_gross line" "sum_list (map cn_employer_burden priced) = rl_employer_taxes line"
    unfolding priced_money [OF 1(6)] perm by (fact gs, fact bs)
  then show ?thesis
    unfolding 1(9) measure_fold(1) [OF additive_proj(2) agg] measure_fold(1) [OF additive_proj(3) agg] fst_conv snd_conv
    by (intro conjI measure_fold(2) [OF additive_proj(1) agg]) simp_all
qed

text \<open>The state a processed result leaves.\<close>

lemma fetch_results_inr:
  assumes "fetch_pay_run_results pv w s run now = Inr (s', n)" "rn_provider_run_id run = Some i" "pv_get_pay_run pv w i = Inr result"
    "rs_status result = ''processed''"
  obtains ids st where
    "ids = fold (\<lambda>r. AList.update (rf_provider_employee_id r) (rf_employee_id r)) (filter (\<lambda>r. rf_provider r = rn_provider run) (provider_refs s)) []"
    "foldE (fetch_line (core s) run ids (pay_run_line_properties s)) (rs_lines result)
       \<lparr>fs_lines = pay_run_lines s, fs_census = pay_run_line_properties s, fs_agg = [], fs_written = 0\<rparr> = Inr st"
    "s' = set_run (rn_pay_run_id run) (\<lambda>r. r\<lparr>rn_status := ''processed'', rn_processed_at := Some now\<rparr>)
        (s\<lparr>pay_run_lines := fs_lines st, pay_run_line_properties := fs_census st,
           actual_labor_facts := filter (\<lambda>f. af_pay_run_id f \<noteq> rn_pay_run_id run) (actual_labor_facts s) @ map (fact_of_agg run) (fs_agg st)\<rparr>)"
    "n = fs_written st"
  using assms by (auto simp: fetch_pay_run_results_def inr Let_def)

lemma fetch_inv_start:
  assumes "distinct (map census_key census)"
  shows "fetch_inv run ls census \<lparr>fs_lines = ls, fs_census = census, fs_agg = [], fs_written = 0\<rparr>"
  using assms by (simp add: fetch_inv_def)

definition money_inv :: "PayRun \<Rightarrow> pay_db \<Rightarrow> fetch_state \<Rightarrow> decimal \<Rightarrow> decimal \<Rightarrow> nat \<Rightarrow> bool" where
  "money_inv run s st gross burden n \<longleftrightarrow> fetch_inv run (pay_run_lines s) (pay_run_line_properties s) st \<and> distinct (keys (fs_agg st))
     \<and> dict_sum (measure_of (\<lambda>v. fst (snd v)) (fs_agg st)) = gross
     \<and> dict_sum (measure_of (\<lambda>v. snd (snd v)) (fs_agg st)) = burden \<and> fs_written st = n"

lemma fetch_loop_money:
  assumes "foldE (fetch_line (core s) run ids (pay_run_line_properties s)) ls st = Inr st'" "money_inv run s st g b n"
    and m: "census_matches s run" and cards: "sane_cards (core s)" and keys: "distinct (map census_key (pay_run_line_properties s))"
  shows "money_inv run s st' (g + sum_list (map rl_gross ls)) (b + sum_list (map rl_employer_taxes ls)) (n + length ls)"
  using assms(1,2)
proof (induction ls arbitrary: st g b n)
  case (Cons line ls)
  then obtain st1 where st1: "fetch_line (core s) run ids (pay_run_line_properties s) line st = Inr st1"
    "foldE (fetch_line (core s) run ids (pay_run_line_properties s)) ls st1 = Inr st'" by (auto simp: inr)
  have inv: "fetch_inv run (pay_run_lines s) (pay_run_line_properties s) st" "distinct (keys (fs_agg st))" using Cons.prems(2) by (simp_all add: money_inv_def)
  from st1(1) have "fs_written st1 = fs_written st + 1" by (rule fetch_line_inr)
  then have "money_inv run s st1 (g + rl_gross line) (b + rl_employer_taxes line) (n + 1)"
    using fetch_line_money [OF st1(1) inv(1) m cards keys inv(2)] fetch_line_inv [OF st1(1) inv(1) cards keys] Cons.prems(2)
    unfolding money_inv_def by simp
  from Cons.IH [OF st1(2) this] show ?case by (simp add: add.assoc)
qed simp

text \<open>
  C4. A fetch conserves money: for a run whose census is the one its submission wrote, the labor cost filed for the run
  adds up to the provider's result to the cent, gross and employer taxes alike, whatever properties and departments
  it is split over; the hours and the rows of the census and of the lines stay as submitted, and the labor cost of
  other runs is left alone.
\<close>

theorem fetch_conserves_money:
  assumes "fetch_pay_run_results pv w s run now = Inr (s', n)" "rn_provider_run_id run = Some i" "pv_get_pay_run pv w i = Inr result"
    and "rs_status result = ''processed''" "census_matches s run" "sane_cards (core s)" "distinct (map census_key (pay_run_line_properties s))"
  shows "sum_list (map af_gross (filter (\<lambda>f. af_pay_run_id f = rn_pay_run_id run) (actual_labor_facts s'))) = sum_list (map rl_gross (rs_lines result))
    \<and> sum_list (map af_employer_burden (filter (\<lambda>f. af_pay_run_id f = rn_pay_run_id run) (actual_labor_facts s')))
        = sum_list (map rl_employer_taxes (rs_lines result))
    \<and> n = length (rs_lines result)
    \<and> filter (\<lambda>f. af_pay_run_id f \<noteq> rn_pay_run_id run) (actual_labor_facts s') = filter (\<lambda>f. af_pay_run_id f \<noteq> rn_pay_run_id run) (actual_labor_facts s)
    \<and> map bare_line (pay_run_lines s') = map bare_line (pay_run_lines s)
    \<and> (\<exists>new. map bare_row (pay_run_line_properties s') = map bare_row (pay_run_line_properties s) @ new)"
  using assms(1-4)
proof (cases rule: fetch_results_inr)
  case (1 ids st)
  have "money_inv run s \<lparr>fs_lines = pay_run_lines s, fs_census = pay_run_line_properties s, fs_agg = [], fs_written = 0\<rparr> 0 0 0"
    using fetch_inv_start [OF assms(7)] by (simp add: money_inv_def)
  from fetch_loop_money [OF 1(2) this assms(5-7)]
  have inv: "money_inv run s st (sum_list (map rl_gross (rs_lines result))) (sum_list (map rl_employer_taxes (rs_lines result))) (length (rs_lines result))"
    by simp
  have facts: "actual_labor_facts s' = filter (\<lambda>f. af_pay_run_id f \<noteq> rn_pay_run_id run) (actual_labor_facts s) @ map (fact_of_agg run) (fs_agg st)"
    "pay_run_lines s' = fs_lines st" "pay_run_line_properties s' = fs_census st" by (simp_all add: 1(3) set_run_def)
  have new: "af_pay_run_id (fact_of_agg run x) = rn_pay_run_id run" "af_gross (fact_of_agg run x) = fst (snd (snd x))"
    "af_employer_burden (fact_of_agg run x) = snd (snd (snd x))" for x by (simp_all add: fact_of_agg_def case_prod_beta')
  have "filter (\<lambda>f. af_pay_run_id f = rn_pay_run_id run) (actual_labor_facts s') = map (fact_of_agg run) (fs_agg st)"
    "filter (\<lambda>f. af_pay_run_id f \<noteq> rn_pay_run_id run) (actual_labor_facts s') = filter (\<lambda>f. af_pay_run_id f \<noteq> rn_pay_run_id run) (actual_labor_facts s)"
    unfolding facts(1) using new(1) by (simp_all add: filter_map comp_def)
  then show ?thesis using inv 1(4) unfolding facts(2,3) money_inv_def fetch_inv_def dict_sum_def
    by (auto simp: comp_def case_prod_beta' new)
qed

section \<open>Fetching again\<close>

text \<open>A function that leaves a record of a given key alone, or makes one fixed record of every record of that key.\<close>

definition overwrites :: "('a \<Rightarrow> 'k) \<Rightarrow> ('a \<Rightarrow> 'a) \<Rightarrow> bool" where
  "overwrites key u \<longleftrightarrow> (\<forall>k. (\<forall>y. key y = k \<longrightarrow> u y = y) \<or> (\<exists>c. key c = k \<and> (\<forall>y. key y = k \<longrightarrow> u y = c)))"

lemma overwrites_key: "overwrites key u \<Longrightarrow> key (u x) = key x"
  unfolding overwrites_def by metis

lemma overwrites_idem: "overwrites key u \<Longrightarrow> u (u x) = u x"
  unfolding overwrites_def by metis

lemma overwrites_comp:
  assumes "overwrites key u" "overwrites key v"
  shows "overwrites key (\<lambda>x. v (u x))"
  unfolding overwrites_def
proof
  fix k
  have v: "(\<forall>y. key y = k \<longrightarrow> v y = y) \<or> (\<exists>c. key c = k \<and> (\<forall>y. key y = k \<longrightarrow> v y = c))" using assms(2) unfolding overwrites_def by blast
  from assms(1) have "(\<forall>y. key y = k \<longrightarrow> u y = y) \<or> (\<exists>c. key c = k \<and> (\<forall>y. key y = k \<longrightarrow> u y = c))" unfolding overwrites_def by blast
  then show "(\<forall>y. key y = k \<longrightarrow> v (u y) = y) \<or> (\<exists>c. key c = k \<and> (\<forall>y. key y = k \<longrightarrow> v (u y) = c))"
  proof
    assume "\<forall>y. key y = k \<longrightarrow> u y = y"
    with v show ?thesis by simp
  next
    assume "\<exists>c. key c = k \<and> (\<forall>y. key y = k \<longrightarrow> u y = c)"
    then obtain c where c: "key c = k" "\<forall>y. key y = k \<longrightarrow> u y = c" by blast
    have "key (v c) = k" using overwrites_key [OF assms(2)] c(1) by metis
    with c show ?thesis by (intro disjI2 exI [of _ "v c"] conjI allI impI) simp_all
  qed
qed

text \<open>Applying a list of functions, the first one first.\<close>

definition chain :: "('a \<Rightarrow> 'a) list \<Rightarrow> 'a \<Rightarrow> 'a" where
  "chain us x = fold (\<lambda>u y. u y) us x"

lemma chain_simps [simp]: "chain [] x = x" "chain (u # us) x = chain us (u x)"
  by (simp_all add: chain_def)

lemma overwrites_chain: "\<forall>u \<in> set us. overwrites key u \<Longrightarrow> overwrites key (chain us)"
proof (induction us)
  case Nil
  then show ?case by (simp add: overwrites_def chain_def)
next
  case (Cons u us)
  then have "overwrites key u" "overwrites key (chain us)" by simp_all
  then have "overwrites key (\<lambda>x. chain us (u x))" by (rule overwrites_comp)
  moreover have "chain (u # us) = (\<lambda>x. chain us (u x))" by (simp add: fun_eq_iff)
  ultimately show ?case by simp
qed

text \<open>What a priced line does to a census row.\<close>

definition put_row :: "PayRunLineProperty list \<Rightarrow> PayRunLineProperty \<Rightarrow> PayRunLineProperty" where
  "put_row priced c = (case find (\<lambda>p. census_key p = census_key c) priced of Some p \<Rightarrow> p | None \<Rightarrow> c)"

lemma put_row_overwrites: "overwrites census_key (put_row priced)"
  unfolding overwrites_def
proof
  fix k
  show "(\<forall>y. census_key y = k \<longrightarrow> put_row priced y = y) \<or> (\<exists>c. census_key c = k \<and> (\<forall>y. census_key y = k \<longrightarrow> put_row priced y = c))"
  proof (cases "find (\<lambda>p. census_key p = k) priced")
    case None
    then show ?thesis by (auto simp: put_row_def)
  next
    case (Some p)
    then have "census_key p = k" by (auto simp: find_Some_iff)
    with Some show ?thesis by (intro disjI2 exI [of _ p]) (auto simp: put_row_def)
  qed
qed

definition line_update :: "PayRun \<Rightarrow> PayRunResultLine \<Rightarrow> int \<Rightarrow> int option \<Rightarrow> PayRunLine \<Rightarrow> PayRunLine" where
  "line_update run line e dept l = (if ln_pay_run_id l = rn_pay_run_id run \<and> ln_employee_id l = e then price_line line dept l else l)"

lemma line_update_overwrites: "overwrites bare_line (line_update run line e dept)"
  unfolding overwrites_def
proof
  fix k
  show "(\<forall>y. bare_line y = k \<longrightarrow> line_update run line e dept y = y)
      \<or> (\<exists>c. bare_line c = k \<and> (\<forall>y. bare_line y = k \<longrightarrow> line_update run line e dept y = c))"
  proof (cases "bare_line k = k \<and> ln_pay_run_id k = rn_pay_run_id run \<and> ln_employee_id k = e")
    case True
    have "line_update run line e dept y = price_line line dept k" if "bare_line y = k" for y
    proof -
      have "price_line line dept y = price_line line dept (bare_line y)" by (simp add: price_line_def bare_line_def)
      moreover have "ln_pay_run_id y = ln_pay_run_id k" "ln_employee_id y = ln_employee_id k" using that by auto
      ultimately show ?thesis using True that by (simp add: line_update_def)
    qed
    then show ?thesis using True bare_price_line by metis
  next
    case False
    have "line_update run line e dept y = y" if "bare_line y = k" for y
    proof -
      have "bare_line k = k" using that by (auto simp: bare_line_def)
      then have "\<not> (ln_pay_run_id y = rn_pay_run_id run \<and> ln_employee_id y = e)" using False that by auto
      then show ?thesis unfolding line_update_def by (rule if_not_P)
    qed
    then show ?thesis by blast
  qed
qed

text \<open>The effect of a line whose census is stored: it does not depend on what the lines before it changed.\<close>

definition act :: "(PayRunLine \<Rightarrow> PayRunLine) \<times> PayRunLineProperty list \<Rightarrow> fetch_state \<Rightarrow> fetch_state" where
  "act = (\<lambda>(u, priced) st. \<lparr>fs_lines = map u (fs_lines st), fs_census = put_census priced (fs_census st),
     fs_agg = fold (\<lambda>r. agg_add (cn_property_id r, cn_department_id r) (cn_hours r, cn_gross r, cn_employer_burden r)) priced (fs_agg st),
     fs_written = fs_written st + 1\<rparr>)"

text \<open>Every line of the run has stored census rows: it was submitted with them.\<close>

definition census_stored :: "pay_db \<Rightarrow> PayRun \<Rightarrow> bool" where
  "census_stored s run \<longleftrightarrow> (\<forall>l \<in> set (pay_run_lines s). ln_pay_run_id l = rn_pay_run_id run \<longrightarrow>
     (\<exists>c \<in> set (pay_run_line_properties s). cn_pay_run_id c = rn_pay_run_id run \<and> cn_employee_id c = ln_employee_id l))"

lemma map_insort_bare: "map bare_row (insort_key cn_property_id x xs) = insort_key cn_property_id (bare_row x) (map bare_row xs)"
  by (induction xs) simp_all

lemma map_sort_bare: "map bare_row (sort_key cn_property_id xs) = sort_key cn_property_id (map bare_row xs)"
  by (induction xs) (simp_all add: map_insort_bare)

lemma filter_bare:
  assumes "\<And>c. P (bare_row c) = P c"
  shows "map bare_row (filter P xs) = filter P (map bare_row xs)"
  using assms by (induction xs) simp_all

lemma row_weights_bare: "row_weights rows = row_weights (map bare_row rows)"
proof -
  have "fold (\<lambda>r. AList.update (cn_property_id r) (cn_hours r)) rows d = fold (\<lambda>r. AList.update (cn_property_id r) (cn_hours r)) (map bare_row rows) d" for d
    by (induction rows arbitrary: d) simp_all
  then show ?thesis by (simp add: row_weights_def)
qed

lemma price_row_of_bare: "price_row s e on g b (bare_row row) = price_row s e on g b row"
  by (simp add: price_row_def) (simp add: bare_row_def)

lemma priced_of_bare:
  assumes "map bare_row xs = map bare_row ys"
  shows "mapE (price_row s e on g b) xs = mapE (price_row s e on g b) ys"
proof -
  have "mapE (price_row s e on g b) (map bare_row zs) = mapE (price_row s e on g b) zs" for zs
    by (induction zs) (simp_all add: price_row_of_bare)
  then show ?thesis using assms by metis
qed

lemma line_census_stored:
  assumes "c \<in> set census" "cn_pay_run_id c = rn_pay_run_id run" "cn_employee_id c = ln_employee_id stored"
  shows "line_census s run census now stored = Inr (filter (\<lambda>c. cn_pay_run_id c = rn_pay_run_id run \<and> cn_employee_id c = ln_employee_id stored) census)"
proof -
  have "filter (\<lambda>c. cn_pay_run_id c = rn_pay_run_id run \<and> cn_employee_id c = ln_employee_id stored) census \<noteq> []"
    using assms by (auto simp: filter_empty_conv)
  then show ?thesis by (simp add: line_census_def Let_def)
qed

lemma find_bare_line:
  assumes "map bare_line xs = map bare_line ys" "find (\<lambda>l. ln_pay_run_id l = i \<and> ln_employee_id l = e) xs = Some a"
  obtains b where "find (\<lambda>l. ln_pay_run_id l = i \<and> ln_employee_id l = e) ys = Some b" "ln_employee_id b = e"
proof -
  have a: "a \<in> set xs" "ln_pay_run_id a = i" "ln_employee_id a = e" using assms(2) by (auto simp: find_Some_iff)
  then have "bare_line a \<in> bare_line ` set ys" using assms(1) by (metis image_eqI set_map)
  then obtain y where y: "y \<in> set ys" "bare_line y = bare_line a" by auto
  then have "ln_pay_run_id y = i" "ln_employee_id y = e" using a(2,3) by (metis bare_simps(1), metis bare_simps(2))
  with y(1) have "find (\<lambda>l. ln_pay_run_id l = i \<and> ln_employee_id l = e) ys \<noteq> None" by (auto simp: find_None_iff)
  then obtain b where b: "find (\<lambda>l. ln_pay_run_id l = i \<and> ln_employee_id l = e) ys = Some b" by blast
  then have "ln_employee_id b = e" by (auto simp: find_Some_iff)
  with b that show thesis by blast
qed

definition same_run :: "PayRun \<Rightarrow> PayRun \<Rightarrow> bool" where
  "same_run a b \<longleftrightarrow> rn_pay_run_id a = rn_pay_run_id b \<and> rn_property_id a = rn_property_id b \<and> rn_period_start a = rn_period_start b
     \<and> rn_period_end a = rn_period_end b"

lemma fetch_line_effect:
  assumes ok: "fetch_line s run ids census line st = Inr st'" and lines: "map bare_line (fs_lines st) = map bare_line ls"
    and stored: "\<forall>l \<in> set ls. ln_pay_run_id l = rn_pay_run_id run \<longrightarrow> (\<exists>c \<in> set census. cn_pay_run_id c = rn_pay_run_id run \<and> cn_employee_id c = ln_employee_id l)"
    and again: "same_run run run2" "map bare_row census2 = map bare_row census"
  shows "\<exists>u priced. overwrites bare_line u \<and> bare_row ` set priced \<subseteq> bare_row ` set census \<and> st' = act (u, priced) st
    \<and> (\<forall>st2. map bare_line (fs_lines st2) = map bare_line ls \<longrightarrow> fetch_line s run2 ids census2 line st2 = Inr (act (u, priced) st2))"
  using ok
proof (cases rule: fetch_line_inr)
  case (1 e stored dept rows gross burden priced emp primary)
  define P where "P = (\<lambda>c :: PayRunLineProperty. cn_pay_run_id c = rn_pay_run_id run \<and> cn_employee_id c = e)"
  have e: "ln_employee_id stored = e" "ln_pay_run_id stored = rn_pay_run_id run" "stored \<in> set (fs_lines st)" using 1(2) by (auto simp: find_Some_iff)
  have "bare_line stored \<in> bare_line ` set ls" using e(3) lines by (metis image_eqI set_map)
  then obtain l where "l \<in> set ls" "bare_line l = bare_line stored" by auto
  then have "l \<in> set ls" "ln_pay_run_id l = rn_pay_run_id run" "ln_employee_id l = e" using e(1,2) by (metis, metis bare_simps(1), metis bare_simps(2))
  then obtain c where c: "c \<in> set census" "cn_pay_run_id c = rn_pay_run_id run" "cn_employee_id c = e" using stored by blast
  have rows: "rows = filter P census"
    using 1(3) line_census_stored [OF c(1,2), of stored s "fs_census st"] c(3) e(1) by (simp add: P_def)
  define rows2 where "rows2 = filter P census2"
  have same: "map bare_row rows2 = map bare_row rows"
    unfolding rows rows2_def using again(2) by (simp add: filter_bare P_def)
  have "bare_row c \<in> bare_row ` set census2" using c(1) again(2) by (metis image_eqI set_map)
  then obtain c2 where "c2 \<in> set census2" "bare_row c2 = bare_row c" by auto
  then have c2: "c2 \<in> set census2" "cn_pay_run_id c2 = rn_pay_run_id run" "cn_employee_id c2 = e"
    using c(2,3) by (metis, metis bare_simps(5), metis bare_simps(7))
  have w: "row_weights rows2 = row_weights rows" using same row_weights_bare by metis
  have p: "mapE (price_row s e (rn_period_end run) gross burden) (sort_key cn_property_id rows2) = Inr priced"
    using 1(6) priced_of_bare [of "sort_key cn_property_id rows2" "sort_key cn_property_id rows"] same by (simp add: map_sort_bare)
  have run2: "rn_pay_run_id run2 = rn_pay_run_id run" "rn_property_id run2 = rn_property_id run" "rn_period_end run2 = rn_period_end run"
    "rn_period_start run2 = rn_period_start run" using again(1) by (auto simp: same_run_def)
  have "fetch_line s run2 ids census2 line st2 = Inr (act (line_update run line e dept, priced) st2)" if st2: "map bare_line (fs_lines st2) = map bare_line ls" for st2
  proof -
    have "map bare_line (fs_lines st) = map bare_line (fs_lines st2)" using lines st2 by simp
    from find_bare_line [OF this 1(2)] obtain b where b:
      "find (\<lambda>l. ln_pay_run_id l = rn_pay_run_id run \<and> ln_employee_id l = e) (fs_lines st2) = Some b" "ln_employee_id b = e" by blast
    have lc: "line_census s run2 census2 (fs_census st2) b = Inr rows2"
      using line_census_stored [of c2 census2 run2 b s "fs_census st2"] c2 b(2) run2(1) by (simp add: rows2_def P_def)
    show ?thesis
      unfolding fetch_line_def 1(1) option.case run2 b(1) 1(11) 1(12) bindE_simps lc w 1(4) 1(5) p
      by (simp add: act_def line_update_def price_line_def 1(13))
  qed
  moreover have "st' = act (line_update run line e dept, priced) st"
    by (rule fetch_state.equality) (simp_all add: act_def 1(7-10) line_update_def)
  moreover have "bare_row ` set priced \<subseteq> bare_row ` set census"
  proof -
    have "bare_row ` set priced = bare_row ` set rows" using arg_cong [OF priced_bare [OF 1(6)], of set] by simp
    then show ?thesis unfolding rows by auto
  qed
  ultimately show ?thesis using line_update_overwrites by blast
qed

lemma act_lines: "overwrites bare_line u \<Longrightarrow> map bare_line (fs_lines (act (u, priced) st)) = map bare_line (fs_lines st)"
  by (simp add: act_def overwrites_key)

lemma fetch_loop_effect:
  assumes "foldE (fetch_line s run ids census) rls st = Inr st'" "map bare_line (fs_lines st) = map bare_line ls"
    and stored: "\<forall>l \<in> set ls. ln_pay_run_id l = rn_pay_run_id run \<longrightarrow> (\<exists>c \<in> set census. cn_pay_run_id c = rn_pay_run_id run \<and> cn_employee_id c = ln_employee_id l)"
    and again: "same_run run run2" "map bare_row census2 = map bare_row census"
  shows "\<exists>acts. (\<forall>(u, priced) \<in> set acts. overwrites bare_line u \<and> bare_row ` set priced \<subseteq> bare_row ` set census) \<and> st' = fold act acts st
    \<and> (\<forall>st2. map bare_line (fs_lines st2) = map bare_line ls \<longrightarrow> foldE (fetch_line s run2 ids census2) rls st2 = Inr (fold act acts st2))"
  using assms(1,2)
proof (induction rls arbitrary: st)
  case Nil
  then show ?case by (intro exI [of _ "[]"]) simp
next
  case (Cons line rls)
  then obtain st1 where st1: "fetch_line s run ids census line st = Inr st1" "foldE (fetch_line s run ids census) rls st1 = Inr st'" by (auto simp: inr)
  from fetch_line_effect [OF st1(1) Cons.prems(2) stored again] obtain u priced where
    u: "overwrites bare_line u" "bare_row ` set priced \<subseteq> bare_row ` set census" "st1 = act (u, priced) st"
      "\<And>st2. map bare_line (fs_lines st2) = map bare_line ls \<Longrightarrow> fetch_line s run2 ids census2 line st2 = Inr (act (u, priced) st2)" by blast
  have kept: "map bare_line (fs_lines (act (u, priced) st2)) = map bare_line ls" if "map bare_line (fs_lines st2) = map bare_line ls" for st2
    using act_lines [OF u(1)] that by simp
  from Cons.IH [OF st1(2)] kept [OF Cons.prems(2)] obtain acts where
    acts: "\<forall>(u, priced) \<in> set acts. overwrites bare_line u \<and> bare_row ` set priced \<subseteq> bare_row ` set census" "st' = fold act acts st1"
      "\<And>st2. map bare_line (fs_lines st2) = map bare_line ls \<Longrightarrow> foldE (fetch_line s run2 ids census2) rls st2 = Inr (fold act acts st2)"
    unfolding u(3) by blast
  show ?case
  proof (intro exI [of _ "(u, priced) # acts"] conjI allI impI)
    show "\<forall>(u, priced) \<in> set ((u, priced) # acts). overwrites bare_line u \<and> bare_row ` set priced \<subseteq> bare_row ` set census" using acts(1) u(1,2) by simp
    show "st' = fold act ((u, priced) # acts) st" by (simp add: acts(2) u(3))
    show "foldE (fetch_line s run2 ids census2) (line # rls) st2 = Inr (fold act ((u, priced) # acts) st2)"
      if "map bare_line (fs_lines st2) = map bare_line ls" for st2
      using u(4) [OF that] acts(3) [OF kept [OF that]] by simp
  qed
qed

lemma put_census_rows:
  assumes "census_key ` set priced \<subseteq> census_key ` set cs"
  shows "put_census priced cs = map (put_row priced) cs"
proof -
  have "filter (\<lambda>p. census_key p \<notin> set (map census_key cs)) priced = []" using assms by (auto simp: filter_empty_conv)
  then show ?thesis by (simp add: put_census_def put_row_def)
qed

lemma fold_act:
  assumes "\<forall>(u, priced) \<in> set acts. overwrites bare_line u \<and> census_key ` set priced \<subseteq> census_key ` set (fs_census st)"
  shows "fs_lines (fold act acts st) = map (chain (map fst acts)) (fs_lines st)"
    "fs_census (fold act acts st) = map (chain (map (put_row \<circ> snd) acts)) (fs_census st)"
    "fs_agg (fold act acts st) = fold (\<lambda>a. fold (\<lambda>r. agg_add (cn_property_id r, cn_department_id r) (cn_hours r, cn_gross r, cn_employer_burden r)) (snd a)) acts (fs_agg st)"
    "fs_written (fold act acts st) = fs_written st + length acts"
proof (atomize (full), use assms in \<open>induction acts arbitrary: st\<close>)
  case (Cons a acts)
  obtain u priced where a: "a = (u, priced)" by fastforce
  have c: "fs_census (act a st) = map (put_row priced) (fs_census st)" using Cons.prems by (simp add: a act_def put_census_rows)
  then have "census_key ` set (fs_census (act a st)) = census_key ` set (fs_census st)"
    using overwrites_key [OF put_row_overwrites, of priced] by (simp add: image_image)
  then have "\<forall>(u, priced) \<in> set acts. overwrites bare_line u \<and> census_key ` set priced \<subseteq> census_key ` set (fs_census (act a st))"
    using Cons.prems by simp
  note IH = Cons.IH [OF this]
  show ?case using IH c by (simp add: a act_def comp_def)
qed (simp add: map_idI)

lemma put_row_in_key: "overwrites census_key (chain (map (put_row \<circ> snd) acts))"
  by (rule overwrites_chain) (auto intro: put_row_overwrites)

definition start :: "PayRunLine list \<Rightarrow> PayRunLineProperty list \<Rightarrow> fetch_state" where
  "start ls census = \<lparr>fs_lines = ls, fs_census = census, fs_agg = [], fs_written = 0\<rparr>"

lemma start_simps [simp]: "fs_lines (start ls c) = ls" "fs_census (start ls c) = c" "fs_agg (start ls c) = []" "fs_written (start ls c) = 0"
  by (simp_all add: start_def)

lemma acts_keyed:
  assumes "\<forall>(u, priced) \<in> set acts. overwrites bare_line u \<and> bare_row ` set priced \<subseteq> bare_row ` set census"
  shows "\<forall>(u, priced) \<in> set acts. overwrites bare_line u \<and> census_key ` set priced \<subseteq> census_key ` set census"
proof (clarify, intro conjI subsetI)
  fix u priced k
  assume m: "(u, priced) \<in> set acts"
  then show "overwrites bare_line u" using assms by blast
  assume "k \<in> census_key ` set priced"
  then obtain p where p: "p \<in> set priced" "k = census_key p" by blast
  then have "bare_row p \<in> bare_row ` set census" using assms m by blast
  then obtain c where "c \<in> set census" "bare_row p = bare_row c" by blast
  then show "k \<in> census_key ` set census" unfolding p(2) using bare_key by (metis image_eqI)
qed

text \<open>Doing the same lines again to the tables they left changes nothing.\<close>

lemma acts_again:
  assumes ok: "\<forall>(u, priced) \<in> set acts. overwrites bare_line u \<and> census_key ` set priced \<subseteq> census_key ` set census"
    and st: "st = fold act acts (start ls census)"
  shows "fold act acts (start (fs_lines st) (fs_census st)) = st" "length (fs_census st) = length census"
proof -
  have ok0: "\<forall>(u, priced) \<in> set acts. overwrites bare_line u \<and> census_key ` set priced \<subseteq> census_key ` set (fs_census (start ls census))"
    using ok by simp
  note once = fold_act [OF ok0, folded st, unfolded start_simps]
  define U where "U = chain (map fst acts)"
  define V where "V = chain (map (put_row \<circ> snd) acts)"
  have U: "overwrites bare_line U" unfolding U_def using ok by (intro overwrites_chain) auto
  have V: "overwrites census_key V" unfolding V_def by (rule put_row_in_key)
  have ks: "census_key ` set (fs_census st) = census_key ` set census"
    unfolding once(2) V_def [symmetric] using overwrites_key [OF V] by (simp add: image_image)
  have ok1: "\<forall>(u, priced) \<in> set acts. overwrites bare_line u \<and> census_key ` set priced \<subseteq> census_key ` set (fs_census (start (fs_lines st) (fs_census st)))"
    using ok unfolding start_simps ks .
  note twice = fold_act [OF ok1, unfolded start_simps]
  show "length (fs_census st) = length census" by (simp add: once(2))
  show "fold act acts (start (fs_lines st) (fs_census st)) = st"
  proof (rule fetch_state.equality)
    show "fs_lines (fold act acts (start (fs_lines st) (fs_census st))) = fs_lines st"
      using twice(1) once(1) overwrites_idem [OF U] unfolding U_def [symmetric] by simp
    show "fs_census (fold act acts (start (fs_lines st) (fs_census st))) = fs_census st"
      using twice(2) once(2) overwrites_idem [OF V] unfolding V_def [symmetric] by simp
  qed (simp_all add: twice(3,4) once(3,4))
qed

lemma fetch_results_again:
  assumes "rn_provider_run_id run = Some i" "pv_get_pay_run pv w i = Inr result" "rs_status result = ''processed''"
    "ids = fold (\<lambda>r. AList.update (rf_provider_employee_id r) (rf_employee_id r)) (filter (\<lambda>r. rf_provider r = rn_provider run) (provider_refs s)) []"
    "foldE (fetch_line (core s) run ids (pay_run_line_properties s)) (rs_lines result)
       \<lparr>fs_lines = pay_run_lines s, fs_census = pay_run_line_properties s, fs_agg = [], fs_written = 0\<rparr> = Inr st"
  shows "fetch_pay_run_results pv w s run now = Inr
    (set_run (rn_pay_run_id run) (\<lambda>r. r\<lparr>rn_status := ''processed'', rn_processed_at := Some now\<rparr>)
        (s\<lparr>pay_run_lines := fs_lines st, pay_run_line_properties := fs_census st,
           actual_labor_facts := filter (\<lambda>f. af_pay_run_id f \<noteq> rn_pay_run_id run) (actual_labor_facts s) @ map (fact_of_agg run) (fs_agg st)\<rparr>), fs_written st)"
  using assms(1-3,5) unfolding assms(4) by (simp add: fetch_pay_run_results_def Let_def)

lemma refetch_state:
  assumes "same_run run run2" "pay_run_lines s1 = fs_lines st" "pay_run_line_properties s1 = fs_census st"
    "actual_labor_facts s1 = filter (\<lambda>f. af_pay_run_id f \<noteq> rn_pay_run_id run) fs @ map (fact_of_agg run) (fs_agg st)" "n = fs_written st"
  shows "Inr (set_run (rn_pay_run_id run2) f (s1\<lparr>pay_run_lines := fs_lines st, pay_run_line_properties := fs_census st,
           actual_labor_facts := filter (\<lambda>f. af_pay_run_id f \<noteq> rn_pay_run_id run2) (actual_labor_facts s1) @ map (fact_of_agg run2) (fs_agg st)\<rparr>), fs_written st)
      = Inr (set_run (rn_pay_run_id run) f s1, n)"
proof -
  have f: "fact_of_agg run2 = fact_of_agg run" and i: "rn_pay_run_id run2 = rn_pay_run_id run"
    using assms(1) by (simp_all add: fact_of_agg_def same_run_def fun_eq_iff)
  have "af_pay_run_id (fact_of_agg run x) = rn_pay_run_id run" for x by (simp add: fact_of_agg_def case_prod_beta')
  then have "filter (\<lambda>f. af_pay_run_id f \<noteq> rn_pay_run_id run) (actual_labor_facts s1) @ map (fact_of_agg run) (fs_agg st) = actual_labor_facts s1"
    unfolding assms(4) by (simp add: filter_map comp_def)
  moreover have "s1\<lparr>pay_run_lines := fs_lines st, pay_run_line_properties := fs_census st\<rparr> = s1" using assms(2,3) by (cases s1) simp
  ultimately show ?thesis using assms(5) unfolding f i by simp
qed

text \<open>
  C5. A fetch is idempotent: for a run that was submitted with its census, fetching the same provider result a second
  time succeeds, returns the same count, and leaves every line, census row and labor fact as the first fetch left
  it; only the time of processing moves.
\<close>

theorem fetch_idempotent:
  assumes "fetch_pay_run_results pv w s run now = Inr (s1, n)" "rn_provider_run_id run = Some i" "pv_get_pay_run pv w i = Inr result"
    and "rs_status result = ''processed''" "census_stored s run" "distinct (map census_key (pay_run_line_properties s))" "sane_cards (core s)"
    and run2: "same_run run run2" "rn_provider_run_id run2 = Some i" "rn_provider run2 = rn_provider run"
  shows "fetch_pay_run_results pv w s1 run2 later
    = Inr (set_run (rn_pay_run_id run) (\<lambda>r. r\<lparr>rn_status := ''processed'', rn_processed_at := Some later\<rparr>) s1, n)"
  using assms(1-4)
proof (cases rule: fetch_results_inr)
  case (1 ids st)
  define c0 where "c0 = pay_run_line_properties s"
  have s1: "core s1 = core s" "pay_run_lines s1 = fs_lines st" "pay_run_line_properties s1 = fs_census st" "provider_refs s1 = provider_refs s"
    "actual_labor_facts s1 = filter (\<lambda>f. af_pay_run_id f \<noteq> rn_pay_run_id run) (actual_labor_facts s) @ map (fact_of_agg run) (fs_agg st)"
    by (simp_all add: 1(3) set_run_def)
  have loop: "foldE (fetch_line (core s) run ids c0) (rs_lines result) (start (pay_run_lines s) c0) = Inr st" using 1(2) by (simp add: start_def c0_def)
  have lines0: "map bare_line (fs_lines (start (pay_run_lines s) c0)) = map bare_line (pay_run_lines s)" by simp
  have stored: "\<forall>l \<in> set (pay_run_lines s). ln_pay_run_id l = rn_pay_run_id run \<longrightarrow>
      (\<exists>c \<in> set c0. cn_pay_run_id c = rn_pay_run_id run \<and> cn_employee_id c = ln_employee_id l)"
    using assms(5) by (simp add: census_stored_def c0_def)
  have inv: "fetch_inv run (pay_run_lines s) c0 st"
    using loop fetch_inv_start [of c0 run "pay_run_lines s"] assms(6,7) by (intro fetch_loop_inv [OF loop]) (simp_all add: start_def c0_def)
  obtain a0 where a0: "\<forall>(u, priced) \<in> set a0. overwrites bare_line u \<and> bare_row ` set priced \<subseteq> bare_row ` set c0" "st = fold act a0 (start (pay_run_lines s) c0)"
    using fetch_loop_effect [OF loop lines0 stored run2(1) refl] by blast
  have "length (fs_census st) = length c0" by (rule acts_again(2) [OF acts_keyed [OF a0(1)] a0(2)])
  then have bare: "map bare_row (fs_census st) = map bare_row c0" using inv unfolding fetch_inv_def
    by (metis append_Nil2 append_eq_conv_conj length_map take_all_iff le_refl)
  obtain acts where acts: "\<forall>(u, priced) \<in> set acts. overwrites bare_line u \<and> bare_row ` set priced \<subseteq> bare_row ` set c0"
    "st = fold act acts (start (pay_run_lines s) c0)"
    "\<And>st2. map bare_line (fs_lines st2) = map bare_line (pay_run_lines s) \<Longrightarrow>
      foldE (fetch_line (core s) run2 ids (fs_census st)) (rs_lines result) st2 = Inr (fold act acts st2)"
    using fetch_loop_effect [OF loop lines0 stored run2(1) bare] by blast
  have "foldE (fetch_line (core s) run2 ids (fs_census st)) (rs_lines result) (start (fs_lines st) (fs_census st)) = Inr st"
    using acts(3) inv acts_again(1) [OF acts_keyed [OF acts(1)] acts(2)] by (simp add: fetch_inv_def)
  then have loop2: "foldE (fetch_line (core s1) run2 ids (pay_run_line_properties s1)) (rs_lines result)
      \<lparr>fs_lines = pay_run_lines s1, fs_census = pay_run_line_properties s1, fs_agg = [], fs_written = 0\<rparr> = Inr st"
    unfolding s1 start_def .
  have ids2: "ids = fold (\<lambda>r. AList.update (rf_provider_employee_id r) (rf_employee_id r)) (filter (\<lambda>r. rf_provider r = rn_provider run2) (provider_refs s1)) []"
    unfolding 1(1) s1 run2(3) ..
  show ?thesis
    unfolding fetch_results_again [OF run2(2) assms(3,4) ids2 loop2] by (rule refetch_state [OF run2(1) s1(2,3,5) 1(4)])
qed

end
