(* ===== verification/PayReach.thy ===== *)
theory PayReach
  imports PayCensus
begin

text \<open>
  The life of a pay run: what executing one leaves behind, the well-formedness of the payroll tables,
  that the handlers keep it, and the statuses a run goes through.
\<close>

section \<open>What an execution leaves\<close>

text \<open>Other sessions change timecards, profiles and deposit accounts while employees are synced; the run tables are this session's.\<close>

definition keeps_payroll :: "(pay_db \<Rightarrow> pay_db) \<Rightarrow> bool" where
  "keeps_payroll env \<longleftrightarrow> (\<forall>s. pay_runs (env s) = pay_runs s \<and> pay_run_lines (env s) = pay_run_lines s
     \<and> pay_run_line_properties (env s) = pay_run_line_properties s \<and> actual_labor_facts (env s) = actual_labor_facts s
     \<and> provider_refs (env s) = provider_refs s \<and> wage_settlements (env s) = wage_settlements s)"

definition draft_run :: "int \<Rightarrow> PreflightReport \<Rightarrow> date \<Rightarrow> string \<Rightarrow> string \<Rightarrow> PayRun" where
  "draft_run i report check_date provider_name actor =
     \<lparr>rn_pay_run_id = i, rn_property_id = rp_property_id report, rn_period_start = rp_period_start report,
      rn_period_end = rp_period_end report, rn_check_date = check_date, rn_status = ''draft'', rn_provider = provider_name,
      rn_provider_run_id = None, rn_created_by = actor, rn_submitted_at = None, rn_processed_at = None, rn_failure_reason = None\<rparr>"

text \<open>The state the outcome is written to: the cleared tables and the draft.\<close>

definition drafted :: "(pay_db \<Rightarrow> pay_db) \<Rightarrow> pay_db \<Rightarrow> PayRun \<Rightarrow> pay_db \<Rightarrow> bool" where
  "drafted env s1 draft t \<longleftrightarrow> pay_runs t = pay_runs s1 @ [draft] \<and> pay_run_lines t = pay_run_lines s1
     \<and> pay_run_line_properties t = pay_run_line_properties s1 \<and> actual_labor_facts t = actual_labor_facts s1
     \<and> (core t = core s1 \<or> (\<exists>u. core u = core s1 \<and> t = env u))"

lemma clear_failed_inr:
  assumes "clear_failed s p d = Inr s1"
  obtains "s1 = s" "filter (\<lambda>r. rn_property_id r = p \<and> rn_period_start r = d) (pay_runs s) = []"
  | run where "filter (\<lambda>r. rn_property_id r = p \<and> rn_period_start r = d) (pay_runs s) = [run]" "rn_status run = ''failed''"
      "s1 = s\<lparr>pay_run_lines := filter (\<lambda>l. ln_pay_run_id l \<noteq> rn_pay_run_id run) (pay_run_lines s),
              pay_run_line_properties := filter (\<lambda>c. cn_pay_run_id c \<noteq> rn_pay_run_id run) (pay_run_line_properties s),
              pay_runs := filter (\<lambda>r. rn_pay_run_id r \<noteq> rn_pay_run_id run) (pay_runs s)\<rparr>"
proof -
  obtain row where row: "scalar_one_or_none (filter (\<lambda>r. rn_property_id r = p \<and> rn_period_start r = d) (pay_runs s)) = Inr row"
    using assms by (auto simp: clear_failed_def inr)
  show thesis
  proof (cases row)
    case None
    then have "filter (\<lambda>r. rn_property_id r = p \<and> rn_period_start r = d) (pay_runs s) = []"
      using row unfolding scalar_one_or_none_def by (simp split: list.splits)
    with that(1) show thesis using assms row None by (simp add: clear_failed_def)
  next
    case (Some run)
    then have "filter (\<lambda>r. rn_property_id r = p \<and> rn_period_start r = d) (pay_runs s) = [run]"
      using row unfolding scalar_one_or_none_def by (simp split: list.splits)
    with that(2) show thesis using assms row Some by (simp add: clear_failed_def split: if_splits)
  qed
qed

lemma execute_cases:
  assumes "execute_pay_run sha256 open_env pv env n actor in_period anchor now p w s = (w', Inr (s', i))" and env: "keeps_payroll env"
  obtains (failed) report check_date s1 t reason where
      "assemble_pay_run_entries sha256 s p in_period anchor (Some (pv_capabilities pv)) = Inr report" "report_ok report"
      "clear_failed s p (rp_period_start report) = Inr s1" "i = next_id (map rn_pay_run_id (pay_runs s))"
      "drafted env s1 (draft_run i report check_date n actor) t" "s' = mark_failed actor reason i t"
    | (submitted) report check_date s1 t rid where
      "assemble_pay_run_entries sha256 s p in_period anchor (Some (pv_capabilities pv)) = Inr report" "report_ok report"
      "clear_failed s p (rp_period_start report) = Inr s1" "i = next_id (map rn_pay_run_id (pay_runs s))"
      "drafted env s1 (draft_run i report check_date n actor) t" "record_submitted t i report actor rid now = Inr s'"
proof (rule execute_inr [OF assms(1)])
  fix report check_date s1
  assume r: "assemble_pay_run_entries sha256 s p in_period anchor (Some (pv_capabilities pv)) = Inr report" "report_ok report"
    "clear_failed s p (rp_period_start report) = Inr s1" "i = next_id (map rn_pay_run_id (pay_runs s))"
    and su: "submit_run sha256 open_env pv env n actor in_period anchor now report check_date i w (add_draft s1 i report check_date n actor) = (w', Inr s')"
  define d where "d = add_draft s1 i report check_date n actor"
  have dd: "pay_runs d = pay_runs s1 @ [draft_run i report check_date n actor]" "pay_run_lines d = pay_run_lines s1" "core d = core s1"
    "pay_run_line_properties d = pay_run_line_properties s1" "actual_labor_facts d = actual_labor_facts s1"
    by (simp_all add: d_def add_draft_def draft_run_def)
  have plain: "drafted env s1 (draft_run i report check_date n actor) t" "drafted env s1 (draft_run i report check_date n actor) (env t)"
    if sy: "sync_employees sha256 open_env pv n es w d = (w1, t, x)" for es w1 t x
  proof -
    obtain R where t: "t = d\<lparr>provider_refs := R\<rparr>" using sync_refs_only [OF sy [unfolded sync_employees_def Let_def]] by blast
    then have c: "core t = core s1" using dd by simp
    show "drafted env s1 (draft_run i report check_date n actor) t" using c dd unfolding drafted_def by (simp add: t)
    have "pay_runs t = pay_runs d" "pay_run_lines t = pay_run_lines d" "pay_run_line_properties t = pay_run_line_properties d"
      "actual_labor_facts t = actual_labor_facts d" by (simp_all add: t)
    then show "drafted env s1 (draft_run i report check_date n actor) (env t)" using c dd env exI [of "\<lambda>u. core u = core s1 \<and> env t = env u" t] unfolding drafted_def keeps_payroll_def by simp
  qed
  show thesis using su [folded d_def]
  proof (cases rule: submit_run_inr)
    case (sync_failed m t)
    with plain(1) failed [OF r] show thesis by blast
  next
    case (drifted t refs)
    with plain(2) failed [OF r] show thesis by blast
  next
    case (submit_failed m w1 t refs entries)
    with plain(2) failed [OF r] show thesis by blast
  next
    case (submitted w1 t refs recheck entries rid)
    with plain(2) that(2) [OF r] show thesis by blast
  qed
qed

section \<open>Well-formed payroll tables\<close>

text \<open>
  The keys of the run tables, the foreign keys into them, and what the statuses mean: no run is left
  in draft, exactly the accepted runs have the provider's id, only an accepted run has lines and a
  census, and only a processed one has labor cost.
\<close>

definition accepted :: "PayRun \<Rightarrow> bool" where
  "accepted r \<longleftrightarrow> rn_status r \<in> {''submitted'', ''processed''}"

definition run_wf :: "PayRun \<Rightarrow> bool" where
  "run_wf r \<longleftrightarrow> rn_status r \<in> {''failed'', ''submitted'', ''processed''} \<and> (accepted r \<longleftrightarrow> rn_provider_run_id r \<noteq> None)
     \<and> (accepted r \<longleftrightarrow> rn_submitted_at r \<noteq> None) \<and> (rn_status r = ''processed'' \<longleftrightarrow> rn_processed_at r \<noteq> None)
     \<and> (rn_status r = ''failed'' \<longleftrightarrow> rn_failure_reason r \<noteq> None)"

definition pay_wf :: "pay_db \<Rightarrow> bool" where
  "pay_wf s \<longleftrightarrow> distinct (map rn_pay_run_id (pay_runs s)) \<and> distinct (map (\<lambda>r. (rn_property_id r, rn_period_start r)) (pay_runs s))
     \<and> (\<forall>r \<in> set (pay_runs s). run_wf r)
     \<and> (\<forall>l \<in> set (pay_run_lines s). \<exists>r \<in> set (pay_runs s). rn_pay_run_id r = ln_pay_run_id l \<and> accepted r)
     \<and> (\<forall>c \<in> set (pay_run_line_properties s). \<exists>r \<in> set (pay_runs s). rn_pay_run_id r = cn_pay_run_id c \<and> accepted r)
     \<and> (\<forall>f \<in> set (actual_labor_facts s). \<exists>r \<in> set (pay_runs s). rn_pay_run_id r = af_pay_run_id f \<and> rn_status r = ''processed'')
     \<and> distinct (map (\<lambda>l. (ln_pay_run_id l, ln_employee_id l)) (pay_run_lines s))
     \<and> distinct (map census_key (pay_run_line_properties s))"

section \<open>The handlers keep the tables well-formed\<close>

lemma run_unique:
  assumes "pay_wf s" "a \<in> set (pay_runs s)" "b \<in> set (pay_runs s)" "rn_pay_run_id a = rn_pay_run_id b"
  shows "a = b"
  using assms by (auto simp: pay_wf_def distinct_map dest: inj_onD)

lemma pay_wf_rows:
  assumes "pay_wf s"
  shows "l \<in> set (pay_run_lines s) \<Longrightarrow> \<exists>r \<in> set (pay_runs s). rn_pay_run_id r = ln_pay_run_id l \<and> accepted r"
    "c \<in> set (pay_run_line_properties s) \<Longrightarrow> \<exists>r \<in> set (pay_runs s). rn_pay_run_id r = cn_pay_run_id c \<and> accepted r"
    "f \<in> set (actual_labor_facts s) \<Longrightarrow> \<exists>r \<in> set (pay_runs s). rn_pay_run_id r = af_pay_run_id f \<and> rn_status r = ''processed''"
    "r \<in> set (pay_runs s) \<Longrightarrow> run_wf r"
  using assms unfolding pay_wf_def by blast+

lemma pay_wf_keys:
  assumes "pay_wf s"
  shows "distinct (map rn_pay_run_id (pay_runs s))" "distinct (map (\<lambda>r. (rn_property_id r, rn_period_start r)) (pay_runs s))"
    "distinct (map (\<lambda>l. (ln_pay_run_id l, ln_employee_id l)) (pay_run_lines s))" "distinct (map census_key (pay_run_line_properties s))"
  using assms unfolding pay_wf_def by blast+

text \<open>Clearing a failed run takes only its row: it has no lines.\<close>

lemma clear_failed_wf:
  assumes wf: "pay_wf s" and cl: "clear_failed s p d = Inr s1"
  obtains dropped where "s1 = s\<lparr>pay_runs := filter (\<lambda>r. rn_pay_run_id r \<noteq> dropped) (pay_runs s)\<rparr>"
    "\<forall>r \<in> set (pay_runs s). accepted r \<longrightarrow> rn_pay_run_id r \<noteq> dropped"
    "\<forall>r \<in> set (pay_runs s1). (rn_property_id r, rn_period_start r) \<noteq> (p, d)"
  using cl
proof (cases rule: clear_failed_inr)
  case 1
  have "next_id (map rn_pay_run_id (pay_runs s)) \<notin> set (map rn_pay_run_id (pay_runs s))" by (rule next_id_fresh)
  then have "\<forall>r \<in> set (pay_runs s). rn_pay_run_id r \<noteq> next_id (map rn_pay_run_id (pay_runs s))" by (metis image_eqI set_map)
  moreover have "\<forall>r \<in> set (pay_runs s). (rn_property_id r, rn_period_start r) \<noteq> (p, d)" using 1(2) by (auto simp: filter_empty_conv)
  ultimately show ?thesis using that [of "next_id (map rn_pay_run_id (pay_runs s))"] 1(1) by simp
next
  case (2 run)
  have run: "run \<in> set (pay_runs s)" using 2(1) by (metis filter_is_subset list.set_intros(1) subsetD)
  have no: "rn_pay_run_id r \<noteq> rn_pay_run_id run" if "r \<in> set (pay_runs s)" "accepted r" for r
    using run_unique [OF wf that(1) run] 2(2) that(2) by (auto simp: accepted_def)
  have "filter (\<lambda>l. ln_pay_run_id l \<noteq> rn_pay_run_id run) (pay_run_lines s) = pay_run_lines s"
    "filter (\<lambda>c. cn_pay_run_id c \<noteq> rn_pay_run_id run) (pay_run_line_properties s) = pay_run_line_properties s"
    using pay_wf_rows(1,2) [OF wf] no by (fastforce intro: filter_True)+
  then have s1: "s1 = s\<lparr>pay_runs := filter (\<lambda>r. rn_pay_run_id r \<noteq> rn_pay_run_id run) (pay_runs s)\<rparr>" using 2(3) by simp
  have "(rn_property_id r, rn_period_start r) \<noteq> (p, d)" if "r \<in> set (pay_runs s1)" for r
  proof
    assume "(rn_property_id r, rn_period_start r) = (p, d)"
    then have "r \<in> set (filter (\<lambda>r. rn_property_id r = p \<and> rn_period_start r = d) (pay_runs s))" using that s1 by simp
    then show False using 2(1) that s1 by simp
  qed
  with that [OF s1] no show ?thesis by blast
qed

lemma drop_failed_wf:
  assumes "pay_wf s" "\<forall>r \<in> set (pay_runs s). accepted r \<longrightarrow> rn_pay_run_id r \<noteq> dropped"
  shows "pay_wf (s\<lparr>pay_runs := filter (\<lambda>r. rn_pay_run_id r \<noteq> dropped) (pay_runs s)\<rparr>)"
proof -
  have a: "rn_pay_run_id r \<noteq> dropped" if "r \<in> set (pay_runs s)" "accepted r \<or> rn_status r = ''processed''" for r
    using assms(2) that by (auto simp: accepted_def)
  have d: "distinct (map f (filter P xs))" if "distinct (map f xs)" for f :: "PayRun \<Rightarrow> 'a" and P xs using that by (simp add: distinct_map inj_on_def)
  show ?thesis using assms(1) unfolding pay_wf_def by (auto simp: d dest!: a) (use a in blast)+
qed

text \<open>Adding the run that was just executed, with its lines.\<close>

lemma add_run_wf:
  assumes wf: "pay_wf s" and t: "pay_runs t = pay_runs s @ [r]" "pay_run_lines t = pay_run_lines s @ L"
      "pay_run_line_properties t = pay_run_line_properties s @ C" "actual_labor_facts t = actual_labor_facts s"
    and fresh: "rn_pay_run_id r \<notin> rn_pay_run_id ` set (pay_runs s)" "\<forall>x \<in> set (pay_runs s). (rn_property_id x, rn_period_start x) \<noteq> (rn_property_id r, rn_period_start r)"
    and r: "run_wf r" "L \<noteq> [] \<or> C \<noteq> [] \<Longrightarrow> accepted r"
    and L: "\<forall>l \<in> set L. ln_pay_run_id l = rn_pay_run_id r" "distinct (map ln_employee_id L)"
    and C: "\<forall>c \<in> set C. cn_pay_run_id c = rn_pay_run_id r" "distinct (map census_key C)"
  shows "pay_wf t"
proof -
  have old: "l \<in> set (pay_run_lines s) \<Longrightarrow> ln_pay_run_id l \<noteq> rn_pay_run_id r" "c \<in> set (pay_run_line_properties s) \<Longrightarrow> cn_pay_run_id c \<noteq> rn_pay_run_id r" for l c
    using pay_wf_rows(1,2) [OF wf] fresh(1) by (metis image_eqI)+
  have "distinct (map (\<lambda>l. (ln_pay_run_id l, ln_employee_id l)) L)" using L by (simp add: distinct_map inj_on_def)
  moreover have "(\<lambda>l. (ln_pay_run_id l, ln_employee_id l)) ` set (pay_run_lines s) \<inter> (\<lambda>l. (ln_pay_run_id l, ln_employee_id l)) ` set L = {}"
    using L(1) old(1) by fastforce
  moreover have "census_key ` set (pay_run_line_properties s) \<inter> census_key ` set C = {}"
    using C(1) old(2) unfolding census_key_def by fastforce
  ultimately have keys: "distinct (map (\<lambda>l. (ln_pay_run_id l, ln_employee_id l)) (pay_run_lines t))" "distinct (map census_key (pay_run_line_properties t))"
    unfolding t map_append distinct_append set_map using pay_wf_keys [OF wf] C(2) by blast+
  have acc: "accepted r" if "x \<in> set L \<or> y \<in> set C" for x y using r(2) that by (cases L; cases C) auto
  show ?thesis unfolding pay_wf_def using keys
  proof (intro conjI)
    show "distinct (map rn_pay_run_id (pay_runs t))" using wf fresh(1) by (simp add: t pay_wf_def)
    show "distinct (map (\<lambda>r. (rn_property_id r, rn_period_start r)) (pay_runs t))" using wf fresh(2) by (auto simp: t pay_wf_def)
    show "\<forall>r \<in> set (pay_runs t). run_wf r" using wf r(1) by (simp add: t pay_wf_def)
    show "\<forall>l \<in> set (pay_run_lines t). \<exists>r \<in> set (pay_runs t). rn_pay_run_id r = ln_pay_run_id l \<and> accepted r"
      unfolding t set_append using pay_wf_rows(1) [OF wf] L(1) acc by (simp add: ball_Un bex_Un) blast
    show "\<forall>c \<in> set (pay_run_line_properties t). \<exists>r \<in> set (pay_runs t). rn_pay_run_id r = cn_pay_run_id c \<and> accepted r"
      unfolding t set_append using pay_wf_rows(2) [OF wf] C(1) acc by (simp add: ball_Un bex_Un) blast
    show "\<forall>f \<in> set (actual_labor_facts t). \<exists>r \<in> set (pay_runs t). rn_pay_run_id r = af_pay_run_id f \<and> rn_status r = ''processed''"
      unfolding t set_append using pay_wf_rows(3) [OF wf] by blast
  qed
qed

definition core_wf :: "db \<Rightarrow> bool" where
  "core_wf c \<longleftrightarrow> distinct (map em_employee_id (employees c)) \<and> distinct (map (\<lambda>t. (tc_employee_id t, tc_period_start t)) (timecards c)) \<and> sane_cards c"

definition quiet_env :: "(pay_db \<Rightarrow> pay_db) \<Rightarrow> bool" where
  "quiet_env env \<longleftrightarrow> keeps_payroll env \<and> (\<forall>u. core_wf (core u) \<longrightarrow> core_wf (core (env u)))"

lemma set_run_last:
  assumes "pay_runs t = rs @ [r]" "rn_pay_run_id r = i" "i \<notin> rn_pay_run_id ` set rs"
  shows "pay_runs (set_run i f t) = rs @ [f r]"
proof -
  have "map (\<lambda>x. if rn_pay_run_id x = i then f x else x) rs = rs" using assms(3) by (intro map_idI) auto
  then show ?thesis using assms(1,2) by (simp add: set_run_def)
qed

lemma facts_kept [simp]: "actual_labor_facts (audit_run a b i s) = actual_labor_facts s" "actual_labor_facts (set_run i f s) = actual_labor_facts s"
  by (simp_all add: audit_run_def set_run_def)

lemma entries_census_sums:
  assumes "mapE (entry_census s i p d) es = Inr rowss" "distinct (map en_employee_id es)" "sane_cards s" "e \<in> set es"
  shows "sum_list (map cn_hours (filter (\<lambda>c. cn_employee_id c = en_employee_id e) (concat rowss))) = entry_total_hours e"
  using assms(1,2,4)
proof (induction es arbitrary: rowss)
  case (Cons x es)
  obtain rows rest where r: "entry_census s i p d x = Inr rows" "mapE (entry_census s i p d) es = Inr rest" "rowss = rows # rest"
    using Cons.prems(1) by (auto simp: inr)
  note ex = entry_census_exact [OF r(1) assms(3)]
  note ids = entries_census_ids [OF r(2) assms(3)]
  show ?case
  proof (cases "e = x")
    case True
    have "en_employee_id x \<notin> en_employee_id ` set es" using Cons.prems(2) by simp
    then have "filter (\<lambda>c. cn_employee_id c = en_employee_id e) (concat rest) = []" using ids True unfolding filter_empty_conv by metis
    moreover have "filter (\<lambda>c. cn_employee_id c = en_employee_id e) rows = rows" using ex(2) True by (auto intro: filter_True)
    ultimately show ?thesis using ex(1) True by (simp add: r(3))
  next
    case False
    then have "e \<in> set es" using Cons.prems(3) by simp
    then have e: "e \<in> set es" "en_employee_id e \<noteq> en_employee_id x" using Cons.prems(2) by (auto simp: image_iff)
    then have "filter (\<lambda>c. cn_employee_id c = en_employee_id e) rows = []" using ex(2) by (auto simp: filter_empty_conv)
    then show ?thesis using Cons.IH [OF r(2)] Cons.prems(2) e(1) by (simp add: r(3))
  qed
qed simp

lemma assemble_header:
  assumes "assemble_pay_run_entries sha256 s p in_period anchor caps = Inr report"
  shows "rp_property_id report = p" "(rp_period_start report, rp_period_end report) = period_for in_period anchor"
    "report_ok report \<Longrightarrow> \<exists>hotel. get_property (core s) p = Some hotel"
proof -
  have "yields (\<lambda>report. rp_property_id report = p \<and> (rp_period_start report, rp_period_end report) = period_for in_period anchor
      \<and> (report_ok report \<longrightarrow> get_property (core s) p \<noteq> None)) (assemble_pay_run_entries sha256 s p in_period anchor caps)"
    unfolding assemble_pay_run_entries_def Let_def case_prod_beta by (intro yields_rules) (simp_all add: report_ok_def)
  from yieldsD [OF this assms] show "rp_property_id report = p" "(rp_period_start report, rp_period_end report) = period_for in_period anchor"
    "report_ok report \<Longrightarrow> \<exists>hotel. get_property (core s) p = Some hotel" by auto
qed

lemma report_distinct:
  assumes "assemble_pay_run_entries sha256 s p in_period anchor caps = Inr report" "report_ok report" "core_wf (core s)"
  shows "distinct (map en_employee_id (rp_entries report))"
proof -
  obtain hotel where "get_property (core s) p = Some hotel" using assemble_header(3) [OF assms(1,2)] by blast
  from assemble_accounts [OF assms(1) this] assms(3) show ?thesis unfolding core_wf_def by blast
qed

lemma execute_outcome:
  assumes ex: "execute_pay_run sha256 open_env pv env n actor in_period anchor now p w s = (w', Inr (s', i))"
    and wf: "pay_wf s" and env: "quiet_env env" and core: "core_wf (core s)"
  obtains report dropped r L C where
    "assemble_pay_run_entries sha256 s p in_period anchor (Some (pv_capabilities pv)) = Inr report" "report_ok report"
    "distinct (map en_employee_id (rp_entries report))"
    "pay_runs s' = filter (\<lambda>x. rn_pay_run_id x \<noteq> dropped) (pay_runs s) @ [r]" "pay_run_lines s' = pay_run_lines s @ L"
    "pay_run_line_properties s' = pay_run_line_properties s @ C" "actual_labor_facts s' = actual_labor_facts s"
    "\<forall>x \<in> set (pay_runs s). accepted x \<longrightarrow> rn_pay_run_id x \<noteq> dropped" "i \<notin> rn_pay_run_id ` set (pay_runs s)"
    "\<forall>x \<in> set (pay_runs s). rn_pay_run_id x \<noteq> dropped \<longrightarrow> (rn_property_id x, rn_period_start x) \<noteq> (p, rp_period_start report)"
    "rn_pay_run_id r = i" "rn_property_id r = p" "rn_period_start r = rp_period_start report" "run_wf r"
    "rn_status r = ''failed'' \<and> L = [] \<and> C = []
     \<or> rn_status r = ''submitted'' \<and> L = map (run_line i) (rp_entries report)
       \<and> (\<forall>c \<in> set C. cn_pay_run_id c = i) \<and> distinct (map census_key C)
       \<and> (\<forall>e \<in> set (rp_entries report). sum_list (map cn_hours (filter (\<lambda>c. cn_employee_id c = en_employee_id e) C)) = entry_total_hours e)"
proof -
  have k: "keeps_payroll env" using env by (simp add: quiet_env_def)
  have rp: "rp_property_id report = p" if "assemble_pay_run_entries sha256 s p in_period anchor (Some (pv_capabilities pv)) = Inr report" for report
    using that by (rule assemble_header)
  have fresh: "next_id (map rn_pay_run_id (pay_runs s)) \<notin> rn_pay_run_id ` set (pay_runs s)" using next_id_fresh [of "map rn_pay_run_id (pay_runs s)"] by simp
  from ex k show thesis
  proof (cases rule: execute_cases)
    case (failed report check_date s1 t reason)
    from wf failed(3) obtain dropped where d: "s1 = s\<lparr>pay_runs := filter (\<lambda>r. rn_pay_run_id r \<noteq> dropped) (pay_runs s)\<rparr>"
      "\<forall>r \<in> set (pay_runs s). accepted r \<longrightarrow> rn_pay_run_id r \<noteq> dropped"
      "\<forall>r \<in> set (pay_runs s1). (rn_property_id r, rn_period_start r) \<noteq> (p, rp_period_start report)" by (rule clear_failed_wf)
    define r where "r = (draft_run i report check_date n actor)\<lparr>rn_status := ''failed'', rn_failure_reason := Some reason\<rparr>"
    have "pay_runs t = filter (\<lambda>x. rn_pay_run_id x \<noteq> dropped) (pay_runs s) @ [draft_run i report check_date n actor]"
      using failed(5) d(1) by (simp add: drafted_def)
    then have runs: "pay_runs s' = filter (\<lambda>x. rn_pay_run_id x \<noteq> dropped) (pay_runs s) @ [r]"
      unfolding failed(6) mark_failed_def audit_run_simps r_def using fresh by (intro set_run_last) (auto simp: failed(4) draft_run_def)
    have t: "pay_run_lines s' = pay_run_lines s @ []" "pay_run_line_properties s' = pay_run_line_properties s @ []" "actual_labor_facts s' = actual_labor_facts s"
      using failed(5) d(1) by (simp_all add: failed(6) mark_failed_def drafted_def)
    have "rn_pay_run_id r = i" "rn_property_id r = p" "rn_period_start r = rp_period_start report" "run_wf r" "rn_status r = ''failed''"
      using rp [OF failed(1)] by (simp_all add: r_def draft_run_def run_wf_def accepted_def)
    with that [OF failed(1,2) _ runs t d(2)] show thesis
      using fresh failed(4) d(1,3) report_distinct [OF failed(1,2) core] by simp
  next
    case (submitted report check_date s1 t rid)
    from wf submitted(3) obtain dropped where d: "s1 = s\<lparr>pay_runs := filter (\<lambda>r. rn_pay_run_id r \<noteq> dropped) (pay_runs s)\<rparr>"
      "\<forall>r \<in> set (pay_runs s). accepted r \<longrightarrow> rn_pay_run_id r \<noteq> dropped"
      "\<forall>r \<in> set (pay_runs s1). (rn_property_id r, rn_period_start r) \<noteq> (p, rp_period_start report)" by (rule clear_failed_wf)
    have "core s1 = core s" using d(1) by simp
    then have cards: "sane_cards (core t)" using submitted(5) env core unfolding drafted_def quiet_env_def core_wf_def by metis
    define r where "r = (draft_run i report check_date n actor)\<lparr>rn_status := ''submitted'', rn_provider_run_id := Some rid, rn_submitted_at := Some now\<rparr>"
    obtain rows where m: "mapE (entry_census (core t) i (rp_property_id report) (rp_period_start report)) (rp_entries report) = Inr rows"
      using submitted(6) by (auto simp: record_submitted_def inr)
    note s' = submitted(6) [unfolded record_submitted_def m bindE_simps Let_def, simplified, symmetric]
    have "pay_runs t = filter (\<lambda>x. rn_pay_run_id x \<noteq> dropped) (pay_runs s) @ [draft_run i report check_date n actor]"
      using submitted(5) d(1) by (simp add: drafted_def)
    then have "pay_runs (set_run i (\<lambda>r. r\<lparr>rn_status := ''submitted'', rn_provider_run_id := Some rid, rn_submitted_at := Some now\<rparr>) t)
        = filter (\<lambda>x. rn_pay_run_id x \<noteq> dropped) (pay_runs s) @ [r]"
      unfolding r_def using fresh by (intro set_run_last) (auto simp: submitted(4) draft_run_def)
    then have runs: "pay_runs s' = filter (\<lambda>x. rn_pay_run_id x \<noteq> dropped) (pay_runs s) @ [r]" by (simp add: s')
    have t: "pay_run_lines s' = pay_run_lines s @ map (run_line i) (rp_entries report)" "pay_run_line_properties s' = pay_run_line_properties s @ concat rows"
      "actual_labor_facts s' = actual_labor_facts s"
      using submitted(5) d(1) by (simp_all add: s' drafted_def)
    note dis = report_distinct [OF submitted(1,2) core]
    have "rn_pay_run_id r = i" "rn_property_id r = p" "rn_period_start r = rp_period_start report" "run_wf r" "rn_status r = ''submitted''"
      using rp [OF submitted(1)] by (simp_all add: r_def draft_run_def run_wf_def accepted_def)
    with that [OF submitted(1,2) dis runs t d(2)] show thesis
      using fresh submitted(4) d(1,3) entries_census_sums [OF m dis cards] entries_census_ids [OF m cards] entries_census_distinct [OF m dis cards] by simp
  qed
qed

lemma execute_wf:
  assumes "execute_pay_run sha256 open_env pv env n actor in_period anchor now p w s = (w', Inr (s', i))"
    and wf: "pay_wf s" and "quiet_env env" "core_wf (core s)"
  shows "pay_wf s'"
  using assms
proof (cases rule: execute_outcome)
  case (1 report dropped r L C)
  have "pay_wf (s\<lparr>pay_runs := filter (\<lambda>x. rn_pay_run_id x \<noteq> dropped) (pay_runs s)\<rparr>)" using drop_failed_wf [OF wf 1(8)] .
  then show ?thesis
  proof (rule add_run_wf [where r = r and L = L and C = C])
    show "run_wf r" by (rule 1)
    show "pay_runs s' = pay_runs (s\<lparr>pay_runs := filter (\<lambda>x. rn_pay_run_id x \<noteq> dropped) (pay_runs s)\<rparr>) @ [r]" using 1(4) by simp
    show "rn_pay_run_id r \<notin> rn_pay_run_id ` set (pay_runs (s\<lparr>pay_runs := filter (\<lambda>x. rn_pay_run_id x \<noteq> dropped) (pay_runs s)\<rparr>))"
      using 1(9,11) by auto
    show "\<forall>x \<in> set (pay_runs (s\<lparr>pay_runs := filter (\<lambda>x. rn_pay_run_id x \<noteq> dropped) (pay_runs s)\<rparr>)).
        (rn_property_id x, rn_period_start x) \<noteq> (rn_property_id r, rn_period_start r)"
      using 1(10,12,13) by simp
    have names: "map ln_employee_id (map (run_line i) es) = map en_employee_id es" for es by (simp add: run_line_def)
    then show "distinct (map ln_employee_id L)" using 1(3,15) by (metis distinct.simps(1) list.simps(8))
    show "L \<noteq> [] \<or> C \<noteq> [] \<Longrightarrow> accepted r" using 1(15) by (auto simp: accepted_def)
    show "\<forall>l \<in> set L. ln_pay_run_id l = rn_pay_run_id r" using 1(11,15) by (auto simp: run_line_def)
  qed (use 1 in auto)
qed

lemma get_run_mem: "get_run s i = Inr run \<Longrightarrow> run \<in> set (pay_runs s) \<and> rn_pay_run_id run = i"
  by (auto simp: get_run_def find_Some_iff split: option.splits)

lemma pay_wf_audit: "pay_wf (audit_run a b i s) = pay_wf s"
  by (simp add: pay_wf_def)

lemma create_run_wf:
  assumes "create_run sha256 open_env pv env n subject in_period anchor now p w s = (w', s', r)"
    and "pay_wf s" "quiet_env env" "core_wf (core s)"
  shows "pay_wf s'"
  using assms execute_wf by (fastforce simp: create_run_def split: prod.splits sum.splits)

text \<open>The lines and the census a fetch leaves have the keys they had, and new rows belong to the run.\<close>

lemma fetched_keys:
  assumes inv: "fetch_inv run (pay_run_lines s) (pay_run_line_properties s) st"
  shows "map (\<lambda>l. (ln_pay_run_id l, ln_employee_id l)) (fs_lines st) = map (\<lambda>l. (ln_pay_run_id l, ln_employee_id l)) (pay_run_lines s)"
    "c \<in> set (fs_census st) \<Longrightarrow> cn_pay_run_id c = rn_pay_run_id run \<or> (\<exists>d \<in> set (pay_run_line_properties s). cn_pay_run_id d = cn_pay_run_id c)"
    "distinct (map census_key (fs_census st))"
proof -
  have b: "map bare_line (fs_lines st) = map bare_line (pay_run_lines s)" using inv by (simp add: fetch_inv_def)
  have "map (\<lambda>l. (ln_pay_run_id l, ln_employee_id l)) xs = map (\<lambda>l. (ln_pay_run_id l, ln_employee_id l)) (map bare_line xs)" for xs by simp
  then show "map (\<lambda>l. (ln_pay_run_id l, ln_employee_id l)) (fs_lines st) = map (\<lambda>l. (ln_pay_run_id l, ln_employee_id l)) (pay_run_lines s)"
    using b by metis
  show "distinct (map census_key (fs_census st))" using inv by (simp add: fetch_inv_def)
  assume c: "c \<in> set (fs_census st)"
  obtain new where new: "map bare_row (fs_census st) = map bare_row (pay_run_line_properties s) @ new" "\<forall>x \<in> set new. cn_pay_run_id x = rn_pay_run_id run"
    using inv unfolding fetch_inv_def by blast
  have "bare_row c \<in> set (map bare_row (fs_census st))" using c by simp
  then have "bare_row c \<in> bare_row ` set (pay_run_line_properties s) \<or> bare_row c \<in> set new" unfolding new(1) by simp
  then show "cn_pay_run_id c = rn_pay_run_id run \<or> (\<exists>d \<in> set (pay_run_line_properties s). cn_pay_run_id d = cn_pay_run_id c)"
    using new(2) by (metis bare_simps(5) image_iff)
qed

lemma set_processed_wf:
  assumes wf: "pay_wf s" and run: "run \<in> set (pay_runs s)" "accepted run"
    and t: "pay_runs t = pay_runs s" "map (\<lambda>l. (ln_pay_run_id l, ln_employee_id l)) (pay_run_lines t) = map (\<lambda>l. (ln_pay_run_id l, ln_employee_id l)) (pay_run_lines s)"
    and c: "\<forall>c \<in> set (pay_run_line_properties t). cn_pay_run_id c = rn_pay_run_id run \<or> (\<exists>d \<in> set (pay_run_line_properties s). cn_pay_run_id d = cn_pay_run_id c)"
      "distinct (map census_key (pay_run_line_properties t))"
    and f: "\<forall>f \<in> set (actual_labor_facts t). af_pay_run_id f = rn_pay_run_id run \<or> f \<in> set (actual_labor_facts s)"
  shows "pay_wf (set_run (rn_pay_run_id run) (\<lambda>r. r\<lparr>rn_status := ''processed'', rn_processed_at := Some now\<rparr>) t)"
proof -
  define g where "g = (\<lambda>r :: PayRun. if rn_pay_run_id r = rn_pay_run_id run then r\<lparr>rn_status := ''processed'', rn_processed_at := Some now\<rparr> else r)"
  define u where "u = set_run (rn_pay_run_id run) (\<lambda>r. r\<lparr>rn_status := ''processed'', rn_processed_at := Some now\<rparr>) t"
  have runs: "pay_runs u = map g (pay_runs s)" by (simp add: u_def set_run_def g_def t(1))
  have keep: "rn_pay_run_id (g r) = rn_pay_run_id r" "rn_property_id (g r) = rn_property_id r" "rn_period_start (g r) = rn_period_start r"
    "accepted r \<Longrightarrow> accepted (g r)" "rn_status r = ''processed'' \<Longrightarrow> rn_status (g r) = ''processed''" for r
    by (auto simp: g_def accepted_def)
  have same: "r = run" if "r \<in> set (pay_runs s)" "rn_pay_run_id r = rn_pay_run_id run" for r using run_unique [OF wf that(1) run(1) that(2)] .
  have grun: "g run \<in> set (pay_runs u)" "accepted (g run)" "rn_status (g run) = ''processed''" using run(1) by (auto simp: runs g_def accepted_def)
  have acc: "\<exists>r \<in> set (pay_runs u). rn_pay_run_id r = i \<and> accepted r" if "\<exists>r \<in> set (pay_runs s). rn_pay_run_id r = i \<and> accepted r" for i
    using that keep(1,4) unfolding runs by fastforce
  have pro: "\<exists>r \<in> set (pay_runs u). rn_pay_run_id r = i \<and> rn_status r = ''processed''" if "\<exists>r \<in> set (pay_runs s). rn_pay_run_id r = i \<and> rn_status r = ''processed''" for i
    using that keep(1,5) unfolding runs by fastforce
  have "run_wf (g r)" if "r \<in> set (pay_runs s)" for r
    using pay_wf_rows(4) [OF wf that] same [OF that] run(2) by (auto simp: g_def run_wf_def accepted_def)
  moreover have "\<exists>r \<in> set (pay_runs u). rn_pay_run_id r = ln_pay_run_id l \<and> accepted r" if "l \<in> set (pay_run_lines u)" for l
  proof -
    have "(ln_pay_run_id l, ln_employee_id l) \<in> set (map (\<lambda>l. (ln_pay_run_id l, ln_employee_id l)) (pay_run_lines t))" using that by (simp add: u_def)
    then obtain m where "m \<in> set (pay_run_lines s)" "ln_pay_run_id m = ln_pay_run_id l" unfolding t(2) by auto
    then show ?thesis using pay_wf_rows(1) [OF wf] acc by metis
  qed
  moreover have "\<exists>r \<in> set (pay_runs u). rn_pay_run_id r = cn_pay_run_id x \<and> accepted r" if "x \<in> set (pay_run_line_properties u)" for x
    using c(1) that pay_wf_rows(2) [OF wf] acc grun(1,2) keep(1) unfolding u_def set_run_simps by metis
  moreover have "\<exists>r \<in> set (pay_runs u). rn_pay_run_id r = af_pay_run_id x \<and> rn_status r = ''processed''" if "x \<in> set (actual_labor_facts u)" for x
    using f that pay_wf_rows(3) [OF wf] pro grun(1,3) keep(1) unfolding u_def facts_kept by metis
  ultimately have "pay_wf u"
    using pay_wf_keys [OF wf] c(2) t(2) unfolding pay_wf_def by (simp add: runs comp_def keep(1-3)) (simp add: u_def)
  then show ?thesis by (simp add: u_def)
qed

lemma fetch_results_wf:
  assumes ok: "fetch_results pv n w s subject i now = Inr (s', st, k)" and wf: "pay_wf s" and core: "core_wf (core s)"
  shows "pay_wf s'"
proof -
  obtain run s1 where r: "get_run s i = Inr run" "rn_status run \<notin> {''draft'', ''failed''}" "fetch_pay_run_results pv w s run now = Inr (s1, k)"
    "s' = audit_run subject ''fetch_pay_run_results'' i s1"
    using ok by (auto simp: fetch_results_def inr split: if_splits)
  have run: "run \<in> set (pay_runs s)" using get_run_mem [OF r(1)] by blast
  then have acc: "accepted run" using pay_wf_rows(4) [OF wf run] r(2) by (auto simp: run_wf_def accepted_def)
  obtain pid result where p: "rn_provider_run_id run = Some pid" "pv_get_pay_run pv w pid = Inr result"
    using r(3) by (auto simp: fetch_pay_run_results_def inr split: option.splits)
  show ?thesis
  proof (cases "rs_status result = ''processed''")
    case False
    then have "s1 = s" using r(3) p by (simp add: fetch_pay_run_results_def)
    then show ?thesis using wf by (simp add: r(4) pay_wf_audit)
  next
    case True
    from r(3) p True show ?thesis
    proof (cases rule: fetch_results_inr)
      case (1 ids st)
      have inv: "fetch_inv run (pay_run_lines s) (pay_run_line_properties s) st"
        using fetch_loop_inv [OF 1(2) fetch_inv_start [OF pay_wf_keys(4) [OF wf]] _ pay_wf_keys(4) [OF wf]] core by (simp add: core_wf_def)
      note k = fetched_keys [OF inv]
      have "pay_wf s1" unfolding 1(3)
      proof (rule set_processed_wf [OF wf run acc])
        show "\<forall>f \<in> set (actual_labor_facts (s\<lparr>pay_run_lines := fs_lines st, pay_run_line_properties := fs_census st,
            actual_labor_facts := filter (\<lambda>f. af_pay_run_id f \<noteq> rn_pay_run_id run) (actual_labor_facts s) @ map (fact_of_agg run) (fs_agg st)\<rparr>)).
            af_pay_run_id f = rn_pay_run_id run \<or> f \<in> set (actual_labor_facts s)"
          by (auto simp: fact_of_agg_def)
      qed (use k in simp_all)
      then show ?thesis by (simp add: r(4) pay_wf_audit)
    qed
  qed
qed

lemma settle_wf:
  assumes "settle_run_worked_hours s subject i e note = (s', r)" "pay_wf s"
  shows "pay_wf s'"
proof -
  have w: "pay_wf (t\<lparr>core := c\<rparr>) = pay_wf t" "pay_wf (t\<lparr>wage_settlements := ws\<rparr>) = pay_wf t" for t c ws by (simp_all add: pay_wf_def)
  have "pay_wf t" if "settle_worked_hours s run e subject note = Inr (t, x)" for t x run
    using that assms(2) by (auto simp: settle_worked_hours_def inr Let_def w split: if_splits option.splits)
  then show ?thesis using assms
    by (auto simp: settle_run_worked_hours_def Let_def w pay_wf_audit split: sum.splits err.splits)
qed

section \<open>Reachable payroll states\<close>

text \<open>
  The handlers of payroll_run_api.py and everything else that happens meanwhile: other parts of the system change the core
  tables, profiles, deposit accounts and schedules, and the provider's own state moves on.
\<close>

inductive pay_step :: "'w \<times> pay_db \<Rightarrow> 'w \<times> pay_db \<Rightarrow> bool" where
  create: "create_run sha256 open_env pv env n subject in_period anchor now p w s = (w', s', r) \<Longrightarrow> quiet_env env \<Longrightarrow> core_wf (core s)
     \<Longrightarrow> pay_step (w, s) (w', s')"
| fetch: "fetch_results pv n w s subject i now = Inr (s', st, k) \<Longrightarrow> core_wf (core s) \<Longrightarrow> pay_step (w, s) (w, s')"
| settle: "settle_run_worked_hours s subject i e note = (s', r) \<Longrightarrow> pay_step (w, s) (w, s')"
| elsewhere: "pay_step (w, s) (w', s\<lparr>core := c, payroll_profiles := profiles, deposit_accounts := accounts, pay_schedules := schedules\<rparr>)"

inductive_cases pay_stepE: "pay_step (w, s) (w', s')"

text \<open>A fresh installation has no payroll rows.\<close>

definition no_payroll :: "pay_db \<Rightarrow> bool" where
  "no_payroll s \<longleftrightarrow> pay_runs s = [] \<and> pay_run_lines s = [] \<and> pay_run_line_properties s = [] \<and> actual_labor_facts s = []"

lemma no_payroll_wf: "no_payroll s \<Longrightarrow> pay_wf s"
  by (simp add: no_payroll_def pay_wf_def)

lemma pay_step_wf:
  assumes "pay_step x y" "pay_wf (snd x)"
  shows "pay_wf (snd y)"
  using assms
proof (cases rule: pay_step.cases)
  case (elsewhere w s w' c profiles accounts schedules)
  then show ?thesis using assms(2) by (simp add: pay_wf_def)
qed (use assms(2) create_run_wf fetch_results_wf settle_wf in auto)

lemma pay_steps_wf: "pay_step\<^sup>*\<^sup>* x y \<Longrightarrow> pay_wf (snd x) \<Longrightarrow> pay_wf (snd y)"
  by (induction rule: rtranclp_induct) (auto intro: pay_step_wf)

text \<open>An accepted run is there for good: later states have a run of its id, accepted, with the same provider run and period.\<close>

definition keeps_accepted :: "pay_db \<Rightarrow> pay_db \<Rightarrow> bool" where
  "keeps_accepted s t \<longleftrightarrow> (\<forall>r \<in> set (pay_runs s). accepted r \<longrightarrow> (\<exists>q \<in> set (pay_runs t). accepted q \<and> same_run r q
     \<and> rn_provider_run_id q = rn_provider_run_id r \<and> rn_provider q = rn_provider r \<and> rn_check_date q = rn_check_date r
     \<and> map bare_line (filter (\<lambda>l. ln_pay_run_id l = rn_pay_run_id r) (pay_run_lines t))
       = map bare_line (filter (\<lambda>l. ln_pay_run_id l = rn_pay_run_id r) (pay_run_lines s))))"

lemma keeps_accepted_refl: "keeps_accepted s s"
  by (auto simp: keeps_accepted_def same_run_def)

lemma keeps_accepted_trans:
  assumes "keeps_accepted s t" "keeps_accepted t u"
  shows "keeps_accepted s u"
  unfolding keeps_accepted_def
proof (intro ballI impI)
  fix r
  assume "r \<in> set (pay_runs s)" "accepted r"
  then obtain q where q: "q \<in> set (pay_runs t)" "accepted q" "same_run r q" "rn_provider_run_id q = rn_provider_run_id r" "rn_provider q = rn_provider r"
     "rn_check_date q = rn_check_date r" "map bare_line (filter (\<lambda>l. ln_pay_run_id l = rn_pay_run_id r) (pay_run_lines t))
       = map bare_line (filter (\<lambda>l. ln_pay_run_id l = rn_pay_run_id r) (pay_run_lines s))"
    using assms(1) unfolding keeps_accepted_def by blast
  obtain v where v: "v \<in> set (pay_runs u)" "accepted v" "same_run q v" "rn_provider_run_id v = rn_provider_run_id q" "rn_provider v = rn_provider q"
     "rn_check_date v = rn_check_date q" "map bare_line (filter (\<lambda>l. ln_pay_run_id l = rn_pay_run_id q) (pay_run_lines u))
       = map bare_line (filter (\<lambda>l. ln_pay_run_id l = rn_pay_run_id q) (pay_run_lines t))"
    using assms(2) q(1,2) unfolding keeps_accepted_def by blast
  have "rn_pay_run_id q = rn_pay_run_id r" "same_run r v" using q(3) v(3) by (auto simp: same_run_def)
  with q v show "\<exists>q \<in> set (pay_runs u). accepted q \<and> same_run r q
     \<and> rn_provider_run_id q = rn_provider_run_id r \<and> rn_provider q = rn_provider r \<and> rn_check_date q = rn_check_date r
     \<and> map bare_line (filter (\<lambda>l. ln_pay_run_id l = rn_pay_run_id r) (pay_run_lines u))
       = map bare_line (filter (\<lambda>l. ln_pay_run_id l = rn_pay_run_id r) (pay_run_lines s))"
    by (intro bexI [of _ v]) auto
qed

lemma execute_keeps:
  assumes "execute_pay_run sha256 open_env pv env n actor in_period anchor now p w s = (w', Inr (s', i))"
    and wf: "pay_wf s" and "quiet_env env" "core_wf (core s)"
  shows "keeps_accepted s s'"
  using assms
proof (cases rule: execute_outcome)
  case (1 report dropped r L C)
  have L: "\<forall>l \<in> set L. ln_pay_run_id l = i" using 1(15) by (auto simp: run_line_def)
  show ?thesis unfolding keeps_accepted_def
  proof (intro ballI impI)
    fix x
    assume x: "x \<in> set (pay_runs s)" "accepted x"
    then have "x \<in> set (pay_runs s')" using 1(8) by (simp add: 1(4))
    moreover have "filter (\<lambda>l. ln_pay_run_id l = rn_pay_run_id x) L = []" using L 1(9) x(1) by (auto simp: filter_empty_conv)
    ultimately show "\<exists>q \<in> set (pay_runs s'). accepted q \<and> same_run x q
     \<and> rn_provider_run_id q = rn_provider_run_id x \<and> rn_provider q = rn_provider x \<and> rn_check_date q = rn_check_date x
     \<and> map bare_line (filter (\<lambda>l. ln_pay_run_id l = rn_pay_run_id x) (pay_run_lines s'))
       = map bare_line (filter (\<lambda>l. ln_pay_run_id l = rn_pay_run_id x) (pay_run_lines s))"
      using x(2) by (intro bexI [of _ x]) (simp_all add: same_run_def 1(5))
  qed
qed

lemma filter_bare_lines: "map bare_line (filter (\<lambda>l. ln_pay_run_id l = i) ls) = filter (\<lambda>l. ln_pay_run_id l = i) (map bare_line ls)"
  by (induction ls) simp_all

lemma set_processed_keeps:
  assumes "pay_runs t = pay_runs s" "map bare_line (pay_run_lines t) = map bare_line (pay_run_lines s)"
  shows "keeps_accepted s (set_run i (\<lambda>r. r\<lparr>rn_status := ''processed'', rn_processed_at := Some now\<rparr>) t)"
  unfolding keeps_accepted_def
proof (intro ballI impI)
  fix r
  assume r: "r \<in> set (pay_runs s)" "accepted r"
  define q where "q = (if rn_pay_run_id r = i then r\<lparr>rn_status := ''processed'', rn_processed_at := Some now\<rparr> else r)"
  have "q \<in> set (pay_runs (set_run i (\<lambda>r. r\<lparr>rn_status := ''processed'', rn_processed_at := Some now\<rparr>) t))"
    using r(1) by (auto simp: set_run_def assms(1) q_def)
  moreover have "accepted q" "same_run r q" "rn_provider_run_id q = rn_provider_run_id r" "rn_provider q = rn_provider r" "rn_check_date q = rn_check_date r"
    using r(2) by (simp_all add: q_def accepted_def same_run_def)
  ultimately show "\<exists>q \<in> set (pay_runs (set_run i (\<lambda>r. r\<lparr>rn_status := ''processed'', rn_processed_at := Some now\<rparr>) t)). accepted q \<and> same_run r q
     \<and> rn_provider_run_id q = rn_provider_run_id r \<and> rn_provider q = rn_provider r \<and> rn_check_date q = rn_check_date r
     \<and> map bare_line (filter (\<lambda>l. ln_pay_run_id l = rn_pay_run_id r) (pay_run_lines (set_run i (\<lambda>r. r\<lparr>rn_status := ''processed'', rn_processed_at := Some now\<rparr>) t)))
       = map bare_line (filter (\<lambda>l. ln_pay_run_id l = rn_pay_run_id r) (pay_run_lines s))"
    by (intro bexI [of _ q]) (simp_all add: filter_bare_lines assms(2))
qed

lemma keeps_accepted_same: "pay_runs t = pay_runs s \<Longrightarrow> pay_run_lines t = pay_run_lines s \<Longrightarrow> keeps_accepted s t"
  using keeps_accepted_refl [of s] unfolding keeps_accepted_def by simp

lemma fetch_results_keeps:
  assumes ok: "fetch_results pv n w s subject i now = Inr (s', st, k)" and wf: "pay_wf s" and core: "core_wf (core s)"
  shows "keeps_accepted s s'"
proof -
  obtain run s1 where r: "fetch_pay_run_results pv w s run now = Inr (s1, k)" "s' = audit_run subject ''fetch_pay_run_results'' i s1"
    using ok by (auto simp: fetch_results_def inr split: if_splits)
  obtain pid result where p: "rn_provider_run_id run = Some pid" "pv_get_pay_run pv w pid = Inr result"
    using r(1) by (auto simp: fetch_pay_run_results_def inr split: option.splits)
  have "keeps_accepted s s1"
  proof (cases "rs_status result = ''processed''")
    case False
    then have "s1 = s" using r(1) p by (simp add: fetch_pay_run_results_def)
    then show ?thesis by (simp add: keeps_accepted_refl)
  next
    case True
    from r(1) p True show ?thesis
    proof (cases rule: fetch_results_inr)
      case (1 ids st)
      have "fetch_inv run (pay_run_lines s) (pay_run_line_properties s) st"
        using fetch_loop_inv [OF 1(2) fetch_inv_start [OF pay_wf_keys(4) [OF wf]] _ pay_wf_keys(4) [OF wf]] core by (simp add: core_wf_def)
      then show ?thesis unfolding 1(3) by (intro set_processed_keeps) (simp_all add: fetch_inv_def)
    qed
  qed
  moreover have "keeps_accepted s1 s'" by (rule keeps_accepted_same) (simp_all add: r(2))
  ultimately show ?thesis by (rule keeps_accepted_trans)
qed

lemma settle_keeps:
  assumes "settle_run_worked_hours s subject i e note = (s', r)"
  shows "keeps_accepted s s'"
proof -
  have "pay_runs t = pay_runs s \<and> pay_run_lines t = pay_run_lines s" if "settle_worked_hours s run e subject note = Inr (t, x)" for t x run
    using that by (auto simp: settle_worked_hours_def inr Let_def split: if_splits option.splits)
  then have "pay_runs s' = pay_runs s \<and> pay_run_lines s' = pay_run_lines s" using assms
    by (auto simp: settle_run_worked_hours_def Let_def split: sum.splits err.splits)
  then show ?thesis by (intro keeps_accepted_same) auto
qed

lemma create_run_keeps:
  assumes "create_run sha256 open_env pv env n subject in_period anchor now p w s = (w', s', r)" "pay_wf s" "quiet_env env" "core_wf (core s)"
  shows "keeps_accepted s s'"
  using assms execute_keeps keeps_accepted_refl by (fastforce simp: create_run_def split: prod.splits sum.splits)

lemma pay_step_keeps:
  assumes "pay_step x y" "pay_wf (snd x)"
  shows "keeps_accepted (snd x) (snd y)"
  using assms
proof (cases rule: pay_step.cases)
  case (elsewhere w s w' c profiles accounts schedules)
  then show ?thesis by (auto intro!: keeps_accepted_same)
qed (use assms(2) create_run_keeps fetch_results_keeps settle_keeps in auto)

lemma pay_steps_keep: "pay_step\<^sup>*\<^sup>* x y \<Longrightarrow> pay_wf (snd x) \<Longrightarrow> keeps_accepted (snd x) (snd y)"
proof (induction rule: rtranclp_induct)
  case base
  then show ?case by (simp add: keeps_accepted_refl)
next
  case (step y z)
  then show ?case using pay_steps_wf pay_step_keeps keeps_accepted_trans by blast
qed

section \<open>Properties of the life of a run\<close>

lemma filter_key: "distinct (map f xs) \<Longrightarrow> x \<in> set xs \<Longrightarrow> filter (\<lambda>y. f y = f x) xs = [x]"
  by (induction xs) (auto simp: filter_empty_conv, (metis image_eqI)+)

text \<open>
  C17. Whatever the handlers, the other parts of the system and the provider do, the payroll tables stay well-formed: run ids and
  (property, period) pairs are unique, no run is left in draft, a run has the provider's id and a submission time exactly
  when it was accepted, a failure reason exactly when it failed, only an accepted run has lines and census rows, with
  unique keys, and only a processed one has labor cost.
\<close>

theorem payroll_tables_wf:
  assumes "pay_step\<^sup>*\<^sup>* (w0, s0) (w, s)" "no_payroll s0"
  shows "pay_wf s"
  using pay_steps_wf [OF assms(1)] no_payroll_wf [OF assms(2)] by simp

text \<open>
  C18. An accepted run is final: in every later state there is a run of its id, still accepted, for the same property, period,
  check date and provider run, with the same employees and hours on its lines; only money, departments and the status
  \<open>processed\<close> come in.
\<close>

theorem accepted_run_final:
  assumes "pay_step\<^sup>*\<^sup>* (w0, s0) (w1, s1)" "no_payroll s0" "pay_step\<^sup>*\<^sup>* (w1, s1) (w2, s2)" "run \<in> set (pay_runs s1)" "accepted run"
  shows "\<exists>later \<in> set (pay_runs s2). accepted later \<and> same_run run later \<and> rn_provider_run_id later = rn_provider_run_id run
    \<and> rn_check_date later = rn_check_date run
    \<and> map bare_line (filter (\<lambda>l. ln_pay_run_id l = rn_pay_run_id run) (pay_run_lines s2))
      = map bare_line (filter (\<lambda>l. ln_pay_run_id l = rn_pay_run_id run) (pay_run_lines s1))"
proof -
  have "pay_wf s1" using pay_steps_wf [OF assms(1)] no_payroll_wf [OF assms(2)] by simp
  then have "keeps_accepted s1 s2" using pay_steps_keep [OF assms(3)] by simp
  then show ?thesis using assms(4,5) unfolding keeps_accepted_def by blast
qed

text \<open>
  C6. No period is submitted twice: while a property has an accepted run for a pay period, creating a run for any day of that
  period changes neither the database nor the provider and raises; the answer is 409 when the preflight is clean.
\<close>

theorem no_second_submission:
  assumes "pay_wf s" "run \<in> set (pay_runs s)" "accepted run" "fst (period_for in_period anchor) = rn_period_start run"
    and "create_run sha256 open_env pv env n subject in_period anchor now (rn_property_id run) w s = (w', s', r)"
  shows "w' = w \<and> s' = s \<and> (\<exists>e. r = Inl e)
    \<and> (\<forall>report d. assemble_pay_run_entries sha256 s (rn_property_id run) in_period anchor (Some (pv_capabilities pv)) = Inr report
         \<longrightarrow> report_ok report \<longrightarrow> rp_check_date report = Some d \<longrightarrow> r = Inl (HTTPException 409))"
proof -
  have key: "filter (\<lambda>x. rn_property_id x = rn_property_id run \<and> rn_period_start x = rn_period_start run) (pay_runs s) = [run]"
    using filter_key [OF pay_wf_keys(2) [OF assms(1)] assms(2)] by simp
  have clear: "clear_failed s (rn_property_id run) (rn_period_start run) = Inl PayRunConflict"
    by (rule clear_failed_conflict [OF key]) (use assms(3) in \<open>auto simp: accepted_def\<close>)
  have "rp_period_start report = rn_period_start run"
    if "assemble_pay_run_entries sha256 s (rn_property_id run) in_period anchor (Some (pv_capabilities pv)) = Inr report" for report
    using assemble_header(2) [OF that] assms(4) by (metis fst_conv)
  then show ?thesis using assms(5) clear
    by (auto simp: create_run_def execute_pay_run_def require_not_none_def split: sum.splits if_splits option.splits)
qed

text \<open>
  C3. What a submission records: when creating a run answers with the run, the preflight was clean, the run is submitted for the
  preflight's property and period, and it has one line per entry of the preflight, in their order, one per employee.  A line
  has the entry's regular, overtime, double-time and sick hours as its hours, the sick hours among them, no department and no money
  yet; and the census rows of the employee add up to exactly the line's hours.
\<close>

theorem submitted_run_snapshot:
  assumes "create_run sha256 open_env pv env n subject in_period anchor now p w s = (w', s', Inr run)"
    and "pay_wf s" "quiet_env env" "core_wf (core s)"
  shows "\<exists>report. assemble_pay_run_entries sha256 s p in_period anchor (Some (pv_capabilities pv)) = Inr report \<and> report_ok report
    \<and> rn_status run = ''submitted'' \<and> rn_property_id run = p \<and> rn_period_start run = rp_period_start report
    \<and> distinct (map en_employee_id (rp_entries report))
    \<and> list_all2 (\<lambda>l e. ln_employee_id l = en_employee_id e \<and> ln_department_id l = None
         \<and> ln_hours l = en_regular_hours e + en_ot_hours e + en_dt_hours e + en_sick_hours e \<and> ln_sick_hours l = en_sick_hours e
         \<and> ln_gross l = 0 \<and> ln_employee_taxes l = 0 \<and> ln_employer_taxes l = 0 \<and> ln_net l = 0
         \<and> sum_list (map cn_hours (filter (\<lambda>c. cn_pay_run_id c = rn_pay_run_id run \<and> cn_employee_id c = ln_employee_id l)
             (pay_run_line_properties s'))) = ln_hours l)
       (filter (\<lambda>l. ln_pay_run_id l = rn_pay_run_id run) (pay_run_lines s')) (rp_entries report)"
proof -
  obtain i where ex: "execute_pay_run sha256 open_env pv env n subject in_period anchor now p w s = (w', Inr (s', i))"
    "get_run s' i = Inr run" "rn_status run \<noteq> ''failed''"
    using assms(1) by (auto simp: create_run_def inr split: prod.splits sum.splits if_splits)
  note run = get_run_mem [OF ex(2)]
  have wf': "pay_wf s'" using execute_wf [OF ex(1) assms(2-4)] .
  from ex(1) assms(2-4) show ?thesis
  proof (cases rule: execute_outcome)
    case (1 report dropped r L C)
    have "r \<in> set (pay_runs s')" by (simp add: 1(4))
    then have "run = r" using run_unique [OF wf', of run r] run 1(11) by simp
    note eq = this [symmetric]
    have sub: "rn_status r = ''submitted''" "L = map (run_line i) (rp_entries report)" "\<forall>c \<in> set C. cn_pay_run_id c = i"
      "\<forall>e \<in> set (rp_entries report). sum_list (map cn_hours (filter (\<lambda>c. cn_employee_id c = en_employee_id e) C)) = entry_total_hours e"
      using 1(15) ex(3) eq by auto
    have old: "ln_pay_run_id l \<noteq> i" if "l \<in> set (pay_run_lines s)" for l using pay_wf_rows(1) [OF assms(2) that] 1(9) by force
    have oldc: "cn_pay_run_id c \<noteq> i" if "c \<in> set (pay_run_line_properties s)" for c using pay_wf_rows(2) [OF assms(2) that] 1(9) by force
    have "filter (\<lambda>l. ln_pay_run_id l = i) (pay_run_lines s') = map (run_line i) (rp_entries report)"
      using old by (auto simp: 1(5) sub(2) filter_empty_conv filter_map comp_def run_line_def)
    moreover have "filter (\<lambda>c. cn_pay_run_id c = i \<and> cn_employee_id c = e) (pay_run_line_properties s') = filter (\<lambda>c. cn_employee_id c = e) C" for e
      using oldc sub(3) by (auto simp: 1(6) filter_empty_conv cong: filter_cong)
    ultimately show ?thesis using 1(1-3,11-13) sub(1,4) eq
      by (intro exI [of _ report]) (simp add: list_all2_map1 list_all2_same run_line_def entry_total_hours_def)
  qed
qed

end
