(* ===== verification/PayExample.thy ===== *)
theory PayExample
  imports PayReach
begin

text \<open>
  One pay period from preflight to labor cost: the card of \<open>ready_pay\<close>, one hour at 20 an hour, is
  executed through the in-memory provider of payroll_provider.py and its result is fetched.  The witnesses of the
  properties of a run stand here.
\<close>

section \<open>Submitting\<close>

abbreviation plain_vault :: opener where "plain_vault \<equiv> \<lambda>sealed aad. Some sealed"

definition no_employees :: InMemoryPayrollProvider where
  "no_employees = \<lparr>im_employees = [], im_by_id = [], im_runs = [], im_submitted = []\<rparr>"

definition shown_entry :: PreflightEntry where
  "shown_entry = ready_entry\<lparr>en_sick_balance_hours := Some 0\<rparr>"

definition ready_payload :: PayrollEmployee where
  "ready_payload = \<lparr>py_full_name = em_full_name (hd (employees ready_core)), py_ssn = ''s'',
     py_deposit_accounts = [\<lparr>pd_ordinal = 1, pd_allocation_type = ''remainder'', pd_allocation_value = None, pd_account_type = Some ''checking'',
       pd_routing = ''r'', pd_account = ''a''\<rparr>]\<rparr>"

definition synced :: InMemoryPayrollProvider where
  "synced = no_employees\<lparr>im_employees := [ready_payload], im_by_id := [(''mem-1'', ready_payload)]\<rparr>"

definition sent_entry :: PayRunEntry where
  "sent_entry = \<lparr>pe_provider_employee_id = ''mem-1'', pe_regular_hours = 1, pe_ot_hours = 0, pe_dt_hours = 0, pe_hourly_rate = 20,
     pe_sick_hours = 0, pe_sick_balance_hours = Some 0\<rparr>"

definition paid_line :: PayRunResultLine where
  "paid_line = \<lparr>rl_provider_employee_id = ''mem-1'', rl_gross = 20, rl_employee_taxes = 3, rl_employer_taxes = 2, rl_net = 17\<rparr>"

definition ran :: InMemoryPayrollProvider where
  "ran = synced\<lparr>im_runs := [(''mem-run-1'', \<lparr>rs_status = ''processed'', rs_lines = [paid_line]\<rparr>)], im_submitted := [(''mem-run-1'', [sent_entry])]\<rparr>"

lemma apportion_single:
  assumes "centi x" "0 \<le> x" "x \<le> 2 * 10 ^ 12" "0 < m" "m < 10 ^ 12"
  shows "apportion id x [(p, of_int m)] CENTS = Inr [(p, x)]"
proof -
  obtain sh where sh: "apportion id x (dec_weights [(p, m)]) CENTS = Inr sh" "sum_list (map (\<lambda>k. dict_get sh k 0) (keys [(p, m)])) = x"
    using bucket_split [of "[(p, m)]" x] assms by (auto simp: positive_minutes_def)
  have "keys sh = [p]" using apportion_keys [OF sh(1)] by (simp add: dec_weights_def)
  then obtain y where "sh = [(p, y)]" by (cases sh) auto
  with sh show ?thesis by (simp add: dec_weights_def)
qed

lemma centi_nat: "centi 1" "centi 20" "centi 3" "centi 2" "centi 17"
  by (rule centiI [where n = 100], simp, rule centiI [where n = 2000], simp, rule centiI [where n = 300], simp,
      rule centiI [where n = 200], simp, rule centiI [where n = 1700], simp)

lemma hour_split: "apportion id x [(p, 60)] CENTS = Inr [(p, x)]" "apportion id x [(p, 1)] CENTS = Inr [(p, x)]" if "centi x" "0 \<le> x" "x \<le> 20"
proof -
  have "x \<le> 2 * 10 ^ 12" using that(3) by simp
  then show "apportion id x [(p, 60)] CENTS = Inr [(p, x)]" "apportion id x [(p, 1)] CENTS = Inr [(p, x)]"
    using apportion_single [of x 60 p] apportion_single [of x 1 p] that by simp_all
qed

lemma one_hour: "quantize (ddiv 60 60) CENTS ROUND_HALF_EVEN = Inr 1"
proof -
  have "ddiv 60 60 = 1" using ctx_of_int [of 1] by (simp add: ddiv_def prec_def)
  then show ?thesis by (simp add: quantize_def round_int_def half_even_def prec_def)
qed

lemma ready_weights: "line_weights ready_core ''SJCES'' 7 1 1 0 = Inr [(''SJCES'', 1)]"
proof -
  have m: "card_property_minutes ready_core approved_card = Inr [(''SJCES'', 60)]"
    by (simp add: card_property_minutes_def ready_days property_minutes_for_day_def recorded_minutes_simps add_minutes_def dict_add_def)
  have "property_hours_for_timecard ready_core approved_card = Inr [(''SJCES'', 1)]"
    using hour_split(1) [of 1 "''SJCES''"] centi_nat(1) by (simp add: property_hours_for_timecard_def m one_hour dec_weights_def)
  moreover have "filter (\<lambda>c. tc_employee_id c = 7 \<and> tc_period_start c = 1) (timecards ready_core) = [approved_card]"
    by (simp add: ready_core_def example_card_def)
  ultimately show ?thesis by (simp add: line_weights_def scalar_one_or_none_def)
qed

lemma str_one: "str_nat (Suc 0) = ''1''"
  by (simp add: str_nat.simps char_of_def bit_0)

lemma ready_sent: "im_submit_pay_run synced 1 14 19 [sent_entry] = (ran, Inr ''mem-run-1'')"
proof -
  have q: "cents 20 = Inr 20" "cents 3 = Inr 3" "cents 2 = Inr 2" by (simp_all add: quantize_def round_int_def half_even_def prec_def)
  have "im_result_line sent_entry = Inr paid_line" by (simp add: im_result_line_def gross_of_def sent_entry_def q paid_line_def)
  then show ?thesis by (simp add: im_submit_pay_run_def Let_def synced_def no_employees_def ran_def str_one)
qed

text \<open>The run as it is recorded.\<close>

definition boss_run :: "instant \<Rightarrow> PayRun" where
  "boss_run now = \<lparr>rn_pay_run_id = 1, rn_property_id = ''SJCES'', rn_period_start = 1, rn_period_end = 14, rn_check_date = 19, rn_status = ''submitted'',
     rn_provider = ''memory'', rn_provider_run_id = Some ''mem-run-1'', rn_created_by = ''boss'', rn_submitted_at = Some now,
     rn_processed_at = None, rn_failure_reason = None\<rparr>"

definition ref_of :: "string \<Rightarrow> ProviderEmployeeRef" where
  "ref_of fp = \<lparr>rf_employee_id = 7, rf_provider = ''memory'', rf_provider_employee_id = ''mem-1'', rf_payload_fingerprint = Some fp\<rparr>"

definition census_row :: PayRunLineProperty where
  "census_row = \<lparr>cn_pay_run_id = 1, cn_employee_id = 7, cn_property_id = ''SJCES'', cn_department_id = None, cn_hours = 1, cn_gross = 0, cn_employer_burden = 0\<rparr>"

definition submitted_state :: "string \<Rightarrow> instant \<Rightarrow> pay_db" where
  "submitted_state fp now = audit_run ''boss'' ''submit_pay_run'' 1 ((ready_at [boss_run now] [ref_of fp])
     \<lparr>pay_run_lines := [run_line 1 shown_entry], pay_run_line_properties := [census_row]\<rparr>)"

definition memory_caps :: ProviderCapabilities where
  "memory_caps = pv_capabilities in_memory"

lemma ready_fingerprint: "\<exists>fp. payload_fingerprint id (ready_at runs refs) 7 = Inr fp"
  by (simp add: payload_fingerprint_def fingerprint_parts_def ready_at_def ready_pay_def get_employee_def ready_core_def approved_db_def
      require_not_none_def scalar_one_or_none_def)

lemma ready_opened: "build_payroll_employee plain_vault (ready_at runs refs) 7 = Inr ready_payload"
  by (simp add: build_payroll_employee_def ready_at_def ready_pay_def get_employee_def ready_core_def approved_db_def require_not_none_def
      scalar_one_or_none_def require_def deposit_chain_def open_field_def open_account_def catchE_def ready_payload_def)

lemma ready_shown: "with_balances ready_core (Some memory_caps) (Some 19) [ready_entry] = Inr [shown_entry]"
proof -
  have "sick_ledger ready_core = []" by (simp add: ready_core_def approved_db_def example_shift_def empty_db_def)
  then have "balance_on ready_core 7 19 = Inr 0" by (simp add: balance_on_def sick_fold_def quantize_def round_int_def half_even_def prec_def)
  then show ?thesis by (simp add: with_balances_def memory_caps_def in_memory_def shown_entry_def ready_entry_def)
qed

lemma ready_preflight:
  assumes "\<forall>r \<in> set runs. rn_submitted_at r = None"
  shows "\<exists>report. assemble_pay_run_entries id (ready_at runs refs) ''SJCES'' 3 1 (Some memory_caps) = Inr report \<and> rp_problems report = [] \<and> rp_entries report = [shown_entry]
    \<and> rp_property_id report = ''SJCES'' \<and> rp_period_start report = 1 \<and> rp_period_end report = 14 \<and> rp_check_date report = Some 19"
proof (rule ready_report_at [OF ready_person _ ready_shown])
  show "refs = [] \<or> (\<exists>c. Some memory_caps = Some c \<and> pc_supports_employee_update c)" by (simp add: memory_caps_def in_memory_def)
  show "earlier_runs (ready_at runs refs) p d = []" for p d using assms by (simp add: earlier_runs_def ready_at_def filter_empty_conv)
qed

definition draft :: PayRun where
  "draft = \<lparr>rn_pay_run_id = 1, rn_property_id = ''SJCES'', rn_period_start = 1, rn_period_end = 14, rn_check_date = 19, rn_status = ''draft'',
     rn_provider = ''memory'', rn_provider_run_id = None, rn_created_by = ''boss'', rn_submitted_at = None,
     rn_processed_at = None, rn_failure_reason = None\<rparr>"

lemma shown_entry_simps [simp]: "en_employee_id shown_entry = 7" "en_sick_hours shown_entry = 0" "entry_total_hours shown_entry = 1"
  by (simp_all add: shown_entry_def ready_entry_def entry_total_hours_def)

lemma ready_syncs:
  "\<exists>fp. sync_employees id plain_vault in_memory ''memory'' [7] no_employees (ready_at [draft] []) = (synced, ready_at [draft] [ref_of fp], Inr [(7, ''mem-1'')])"
proof -
  obtain fp where fp: "payload_fingerprint id (ready_at [draft] []) 7 = Inr fp" using ready_fingerprint by blast
  have "im_sync_employee no_employees ready_payload = (synced, Inr ''mem-1'')"
    by (simp add: im_sync_employee_def Let_def no_employees_def synced_def str_one)
  then have "first_sync id plain_vault in_memory ''memory'' 7 no_employees (ready_at [draft] []) = (synced, Inr (ready_at [draft] [ref_of fp], ''mem-1''))"
    by (simp add: first_sync_def fp ready_opened in_memory_def add_ref_def ref_of_def) (simp add: ready_at_def)
  then show ?thesis by (intro exI [of _ fp]) (simp add: sync_employees_def ready_at_def)
qed

lemma ready_census: "entry_census ready_core 1 ''SJCES'' 1 shown_entry = Inr [census_row]"
  using hour_split(2) [of 1 "''SJCES''"] centi_nat(1) by (simp add: entry_census_def ready_weights census_rows_def census_row_def)

lemma ready_executes:
  "\<exists>fp. execute_pay_run id plain_vault in_memory (\<lambda>s. s) ''memory'' ''boss'' 3 1 now ''SJCES'' no_employees ready_pay = (ran, Inr (submitted_state fp now, 1))"
proof -
  obtain report where r: "assemble_pay_run_entries id ready_pay ''SJCES'' 3 1 (Some memory_caps) = Inr report" "rp_problems report = []"
    "rp_entries report = [shown_entry]" "rp_property_id report = ''SJCES''" "rp_period_start report = 1" "rp_period_end report = 14" "rp_check_date report = Some 19"
    using ready_preflight [of "[]" "[]"] unfolding ready_at_Nil by auto
  obtain fp where sy: "sync_employees id plain_vault in_memory ''memory'' [7] no_employees (ready_at [draft] []) = (synced, ready_at [draft] [ref_of fp], Inr [(7, ''mem-1'')])"
    using ready_syncs by blast
  have "\<forall>x \<in> set [draft]. rn_submitted_at x = None" by (simp add: draft_def)
  from ready_preflight [OF this, of "[ref_of fp]"] obtain again where a:
    "assemble_pay_run_entries id (ready_at [draft] [ref_of fp]) ''SJCES'' 3 1 (Some memory_caps) = Inr again" "rp_problems again = []" "rp_entries again = [shown_entry]"
    by blast
  have caps: "pv_capabilities in_memory = memory_caps" by (simp add: memory_caps_def)
  have clear: "clear_failed ready_pay ''SJCES'' 1 = Inr ready_pay" by (simp add: clear_failed_def ready_pay_def scalar_one_or_none_def)
  have i: "next_id (map rn_pay_run_id (pay_runs ready_pay)) = 1" by (simp add: ready_pay_def next_id_def)
  have d: "add_draft ready_pay 1 report 19 ''memory'' ''boss'' = ready_at [draft] []"
    by (simp add: add_draft_def r draft_def ready_at_def ready_pay_def)
  have entry: "provider_entry [(7, ''mem-1'')] shown_entry = Inr sent_entry"
    by (simp add: provider_entry_def dict_index_def sent_entry_def shown_entry_def ready_entry_def)
  have sub: "pv_submit_pay_run in_memory synced 1 14 19 [sent_entry] = (ran, Inr ''mem-run-1'')" using ready_sent by (simp add: in_memory_def)
  have core: "core (ready_at rs fs) = ready_core" for rs fs by (simp add: ready_at_def ready_pay_def)
  have rec: "record_submitted (ready_at [draft] [ref_of fp]) 1 report ''boss'' ''mem-run-1'' now = Inr (submitted_state fp now)"
    by (simp add: record_submitted_def core r ready_census submitted_state_def Let_def)
      (simp add: set_run_def ready_at_def ready_pay_def draft_def boss_run_def)
  have "submit_run id plain_vault in_memory (\<lambda>s. s) ''memory'' ''boss'' 3 1 now report 19 1 no_employees (ready_at [draft] []) = (ran, Inr (submitted_state fp now))"
    unfolding submit_run_def r caps using sy by (simp add: a entry sub rec Let_def)
  then show ?thesis
    unfolding execute_pay_run_def caps r(1) by (simp add: report_ok_def r require_not_none_def clear i d Let_def) blast
qed

section \<open>Fetching\<close>

definition audited_core :: db where
  "audited_core = core (submitted_state [] 0)"

lemma submitted_simps [simp]:
  "core (submitted_state fp now) = audited_core" "pay_runs (submitted_state fp now) = [boss_run now]"
  "pay_run_lines (submitted_state fp now) = [run_line 1 shown_entry]" "pay_run_line_properties (submitted_state fp now) = [census_row]"
  "provider_refs (submitted_state fp now) = [ref_of fp]" "actual_labor_facts (submitted_state fp now) = []"
  by (simp_all add: submitted_state_def audit_run_def audited_core_def ready_at_def ready_pay_def)

lemma audited_reads: "assignments audited_core = assignments ready_core" "get_employee audited_core = get_employee ready_core"
    "timecards audited_core = timecards ready_core"
  by (simp_all add: audited_core_def submitted_state_def audit_run_def ready_at_def ready_pay_def get_employee_def fun_eq_iff)

lemma audited_on: "assignments_on audited_core 7 d True = (if 1 \<le> d then assignments ready_core else [])"
  using ready_on [of d] by (simp add: assignments_on_def audited_reads)

lemma ready_place: "assignments ready_core = [\<lparr>ea_assignment_id = 1, ea_employee_id = 7, ea_property_id = ''SJCES'', ea_department_id = Some 3,
     ea_position_id = None, ea_is_primary = True, ea_status = ''active'', ea_effective_from = 1, ea_effective_to = None\<rparr>]"
  by (simp add: ready_core_def)

lemma ready_line:
  "fetch_line audited_core (boss_run now) [(''mem-1'', 7)] [census_row] paid_line (start [run_line 1 shown_entry] [census_row]) = Inr st
     \<longleftrightarrow> st = \<lparr>fs_lines = [price_line paid_line (Some 3) (run_line 1 shown_entry)],
          fs_census = [census_row\<lparr>cn_department_id := Some 3, cn_gross := 20, cn_employer_burden := 2\<rparr>],
          fs_agg = [((''SJCES'', Some 3), (1, 20, 2))], fs_written = 1\<rparr>"
proof -
  have emp: "\<exists>x. get_employee audited_core 7 = Some x" by (simp add: audited_reads get_employee_def ready_core_def approved_db_def)
  then obtain x where x: "get_employee audited_core 7 = Some x" by blast
  have prim: "primary_assignment_on audited_core 7 14 = Inr (Some (hd (assignments ready_core)))"
    by (simp add: primary_assignment_on_def audited_on) (simp add: ready_place)
  have dept: "department_at audited_core 7 ''SJCES'' 14 = Inr (Some 3)"
    by (simp add: department_at_def assignment_at_def audited_on) (simp add: ready_place)
  have sp: "apportion id 20 [(''SJCES'', 1)] CENTS = Inr [(''SJCES'', 20)]" "apportion id 2 [(''SJCES'', 1)] CENTS = Inr [(''SJCES'', 2)]"
    using hour_split(2) [of 20 "''SJCES''"] hour_split(2) [of 2 "''SJCES''"] centi_nat by simp_all
  have run: "rn_pay_run_id (boss_run now) = 1" "rn_period_end (boss_run now) = 14" by (simp_all add: boss_run_def)
  have l: "ln_pay_run_id (run_line 1 shown_entry) = 1" "ln_employee_id (run_line 1 shown_entry) = 7" by (simp_all add: run_line_def)
  have c: "cn_pay_run_id census_row = 1" "cn_employee_id census_row = 7" "cn_property_id census_row = ''SJCES''" "cn_hours census_row = 1"
    by (simp_all add: census_row_def)
  have p: "rl_provider_employee_id paid_line = ''mem-1''" "rl_gross paid_line = 20" "rl_employer_taxes paid_line = 2" by (simp_all add: paid_line_def)
  have priced: "price_row audited_core 7 14 [(''SJCES'', 20)] [(''SJCES'', 2)] census_row = Inr (census_row\<lparr>cn_department_id := Some 3, cn_gross := 20, cn_employer_burden := 2\<rparr>)"
    by (simp add: price_row_def dept dict_index_def c)
  show ?thesis
    unfolding fetch_line_def
    by (auto simp: p l run x prim require_not_none_def line_census_def c row_weights_def sp priced put_census_def census_key_def agg_add_def price_line_def
        ready_place Let_def)
qed

lemma ready_fetches:
  "\<exists>s'. fetch_pay_run_results in_memory ran (submitted_state fp now) (boss_run now) later = Inr (s', 1)"
proof -
  have get: "pv_get_pay_run in_memory ran ''mem-run-1'' = Inr \<lparr>rs_status = ''processed'', rs_lines = [paid_line]\<rparr>"
    by (simp add: in_memory_def im_get_pay_run_def ran_def)
  have run: "rn_provider_run_id (boss_run now) = Some ''mem-run-1''" "rn_provider (boss_run now) = ''memory''" by (simp_all add: boss_run_def)
  have ids: "[(''mem-1'', 7)] = fold (\<lambda>r. AList.update (rf_provider_employee_id r) (rf_employee_id r)) (filter (\<lambda>r. rf_provider r = rn_provider (boss_run now)) (provider_refs (submitted_state fp now))) []"
    by (simp add: run ref_of_def)
  obtain st where st: "fetch_line audited_core (boss_run now) [(''mem-1'', 7)] [census_row] paid_line (start [run_line 1 shown_entry] [census_row]) = Inr st" "fs_written st = 1"
    using ready_line [of now] by fastforce
  then have "foldE (fetch_line (core (submitted_state fp now)) (boss_run now) [(''mem-1'', 7)] (pay_run_line_properties (submitted_state fp now)))
      (rs_lines \<lparr>rs_status = ''processed'', rs_lines = [paid_line]\<rparr>) \<lparr>fs_lines = pay_run_lines (submitted_state fp now),
        fs_census = pay_run_line_properties (submitted_state fp now), fs_agg = [], fs_written = 0\<rparr> = Inr st" by (simp add: start_def)
  from fetch_results_again [OF run(1) get _ ids this] st(2) show ?thesis by simp
qed

lemma audited_sane: "sane_cards ready_core" "sane_cards audited_core"
proof -
  have days: "compute_timecard ready_core approved_card = Inr [approved_day]" by (rule ready_days)
  have cards: "timecards ready_core = [approved_card]" by (simp add: ready_core_def)
  have dt: "card_datetimes ready_core" by (simp add: card_datetimes_def ready_core_def approved_db_def example_shift_def empty_db_def minute_def)
  show r: "sane_cards ready_core" using dt days by (simp add: sane_cards_def cards)
  have reads: "punches audited_core = punches ready_core" "adjustments audited_core = adjustments ready_core" "punch_event audited_core = punch_event ready_core"
    by (simp_all add: audited_core_def submitted_state_def audit_run_def ready_at_def ready_pay_def punch_event_def get_device_def fun_eq_iff)
  have "compute_timecard audited_core = compute_timecard ready_core"
    by (simp add: fun_eq_iff compute_timecard_def timecard_events_def reads)
  moreover have "card_datetimes audited_core = card_datetimes ready_core" by (simp add: card_datetimes_def reads)
  ultimately show "sane_cards audited_core" using r by (simp add: sane_cards_def audited_reads)
qed

theorem fetch_conserves_money_witness:
  "\<exists>s'. fetch_pay_run_results in_memory ran (submitted_state [] 0) (boss_run 0) 9 = Inr (s', 1) \<and> sum_list (map af_gross (actual_labor_facts s')) = 20"
proof -
  obtain s' where s': "fetch_pay_run_results in_memory ran (submitted_state [] 0) (boss_run 0) 9 = Inr (s', 1)" using ready_fetches by blast
  have get: "pv_get_pay_run in_memory ran ''mem-run-1'' = Inr \<lparr>rs_status = ''processed'', rs_lines = [paid_line]\<rparr>"
    by (simp add: in_memory_def im_get_pay_run_def ran_def)
  have m: "census_matches (submitted_state [] 0) (boss_run 0)" by (simp add: census_matches_def run_line_def census_row_def boss_run_def)
  have run: "rn_provider_run_id (boss_run 0) = Some ''mem-run-1''" by (simp add: boss_run_def)
  have k: "distinct (map census_key (pay_run_line_properties (submitted_state [] 0)))" "sane_cards (core (submitted_state [] 0))"
    using audited_sane by simp_all
  from fetch_conserves_money [OF s' run get _ m k(2,1)]
  have sums: "sum_list (map af_gross (filter (\<lambda>f. af_pay_run_id f = rn_pay_run_id (boss_run 0)) (actual_labor_facts s'))) = 20"
    "filter (\<lambda>f. af_pay_run_id f \<noteq> rn_pay_run_id (boss_run 0)) (actual_labor_facts s') = []" by (simp_all add: paid_line_def)
  then have "filter (\<lambda>f. af_pay_run_id f = rn_pay_run_id (boss_run 0)) (actual_labor_facts s') = actual_labor_facts s'" by (auto simp: filter_empty_conv filter_id_conv)
  with s' sums show ?thesis by auto
qed

theorem fetch_idempotent_witness:
  "\<exists>s1. fetch_pay_run_results in_memory ran (submitted_state [] 0) (boss_run 0) 9 = Inr (s1, 1)
     \<and> fetch_pay_run_results in_memory ran s1 ((boss_run 0)\<lparr>rn_status := ''processed'', rn_processed_at := Some 9\<rparr>) 12
       = Inr (set_run 1 (\<lambda>r. r\<lparr>rn_status := ''processed'', rn_processed_at := Some 12\<rparr>) s1, 1)"
proof -
  obtain s1 where s1: "fetch_pay_run_results in_memory ran (submitted_state [] 0) (boss_run 0) 9 = Inr (s1, 1)" using ready_fetches by blast
  have get: "pv_get_pay_run in_memory ran ''mem-run-1'' = Inr \<lparr>rs_status = ''processed'', rs_lines = [paid_line]\<rparr>"
    by (simp add: in_memory_def im_get_pay_run_def ran_def)
  let ?again = "(boss_run 0)\<lparr>rn_status := ''processed'', rn_processed_at := Some 9\<rparr>"
  have stored: "census_stored (submitted_state [] 0) (boss_run 0)" by (simp add: census_stored_def run_line_def census_row_def boss_run_def)
  have run: "rn_provider_run_id (boss_run 0) = Some ''mem-run-1''" "rn_pay_run_id (boss_run 0) = 1" "same_run (boss_run 0) ?again"
    "rn_provider_run_id ?again = Some ''mem-run-1''" "rn_provider ?again = rn_provider (boss_run 0)" by (simp_all add: boss_run_def same_run_def)
  have k: "distinct (map census_key (pay_run_line_properties (submitted_state [] 0)))" "sane_cards (core (submitted_state [] 0))"
    using audited_sane by simp_all
  have st: "rs_status \<lparr>rs_status = ''processed'', rs_lines = [paid_line]\<rparr> = ''processed''" by simp
  from fetch_idempotent [OF s1 run(1) get st stored k run(3-5), of 12] s1 show ?thesis unfolding run(2) by blast
qed

section \<open>The run is reachable\<close>

lemma ready_core_wf: "core_wf (core ready_pay)"
  using ready_keys audited_sane(1) by (simp add: core_wf_def) (simp add: ready_pay_def)

lemma no_env: "quiet_env (\<lambda>s. s)"
  by (simp add: quiet_env_def keeps_payroll_def)

lemma ready_no_payroll: "no_payroll ready_pay"
  by (simp add: no_payroll_def ready_pay_def)

lemma ready_created:
  obtains fp where "create_run id plain_vault in_memory (\<lambda>s. s) ''memory'' ''boss'' 3 1 now ''SJCES'' no_employees ready_pay
    = (ran, submitted_state fp now, Inr (boss_run now))"
proof -
  obtain fp where fp: "execute_pay_run id plain_vault in_memory (\<lambda>s. s) ''memory'' ''boss'' 3 1 now ''SJCES'' no_employees ready_pay
    = (ran, Inr (submitted_state fp now, 1))" using ready_executes by blast
  have "get_run (submitted_state fp now) 1 = Inr (boss_run now)" by (simp add: get_run_def boss_run_def)
  then have "create_run id plain_vault in_memory (\<lambda>s. s) ''memory'' ''boss'' 3 1 now ''SJCES'' no_employees ready_pay
    = (ran, submitted_state fp now, Inr (boss_run now))" using fp by (simp add: create_run_def boss_run_def)
  with that show thesis .
qed

lemma ready_reachable: "\<exists>fp. pay_step\<^sup>*\<^sup>* (no_employees, ready_pay) (ran, submitted_state fp now)"
  using ready_created pay_step.create [OF _ no_env ready_core_wf] r_into_rtranclp by metis

theorem payroll_tables_wf_witness:
  "\<exists>fp. pay_step\<^sup>*\<^sup>* (no_employees, ready_pay) (ran, submitted_state fp 0) \<and> pay_wf (submitted_state fp 0) \<and> pay_runs (submitted_state fp 0) = [boss_run 0]"
proof -
  obtain fp where r: "pay_step\<^sup>*\<^sup>* (no_employees, ready_pay) (ran, submitted_state fp 0)" using ready_reachable by blast
  from payroll_tables_wf [OF r ready_no_payroll] r show ?thesis by auto
qed

theorem accepted_run_final_witness:
  "\<exists>fp s2. fetch_results in_memory ''memory'' ran (submitted_state fp 0) ''boss'' 1 9 = Inr (s2, ''processed'', 1)
     \<and> (\<exists>later \<in> set (pay_runs s2). rn_provider_run_id later = Some ''mem-run-1'' \<and> accepted later)"
proof -
  obtain fp where r: "pay_step\<^sup>*\<^sup>* (no_employees, ready_pay) (ran, submitted_state fp 0)" using ready_reachable by blast
  obtain s1 where s1: "fetch_pay_run_results in_memory ran (submitted_state fp 0) (boss_run 0) 9 = Inr (s1, 1)" using ready_fetches by blast
  have run: "get_run (submitted_state fp 0) 1 = Inr (boss_run 0)" by (simp add: get_run_def boss_run_def)
  have get: "pv_get_pay_run in_memory ran ''mem-run-1'' = Inr \<lparr>rs_status = ''processed'', rs_lines = [paid_line]\<rparr>"
    by (simp add: in_memory_def im_get_pay_run_def ran_def)
  have done1: "get_run s1 1 = Inr ((boss_run 0)\<lparr>rn_status := ''processed'', rn_processed_at := Some 9\<rparr>)"
  proof (rule fetch_results_inr [OF s1 _ get])
    show "rn_provider_run_id (boss_run 0) = Some ''mem-run-1''" by (simp add: boss_run_def)
  qed (simp_all add: get_run_def set_run_def boss_run_def)
  define s2 where "s2 = audit_run ''boss'' ''fetch_pay_run_results'' 1 s1"
  have f: "fetch_results in_memory ''memory'' ran (submitted_state fp 0) ''boss'' 1 9 = Inr (s2, ''processed'', 1)"
  proof -
    have "rn_status (boss_run 0) = ''submitted''" "rn_provider (boss_run 0) = ''memory''" by (simp_all add: boss_run_def)
    then show ?thesis by (simp add: fetch_results_def run s1 [simplified] done1 s2_def)
  qed
  have "core_wf audited_core" using ready_core_wf audited_sane(2)
    by (simp add: core_wf_def ready_pay_def audited_reads) (simp add: audited_core_def submitted_state_def audit_run_def ready_at_def ready_pay_def)
  then have "pay_step\<^sup>*\<^sup>* (ran, submitted_state fp 0) (ran, s2)" using pay_step.fetch [OF f] by auto
  from accepted_run_final [OF r ready_no_payroll this, of "boss_run 0"] f show ?thesis by (auto simp: accepted_def boss_run_def)
qed

theorem no_second_submission_witness:
  "\<exists>fp r. create_run id plain_vault in_memory (\<lambda>s. s) ''memory'' ''boss'' 5 1 9 ''SJCES'' ran (submitted_state fp 0) = (ran, submitted_state fp 0, r) \<and> (\<exists>e. r = Inl e)"
proof -
  obtain fp where r: "pay_step\<^sup>*\<^sup>* (no_employees, ready_pay) (ran, submitted_state fp 0)" using ready_reachable by blast
  have wf: "pay_wf (submitted_state fp 0)" using pay_steps_wf [OF r] no_payroll_wf [OF ready_no_payroll] by simp
  have p: "fst (period_for 5 1) = rn_period_start (boss_run 0)" by (simp add: period_for_def PERIOD_DAYS_def boss_run_def)
  obtain w' s' x where c: "create_run id plain_vault in_memory (\<lambda>s. s) ''memory'' ''boss'' 5 1 9 ''SJCES'' ran (submitted_state fp 0) = (w', s', x)"
    by (metis prod_cases3)
  have home: "''SJCES'' = rn_property_id (boss_run 0)" by (simp add: boss_run_def)
  have mem: "boss_run 0 \<in> set (pay_runs (submitted_state fp 0))" "accepted (boss_run 0)" by (simp_all add: accepted_def boss_run_def)
  from no_second_submission [OF wf mem p c [unfolded home]] c show ?thesis by blast
qed

theorem submitted_run_snapshot_witness:
  "\<exists>fp (report :: PreflightReport). create_run id plain_vault in_memory (\<lambda>s. s) ''memory'' ''boss'' 3 1 0 ''SJCES'' no_employees ready_pay = (ran, submitted_state fp 0, Inr (boss_run 0))
     \<and> list_all2 (\<lambda>l e. ln_hours l = en_regular_hours e + en_ot_hours e + en_dt_hours e + en_sick_hours e)
          (filter (\<lambda>l. ln_pay_run_id l = 1) (pay_run_lines (submitted_state fp 0))) (rp_entries report)
     \<and> length (rp_entries report) = 1"
proof -
  obtain fp where c: "create_run id plain_vault in_memory (\<lambda>s. s) ''memory'' ''boss'' 3 1 0 ''SJCES'' no_employees ready_pay
    = (ran, submitted_state fp 0, Inr (boss_run 0))" using ready_created by blast
  have i: "rn_pay_run_id (boss_run 0) = 1" by (simp add: boss_run_def)
  have one: "length (filter (\<lambda>l. ln_pay_run_id l = 1) (pay_run_lines (submitted_state fp 0))) = 1"
    by (simp add: submitted_state_def audit_run_def run_line_def)
  from submitted_run_snapshot [OF c no_payroll_wf [OF ready_no_payroll] no_env ready_core_wf, unfolded i] obtain report :: PreflightReport where
    r: "list_all2 (\<lambda>l e. ln_hours l = en_regular_hours e + en_ot_hours e + en_dt_hours e + en_sick_hours e)
       (filter (\<lambda>l. ln_pay_run_id l = 1) (pay_run_lines (submitted_state fp 0))) (rp_entries report)"
    by (elim exE conjE) (rule that, erule list_all2_mono, elim conjE, assumption)
  show ?thesis using c r list_all2_lengthD [OF r] one by (intro exI [of _ fp] exI [of _ report]) simp
qed

end
