(* ===== verification/Access.thy ===== *)
theory Access
  imports Assignments
begin

text \<open>
  Who may act: the role grants of \<^verbatim>\<open>usali/auth.py\<close> and the scopes of \<^verbatim>\<open>usali/workforce.py\<close>.  The
  verified token is a parameter (\<open>Principal\<close>), the organisation's walls are the tables of the state: a session
  sees the rows of one organisation only.
\<close>

section \<open>Roles\<close>

definition OPERATOR_ROLES :: "string list" where
  "OPERATOR_ROLES = [''org_admin'', ''accountant'', ''property_gm'', ''department_manager'', ''payroll_admin'']"

definition ORG_WIDE_ROLES :: "string list" where
  "ORG_WIDE_ROLES = [''org_admin'', ''accountant'', ''payroll_admin'']"

record Principal =
  pi_subject :: string
  pi_roles :: "string list"
  pi_scopes :: "(string \<times> int option) list option"
  pi_org_aliases :: "string list option"

definition require_operator :: "Principal \<Rightarrow> unit res" where
  "require_operator p = (if set (pi_roles p) \<inter> set OPERATOR_ROLES = {} then Inl (HTTPException 403) else Inr ())"

definition effective_roles :: "db \<Rightarrow> string \<Rightarrow> string set" where
  "effective_roles s subject = set (map ra_role (filter (\<lambda>r. ra_keycloak_subject r = subject) (role_assignments s)))"

definition require_grants :: "string list \<Rightarrow> db \<Rightarrow> Principal \<Rightarrow> unit res" where
  "require_grants allowed s p =
     bindE (require_operator p) (\<lambda>_.
       if effective_roles s (pi_subject p) \<inter> set allowed = {} then Inl (HTTPException 403) else Inr ())"

text \<open>\<^verbatim>\<open>_active_org_alias\<close>: \<open>header_alias\<close> is the header, \<open>[]\<close> and absent alike.\<close>

definition active_org_alias :: "Principal \<Rightarrow> string option \<Rightarrow> string res" where
  "active_org_alias p header_alias =
    (case pi_org_aliases p of
       None \<Rightarrow> Inl (HTTPException 403)
     | Some aliases \<Rightarrow>
         if aliases = [] then Inl (HTTPException 403)
         else case header_alias of
           Some (c # cs) \<Rightarrow> if c # cs \<in> set aliases then Inr (c # cs) else Inl (HTTPException 403)
         | _ \<Rightarrow> (case remdups aliases of [a] \<Rightarrow> Inr a | _ \<Rightarrow> Inl (HTTPException 400)))"

section \<open>Scopes\<close>

record Scope =
  sc_all_properties :: bool
  sc_properties :: "string list"
  sc_departments :: "(string \<times> int) list"

definition allows_property :: "Scope \<Rightarrow> string \<Rightarrow> bool" where
  "allows_property sc p \<longleftrightarrow> sc_all_properties sc \<or> p \<in> set (sc_properties sc)"

definition allows_department :: "Scope \<Rightarrow> string \<Rightarrow> int \<Rightarrow> bool" where
  "allows_department sc p d \<longleftrightarrow> sc_all_properties sc \<or> p \<in> set (sc_properties sc) \<or> (p, d) \<in> set (sc_departments sc)"

definition build_scope :: "(string \<times> int option) list \<Rightarrow> Scope" where
  "build_scope entries =
     \<lparr>sc_all_properties = False, sc_properties = map fst (filter (\<lambda>(p, d). d = None) entries),
      sc_departments = List.map_filter (\<lambda>(p, d). map_option (Pair p) d) entries\<rparr>"

definition scope_from_claim :: "(string \<times> int option) list \<Rightarrow> db \<Rightarrow> Scope" where
  "scope_from_claim scopes s = build_scope (filter (\<lambda>(p, d). p \<in> set (map pr_property_id (properties s))) scopes)"

definition grants_of :: "db \<Rightarrow> string \<Rightarrow> (string option \<times> int option) list" where
  "grants_of s subject =
     map (\<lambda>r. (ra_property_id r, ra_department_id r)) (filter (\<lambda>r. ra_keycloak_subject r = subject) (role_assignments s))"

definition placed_grants :: "(string option \<times> int option) list \<Rightarrow> (string \<times> int option) list" where
  "placed_grants rows = List.map_filter (\<lambda>(p, d). map_option (\<lambda>q. (q, d)) p) rows"

definition resolve_scope :: "Principal \<Rightarrow> db \<Rightarrow> Scope" where
  "resolve_scope p s =
    (let rows = grants_of s (pi_subject p) in
     if \<exists>(q, d) \<in> set rows. q = None then \<lparr>sc_all_properties = True, sc_properties = [], sc_departments = []\<rparr>
     else case pi_scopes p of
       Some scopes \<Rightarrow> scope_from_claim scopes s
     | None \<Rightarrow> build_scope (placed_grants rows))"

definition assignment_scope :: "Principal \<Rightarrow> db \<Rightarrow> Scope" where
  "assignment_scope p s =
    (case pi_scopes p of
       Some scopes \<Rightarrow> scope_from_claim scopes s
     | None \<Rightarrow> build_scope (placed_grants (grants_of s (pi_subject p))))"

definition require_property_access :: "db \<Rightarrow> Principal \<Rightarrow> string \<Rightarrow> unit res" where
  "require_property_access s p property_id =
     (if ''org_admin'' \<in> effective_roles s (pi_subject p) then Inr ()
      else if \<not> allows_property (assignment_scope p s) property_id then Inl (HTTPException 403) else Inr ())"

definition property_is_here :: "db \<Rightarrow> string \<Rightarrow> bool" where
  "property_is_here s property_id \<longleftrightarrow> property_id \<in> set (map pr_property_id (properties s))"

definition require_onboardable_property :: "db \<Rightarrow> Principal \<Rightarrow> string \<Rightarrow> unit res" where
  "require_onboardable_property s p property_id =
     (if \<not> property_is_here s property_id then Inl (HTTPException 403)
      else if ''org_admin'' \<in> effective_roles s (pi_subject p) then Inr ()
      else if \<not> allows_property (assignment_scope p s) property_id then Inl (HTTPException 403) else Inr ())"

definition require_readable_property :: "db \<Rightarrow> Scope \<Rightarrow> string \<Rightarrow> unit res" where
  "require_readable_property s sc property_id =
     (if \<not> allows_property sc property_id \<or> \<not> property_is_here s property_id then Inl (HTTPException 403) else Inr ())"

section \<open>What a scope can open\<close>

lemma allows_build_scope [simp]:
  "allows_property (build_scope es) q \<longleftrightarrow> (q, None) \<in> set es"
  by (force simp: allows_property_def build_scope_def)

lemma in_placed_grants [simp]: "(q, d) \<in> set (placed_grants rows) \<longleftrightarrow> (Some q, d) \<in> set rows"
  by (force simp: placed_grants_def map_filter_def)

lemma in_grants_of:
  "(q, d) \<in> set (grants_of s u) \<longleftrightarrow> (\<exists>r \<in> set (role_assignments s). ra_keycloak_subject r = u \<and> ra_property_id r = q \<and> ra_department_id r = d)"
  by (auto simp: grants_of_def)

lemma allows_claim [simp]:
  "allows_property (scope_from_claim scopes s) q \<longleftrightarrow> (q, None) \<in> set scopes \<and> property_is_here s q"
  by (auto simp: scope_from_claim_def property_is_here_def)

lemma allows_assignment_scope:
  "allows_property (assignment_scope p s) q \<longleftrightarrow>
     (case pi_scopes p of
        Some scopes \<Rightarrow> (q, None) \<in> set scopes \<and> property_is_here s q
      | None \<Rightarrow> \<exists>r \<in> set (role_assignments s). ra_keycloak_subject r = pi_subject p \<and> ra_property_id r = Some q \<and> ra_department_id r = None)"
  by (auto simp: assignment_scope_def in_grants_of split: option.splits)

lemma in_effective_roles:
  "r \<in> effective_roles s u \<longleftrightarrow> (\<exists>g \<in> set (role_assignments s). ra_keycloak_subject g = u \<and> ra_role g = r)"
  by (auto simp: effective_roles_def)

lemma require_property_access_inr [inr]:
  "require_property_access s p q = Inr u \<longleftrightarrow> ''org_admin'' \<in> effective_roles s (pi_subject p) \<or> allows_property (assignment_scope p s) q"
  by (cases u) (simp add: require_property_access_def)

text \<open>
  Authority to write is never wider than authority to read, and a token cannot carry it over the wall: every property a caller
  may write to is one the caller's view opens, a property-wide grant or claim names it (an organisation-wide grant or a
  grant on a department alone opens nothing), and a property named by a claim belongs to the organisation.
\<close>

theorem write_scope_confined:
  assumes "allows_property (assignment_scope p s) q"
  shows "allows_property (resolve_scope p s) q
    \<and> (case pi_scopes p of
         Some scopes \<Rightarrow> (q, None) \<in> set scopes \<and> property_is_here s q
       | None \<Rightarrow> \<exists>r \<in> set (role_assignments s). ra_keycloak_subject r = pi_subject p \<and> ra_property_id r = Some q \<and> ra_department_id r = None)"
proof
  show "allows_property (resolve_scope p s) q"
  proof (cases "\<exists>(q, d) \<in> set (grants_of s (pi_subject p)). q = None")
    case True
    then show ?thesis by (simp add: resolve_scope_def allows_property_def)
  next
    case False
    then show ?thesis using assms by (auto simp: resolve_scope_def assignment_scope_def Let_def split: option.splits)
  qed
qed (use assms in \<open>simp only: allows_assignment_scope\<close>)

definition example_staff :: db where
  "example_staff = empty_db\<lparr>properties := [\<lparr>pr_property_id = ''A'', pr_timezone = ''UTC'', pr_wage_jurisdiction = Some ''US-CA''\<rparr>],
     role_assignments := [\<lparr>ra_keycloak_subject = ''gm'', ra_role = ''property_gm'', ra_property_id = Some ''A'', ra_department_id = None\<rparr>,
       \<lparr>ra_keycloak_subject = ''gm'', ra_role = ''accountant'', ra_property_id = None, ra_department_id = None\<rparr>]\<rparr>"

definition example_gm :: Principal where
  "example_gm = \<lparr>pi_subject = ''gm'', pi_roles = [''property_gm''], pi_scopes = None, pi_org_aliases = None\<rparr>"

theorem write_scope_confined_witness:
  "allows_property (resolve_scope example_gm example_staff) ''A'' \<and> \<not> allows_property (assignment_scope example_gm example_staff) ''B''"
proof -
  have "allows_property (assignment_scope example_gm example_staff) ''A''"
    by (simp add: allows_assignment_scope example_gm_def example_staff_def)
  from write_scope_confined [OF this] show ?thesis by (simp add: allows_assignment_scope example_gm_def example_staff_def)
qed

end
