(* ===== verification/Kiosk.thy ===== *)
theory Kiosk
  imports Access Timecards PyStr
begin

text \<open>
  \<^verbatim>\<open>usali/kiosk.py\<close>: enrolling and revoking devices, the device token, the punch with its photo, the
  punch state and the roster of a device, with the keys of \<^verbatim>\<open>usali/photo_store.py\<close> and the jurisdictions of
  \<^verbatim>\<open>usali/biometric_rules.py\<close>.  A request reads the clock once, \<open>now\<close>; the session's changes are discarded when a
  handler raises, the photo store's are not.  The face engine is a parameter, the cosine of two embeddings
  included: its floats are the rationals they denote.  The column \<^verbatim>\<open>match_score\<close> is not kept.
\<close>

section \<open>Parameters\<close>

record Settings =
  punch_business_day_cutoff_hour :: int
  payroll_period_anchor :: date
  biometric_matching_enabled :: bool
  face_match_threshold :: decimal

text \<open>\<open>None\<close> of a request is an exception of the engine, \<open>Some None\<close> a frame without a face.\<close>

record 'f FaceEngine =
  fe_model_version :: string
  fe_embed_largest_face :: "string \<Rightarrow> 'f option option"
  fe_cosine :: "'f \<Rightarrow> string \<Rightarrow> decimal option"

record 'st PhotoStore =
  ps_put :: "string \<Rightarrow> string \<Rightarrow> 'st \<Rightarrow> 'st option"
  ps_get :: "string \<Rightarrow> 'st \<Rightarrow> string option"

text \<open>\<^verbatim>\<open>InMemoryPhotoStore\<close>.\<close>

definition memory_store :: "(string, string) dict PhotoStore" where
  "memory_store = \<lparr>ps_put = \<lambda>key data st. Some (AList.update key data st), ps_get = \<lambda>key st. map_of st key\<rparr>"

text \<open>\<^verbatim>\<open>assert x is not None\<close>.\<close>

definition assert_some :: "'a option \<Rightarrow> 'a res" where
  "assert_some x = (case x of None \<Rightarrow> Inl AssertionError | Some v \<Rightarrow> Inr v)"

section \<open>Photo keys\<close>

definition JPEG_MAGIC :: string where
  "JPEG_MAGIC = [CHR 0xFF, CHR 0xD8, CHR 0xFF]"

definition org_prefixed_key :: "int \<Rightarrow> string \<Rightarrow> string" where
  "org_prefixed_key org_id subkey = ''org/'' @ str_int org_id @ ''/'' @ subkey"

definition FOUNDING_ORG_ID :: int where "FOUNDING_ORG_ID = 1"

text \<open>\<open>key.split("/", 2)\<close> splits at the first two slashes.\<close>

definition cut_slash :: "string \<Rightarrow> string \<times> string option" where
  "cut_slash key =
     (let a = takeWhile (\<lambda>c. c \<noteq> CHR ''/'') key; r = dropWhile (\<lambda>c. c \<noteq> CHR ''/'') key
      in (a, if r = [] then None else Some (tl r)))"

definition org_from_key :: "string \<Rightarrow> int" where
  "org_from_key key =
    (case cut_slash key of
       (a, Some rest) \<Rightarrow>
         (case cut_slash rest of
            (b, Some _) \<Rightarrow> if a = ''org'' then (case py_int b of Some i \<Rightarrow> i | None \<Rightarrow> FOUNDING_ORG_ID) else FOUNDING_ORG_ID
          | _ \<Rightarrow> FOUNDING_ORG_ID)
     | _ \<Rightarrow> FOUNDING_ORG_ID)"

section \<open>Devices\<close>

text \<open>\<open>mint\<close> is the fresh token of \<^verbatim>\<open>secrets.token_urlsafe\<close>.\<close>

definition require_property_scope :: "db \<Rightarrow> Principal \<Rightarrow> string \<Rightarrow> unit res" where
  "require_property_scope s p property_id =
     (if ''org_admin'' \<notin> effective_roles s (pi_subject p) \<and> \<not> allows_property (assignment_scope p s) property_id
      then Inl (HTTPException 403) else Inr ())"

definition audit_row :: "string \<Rightarrow> string \<Rightarrow> string \<Rightarrow> string \<Rightarrow> db \<Rightarrow> db" where
  "audit_row actor action rtype rid s = s\<lparr>audit_events := audit_events s @
     [\<lparr>au_actor_subject = actor, au_action = action, au_resource_type = rtype, au_resource_id = rid\<rparr>]\<rparr>"

definition enroll_device :: "(string \<Rightarrow> string) \<Rightarrow> string \<Rightarrow> db \<Rightarrow> Principal \<Rightarrow> string \<Rightarrow> string \<Rightarrow> (db \<times> KioskDevice \<times> string) res" where
  "enroll_device sha256 mint s p property_id name =
     bindE (require_grants [''org_admin'', ''property_gm''] s p) (\<lambda>_.
     bindE (require_property_scope s p property_id) (\<lambda>_.
       if get_property s property_id = None then Inl (HTTPException 404)
       else if sha256 mint \<in> set (map kd_token_hash (devices s)) then Inl IntegrityError
       else
         let d = \<lparr>kd_device_id = next_id (map kd_device_id (devices s)), kd_property_id = property_id, kd_name = name,
                  kd_token_hash = sha256 mint, kd_enrolled_by = pi_subject p, kd_last_seen_at = None, kd_revoked_at = None\<rparr>
         in Inr (audit_row (pi_subject p) ''enroll_kiosk_device'' ''kiosk_device'' property_id (s\<lparr>devices := devices s @ [d]\<rparr>), d, mint)))"

definition set_device :: "int \<Rightarrow> (KioskDevice \<Rightarrow> KioskDevice) \<Rightarrow> db \<Rightarrow> db" where
  "set_device i f s = s\<lparr>devices := map (\<lambda>d. if kd_device_id d = i then f d else d) (devices s)\<rparr>"

definition list_devices :: "db \<Rightarrow> Principal \<Rightarrow> KioskDevice list res" where
  "list_devices s p =
     bindE (require_grants [''org_admin'', ''property_gm''] s p) (\<lambda>_.
       Inr (filter (\<lambda>d. ''org_admin'' \<in> effective_roles s (pi_subject p)
                        \<or> allows_property (assignment_scope p s) (kd_property_id d)) (devices s)))"

definition revoke_device :: "db \<Rightarrow> Principal \<Rightarrow> int \<Rightarrow> instant \<Rightarrow> db res" where
  "revoke_device s p device_id now =
     bindE (require_grants [''org_admin'', ''property_gm''] s p) (\<lambda>_.
       case get_device s device_id of
         None \<Rightarrow> Inl (HTTPException 404)
       | Some d \<Rightarrow>
           bindE (require_property_scope s p (kd_property_id d)) (\<lambda>_.
             Inr (audit_row (pi_subject p) ''revoke_kiosk_device'' ''kiosk_device'' (str_int device_id)
               (set_device device_id (\<lambda>d. d\<lparr>kd_revoked_at := Some now\<rparr>) s))))"

text \<open>The token of a request: absent and empty alike are missing.  The row returned is the one read before the stamp.\<close>

definition require_kiosk_device :: "(string \<Rightarrow> string) \<Rightarrow> db \<Rightarrow> string option \<Rightarrow> instant \<Rightarrow> (db \<times> KioskDevice) res" where
  "require_kiosk_device sha256 s token now =
    (case token of
       Some (c # cs) \<Rightarrow>
         bindE (scalar_one_or_none (filter (\<lambda>d. kd_token_hash d = sha256 (c # cs)) (devices s))) (\<lambda>found.
           case found of
             None \<Rightarrow> Inl (HTTPException 401)
           | Some d \<Rightarrow>
               if kd_revoked_at d \<noteq> None then Inl (HTTPException 403)
               else if (case kd_last_seen_at d of None \<Rightarrow> True | Some t \<Rightarrow> now - t > 5 * minute)
               then Inr (set_device (kd_device_id d) (\<lambda>d. d\<lparr>kd_last_seen_at := Some now\<rparr>) s, d\<lparr>kd_last_seen_at := Some now\<rparr>)
               else Inr (s, d))
     | _ \<Rightarrow> Inl (HTTPException 401))"

section \<open>Verification\<close>

text \<open>\<^verbatim>\<open>biometric_rules_for\<close>: the jurisdictions with an encoded posture.\<close>

definition biometric_rules_known :: "string \<Rightarrow> bool" where
  "biometric_rules_known jurisdiction \<longleftrightarrow> jurisdiction = ''US-CA''"

definition matching_available :: "Settings \<Rightarrow> db \<Rightarrow> string \<Rightarrow> bool" where
  "matching_available cfg s property_id =
     (biometric_matching_enabled cfg
      \<and> (case Option.bind (get_property s property_id) pr_wage_jurisdiction of None \<Rightarrow> False | Some j \<Rightarrow> biometric_rules_known j))"

text \<open>\<^verbatim>\<open>_verify_punch_photo\<close>, the state.  An exception anywhere inside is \<open>None\<close>.\<close>

definition verify_punch_photo :: "Settings \<Rightarrow> 'f FaceEngine \<Rightarrow> db \<Rightarrow> int \<Rightarrow> string \<Rightarrow> string \<Rightarrow> string option" where
  "verify_punch_photo cfg fe s employee_id property_id photo =
    (if \<not> matching_available cfg s property_id then None
     else case scalar_one_or_none (filter (\<lambda>t. ft_employee_id t = employee_id) (face_templates s)) of
       Inl _ \<Rightarrow> None
     | Inr None \<Rightarrow> Some ''no_template''
     | Inr (Some t) \<Rightarrow>
         (case ft_embedding t of
            None \<Rightarrow> None
          | Some stored \<Rightarrow>
              if ft_model_version t \<noteq> fe_model_version fe then Some ''unverified''
              else case fe_embed_largest_face fe photo of
                None \<Rightarrow> None
              | Some None \<Rightarrow> Some ''unverified''
              | Some (Some probe) \<Rightarrow>
                  (case fe_cosine fe probe stored of
                     None \<Rightarrow> None
                   | Some score \<Rightarrow>
                       Some (if max 0 (min 1 score) \<ge> face_match_threshold cfg then ''verified'' else ''unverified''))))"

section \<open>The kiosk\<close>

definition property_business_date :: "tzdb \<Rightarrow> Settings \<Rightarrow> db \<Rightarrow> string \<Rightarrow> instant \<Rightarrow> date res" where
  "property_business_date tz cfg s property_id now =
     (case get_property s property_id of
        None \<Rightarrow> Inl (HTTPException 403)
      | Some prop \<Rightarrow> business_date_for tz now (pr_timezone prop) (punch_business_day_cutoff_hour cfg))"

text \<open>The one refusal every route of a device shares.  The conditions are tested in this order.\<close>

definition require_staff :: "tzdb \<Rightarrow> Settings \<Rightarrow> db \<Rightarrow> KioskDevice \<Rightarrow> int \<Rightarrow> instant \<Rightarrow> Employee res" where
  "require_staff tz cfg s device employee_id now =
    (case get_employee s employee_id of
       None \<Rightarrow> Inl (HTTPException 403)
     | Some employee \<Rightarrow>
         bindE (property_business_date tz cfg s (kd_property_id device) now) (\<lambda>today.
           if \<not> employee_serves_property s employee_id (kd_property_id device) today
              \<or> em_employment_status employee \<noteq> ''active'' then Inl (HTTPException 403)
           else Inr employee))"

definition PUNCH_ORDER :: "string list" where
  "PUNCH_ORDER = [''clock_in'', ''lunch_start'', ''lunch_end'', ''clock_out'']"

definition kiosk_punch_state :: "tzdb \<Rightarrow> Settings \<Rightarrow> db \<Rightarrow> KioskDevice \<Rightarrow> int \<Rightarrow> instant \<Rightarrow> (PunchState \<times> string list) res" where
  "kiosk_punch_state tz cfg s device employee_id now =
     bindE (require_staff tz cfg s device employee_id now) (\<lambda>_.
       let st = punch_state s employee_id now
       in Inr (st, filter (\<lambda>t. refuse_punch st t = None) PUNCH_ORDER))"

text \<open>The tiles are name, id and state; the order is the table's.\<close>

definition kiosk_roster :: "tzdb \<Rightarrow> Settings \<Rightarrow> db \<Rightarrow> KioskDevice \<Rightarrow> instant \<Rightarrow> (int \<times> string \<times> PunchState) list res" where
  "kiosk_roster tz cfg s device now =
     bindE (property_business_date tz cfg s (kd_property_id device) now) (\<lambda>today.
       let serving = employee_ids_serving_property s (kd_property_id device) today;
           staff = filter (\<lambda>e. em_employee_id e \<in> serving \<and> em_employment_status e = ''active'') (employees s);
           states = punch_states s (map em_employee_id staff) now
       in Inr (map (\<lambda>e. (em_employee_id e, em_full_name e, dict_get states (em_employee_id e) Out)) staff))"

definition MAX_PHOTO_BYTES :: nat where "MAX_PHOTO_BYTES = 2097152"

definition PUNCH_DEBOUNCE_SECONDS :: int where "PUNCH_DEBOUNCE_SECONDS = 60"

definition recent_punch :: "db \<Rightarrow> int \<Rightarrow> string \<Rightarrow> instant \<Rightarrow> bool" where
  "recent_punch s employee_id punch_type now \<longleftrightarrow>
     (\<exists>p \<in> set (punches s). pn_employee_id p = employee_id \<and> pn_punch_type p = punch_type
        \<and> pn_punched_at p \<ge> now - PUNCH_DEBOUNCE_SECONDS * 1000000)"

definition photo_key_for :: "int \<Rightarrow> string \<Rightarrow> date \<Rightarrow> string \<Rightarrow> string" where
  "photo_key_for org_id property_id on hex =
     org_prefixed_key org_id (property_id @ ''/'' @ isoformat on @ ''/'' @ hex @ ''.bin'')"

text \<open>
  The checks of a punch, in the code's order, up to the photo: the business date and the key it is stored under.
\<close>

definition check_punch ::
  "tzdb \<Rightarrow> Settings \<Rightarrow> db \<Rightarrow> int \<Rightarrow> KioskDevice \<Rightarrow> int \<Rightarrow> string \<Rightarrow> string \<Rightarrow> string \<Rightarrow> instant \<Rightarrow> (date \<times> string) res" where
  "check_punch tz cfg s org_id device employee_id punch_type photo hex now =
    (if punch_type \<notin> set PUNCH_ORDER then Inl (HTTPException 422)
     else
       bindE (require_staff tz cfg s device employee_id now) (\<lambda>_.
         if recent_punch s employee_id punch_type now then Inl (HTTPException 409)
         else if refuse_punch (punch_state s employee_id now) punch_type \<noteq> None then Inl (HTTPException 409)
         else
           bindE (assert_some (get_property s (kd_property_id device))) (\<lambda>prop.
           bindE (business_date_for tz now (pr_timezone prop) (punch_business_day_cutoff_hour cfg)) (\<lambda>on.
             if length photo > MAX_PHOTO_BYTES then Inl (HTTPException 413)
             else if take (length JPEG_MAGIC) photo \<noteq> JPEG_MAGIC then Inl (HTTPException 422)
             else Inr (on, photo_key_for org_id (kd_property_id device) on hex)))))"

definition new_punch :: "db \<Rightarrow> KioskDevice \<Rightarrow> int \<Rightarrow> string \<Rightarrow> instant \<Rightarrow> date \<Rightarrow> string \<Rightarrow> string option \<Rightarrow> Punch" where
  "new_punch s device employee_id punch_type now on key match_state =
     \<lparr>pn_punch_id = next_id (map pn_punch_id (punches s)), pn_employee_id = employee_id, pn_kiosk_device_id = kd_device_id device,
      pn_punch_type = punch_type, pn_punched_at = now, pn_business_date = on, pn_photo_key = Some key, pn_timecard_id = None,
      pn_match_state = match_state\<rparr>"

text \<open>
  \<^verbatim>\<open>punch\<close>.  A store that raises ends the request.  The response is the new punch; its \<open>pn_timecard_id\<close> is
  set by the assembly.
\<close>

definition punch ::
  "tzdb \<Rightarrow> Settings \<Rightarrow> 'f FaceEngine \<Rightarrow> 'st PhotoStore \<Rightarrow> int \<Rightarrow> KioskDevice \<Rightarrow> int \<Rightarrow> string \<Rightarrow> string \<Rightarrow> string \<Rightarrow> instant
    \<Rightarrow> 'st \<Rightarrow> db \<Rightarrow> 'st \<times> (db \<times> Punch) res" where
  "punch tz cfg fe ps org_id device employee_id punch_type photo hex now st s =
    (case check_punch tz cfg s org_id device employee_id punch_type photo hex now of
       Inl e \<Rightarrow> (st, Inl e)
     | Inr (on, key) \<Rightarrow>
         (case ps_put ps key photo st of
            None \<Rightarrow> (st, Inl StoreError)
          | Some st' \<Rightarrow>
              let row = new_punch s device employee_id punch_type now on key
                          (verify_punch_photo cfg fe s employee_id (kd_property_id device) photo)
              in (st', bindE (assemble_timecard (s\<lparr>punches := punches s @ [row]\<rparr>) employee_id on (payroll_period_anchor cfg))
                         (\<lambda>(s', _). Inr (s', row)))))"

end
