(* ===== verification/Vault.thy ===== *)
theory Vault
  imports PayGuards Kiosk
begin

text \<open>
  The write routes of \<^verbatim>\<open>usali/pii_api.py\<close> for the sealed profile and the deposit chain, with what they return; the vault has no
  route that returns a sealed value.  \<open>parse\<close> stands for \<^verbatim>\<open>SealedEnvelope.parse\<close> and the JSON and base64 libraries below it: it gives
  the key id of a well-formed envelope and \<^verbatim>\<open>None\<close> for any other text; \<open>current_key_id\<close> is the key id of the opener.  The routes of the
  pay schedule are left out.
\<close>

section \<open>The sealed profile\<close>

record ProfileStatus =
  st_employee_id :: int
  st_ssn_on_file :: bool
  st_tax_elections_on_file :: bool

definition profile_status :: "EmployeePayrollProfile \<Rightarrow> ProfileStatus" where
  "profile_status profile = \<lparr>st_employee_id = pp_employee_id profile, st_ssn_on_file = pp_ssn_sealed profile \<noteq> None,
     st_tax_elections_on_file = pp_tax_elections_sealed profile \<noteq> None\<rparr>"

definition validate_sealed :: "(string \<Rightarrow> string option) \<Rightarrow> string \<Rightarrow> string \<Rightarrow> string res" where
  "validate_sealed parse value current_key_id =
    (case parse value of
       None \<Rightarrow> Inl (HTTPException 422)
     | Some key_id \<Rightarrow> if key_id \<noteq> current_key_id then Inl (HTTPException 422) else Inr value)"

definition validate_given :: "(string \<Rightarrow> string option) \<Rightarrow> string option \<Rightarrow> string \<Rightarrow> unit res" where
  "validate_given parse field current_key_id =
    (case field of None \<Rightarrow> Inr () | Some v \<Rightarrow> bindE (validate_sealed parse v current_key_id) (\<lambda>_. Inr ()))"

abbreviation require_payroll_admin :: "db \<Rightarrow> Principal \<Rightarrow> unit res" where
  "require_payroll_admin \<equiv> require_grants [''payroll_admin'']"

definition audit_vault :: "Principal \<Rightarrow> string \<Rightarrow> int \<Rightarrow> pay_db \<Rightarrow> pay_db" where
  "audit_vault p action employee_id s = s\<lparr>core := audit_row (pi_subject p) action ''employee'' (str_int employee_id) (core s)\<rparr>"

definition put_profile ::
  "(string \<Rightarrow> string option) \<Rightarrow> string \<Rightarrow> pay_db \<Rightarrow> Principal \<Rightarrow> int \<Rightarrow> string option \<Rightarrow> string option \<Rightarrow> (pay_db \<times> ProfileStatus) res" where
  "put_profile parse current_key_id s p employee_id ssn tax_elections =
     bindE (require_payroll_admin (core s) p) (\<lambda>_.
     bindE (validate_given parse ssn current_key_id) (\<lambda>_.
     bindE (validate_given parse tax_elections current_key_id) (\<lambda>_.
       if get_employee (core s) employee_id = None then Inl (HTTPException 404)
       else
         bindE (scalar_one_or_none (filter (\<lambda>r. pp_employee_id r = employee_id) (payroll_profiles s))) (\<lambda>found.
           let profile = (case found of
                            None \<Rightarrow> \<lparr>pp_employee_id = employee_id, pp_ssn_sealed = None, pp_tax_elections_sealed = None\<rparr>
                          | Some r \<Rightarrow> r);
               profile = (case ssn of None \<Rightarrow> profile | Some v \<Rightarrow> profile\<lparr>pp_ssn_sealed := Some v\<rparr>);
               profile = (case tax_elections of None \<Rightarrow> profile | Some v \<Rightarrow> profile\<lparr>pp_tax_elections_sealed := Some v\<rparr>);
               rows = (if found = None then payroll_profiles s @ [profile]
                       else map (\<lambda>r. if pp_employee_id r = employee_id then profile else r) (payroll_profiles s))
           in Inr (audit_vault p ''write_payroll_pii'' employee_id (s\<lparr>payroll_profiles := rows\<rparr>), profile_status profile)))))"

definition get_profile :: "pay_db \<Rightarrow> Principal \<Rightarrow> int \<Rightarrow> (pay_db \<times> ProfileStatus) res" where
  "get_profile s p employee_id =
     bindE (require_payroll_admin (core s) p) (\<lambda>_.
       if get_employee (core s) employee_id = None then Inl (HTTPException 404)
       else
         bindE (scalar_one_or_none (filter (\<lambda>r. pp_employee_id r = employee_id) (payroll_profiles s))) (\<lambda>profile.
           Inr (audit_vault p ''read_payroll_pii_status'' employee_id s,
                case profile of
                  None \<Rightarrow> \<lparr>st_employee_id = employee_id, st_ssn_on_file = False, st_tax_elections_on_file = False\<rparr>
                | Some r \<Rightarrow> profile_status r)))"

section \<open>The deposit chain\<close>

record DepositAccountBody =
  db_allocation_type :: string
  db_allocation_value :: "decimal option"
  db_account_type :: string
  db_sealed_account :: string
  db_sealed_routing :: string

text \<open>
  \<^verbatim>\<open>_fits_the_column\<close>.  Only the \<^verbatim>\<open>ValueError\<close>s of a validator become a 422: an \<^verbatim>\<open>InvalidOperation\<close> of \<^verbatim>\<open>quantize\<close>, which comes
  first, passes through.
\<close>

definition fits_the_column :: "decimal option \<Rightarrow> unit res" where
  "fits_the_column value =
    (case value of
       None \<Rightarrow> Inr ()
     | Some v \<Rightarrow>
         bindE (cents v) (\<lambda>q.
           if v \<noteq> q then Inl (HTTPException 422) else if \<bar>v\<bar> \<ge> 100000000 then Inl (HTTPException 422) else Inr ()))"

definition parse_account :: "DepositAccountBody \<Rightarrow> unit res" where
  "parse_account a =
     bindE (fits_the_column (db_allocation_value a)) (\<lambda>_.
       if db_account_type a \<notin> {''checking'', ''savings''} then Inl (HTTPException 422) else Inr ())"

text \<open>An exception that is no \<^verbatim>\<open>ValueError\<close> ends the validation of the whole body.\<close>

definition parse_accounts :: "DepositAccountBody list \<Rightarrow> unit res" where
  "parse_accounts accounts =
    (if list_ex (\<lambda>a. fits_the_column (db_allocation_value a) = Inl InvalidOperation) accounts then Inl InvalidOperation
     else bindE (mapE parse_account accounts) (\<lambda>_. Inr ()))"

record DepositAccountStatus =
  ds_ordinal :: int
  ds_allocation_type :: string
  ds_allocation_value :: "string option"
  ds_account_type :: "string option"
  ds_account_on_file :: bool
  ds_routing_on_file :: bool

definition deposit_status :: "DepositAccount list \<Rightarrow> DepositAccountStatus list" where
  "deposit_status rows =
     map (\<lambda>r. \<lparr>ds_ordinal = da_ordinal r, ds_allocation_type = da_allocation_type r,
        ds_allocation_value = map_option str_2dp (da_allocation_value r), ds_account_type = da_account_type r,
        ds_account_on_file = da_sealed_account r \<noteq> [], ds_routing_on_file = da_sealed_routing r \<noteq> []\<rparr>) (sort_key da_ordinal rows)"

definition account_row :: "int \<Rightarrow> int \<Rightarrow> DepositAccountBody \<Rightarrow> DepositAccount" where
  "account_row employee_id i a = \<lparr>da_employee_id = employee_id, da_ordinal = i, da_allocation_type = db_allocation_type a,
     da_allocation_value = db_allocation_value a, da_account_type = Some (db_account_type a),
     da_sealed_account = db_sealed_account a, da_sealed_routing = db_sealed_routing a, da_legacy_sealed = False\<rparr>"

definition put_deposit_accounts ::
  "(string \<Rightarrow> string option) \<Rightarrow> string \<Rightarrow> pay_db \<Rightarrow> Principal \<Rightarrow> int \<Rightarrow> DepositAccountBody list \<Rightarrow> bool \<Rightarrow> (pay_db \<times> DepositAccountStatus list) res" where
  "put_deposit_accounts parse current_key_id s p employee_id accounts clear =
     bindE (require_payroll_admin (core s) p) (\<lambda>_.
     bindE (parse_accounts accounts) (\<lambda>_.
       if accounts = [] \<and> \<not> clear then Inl (HTTPException 422)
       else
         bindE (allocation_violation (map (\<lambda>a. \<lparr>al_allocation_type = db_allocation_type a, al_allocation_value = db_allocation_value a\<rparr>) accounts)) (\<lambda>violation.
           if violation \<noteq> None then Inl (HTTPException 422)
           else
             bindE (mapE (\<lambda>a. bindE (validate_sealed parse (db_sealed_account a) current_key_id)
                              (\<lambda>_. validate_sealed parse (db_sealed_routing a) current_key_id)) accounts) (\<lambda>_.
               if get_employee (core s) employee_id = None then Inl (HTTPException 404)
               else
                 let rows = map (\<lambda>(i, a). account_row employee_id i a) (zip [1..int (length accounts)] accounts)
                 in Inr (audit_vault p ''write_deposit_accounts'' employee_id
                           (s\<lparr>deposit_accounts := filter (\<lambda>r. da_employee_id r \<noteq> employee_id) (deposit_accounts s) @ rows\<rparr>),
                         deposit_status rows)))))"

definition get_deposit_accounts :: "pay_db \<Rightarrow> Principal \<Rightarrow> int \<Rightarrow> (pay_db \<times> DepositAccountStatus list) res" where
  "get_deposit_accounts s p employee_id =
     bindE (require_payroll_admin (core s) p) (\<lambda>_.
       if get_employee (core s) employee_id = None then Inl (HTTPException 404)
       else Inr (audit_vault p ''read_deposit_accounts_status'' employee_id s,
                 deposit_status (filter (\<lambda>r. da_employee_id r = employee_id) (deposit_accounts s))))"

section \<open>What the tables hold\<close>

text \<open>
  The columns of a sealed row: a text of the database holds no NUL, an amount is a \<^verbatim>\<open>Numeric(10, 2)\<close>, and a deposit account has one
  of the two types or, backfilled, none.
\<close>

abbreviation column_text :: "string \<Rightarrow> bool" where "column_text t \<equiv> CHR 0x00 \<notin> set t"

definition deposit_row_ok :: "DepositAccount \<Rightarrow> bool" where
  "deposit_row_ok r \<longleftrightarrow> column_text (da_allocation_type r) \<and> da_account_type r \<in> {None, Some ''checking'', Some ''savings''}
     \<and> (case da_allocation_value r of None \<Rightarrow> True | Some v \<Rightarrow> v * 100 \<in> \<int>)
     \<and> column_text (da_sealed_routing r) \<and> column_text (da_sealed_account r)"

definition vault_ok :: "pay_db \<Rightarrow> bool" where
  "vault_ok s \<longleftrightarrow> (\<forall>m \<in> set (employees (core s)). column_text (em_full_name m))
     \<and> (\<forall>p \<in> set (payroll_profiles s). case pp_ssn_sealed p of None \<Rightarrow> True | Some x \<Rightarrow> column_text x)
     \<and> (\<forall>r \<in> set (deposit_accounts s). deposit_row_ok r)"

text \<open>
  An accepted replacement of the chain keeps every other employee's rows, gives its accounts the ordinals from 1, and stores the
  allocation the request stated, to the cent; the new rows are never marked as backfilled.
\<close>

lemma put_deposit_accounts_rows:
  assumes "put_deposit_accounts parse k s p e accounts clear = Inr (s', st)"
  shows "deposit_accounts s' = filter (\<lambda>r. da_employee_id r \<noteq> e) (deposit_accounts s) @ map (\<lambda>(i, a). account_row e i a) (zip [1..int (length accounts)] accounts)"
    and "payroll_profiles s' = payroll_profiles s" "provider_refs s' = provider_refs s" "employees (core s') = employees (core s)"
  using assms by (auto simp: put_deposit_accounts_def inr Let_def audit_vault_def audit_row_def split: if_splits)

lemma put_profile_rows:
  assumes "put_profile parse k s p e ssn tax = Inr (s', st)"
  shows "deposit_accounts s' = deposit_accounts s" "provider_refs s' = provider_refs s" "employees (core s') = employees (core s)"
  using assms by (auto simp: put_profile_def inr Let_def audit_vault_def audit_row_def split: if_splits)

end
