(* ===== verification/PayVault.thy ===== *)
theory PayVault
  imports PayExample Vault
begin

text \<open>
  What protects the sealed fields and the provider's copy of an employee: the binding of an envelope to its row, the
  legality of a deposit chain, the fingerprint that tells a stale copy, and the sync that leaves none.
\<close>

section \<open>Legal deposit chains\<close>

text \<open>
  C22. The refusals of deposit_accounts.py are exactly the illegal chains: allocation_violation always returns, its assertions never
  fire, and it refuses nothing exactly for the empty chain and for carves of positive amounts and of percents strictly
  between 0 and 100 that sum to less than 100, followed by one remainder account without a value.
\<close>

theorem allocation_violation_exact:
  "(\<exists>v. allocation_violation specs = Inr v) \<and> (allocation_violation specs = Inr None \<longleftrightarrow> legal_chain specs)"
  using violation_total legal_chain_violation violation_none_legal by blast

section \<open>The binding of an envelope\<close>

lemma aad_of_inj: "aad_of e f = aad_of e' f' \<Longrightarrow> e = e' \<and> f = f'"
  using split_at_unique [of "str_int e" "CHR '':''" f "str_int e'" f'] str_int_no_colon str_int_inj by (simp add: aad_of_def)

lemma slot_inj:
  "account_slot o1 l1 = account_slot o2 l2 \<longleftrightarrow> l1 = l2 \<and> (l1 \<or> o1 = o2)"
  "routing_slot o1 l1 = routing_slot o2 l2 \<longleftrightarrow> l1 = l2 \<and> (l1 \<or> o1 = o2)"
  "account_slot o1 l1 \<noteq> routing_slot o2 l2" "account_slot o1 l1 \<noteq> ''ssn''" "routing_slot o1 l1 \<noteq> ''ssn''"
proof -
  have split: "str_int a @ CHR '':'' # x = str_int b @ CHR '':'' # y \<Longrightarrow> a = b \<and> x = y" for a b x y
    using split_at_unique [of "str_int a" "CHR '':''" x "str_int b" y] str_int_no_colon str_int_inj by simp
  show "account_slot o1 l1 = account_slot o2 l2 \<longleftrightarrow> l1 = l2 \<and> (l1 \<or> o1 = o2)"
    "routing_slot o1 l1 = routing_slot o2 l2 \<longleftrightarrow> l1 = l2 \<and> (l1 \<or> o1 = o2)"
    "account_slot o1 l1 \<noteq> routing_slot o2 l2" "account_slot o1 l1 \<noteq> ''ssn''" "routing_slot o1 l1 \<noteq> ''ssn''"
    by (auto simp: account_slot_def routing_slot_def dest!: split str_int_inj)
qed

text \<open>
  C23. Where an envelope opens: with a vault that refuses other associated data, the envelope of an account or routing number opens
  in the same field of the same employee and nowhere else.  Of a row written by the routes it opens at its own ordinal only; of a
  backfilled row it opens at whatever ordinal a backfilled row of that employee has, because such a row is sealed under the field
  alone; a row of one kind never opens as one of the other, nor as the other number, nor as the tax id.
\<close>

theorem envelope_bound_to_row:
  assumes "(slot, other) \<in> {(account_slot, routing_slot), (routing_slot, account_slot)}"
    and "open_env sealed (aad_of e (slot ord legacy)) = Some v" "\<forall>a. open_env sealed a \<noteq> None \<longrightarrow> a = aad_of e (slot ord legacy)"
  shows "(open_field open_env e' (slot ord' legacy') sealed = Inr u \<longleftrightarrow> e' = e \<and> legacy' = legacy \<and> (legacy \<or> ord' = ord) \<and> u = v)
    \<and> open_field open_env e' (other ord' legacy') sealed = Inl (SealedFieldError (other ord' legacy'))
    \<and> open_field open_env e' ''ssn'' sealed = Inl (SealedFieldError ''ssn'')"
proof -
  have only: "open_env sealed (aad_of e' f) = None" if "e' \<noteq> e \<or> f \<noteq> slot ord legacy" for f
    using assms(3) aad_of_inj that by blast
  have inj: "slot ord' legacy' = slot ord legacy \<longleftrightarrow> legacy' = legacy \<and> (legacy \<or> ord' = ord)"
    and other: "other ord' legacy' \<noteq> slot ord legacy" "''ssn'' \<noteq> slot ord legacy"
    using assms(1) slot_inj by (auto simp: eq_commute [of "''ssn''"]) (metis slot_inj(3))+
  show ?thesis
  proof (intro conjI)
    show "open_field open_env e' (slot ord' legacy') sealed = Inr u \<longleftrightarrow> e' = e \<and> legacy' = legacy \<and> (legacy \<or> ord' = ord) \<and> u = v"
    proof (cases "e' = e \<and> slot ord' legacy' = slot ord legacy")
      case True
      then show ?thesis using assms(2) inj by (auto simp: open_field_def)
    next
      case False
      then have "open_env sealed (aad_of e' (slot ord' legacy')) = None" using only by blast
      then show ?thesis using False inj by (auto simp: open_field_def)
    qed
  qed (use only other in \<open>simp_all add: open_field_def\<close>)
qed

definition one_envelope :: opener where
  "one_envelope sealed aad = (if aad = aad_of 7 (account_slot 1 False) then Some ''123'' else None)"

theorem envelope_bound_to_row_witness:
  "open_field one_envelope 7 (account_slot 1 False) ''x'' = Inr ''123'' \<and> open_field one_envelope 7 (account_slot 2 False) ''x'' \<noteq> Inr ''123''
    \<and> open_field one_envelope 7 (routing_slot 1 False) ''x'' = Inl (SealedFieldError (routing_slot 1 False))"
proof -
  have s: "(account_slot, routing_slot) \<in> {(account_slot, routing_slot), (routing_slot, account_slot)}" by simp
  have a: "one_envelope ''x'' (aad_of 7 (account_slot 1 False)) = Some ''123''" by (simp add: one_envelope_def)
  have b: "\<forall>a. one_envelope ''x'' a \<noteq> None \<longrightarrow> a = aad_of 7 (account_slot 1 False)" by (simp add: one_envelope_def)
  note bound = envelope_bound_to_row [of _ _ one_envelope "''x''" 7 1 False "''123''" 7 _ False "''123''", OF s a b]
  from bound [of 1] bound [of 2] show ?thesis by simp
qed

section \<open>Stale copies\<close>

lemma nul_join_inj:
  assumes "concat (map (\<lambda>p. p @ [CHR 0x00]) ps) = concat (map (\<lambda>p. p @ [CHR 0x00]) qs)"
    and "\<forall>p \<in> set ps. CHR 0x00 \<notin> set p" "\<forall>q \<in> set qs. CHR 0x00 \<notin> set q"
  shows "ps = qs"
  using assms
proof (induction ps arbitrary: qs)
  case Nil
  then show ?case by (cases qs) auto
next
  case (Cons p ps)
  then obtain q rest where q: "qs = q # rest" by (cases qs) auto
  with Cons.prems(1) have "p @ CHR 0x00 # concat (map (\<lambda>p. p @ [CHR 0x00]) ps) = q @ CHR 0x00 # concat (map (\<lambda>p. p @ [CHR 0x00]) rest)" by simp
  then have "p = q \<and> concat (map (\<lambda>p. p @ [CHR 0x00]) ps) = concat (map (\<lambda>p. p @ [CHR 0x00]) rest)"
    by (rule split_at_unique) (use Cons.prems(2,3) q in auto)
  then show ?case using Cons.IH [of rest] Cons.prems(2,3) by (simp add: q)
qed

text \<open>
  What the provider is sent of an employee, read off the tables: the name, the sealed tax id, and of every deposit account, in
  the order of the ordinals, the ordinal, the allocation, the type and the two sealed numbers.
\<close>

definition shipped_account :: "DepositAccount \<Rightarrow> int \<times> string \<times> decimal option \<times> string option \<times> string \<times> string" where
  "shipped_account r = (da_ordinal r, da_allocation_type r, da_allocation_value r, da_account_type r, da_sealed_routing r, da_sealed_account r)"

definition shipped_name :: "pay_db \<Rightarrow> int \<Rightarrow> string option" where
  "shipped_name s e = map_option em_full_name (find (\<lambda>m. em_employee_id m = e) (employees (core s)))"

definition shipped_ssn :: "pay_db \<Rightarrow> int \<Rightarrow> string" where
  "shipped_ssn s e = (case filter (\<lambda>p. pp_employee_id p = e) (payroll_profiles s) of
     p # _ \<Rightarrow> (case pp_ssn_sealed p of Some x \<Rightarrow> x | None \<Rightarrow> []) | [] \<Rightarrow> [])"

definition shipped_chain :: "pay_db \<Rightarrow> int \<Rightarrow> (int \<times> string \<times> decimal option \<times> string option \<times> string \<times> string) list" where
  "shipped_chain s e = map shipped_account (sort_key da_ordinal (filter (\<lambda>r. da_employee_id r = e) (deposit_accounts s)))"

lemma zpad2_inj: "zpad 2 (str_nat m) = zpad 2 (str_nat n) \<Longrightarrow> m = n"
  by (metis digits_zpad option.inject)

lemma str_2dp_inj:
  assumes "str_2dp x = str_2dp y" "x * 100 \<in> \<int>" "y * 100 \<in> \<int>"
  shows "x = y"
proof -
  obtain a b where ab: "x * 100 = of_int a" "y * 100 = of_int b" using assms(2,3) by (auto elim!: Ints_cases)
  then have x: "x = of_int a / 100" "y = of_int b / 100" by (simp_all add: field_simps)
  have fl: "nat \<lfloor>\<bar>of_int c :: decimal\<bar>\<rfloor> = nat \<bar>c\<bar>" for c by (simp flip: of_int_abs)
  define body where "body = (\<lambda>m. str_nat (m div 100) @ ''.'' @ zpad 2 (str_nat (m mod 100)))"
  have str: "str_2dp (of_int c / 100) = (if c < 0 then ''-'' else []) @ body (nat \<bar>c\<bar>)" for c
    using fl [of c] by (simp add: str_2dp_def Let_def body_def)
  have no_dot: "CHR ''.'' \<notin> set (str_nat m)" and no_minus: "CHR ''-'' \<notin> set (str_nat m)" for m
    using str_nat_digits [of m] by (auto simp: list_all_iff is_digit_def)
  have head: "body m \<noteq> CHR ''-'' # z" for m z
    using no_minus [of "m div 100"] by (cases "str_nat (m div 100)") (auto simp: body_def)
  have body: "m = n" if "body m = body n" for m n
  proof -
    have "str_nat (m div 100) = str_nat (n div 100) \<and> zpad 2 (str_nat (m mod 100)) = zpad 2 (str_nat (n mod 100))"
      using split_at_unique [of "str_nat (m div 100)" "CHR ''.''" _ "str_nat (n div 100)"] that no_dot by (simp add: body_def)
    then have "m div 100 = n div 100" "m mod 100 = n mod 100" using str_nat_inj zpad2_inj by blast+
    then show "m = n" by (metis div_mult_mod_eq)
  qed
  have "a = b"
    using assms(1) head [of "nat \<bar>a\<bar>"] head [of "nat \<bar>b\<bar>"] body [of "nat \<bar>a\<bar>" "nat \<bar>b\<bar>"] unfolding x str
    by (auto split: if_splits) (metis head)+
  then show ?thesis using x by simp
qed

lemma str_2dp_not_None: "str_2dp x \<noteq> ''None''"
proof
  assume n: "str_2dp x = ''None''"
  have "CHR ''.'' \<in> set (str_2dp x)" by (simp add: str_2dp_def Let_def)
  with n show False by simp
qed

lemma row_parts_shipped:
  "deposit_row_ok r \<Longrightarrow> deposit_row_ok r' \<Longrightarrow> row_parts r = row_parts r' \<longleftrightarrow> shipped_account r = shipped_account r'"
proof
  assume ok: "deposit_row_ok r" "deposit_row_ok r'" and eq: "row_parts r = row_parts r'"
  have "da_allocation_value r = da_allocation_value r'"
    using eq ok str_2dp_inj str_2dp_not_None
    by (auto simp: row_parts_def str_null_def deposit_row_ok_def split: option.splits)
  moreover have "da_account_type r = da_account_type r'"
    using eq ok by (auto simp: row_parts_def str_null_def deposit_row_ok_def)
  ultimately show "shipped_account r = shipped_account r'"
    using eq str_int_inj by (simp add: row_parts_def shipped_account_def)
qed (simp add: row_parts_def shipped_account_def)

lemma chain_parts_shipped:
  assumes "\<forall>r \<in> set rs \<union> set rs'. deposit_row_ok r"
  shows "concat (map row_parts rs) = concat (map row_parts rs') \<longleftrightarrow> map shipped_account rs = map shipped_account rs'"
  using assms
proof (induction rs arbitrary: rs')
  case Nil
  then show ?case by (cases rs') (auto simp: row_parts_def)
next
  case (Cons r rs)
  show ?case
  proof (cases rs')
    case Nil
    then show ?thesis by (simp add: row_parts_def)
  next
    case (Cons r' qs)
    have "length (row_parts r) = length (row_parts r')" by (simp add: row_parts_def)
    then show ?thesis using Cons.IH [of qs] Cons.prems row_parts_shipped [of r r'] by (simp add: Cons)
  qed
qed

lemma row_parts_column: "deposit_row_ok r \<Longrightarrow> p \<in> set (row_parts r) \<Longrightarrow> column_text p"
proof -
  have nat: "CHR 0x00 \<notin> set (str_nat m)" "CHR 0x00 \<notin> set (zpad 2 (str_nat m))" for m
    using str_nat_digits [of m] zpad_digits [of 2 m] by (auto simp: list_all_iff is_digit_def)
  assume "deposit_row_ok r" "p \<in> set (row_parts r)"
  then show "column_text p"
    by (auto simp: deposit_row_ok_def row_parts_def str_null_def str_2dp_def str_int_def Let_def nat split: option.splits if_splits)
qed

text \<open>The parts of a fingerprint are what is shipped, and no more.\<close>

lemma fingerprint_parts_shipped:
  assumes "fingerprint_parts s e = Inr ps" "fingerprint_parts s' e = Inr qs" "vault_ok s" "vault_ok s'"
  shows "ps = qs \<longleftrightarrow> shipped_name s e = shipped_name s' e \<and> shipped_ssn s e = shipped_ssn s' e \<and> shipped_chain s e = shipped_chain s' e"
proof -
  have parts: "\<exists>nm. shipped_name u e = Some nm \<and> rs = [nm, shipped_ssn u e] @ concat (map row_parts (deposit_chain u e))"
    if "fingerprint_parts u e = Inr rs" for u rs
    using that by (auto simp: fingerprint_parts_def inr require_not_none_def get_employee_def shipped_name_def shipped_ssn_def
        scalar_one_or_none_def split: option.splits list.splits)
  have ok: "\<forall>r \<in> set (deposit_chain s e) \<union> set (deposit_chain s' e). deposit_row_ok r"
    using assms(3,4) by (auto simp: vault_ok_def deposit_chain_def)
  show ?thesis
    using parts [OF assms(1)] parts [OF assms(2)] chain_parts_shipped [OF ok] by (auto simp: shipped_chain_def deposit_chain_def)
qed

lemma fingerprint_parts_column:
  assumes "fingerprint_parts s e = Inr ps" "vault_ok s" "p \<in> set ps"
  shows "column_text p"
proof -
  obtain m row where m: "get_employee (core s) e = Some m"
    and row: "scalar_one_or_none (map pp_ssn_sealed (filter (\<lambda>p. pp_employee_id p = e) (payroll_profiles s))) = Inr row"
    and ps: "ps = [em_full_name m, (case row of Some (Some x) \<Rightarrow> x | _ \<Rightarrow> [])] @ concat (map row_parts (deposit_chain s e))"
    using assms(1) by (auto simp: fingerprint_parts_def inr)
  have "column_text (em_full_name m)" using m assms(2) by (auto simp: get_employee_def vault_ok_def find_Some_iff)
  moreover have "column_text x" if "row = Some (Some x)" for x
    using row that assms(2) by (fastforce simp: scalar_one_or_none_def vault_ok_def filter_eq_Cons_iff split: list.splits)
  moreover have "column_text q" if "r \<in> set (deposit_chain s e)" "q \<in> set (row_parts r)" for r q
    using row_parts_column [OF _ that(2)] that(1) assms(2) by (auto simp: vault_ok_def deposit_chain_def)
  ultimately show ?thesis using assms(3) ps by (auto split: option.splits)
qed

lemma same_fingerprint:
  assumes "inj sha256" "payload_fingerprint sha256 s e = Inr f" "payload_fingerprint sha256 s' e = Inr f'" "vault_ok s" "vault_ok s'"
  shows "f = f' \<longleftrightarrow> shipped_name s e = shipped_name s' e \<and> shipped_ssn s e = shipped_ssn s' e \<and> shipped_chain s e = shipped_chain s' e"
proof -
  obtain ps qs where ps: "fingerprint_parts s e = Inr ps" "fingerprint_parts s' e = Inr qs"
    and f: "f = sha256 (concat (map (\<lambda>p. p @ [CHR 0x00]) ps))" "f' = sha256 (concat (map (\<lambda>p. p @ [CHR 0x00]) qs))"
    using assms(2,3) by (auto simp: payload_fingerprint_def inr)
  have "f = f' \<longleftrightarrow> ps = qs"
    using nul_join_inj [of ps qs] fingerprint_parts_column [OF ps(1) assms(4)] fingerprint_parts_column [OF ps(2) assms(5)] assms(1)
    by (auto simp: f inj_eq)
  then show ?thesis using fingerprint_parts_shipped [OF ps assms(4,5)] by simp
qed

text \<open>
  C21. The fingerprint tells exactly the stale copies: with a digest without collisions, a reference that was fingerprinted when
  its payload was sent is stale in a later state exactly when what is shipped of the employee has changed since: the name, the
  sealed tax id, or some ordinal, allocation, type or sealed number of the deposit chain.
\<close>

theorem stale_iff_changed:
  assumes "inj sha256" "rf_payload_fingerprint ref = Some f" "payload_fingerprint sha256 sent e = Inr f"
    and "payload_fingerprint sha256 now_db e = Inr g" "vault_ok sent" "vault_ok now_db"
  shows "provider_payload_stale sha256 now_db e ref = Inr (\<not> (shipped_name sent e = shipped_name now_db e
    \<and> shipped_ssn sent e = shipped_ssn now_db e \<and> shipped_chain sent e = shipped_chain now_db e))"
  using same_fingerprint [OF assms(1,3,4,5,6)] assms(2,4) by (simp add: provider_payload_stale_def)

text \<open>Two states of the example: the one the provider was sent and one after a change of the routing number.\<close>

definition rerouted_pay :: pay_db where
  "rerouted_pay = ready_pay\<lparr>deposit_accounts := map (\<lambda>r. r\<lparr>da_sealed_routing := ''q''\<rparr>) (deposit_accounts ready_pay)\<rparr>"

theorem stale_iff_changed_witness:
  "\<exists>f. payload_fingerprint id ready_pay 7 = Inr f \<and> provider_payload_stale id rerouted_pay 7 (ref_of f) = Inr True"
proof -
  obtain f g where f: "payload_fingerprint id ready_pay 7 = Inr f" and g: "payload_fingerprint id rerouted_pay 7 = Inr g"
    by (simp add: payload_fingerprint_def fingerprint_parts_def rerouted_pay_def ready_pay_def get_employee_def ready_core_def approved_db_def
        require_not_none_def scalar_one_or_none_def)
  have ok: "vault_ok ready_pay" "vault_ok rerouted_pay"
    by (simp_all add: vault_ok_def deposit_row_ok_def rerouted_pay_def ready_pay_def ready_core_def approved_db_def)
  have ref: "rf_payload_fingerprint (ref_of f) = Some f" by (simp add: ref_of_def)
  have "shipped_chain ready_pay 7 \<noteq> shipped_chain rerouted_pay 7"
    by (simp add: shipped_chain_def shipped_account_def rerouted_pay_def ready_pay_def)
  with stale_iff_changed [OF inj_on_id ref f g ok] f show ?thesis by (intro exI [of _ f]) simp
qed

section \<open>The provider port\<close>





lemma vault_ok_refs [simp]: "vault_ok (s\<lparr>provider_refs := R\<rparr>) = vault_ok s"
  by (simp add: vault_ok_def)














section \<open>The vault, edited and synced\<close>




















end
