(* ===== verification/Review.thy ===== *)
theory Review
  imports Kiosk Labor GlJournal
begin

text \<open>
  \<^verbatim>\<open>usali/timecard_api.py\<close>: who controls a card, and the operations of review: reading, approving, reopening,
  adjusting, and looking at a punch photo.  A handler returns the new state with its response or an exception;
  \<open>now\<close> is the one clock reading of a request.  A response keeps dates and instants as values where the source renders them.
\<close>

section \<open>Control\<close>

definition card_property :: "db \<Rightarrow> Timecard \<Rightarrow> string res" where
  "card_property s tcard =
     bindE (primary_assignment_on s (tc_employee_id tcard) (tc_period_end tcard)) (\<lambda>primary.
       case primary of
         Some a \<Rightarrow> Inr (ea_property_id a)
       | None \<Rightarrow>
           (case filter ea_is_primary (assignments_on s (tc_employee_id tcard) (tc_period_end tcard) False) of
              a # _ \<Rightarrow> Inr (ea_property_id a)
            | [] \<Rightarrow> Inl (HTTPException 409)))"

definition require_card_access :: "db \<Rightarrow> Principal \<Rightarrow> Timecard \<Rightarrow> unit res" where
  "require_card_access s p tcard = bindE (card_property s tcard) (\<lambda>q. require_property_access s p q)"

abbreviation require_approver :: "db \<Rightarrow> Principal \<Rightarrow> unit res" where
  "require_approver \<equiv> require_grants [''org_admin'', ''property_gm'']"

section \<open>Responses\<close>

record DayPunchModel =
  dp_punch_id :: int
  dp_punch_type :: string
  dp_punched_at :: instant
  dp_has_photo :: bool
  dp_match_state :: "string option"

record DayModel =
  dm_business_date :: date
  dm_worked_minutes :: int
  dm_warnings :: "string list"
  dm_punches :: "DayPunchModel list"

record TimecardModel =
  tm_timecard_id :: int
  tm_employee_id :: int
  tm_employee_name :: string
  tm_period_start :: date
  tm_period_end :: date
  tm_status :: string
  tm_total_minutes :: int
  tm_days :: "DayModel list"

definition punch_model :: "Punch \<Rightarrow> DayPunchModel" where
  "punch_model p = \<lparr>dp_punch_id = pn_punch_id p, dp_punch_type = pn_punch_type p, dp_punched_at = pn_punched_at p,
     dp_has_photo = pn_photo_key p \<noteq> None, dp_match_state = pn_match_state p\<rparr>"

definition to_model :: "db \<Rightarrow> Timecard \<Rightarrow> TimecardModel res" where
  "to_model s tcard =
     bindE (assert_some (get_employee s (tc_employee_id tcard))) (\<lambda>employee.
     bindE (compute_timecard s tcard) (\<lambda>days.
       let rows = sort_key pn_punched_at (filter (\<lambda>p. pn_timecard_id p = Some (tc_timecard_id tcard)) (punches s));
           by_date = fold (\<lambda>p. dict_append (pn_business_date p) (punch_model p)) rows []
       in Inr \<lparr>tm_timecard_id = tc_timecard_id tcard, tm_employee_id = tc_employee_id tcard, tm_employee_name = em_full_name employee,
               tm_period_start = tc_period_start tcard, tm_period_end = tc_period_end tcard, tm_status = tc_status tcard,
               tm_total_minutes = sum_list (map dr_worked_minutes days),
               tm_days = map (\<lambda>d. \<lparr>dm_business_date = dr_business_date d, dm_worked_minutes = dr_worked_minutes d,
                                   dm_warnings = dr_warnings d, dm_punches = dict_get by_date (dr_business_date d) []\<rparr>) days\<rparr>))"

text \<open>The list skips a card that the access check refuses with \<^verbatim>\<open>HTTPException\<close>; any other exception ends it.\<close>

record TimecardSummaryModel =
  ts_timecard_id :: int
  ts_employee_id :: int
  ts_employee_name :: string
  ts_period_start :: date
  ts_status :: string
  ts_total_minutes :: int

definition card_summary :: "db \<Rightarrow> Timecard \<Rightarrow> TimecardSummaryModel res" where
  "card_summary s tcard =
     bindE (assert_some (get_employee s (tc_employee_id tcard))) (\<lambda>employee.
     bindE (compute_timecard s tcard) (\<lambda>days.
       Inr \<lparr>ts_timecard_id = tc_timecard_id tcard, ts_employee_id = tc_employee_id tcard, ts_employee_name = em_full_name employee,
            ts_period_start = tc_period_start tcard, ts_status = tc_status tcard,
            ts_total_minutes = sum_list (map dr_worked_minutes days)\<rparr>))"

fun is_HTTPException :: "err \<Rightarrow> bool" where
  "is_HTTPException (HTTPException _) = True"
| "is_HTTPException _ = False"

fun list_cards :: "db \<Rightarrow> Principal \<Rightarrow> string option \<Rightarrow> Timecard list \<Rightarrow> TimecardSummaryModel list res" where
  "list_cards s p status [] = Inr []"
| "list_cards s p status (tcard # cards) =
     (if status \<noteq> None \<and> Some (tc_status tcard) \<noteq> status then list_cards s p status cards
      else case require_card_access s p tcard of
        Inl e \<Rightarrow> if is_HTTPException e then list_cards s p status cards else Inl e
      | Inr _ \<Rightarrow> bindE (card_summary s tcard) (\<lambda>m. bindE (list_cards s p status cards) (\<lambda>ms. Inr (m # ms))))"

definition list_timecards :: "db \<Rightarrow> Principal \<Rightarrow> string option \<Rightarrow> TimecardSummaryModel list res" where
  "list_timecards s p status = bindE (require_approver s p) (\<lambda>_. list_cards s p status (timecards s))"

text \<open>What every route does first: the gate, the card, the access check.\<close>

definition open_card :: "db \<Rightarrow> Principal \<Rightarrow> int \<Rightarrow> Timecard res" where
  "open_card s p timecard_id =
     bindE (require_approver s p) (\<lambda>_.
       case get_timecard_row s timecard_id of
         None \<Rightarrow> Inl (HTTPException 404)
       | Some tcard \<Rightarrow> bindE (require_card_access s p tcard) (\<lambda>_. Inr tcard))"

definition get_timecard :: "db \<Rightarrow> Principal \<Rightarrow> int \<Rightarrow> TimecardModel res" where
  "get_timecard s p timecard_id = bindE (open_card s p timecard_id) (to_model s)"

section \<open>Approval\<close>

definition set_card :: "int \<Rightarrow> (Timecard \<Rightarrow> Timecard) \<Rightarrow> db \<Rightarrow> db" where
  "set_card i f s = s\<lparr>timecards := map (\<lambda>c. if tc_timecard_id c = i then f c else c) (timecards s)\<rparr>"

definition unverified_ids :: "db \<Rightarrow> int \<Rightarrow> int list" where
  "unverified_ids s timecard_id =
     map pn_punch_id (filter (\<lambda>p. pn_timecard_id p = Some timecard_id \<and> pn_match_state p = Some ''unverified'') (punches s))"

text \<open>The accrual of each grain, in sorted order, in the same transaction.\<close>

definition repost :: "(string \<Rightarrow> string) \<Rightarrow> string \<Rightarrow> instant \<Rightarrow> (string \<times> date) set \<Rightarrow> db \<Rightarrow> db res" where
  "repost sha256 actor now grains s =
     foldE (\<lambda>(prop, on) s. bindE (post_and_record sha256 s prop on ''payroll_accrual'' actor now) (\<lambda>(s', _). Inr s'))
       (sorted_list_of_set grains) s"

text \<open>The refusals of an approval, in the code's order.\<close>

definition check_approval :: "tzdb \<Rightarrow> Settings \<Rightarrow> db \<Rightarrow> Principal \<Rightarrow> int \<Rightarrow> int list \<Rightarrow> instant \<Rightarrow> Timecard res" where
  "check_approval tz cfg s p timecard_id acknowledged now =
     bindE (open_card s p timecard_id) (\<lambda>tcard.
       if tc_status tcard = ''approved'' then Inl (HTTPException 409)
       else
         bindE (card_property s tcard) (\<lambda>q.
         bindE (assert_some (get_property s q)) (\<lambda>prop.
         bindE (period_in_progress tz (tc_period_end tcard) now (pr_timezone prop) (punch_business_day_cutoff_hour cfg)) (\<lambda>running.
           if running then Inl (HTTPException 409)
           else if \<not> set acknowledged \<subseteq> set (unverified_ids s timecard_id) then Inl (HTTPException 422)
           else if \<not> set (unverified_ids s timecard_id) \<subseteq> set acknowledged then Inl (HTTPException 409)
           else Inr tcard))))"

definition approve_timecard ::
  "(string \<Rightarrow> string) \<Rightarrow> tzdb \<Rightarrow> Settings \<Rightarrow> db \<Rightarrow> Principal \<Rightarrow> int \<Rightarrow> int list \<Rightarrow> instant \<Rightarrow> (db \<times> TimecardModel) res" where
  "approve_timecard sha256 tz cfg s p timecard_id acknowledged now =
     bindE (check_approval tz cfg s p timecard_id acknowledged now) (\<lambda>tcard.
       let actor = pi_subject p;
           tcard' = tcard\<lparr>tc_status := ''approved'', tc_approved_by := Some actor, tc_approved_at := Some now\<rparr>;
           s1 = fold (\<lambda>i. audit_row actor ''acknowledge_unverified_punch'' ''punch'' (str_int i)) (sort (remdups acknowledged)) s;
           s2 = audit_row actor ''approve_timecard'' ''timecard'' (str_int timecard_id) (set_card timecard_id (\<lambda>_. tcard') s1)
       in bindE (promote_timecard s2 tcard' (payroll_period_anchor cfg)) (\<lambda>(s3, written).
          bindE (repost sha256 actor now written s3) (\<lambda>s4.
          bindE (to_model s4 tcard') (\<lambda>m. Inr (s4, m)))))"

section \<open>Reopening\<close>

definition reopen_timecard ::
  "(string \<Rightarrow> string) \<Rightarrow> Settings \<Rightarrow> db \<Rightarrow> Principal \<Rightarrow> int \<Rightarrow> instant \<Rightarrow> (db \<times> TimecardModel) res" where
  "reopen_timecard sha256 cfg s p timecard_id now =
     bindE (open_card s p timecard_id) (\<lambda>tcard.
       if tc_status tcard \<noteq> ''approved'' then Inl (HTTPException 409)
       else
         let actor = pi_subject p;
             tcard' = tcard\<lparr>tc_status := ''open'', tc_approved_by := None, tc_approved_at := None, tc_photos_purged_at := None\<rparr>;
             (s1, demoted) = demote_timecard (set_card timecard_id (\<lambda>_. tcard') s) tcard'
         in bindE (repost sha256 actor now demoted s1) (\<lambda>s2.
            bindE (assemble_timecard s2 (tc_employee_id tcard) (tc_period_start tcard) (payroll_period_anchor cfg)) (\<lambda>(s3, _).
              let s4 = audit_row actor ''reopen_timecard'' ''timecard'' (str_int timecard_id) s3
              in bindE (to_model s4 tcard') (\<lambda>m. Inr (s4, m)))))"

section \<open>Adjustments\<close>

record AdjustmentBody =
  ab_punch_type :: string
  ab_adjusted_at :: instant
  ab_offset :: int
  ab_business_date :: date
  ab_reason :: string
  ab_property_id :: "string option"

text \<open>
  The request's validation bounds the reason.  \<open>ab_offset\<close> is the offset the aware timestamp carries, which
  \<^verbatim>\<open>adjusted_at.date()\<close> reads.
\<close>

definition adjustment_property :: "db \<Rightarrow> Principal \<Rightarrow> Timecard \<Rightarrow> AdjustmentBody \<Rightarrow> string option res" where
  "adjustment_property s p tcard b =
    (let placements = remdups (map ea_property_id (assignments_on s (tc_employee_id tcard) (ab_business_date b) True)) in
     case ab_property_id b of
       Some q \<Rightarrow>
         if q \<notin> set placements then Inl (HTTPException 422)
         else bindE (require_property_access s p q) (\<lambda>_. Inr (Some q))
     | None \<Rightarrow> (case placements of [q] \<Rightarrow> Inr (Some q) | [] \<Rightarrow> Inr None | _ \<Rightarrow> Inl (HTTPException 422)))"

definition check_adjustment :: "db \<Rightarrow> Principal \<Rightarrow> int \<Rightarrow> AdjustmentBody \<Rightarrow> (Timecard \<times> string option) res" where
  "check_adjustment s p timecard_id b =
     bindE (require_approver s p) (\<lambda>_.
       if ab_reason b = [] \<or> length (ab_reason b) > 300 then Inl (HTTPException 422)
       else if ab_punch_type b \<notin> set PUNCH_ORDER then Inl (HTTPException 422)
       else
         bindE (open_card s p timecard_id) (\<lambda>tcard.
           if tc_status tcard = ''approved'' then Inl (HTTPException 409)
           else if \<not> (tc_period_start tcard \<le> ab_business_date b \<and> ab_business_date b \<le> tc_period_end tcard) then Inl (HTTPException 422)
           else if \<not> (tc_period_start tcard \<le> local_date (ab_adjusted_at b + ab_offset b)
                       \<and> local_date (ab_adjusted_at b + ab_offset b) \<le> tc_period_end tcard) then Inl (HTTPException 422)
           else bindE (adjustment_property s p tcard b) (\<lambda>q. Inr (tcard, q))))"

definition add_adjustment :: "db \<Rightarrow> Principal \<Rightarrow> int \<Rightarrow> AdjustmentBody \<Rightarrow> (db \<times> TimecardModel) res" where
  "add_adjustment s p timecard_id b =
     bindE (check_adjustment s p timecard_id b) (\<lambda>(tcard, q).
       let s1 = audit_row (pi_subject p) ''adjust_timecard'' ''timecard'' (str_int timecard_id)
                  (s\<lparr>adjustments := adjustments s @ [\<lparr>ta_timecard_id = timecard_id, ta_punch_type = ab_punch_type b,
                     ta_adjusted_at = ab_adjusted_at b, ta_business_date = ab_business_date b, ta_reason = ab_reason b,
                     ta_actor_subject = pi_subject p, ta_property_id = q\<rparr>]\<rparr>)
       in bindE (to_model s1 tcard) (\<lambda>m. Inr (s1, m)))"

section \<open>Photos\<close>

text \<open>The response is the bytes and whether they go out as a JPEG.\<close>

definition punch_photo :: "'st PhotoStore \<Rightarrow> 'st \<Rightarrow> db \<Rightarrow> Principal \<Rightarrow> int \<Rightarrow> (db \<times> string \<times> bool) res" where
  "punch_photo ps st s p punch_id =
     bindE (require_approver s p) (\<lambda>_.
       case find (\<lambda>r. pn_punch_id r = punch_id) (punches s) of
         None \<Rightarrow> Inl (HTTPException 404)
       | Some pn \<Rightarrow>
           (case pn_photo_key pn of
              None \<Rightarrow> Inl (HTTPException 404)
            | Some key \<Rightarrow>
                bindE (assert_some (get_employee s (pn_employee_id pn))) (\<lambda>_.
                bindE (assert_some (get_device s (pn_kiosk_device_id pn))) (\<lambda>device.
                bindE (require_property_access s p (kd_property_id device)) (\<lambda>_.
                  case ps_get ps key st of
                    None \<Rightarrow> Inl (HTTPException 404)
                  | Some data \<Rightarrow> Inr (audit_row (pi_subject p) ''view_punch_photo'' ''punch'' (str_int punch_id) s, data,
                                      take (length JPEG_MAGIC) data = JPEG_MAGIC))))))"

end
