(* ===== verification/Workforce.thy ===== *)
theory Workforce
  imports Review
begin

text \<open>
  \<^verbatim>\<open>usali/onboarding.py\<close> and the routes of \<^verbatim>\<open>usali/workforce.py\<close> that hire, place, pay and end an employee.  The
  identity server is a parameter with a state of its own: its effects stay when the session is rolled back.
  \<open>today\<close> is the server's \<^verbatim>\<open>date.today()\<close>.  The unique indexes and foreign keys that a flush can violate are checked where the
  rows are flushed; column lengths are not.
\<close>

section \<open>The identity server\<close>

record 'kc KeycloakAdmin =
  kc_find_user_by_username :: "string \<Rightarrow> 'kc \<Rightarrow> (string \<times> string) option res"
  kc_create_user :: "string \<Rightarrow> string \<Rightarrow> string \<Rightarrow> string list \<Rightarrow> 'kc \<Rightarrow> 'kc \<times> string res"
  kc_assign_realm_roles :: "string \<Rightarrow> string list \<Rightarrow> 'kc \<Rightarrow> 'kc \<times> unit res"
  kc_disable_user :: "string \<Rightarrow> 'kc \<Rightarrow> 'kc \<times> unit res"

text \<open>\<^verbatim>\<open>InMemoryKeycloakAdmin\<close>: the users by subject, and the counter.\<close>

record KcUser =
  ku_username :: string
  ku_email :: string
  ku_realm_roles :: "string list"
  ku_enabled :: bool

text \<open>\<^verbatim>\<open>str.lower\<close> on the first 256 characters.\<close>

definition lower :: "string \<Rightarrow> string" where
  "lower s = map (\<lambda>c. let n = (of_char c :: nat) in
     if 65 \<le> n \<and> n \<le> 90 \<or> 192 \<le> n \<and> n \<le> 222 \<and> n \<noteq> 215 then char_of (n + 32) else c) s"

definition mk_find_user_by_username :: "string \<Rightarrow> (string, KcUser) dict \<times> int \<Rightarrow> (string \<times> string) option" where
  "mk_find_user_by_username username w =
     map_option (\<lambda>(i, u). (i, ku_email u)) (find (\<lambda>(_, u). ku_username u = username) (fst w))"

definition mk_find_user_by_email :: "string \<Rightarrow> (string, KcUser) dict \<times> int \<Rightarrow> (string \<times> string) option" where
  "mk_find_user_by_email email w =
     map_option (\<lambda>(i, u). (i, ku_username u)) (find (\<lambda>(_, u). lower (ku_email u) = lower email) (fst w))"

definition mk_create_user ::
  "string \<Rightarrow> string \<Rightarrow> string \<Rightarrow> string list \<Rightarrow> (string, KcUser) dict \<times> int \<Rightarrow> ((string, KcUser) dict \<times> int) \<times> string res" where
  "mk_create_user username email full_name realm_roles w =
    (if mk_find_user_by_username username w \<noteq> None \<or> mk_find_user_by_email email w \<noteq> None then (w, Inl KeycloakAdminError)
     else
       let n = snd w + 1; subject = ''kc-'' @ username @ ''-'' @ str_int n
       in ((AList.update subject \<lparr>ku_username = username, ku_email = email, ku_realm_roles = realm_roles, ku_enabled = True\<rparr> (fst w), n),
           Inr subject))"

definition mk_assign_realm_roles ::
  "string \<Rightarrow> string list \<Rightarrow> (string, KcUser) dict \<times> int \<Rightarrow> ((string, KcUser) dict \<times> int) \<times> unit res" where
  "mk_assign_realm_roles subject realm_roles w =
    (case map_of (fst w) subject of
       None \<Rightarrow> (w, Inl KeycloakAdminError)
     | Some u \<Rightarrow>
         ((AList.update subject (u\<lparr>ku_realm_roles := fold (\<lambda>r rs. if r \<in> set rs then rs else rs @ [r]) realm_roles (ku_realm_roles u)\<rparr>)
             (fst w), snd w), Inr ()))"

definition mk_disable_user :: "string \<Rightarrow> (string, KcUser) dict \<times> int \<Rightarrow> ((string, KcUser) dict \<times> int) \<times> unit res" where
  "mk_disable_user subject w =
    (case map_of (fst w) subject of
       None \<Rightarrow> (w, Inr ())
     | Some u \<Rightarrow> ((AList.update subject (u\<lparr>ku_enabled := False\<rparr>) (fst w), snd w), Inr ()))"

definition memory_keycloak :: "((string, KcUser) dict \<times> int) KeycloakAdmin" where
  "memory_keycloak = \<lparr>kc_find_user_by_username = \<lambda>u w. Inr (mk_find_user_by_username u w),
     kc_create_user = mk_create_user, kc_assign_realm_roles = mk_assign_realm_roles, kc_disable_user = mk_disable_user\<rparr>"

section \<open>What a flush refuses\<close>

definition open_primary :: "EmployeeAssignment \<Rightarrow> bool" where
  "open_primary a \<longleftrightarrow> ea_is_primary a \<and> ea_status a = ''active'' \<and> ea_effective_to a = None"

definition placements_unique :: "EmployeeAssignment list \<Rightarrow> bool" where
  "placements_unique rows \<longleftrightarrow>
     distinct (map (\<lambda>a. (ea_employee_id a, ea_property_id a, ea_effective_from a)) rows)
     \<and> distinct (map ea_employee_id (filter open_primary rows))"

definition rates_unique :: "AssignmentRate list \<Rightarrow> bool" where
  "rates_unique rows \<longleftrightarrow>
     distinct (map (\<lambda>r. (ar_assignment_id r, ar_rate_type r, ar_effective_from r)) rows)
     \<and> distinct (map (\<lambda>r. (ar_assignment_id r, ar_rate_type r)) (filter (\<lambda>r. ar_effective_to r = None) rows))"

section \<open>Hiring\<close>

definition PAY_TYPES :: "string list" where
  "PAY_TYPES = [''hourly'', ''salary'', EXCLUDE_FROM_PAYROLL]"

text \<open>Whether there is a violation; the message is left out.\<close>

definition pay_type_violation :: "string \<Rightarrow> bool" where
  "pay_type_violation v \<longleftrightarrow> v \<notin> set PAY_TYPES"

record OnboardRequest =
  oq_full_name :: string
  oq_email :: "string option"
  oq_property_id :: string
  oq_pay_type :: string
  oq_role :: "string option"
  oq_department_id :: "int option"
  oq_position_id :: "int option"
  oq_compensation_note :: "string option"

text \<open>The realm account of an operator: found and adopted, or created.\<close>

definition provision_user :: "'kc KeycloakAdmin \<Rightarrow> OnboardRequest \<Rightarrow> 'kc \<Rightarrow> 'kc \<times> string option res" where
  "provision_user kc rq w =
    (case (oq_role rq, oq_email rq) of
       (Some role, Some email) \<Rightarrow>
         if role \<notin> set OPERATOR_ROLES then (w, Inr None)
         else
           let username = takeWhile (\<lambda>c. c \<noteq> CHR ''@'') email in
           (case kc_find_user_by_username kc username w of
              Inl e \<Rightarrow> (w, Inl e)
            | Inr (Some (subject, existing_email)) \<Rightarrow>
                if lower existing_email \<noteq> lower email then (w, Inl KeycloakAdminConflict)
                else (case kc_assign_realm_roles kc subject [role] w of
                        (w', Inl e) \<Rightarrow> (w', Inl e)
                      | (w', Inr _) \<Rightarrow> (w', Inr (Some subject)))
            | Inr None \<Rightarrow>
                (case kc_create_user kc username email (oq_full_name rq) [role] w of
                   (w', Inl e) \<Rightarrow> (w', Inl e)
                 | (w', Inr subject) \<Rightarrow> (w', Inr (Some subject))))
     | _ \<Rightarrow> (w, Inr None))"

definition new_employee :: "db \<Rightarrow> OnboardRequest \<Rightarrow> string option \<Rightarrow> date \<Rightarrow> Employee" where
  "new_employee s rq subject today =
     \<lparr>em_employee_id = next_id (map em_employee_id (employees s)), em_keycloak_subject = subject, em_full_name = oq_full_name rq,
      em_pay_type = oq_pay_type rq, em_full_part_time = None, em_i9_submitted_on = None, em_w4_submitted_on = None,
      em_employment_status = ''active'', em_payroll_data_complete = False, em_hire_date = Some today, em_termination_date = None,
      em_compensation_note = oq_compensation_note rq\<rparr>"

definition first_placement :: "db \<Rightarrow> OnboardRequest \<Rightarrow> int \<Rightarrow> date \<Rightarrow> EmployeeAssignment" where
  "first_placement s rq employee_id today =
     \<lparr>ea_assignment_id = next_id (map ea_assignment_id (assignments s)), ea_employee_id = employee_id, ea_property_id = oq_property_id rq,
      ea_department_id = oq_department_id rq, ea_position_id = oq_position_id rq, ea_is_primary = True, ea_status = ''active'',
      ea_effective_from = today, ea_effective_to = None\<rparr>"

definition operator_grant :: "OnboardRequest \<Rightarrow> string \<Rightarrow> string \<Rightarrow> RoleAssignment" where
  "operator_grant rq role subject =
    (if role \<in> set ORG_WIDE_ROLES
     then \<lparr>ra_keycloak_subject = subject, ra_role = role, ra_property_id = None, ra_department_id = None\<rparr>
     else \<lparr>ra_keycloak_subject = subject, ra_role = role, ra_property_id = Some (oq_property_id rq),
            ra_department_id = (if role = ''department_manager'' then oq_department_id rq else None)\<rparr>)"

text \<open>The rows of a hire, with the foreign keys and unique keys their flushes check.\<close>

definition hire :: "OnboardRequest \<Rightarrow> string option \<Rightarrow> string \<Rightarrow> date \<Rightarrow> db \<Rightarrow> (db \<times> Employee) res" where
  "hire rq subject actor today s =
    (let employee = new_employee s rq subject today;
         placement = first_placement s rq (em_employee_id employee) today;
         grants = (case (subject, oq_role rq) of (Some i, Some role) \<Rightarrow> [operator_grant rq role i] | _ \<Rightarrow> []);
         label = (case oq_email rq of Some e \<Rightarrow> if e = [] then oq_full_name rq else e | None \<Rightarrow> oq_full_name rq)
     in if subject \<noteq> None \<and> subject \<in> em_keycloak_subject ` set (employees s) then Inl IntegrityError
        else if get_property s (oq_property_id rq) = None
             \<or> (case oq_department_id rq of None \<Rightarrow> False | Some i \<Rightarrow> get_department s i = None)
             \<or> (case oq_position_id rq of None \<Rightarrow> False | Some i \<Rightarrow> get_position s i = None) then Inl IntegrityError
        else if \<not> placements_unique (assignments s @ [placement]) then Inl IntegrityError
        else if set grants \<inter> set (role_assignments s) \<noteq> {} then Inl IntegrityError
        else Inr (audit_row actor ''onboard_employee'' ''employee'' label
                    (s\<lparr>employees := employees s @ [employee], assignments := assignments s @ [placement],
                       role_assignments := role_assignments s @ grants\<rparr>), employee))"

definition onboard_employee ::
  "'kc KeycloakAdmin \<Rightarrow> OnboardRequest \<Rightarrow> string \<Rightarrow> date \<Rightarrow> 'kc \<Rightarrow> db \<Rightarrow> 'kc \<times> (db \<times> Employee) res" where
  "onboard_employee kc rq actor today w s =
    (if pay_type_violation (oq_pay_type rq) then (w, Inl ValueError)
     else case provision_user kc rq w of
       (w', Inl e) \<Rightarrow> (w', Inl e)
     | (w', Inr subject) \<Rightarrow> (w', hire rq subject actor today s))"

definition onboard ::
  "'kc KeycloakAdmin \<Rightarrow> Principal \<Rightarrow> OnboardRequest \<Rightarrow> date \<Rightarrow> 'kc \<Rightarrow> db \<Rightarrow> 'kc \<times> (db \<times> Employee) res" where
  "onboard kc p rq today w s =
    (case bindE (require_grants [''org_admin'', ''property_gm''] s p) (\<lambda>_.
            if pay_type_violation (oq_pay_type rq) then Inl (HTTPException 422)
            else if (case oq_role rq of None \<Rightarrow> False | Some role \<Rightarrow> role \<in> set OPERATOR_ROLES) \<and> oq_email rq = None then Inl (HTTPException 422)
            else if oq_role rq = Some ''department_manager'' \<and> oq_department_id rq = None then Inl (HTTPException 422)
            else require_onboardable_property s p (oq_property_id rq)) of
       Inl e \<Rightarrow> (w, Inl e)
     | Inr _ \<Rightarrow> onboard_employee kc rq (pi_subject p) today w s)"


section \<open>Ending employment\<close>

definition face_reference_key :: "int \<Rightarrow> int \<Rightarrow> string" where
  "face_reference_key org_id employee_id = org_prefixed_key org_id (''face-reference/'' @ str_int employee_id @ ''.jpg'')"

definition set_employee :: "int \<Rightarrow> (Employee \<Rightarrow> Employee) \<Rightarrow> db \<Rightarrow> db" where
  "set_employee i f s = s\<lparr>employees := map (\<lambda>e. if em_employee_id e = i then f e else e) (employees s)\<rparr>"

text \<open>Is a labor cost filed for the employee after the date?\<close>

definition stranded :: "db \<Rightarrow> int \<Rightarrow> date \<Rightarrow> bool" where
  "stranded s employee_id on_date \<longleftrightarrow>
     (\<exists>f \<in> set (labor_facts s). \<exists>c \<in> set (timecards s). tc_timecard_id c = lf_timecard_id f \<and> tc_employee_id c = employee_id
        \<and> lf_business_date f > on_date)"

definition close_placement :: "date \<Rightarrow> EmployeeAssignment \<Rightarrow> EmployeeAssignment" where
  "close_placement on_date a = a\<lparr>ea_status := ''inactive'',
     ea_effective_to := (case ea_effective_to a of
        None \<Rightarrow> Some (on_date + 1) | Some t \<Rightarrow> if t > on_date then Some (on_date + 1) else Some t)\<rparr>"

definition end_employment :: "int \<Rightarrow> date \<Rightarrow> db \<Rightarrow> db" where
  "end_employment employee_id on_date s =
     (let s1 = set_employee employee_id (\<lambda>e. e\<lparr>em_termination_date := Some on_date, em_employment_status := ''terminated''\<rparr>) s
      in s1\<lparr>assignments := map (\<lambda>a. if ea_employee_id a = employee_id \<and> ea_status a = ''active'' then close_placement on_date a else a)
                              (assignments s1)\<rparr>)"

text \<open>The face template goes, and with it the reference photo where the caller has the store.\<close>

definition drop_face :: "'st store_delete option \<Rightarrow> int \<Rightarrow> int \<Rightarrow> string \<Rightarrow> 'st \<Rightarrow> db \<Rightarrow> 'st \<times> db res" where
  "drop_face del org_id employee_id actor st s =
    (case scalar_one_or_none (filter (\<lambda>t. ft_employee_id t = employee_id) (face_templates s)) of
       Inl e \<Rightarrow> (st, Inl e)
     | Inr None \<Rightarrow> (st, Inr s)
     | Inr (Some _) \<Rightarrow>
         let s' = audit_row actor ''face_template_deleted'' ''employee'' (str_int employee_id)
                    (s\<lparr>face_templates := filter (\<lambda>t. ft_employee_id t \<noteq> employee_id) (face_templates s)\<rparr>) in
         (case del of
            None \<Rightarrow> (st, Inr s')
          | Some delete \<Rightarrow> (case delete (face_reference_key org_id employee_id) st of
                             None \<Rightarrow> (st, Inl StoreError) | Some st' \<Rightarrow> (st', Inr s'))))"

definition terminate_employee ::
  "'kc KeycloakAdmin \<Rightarrow> 'st store_delete option \<Rightarrow> int \<Rightarrow> int \<Rightarrow> string \<Rightarrow> date \<Rightarrow> 'kc \<times> 'st \<Rightarrow> db \<Rightarrow> ('kc \<times> 'st) \<times> db res" where
  "terminate_employee kc del org_id employee_id actor on_date w s =
    (case get_employee s employee_id of
       None \<Rightarrow> (w, Inl ValueError)
     | Some employee \<Rightarrow>
         if stranded s employee_id on_date then (w, Inl ValueError)
         else
           let (k, st) = w;
               (k', disabled) = (case em_keycloak_subject employee of None \<Rightarrow> (k, Inr ()) | Some i \<Rightarrow> kc_disable_user kc i k) in
           (case disabled of
              Inl e \<Rightarrow> ((k', st), Inl e)
            | Inr _ \<Rightarrow>
                let (st', r) = drop_face del org_id employee_id actor st (end_employment employee_id on_date s)
                in ((k', st'), bindE r (\<lambda>s'. Inr (audit_row actor ''terminate_employee'' ''employee'' (str_int employee_id) s')))))"

text \<open>Who may end employment: org_admin, or a caller in scope of every property the person is placed at today.\<close>

definition require_every_placement :: "db \<Rightarrow> Principal \<Rightarrow> int \<Rightarrow> date \<Rightarrow> nat \<Rightarrow> unit res" where
  "require_every_placement s p employee_id today unplaced =
    (let placements = property_ids_on s employee_id today in
     if placements = {} then Inl (HTTPException unplaced)
     else if \<not> (\<forall>q \<in> placements. allows_property (assignment_scope p s) q) then Inl (HTTPException 403)
     else Inr ())"

definition check_terminate :: "db \<Rightarrow> Principal \<Rightarrow> int \<Rightarrow> date \<Rightarrow> unit res" where
  "check_terminate s p employee_id today =
     bindE (require_grants [''org_admin'', ''property_gm''] s p) (\<lambda>_.
       if get_employee s employee_id = None then Inl (HTTPException 404)
       else if ''org_admin'' \<in> effective_roles s (pi_subject p) then Inr ()
       else require_every_placement s p employee_id today 409)"

text \<open>The route; the response is the termination date.\<close>

definition terminate ::
  "'kc KeycloakAdmin \<Rightarrow> 'st store_delete \<Rightarrow> int \<Rightarrow> Principal \<Rightarrow> int \<Rightarrow> date \<Rightarrow> 'kc \<times> 'st \<Rightarrow> db \<Rightarrow> ('kc \<times> 'st) \<times> (db \<times> date option) res" where
  "terminate kc del org_id p employee_id today w s =
    (case check_terminate s p employee_id today of
       Inl e \<Rightarrow> (w, Inl e)
     | Inr _ \<Rightarrow>
         (case terminate_employee kc (Some del) org_id employee_id (pi_subject p) today w s of
            (w', Inl e) \<Rightarrow> (w', Inl e)
          | (w', Inr s') \<Rightarrow>
              (w', bindE (assert_some (get_employee s' employee_id)) (\<lambda>emp. Inr (s', em_termination_date emp)))))"

section \<open>Pay rates\<close>

definition require_rate_access :: "db \<Rightarrow> Principal \<Rightarrow> int \<Rightarrow> date \<Rightarrow> unit res" where
  "require_rate_access s p employee_id today =
    (if effective_roles s (pi_subject p) \<inter> {''payroll_admin'', ''org_admin''} \<noteq> {} then Inr ()
     else require_every_placement s p employee_id today 403)"

definition RATE_EDITORS :: "string list" where
  "RATE_EDITORS = [''payroll_admin'', ''org_admin'', ''property_gm'']"

definition primary_placement :: "db \<Rightarrow> int \<Rightarrow> date \<Rightarrow> EmployeeAssignment option res" where
  "primary_placement s employee_id today = primary_assignment_on s employee_id today"

definition get_pay_rate :: "db \<Rightarrow> Principal \<Rightarrow> int \<Rightarrow> date \<Rightarrow> (db \<times> decimal option) res" where
  "get_pay_rate s p employee_id today =
     bindE (require_grants RATE_EDITORS s p) (\<lambda>_.
       if get_employee s employee_id = None then Inl (HTTPException 404)
       else
         bindE (require_rate_access s p employee_id today) (\<lambda>_.
           let s1 = audit_row (pi_subject p) ''read_pay_rate'' ''employee'' (str_int employee_id) s in
           bindE (primary_placement s1 employee_id today) (\<lambda>placement.
           bindE (case placement of None \<Rightarrow> Inr None | Some a \<Rightarrow> rate_on s1 (ea_assignment_id a) ''regular'' today) (\<lambda>rate.
             Inr (s1, rate)))))"

record SetPayRateBody =
  rb_pay_rate :: decimal
  rb_effective_from :: "date option"

text \<open>The field constraints of the body: \<open>gt=0\<close>, \<open>le=10000\<close>, two decimal places.\<close>

definition pay_rate_ok :: "decimal \<Rightarrow> bool" where
  "pay_rate_ok v \<longleftrightarrow> 0 < v \<and> v \<le> 10000 \<and> of_int \<lfloor>v * 100\<rfloor> = v * 100"

definition open_regular :: "int \<Rightarrow> AssignmentRate \<Rightarrow> bool" where
  "open_regular assignment_id r \<longleftrightarrow> ar_assignment_id r = assignment_id \<and> ar_rate_type r = ''regular'' \<and> ar_effective_to r = None"

text \<open>The ordinary raise: the open rate is closed where the new one starts.\<close>

definition raise_rate :: "int \<Rightarrow> decimal \<Rightarrow> date \<Rightarrow> AssignmentRate list \<Rightarrow> AssignmentRate list res" where
  "raise_rate assignment_id pay_rate effective rows =
     bindE (scalar_one_or_none (filter (open_regular assignment_id) rows)) (\<lambda>open_rate.
       let new = \<lparr>ar_assignment_id = assignment_id, ar_rate_type = ''regular'', ar_amount = Some pay_rate,
                   ar_effective_from = effective, ar_effective_to = None\<rparr>;
           rows' = map (\<lambda>r. if open_regular assignment_id r then r\<lparr>ar_effective_to := Some effective\<rparr> else r) rows @ [new]
       in if (case open_rate of None \<Rightarrow> False | Some r \<Rightarrow> ar_effective_from r \<ge> effective) then Inl (HTTPException 422)
          else if \<not> rates_unique rows' then Inl IntegrityError
          else Inr rows')"

definition set_pay_rate :: "db \<Rightarrow> Principal \<Rightarrow> int \<Rightarrow> SetPayRateBody \<Rightarrow> date \<Rightarrow> (db \<times> decimal) res" where
  "set_pay_rate s p employee_id b today =
     bindE (require_grants RATE_EDITORS s p) (\<lambda>_.
       if \<not> pay_rate_ok (rb_pay_rate b) then Inl (HTTPException 422)
       else if get_employee s employee_id = None then Inl (HTTPException 404)
       else
         bindE (require_rate_access s p employee_id today) (\<lambda>_.
         bindE (primary_placement s employee_id today) (\<lambda>placement.
           case placement of
             None \<Rightarrow> Inl (HTTPException 422)
           | Some a \<Rightarrow>
               let effective = (case rb_effective_from b of None \<Rightarrow> today | Some d \<Rightarrow> d) in
               bindE (raise_rate (ea_assignment_id a) (rb_pay_rate b) effective (assignment_rates s)) (\<lambda>rows.
                 Inr (audit_row (pi_subject p) ''write_pay_rate'' ''employee'' (str_int employee_id) (s\<lparr>assignment_rates := rows\<rparr>),
                      rb_pay_rate b)))))"

section \<open>Moving to another department\<close>

text \<open>
  The current placement is closed at the effective date and a new one opened from it, with the open regular rate carried forward.
\<close>

definition moved_placement :: "db \<Rightarrow> EmployeeAssignment \<Rightarrow> int \<Rightarrow> date \<Rightarrow> EmployeeAssignment" where
  "moved_placement s current department_id effective =
     \<lparr>ea_assignment_id = next_id (map ea_assignment_id (assignments s)), ea_employee_id = ea_employee_id current,
      ea_property_id = ea_property_id current, ea_department_id = Some department_id, ea_position_id = ea_position_id current,
      ea_is_primary = ea_is_primary current, ea_status = ''active'', ea_effective_from = effective, ea_effective_to = None\<rparr>"

definition move_department :: "db \<Rightarrow> int \<Rightarrow> int \<Rightarrow> date \<Rightarrow> date \<Rightarrow> db res" where
  "move_department s employee_id department_id effective today =
     bindE (primary_assignment_on s employee_id today) (\<lambda>placement.
       case placement of
         None \<Rightarrow> Inl (HTTPException 409)
       | Some current \<Rightarrow>
           if ea_department_id current = Some department_id then Inr s
           else if (case get_department s department_id of None \<Rightarrow> True | Some d \<Rightarrow> de_property_id d \<noteq> ea_property_id current)
             then Inl (HTTPException 422)
           else if ea_effective_from current \<ge> effective then Inl (HTTPException 422)
           else
             bindE (scalar_one_or_none (filter (open_regular (ea_assignment_id current)) (assignment_rates s))) (\<lambda>open_rate.
               let moved = moved_placement s current department_id effective;
                   placements = map (\<lambda>a. if ea_assignment_id a = ea_assignment_id current then a\<lparr>ea_effective_to := Some effective\<rparr> else a)
                                  (assignments s) @ [moved];
                   rates = assignment_rates s @ (case open_rate of
                       None \<Rightarrow> []
                     | Some r \<Rightarrow> [\<lparr>ar_assignment_id = ea_assignment_id moved, ar_rate_type = ''regular'', ar_amount = ar_amount r,
                                    ar_effective_from = effective, ar_effective_to = None\<rparr>])
               in if \<not> placements_unique placements \<or> \<not> rates_unique rates then Inl IntegrityError
                  else Inr (s\<lparr>assignments := placements, assignment_rates := rates\<rparr>)))"

section \<open>Editing an employee\<close>

text \<open>A field of the body is \<open>None\<close> where the request leaves it out.\<close>

record EmployeePatchBody =
  pb_employment_status :: "string option option"
  pb_full_part_time :: "string option option"
  pb_i9_submitted_on :: "date option option"
  pb_w4_submitted_on :: "date option option"
  pb_payroll_data_complete :: "bool option option"
  pb_full_name :: "string option option"
  pb_pay_type :: "string option option"
  pb_department_id :: "int option"
  pb_effective_from :: "date option"

definition patch_refused :: "EmployeePatchBody \<Rightarrow> bool" where
  "patch_refused b \<longleftrightarrow>
     (case pb_employment_status b of None \<Rightarrow> False | Some w \<Rightarrow> w \<notin> Some ` {''active'', ''inactive'', ''leave''})
     \<or> (case pb_full_part_time b of Some (Some v) \<Rightarrow> v \<notin> {''full_time'', ''part_time''} | _ \<Rightarrow> False)
     \<or> (case pb_full_name b of Some (Some v) \<Rightarrow> strip v = [] | _ \<Rightarrow> False)
     \<or> (case pb_pay_type b of Some (Some v) \<Rightarrow> v \<notin> {''hourly'', ''salary''} | _ \<Rightarrow> False)
     \<or> pb_payroll_data_complete b = Some None"

text \<open>The columns that are \<open>NOT NULL\<close> refuse a null.\<close>

definition patch_fields :: "EmployeePatchBody \<Rightarrow> Employee \<Rightarrow> Employee res" where
  "patch_fields b e =
    (if pb_full_name b = Some None \<or> pb_pay_type b = Some None \<or> pb_employment_status b = Some None then Inl IntegrityError
     else Inr (e\<lparr>
       em_full_name := (case pb_full_name b of Some (Some v) \<Rightarrow> strip v | _ \<Rightarrow> em_full_name e),
       em_pay_type := (case pb_pay_type b of Some (Some v) \<Rightarrow> v | _ \<Rightarrow> em_pay_type e),
       em_full_part_time := (case pb_full_part_time b of Some v \<Rightarrow> v | None \<Rightarrow> em_full_part_time e),
       em_i9_submitted_on := (case pb_i9_submitted_on b of Some v \<Rightarrow> v | None \<Rightarrow> em_i9_submitted_on e),
       em_w4_submitted_on := (case pb_w4_submitted_on b of Some v \<Rightarrow> v | None \<Rightarrow> em_w4_submitted_on e),
       em_employment_status := (case pb_employment_status b of Some (Some v) \<Rightarrow> v | _ \<Rightarrow> em_employment_status e),
       em_payroll_data_complete := (case pb_payroll_data_complete b of Some (Some v) \<Rightarrow> v | _ \<Rightarrow> em_payroll_data_complete e)\<rparr>))"

definition check_patch :: "db \<Rightarrow> Principal \<Rightarrow> int \<Rightarrow> EmployeePatchBody \<Rightarrow> date \<Rightarrow> Employee res" where
  "check_patch s p employee_id b today =
     bindE (require_grants [''org_admin'', ''property_gm''] s p) (\<lambda>_.
       if patch_refused b then Inl (HTTPException 422)
       else case get_employee s employee_id of
         None \<Rightarrow> Inl (HTTPException 404)
       | Some e \<Rightarrow>
           if pb_employment_status b \<noteq> None \<and> em_employment_status e = ''terminated'' then Inl (HTTPException 422)
           else if ''org_admin'' \<in> effective_roles s (pi_subject p) then Inr e
           else bindE (require_every_placement s p employee_id today 409) (\<lambda>_. Inr e))"

definition patch_employee :: "db \<Rightarrow> Principal \<Rightarrow> int \<Rightarrow> EmployeePatchBody \<Rightarrow> date \<Rightarrow> (db \<times> Employee) res" where
  "patch_employee s p employee_id b today =
     bindE (check_patch s p employee_id b today) (\<lambda>e.
     bindE (patch_fields b e) (\<lambda>e'.
       let s1 = set_employee employee_id (\<lambda>_. e') s;
           effective = (case pb_effective_from b of None \<Rightarrow> today | Some d \<Rightarrow> d)
       in bindE (case pb_department_id b of None \<Rightarrow> Inr s1 | Some i \<Rightarrow> move_department s1 employee_id i effective today) (\<lambda>s2.
            Inr (audit_row (pi_subject p) ''update_employee'' ''employee'' (str_int employee_id) s2, e'))))"

section \<open>Departments\<close>

definition list_departments :: "db \<Rightarrow> Principal \<Rightarrow> string \<Rightarrow> Department list res" where
  "list_departments s p property_id =
     bindE (require_operator p) (\<lambda>_.
     bindE (require_readable_property s (resolve_scope p s) property_id) (\<lambda>_.
       Inr (sort_key de_name (filter (\<lambda>d. de_property_id d = property_id) (departments s)))))"

definition create_department :: "db \<Rightarrow> Principal \<Rightarrow> string \<Rightarrow> string \<Rightarrow> (db \<times> Department) res" where
  "create_department s p property_id name =
     bindE (require_grants [''org_admin'', ''property_gm''] s p) (\<lambda>_.
       let name = strip name in
       if name = [] then Inl (HTTPException 422)
       else
         bindE (require_onboardable_property s p property_id) (\<lambda>_.
         bindE (scalar_one_or_none (filter (\<lambda>d. de_property_id d = property_id \<and> de_name d = name) (departments s))) (\<lambda>exists.
           if exists \<noteq> None then Inl (HTTPException 409)
           else
             let dept = \<lparr>de_department_id = next_id (map de_department_id (departments s)), de_property_id = property_id, de_name = name\<rparr>
             in Inr (s\<lparr>departments := departments s @ [dept]\<rparr>, dept))))"


section \<open>Reading\<close>

text \<open>\<^verbatim>\<open>employee_compensation\<close>.\<close>

definition employee_compensation :: "db \<Rightarrow> Principal \<Rightarrow> int \<Rightarrow> (db \<times> string option) res" where
  "employee_compensation s p employee_id =
     bindE (require_grants [''payroll_admin''] s p) (\<lambda>_.
       case get_employee s employee_id of
         None \<Rightarrow> Inl (HTTPException 404)
       | Some e \<Rightarrow> Inr (audit_row (pi_subject p) ''read_compensation'' ''employee'' (str_int employee_id) s, em_compensation_note e))"

text \<open>\<^verbatim>\<open>_last_placement\<close>: the latest start, then the largest key.\<close>

definition last_placement :: "db \<Rightarrow> int \<Rightarrow> EmployeeAssignment option" where
  "last_placement s employee_id =
    (case sort_key (\<lambda>a. (- ea_effective_from a, - ea_assignment_id a)) (filter (\<lambda>a. ea_employee_id a = employee_id) (assignments s)) of
       [] \<Rightarrow> None | a # _ \<Rightarrow> Some a)"

definition in_view :: "Scope \<Rightarrow> string \<Rightarrow> int option \<Rightarrow> bool" where
  "in_view scope property_id department_id \<longleftrightarrow>
     allows_property scope property_id \<or> (case department_id of None \<Rightarrow> False | Some d \<Rightarrow> allows_department scope property_id d)"

text \<open>The availability note is not kept.\<close>

record EmployeeModel =
  el_employee_id :: int
  el_property_id :: "string option"
  el_department_id :: "int option"
  el_full_name :: string
  el_pay_type :: string
  el_employment_status :: string
  el_full_part_time :: "string option"
  el_i9_submitted_on :: "date option"
  el_w4_submitted_on :: "date option"
  el_payroll_data_complete :: "bool option"

definition employee_model :: "bool \<Rightarrow> Employee \<Rightarrow> EmployeeAssignment option \<Rightarrow> EmployeeModel" where
  "employee_model sees_compliance e placement =
     \<lparr>el_employee_id = em_employee_id e, el_property_id = map_option ea_property_id placement,
      el_department_id = Option.bind placement ea_department_id, el_full_name = em_full_name e, el_pay_type = em_pay_type e,
      el_employment_status = em_employment_status e, el_full_part_time = em_full_part_time e,
      el_i9_submitted_on = (if sees_compliance then em_i9_submitted_on e else None),
      el_w4_submitted_on = (if sees_compliance then em_w4_submitted_on e else None),
      el_payroll_data_complete = (if sees_compliance then Some (em_payroll_data_complete e) else None)\<rparr>"

definition list_employees :: "db \<Rightarrow> Principal \<Rightarrow> bool \<Rightarrow> date \<Rightarrow> EmployeeModel list res" where
  "list_employees s p include_inactive today =
     bindE (require_operator p) (\<lambda>_.
       let scope = resolve_scope p s;
           in_scope = (\<lambda>e. \<exists>a \<in> set (assignments_on s (em_employee_id e) today True). in_view scope (ea_property_id a) (ea_department_id a));
           in_scope_historically = (\<lambda>e. case last_placement s (em_employee_id e) of
               None \<Rightarrow> False | Some a \<Rightarrow> in_view scope (ea_property_id a) (ea_department_id a));
           sees_compliance = effective_roles s (pi_subject p) \<inter> {''org_admin'', ''property_gm'', ''payroll_admin''} \<noteq> {}
       in mapE (\<lambda>e.
            bindE (primary_assignment_on s (em_employee_id e) today) (\<lambda>primary.
              Inr (employee_model sees_compliance e
                    (case primary of Some a \<Rightarrow> Some a | None \<Rightarrow> last_placement s (em_employee_id e)))))
          (filter (\<lambda>e. in_scope e \<or> include_inactive \<and> in_scope_historically e) (employees s)))"

record EmployeeWorkModel =
  wm_employee_id :: int
  wm_hours :: decimal
  wm_ot_hours :: decimal
  wm_est_cost :: "decimal option"

definition WORK_WINDOW_MAX_DAYS :: int where "WORK_WINDOW_MAX_DAYS = 400"

text \<open>
  The grouped query of \<^verbatim>\<open>employee_work\<close>: employee, property and department, with the facts that the sums run over.
\<close>

definition work_rows :: "db \<Rightarrow> date \<Rightarrow> date \<Rightarrow> string option \<Rightarrow> ((int \<times> string \<times> int option), UsaliLaborFact list) dict" where
  "work_rows s date_from date_to property_id =
     map (\<lambda>(k, rows). (k, map snd rows))
       (group_by (\<lambda>(c, f). (tc_employee_id c, lf_property_id f, lf_department_id f))
         [(c, f). f \<leftarrow> labor_facts s, c \<leftarrow> timecards s, tc_timecard_id c = lf_timecard_id f,
                  date_from \<le> lf_business_date f \<and> lf_business_date f \<le> date_to,
                  case property_id of None \<Rightarrow> True | Some q \<Rightarrow> q = [] \<or> lf_property_id f = q])"

text \<open>One group is added to its employee's totals when the caller sees it.\<close>

fun add_work :: "Scope \<Rightarrow> (int \<times> string \<times> int option) \<times> UsaliLaborFact list
    \<Rightarrow> (int, decimal \<times> decimal \<times> decimal) dict \<Rightarrow> (int, decimal \<times> decimal \<times> decimal) dict" where
  "add_work scope ((e, q, d), fs) totals =
    (if \<not> in_view scope q d then totals
     else let (h, ot, c) = dict_get totals e (0, 0, 0)
          in AList.update e (h + sum_list (map lf_hours fs), ot + sum_list (map lf_ot_hours fs), c + sum_list (map lf_est_cost fs)) totals)"

definition work_totals ::
  "Scope \<Rightarrow> ((int \<times> string \<times> int option), UsaliLaborFact list) dict \<Rightarrow> (int, decimal \<times> decimal \<times> decimal) dict" where
  "work_totals scope rows = fold (add_work scope) rows []"

definition employee_work :: "db \<Rightarrow> Principal \<Rightarrow> date \<Rightarrow> date \<Rightarrow> string option \<Rightarrow> (db \<times> EmployeeWorkModel list) res" where
  "employee_work s p date_from date_to property_id =
     bindE (require_operator p) (\<lambda>_.
       if date_from > date_to then Inl (HTTPException 422)
       else if date_to - date_from > WORK_WINDOW_MAX_DAYS then Inl (HTTPException 422)
       else
         let scope = resolve_scope p s in
         bindE (case property_id of None \<Rightarrow> Inr () | Some q \<Rightarrow> require_readable_property s scope q) (\<lambda>_.
           let totals = work_totals scope (work_rows s date_from date_to property_id);
               ids = sort (map fst totals);
               sees_cost = effective_roles s (pi_subject p) \<inter> set RATE_EDITORS \<noteq> {};
               window = (case property_id of None \<Rightarrow> ''*'' | Some q \<Rightarrow> if q = [] then ''*'' else q)
                          @ '':'' @ isoformat date_from @ '':'' @ isoformat date_to;
               s1 = audit_row (pi_subject p) ''read_employee_work'' ''property'' window s;
               s2 = (if sees_cost
                     then fold (\<lambda>i. audit_row (pi_subject p) ''read_employee_earnings'' ''employee'' (str_int i)) ids s1 else s1)
           in Inr (s2, map (\<lambda>i. let (h, ot, c) = dict_get totals i (0, 0, 0)
                                in \<lparr>wm_employee_id = i, wm_hours = h, wm_ot_hours = ot, wm_est_cost = (if sees_cost then Some c else None)\<rparr>) ids)))"

end
