(* ===== verification/Floor.thy ===== *)
theory Floor
  imports Review GlInvariant
begin

text \<open>
  The doors of a timecard as a state machine: kiosk punches, review, adjustment, reopening and the purge of photos, in any
  order and by any caller.  What holds of every state they reach: the order of the punches, the lock of an approved card, and
  the agreement of the filed labor cost with the approved timeline.
\<close>

section \<open>The timeline of a card\<close>

text \<open>What the hours engine reads of a card: its linked punches with their events, and its adjustments.\<close>

definition timeline :: "db \<Rightarrow> int \<Rightarrow> (date \<times> Event) list \<times> TimecardAdjustment list" where
  "timeline s i =
     (map (\<lambda>p. (pn_business_date p, punch_event s p)) (filter (\<lambda>p. pn_timecard_id p = Some i) (punches s)),
      filter (\<lambda>a. ta_timecard_id a = i) (adjustments s))"

lemma timecard_events_timeline:
  "timecard_events s c = fold (\<lambda>a d. dict_append (ta_business_date a) (adjustment_event a) d) (snd (timeline s (tc_timecard_id c)))
     (fold (\<lambda>(b, e). dict_append b e) (fst (timeline s (tc_timecard_id c))) [])"
  by (simp add: timecard_events_def timeline_def fold_map comp_def)

lemma compute_timecard_timeline:
  "timeline s' (tc_timecard_id c') = timeline s (tc_timecard_id c) \<Longrightarrow> compute_timecard s' c' = compute_timecard s c"
  by (simp add: compute_timecard_def timecard_events_timeline)

lemma timeline_frame:
  assumes "punches s' = punches s" "adjustments s' = adjustments s" "devices s' = devices s"
  shows "timeline s' = timeline s"
  using assms by (simp add: timeline_def fun_eq_iff punch_event_def get_device_def)

section \<open>Well-formed timecards\<close>

text \<open>
  Keys are unique, a card spans a pay period, a punch is linked to the card of its employee and period, and only
  an approved card has labor facts.
\<close>

definition card_of_punch :: "Punch \<Rightarrow> Timecard \<Rightarrow> bool" where
  "card_of_punch p c \<longleftrightarrow> tc_employee_id c = pn_employee_id p \<and> tc_period_start c \<le> pn_business_date p
     \<and> pn_business_date p \<le> tc_period_end c"

definition cards_wf :: "date \<Rightarrow> db \<Rightarrow> bool" where
  "cards_wf anchor s \<longleftrightarrow> distinct (map tc_timecard_id (timecards s))
     \<and> distinct (map (\<lambda>c. (tc_employee_id c, tc_period_start c)) (timecards s))
     \<and> (\<forall>c \<in> set (timecards s). period_for (tc_period_start c) anchor = (tc_period_start c, tc_period_end c))"

definition links_wf :: "db \<Rightarrow> bool" where
  "links_wf s \<longleftrightarrow> distinct (map pn_punch_id (punches s))
     \<and> (\<forall>p \<in> set (punches s). \<forall>i. pn_timecard_id p = Some i \<longrightarrow>
          (\<exists>c \<in> set (timecards s). tc_timecard_id c = i \<and> card_of_punch p c))
     \<and> (\<forall>a \<in> set (adjustments s). \<exists>c \<in> set (timecards s). tc_timecard_id c = ta_timecard_id a)"

definition devices_wf :: "db \<Rightarrow> bool" where
  "devices_wf s \<longleftrightarrow> (\<forall>p \<in> set (punches s). get_device s (pn_kiosk_device_id p) \<noteq> None)"

definition facts_wf :: "db \<Rightarrow> bool" where
  "facts_wf s \<longleftrightarrow> (\<forall>f \<in> set (labor_facts s). \<exists>c \<in> set (timecards s). tc_timecard_id c = lf_timecard_id f \<and> tc_status c = ''approved'')"

definition floor_wf :: "date \<Rightarrow> db \<Rightarrow> bool" where
  "floor_wf anchor s \<longleftrightarrow> cards_wf anchor s \<and> links_wf s \<and> devices_wf s \<and> facts_wf s"

lemma period_for_bounds:
  "period_for d anchor = (a, b) \<Longrightarrow> a \<le> d \<and> d \<le> b"
  using period_for_tiles [of d anchor] by simp

lemma period_for_same:
  assumes "period_for d anchor = (a, b)"
  shows "period_for d' anchor = (a, b) \<longleftrightarrow> a \<le> d' \<and> d' \<le> b"
  using period_for_tiles [of d anchor] unfolding assms prod.case by blast

lemma period_for_start:
  assumes "period_for d anchor = (a, b)"
  shows "period_for a anchor = (a, b)"
  using period_for_same [OF assms, of a] period_for_bounds [OF assms] by simp

lemma card_unique:
  assumes "cards_wf anchor s" "c \<in> set (timecards s)" "c' \<in> set (timecards s)" "tc_timecard_id c = tc_timecard_id c'"
  shows "c = c'"
  using assms by (auto simp: cards_wf_def dest: inj_onD [OF distinct_map [THEN iffD1, THEN conjunct2]])

lemma get_timecard_row_in: "get_timecard_row s i = Some c \<Longrightarrow> c \<in> set (timecards s) \<and> tc_timecard_id c = i"
  by (auto simp: get_timecard_row_def find_Some_iff)

lemma filter_singleton_in: "filter P xs = [c] \<Longrightarrow> c \<in> set xs \<and> P c"
  by (metis filter_eq_Cons_iff in_set_conv_decomp)

lemma links_wfD:
  "links_wf s \<Longrightarrow> p \<in> set (punches s) \<Longrightarrow> pn_timecard_id p = Some i \<Longrightarrow>
     \<exists>c \<in> set (timecards s). tc_timecard_id c = i \<and> card_of_punch p c"
  by (simp add: links_wf_def)

lemma in_link_punchesD:
  assumes "p \<in> set (link_punches e a b i ps)"
  shows "\<exists>q \<in> set ps. p = (if pn_employee_id q = e \<and> a \<le> pn_business_date q \<and> pn_business_date q \<le> b
    then q\<lparr>pn_timecard_id := Some i\<rparr> else q)"
  using assms unfolding link_punches_def set_map by (rule imageE) blast

text \<open>A card whose window holds a linked punch is the card it is linked to.\<close>

lemma card_by_window:
  assumes "cards_wf anchor s" "k \<in> set (timecards s)" "card_of_punch p k" "pn_employee_id p = e"
    and "period_for d anchor = (a, b)" "a \<le> pn_business_date p" "pn_business_date p \<le> b"
  shows "tc_employee_id k = e \<and> tc_period_start k = a"
proof -
  have k: "period_for (tc_period_start k) anchor = (tc_period_start k, tc_period_end k)" using assms(1,2) by (simp add: cards_wf_def)
  have "period_for (pn_business_date p) anchor = (a, b)" using period_for_same [OF assms(5)] assms(6,7) by blast
  moreover have "period_for (pn_business_date p) anchor = (tc_period_start k, tc_period_end k)"
    using period_for_same [OF k] assms(3) by (simp add: card_of_punch_def)
  ultimately show ?thesis using assms(3,4) by (simp add: card_of_punch_def)
qed

section \<open>Assembly keeps it\<close>

lemma link_punches_ids [simp]: "map pn_punch_id (link_punches e a b i ps) = map pn_punch_id ps"
  by (simp add: link_punches_def comp_def if_distrib cong: if_cong)

lemma punch_event_link [simp]: "punch_event s (p\<lparr>pn_timecard_id := t\<rparr>) = punch_event s p"
  by (simp add: punch_event_def)

lemma punch_event_update [simp]:
  "punch_event (s\<lparr>punches := P\<rparr>) = punch_event s" "punch_event (s\<lparr>timecards := T\<rparr>) = punch_event s"
  by (simp_all add: fun_eq_iff punch_event_def get_device_def)

lemma link_elsewhere:
  assumes "\<And>p. p \<in> set ps \<Longrightarrow> pn_timecard_id p = Some i \<Longrightarrow> \<not> (pn_employee_id p = e \<and> a \<le> pn_business_date p \<and> pn_business_date p \<le> b)" "i \<noteq> j"
  shows "filter (\<lambda>p. pn_timecard_id p = Some i) (link_punches e a b j ps) = filter (\<lambda>p. pn_timecard_id p = Some i) ps"
  using assms unfolding link_punches_def by (induction ps) auto

lemma assemble_keeps_timeline:
  assumes "assemble_timecard s e d anchor = Inr (s', c)" "cards_wf anchor s" "links_wf s"
    and k: "k \<in> set (timecards s)" "tc_status k = ''approved''"
  shows "timeline s' (tc_timecard_id k) = timeline s (tc_timecard_id k)"
proof -
  obtain a b where per: "period_for d anchor = (a, b)" by (metis prod.exhaust)
  have kept: "filter (\<lambda>p. pn_timecard_id p = Some (tc_timecard_id k)) (link_punches e a b j (punches s))
        = filter (\<lambda>p. pn_timecard_id p = Some (tc_timecard_id k)) (punches s)"
    if other: "k \<notin> set (filter (\<lambda>c. tc_employee_id c = e \<and> tc_period_start c = a) (timecards s))" "tc_timecard_id k \<noteq> j" for j
  proof (rule link_elsewhere [OF _ other(2)])
    fix p assume p: "p \<in> set (punches s)" "pn_timecard_id p = Some (tc_timecard_id k)"
    obtain c' where c': "c' \<in> set (timecards s)" "tc_timecard_id c' = tc_timecard_id k" "card_of_punch p c'"
      using links_wfD [OF assms(3) p] by blast
    then have "card_of_punch p k" using card_unique [OF assms(2) k(1) c'(1)] by metis
    from card_by_window [OF assms(2) k(1) this _ per] other(1) k(1)
    show "\<not> (pn_employee_id p = e \<and> a \<le> pn_business_date p \<and> pn_business_date p \<le> b)" by auto
  qed
  from assms(1) per show ?thesis
  proof (cases rule: assemble_timecard_cases)
    case approved
    then show ?thesis by simp
  next
    case existing
    have "c \<in> set (timecards s)" using filter_singleton_in [OF existing(1)] by blast
    then have ne: "tc_timecard_id k \<noteq> tc_timecard_id c" using card_unique [OF assms(2) k(1)] existing(2) k(2) by metis
    have "k \<noteq> c" using existing(2) k(2) by metis
    then have "k \<notin> set (filter (\<lambda>c. tc_employee_id c = e \<and> tc_period_start c = a) (timecards s))" unfolding existing(1) by simp
    from kept [OF this ne] show ?thesis by (simp add: timeline_def existing(3))
  next
    case created
    have ne: "tc_timecard_id k \<noteq> tc_timecard_id c" using next_id_fresh [of "map tc_timecard_id (timecards s)"] created(6) k(1) by (metis image_eqI set_map)
    have "k \<notin> set (filter (\<lambda>c. tc_employee_id c = e \<and> tc_period_start c = a) (timecards s))" unfolding created(1) by simp
    from kept [OF this ne] show ?thesis by (simp add: timeline_def created(7))
  qed
qed

lemma assemble_wf:
  assumes "assemble_timecard s e d anchor = Inr (s', c)" "floor_wf anchor s"
  shows "floor_wf anchor s'" "set (timecards s) \<subseteq> set (timecards s')" "labor_facts s' = labor_facts s" "adjustments s' = adjustments s"
    "devices s' = devices s" "map pn_punched_at (punches s') = map pn_punched_at (punches s)"
proof -
  obtain a b where per: "period_for d anchor = (a, b)" by (metis prod.exhaust)
  have wf: "cards_wf anchor s" "links_wf s" "devices_wf s" "facts_wf s" using assms(2) by (simp_all add: floor_wf_def)
  have dv: "\<forall>p \<in> set (link_punches e a b i (punches s)). get_device s (pn_kiosk_device_id p) \<noteq> None" for i
    using wf(3) by (auto simp: devices_wf_def link_punches_def)
  have tm: "map pn_punched_at (link_punches e a b i ps) = map pn_punched_at ps" for i ps
    by (simp add: link_punches_def comp_def if_distrib cong: if_cong)
  have lk: "\<exists>c' \<in> T. tc_timecard_id c' = i \<and> card_of_punch p c'"
    if pc: "p \<in> set (link_punches e a b (tc_timecard_id c) (punches s))" "pn_timecard_id p = Some i" "set (timecards s) \<subseteq> T" "c \<in> T"
      "tc_employee_id c = e" "tc_period_start c = a" "tc_period_end c = b" for p i T
  proof -
    obtain q where q: "q \<in> set (punches s)" "p = (if pn_employee_id q = e \<and> a \<le> pn_business_date q \<and> pn_business_date q \<le> b
        then q\<lparr>pn_timecard_id := Some (tc_timecard_id c)\<rparr> else q)"
      using in_link_punchesD [OF pc(1)] by blast
    show ?thesis
    proof (cases "pn_employee_id q = e \<and> a \<le> pn_business_date q \<and> pn_business_date q \<le> b")
      case True
      then have "card_of_punch p c" "i = tc_timecard_id c" using q(2) pc(2,5-7) by (auto simp: card_of_punch_def)
      then show ?thesis using pc(4) by blast
    next
      case False
      then have "p = q" using q(2) by (metis (full_types))
      then show ?thesis using links_wfD [OF wf(2) q(1)] pc(2,3) by blast
    qed
  qed
  from assms(1) per have "floor_wf anchor s' \<and> set (timecards s) \<subseteq> set (timecards s') \<and> labor_facts s' = labor_facts s \<and> adjustments s' = adjustments s
    \<and> devices s' = devices s \<and> map pn_punched_at (punches s') = map pn_punched_at (punches s)"
  proof (cases rule: assemble_timecard_cases)
    case approved
    then show ?thesis using assms(2) by simp
  next
    case existing
    have c: "c \<in> set (timecards s)" "tc_employee_id c = e" "tc_period_start c = a" using filter_singleton_in [OF existing(1)] by blast+
    then have "period_for a anchor = (a, tc_period_end c)" using wf(1) by (auto simp: cards_wf_def)
    with period_for_start [OF per] have b: "tc_period_end c = b" by simp
    show ?thesis
      using wf existing(3) dv lk [where T = "set (timecards s)"] c b tm
      by (auto simp: floor_wf_def cards_wf_def links_wf_def devices_wf_def facts_wf_def get_device_def)
  next
    case created
    have "cards_wf anchor s'"
      using wf(1) created period_for_start [OF per] next_id_fresh [of "map tc_timecard_id (timecards s)"]
      by (auto simp: cards_wf_def filter_empty_conv)
    moreover have "links_wf s'"
      using wf(2) created lk [where T = "set (timecards s')"] by (auto simp: links_wf_def)
    moreover have "devices_wf s'" using dv created(7) by (simp add: devices_wf_def get_device_def)
    moreover have "facts_wf s'" using wf(4) created(7) by (auto simp: facts_wf_def)
    ultimately show ?thesis using created(7) tm by (auto simp: floor_wf_def)
  qed
  then show "floor_wf anchor s'" "set (timecards s) \<subseteq> set (timecards s')" "labor_facts s' = labor_facts s" "adjustments s' = adjustments s"
    "devices s' = devices s" "map pn_punched_at (punches s') = map pn_punched_at (punches s)" by blast+
qed

section \<open>Approval and reopening keep it\<close>

lemma repost_appends:
  assumes "repost sha256 actor now grains s = Inr s'"
  shows "appends s s'"
proof -
  from assms have "foldE (\<lambda>(prop, on) s. bindE (post_and_record sha256 s prop on ''payroll_accrual'' actor now) (\<lambda>(s', _). Inr s'))
      (sorted_list_of_set grains) s = Inr s'" by (simp add: repost_def)
  then show ?thesis
  proof (rule foldE_invariant [where P = "appends s"])
    fix x t t' assume "appends s t"
      and step: "(case x of (prop, on) \<Rightarrow> \<lambda>s. bindE (post_and_record sha256 s prop on ''payroll_accrual'' actor now) (\<lambda>(s', _). Inr s')) t = Inr t'"
    obtain p d where x: "x = (p, d)" by (cases x)
    from step obtain out where "post_and_record sha256 t p d ''payroll_accrual'' actor now = Inr (t', out)"
      by (auto simp: x inr)
    with \<open>appends s t\<close> show "appends s t'" using post_and_record_ok(2) appends_trans by blast
  qed (rule appends_refl)
qed

lemma fold_audit: "\<exists>A. fold (\<lambda>i. audit_row actor action rtype (f i)) xs s = s\<lparr>audit_events := A\<rparr>"
proof (induction xs arbitrary: s)
  case Nil
  show ?case by (intro exI [of _ "audit_events s"]) simp
next
  case (Cons x xs)
  from Cons.IH [of "audit_row actor action rtype (f x) s"] show ?case by (auto simp: audit_row_def)
qed

text \<open>The tables a review operation leaves alone, and the facts of the other cards.\<close>

definition kept_by_review :: "int \<Rightarrow> db \<Rightarrow> db \<Rightarrow> bool" where
  "kept_by_review i s s' \<longleftrightarrow> devices s' = devices s \<and> adjustments s' = adjustments s
     \<and> map pn_punched_at (punches s') = map pn_punched_at (punches s)
     \<and> (\<forall>j. j \<noteq> i \<longrightarrow> filter (\<lambda>f. lf_timecard_id f = j) (labor_facts s') = filter (\<lambda>f. lf_timecard_id f = j) (labor_facts s))"

lemma filter_other_facts:
  assumes "filter (\<lambda>f. lf_timecard_id f \<noteq> i) F' = filter (\<lambda>f. lf_timecard_id f \<noteq> i) F" "j \<noteq> i"
  shows "filter (\<lambda>f. lf_timecard_id f = j) F' = filter (\<lambda>f. lf_timecard_id f = j) F"
proof -
  have "filter (\<lambda>f. lf_timecard_id f = j) xs = filter (\<lambda>f. lf_timecard_id f = j) (filter (\<lambda>f. lf_timecard_id f \<noteq> i) xs)" for xs
    using assms(2) by (auto intro: filter_cong)
  then show ?thesis using assms(1) by metis
qed

lemma promote_labor_facts:
  assumes "promote_timecard s c anchor = Inr (s', w)"
  shows "\<exists>F L. s' = s\<lparr>labor_facts := F, sick_ledger := L\<rparr> \<and> filter (\<lambda>f. lf_timecard_id f \<noteq> tc_timecard_id c) F
     = filter (\<lambda>f. lf_timecard_id f \<noteq> tc_timecard_id c) (labor_facts s)"
  using assms
proof (cases rule: promote_cases)
  case (excluded e)
  then show ?thesis by (intro exI [of _ "labor_facts s"] exI [of _ "sick_ledger s"]) simp
next
  case (promoted e facts dh ex j)
  from promoted_labor_facts(2,4) [OF promoted(3,4)] show ?thesis by auto
qed

text \<open>What an approval that succeeds has done.\<close>

lemma approve_cases:
  assumes "approve_timecard sha256 tz cfg s p i acknowledged now = Inr (s', m)"
  obtains c A s3 w where "check_approval tz cfg s p i acknowledged now = Inr c" "c \<in> set (timecards s)" "tc_timecard_id c = i"
    "tc_status c \<noteq> ''approved''"
    "promote_timecard (s\<lparr>timecards := map (\<lambda>d. if tc_timecard_id d = i
        then c\<lparr>tc_status := ''approved'', tc_approved_by := Some (pi_subject p), tc_approved_at := Some now\<rparr> else d) (timecards s),
        audit_events := A\<rparr>)
      (c\<lparr>tc_status := ''approved'', tc_approved_by := Some (pi_subject p), tc_approved_at := Some now\<rparr>)
      (payroll_period_anchor cfg) = Inr (s3, w)"
    "appends s3 s'"
proof -
  let ?c = "\<lambda>c. c\<lparr>tc_status := ''approved'', tc_approved_by := Some (pi_subject p), tc_approved_at := Some now\<rparr>"
  obtain c where c: "check_approval tz cfg s p i acknowledged now = Inr c" using assms by (auto simp: approve_timecard_def inr)
  then have in_s: "c \<in> set (timecards s) \<and> tc_timecard_id c = i" "tc_status c \<noteq> ''approved''"
    by (auto simp: check_approval_def open_card_def inr split: if_splits option.splits dest: get_timecard_row_in)
  define s2 where "s2 = audit_row (pi_subject p) ''approve_timecard'' ''timecard'' (str_int i)
    (set_card i (\<lambda>_. ?c c) (fold (\<lambda>j. audit_row (pi_subject p) ''acknowledge_unverified_punch'' ''punch'' (str_int j)) (sort (remdups acknowledged)) s))"
  have "\<exists>A. s2 = s\<lparr>timecards := map (\<lambda>d. if tc_timecard_id d = i then ?c c else d) (timecards s), audit_events := A\<rparr>"
    using fold_audit [of "pi_subject p" "''acknowledge_unverified_punch''" "''punch''" str_int "sort (remdups acknowledged)" s]
    by (elim exE) (simp add: s2_def audit_row_def [of _ "''approve_timecard''"] set_card_def, blast)
  then obtain A where A: "s2 = s\<lparr>timecards := map (\<lambda>d. if tc_timecard_id d = i then ?c c else d) (timecards s), audit_events := A\<rparr>" by blast
  obtain s3 w where pr: "promote_timecard s2 (?c c) (payroll_period_anchor cfg) = Inr (s3, w)" and rp: "repost sha256 (pi_subject p) now w s3 = Inr s'"
    using assms c by (auto simp: approve_timecard_def inr Let_def s2_def)
  show thesis by (rule that [OF c _ _ in_s(2) pr [unfolded A] repost_appends [OF rp]]) (use in_s in auto)
qed

text \<open>And a reopening.\<close>

lemma reopen_cases:
  assumes "reopen_timecard sha256 cfg s p i now = Inr (s', m)"
  obtains c A s2 s3 k where "open_card s p i = Inr c" "c \<in> set (timecards s)" "tc_timecard_id c = i" "tc_status c = ''approved''"
    "appends (s\<lparr>timecards := map (\<lambda>d. if tc_timecard_id d = i then c\<lparr>tc_status := ''open'', tc_approved_by := None,
          tc_approved_at := None, tc_photos_purged_at := None\<rparr> else d) (timecards s),
        labor_facts := filter (\<lambda>f. lf_timecard_id f \<noteq> i) (labor_facts s)\<rparr>) s2"
    "assemble_timecard s2 (tc_employee_id c) (tc_period_start c) (payroll_period_anchor cfg) = Inr (s3, k)"
    "s' = s3\<lparr>audit_events := A\<rparr>"
proof -
  let ?c = "\<lambda>c. c\<lparr>tc_status := ''open'', tc_approved_by := None, tc_approved_at := None, tc_photos_purged_at := None\<rparr>"
  obtain c where c: "open_card s p i = Inr c" "tc_status c = ''approved''" using assms by (auto simp: reopen_timecard_def inr split: if_splits)
  then have in_s: "c \<in> set (timecards s)" "tc_timecard_id c = i"
    by (auto simp: open_card_def inr split: option.splits dest: get_timecard_row_in)
  obtain s2 s3 k where rp: "repost sha256 (pi_subject p) now (snd (demote_timecard (set_card i (\<lambda>_. ?c c) s) (?c c)))
      (fst (demote_timecard (set_card i (\<lambda>_. ?c c) s) (?c c))) = Inr s2"
    and as: "assemble_timecard s2 (tc_employee_id c) (tc_period_start c) (payroll_period_anchor cfg) = Inr (s3, k)"
    and s': "s' = audit_row (pi_subject p) ''reopen_timecard'' ''timecard'' (str_int i) s3"
    using assms c by (auto simp: reopen_timecard_def inr Let_def split: prod.splits)
  have d: "fst (demote_timecard (set_card i (\<lambda>_. ?c c) s) (?c c)) = s\<lparr>timecards := map (\<lambda>d. if tc_timecard_id d = i then ?c c else d) (timecards s),
      labor_facts := filter (\<lambda>f. lf_timecard_id f \<noteq> i) (labor_facts s)\<rparr>"
    using in_s by (simp add: demote_timecard_def set_card_def Let_def)
  show thesis
    by (rule that [OF c(1) in_s c(2) _ as, of "audit_events s3 @ [_]"]) (use repost_appends [OF rp] d s' in \<open>simp_all add: audit_row_def\<close>)
qed

lemma appends_tables:
  assumes "appends s s'"
  shows "timecards s' = timecards s" "punches s' = punches s" "adjustments s' = adjustments s" "devices s' = devices s"
    "labor_facts s' = labor_facts s"
  using assms by (auto simp: appends_def)

lemma map_card_keys:
  assumes "\<And>c. tc_timecard_id (f c) = tc_timecard_id c \<and> tc_employee_id (f c) = tc_employee_id c
      \<and> tc_period_start (f c) = tc_period_start c \<and> tc_period_end (f c) = tc_period_end c"
  shows "cards_wf anchor (s\<lparr>timecards := map f (timecards s)\<rparr>) = cards_wf anchor s"
proof -
  have "map tc_timecard_id (map f cs) = map tc_timecard_id cs"
    "map (\<lambda>c. (tc_employee_id c, tc_period_start c)) (map f cs) = map (\<lambda>c. (tc_employee_id c, tc_period_start c)) cs" for cs
    using assms by simp_all
  then show ?thesis unfolding cards_wf_def using assms by (simp del: map_map)
qed

text \<open>The row of one card is replaced by one of the same key.\<close>

lemma replaced_card:
  assumes "cards_wf anchor s" "c \<in> set (timecards s)" "tc_timecard_id c = i"
    and "tc_timecard_id c' = i" "tc_employee_id c' = tc_employee_id c" "tc_period_start c' = tc_period_start c" "tc_period_end c' = tc_period_end c"
  defines "T \<equiv> map (\<lambda>d. if tc_timecard_id d = i then c' else d) (timecards s)"
  shows "timecards s' = T \<Longrightarrow> cards_wf anchor s'"
    "timecards s' = T \<Longrightarrow> punches s' = punches s \<Longrightarrow> adjustments s' = adjustments s \<Longrightarrow> links_wf s \<Longrightarrow> links_wf s'"
    "c' \<in> set T" "d \<in> set T \<Longrightarrow> tc_timecard_id d \<noteq> i \<Longrightarrow> d \<in> set (timecards s)"
    "d \<in> set (timecards s) \<Longrightarrow> tc_timecard_id d \<noteq> i \<Longrightarrow> d \<in> set T" "d \<in> set T \<Longrightarrow> tc_timecard_id d = i \<Longrightarrow> d = c'"
proof -
  let ?f = "\<lambda>d. if d = c then c' else d"
  have T: "T = map ?f (timecards s)" unfolding T_def
  proof (rule map_cong [OF refl])
    fix d assume d: "d \<in> set (timecards s)"
    have "d = c" if "tc_timecard_id d = i" by (rule card_unique [OF assms(1) d assms(2)]) (simp add: that assms(3))
    then have "tc_timecard_id d = i \<longleftrightarrow> d = c" using assms(3) by auto
    then show "(if tc_timecard_id d = i then c' else d) = ?f d" by simp
  qed
  show cw: "timecards s' = T \<Longrightarrow> cards_wf anchor s'"
    using map_card_keys [of ?f anchor s] assms(1,3-7) by (simp add: T cards_wf_def)
  have T_in: "d \<in> set T \<longleftrightarrow> (\<exists>e \<in> set (timecards s). d = (if tc_timecard_id e = i then c' else e))" for d
    unfolding T_def by auto
  show inT: "c' \<in> set T" using T_in assms(2,3) by auto
  show "d \<in> set T \<Longrightarrow> tc_timecard_id d \<noteq> i \<Longrightarrow> d \<in> set (timecards s)" for d using T_in assms(4) by auto
  show stays: "d \<in> set (timecards s) \<Longrightarrow> tc_timecard_id d \<noteq> i \<Longrightarrow> d \<in> set T" for d using T_in by auto
  show "d \<in> set T \<Longrightarrow> tc_timecard_id d = i \<Longrightarrow> d = c'" for d using T_in [of d] by metis
  assume s': "timecards s' = T" "punches s' = punches s" "adjustments s' = adjustments s" "links_wf s"
  have card: "\<exists>k \<in> set T. tc_timecard_id k = j \<and> (card_of_punch p d \<longrightarrow> card_of_punch p k)" if "d \<in> set (timecards s)" "tc_timecard_id d = j" for d j p
  proof (cases "j = i")
    case True
    then have "d = c" using card_unique [OF assms(1) that(1) assms(2)] that(2) assms(3) by simp
    then show ?thesis using inT True assms(4-7) by (intro bexI [of _ c']) (simp_all add: card_of_punch_def)
  qed (use stays [of d] that in blast)
  show "links_wf s'" unfolding links_wf_def s'(1-3)
  proof (intro conjI ballI allI impI)
    show "distinct (map pn_punch_id (punches s))" using s'(4) by (simp add: links_wf_def)
    show "\<exists>k \<in> set T. tc_timecard_id k = j \<and> card_of_punch p k" if "p \<in> set (punches s)" "pn_timecard_id p = Some j" for p j
      using links_wfD [OF s'(4) that] card by blast
    show "\<exists>k \<in> set T. tc_timecard_id k = ta_timecard_id a" if "a \<in> set (adjustments s)" for a
      using s'(4) that card by (metis links_wf_def)
  qed
qed

lemma approve_keeps:
  assumes "approve_timecard sha256 tz cfg s p i acknowledged now = Inr (s', m)" and wf: "floor_wf (payroll_period_anchor cfg) s"
  shows "floor_wf (payroll_period_anchor cfg) s'" "timeline s' = timeline s" "kept_by_review i s s'"
    "\<forall>c \<in> set (timecards s'). tc_timecard_id c \<noteq> i \<longrightarrow> c \<in> set (timecards s)"
    "\<forall>c \<in> set (timecards s). tc_timecard_id c = i \<longrightarrow> tc_status c \<noteq> ''approved''"
  using assms(1)
proof -
  let ?a = "payroll_period_anchor cfg"
  obtain c A s3 w where c: "c \<in> set (timecards s)" "tc_timecard_id c = i" "tc_status c \<noteq> ''approved''"
    and pr: "promote_timecard (s\<lparr>timecards := map (\<lambda>d. if tc_timecard_id d = i
        then c\<lparr>tc_status := ''approved'', tc_approved_by := Some (pi_subject p), tc_approved_at := Some now\<rparr> else d) (timecards s),
        audit_events := A\<rparr>) (c\<lparr>tc_status := ''approved'', tc_approved_by := Some (pi_subject p), tc_approved_at := Some now\<rparr>) ?a = Inr (s3, w)"
    and ap: "appends s3 s'"
    using assms(1) by (rule approve_cases)
  define c' where "c' = c\<lparr>tc_status := ''approved'', tc_approved_by := Some (pi_subject p), tc_approved_at := Some now\<rparr>"
  define T where "T = map (\<lambda>d. if tc_timecard_id d = i then c' else d) (timecards s)"
  note pr' = pr [folded c'_def, folded T_def]
  obtain F L where s3: "s3 = s\<lparr>timecards := T, audit_events := A, labor_facts := F, sick_ledger := L\<rparr>"
    and F: "filter (\<lambda>f. lf_timecard_id f \<noteq> i) F = filter (\<lambda>f. lf_timecard_id f \<noteq> i) (labor_facts s)"
    using promote_labor_facts [OF pr'] c(2) by (auto simp: c'_def)
  note t = appends_tables [OF ap, unfolded s3, simplified]
  have w: "cards_wf ?a s" "links_wf s" "devices_wf s" "facts_wf s" using wf by (simp_all add: floor_wf_def)
  note rc = replaced_card [OF w(1) c(1,2), of c', folded T_def]
  have c': "tc_timecard_id c' = i" "tc_employee_id c' = tc_employee_id c" "tc_period_start c' = tc_period_start c" "tc_period_end c' = tc_period_end c"
    using c(2) by (simp_all add: c'_def)
  have "facts_wf s'"
    unfolding facts_wf_def t
  proof
    fix f assume f: "f \<in> set F"
    show "\<exists>k \<in> set T. tc_timecard_id k = lf_timecard_id f \<and> tc_status k = ''approved''"
    proof (cases "lf_timecard_id f = i")
      case True
      then show ?thesis using rc(3) [OF c'] c'(1) by (intro bexI [of _ c']) (simp_all add: c'_def)
    next
      case False
      then have "f \<in> set (filter (\<lambda>f. lf_timecard_id f \<noteq> i) F)" using f by simp
      then have "f \<in> set (labor_facts s)" unfolding F by simp
      then show ?thesis using w(4) rc(5) [OF c'] False by (metis facts_wf_def)
    qed
  qed
  moreover have "devices_wf s'" using w(3) by (simp add: devices_wf_def t get_device_def)
  ultimately show "floor_wf ?a s'" using rc(1) [OF c' t(1)] rc(2) [OF c' t(1-3) w(2)] by (simp add: floor_wf_def)
  show "timeline s' = timeline s" by (rule timeline_frame) (simp_all add: t)
  show "kept_by_review i s s'" using filter_other_facts [OF F] by (simp add: kept_by_review_def t)
  show "\<forall>c \<in> set (timecards s'). tc_timecard_id c \<noteq> i \<longrightarrow> c \<in> set (timecards s)" using rc(4) [OF c'] t(1) by blast
  show "\<forall>c \<in> set (timecards s). tc_timecard_id c = i \<longrightarrow> tc_status c \<noteq> ''approved''"
    using card_unique [OF w(1) _ c(1)] c(2,3) by metis
qed

lemma reopen_keeps:
  assumes "reopen_timecard sha256 cfg s p i now = Inr (s', m)" and wf: "floor_wf (payroll_period_anchor cfg) s"
  shows "floor_wf (payroll_period_anchor cfg) s'" "kept_by_review i s s'"
    "k \<in> set (timecards s) \<Longrightarrow> tc_status k = ''approved'' \<Longrightarrow> tc_timecard_id k \<noteq> i \<Longrightarrow> k \<in> set (timecards s') \<and> timeline s' (tc_timecard_id k) = timeline s (tc_timecard_id k)"
    "\<forall>c \<in> set (timecards s'). tc_status c = ''approved'' \<longrightarrow> c \<in> set (timecards s) \<and> tc_timecard_id c \<noteq> i"
    "filter (\<lambda>f. lf_timecard_id f = i) (labor_facts s') = []"
proof -
  let ?a = "payroll_period_anchor cfg"
  obtain c A s2 s3 q where c: "c \<in> set (timecards s)" "tc_timecard_id c = i"
    and ap: "appends (s\<lparr>timecards := map (\<lambda>d. if tc_timecard_id d = i then c\<lparr>tc_status := ''open'', tc_approved_by := None,
          tc_approved_at := None, tc_photos_purged_at := None\<rparr> else d) (timecards s),
        labor_facts := filter (\<lambda>f. lf_timecard_id f \<noteq> i) (labor_facts s)\<rparr>) s2"
    and as: "assemble_timecard s2 (tc_employee_id c) (tc_period_start c) ?a = Inr (s3, q)" and s': "s' = s3\<lparr>audit_events := A\<rparr>"
    using assms(1) by (rule reopen_cases)
  define c' where "c' = c\<lparr>tc_status := ''open'', tc_approved_by := None, tc_approved_at := None, tc_photos_purged_at := None\<rparr>"
  define T where "T = map (\<lambda>d. if tc_timecard_id d = i then c' else d) (timecards s)"
  note t = appends_tables [OF ap [folded c'_def, folded T_def], simplified]
  have w: "cards_wf ?a s" "links_wf s" "devices_wf s" "facts_wf s" using wf by (simp_all add: floor_wf_def)
  note rc = replaced_card [OF w(1) c(1,2), of c', folded T_def]
  have c': "tc_timecard_id c' = i" "tc_employee_id c' = tc_employee_id c" "tc_period_start c' = tc_period_start c" "tc_period_end c' = tc_period_end c"
    using c(2) by (simp_all add: c'_def)
  have "facts_wf s2"
    unfolding facts_wf_def t
  proof
    fix f assume "f \<in> set (filter (\<lambda>f. lf_timecard_id f \<noteq> i) (labor_facts s))"
    then show "\<exists>k \<in> set T. tc_timecard_id k = lf_timecard_id f \<and> tc_status k = ''approved''"
      using w(4) rc(5) [OF c'] unfolding facts_wf_def by fastforce
  qed
  moreover have "devices_wf s2" using w(3) by (simp add: devices_wf_def t get_device_def)
  ultimately have w2: "floor_wf ?a s2" using rc(1) [OF c' t(1)] rc(2) [OF c' t(1-3) w(2)] by (simp add: floor_wf_def)
  note a = assemble_wf [OF as w2]
  show "floor_wf ?a s'" using a(1) by (simp add: s' floor_wf_def cards_wf_def links_wf_def devices_wf_def facts_wf_def get_device_def)
  show "kept_by_review i s s'" using a(3-6) filter_other_facts [of i "labor_facts s2" "labor_facts s"]
    by (simp add: kept_by_review_def s' t)
  show "filter (\<lambda>f. lf_timecard_id f = i) (labor_facts s') = []" by (simp add: s' a(3) t)
  have w2': "cards_wf ?a s2" "links_wf s2" using w2 by (simp_all add: floor_wf_def)
  show "k \<in> set (timecards s') \<and> timeline s' (tc_timecard_id k) = timeline s (tc_timecard_id k)"
    if k: "k \<in> set (timecards s)" "tc_status k = ''approved''" "tc_timecard_id k \<noteq> i"
  proof -
    have k2: "k \<in> set (timecards s2)" using rc(5) [OF c'] k by (simp add: t(1))
    have "timeline s2 = timeline s" by (rule timeline_frame) (simp_all add: t)
    moreover have "timeline s' = timeline s3" by (rule timeline_frame) (simp_all add: s')
    ultimately show ?thesis using assemble_keeps_timeline [OF as w2' k2 k(2)] k2 a(2) by (auto simp: s')
  qed
  show "\<forall>c \<in> set (timecards s'). tc_status c = ''approved'' \<longrightarrow> c \<in> set (timecards s) \<and> tc_timecard_id c \<noteq> i"
  proof (intro ballI impI)
    fix d assume d: "d \<in> set (timecards s')" "tc_status d = ''approved''"
    obtain x y where per: "period_for (tc_period_start c) ?a = (x, y)" by (metis prod.exhaust)
    from as per have "d \<in> set (timecards s2)"
      by (cases rule: assemble_timecard_cases) (use d in \<open>auto simp: s'\<close>)
    then have "d \<in> set T" by (simp add: t)
    moreover have "tc_timecard_id d \<noteq> i" using rc(6) [OF c', of d] \<open>d \<in> set T\<close> d(2) by (auto simp: c'_def)
    ultimately show "d \<in> set (timecards s) \<and> tc_timecard_id d \<noteq> i" using rc(4) [OF c'] by blast
  qed
qed

section \<open>The other doors\<close>

text \<open>
  \<open>locks a s s'\<close>: the step keeps the tables well-formed, and a card that is approved before and after it has the same row
  (but for the stamp of the photo purge), the same timeline and the same labor facts.  \<open>approves\<close> names the
  cards the step may approve.
\<close>

definition same_card :: "db \<Rightarrow> db \<Rightarrow> Timecard \<Rightarrow> Timecard \<Rightarrow> bool" where
  "same_card s s' k k' \<longleftrightarrow> (\<exists>t. k' = k\<lparr>tc_photos_purged_at := t\<rparr>)
     \<and> timeline s' (tc_timecard_id k) = timeline s (tc_timecard_id k)
     \<and> filter (\<lambda>f. lf_timecard_id f = tc_timecard_id k) (labor_facts s') = filter (\<lambda>f. lf_timecard_id f = tc_timecard_id k) (labor_facts s)"

definition locks :: "date \<Rightarrow> int set \<Rightarrow> db \<Rightarrow> db \<Rightarrow> bool" where
  "locks anchor approves s s' \<longleftrightarrow> floor_wf anchor s'
     \<and> (\<forall>k' \<in> set (timecards s'). tc_status k' = ''approved'' \<longrightarrow>
          (\<exists>k \<in> set (timecards s). tc_status k = ''approved'' \<and> same_card s s' k k') \<or> tc_timecard_id k' \<in> approves)
     \<and> (\<forall>k \<in> set (timecards s). tc_timecard_id k \<in> approves \<longrightarrow> tc_status k \<noteq> ''approved'')
     \<and> (card_datetimes s' \<longrightarrow> card_datetimes s)"

lemma same_cardI:
  "timeline s' (tc_timecard_id k) = timeline s (tc_timecard_id k) \<Longrightarrow>
   filter (\<lambda>f. lf_timecard_id f = tc_timecard_id k) (labor_facts s') = filter (\<lambda>f. lf_timecard_id f = tc_timecard_id k) (labor_facts s) \<Longrightarrow>
   same_card s s' k k"
  unfolding same_card_def by (intro conjI exI [of _ "tc_photos_purged_at k"]) simp_all

lemma card_datetimes_mono:
  assumes "set (map pn_punched_at (punches s)) \<subseteq> set (map pn_punched_at (punches s'))" "set (adjustments s) \<subseteq> set (adjustments s')" "card_datetimes s'"
  shows "card_datetimes s"
proof -
  have "\<bar>t\<bar> < 10 ^ 18" if "t \<in> set (map pn_punched_at (punches s))" for t
    using assms(1,3) that by (auto simp: card_datetimes_def dest!: subsetD [of _ _ t])
  then show ?thesis using assms(2,3) by (auto simp: card_datetimes_def)
qed

lemma locks_quiet:
  assumes "floor_wf anchor s'" "\<And>k. k \<in> set (timecards s') \<Longrightarrow> tc_status k = ''approved'' \<Longrightarrow> k \<in> set (timecards s)"
    and "\<And>k. k \<in> set (timecards s) \<Longrightarrow> tc_status k = ''approved'' \<Longrightarrow> k \<in> set (timecards s') \<Longrightarrow> timeline s' (tc_timecard_id k) = timeline s (tc_timecard_id k)"
    and "labor_facts s' = labor_facts s" "set (map pn_punched_at (punches s)) \<subseteq> set (map pn_punched_at (punches s'))"
    and "set (adjustments s) \<subseteq> set (adjustments s')"
  shows "locks anchor {} s s'"
proof -
  have "same_card s s' k k" if "timeline s' (tc_timecard_id k) = timeline s (tc_timecard_id k)" for k
    using that assms(4) by (intro same_cardI) simp_all
  then show ?thesis unfolding locks_def using assms(1-3) card_datetimes_mono [OF assms(5,6)] by auto
qed

lemma locks_approve:
  assumes "approve_timecard sha256 tz cfg s p i acknowledged now = Inr (s', m)" "floor_wf (payroll_period_anchor cfg) s"
  shows "locks (payroll_period_anchor cfg) {i} s s'"
proof -
  note a = approve_keeps [OF assms]
  have "same_card s s' k k" if "tc_timecard_id k \<noteq> i" for k
    using a(2,3) that by (intro same_cardI) (auto simp: kept_by_review_def)
  then show ?thesis unfolding locks_def
    using a(1,3-5) card_datetimes_mono [of s s'] by (auto simp: kept_by_review_def)
qed

lemma locks_reopen:
  assumes "reopen_timecard sha256 cfg s p i now = Inr (s', m)" "floor_wf (payroll_period_anchor cfg) s"
  shows "locks (payroll_period_anchor cfg) {} s s'"
proof -
  note a = reopen_keeps [OF assms]
  have "same_card s s' k k" if "k \<in> set (timecards s)" "tc_status k = ''approved''" "tc_timecard_id k \<noteq> i" for k
    using a(2) a(3) [OF that] that by (intro same_cardI) (auto simp: kept_by_review_def)
  then show ?thesis unfolding locks_def
    using a(1,2,4) card_datetimes_mono [of s s'] by (auto simp: kept_by_review_def)
qed

lemma floor_wf_frame:
  assumes "timecards s' = timecards s" "punches s' = punches s" "adjustments s' = adjustments s" "labor_facts s' = labor_facts s"
    and "\<And>p. p \<in> set (punches s) \<Longrightarrow> get_device s (pn_kiosk_device_id p) \<noteq> None \<Longrightarrow> get_device s' (pn_kiosk_device_id p) \<noteq> None" "floor_wf anchor s"
  shows "floor_wf anchor s'"
  using assms by (auto simp: floor_wf_def cards_wf_def links_wf_def devices_wf_def facts_wf_def)

text \<open>A device's row may change but for its property, and devices may be added.\<close>

lemma locks_devices:
  assumes "timecards s' = timecards s" "punches s' = punches s" "adjustments s' = adjustments s" "labor_facts s' = labor_facts s"
    and dev: "\<And>j d. get_device s j = Some d \<Longrightarrow> \<exists>d'. get_device s' j = Some d' \<and> kd_property_id d' = kd_property_id d"
    and wf: "floor_wf anchor s"
  shows "locks anchor {} s s'"
proof (rule locks_quiet)
  show "floor_wf anchor s'" by (rule floor_wf_frame [OF assms(1-4) _ wf]) (use dev in fastforce)
  have "punch_event s' p = punch_event s p" if p: "p \<in> set (punches s)" for p
  proof -
    obtain d where d: "get_device s (pn_kiosk_device_id p) = Some d" using wf p unfolding floor_wf_def devices_wf_def by blast
    then obtain d' where d': "get_device s' (pn_kiosk_device_id p) = Some d'" "kd_property_id d' = kd_property_id d" using dev by blast
    show ?thesis by (simp add: punch_event_def d d')
  qed
  then show "timeline s' (tc_timecard_id k) = timeline s (tc_timecard_id k)" for k
    by (simp add: timeline_def assms(2,3))
qed (simp_all add: assms)

lemma get_device_set:
  assumes "\<And>d. kd_device_id (f d) = kd_device_id d"
  shows "get_device (set_device i f s) j = map_option (\<lambda>d. if kd_device_id d = i then f d else d) (get_device s j)"
proof -
  have "find (\<lambda>r. kd_device_id r = j) (map (\<lambda>d. if kd_device_id d = i then f d else d) ds)
      = map_option (\<lambda>d. if kd_device_id d = i then f d else d) (find (\<lambda>r. kd_device_id r = j) ds)" for ds
    using assms by (induction ds) auto
  then show ?thesis by (simp add: get_device_def set_device_def)
qed

lemma locks_set_device:
  assumes "floor_wf anchor s" "\<And>d. kd_device_id (f d) = kd_device_id d \<and> kd_property_id (f d) = kd_property_id d"
  shows "locks anchor {} s (set_device i f s)"
  by (rule locks_devices) (use assms get_device_set [of f i s] in \<open>auto simp: set_device_def\<close>)

lemma get_device_append: "get_device s j = Some d \<Longrightarrow> get_device (s\<lparr>devices := devices s @ ds\<rparr>) j = Some d"
  by (auto simp: get_device_def find_Some_iff nth_append)

lemma locks_trans:
  assumes "locks anchor {} s t" "locks anchor {} t u"
  shows "locks anchor {} s u"
proof -
  have "same_card s u k k'" if st: "same_card s t k j" and tu: "same_card t u j k'" for k j k'
  proof -
    obtain x where "j = k\<lparr>tc_photos_purged_at := x\<rparr>" using st unfolding same_card_def by blast
    moreover obtain y where "k' = j\<lparr>tc_photos_purged_at := y\<rparr>" using tu unfolding same_card_def by blast
    ultimately have "k' = k\<lparr>tc_photos_purged_at := y\<rparr>" "tc_timecard_id j = tc_timecard_id k" by simp_all
    then show ?thesis using st tu unfolding same_card_def by (intro conjI exI [of _ y]) simp_all
  qed
  then show ?thesis using assms unfolding locks_def by blast
qed

lemma locks_enroll:
  assumes "enroll_device sha256 mint s p q name = Inr (s', d, tok)" "floor_wf anchor s"
  shows "locks anchor {} s s'"
proof -
  obtain A d' where s': "s' = s\<lparr>devices := devices s @ [d'], audit_events := A\<rparr>"
    using assms(1) by (auto simp: enroll_device_def inr Let_def audit_row_def split: if_splits)
  have "get_device s' j = get_device (s\<lparr>devices := devices s @ [d']\<rparr>) j" for j by (simp add: s' get_device_def)
  with get_device_append [of s _ _ "[d']"] show ?thesis
    by (intro locks_devices [OF _ _ _ _ _ assms(2)]) (auto simp: s')
qed

lemma locks_audit: "floor_wf anchor s \<Longrightarrow> locks anchor {} s (audit_row actor action rtype rid s)"
  by (rule locks_devices) (simp_all add: audit_row_def get_device_def)

lemma locks_revoke:
  assumes "revoke_device s p i now = Inr s'" "floor_wf anchor s"
  shows "locks anchor {} s s'"
proof -
  have s': "s' = audit_row (pi_subject p) ''revoke_kiosk_device'' ''kiosk_device'' (str_int i) (set_device i (\<lambda>d. d\<lparr>kd_revoked_at := Some now\<rparr>) s)"
    using assms(1) by (auto simp: revoke_device_def inr split: option.splits)
  have l: "locks anchor {} s (set_device i (\<lambda>d. d\<lparr>kd_revoked_at := Some now\<rparr>) s)" by (rule locks_set_device [OF assms(2)]) simp
  then have "floor_wf anchor (set_device i (\<lambda>d. d\<lparr>kd_revoked_at := Some now\<rparr>) s)" by (simp add: locks_def)
  from locks_trans [OF l locks_audit [OF this]] show ?thesis unfolding s' .
qed

lemma require_kiosk_device_cases:
  assumes "require_kiosk_device sha256 s token now = Inr (s1, d)"
  shows "s1 = s \<or> s1 = set_device (kd_device_id d) (\<lambda>d. d\<lparr>kd_last_seen_at := Some now\<rparr>) s"
    "\<exists>d0 \<in> set (devices s). kd_device_id d0 = kd_device_id d \<and> kd_property_id d0 = kd_property_id d"
proof -
  obtain c cs where tok: "token = Some (c # cs)" using assms by (auto simp: require_kiosk_device_def split: option.splits list.splits)
  let ?q = "scalar_one_or_none (filter (\<lambda>d. kd_token_hash d = sha256 (c # cs)) (devices s))"
  obtain r where r: "?q = Inr (Some r)"
    using assms by (cases ?q) (auto simp: require_kiosk_device_def tok split: option.splits)
  have res: "(s1, d) = (s, r) \<or> (s1, d) = (set_device (kd_device_id r) (\<lambda>d. d\<lparr>kd_last_seen_at := Some now\<rparr>) s, r\<lparr>kd_last_seen_at := Some now\<rparr>)"
    using assms unfolding require_kiosk_device_def tok option.case list.case r bindE_simps by (simp split: if_splits)
  have "r \<in> set (devices s)" using r filter_singleton_in by (fastforce simp: scalar_one_or_none_eq_Inr_iff)
  then show "s1 = s \<or> s1 = set_device (kd_device_id d) (\<lambda>d. d\<lparr>kd_last_seen_at := Some now\<rparr>) s"
    "\<exists>d0 \<in> set (devices s). kd_device_id d0 = kd_device_id d \<and> kd_property_id d0 = kd_property_id d" using res by auto
qed

lemma locks_refl: "floor_wf anchor s \<Longrightarrow> locks anchor {} s s"
  by (rule locks_quiet) simp_all

lemma locks_authenticate:
  assumes "require_kiosk_device sha256 s token now = Inr (s1, d)" "floor_wf anchor s"
  shows "locks anchor {} s s1" "get_device s1 (kd_device_id d) \<noteq> None"
proof -
  note c = require_kiosk_device_cases [OF assms(1)]
  from c(1) show "locks anchor {} s s1" using locks_refl [OF assms(2)] locks_set_device [OF assms(2)] by auto
  have "get_device s (kd_device_id d) \<noteq> None" using c(2) by (auto simp: get_device_def find_None_iff)
  then show "get_device s1 (kd_device_id d) \<noteq> None" using c(1) by (auto simp: get_device_set)
qed

lemma punch_cases:
  assumes "punch tz cfg fe ps org_id device e ty photo hex now st s = (st', Inr (s', row))"
  obtains on key m q where "check_punch tz cfg s org_id device e ty photo hex now = Inr (on, key)"
    "row = new_punch s device e ty now on key m"
    "assemble_timecard (s\<lparr>punches := punches s @ [row]\<rparr>) e on (payroll_period_anchor cfg) = Inr (s', q)"
  using assms by (auto simp: punch_def inr Let_def split: sum.splits option.splits prod.splits)

lemma locks_punch:
  assumes "punch tz cfg fe ps org_id device e ty photo hex now st s = (st', Inr (s', row))"
    and wf: "floor_wf (payroll_period_anchor cfg) s" and dev: "get_device s (kd_device_id device) \<noteq> None"
  shows "locks (payroll_period_anchor cfg) {} s s'"
proof -
  let ?a = "payroll_period_anchor cfg" and ?s = "s\<lparr>punches := punches s @ [row]\<rparr>"
  obtain on key m q where row: "row = new_punch s device e ty now on key m" and as: "assemble_timecard ?s e on ?a = Inr (s', q)"
    using assms(1) by (rule punch_cases)
  have fresh: "pn_punch_id row \<notin> set (map pn_punch_id (punches s))" "pn_timecard_id row = None" "pn_kiosk_device_id row = kd_device_id device"
    using next_id_fresh [of "map pn_punch_id (punches s)"] by (simp_all add: row new_punch_def)
  have w: "cards_wf ?a s" "links_wf s" "devices_wf s" "facts_wf s" using wf by (simp_all add: floor_wf_def)
  have l: "links_wf ?s" using w(2) fresh(1,2) by (auto simp: links_wf_def)
  have ws: "floor_wf ?a ?s" "cards_wf ?a ?s"
    using w l fresh(3) dev by (auto simp: floor_wf_def cards_wf_def devices_wf_def facts_wf_def get_device_def)
  have tl: "timeline ?s i = timeline s i" for i by (simp add: timeline_def fresh(2))
  note a = assemble_wf [OF as ws(1)]
  show ?thesis
  proof (rule locks_quiet)
    show "floor_wf ?a s'" by (rule a(1))
    fix k assume k: "k \<in> set (timecards s')" "tc_status k = ''approved''"
    obtain x y where per: "period_for on ?a = (x, y)" by (metis prod.exhaust)
    from as per show "k \<in> set (timecards s)"
      by (cases rule: assemble_timecard_cases) (use k in auto)
  next
    fix k assume "k \<in> set (timecards s)" "tc_status k = ''approved''"
    then show "timeline s' (tc_timecard_id k) = timeline s (tc_timecard_id k)"
      using assemble_keeps_timeline [OF as ws(2) l, of k] tl by simp
  qed (auto simp: a)
qed

lemma locks_adjust:
  assumes "add_adjustment s p i b = Inr (s', m)" "floor_wf anchor s"
  shows "locks anchor {} s s'"
proof -
  obtain c q where ck: "check_adjustment s p i b = Inr (c, q)" using assms(1) by (auto simp: add_adjustment_def inr)
  obtain a A where s': "s' = s\<lparr>adjustments := adjustments s @ [a], audit_events := A\<rparr>" and a: "ta_timecard_id a = i"
    using assms(1) ck by (auto simp: add_adjustment_def inr Let_def audit_row_def)
  have c: "c \<in> set (timecards s)" "tc_timecard_id c = i" "tc_status c \<noteq> ''approved''"
    using ck by (auto simp: check_adjustment_def open_card_def inr split: if_splits option.splits dest: get_timecard_row_in)
  have w: "cards_wf anchor s" "links_wf s" "devices_wf s" "facts_wf s" using assms(2) by (simp_all add: floor_wf_def)
  have "links_wf s'" using w(2) c(1,2) a by (auto simp: links_wf_def s')
  then have wf: "floor_wf anchor s'" using w by (simp add: floor_wf_def cards_wf_def devices_wf_def facts_wf_def get_device_def s')
  show ?thesis
  proof (rule locks_quiet [OF wf])
    fix k assume k: "k \<in> set (timecards s)" "tc_status k = ''approved''"
    then have "tc_timecard_id k \<noteq> i" using card_unique [OF w(1) k(1) c(1)] c(2,3) by auto
    then show "timeline s' (tc_timecard_id k) = timeline s (tc_timecard_id k)"
      by (simp add: timeline_def s' a punch_event_def get_device_def)
  qed (auto simp: s')
qed

section \<open>The purge of photos\<close>

text \<open>The purge clears photo keys and stamps cards, nothing else.\<close>

definition purge_frame :: "db \<Rightarrow> db \<Rightarrow> bool" where
  "purge_frame s s' \<longleftrightarrow> (\<exists>f g. s' = s\<lparr>punches := map f (punches s), timecards := map g (timecards s)\<rparr>
     \<and> (\<forall>p. f p = p \<or> f p = p\<lparr>pn_photo_key := None\<rparr>) \<and> (\<forall>c. g c = c \<or> (\<exists>t. g c = c\<lparr>tc_photos_purged_at := t\<rparr>)))"

lemma purge_frameI:
  "s' = s\<lparr>punches := map f (punches s), timecards := map g (timecards s)\<rparr> \<Longrightarrow> (\<And>p. f p = p \<or> f p = p\<lparr>pn_photo_key := None\<rparr>) \<Longrightarrow>
   (\<And>c. g c = c \<or> (\<exists>t. g c = c\<lparr>tc_photos_purged_at := t\<rparr>)) \<Longrightarrow> purge_frame s s'"
  unfolding purge_frame_def by blast

lemma purge_frame_trans:
  assumes "purge_frame s t" "purge_frame t u"
  shows "purge_frame s u"
proof -
  obtain f g where 1: "t = s\<lparr>punches := map f (punches s), timecards := map g (timecards s)\<rparr>"
      "\<And>p. f p = p \<or> f p = p\<lparr>pn_photo_key := None\<rparr>" "\<And>c. g c = c \<or> (\<exists>x. g c = c\<lparr>tc_photos_purged_at := x\<rparr>)"
    using assms(1) unfolding purge_frame_def by blast
  obtain f' g' where 2: "u = t\<lparr>punches := map f' (punches t), timecards := map g' (timecards t)\<rparr>"
      "\<And>p. f' p = p \<or> f' p = p\<lparr>pn_photo_key := None\<rparr>" "\<And>c. g' c = c \<or> (\<exists>x. g' c = c\<lparr>tc_photos_purged_at := x\<rparr>)"
    using assms(2) unfolding purge_frame_def by blast
  show ?thesis
  proof (rule purge_frameI [where f = "\<lambda>p. f' (f p)" and g = "\<lambda>c. g' (g c)"])
    show "u = s\<lparr>punches := map (\<lambda>p. f' (f p)) (punches s), timecards := map (\<lambda>c. g' (g c)) (timecards s)\<rparr>"
      by (simp add: 1(1) 2(1) comp_def)
    show "f' (f p) = p \<or> f' (f p) = p\<lparr>pn_photo_key := None\<rparr>" for p using 1(2) [of p] 2(2) [of "f p"] by auto
    show "g' (g c) = c \<or> (\<exists>x. g' (g c) = c\<lparr>tc_photos_purged_at := x\<rparr>)" for c using 1(3) [of c] 2(3) [of "g c"] by auto
  qed
qed

lemma clear_pointers_frame: "purge_frame s (clear_pointers ids s)"
  by (rule purge_frameI [where f = "\<lambda>p. if pn_punch_id p \<in> set ids then p\<lparr>pn_photo_key := None\<rparr> else p" and g = id])
     (auto simp: clear_pointers_def)

lemma stamp_frame: "purge_frame s (s\<lparr>timecards := map (\<lambda>c. if P c then c\<lparr>tc_photos_purged_at := t\<rparr> else c) (timecards s)\<rparr>)"
  by (rule purge_frameI [where f = id and g = "\<lambda>c. if P c then c\<lparr>tc_photos_purged_at := t\<rparr> else c"]) auto

lemma purge_approved_photos_frame:
  assumes "purge_approved_photos del now retention_days s st = Inr (s', st', n)"
  shows "purge_frame s s'"
proof -
  define cutoff where "cutoff = now - retention_days * day"
  from assms obtain s1 st1 m cleared where
    f1: "foldE (purge_card del now) (filter (purge_due cutoff) (timecards s)) (s, st, 0) = Inr (s1, st1, m)"
    and s': "s' = clear_pointers cleared s1"
    unfolding purge_approved_photos_def Let_def cutoff_def [symmetric] by (auto simp: bindE_eq_Inr_iff split: prod.splits)
  have "purge_frame s (fst (s1, st1, m))"
  proof (rule foldE_invariant [OF f1, where P = "\<lambda>x. purge_frame s (fst x)"])
    show "purge_frame s (fst (s, st, 0))" by (rule purge_frameI [where f = id and g = id]) simp_all
    fix c x y assume x: "purge_frame s (fst x)" and step: "purge_card del now c x = Inr y"
    obtain t u j where [simp]: "x = (t, u, j)" by (metis prod.exhaust)
    obtain u' cl dn fl where "delete_photos del u (filter (\<lambda>p. pn_timecard_id p = Some (tc_timecard_id c) \<and> pn_photo_key p \<noteq> None) (punches t)) = Inr (u', cl, dn, fl)"
      using step by (auto simp: purge_card_def bindE_eq_Inr_iff)
    with step have y: "fst y = clear_pointers cl t \<or> fst y = (clear_pointers cl t)\<lparr>timecards := map (\<lambda>d. if tc_timecard_id d = tc_timecard_id c
        then d\<lparr>tc_photos_purged_at := Some now\<rparr> else d) (timecards (clear_pointers cl t))\<rparr>"
      by (auto simp: purge_card_def Let_def split: if_splits)
    note a = clear_pointers_frame [of t cl]
    note b = purge_frame_trans [OF a stamp_frame [of "clear_pointers cl t" "\<lambda>d. tc_timecard_id d = tc_timecard_id c" "Some now"]]
    from y have "purge_frame t (fst y)" by (rule disjE) (erule ssubst, rule a, erule ssubst, rule b)
    then show "purge_frame s (fst y)" using x purge_frame_trans by auto
  qed
  then show ?thesis unfolding s' using clear_pointers_frame purge_frame_trans by auto
qed

lemma locks_purge:
  assumes "purge_frame s s'" "floor_wf anchor s"
  shows "locks anchor {} s s'"
proof -
  obtain f g where s': "s' = s\<lparr>punches := map f (punches s), timecards := map g (timecards s)\<rparr>"
    and f0: "\<And>p. f p = p \<or> f p = p\<lparr>pn_photo_key := None\<rparr>" and g0: "\<And>c. g c = c \<or> (\<exists>x. g c = c\<lparr>tc_photos_purged_at := x\<rparr>)"
    using assms(1) unfolding purge_frame_def by blast
  have f: "pn_punch_id (f p) = pn_punch_id p" "pn_timecard_id (f p) = pn_timecard_id p" "pn_employee_id (f p) = pn_employee_id p"
    "pn_business_date (f p) = pn_business_date p" "pn_kiosk_device_id (f p) = pn_kiosk_device_id p" "pn_punched_at (f p) = pn_punched_at p"
    "punch_event s (f p) = punch_event s p" for p
    using f0 [of p] by (auto simp: punch_event_def)
  have g: "tc_timecard_id (g c) = tc_timecard_id c" "tc_employee_id (g c) = tc_employee_id c" "tc_status (g c) = tc_status c"
    "tc_period_start (g c) = tc_period_start c" "tc_period_end (g c) = tc_period_end c" "\<exists>t. g c = c\<lparr>tc_photos_purged_at := t\<rparr>" for c
    using g0 [of c] by (auto intro: exI [of _ "tc_photos_purged_at c"])
  have w: "cards_wf anchor s" "links_wf s" "devices_wf s" "facts_wf s" using assms(2) by (simp_all add: floor_wf_def)
  have cards: "cards_wf anchor s'" using w(1) map_card_keys [of g anchor s] g(1-5) by (simp add: s' cards_wf_def)
  have links: "links_wf s'" using w(2) by (simp add: links_wf_def s' comp_def f(1) g(1)) (simp add: f g card_of_punch_def)
  have devs: "devices_wf s'" and facts: "facts_wf s'"
    using w(3,4) by (simp_all add: devices_wf_def facts_wf_def s' get_device_def f g)
  have ev: "punch_event s' = punch_event s" by (simp add: s' fun_eq_iff punch_event_def get_device_def)
  have tl: "timeline s' i = timeline s i" for i
    by (simp add: timeline_def ev) (simp add: s' filter_map comp_def f)
  have same: "same_card s s' k (g k)" for k using g(6) [of k] by (simp add: same_card_def tl) (simp add: s')
  have "card_datetimes s' \<longrightarrow> card_datetimes s" using card_datetimes_mono [of s s'] by (auto simp: s' f)
  moreover have "\<exists>k \<in> set (timecards s). tc_status k = ''approved'' \<and> same_card s s' k k'"
    if "k' \<in> set (timecards s')" "tc_status k' = ''approved''" for k'
    using that same by (auto simp: s' g(3))
  ultimately show ?thesis using cards links devs facts by (simp add: locks_def floor_wf_def)
qed

section \<open>The state machine\<close>

text \<open>
  The doors of a timecard, each in its own transaction, in any order, by any caller.  The first component is the clock of
  the punches: two punches are never stamped with the same instant.  \<open>elsewhere\<close> is everything the rest of the program does to
  the tables no door here writes.
\<close>

inductive floor_step ::
  "(string \<Rightarrow> string) \<Rightarrow> tzdb \<Rightarrow> Settings \<Rightarrow> 'f FaceEngine \<Rightarrow> 'st PhotoStore \<Rightarrow> 'st store_delete \<Rightarrow> int
    \<Rightarrow> instant \<times> 'st \<times> db \<Rightarrow> instant \<times> 'st \<times> db \<Rightarrow> bool"
  for sha256 tz cfg fe ps del org_id where
  enroll: "enroll_device sha256 mint s p q name = Inr (s', d, tok) \<Longrightarrow> floor_step sha256 tz cfg fe ps del org_id (t, st, s) (t, st, s')"
| revoke: "revoke_device s p i now = Inr s' \<Longrightarrow> floor_step sha256 tz cfg fe ps del org_id (t, st, s) (t, st, s')"
| touch: "require_kiosk_device sha256 s token now = Inr (s', d) \<Longrightarrow> floor_step sha256 tz cfg fe ps del org_id (t, st, s) (t, st, s')"
| punch: "require_kiosk_device sha256 s token now = Inr (s1, d) \<Longrightarrow> t < now
    \<Longrightarrow> punch tz cfg fe ps org_id d e ty photo hex now st s1 = (st', Inr (s', row))
    \<Longrightarrow> floor_step sha256 tz cfg fe ps del org_id (t, st, s) (now, st', s')"
| approve: "approve_timecard sha256 tz cfg s p i acknowledged now = Inr (s', m) \<Longrightarrow> floor_step sha256 tz cfg fe ps del org_id (t, st, s) (t, st, s')"
| reopen: "reopen_timecard sha256 cfg s p i now = Inr (s', m) \<Longrightarrow> floor_step sha256 tz cfg fe ps del org_id (t, st, s) (t, st, s')"
| adjust: "add_adjustment s p i b = Inr (s', m) \<Longrightarrow> floor_step sha256 tz cfg fe ps del org_id (t, st, s) (t, st, s')"
| look: "punch_photo ps st s p i = Inr (s', data, jpeg) \<Longrightarrow> floor_step sha256 tz cfg fe ps del org_id (t, st, s) (t, st, s')"
| purge: "purge_approved_photos del now days s st = Inr (s', st', n) \<Longrightarrow> floor_step sha256 tz cfg fe ps del org_id (t, st, s) (t, st', s')"
| elsewhere: "timecards s' = timecards s \<Longrightarrow> punches s' = punches s \<Longrightarrow> adjustments s' = adjustments s \<Longrightarrow> labor_facts s' = labor_facts s
    \<Longrightarrow> devices s' = devices s \<Longrightarrow> floor_step sha256 tz cfg fe ps del org_id (t, st, s) (t, st', s')"

inductive_cases floor_stepE: "floor_step sha256 tz cfg fe ps del org_id (t, st, s) (t', st', s')"

definition no_cards :: "db \<Rightarrow> bool" where
  "no_cards s \<longleftrightarrow> timecards s = [] \<and> punches s = [] \<and> adjustments s = [] \<and> labor_facts s = []"

lemma no_cards_wf: "no_cards s \<Longrightarrow> floor_wf anchor s"
  by (simp add: no_cards_def floor_wf_def cards_wf_def links_wf_def devices_wf_def facts_wf_def)

lemma floor_step_locks:
  assumes "floor_step sha256 tz cfg fe ps del org_id (t, st, s) (t', st', s')" "floor_wf (payroll_period_anchor cfg) s"
  shows "locks (payroll_period_anchor cfg) {} s s'
    \<or> (\<exists>p i acknowledged now m. approve_timecard sha256 tz cfg s p i acknowledged now = Inr (s', m) \<and> locks (payroll_period_anchor cfg) {i} s s')"
  using assms(1)
proof (cases rule: floor_step.cases)
  case (punch token s1 d e ty photo hex row)
  note l = locks_authenticate [OF punch(1) assms(2)]
  then have "floor_wf (payroll_period_anchor cfg) s1" by (simp add: locks_def)
  from locks_trans [OF l(1) locks_punch [OF punch(3) this l(2)]] show ?thesis by blast
next
  case (look p i data jpeg)
  then have "s' = audit_row (pi_subject p) ''view_punch_photo'' ''punch'' (str_int i) s"
    by (auto simp: punch_photo_def inr split: option.splits)
  then show ?thesis using locks_audit [OF assms(2)] by simp
next
  case elsewhere
  have "locks (payroll_period_anchor cfg) {} s s'"
    by (rule locks_devices [OF elsewhere(2-5) _ assms(2)]) (simp add: get_device_def elsewhere(6))
  then show ?thesis ..
next
  case (approve p i acknowledged now m)
  from approve(3) locks_approve [OF approve(3) assms(2)] show ?thesis by blast
next
  case enroll
  from locks_enroll [OF enroll(3) assms(2)] show ?thesis ..
next
  case revoke
  from locks_revoke [OF revoke(3) assms(2)] show ?thesis ..
next
  case touch
  from locks_authenticate(1) [OF touch(3) assms(2)] show ?thesis ..
next
  case reopen
  from locks_reopen [OF reopen(3) assms(2)] show ?thesis ..
next
  case adjust
  from locks_adjust [OF adjust(3) assms(2)] show ?thesis ..
next
  case purge
  from locks_purge [OF purge_approved_photos_frame [OF purge(2)] assms(2)] show ?thesis ..
qed

lemma floor_reach_wf:
  assumes "(floor_step sha256 tz cfg fe ps del org_id)\<^sup>*\<^sup>* x (t, st, s)" "floor_wf (payroll_period_anchor cfg) (snd (snd x))"
  shows "floor_wf (payroll_period_anchor cfg) s"
proof -
  have "(floor_step sha256 tz cfg fe ps del org_id)\<^sup>*\<^sup>* x y \<Longrightarrow> floor_wf (payroll_period_anchor cfg) (snd (snd y))" for y
  proof (induction rule: rtranclp_induct)
    case (step y z)
    then show ?case using floor_step_locks [of sha256 tz cfg fe ps del org_id "fst y" "fst (snd y)" "snd (snd y)" "fst z" "fst (snd z)" "snd (snd z)"]
      by (auto simp: locks_def)
  qed (rule assms(2))
  from this [OF assms(1)] show ?thesis by simp
qed

section \<open>The order of the punches\<close>

text \<open>
  Two consecutive punches of one employee: the second is later, and either legal after the first or a new clock-in after
  more than the longest open shift.
\<close>

definition lawful_next :: "string \<times> instant \<Rightarrow> string \<times> instant \<Rightarrow> bool" where
  "lawful_next = (\<lambda>(ty1, t1) (ty2, t2). t1 < t2 \<and>
     (refuse_punch (dict_get STATE_AFTER ty1 Out) ty2 = None \<or> ty2 = ''clock_in'' \<and> t2 - t1 > OPEN_SHIFT_MAX_HOURS * hour))"

definition lawful_log :: "(string \<times> instant) list \<Rightarrow> bool" where
  "lawful_log l \<longleftrightarrow> (l \<noteq> [] \<longrightarrow> fst (hd l) = ''clock_in'') \<and> successively lawful_next l"

definition punch_log :: "db \<Rightarrow> int \<Rightarrow> (string \<times> instant) list" where
  "punch_log s e = map (\<lambda>p. (pn_punch_type p, pn_punched_at p)) (filter (\<lambda>p. pn_employee_id p = e) (punches s))"

lemma successively_snoc: "successively R (xs @ [y]) \<longleftrightarrow> successively R xs \<and> (xs \<noteq> [] \<longrightarrow> R (last xs) y)"
  by (auto simp: successively_append_iff)

lemma lawful_sorted:
  assumes "successively lawful_next l"
  shows "sorted_wrt (<) (map snd l)"
proof -
  have "successively (\<lambda>x y. snd x < snd y) l" by (rule successively_mono [OF assms]) (auto simp: lawful_next_def)
  then have "successively (<) (map snd l)" by (simp add: successively_map)
  then show ?thesis by (simp add: successively_conv_sorted_wrt transp_def)
qed

text \<open>The state the kiosk reads is the one the newest punch of the log left.\<close>

lemma punch_state_log:
  assumes "sorted_wrt (<) (map snd (punch_log s e))"
  shows "punch_state s e now =
    (if punch_log s e = [] then Out
     else let (ty, t) = last (punch_log s e); st = dict_get STATE_AFTER ty Out
          in if st = Out then Out else if now - t > OPEN_SHIFT_MAX_HOURS * hour then Out else st)"
proof -
  define ps where "ps = filter (\<lambda>p. pn_employee_id p = e) (punches s)"
  have srt: "sorted_wrt (\<lambda>p q. pn_punched_at p < pn_punched_at q) ps"
    using assms by (simp add: punch_log_def ps_def sorted_wrt_map)
  show ?thesis
  proof (cases ps rule: rev_cases)
    case Nil
    then show ?thesis by (simp add: punch_state_def punch_log_def ps_def [symmetric])
  next
    case (snoc qs q)
    let ?h = "hd (sort_key (\<lambda>p. - pn_punched_at p) ps)"
    have "ps \<noteq> []" using snoc by simp
    note h = hd_sort_desc [OF this, where f = pn_punched_at]
    have "?h = q"
    proof (rule ccontr)
      assume "?h \<noteq> q"
      then have "?h \<in> set qs" using h(1) snoc by simp
      then have "pn_punched_at ?h < pn_punched_at q" using srt snoc by (simp add: sorted_wrt_append)
      then show False using h(2) [of q] snoc by simp
    qed
    then obtain rest where "sort_key (\<lambda>p. - pn_punched_at p) ps = q # rest"
      using \<open>ps \<noteq> []\<close> by (metis list.collapse mset_sort mset_zero_iff)
    then show ?thesis using snoc by (simp add: punch_state_def punch_log_def ps_def [symmetric] Let_def)
  qed
qed

lemma check_punch_order:
  assumes "check_punch tz cfg s org_id device e ty photo hex now = Inr r"
  shows "ty \<in> set PUNCH_ORDER" "refuse_punch (punch_state s e now) ty = None"
  using assms by (auto simp: check_punch_def inr split: if_splits)

lemma lawful_snoc:
  assumes "lawful_log (punch_log s e)" "refuse_punch (punch_state s e now) ty = None" "\<forall>(_, t) \<in> set (punch_log s e). t < now"
  shows "lawful_log (punch_log s e @ [(ty, now)])"
proof -
  have srt: "sorted_wrt (<) (map snd (punch_log s e))" using assms(1) lawful_sorted by (simp add: lawful_log_def)
  note st = punch_state_log [OF srt, of now]
  show ?thesis
  proof (cases "punch_log s e = []")
    case True
    with assms(2) st show ?thesis by (simp add: lawful_log_def refuse_punch_None)
  next
    case False
    obtain ty0 t0 where l: "last (punch_log s e) = (ty0, t0)" by (metis prod.exhaust)
    then have "t0 < now" using assms(3) False last_in_set by fastforce
    then have "lawful_next (ty0, t0) (ty, now)"
      using assms(2) False unfolding st l by (auto simp: lawful_next_def Let_def refuse_punch_None split: if_splits)
    then show ?thesis using assms(1) False l by (simp add: lawful_log_def successively_snoc)
  qed
qed

text \<open>Every step leaves the log alone or appends the one punch it records.\<close>

lemma link_punches_log:
  "map (\<lambda>p. (pn_punch_type p, pn_punched_at p)) (filter (\<lambda>p. pn_employee_id p = e) (link_punches e' a b i ps)) =
   map (\<lambda>p. (pn_punch_type p, pn_punched_at p)) (filter (\<lambda>p. pn_employee_id p = e) ps)"
  unfolding link_punches_def by (induction ps) auto

lemma assemble_log:
  assumes "assemble_timecard s e' d anchor = Inr (s', c)"
  shows "punch_log s' = punch_log s"
proof -
  obtain a b where per: "period_for d anchor = (a, b)" by (metis prod.exhaust)
  from assms per show ?thesis
    by (cases rule: assemble_timecard_cases) (simp_all add: fun_eq_iff punch_log_def link_punches_log)
qed

lemma same_punches_log: "punches s' = punches s \<Longrightarrow> punch_log s' = punch_log s"
  by (simp add: fun_eq_iff punch_log_def)

lemma purge_log:
  assumes "purge_frame s s'"
  shows "punch_log s' = punch_log s"
proof -
  obtain f g where s': "s' = s\<lparr>punches := map f (punches s), timecards := map g (timecards s)\<rparr>"
    and f0: "\<And>p. f p = p \<or> f p = p\<lparr>pn_photo_key := None\<rparr>" using assms unfolding purge_frame_def by blast
  have "pn_punch_type (f p) = pn_punch_type p \<and> pn_punched_at (f p) = pn_punched_at p \<and> pn_employee_id (f p) = pn_employee_id p" for p
    using f0 [of p] by auto
  then show ?thesis by (simp add: s' fun_eq_iff punch_log_def filter_map comp_def)
qed

lemma approve_log: 
  assumes "approve_timecard sha256 tz cfg s p i acknowledged now = Inr (s', m)"
  shows "punch_log s' = punch_log s"
proof -
  obtain c A s3 w where pr: "promote_timecard (s\<lparr>timecards := map (\<lambda>d. if tc_timecard_id d = i
        then c\<lparr>tc_status := ''approved'', tc_approved_by := Some (pi_subject p), tc_approved_at := Some now\<rparr> else d) (timecards s),
        audit_events := A\<rparr>) (c\<lparr>tc_status := ''approved'', tc_approved_by := Some (pi_subject p), tc_approved_at := Some now\<rparr>)
      (payroll_period_anchor cfg) = Inr (s3, w)" and ap: "appends s3 s'"
    using assms by (rule approve_cases)
  have "punches s' = punches s" using promote_labor_facts [OF pr] by (auto simp: appends_tables(2) [OF ap])
  then show ?thesis by (rule same_punches_log)
qed

lemma reopen_log:
  assumes "reopen_timecard sha256 cfg s p i now = Inr (s', m)"
  shows "punch_log s' = punch_log s"
proof -
  obtain c A s2 s3 q where ap: "appends (s\<lparr>timecards := map (\<lambda>d. if tc_timecard_id d = i then c\<lparr>tc_status := ''open'', tc_approved_by := None,
          tc_approved_at := None, tc_photos_purged_at := None\<rparr> else d) (timecards s),
        labor_facts := filter (\<lambda>f. lf_timecard_id f \<noteq> i) (labor_facts s)\<rparr>) s2"
    and as: "assemble_timecard s2 (tc_employee_id c) (tc_period_start c) (payroll_period_anchor cfg) = Inr (s3, q)" and s': "s' = s3\<lparr>audit_events := A\<rparr>"
    using assms by (rule reopen_cases)
  have "punch_log s' = punch_log s3" by (rule same_punches_log) (simp add: s')
  also have "\<dots> = punch_log s2" by (rule assemble_log [OF as])
  also have "\<dots> = punch_log s" by (rule same_punches_log) (simp add: appends_tables(2) [OF ap])
  finally show ?thesis .
qed

lemma authenticate_log:
  assumes "require_kiosk_device sha256 s token now = Inr (s1, d)"
  shows "punch_log s1 = punch_log s"
  using require_kiosk_device_cases(1) [OF assms] by (intro same_punches_log) (auto simp: set_device_def)

lemma floor_step_log:
  assumes "floor_step sha256 tz cfg fe ps del org_id (t, st, s) (t', st', s')"
  shows "(t' = t \<and> punch_log s' = punch_log s)
    \<or> (t < t' \<and> (\<exists>e ty s1. punch_log s1 = punch_log s \<and> refuse_punch (punch_state s1 e t') ty = None
          \<and> punch_log s' = (punch_log s)(e := punch_log s e @ [(ty, t')])))"
  using assms
proof (cases rule: floor_step.cases)
  case (punch token s1 d e ty photo hex row)
  obtain on key m q where ck: "check_punch tz cfg s1 org_id d e ty photo hex t' = Inr (on, key)" and row: "row = new_punch s1 d e ty t' on key m"
    and as: "assemble_timecard (s1\<lparr>punches := punches s1 @ [row]\<rparr>) e on (payroll_period_anchor cfg) = Inr (s', q)"
    using punch(3) by (rule punch_cases)
  have "punch_log s' = (punch_log s1)(e := punch_log s1 e @ [(ty, t')])"
    unfolding assemble_log [OF as] by (simp add: fun_eq_iff punch_log_def row new_punch_def)
  then show ?thesis using punch(2) check_punch_order(2) [OF ck] authenticate_log [OF punch(1)] by auto
next
  case (look p i data jpeg)
  then have "punches s' = punches s" by (auto simp: punch_photo_def inr audit_row_def split: option.splits)
  then show ?thesis using look(1) same_punches_log by blast
next
  case enroll
  then have "punches s' = punches s" by (auto simp: enroll_device_def inr Let_def audit_row_def split: if_splits)
  then show ?thesis using enroll(1) same_punches_log by blast
next
  case revoke
  then have "punches s' = punches s" by (auto simp: revoke_device_def inr audit_row_def set_device_def split: option.splits)
  then show ?thesis using revoke(1) same_punches_log by blast
next
  case adjust
  then have "punches s' = punches s" by (auto simp: add_adjustment_def inr Let_def audit_row_def)
  then show ?thesis using adjust(1) same_punches_log by blast
next
  case touch
  then show ?thesis using authenticate_log by blast
next
  case approve
  then show ?thesis using approve_log by blast
next
  case reopen
  then show ?thesis using reopen_log by blast
next
  case purge
  then show ?thesis using purge_log [OF purge_approved_photos_frame [OF purge(2)]] by blast
next
  case elsewhere
  then show ?thesis using same_punches_log by blast
qed

lemma floor_reach_log:
  assumes "(floor_step sha256 tz cfg fe ps del org_id)\<^sup>*\<^sup>* x y" "no_cards (snd (snd x))"
  shows "lawful_log (punch_log (snd (snd y)) e) \<and> (\<forall>(_, u) \<in> set (punch_log (snd (snd y)) e). u \<le> fst y)"
  using assms(1)
proof (induction rule: rtranclp_induct)
  case base
  show ?case using assms(2) by (simp add: no_cards_def punch_log_def lawful_log_def)
next
  case (step y z)
  obtain t st s t' st' s' where yz: "y = (t, st, s)" "z = (t', st', s')" by (metis prod.exhaust)
  consider "t' = t" "punch_log s' = punch_log s"
    | e' ty s1 where "t < t'" "punch_log s1 = punch_log s" "refuse_punch (punch_state s1 e' t') ty = None"
      "punch_log s' = (punch_log s)(e' := punch_log s e' @ [(ty, t')])"
    using floor_step_log [OF step.hyps(2) [unfolded yz]] by blast
  then show ?case
  proof cases
    case 1
    then show ?thesis using step.IH by (simp add: yz)
  next
    case 2
    have IH: "lawful_log (punch_log s e)" "\<forall>(_, u) \<in> set (punch_log s e). u \<le> t" using step.IH by (simp_all add: yz)
    then have lt: "\<forall>(_, u) \<in> set (punch_log s e). u < t'" using 2(1) by fastforce
    show ?thesis
    proof (cases "e' = e")
      case True
      have "lawful_log (punch_log s1 e @ [(ty, t')])"
        by (rule lawful_snoc) (use IH(1) 2 True lt in simp_all)
      then show ?thesis using lt True 2(2,4) by (auto simp: yz)
    next
      case False
      then show ?thesis using IH lt 2(4) by (auto simp: yz)
    qed
  qed
qed

section \<open>The hours of an approved card\<close>

text \<open>The labor facts of an approved card, where it has any, say per day the hours of its timeline.\<close>

definition hours_stand :: "db \<Rightarrow> Timecard \<Rightarrow> bool" where
  "hours_stand s k \<longleftrightarrow> (\<forall>days. compute_timecard s k = Inr days \<longrightarrow> (\<forall>r \<in> set days. dr_worked_minutes r < 10 ^ 12) \<longrightarrow>
     filter (\<lambda>f. lf_timecard_id f = tc_timecard_id k) (labor_facts s) \<noteq> [] \<longrightarrow>
     (\<forall>r \<in> set days. sum_list (map lf_hours (filter (\<lambda>f. lf_timecard_id f = tc_timecard_id k \<and> lf_business_date f = dr_business_date r) (labor_facts s)))
        = quantized (ddiv (of_int (dr_worked_minutes r)) 60) HOURS ROUND_HALF_EVEN))"

lemma same_card_hours:
  assumes "same_card s s' k k'" "hours_stand s k"
  shows "hours_stand s' k'"
proof -
  obtain x where k': "k' = k\<lparr>tc_photos_purged_at := x\<rparr>" using assms(1) unfolding same_card_def by blast
  then have id: "tc_timecard_id k' = tc_timecard_id k" by simp
  have tl: "timeline s' (tc_timecard_id k') = timeline s (tc_timecard_id k)"
    and f: "filter (\<lambda>f. lf_timecard_id f = tc_timecard_id k) (labor_facts s') = filter (\<lambda>f. lf_timecard_id f = tc_timecard_id k) (labor_facts s)"
    using assms(1) id by (simp_all add: same_card_def)
  have g: "filter (\<lambda>f. lf_timecard_id f = tc_timecard_id k \<and> P f) (labor_facts s') = filter (\<lambda>f. lf_timecard_id f = tc_timecard_id k \<and> P f) (labor_facts s)" for P
    using arg_cong [OF f, of "filter P"] by (simp add: conj_commute)
  show ?thesis using assms(2) unfolding hours_stand_def id compute_timecard_timeline [OF tl] f g .
qed

lemma approve_hours:
  assumes ok: "approve_timecard sha256 tz cfg s p i acknowledged now = Inr (s', m)" and wf: "floor_wf (payroll_period_anchor cfg) s"
    and dt: "card_datetimes s'" and k: "k \<in> set (timecards s')" "tc_timecard_id k = i"
  shows "hours_stand s' k"
proof -
  obtain c A s3 w where c: "c \<in> set (timecards s)" "tc_timecard_id c = i"
    and pr: "promote_timecard (s\<lparr>timecards := map (\<lambda>d. if tc_timecard_id d = i
        then c\<lparr>tc_status := ''approved'', tc_approved_by := Some (pi_subject p), tc_approved_at := Some now\<rparr> else d) (timecards s),
        audit_events := A\<rparr>) (c\<lparr>tc_status := ''approved'', tc_approved_by := Some (pi_subject p), tc_approved_at := Some now\<rparr>)
      (payroll_period_anchor cfg) = Inr (s3, w)" and ap: "appends s3 s'"
    using ok by (rule approve_cases)
  define c' where "c' = c\<lparr>tc_status := ''approved'', tc_approved_by := Some (pi_subject p), tc_approved_at := Some now\<rparr>"
  define s2 where "s2 = s\<lparr>timecards := map (\<lambda>d. if tc_timecard_id d = i then c' else d) (timecards s), audit_events := A\<rparr>"
  note pr' = pr [folded c'_def, folded s2_def]
  obtain F L where s3: "s3 = s2\<lparr>labor_facts := F, sick_ledger := L\<rparr>" using promote_labor_facts [OF pr'] by blast
  note t = appends_tables [OF ap]
  have "timecards s' = map (\<lambda>d. if tc_timecard_id d = i then c' else d) (timecards s)" by (simp add: t s3 s2_def)
  then have kc: "k = c'" using k c by (auto simp: c'_def split: if_splits)
  have id: "tc_timecard_id c' = i" by (simp add: c'_def c(2))
  have comp: "compute_timecard s' c' = compute_timecard s2 c'"
    by (rule compute_timecard_timeline, rule fun_cong [OF timeline_frame]) (simp_all add: t s3)
  have dt2: "card_datetimes s2" using dt by (simp add: card_datetimes_def t s3)
  show ?thesis
    using pr'
  proof (cases rule: promote_cases)
    case (excluded e)
    then show ?thesis by (simp add: hours_stand_def t(5) kc)
  next
    case (promoted e facts dh ex j)
    note lf = promoted_labor_facts [OF promoted(3,4)]
    have f: "filter (\<lambda>f. lf_timecard_id f = i \<and> P f) (labor_facts s') = filter P facts" for P
      using lf(1) unfolding t(5) id by (metis (no_types, lifting) conj_commute filter_cong filter_filter)
    show ?thesis unfolding hours_stand_def kc comp id f
      using promoted_hours [OF dt2 _ _ promoted(3)] by blast
  qed
qed

lemma floor_reach_hours:
  assumes "(floor_step sha256 tz cfg fe ps del org_id)\<^sup>*\<^sup>* x y" "no_cards (snd (snd x))"
  shows "card_datetimes (snd (snd y)) \<longrightarrow> (\<forall>k \<in> set (timecards (snd (snd y))). tc_status k = ''approved'' \<longrightarrow> hours_stand (snd (snd y)) k)"
  using assms(1)
proof (induction rule: rtranclp_induct)
  case base
  show ?case using assms(2) by (simp add: no_cards_def)
next
  case (step y z)
  obtain t st s t' st' s' where yz: "y = (t, st, s)" "z = (t', st', s')" by (metis prod.exhaust)
  have wf: "floor_wf (payroll_period_anchor cfg) s"
    by (rule floor_reach_wf [OF step.hyps(1) [unfolded yz]]) (use assms(2) no_cards_wf in blast)
  show ?case unfolding yz snd_conv
  proof (intro impI ballI)
    fix k assume dt: "card_datetimes s'" and k: "k \<in> set (timecards s')" "tc_status k = ''approved''"
    have old: "hours_stand s' k" if lk: "locks (payroll_period_anchor cfg) I s s'" and nI: "tc_timecard_id k \<notin> I" for I
    proof -
      obtain k0 where "k0 \<in> set (timecards s)" "tc_status k0 = ''approved''" "same_card s s' k0 k" "card_datetimes s"
        using lk nI k dt unfolding locks_def by blast
      then show ?thesis using same_card_hours step.IH by (simp add: yz)
    qed
    consider "locks (payroll_period_anchor cfg) {} s s'"
      | p i acknowledged now m where "approve_timecard sha256 tz cfg s p i acknowledged now = Inr (s', m)" "locks (payroll_period_anchor cfg) {i} s s'"
      using floor_step_locks [OF step.hyps(2) [unfolded yz] wf] by blast
    then show "hours_stand s' k"
    proof cases
      case 1
      then show ?thesis using old by blast
    next
      case 2
      show ?thesis
      proof (cases "tc_timecard_id k = i")
        case True
        from approve_hours [OF 2(1) wf dt k(1) True] show ?thesis .
      next
        case False
        with old [OF 2(2)] show ?thesis by simp
      qed
    qed
  qed
qed

section \<open>The gate of an approval\<close>

lemma fold_audit_rows: "fold (\<lambda>i. audit_row actor action rtype (f i)) xs s = s\<lparr>audit_events := audit_events s @
    map (\<lambda>i. \<lparr>au_actor_subject = actor, au_action = action, au_resource_type = rtype, au_resource_id = f i\<rparr>) xs\<rparr>"
  by (induction xs arbitrary: s) (simp_all add: audit_row_def)

lemma approve_audit:
  assumes "approve_timecard sha256 tz cfg s p i acknowledged now = Inr (s', m)"
  shows "audit_events s' = audit_events s
    @ map (\<lambda>j. \<lparr>au_actor_subject = pi_subject p, au_action = ''acknowledge_unverified_punch'', au_resource_type = ''punch'',
        au_resource_id = str_int j\<rparr>) (sort (remdups acknowledged))
    @ [\<lparr>au_actor_subject = pi_subject p, au_action = ''approve_timecard'', au_resource_type = ''timecard'', au_resource_id = str_int i\<rparr>]"
proof -
  obtain c s3 w where pr: "promote_timecard (audit_row (pi_subject p) ''approve_timecard'' ''timecard'' (str_int i) (set_card i (\<lambda>_. c)
        (fold (\<lambda>j. audit_row (pi_subject p) ''acknowledge_unverified_punch'' ''punch'' (str_int j)) (sort (remdups acknowledged)) s)))
      c (payroll_period_anchor cfg) = Inr (s3, w)" and rp: "repost sha256 (pi_subject p) now w s3 = Inr s'"
    using assms by (auto simp: approve_timecard_def inr Let_def)
  obtain F L where "s3 = audit_row (pi_subject p) ''approve_timecard'' ''timecard'' (str_int i) (set_card i (\<lambda>_. c)
        (fold (\<lambda>j. audit_row (pi_subject p) ''acknowledge_unverified_punch'' ''punch'' (str_int j)) (sort (remdups acknowledged)) s))
      \<lparr>labor_facts := F, sick_ledger := L\<rparr>" using promote_labor_facts [OF pr] by blast
  moreover have "audit_events s' = audit_events s3" using repost_appends [OF rp] by (auto simp: appends_def)
  ultimately show ?thesis by (simp add: fold_audit_rows audit_row_def set_card_def)
qed

lemma check_approval_ok:
  assumes "check_approval tz cfg s p i acknowledged now = Inr c"
  shows "open_card s p i = Inr c" "tc_status c \<noteq> ''approved''"
    "\<exists>q prop today. card_property s c = Inr q \<and> get_property s q = Some prop
       \<and> business_date_for tz now (pr_timezone prop) (punch_business_day_cutoff_hour cfg) = Inr today \<and> tc_period_end c < today"
    "set acknowledged = set (unverified_ids s i)"
  using assms by (auto simp: check_approval_def period_in_progress_def assert_some_def inr split: if_splits option.splits)

lemma open_card_ok:
  assumes "open_card s p i = Inr c"
  shows "get_timecard_row s i = Some c" "effective_roles s (pi_subject p) \<inter> {''org_admin'', ''property_gm''} \<noteq> {}"
    "card_property s c = Inr q \<Longrightarrow> ''org_admin'' \<in> effective_roles s (pi_subject p) \<or> allows_property (assignment_scope p s) q"
  using assms by (auto simp: open_card_def require_grants_def require_card_access_def require_property_access_def inr
      split: if_splits option.splits)

lemma no_row_no_property:
  assumes "\<forall>a \<in> set (assignments s). ea_employee_id a = tc_employee_id c \<and> ea_is_primary a
      \<longrightarrow> \<not> covers (ea_effective_from a) (ea_effective_to a) (tc_period_end c)"
  shows "card_property s c = Inl (HTTPException 409)"
proof -
  have "filter ea_is_primary (assignments_on s (tc_employee_id c) (tc_period_end c) b) = []" for b
  proof -
    have "\<not> ea_is_primary a" if "a \<in> set (assignments_on s (tc_employee_id c) (tc_period_end c) b)" for a
      using that assms by (cases b) (auto simp: assignments_on_def in_effect_on_def covers_def Let_def split: if_splits option.splits)
    then show ?thesis by (simp add: filter_empty_conv)
  qed
  then show ?thesis by (simp add: card_property_def primary_assignment_on_def)
qed

section \<open>Properties\<close>


text \<open>
  C8. The filed hours are the approved hours.  In every state the doors reach, a labor fact belongs to a card that is
  approved, and the hours filed for the card on a day of its timeline are that day's worked minutes in hours, rounded to the
  hundredth: nothing stays filed of a card under review, and nothing filed differs from what the card says.
\<close>

theorem approved_hours_stand:
  assumes "(floor_step sha256 tz cfg fe ps del org_id)\<^sup>*\<^sup>* (t0, st0, s0) (t, st, s)" "no_cards s0"
    and "card_datetimes s" "f \<in> set (labor_facts s)"
  shows "\<exists>k \<in> set (timecards s). tc_timecard_id k = lf_timecard_id f \<and> tc_status k = ''approved''
    \<and> (\<forall>days. compute_timecard s k = Inr days \<longrightarrow> (\<forall>r \<in> set days. dr_worked_minutes r < 10 ^ 12) \<longrightarrow>
         (\<forall>r \<in> set days. sum_list (map lf_hours (filter (\<lambda>g. lf_timecard_id g = lf_timecard_id f \<and> lf_business_date g = dr_business_date r) (labor_facts s)))
            = quantized (ddiv (of_int (dr_worked_minutes r)) 60) HOURS ROUND_HALF_EVEN))"
proof -
  have "floor_wf (payroll_period_anchor cfg) s"
    by (rule floor_reach_wf [OF assms(1)]) (simp add: no_cards_wf [OF assms(2)])
  then obtain k where k: "k \<in> set (timecards s)" "tc_timecard_id k = lf_timecard_id f" "tc_status k = ''approved''"
    using assms(4) unfolding floor_wf_def facts_wf_def by blast
  have "hours_stand s k" using floor_reach_hours [OF assms(1)] assms(2,3) k by simp
  moreover have "filter (\<lambda>g. lf_timecard_id g = tc_timecard_id k) (labor_facts s) \<noteq> []"
    using assms(4) k(2) by (auto simp: filter_empty_conv)
  ultimately show ?thesis unfolding hours_stand_def k(2) by (intro bexI [OF _ k(1)]) (use k(2,3) in simp)
qed

text \<open>
  C10. The kiosk keeps the order of the punches.  In every state the doors reach, the punches of an employee begin with a
  clock-in and are stamped in strictly rising order, and each one is legal after the one before it, or is a clock-in more than eighteen hours
  later: a lunch is never left open by a clock-out, whatever holds the device's token.
\<close>

theorem punches_in_order:
  assumes "(floor_step sha256 tz cfg fe ps del org_id)\<^sup>*\<^sup>* (t0, st0, s0) (t, st, s)" "no_cards s0"
    and "filter (\<lambda>p. pn_employee_id p = e) (punches s) = before @ p # q # after"
  shows "pn_punched_at p < pn_punched_at q
    \<and> (pn_punch_type q \<in> set (ALLOWED_NEXT (dict_get STATE_AFTER (pn_punch_type p) Out))
       \<or> pn_punch_type q = ''clock_in'' \<and> pn_punched_at q - pn_punched_at p > OPEN_SHIFT_MAX_HOURS * hour)
    \<and> pn_punch_type (hd (before @ [p])) = ''clock_in''"
proof -
  have l: "lawful_log (punch_log s e)" using floor_reach_log [OF assms(1)] assms(2) by simp
  have log: "punch_log s e = map (\<lambda>p. (pn_punch_type p, pn_punched_at p)) before
      @ (pn_punch_type p, pn_punched_at p) # (pn_punch_type q, pn_punched_at q) # map (\<lambda>p. (pn_punch_type p, pn_punched_at p)) after"
    by (simp add: punch_log_def assms(3))
  then have "lawful_next (pn_punch_type p, pn_punched_at p) (pn_punch_type q, pn_punched_at q)"
    using l by (simp add: lawful_log_def successively_append_iff)
  moreover have "pn_punch_type (hd (before @ [p])) = ''clock_in''"
    using l by (cases before) (simp_all add: lawful_log_def log)
  ultimately show ?thesis by (auto simp: lawful_next_def refuse_punch_def split: if_splits)
qed

text \<open>
  C9. An approval is earned.  A card is approved only for a caller who holds an approving role and, unless it is
  org_admin, whose own placement reaches the property that controls the card; only once that property's clock has passed the
  last day of the period; and only when the caller has named exactly the punches whose photo did not verify.  The audit
  trail gains one acknowledgement for each of them, in order and once, and then the approval, and nothing else.
\<close>

theorem approval_gate:
  assumes "approve_timecard sha256 tz cfg s p i acknowledged now = Inr (s', m)"
  shows "(\<exists>c q prop today. get_timecard_row s i = Some c \<and> tc_status c \<noteq> ''approved''
      \<and> effective_roles s (pi_subject p) \<inter> {''org_admin'', ''property_gm''} \<noteq> {}
      \<and> card_property s c = Inr q \<and> (''org_admin'' \<in> effective_roles s (pi_subject p) \<or> allows_property (assignment_scope p s) q)
      \<and> get_property s q = Some prop
      \<and> business_date_for tz now (pr_timezone prop) (punch_business_day_cutoff_hour cfg) = Inr today \<and> tc_period_end c < today)
    \<and> set acknowledged = set (unverified_ids s i)
    \<and> audit_events s' = audit_events s
      @ map (\<lambda>j. \<lparr>au_actor_subject = pi_subject p, au_action = ''acknowledge_unverified_punch'', au_resource_type = ''punch'',
          au_resource_id = str_int j\<rparr>) (sorted_list_of_set (set (unverified_ids s i)))
      @ [\<lparr>au_actor_subject = pi_subject p, au_action = ''approve_timecard'', au_resource_type = ''timecard'', au_resource_id = str_int i\<rparr>]"
proof -
  obtain c where c: "check_approval tz cfg s p i acknowledged now = Inr c" using assms by (auto simp: approve_timecard_def inr)
  note ok = check_approval_ok [OF c]
  have "sort (remdups acknowledged) = sorted_list_of_set (set (unverified_ids s i))"
    by (simp add: sorted_list_of_set_sort_remdups ok(4) [symmetric])
  with approve_audit [OF assms] open_card_ok [OF ok(1)] ok(2-4) show ?thesis by (intro conjI) (blast, simp, simp)
qed

text \<open>
  A card whose period ends after the employee's last day can be handled by nobody.  When no primary placement of the employee
  covers the last day of the period, every route over the card answers 409 to every caller who holds an approving role:
  reading, approving, reopening, adjusting.  The fallback meant for a final card looks only at placements that still run
  on that day, so it finds none.
\<close>

theorem final_card_unreachable:
  assumes "get_timecard_row s i = Some c" "require_approver s p = Inr ()"
    and "\<forall>a \<in> set (assignments s). ea_employee_id a = tc_employee_id c \<and> ea_is_primary a
      \<longrightarrow> \<not> covers (ea_effective_from a) (ea_effective_to a) (tc_period_end c)"
  shows "get_timecard s p i = Inl (HTTPException 409)
    \<and> approve_timecard sha256 tz cfg s p i acknowledged now = Inl (HTTPException 409)
    \<and> reopen_timecard sha256 cfg s p i now = Inl (HTTPException 409)
    \<and> (add_adjustment s p i b = Inl (HTTPException 409) \<or> add_adjustment s p i b = Inl (HTTPException 422))"
proof -
  have "open_card s p i = Inl (HTTPException 409)"
    using assms(1,2) no_row_no_property [OF assms(3)] by (simp add: open_card_def require_card_access_def)
  then show ?thesis using assms(2)
    by (simp add: get_timecard_def approve_timecard_def check_approval_def reopen_timecard_def add_adjustment_def check_adjustment_def)
qed

end
