(* ===== verification/Staff.thy ===== *)
theory Staff
  imports Workforce Floor
begin

text \<open>
  The employment records as a state machine: hiring, ending, raises, edits and moves over a clock of days, and whatever the rest
  of the program does to other tables.  In every reachable state an employee has at most one primary placement in force on a day, and
  a placement at most one rate of a kind, so that the questions the payroll asks of them have an answer.
\<close>

section \<open>Well-formed employment records\<close>

definition primary_rows :: "db \<Rightarrow> int \<Rightarrow> EmployeeAssignment set" where
  "primary_rows s e = {a \<in> set (assignments s). ea_employee_id a = e \<and> ea_is_primary a}"

definition disjoint_rows :: "EmployeeAssignment set \<Rightarrow> bool" where
  "disjoint_rows A \<longleftrightarrow> (\<forall>a \<in> A. \<forall>b \<in> A. \<forall>d. in_effect_on a d \<longrightarrow> in_effect_on b d \<longrightarrow> a = b)"

definition started :: "date \<Rightarrow> EmployeeAssignment \<Rightarrow> bool" where
  "started today a \<longleftrightarrow> (\<forall>t. ea_effective_to a = Some t \<longrightarrow> ea_effective_from a < t \<longrightarrow> ea_effective_from a \<le> today)"

definition placements_wf :: "date \<Rightarrow> db \<Rightarrow> bool" where
  "placements_wf today s \<longleftrightarrow> distinct (map ea_assignment_id (assignments s))
     \<and> ea_employee_id ` set (assignments s) \<subseteq> em_employee_id ` set (employees s)
     \<and> (\<forall>e. disjoint_rows (primary_rows s e)) \<and> (\<forall>a \<in> set (assignments s). ea_is_primary a \<longrightarrow> started today a)"

definition rates_of :: "AssignmentRate list \<Rightarrow> int \<Rightarrow> string \<Rightarrow> AssignmentRate list" where
  "rates_of rows i ty = filter (\<lambda>r. ar_assignment_id r = i \<and> ar_rate_type r = ty) rows"

text \<open>Each rate ends where the next begins, and the last one is open.\<close>

definition rate_chain :: "AssignmentRate list \<Rightarrow> bool" where
  "rate_chain rs \<longleftrightarrow> rate_row.chain rs \<and> (rs \<noteq> [] \<longrightarrow> ar_effective_to (last rs) = None)"

definition rates_wf :: "db \<Rightarrow> bool" where
  "rates_wf s \<longleftrightarrow> ar_assignment_id ` set (assignment_rates s) \<subseteq> ea_assignment_id ` set (assignments s)
     \<and> (\<forall>i ty. rate_chain (rates_of (assignment_rates s) i ty))"

definition staff_wf :: "date \<Rightarrow> db \<Rightarrow> bool" where
  "staff_wf today s \<longleftrightarrow> placements_wf today s \<and> rates_wf s"

section \<open>In force\<close>

text \<open>Being in force is convex.\<close>

lemma in_force_from:
  assumes "in_effect_on a d" "ea_effective_from a \<le> x" "x \<le> d"
  shows "in_effect_on a x"
  using assms by (auto simp: in_effect_on_iff split: option.splits)

lemma in_force_start: "in_effect_on a d \<Longrightarrow> ea_effective_from a \<le> d"
  by (simp add: in_effect_on_iff)

text \<open>A row closed in the past and one in force today that meet on some day already meet on a day up to today.\<close>

lemma meet_by_today:
  assumes "in_effect_on c today" "in_effect_on r d" "ea_effective_from c \<le> d" "ea_effective_from r \<le> today"
  shows "\<exists>x. in_effect_on c x \<and> in_effect_on r x"
proof (intro exI conjI)
  let ?x = "max (ea_effective_from c) (ea_effective_from r)"
  have "ea_effective_from c \<le> today" using assms(1) by (rule in_force_start)
  then show "in_effect_on c ?x" using assms(4) by (intro in_force_from [OF assms(1)]) simp_all
  show "in_effect_on r ?x" using assms(3) in_force_start [OF assms(2)] by (intro in_force_from [OF assms(2)]) simp_all
qed

lemma open_primary_in_force: "open_primary a \<Longrightarrow> in_effect_on a d \<longleftrightarrow> ea_effective_from a \<le> d"
  by (simp add: open_primary_def in_effect_on_iff)

lemma in_force_cases:
  assumes "in_effect_on a d" "ea_is_primary a" "started today a"
  obtains "open_primary a" | "ea_effective_from a \<le> today"
  using assms by (cases "ea_effective_to a") (auto simp: in_effect_on_iff open_primary_def started_def split: option.splits)

section \<open>Each operation keeps the placements\<close>

lemma hire_cases:
  assumes "hire rq subject actor today s = Inr (s', e)"
  obtains A G where "s' = s\<lparr>employees := employees s @ [e],
      assignments := assignments s @ [first_placement s rq (em_employee_id e) today], role_assignments := G, audit_events := A\<rparr>"
    "em_employee_id e \<notin> em_employee_id ` set (employees s)"
proof -
  have e: "e = new_employee s rq subject today" using assms by (auto simp: hire_def Let_def split: if_splits)
  then have fresh: "em_employee_id e \<notin> em_employee_id ` set (employees s)"
    using next_id_fresh [of "map em_employee_id (employees s)"] by (simp add: new_employee_def)
  define G where "G = role_assignments s @ (case (subject, oq_role rq) of (Some i, Some role) \<Rightarrow> [operator_grant rq role i] | _ \<Rightarrow> [])"
  have "s' = audit_row actor ''onboard_employee'' ''employee''
      (case oq_email rq of Some e \<Rightarrow> if e = [] then oq_full_name rq else e | None \<Rightarrow> oq_full_name rq)
      (s\<lparr>employees := employees s @ [e], assignments := assignments s @ [first_placement s rq (em_employee_id e) today], role_assignments := G\<rparr>)"
    using assms unfolding hire_def Let_def G_def e by (simp only: split: if_split_asm) simp_all
  then show thesis by (intro that [of "audit_events s @ [_]" G] fresh) (simp add: audit_row_def)
qed

lemma first_placement_simps [simp]:
  "ea_assignment_id (first_placement s rq i today) = next_id (map ea_assignment_id (assignments s))"
  "ea_employee_id (first_placement s rq i today) = i" "ea_effective_from (first_placement s rq i today) = today"
  "ea_effective_to (first_placement s rq i today) = None" "ea_status (first_placement s rq i today) = ''active''"
  "ea_is_primary (first_placement s rq i today)" "ea_property_id (first_placement s rq i today) = oq_property_id rq"
  by (simp_all add: first_placement_def)

lemma hire_placements:
  assumes "placements_wf today s" "hire rq subject actor today' s = Inr (s', e)"
  shows "placements_wf today s'"
proof -
  obtain A G where s': "s' = s\<lparr>employees := employees s @ [e],
      assignments := assignments s @ [first_placement s rq (em_employee_id e) today'], role_assignments := G, audit_events := A\<rparr>"
    and e: "em_employee_id e \<notin> em_employee_id ` set (employees s)" using assms(2) by (rule hire_cases)
  let ?p = "first_placement s rq (em_employee_id e) today'"
  have emps: "ea_employee_id ` set (assignments s) \<subseteq> em_employee_id ` set (employees s)" using assms(1) by (simp add: placements_wf_def)
  have "disjoint_rows (primary_rows s' i)" for i
  proof (cases "i = em_employee_id e")
    case True
    have "ea_employee_id a \<noteq> em_employee_id e" if "a \<in> set (assignments s)" for a using emps e that by (metis image_eqI subsetD)
    with True have "primary_rows s' i \<subseteq> {?p}" by (auto simp: primary_rows_def s')
    then show ?thesis by (auto simp: disjoint_rows_def)
  next
    case False
    then have "primary_rows s' i = primary_rows s i" by (auto simp: primary_rows_def s')
    then show ?thesis using assms(1) by (simp add: placements_wf_def)
  qed
  moreover have "distinct (map ea_assignment_id (assignments s'))"
    using assms(1) next_id_fresh [of "map ea_assignment_id (assignments s)"] by (simp add: placements_wf_def s')
  moreover have "started today ?p" by (simp add: started_def)
  ultimately show ?thesis using assms(1) emps by (auto simp: placements_wf_def s')
qed

text \<open>Closing rows only shortens what they cover.\<close>

lemma close_placement_simps [simp]:
  "ea_assignment_id (close_placement d a) = ea_assignment_id a" "ea_employee_id (close_placement d a) = ea_employee_id a"
  "ea_is_primary (close_placement d a) = ea_is_primary a" "ea_effective_from (close_placement d a) = ea_effective_from a"
  "ea_status (close_placement d a) = ''inactive''"
  by (simp_all add: close_placement_def)

lemma close_placement_in_force:
  assumes "ea_status a = ''active''" "in_effect_on (close_placement on a) d"
  shows "in_effect_on a d" "d \<le> on"
  using assms by (auto simp: close_placement_def in_effect_on_iff split: option.splits if_splits)

lemma close_placement_started: "started today a \<Longrightarrow> started today (close_placement today a)"
  by (auto simp: started_def close_placement_def split: option.splits if_splits)

lemma shortened_rows_wf:
  assumes wf: "placements_wf today s" and as: "assignments s' = map f (assignments s)"
    and em: "em_employee_id ` set (employees s') = em_employee_id ` set (employees s)"
    and f: "\<And>a. ea_assignment_id (f a) = ea_assignment_id a" "\<And>a. ea_employee_id (f a) = ea_employee_id a"
      "\<And>a. ea_is_primary (f a) = ea_is_primary a" "\<And>a. started today a \<Longrightarrow> started today (f a)"
    and short: "\<And>a d. in_effect_on (f a) d \<Longrightarrow> in_effect_on a d"
  shows "placements_wf today s'"
proof -
  have "disjoint_rows (primary_rows s' e)" for e
  proof -
    have old: "disjoint_rows (primary_rows s e)" using wf by (simp add: placements_wf_def)
    have "primary_rows s' e = f ` primary_rows s e" by (auto simp: primary_rows_def as f)
    moreover have "f a = f b" if "a \<in> primary_rows s e" "b \<in> primary_rows s e" "in_effect_on (f a) d" "in_effect_on (f b) d" for a b d
      using old short [OF that(3)] short [OF that(4)] that(1,2) unfolding disjoint_rows_def by blast
    ultimately show ?thesis unfolding disjoint_rows_def by (auto simp only: image_iff)
  qed
  moreover have "distinct (map (ea_assignment_id \<circ> f) (assignments s))"
    using wf by (simp add: placements_wf_def f comp_def)
  moreover have "ea_employee_id ` set (assignments s') = ea_employee_id ` set (assignments s)" by (auto simp: as f image_image)
  ultimately show ?thesis using wf em f(3,4) by (auto simp: placements_wf_def as)
qed

lemma set_employee_ids:
  assumes "\<And>e. em_employee_id e = i \<Longrightarrow> em_employee_id (f e) = i"
  shows "em_employee_id ` set (employees (set_employee i f s)) = em_employee_id ` set (employees s)"
proof -
  have "map em_employee_id (employees (set_employee i f s)) = map em_employee_id (employees s)" using assms by (simp add: set_employee_def)
  then show ?thesis by (metis list.set_map)
qed

lemma end_employment_tables:
  "assignments (end_employment e on s) = map (\<lambda>a. if ea_employee_id a = e \<and> ea_status a = ''active'' then close_placement on a else a) (assignments s)"
  "em_employee_id ` set (employees (end_employment e on s)) = em_employee_id ` set (employees s)"
  "assignment_rates (end_employment e on s) = assignment_rates s" "timecards (end_employment e on s) = timecards s"
  "role_assignments (end_employment e on s) = role_assignments s" "properties (end_employment e on s) = properties s"
proof -
  show "em_employee_id ` set (employees (end_employment e on s)) = em_employee_id ` set (employees s)"
    by (simp add: end_employment_def Let_def set_employee_ids)
qed (simp_all add: end_employment_def set_employee_def Let_def)

lemma end_employment_placements:
  assumes "placements_wf today s"
  shows "placements_wf today (end_employment e today s)"
  by (rule shortened_rows_wf [OF assms end_employment_tables(1,2)])
    (auto simp: close_placement_started dest: close_placement_in_force split: if_splits)

lemma drop_face_tables:
  assumes "drop_face del org i actor st s = (st', Inr s')"
  obtains A F where "s' = s\<lparr>face_templates := F, audit_events := A\<rparr>"
  using assms that [of "audit_events s" "face_templates s"]
  by (auto simp: drop_face_def Let_def audit_row_def split: sum.splits option.splits)

lemma terminate_employee_cases:
  assumes "terminate_employee kc del org i actor on w s = (w', Inr s')"
  obtains A F where "s' = (end_employment i on s)\<lparr>face_templates := F, audit_events := A\<rparr>" "get_employee s i \<noteq> None" "\<not> stranded s i on"
proof -
  obtain k st where w: "w = (k, st)" by (cases w)
  obtain e where e: "get_employee s i = Some e" "\<not> stranded s i on"
    using assms by (cases "get_employee s i") (auto simp: terminate_employee_def split: if_splits)
  obtain k' disabled where kd: "(case em_keycloak_subject e of None \<Rightarrow> (k, Inr ()) | Some i \<Rightarrow> kc_disable_user kc i k) = (k', disabled)"
    by (cases "case em_keycloak_subject e of None \<Rightarrow> (k, Inr ()) | Some i \<Rightarrow> kc_disable_user kc i k")
  obtain st2 r where dr: "drop_face del org i actor st (end_employment i on s) = (st2, r)" by (cases "drop_face del org i actor st (end_employment i on s)")
  have "terminate_employee kc del org i actor on w s = (case disabled of Inl e \<Rightarrow> ((k', st), Inl e)
      | Inr _ \<Rightarrow> ((k', st2), bindE r (\<lambda>s'. Inr (audit_row actor ''terminate_employee'' ''employee'' (str_int i) s'))))"
    unfolding terminate_employee_def e(1) option.case if_not_P [OF e(2)] Let_def w prod.case kd dr ..
  note this [unfolded assms]
  then have "bindE r (\<lambda>s'. Inr (audit_row actor ''terminate_employee'' ''employee'' (str_int i) s')) = Inr s'"
    by (cases disabled) (simp_all only: sum.case prod.inject sum.distinct simp_thms)
  then obtain s1 where r: "r = Inr s1" and s': "s' = audit_row actor ''terminate_employee'' ''employee'' (str_int i) s1"
    unfolding bindE_eq_Inr_iff by blast
  from dr [unfolded r] obtain A F where "s1 = (end_employment i on s)\<lparr>face_templates := F, audit_events := A\<rparr>" by (rule drop_face_tables)
  then have "s' = (end_employment i on s)\<lparr>face_templates := F, audit_events := A @
      [\<lparr>au_actor_subject = actor, au_action = ''terminate_employee'', au_resource_type = ''employee'', au_resource_id = str_int i\<rparr>]\<rparr>"
    by (simp add: s' audit_row_def)
  from this _ e(2) show thesis by (rule that) (simp add: e(1))
qed


text \<open>A move.  The index of open primaries refuses it where a later placement is already open.\<close>

lemma move_cases:
  assumes "move_department s e d effective today = Inr s'"
  obtains "s' = s"
  | c rates where "primary_assignment_on s e today = Inr (Some c)" "ea_effective_from c < effective" "ea_department_id c \<noteq> Some d"
    "scalar_one_or_none (filter (open_regular (ea_assignment_id c)) (assignment_rates s)) = Inr rates"
    "s' = s\<lparr>assignments := map (\<lambda>a. if ea_assignment_id a = ea_assignment_id c then a\<lparr>ea_effective_to := Some effective\<rparr> else a) (assignments s)
          @ [moved_placement s c d effective],
        assignment_rates := assignment_rates s @ (case rates of None \<Rightarrow> []
          | Some r \<Rightarrow> [\<lparr>ar_assignment_id = ea_assignment_id (moved_placement s c d effective), ar_rate_type = ''regular'',
              ar_amount = ar_amount r, ar_effective_from = effective, ar_effective_to = None\<rparr>])\<rparr>"
    "placements_unique (assignments s')"
proof -
  obtain c where c: "primary_assignment_on s e today = Inr (Some c)" using assms by (auto simp: move_department_def inr split: option.splits)
  show thesis
  proof (cases "ea_department_id c = Some d")
    case True
    then show thesis using assms c that(1) by (simp add: move_department_def)
  next
    case False
    with assms c obtain r where r: "scalar_one_or_none (filter (open_regular (ea_assignment_id c)) (assignment_rates s)) = Inr r"
      and f: "ea_effective_from c < effective"
      by (auto simp: move_department_def inr split: if_splits)
    let ?p = "map (\<lambda>a. if ea_assignment_id a = ea_assignment_id c then a\<lparr>ea_effective_to := Some effective\<rparr> else a) (assignments s)
          @ [moved_placement s c d effective]"
    let ?r = "assignment_rates s @ (case r of None \<Rightarrow> []
          | Some r \<Rightarrow> [\<lparr>ar_assignment_id = ea_assignment_id (moved_placement s c d effective), ar_rate_type = ''regular'',
              ar_amount = ar_amount r, ar_effective_from = effective, ar_effective_to = None\<rparr>])"
    have "s' = s\<lparr>assignments := ?p, assignment_rates := ?r\<rparr> \<and> placements_unique ?p"
      using assms c False r by (auto simp: move_department_def Let_def split: if_split_asm)
    then show thesis by (intro that(2) [OF c f False r]) simp_all
  qed
qed

lemma move_adds_row:
  assumes "move_department s e d effective today = Inr s'" "primary_assignment_on s e today = Inr (Some c)" "ea_department_id c \<noteq> Some d"
  shows "length (assignments s') = Suc (length (assignments s))"
  using assms by (auto simp: move_department_def Let_def inr split: if_splits)

lemma moved_placement_simps [simp]:
  "ea_assignment_id (moved_placement s c d on) = next_id (map ea_assignment_id (assignments s))"
  "ea_employee_id (moved_placement s c d on) = ea_employee_id c" "ea_is_primary (moved_placement s c d on) = ea_is_primary c"
  "ea_status (moved_placement s c d on) = ''active''" "ea_effective_from (moved_placement s c d on) = on"
  "ea_effective_to (moved_placement s c d on) = None" "ea_department_id (moved_placement s c d on) = Some d"
  "ea_property_id (moved_placement s c d on) = ea_property_id c"
  by (simp_all add: moved_placement_def)

lemma primary_assignment_in:
  assumes "primary_assignment_on s e d = Inr (Some a)"
  shows "a \<in> primary_rows s e" "in_effect_on a d" "a \<in> set (assignments s)" "ea_employee_id a = e" "ea_is_primary a"
proof -
  have "filter ea_is_primary (assignments_on s e d True) = [a]"
    using assms by (simp add: primary_assignment_on_def split: list.splits)
  then have "a \<in> set (filter ea_is_primary (assignments_on s e d True))" by (simp only: list.set_intros(1))
  then show "a \<in> primary_rows s e" "in_effect_on a d" "a \<in> set (assignments s)" "ea_employee_id a = e" "ea_is_primary a"
    by (auto simp: primary_rows_def set_assignments_on)
qed

lemma open_primaries_clash:
  assumes "placements_unique (xs @ [m])" "a \<in> set xs" "open_primary a" "open_primary m" "ea_employee_id a = ea_employee_id m"
  shows False
  using assms by (auto simp: placements_unique_def image_iff)

text \<open>The placement that is moved away from meets no other primary placement of the employee from its start on.\<close>

lemma current_alone:
  assumes wf: "placements_wf today s" and c: "primary_assignment_on s e today = Inr (Some c)"
    and r: "r \<in> set (assignments s)" "ea_employee_id r = e" "ea_is_primary r" "in_effect_on r d" "ea_effective_from c \<le> d" "\<not> open_primary r"
  shows "r = c"
proof -
  note cin = primary_assignment_in [OF c]
  have rp: "r \<in> primary_rows s e" using r by (simp add: primary_rows_def)
  have "started today r" using wf r by (simp add: placements_wf_def)
  then have "ea_effective_from r \<le> today" using in_force_cases [OF r(4,3)] r(6) by blast
  then obtain x where "in_effect_on c x" "in_effect_on r x" using meet_by_today [OF cin(2) r(4,5)] by blast
  then show ?thesis using wf rp cin(1) unfolding placements_wf_def disjoint_rows_def by blast
qed

lemma move_placements:
  assumes wf: "placements_wf today s" and mv: "move_department s e d effective today = Inr s'"
  shows "placements_wf today s'"
  using mv
proof (cases rule: move_cases)
  case 1
  then show ?thesis using wf by simp
next
  case (2 c rates)
  note cin = primary_assignment_in [OF 2(1)]
  let ?f = "\<lambda>a. if ea_assignment_id a = ea_assignment_id c then a\<lparr>ea_effective_to := Some effective\<rparr> else a"
  let ?m = "moved_placement s c d effective"
  have as: "assignments s' = map ?f (assignments s) @ [?m]" and em: "employees s' = employees s" by (simp_all add: 2(5))
  have ids: "a = c" if "a \<in> set (assignments s)" "ea_assignment_id a = ea_assignment_id c" for a
    using that cin(3) wf by (auto simp: placements_wf_def distinct_map dest: inj_onD)
  define c' where "c' = c\<lparr>ea_effective_to := Some effective\<rparr>"
  have opm: "open_primary ?m" using cin(5) by (simp add: open_primary_def)
  have uniq: "placements_unique (map ?f (assignments s) @ [?m])" using 2(6) by (simp add: as)
  have rows: "a \<in> set (assignments s') \<longleftrightarrow> a = ?m \<or> a = c' \<or> a \<in> set (assignments s) \<and> a \<noteq> c" for a
  proof -
    have "?f x = (if x = c then c' else x)" if "x \<in> set (assignments s)" for x using that ids by (auto simp: c'_def)
    then have "set (map ?f (assignments s)) = (\<lambda>x. if x = c then c' else x) ` set (assignments s)" by (auto simp: image_def)
    moreover have "(\<lambda>x. if x = c then c' else x) ` set (assignments s) = insert c' (set (assignments s) - {c})" using cin(3) by auto
    ultimately show ?thesis unfolding as by auto
  qed
  have c'p: "ea_employee_id c' = e" "ea_is_primary c'" "\<And>x. in_effect_on c' x \<Longrightarrow> ea_effective_from c \<le> x \<and> x < effective"
    using cin by (auto simp: c'_def in_effect_on_iff)
  have mp: "\<And>x. in_effect_on ?m x \<Longrightarrow> effective \<le> x" by (auto simp: in_effect_on_iff)
  have closed: "\<not> open_primary r" if "r \<in> set (assignments s)" "r \<noteq> c" "ea_employee_id r = e" for r
  proof
    assume o: "open_primary r"
    have "r \<in> set (map ?f (assignments s))" using that ids by (auto simp: image_iff intro!: bexI [of _ r])
    from open_primaries_clash [OF uniq this o opm] that(3) cin(4) show False by simp
  qed
  have alone: "\<not> in_effect_on r x" if "r \<in> set (assignments s)" "r \<noteq> c" "ea_employee_id r = e" "ea_is_primary r" "ea_effective_from c \<le> x" for r x
    using current_alone [OF wf 2(1) that(1,3,4) _ that(5)] closed [OF that(1-3)] that(2) by blast
  have dis: "disjoint_rows (primary_rows s' i)" for i
  proof (cases "i = e")
    case False
    then have "primary_rows s' i = primary_rows s i" using cin(4) c'p(1) by (auto simp: primary_rows_def rows)
    then show ?thesis using wf by (simp add: placements_wf_def)
  next
    case True
    have old: "a = b" if "a \<in> set (assignments s)" "b \<in> set (assignments s)" "ea_employee_id a = e" "ea_employee_id b = e"
        "ea_is_primary a" "ea_is_primary b" "in_effect_on a x" "in_effect_on b x" for a b x
      using wf that unfolding placements_wf_def disjoint_rows_def primary_rows_def by blast
    have one: "r = c' \<or> r = ?m \<or> r \<in> set (assignments s) \<and> r \<noteq> c" if "r \<in> primary_rows s' e" for r
      using that rows by (auto simp: primary_rows_def)
    have "a = b" if ab: "a \<in> primary_rows s' e" "b \<in> primary_rows s' e" "in_effect_on a x" "in_effect_on b x" for a b x
    proof -
      have ea: "ea_employee_id a = e" "ea_is_primary a" "ea_employee_id b = e" "ea_is_primary b" using ab by (auto simp: primary_rows_def)
      from one [OF ab(1)] one [OF ab(2)] show ?thesis
        using old [OF _ _ ea(1,3,2,4) ab(3,4)] alone [of a x] alone [of b x] ea ab(3,4) c'p(3) [of x] mp [of x] 2(2) by fastforce
    qed
    then show ?thesis unfolding disjoint_rows_def True by blast
  qed
  have "distinct (map ea_assignment_id (assignments s'))"
  proof -
    have "map ea_assignment_id (map ?f (assignments s)) = map ea_assignment_id (assignments s)" by simp
    then show ?thesis using wf next_id_fresh [of "map ea_assignment_id (assignments s)"] unfolding as
      by (simp only: map_append distinct_append) (simp add: placements_wf_def)
  qed
  moreover have "\<forall>a \<in> set (assignments s'). ea_employee_id a \<in> em_employee_id ` set (employees s')"
  proof -
    have "\<forall>a \<in> set (assignments s). ea_employee_id a \<in> em_employee_id ` set (employees s)" using wf by (auto simp: placements_wf_def)
    then show ?thesis using cin(3,4) c'p(1) unfolding em by (metis rows moved_placement_simps(2))
  qed
  moreover have "\<forall>a \<in> set (assignments s'). ea_is_primary a \<longrightarrow> started today a"
  proof -
    have "started today c'" using in_force_start [OF cin(2)] by (simp add: started_def c'_def)
    moreover have "started today ?m" by (simp add: started_def)
    ultimately show ?thesis using wf by (auto simp: rows placements_wf_def)
  qed
  ultimately show ?thesis using dis unfolding placements_wf_def by blast
qed


section \<open>Each operation keeps the rates\<close>

text \<open>Closing the open end of a chain where a new row starts makes the longer chain.\<close>

lemma chain_snoc:
  assumes "rate_row.chain (rs @ [r])" "ar_effective_from r \<le> ar_effective_from q" "ar_effective_to r' = Some (ar_effective_from q)"
    "ar_effective_from r' = ar_effective_from r"
  shows "rate_row.chain (rs @ [r', q])"
  using assms(1)
proof (induction rs)
  case Nil
  then show ?case using assms(2-4) by simp
next
  case (Cons x rs)
  then show ?case by (cases rs) (use assms(4) in simp_all)
qed

lemma chain_closed_before:
  assumes "rate_row.chain (rs @ [r])" "x \<in> set rs"
  obtains t where "ar_effective_to x = Some t" "t \<le> ar_effective_from r"
proof -
  have "\<exists>t. ar_effective_to x = Some t \<and> t \<le> ar_effective_from r"
    using assms
  proof (induction rs)
    case Nil
    then show ?case by simp
  next
    case (Cons y ys)
    show ?case
    proof (cases "x = y")
      case True
      then show ?thesis using Cons.prems(1) by (cases ys) (auto dest: rate_row.chain_starts)
    next
      case False
      then have "x \<in> set ys" using Cons.prems by simp
      then show ?thesis using Cons by (cases ys) auto
    qed
  qed
  then show thesis using that by blast
qed

lemma chain_open_last:
  assumes "rate_chain rs"
  shows "filter (\<lambda>r. ar_effective_to r = None) rs = (if rs = [] then [] else [last rs])"
proof (cases rs rule: rev_cases)
  case (snoc ys y)
  then have "rate_row.chain (ys @ [y])" "ar_effective_to y = None" using assms by (simp_all add: rate_chain_def)
  moreover have "ar_effective_to x \<noteq> None" if "x \<in> set ys" for x using chain_closed_before [OF calculation(1) that] by auto
  ultimately show ?thesis using snoc by (simp add: filter_empty_conv)
qed simp

lemma open_regular_rows: "filter (open_regular i) rows = filter (\<lambda>r. ar_effective_to r = None) (rates_of rows i ''regular'')"
  by (induction rows) (auto simp: rates_of_def open_regular_def)

lemma rates_of_append [simp]: "rates_of (xs @ ys) i ty = rates_of xs i ty @ rates_of ys i ty"
  by (simp add: rates_of_def)

text \<open>What a raise does to the rates of its placement.\<close>

lemma raise_rate_rows:
  assumes ch: "rate_chain (rates_of rows i ''regular'')" and ok: "raise_rate i v effective rows = Inr rows'"
  defines "new \<equiv> \<lparr>ar_assignment_id = i, ar_rate_type = ''regular'', ar_amount = Some v, ar_effective_from = effective, ar_effective_to = None\<rparr>"
  obtains "rates_of rows i ''regular'' = []" "rates_of rows' i ''regular'' = [new]"
  | rs r where "rates_of rows i ''regular'' = rs @ [r]" "rates_of rows' i ''regular'' = rs @ [r\<lparr>ar_effective_to := Some effective\<rparr>, new]"
    "ar_effective_from r < effective"
proof -
  let ?f = "\<lambda>r. if open_regular i r then r\<lparr>ar_effective_to := Some effective\<rparr> else r"
  have rows': "rows' = map ?f rows @ [new]" using ok by (auto simp: raise_rate_def Let_def inr new_def split: if_splits)
  have "rates_of (map ?f rows) i ''regular'' = map ?f (rates_of rows i ''regular'')"
    by (induction rows) (simp_all add: rates_of_def open_regular_def)
  then have R: "rates_of rows' i ''regular'' = map ?f (rates_of rows i ''regular'') @ [new]" by (simp add: rows' rates_of_def new_def)
  show thesis
  proof (cases "rates_of rows i ''regular''" rule: rev_cases)
    case Nil
    then show thesis using that(1) R by simp
  next
    case (snoc rs r)
    have chr: "rate_row.chain (rs @ [r])" "ar_effective_to r = None" using ch by (simp_all add: snoc rate_chain_def)
    have r: "r \<in> set (rates_of rows i ''regular'')" by (simp add: snoc)
    have "map ?f rs = rs" using chain_closed_before [OF chr(1)] by (intro map_idI) (force simp: open_regular_def)
    moreover have "?f r = r\<lparr>ar_effective_to := Some effective\<rparr>" using r chr(2) by (simp add: rates_of_def open_regular_def)
    moreover have "ar_effective_from r < effective"
      using ok chain_open_last [OF ch] by (auto simp: raise_rate_def open_regular_rows snoc scalar_one_or_none_def Let_def split: if_splits)
    ultimately show thesis using that(2) [OF snoc] R by (simp add: snoc)
  qed
qed

lemma raise_rate_others:
  assumes "raise_rate i v effective rows = Inr rows'" "j \<noteq> i \<or> ty \<noteq> ''regular''"
  shows "rates_of rows' j ty = rates_of rows j ty"
proof -
  let ?f = "\<lambda>r. if open_regular i r then r\<lparr>ar_effective_to := Some effective\<rparr> else r"
  obtain new where "rows' = map ?f rows @ [new]" "ar_assignment_id new = i" "ar_rate_type new = ''regular''"
    using assms(1) by (auto simp: raise_rate_def Let_def inr split: if_splits)
  moreover have "rates_of (map ?f rows) j ty = rates_of rows j ty"
    using assms(2) by (induction rows) (auto simp: rates_of_def open_regular_def)
  ultimately show ?thesis using assms(2) by (auto simp: rates_of_def)
qed

lemma raise_rate_keys:
  assumes "raise_rate i v effective rows = Inr rows'"
  shows "ar_assignment_id ` set rows' = insert i (ar_assignment_id ` set rows)"
proof -
  let ?f = "\<lambda>r. if open_regular i r then r\<lparr>ar_effective_to := Some effective\<rparr> else r"
  obtain new where r: "rows' = map ?f rows @ [new]" "ar_assignment_id new = i"
    using assms by (auto simp: raise_rate_def Let_def inr split: if_splits)
  have "map ar_assignment_id (map ?f rows) = map ar_assignment_id rows" by simp
  then have "ar_assignment_id ` set (map ?f rows) = ar_assignment_id ` set rows" by (metis list.set_map)
  then show ?thesis unfolding r(1) set_append image_Un using r(2) by simp
qed

lemma raise_rate_chain:
  assumes "\<forall>j ty. rate_chain (rates_of rows j ty)" "raise_rate i v effective rows = Inr rows'"
  shows "rate_chain (rates_of rows' j ty)"
proof (cases "j = i \<and> ty = ''regular''")
  case False
  then show ?thesis using assms raise_rate_others [OF assms(2)] by metis
next
  case True
  have ch: "rate_chain (rates_of rows i ''regular'')" using assms(1) by blast
  from ch assms(2) show ?thesis
  proof (cases rule: raise_rate_rows)
    case 1
    then show ?thesis using True by (simp add: rate_chain_def)
  next
    case (2 rs r)
    have "rate_row.chain (rs @ [r])" using ch 2(1) by (simp add: rate_chain_def)
    from chain_snoc [OF this, of "last (rates_of rows' i ''regular'')" "r\<lparr>ar_effective_to := Some effective\<rparr>"]
    show ?thesis using True 2 by (simp add: rate_chain_def)
  qed
qed


lemma rates_wf_frame:
  assumes "rates_wf s" "assignment_rates s' = assignment_rates s"
    "ea_assignment_id ` set (assignments s) \<subseteq> ea_assignment_id ` set (assignments s')"
  shows "rates_wf s'"
  using assms unfolding rates_wf_def by (metis subset_trans)

lemma move_rates:
  assumes wf: "rates_wf s" and mv: "move_department s e d effective today = Inr s'"
  shows "rates_wf s'"
  using mv
proof (cases rule: move_cases)
  case 1
  then show ?thesis using wf by simp
next
  case (2 c rates)
  let ?new = "case rates of None \<Rightarrow> [] | Some r \<Rightarrow> [\<lparr>ar_assignment_id = ea_assignment_id (moved_placement s c d effective),
      ar_rate_type = ''regular'', ar_amount = ar_amount r, ar_effective_from = effective, ar_effective_to = None\<rparr>]"
  let ?n = "next_id (map ea_assignment_id (assignments s))"
  have rs: "assignment_rates s' = assignment_rates s @ ?new" by (simp add: 2(5))
  have "map ea_assignment_id (map (\<lambda>a. if ea_assignment_id a = ea_assignment_id c then a\<lparr>ea_effective_to := Some effective\<rparr> else a) (assignments s))
      = map ea_assignment_id (assignments s)" by simp
  then have "ea_assignment_id ` set (map (\<lambda>a. if ea_assignment_id a = ea_assignment_id c then a\<lparr>ea_effective_to := Some effective\<rparr> else a) (assignments s))
      = ea_assignment_id ` set (assignments s)" by (metis list.set_map)
  then have ids: "ea_assignment_id ` set (assignments s') = insert ?n (ea_assignment_id ` set (assignments s))"
    unfolding 2(5) by (simp del: set_map)
  have "?n \<notin> ea_assignment_id ` set (assignments s)" using next_id_fresh [of "map ea_assignment_id (assignments s)"] by simp
  then have "ar_assignment_id r \<noteq> ?n" if "r \<in> set (assignment_rates s)" for r
    using wf that unfolding rates_wf_def by (metis imageI subsetD)
  then have fresh: "rates_of (assignment_rates s) ?n ty = []" for ty by (auto simp: rates_of_def filter_empty_conv)
  have "rate_chain (rates_of (assignment_rates s') i ty)" for i ty
  proof (cases "i = ?n")
    case True
    then show ?thesis using fresh by (auto simp: rs rates_of_def rate_chain_def split: option.splits)
  next
    case False
    then have "rates_of ?new i ty = []" by (simp add: rates_of_def split: option.splits)
    then show ?thesis using wf by (simp add: rs rates_wf_def)
  qed
  moreover have "ar_assignment_id ` set (assignment_rates s') \<subseteq> ea_assignment_id ` set (assignments s')"
    using wf unfolding ids rs by (auto simp: rates_wf_def split: option.splits)
  ultimately show ?thesis by (simp add: rates_wf_def)
qed

section \<open>Hiring, ending, raising, editing\<close>

lemma set_pay_rate_cases:
  assumes "set_pay_rate s p e b today = Inr (s', v)"
  obtains c rows A where "primary_assignment_on s e today = Inr (Some c)" "v = rb_pay_rate b"
    "raise_rate (ea_assignment_id c) v (case rb_effective_from b of None \<Rightarrow> today | Some d \<Rightarrow> d) (assignment_rates s) = Inr rows"
    "s' = s\<lparr>assignment_rates := rows, audit_events := A\<rparr>" "0 < v"
proof -
  obtain c where c: "primary_assignment_on s e today = Inr (Some c)" and v: "pay_rate_ok (rb_pay_rate b)"
    using assms by (auto simp: set_pay_rate_def primary_placement_def inr split: if_splits option.splits)
  with assms obtain rows where r: "raise_rate (ea_assignment_id c) (rb_pay_rate b) (case rb_effective_from b of None \<Rightarrow> today | Some d \<Rightarrow> d)
      (assignment_rates s) = Inr rows" and s': "v = rb_pay_rate b"
      "s' = audit_row (pi_subject p) ''write_pay_rate'' ''employee'' (str_int e) (s\<lparr>assignment_rates := rows\<rparr>)"
    by (auto simp: set_pay_rate_def primary_placement_def Let_def inr split: if_split_asm)
  have "s' = s\<lparr>assignment_rates := rows, audit_events := audit_events s @
      [\<lparr>au_actor_subject = pi_subject p, au_action = ''write_pay_rate'', au_resource_type = ''employee'', au_resource_id = str_int e\<rparr>]\<rparr>"
    by (simp add: s' audit_row_def)
  from c s'(1) r [folded s'(1)] this show thesis by (rule that) (use v s'(1) in \<open>simp add: pay_rate_ok_def\<close>)
qed

lemma patch_cases:
  assumes "patch_employee s p e b today = Inr (s', m)"
  obtains s2 A where "s' = s2\<lparr>audit_events := A\<rparr>" "em_employee_id m = e" "get_employee s e \<noteq> None"
    "s2 = set_employee e (\<lambda>_. m) s \<or> (\<exists>d. pb_department_id b = Some d
        \<and> move_department (set_employee e (\<lambda>_. m) s) e d (case pb_effective_from b of None \<Rightarrow> today | Some x \<Rightarrow> x) today = Inr s2)"
proof -
  obtain em where em: "check_patch s p e b today = Inr em" "patch_fields b em = Inr m"
    using assms by (auto simp: patch_employee_def Let_def inr)
  then have g: "get_employee s e = Some em" by (auto simp: check_patch_def inr split: if_splits option.splits)
  then have "em_employee_id em = e" by (auto simp: get_employee_def find_Some_iff)
  then have "em_employee_id m = e" using em(2) by (auto simp: patch_fields_def split: if_splits)
  let ?s1 = "set_employee e (\<lambda>_. m) s"
  obtain s2 where s2: "(case pb_department_id b of None \<Rightarrow> Inr ?s1
      | Some i \<Rightarrow> move_department ?s1 e i (case pb_effective_from b of None \<Rightarrow> today | Some d \<Rightarrow> d) today) = Inr s2"
    and s': "s' = audit_row (pi_subject p) ''update_employee'' ''employee'' (str_int e) s2"
    using assms em by (auto simp: patch_employee_def Let_def inr)
  have "s2 = ?s1 \<or> (\<exists>d. pb_department_id b = Some d
      \<and> move_department ?s1 e d (case pb_effective_from b of None \<Rightarrow> today | Some x \<Rightarrow> x) today = Inr s2)"
    using s2 by (cases "pb_department_id b") simp_all
  moreover have "s' = s2\<lparr>audit_events := audit_events s2 @
      [\<lparr>au_actor_subject = pi_subject p, au_action = ''update_employee'', au_resource_type = ''employee'', au_resource_id = str_int e\<rparr>]\<rparr>"
    by (simp add: s' audit_row_def)
  ultimately show thesis using that \<open>em_employee_id m = e\<close> g by blast
qed

lemma set_employee_wf:
  assumes "staff_wf today s" "em_employee_id m = e"
  shows "staff_wf today (set_employee e (\<lambda>_. m) s)"
proof -
  have "em_employee_id ` set (employees (set_employee e (\<lambda>_. m) s)) = em_employee_id ` set (employees s)"
    by (rule set_employee_ids) (rule assms(2))
  moreover have "assignments (set_employee e (\<lambda>_. m) s) = assignments s" "assignment_rates (set_employee e (\<lambda>_. m) s) = assignment_rates s"
    by (simp_all add: set_employee_def)
  ultimately show ?thesis using assms(1) by (simp add: staff_wf_def placements_wf_def rates_wf_def primary_rows_def)
qed

lemma staff_wf_tables:
  assumes "staff_wf today s" "employees s' = employees s" "assignments s' = assignments s" "assignment_rates s' = assignment_rates s"
  shows "staff_wf today s'"
  using assms by (simp add: staff_wf_def placements_wf_def rates_wf_def primary_rows_def)

lemma staff_wf_later: "staff_wf today s \<Longrightarrow> today \<le> today' \<Longrightarrow> staff_wf today' s"
  by (fastforce simp: staff_wf_def placements_wf_def started_def)

inductive staff_step :: "'kc KeycloakAdmin \<Rightarrow> 'st store_delete \<Rightarrow> int \<Rightarrow> date \<times> ('kc \<times> 'st) \<times> db \<Rightarrow> date \<times> ('kc \<times> 'st) \<times> db \<Rightarrow> bool"
  for kc del org where
  hire: "onboard_employee kc rq actor today k s = (k', Inr (s', e)) \<Longrightarrow> staff_step kc del org (today, (k, st), s) (today, (k', st), s')"
| terminate: "terminate kc del org p e today w s = (w', Inr (s', d)) \<Longrightarrow> staff_step kc del org (today, w, s) (today, w', s')"
| raise: "set_pay_rate s p e b today = Inr (s', v) \<Longrightarrow> staff_step kc del org (today, w, s) (today, w, s')"
| edit: "patch_employee s p e pb today = Inr (s', m) \<Longrightarrow> staff_step kc del org (today, w, s) (today, w, s')"
| next_day: "today < today' \<Longrightarrow> staff_step kc del org (today, w, s) (today', w, s)"
| elsewhere: "employees s' = employees s \<Longrightarrow> assignments s' = assignments s \<Longrightarrow> assignment_rates s' = assignment_rates s
    \<Longrightarrow> staff_step kc del org (today, w, s) (today, w', s')"

lemma terminate_cases:
  assumes "terminate kc del org p e today w s = (w', Inr (s', d))"
  obtains A F where "s' = (end_employment e today s)\<lparr>face_templates := F, audit_events := A\<rparr>" "get_employee s e \<noteq> None" "\<not> stranded s e today"
proof -
  have "terminate_employee kc (Some del) org e (pi_subject p) today w s = (w', Inr s')"
    using assms by (auto simp: terminate_def inr split: sum.splits prod.splits)
  then show thesis by (rule terminate_employee_cases) (rule that)
qed

lemma staff_step_wf:
  assumes "staff_step kc del org (today, w, s) (today', w', s')" "staff_wf today s"
  shows "staff_wf today' s'"
  using assms(1)
proof cases
  case (hire rq actor k k' e st)
  then obtain subject where h: "hire rq subject actor today s = Inr (s', e)"
    by (auto simp: onboard_employee_def split: if_splits prod.splits sum.splits)
  then have p: "placements_wf today s'" using assms(2) hire_placements by (auto simp: staff_wf_def)
  from h have "assignment_rates s' = assignment_rates s" "ea_assignment_id ` set (assignments s) \<subseteq> ea_assignment_id ` set (assignments s')"
    by (auto elim!: hire_cases)
  then show ?thesis using assms(2) p hire rates_wf_frame by (auto simp: staff_wf_def)
next
  case (terminate p e d)
  from terminate(2) obtain A F where s': "s' = (end_employment e today s)\<lparr>face_templates := F, audit_events := A\<rparr>" by (rule terminate_cases)
  have "map ea_assignment_id (assignments (end_employment e today s)) = map ea_assignment_id (assignments s)"
    by (simp add: end_employment_tables)
  then have "ea_assignment_id ` set (assignments (end_employment e today s)) = ea_assignment_id ` set (assignments s)" by (metis list.set_map)
  then have "rates_wf (end_employment e today s)" using assms(2) rates_wf_frame [of s] by (simp add: staff_wf_def end_employment_tables)
  then have "staff_wf today (end_employment e today s)" using assms(2) end_employment_placements by (simp add: staff_wf_def)
  then show ?thesis using terminate(1) staff_wf_tables s' by simp
next
  case (raise p e b v)
  from raise(3) obtain c rows A where c: "primary_assignment_on s e today = Inr (Some c)"
    and r: "raise_rate (ea_assignment_id c) v (case rb_effective_from b of None \<Rightarrow> today | Some d \<Rightarrow> d) (assignment_rates s) = Inr rows"
    and s': "s' = s\<lparr>assignment_rates := rows, audit_events := A\<rparr>" by (rule set_pay_rate_cases)
  have "rates_wf s'" using assms(2) raise_rate_chain [OF _ r] raise_rate_keys [OF r] primary_assignment_in(3) [OF c]
    by (auto simp: staff_wf_def rates_wf_def s')
  then show ?thesis using assms(2) raise(1) by (simp add: staff_wf_def s' placements_wf_def primary_rows_def)
next
  case (edit p e pb m)
  from edit(3) obtain s2 A where s': "s' = s2\<lparr>audit_events := A\<rparr>" and m: "em_employee_id m = e"
    and s2: "s2 = set_employee e (\<lambda>_. m) s \<or> (\<exists>d. pb_department_id pb = Some d
        \<and> move_department (set_employee e (\<lambda>_. m) s) e d (case pb_effective_from pb of None \<Rightarrow> today | Some x \<Rightarrow> x) today = Inr s2)"
    by (rule patch_cases)
  have "staff_wf today (set_employee e (\<lambda>_. m) s)" using assms(2) m by (rule set_employee_wf)
  then have "staff_wf today s2" using s2 move_placements move_rates unfolding staff_wf_def by blast
  then show ?thesis using edit(1) staff_wf_tables s' by simp
next
  case next_day
  then show ?thesis using assms(2) staff_wf_later by auto
next
  case elsewhere
  then show ?thesis using assms(2) staff_wf_tables by blast
qed

definition no_staff :: "db \<Rightarrow> bool" where
  "no_staff s \<longleftrightarrow> assignments s = [] \<and> assignment_rates s = []"

lemma staff_reach_wf:
  assumes "(staff_step kc del org)\<^sup>*\<^sup>* (t0, w0, s0) (today, w, s)" "no_staff s0"
  shows "staff_wf today s"
proof -
  have "staff_wf (fst y) (snd (snd y))" if "(staff_step kc del org)\<^sup>*\<^sup>* (t0, w0, s0) y" for y
    using that
  proof (induction rule: rtranclp_induct)
    case base
    show ?case using assms(2) by (simp add: no_staff_def staff_wf_def placements_wf_def rates_wf_def primary_rows_def disjoint_rows_def
          rates_of_def rate_chain_def)
  next
    case (step y z)
    then show ?case using staff_step_wf [of kc del org "fst y" "fst (snd y)" "snd (snd y)"] by (metis prod.collapse)
  qed
  from this [OF assms(1)] show ?thesis by simp
qed


section \<open>What the payroll asks has an answer\<close>

lemma owner_total:
  assumes "\<And>d a b. a \<in> set rows \<Longrightarrow> b \<in> set rows \<Longrightarrow> in_effect_on a d \<Longrightarrow> in_effect_on b d \<Longrightarrow> a = b"
  shows "\<exists>ow. owner_on_last_covered_day rows start on = Inr ow"
  using assms
proof (induction rows start on rule: owner_on_last_covered_day.induct)
  case (1 rows start on)
  let ?ow = "remdups (map ea_property_id (filter (\<lambda>a. in_effect_on a on) rows))"
  show ?case
  proof (cases "on < start")
    case True
    then show ?thesis by (simp add: owner_on_last_covered_day_cases(1))
  next
    case False
    show ?thesis
    proof (cases ?ow rule: remdups_adj.cases)
      case 1
      with "1.IH" [OF False] "1.prems" show ?thesis by (metis owner_on_last_covered_day_cases(2) [OF False])
    next
      case (2 q)
      then show ?thesis using False by (simp add: owner_on_last_covered_day_cases(3))
    next
      case (3 x y zs)
      then have "x \<in> set ?ow" "y \<in> set ?ow" "x \<noteq> y" using distinct_remdups [of "map ea_property_id (filter (\<lambda>a. in_effect_on a on) rows)"]
        by (simp_all only: list.set_intros distinct.simps) auto
      then show ?thesis using "1.prems" by force
    qed
  qed
qed

lemma population_total:
  assumes "\<And>e. disjoint_rows (primary_rows s e)"
  shows "\<exists>E. employee_ids_paid_by_during s p start end = Inr E"
proof -
  let ?mine = "filter (\<lambda>a. overlaps_period a start end)
     (filter (\<lambda>a. ea_property_id a = p \<and> ea_is_primary a \<and> ea_effective_from a \<le> end) (assignments s))"
  let ?rows = "filter (\<lambda>a. ea_employee_id a \<in> set (map ea_employee_id ?mine) \<and> ea_is_primary a \<and> ea_effective_from a \<le> end) (assignments s)"
  have "\<exists>ow. owner_on_last_covered_day rs start end = Inr ow" if "(e, rs) \<in> set (group_by ea_employee_id ?rows)" for e rs
  proof (rule owner_total)
    have "rs = filter (\<lambda>a. ea_employee_id a = e) ?rows" using that group_by_entry by fast
    then have "set rs \<subseteq> primary_rows s e" by (auto simp: primary_rows_def)
    then show "a = b" if "a \<in> set rs" "b \<in> set rs" "in_effect_on a d" "in_effect_on b d" for a b d
      using assms [of e] that unfolding disjoint_rows_def by blast
  qed
  then have "mapE (\<lambda>(e, rs). map_sum id (Pair e) (owner_on_last_covered_day rs start end)) (group_by ea_employee_id ?rows)
      = Inr (map (\<lambda>(e, rs). (e, projr (owner_on_last_covered_day rs start end))) (group_by ea_employee_id ?rows))"
    by (intro mapE_Inr_map) force
  then show ?thesis by (simp only: employee_ids_paid_by_during_def Let_def bindE_simps) simp
qed

lemma primary_total:
  assumes "disjoint_rows (primary_rows s e)" "distinct (map ea_assignment_id (assignments s))"
  shows "\<exists>r. primary_assignment_on s e d = Inr r"
proof -
  let ?P = "filter ea_is_primary (assignments_on s e d True)"
  have "distinct ?P" using assms(2) by (simp add: assignments_on_def distinct_map Let_def)
  moreover have "a = b" if "a \<in> set ?P" "b \<in> set ?P" for a b
    using that assms(1) by (auto simp: set_assignments_on disjoint_rows_def primary_rows_def)
  ultimately have "length ?P \<le> 1" by (metis card_le_Suc0_iff_eq One_nat_def List.finite_set distinct_card)
  then show ?thesis by (auto simp: primary_assignment_on_def split: list.splits)
qed

section \<open>The rate in force\<close>

lemma stored_rate_rows: "stored_rate s i ty d = (case filter (\<lambda>r. covers (ar_effective_from r) (ar_effective_to r) d) (rates_of (assignment_rates s) i ty) of
    [] \<Rightarrow> Inr None | [row] \<Rightarrow> bindE (decode row) (\<lambda>v. Inr (Some v)) | _ \<Rightarrow> Inl AmbiguousRateError)"
proof -
  have "rate_rows s i ty d = filter (\<lambda>r. covers (ar_effective_from r) (ar_effective_to r) d) (rates_of (assignment_rates s) i ty)"
    unfolding rate_rows_def rates_of_def filter_filter by (rule filter_cong) (auto simp: covers_def)
  then show ?thesis by (simp add: stored_rate_def)
qed

lemma covers_before: "ar_effective_to r = Some t \<Longrightarrow> t \<le> d \<Longrightarrow> \<not> covers (ar_effective_from r) (ar_effective_to r) d"
  by (simp add: covers_def)

lemma raise_in_force:
  assumes ch: "rate_chain (rates_of rows i ''regular'')" and ok: "raise_rate i v effective rows = Inr rows'" and rs: "assignment_rates s' = rows'" "assignment_rates s = rows"
  shows "stored_rate s' i ''regular'' d = (if d < effective then stored_rate s i ''regular'' d else Inr (Some v))"
  using ch ok
proof (cases rule: raise_rate_rows)
  case 1
  then show ?thesis by (simp add: stored_rate_rows rs covers_def decode_def)
next
  case (2 qs r)
  have chr: "rate_row.chain (qs @ [r])" "ar_effective_to r = None" using ch by (simp_all add: 2(1) rate_chain_def)
  show ?thesis
  proof (cases "d < effective")
    case True
    then have "covers (ar_effective_from r) (Some effective) d = covers (ar_effective_from r) (ar_effective_to r) d"
      by (simp add: covers_def chr(2))
    moreover have "decode (r\<lparr>ar_effective_to := Some effective\<rparr>) = decode r" by (simp add: decode_def)
    moreover have "\<not> covers effective None d" using True by (simp add: covers_def)
    ultimately show ?thesis using True
      by (cases "filter (\<lambda>r. covers (ar_effective_from r) (ar_effective_to r) d) qs") (auto simp: stored_rate_rows rs 2 split: list.splits)
  next
    case False
    have "\<not> covers (ar_effective_from x) (ar_effective_to x) d" if x: "x \<in> set qs" for x
    proof -
      obtain t where "ar_effective_to x = Some t" "t \<le> ar_effective_from r" using chain_closed_before [OF chr(1) x] by blast
      then show ?thesis using False 2(3) by (intro covers_before) auto
    qed
    then have "filter (\<lambda>r. covers (ar_effective_from r) (ar_effective_to r) d) qs = []" by (simp add: filter_empty_conv)
    then show ?thesis using False by (simp add: stored_rate_rows rs 2 covers_def decode_def)
  qed
qed

lemma rates_frame:
  assumes "\<And>ty. rates_of (assignment_rates s') i ty = rates_of (assignment_rates s) i ty"
    "assignments s' = assignments s" "properties s' = properties s"
  shows "rate_on s' i ty d = rate_on s i ty d"
proof -
  have st: "stored_rate s' i ty d = stored_rate s i ty d" for ty by (simp add: stored_rate_rows assms(1))
  have "get_property s' = get_property s" by (rule ext) (simp add: get_property_def assms(3))
  then have "rules_for_assignment s' i = rules_for_assignment s i"
    by (simp add: rules_for_assignment_def get_assignment_def assms(2) cong: option.case_cong)
  then have "refuse_below_floor s' i d v attr = refuse_below_floor s i d v attr" for v attr
    by (simp add: refuse_below_floor_def st cong: option.case_cong)
  then show ?thesis by (simp add: rate_on_def st cong: option.case_cong)
qed


section \<open>Properties\<close>

text \<open>
  C11. The payroll's questions have an answer.  In every state that hiring, ending, raises, edits and moves reach, no employee has
  two primary placements in force on a day, so neither the primary on a day nor the population of any property's pay run over any period is
  ever refused as ambiguous.
\<close>

theorem primaries_never_overlap:
  assumes "(staff_step kc del org)\<^sup>*\<^sup>* (t0, w0, s0) (today, w, s)" "no_staff s0"
  shows "disjoint_rows (primary_rows s e) \<and> (\<exists>r. primary_assignment_on s e d = Inr r)
    \<and> (\<exists>E. employee_ids_paid_by_during s p start end = Inr E)"
proof -
  have "placements_wf today s" using staff_reach_wf [OF assms] by (simp add: staff_wf_def)
  then have d: "\<And>e. disjoint_rows (primary_rows s e)" "distinct (map ea_assignment_id (assignments s))" by (simp_all add: placements_wf_def)
  then show ?thesis using primary_total [OF d(1,2)] population_total [OF d(1)] by blast
qed

text \<open>
  C12. A raise owns its days and no others.  In every reachable state, a raise that is accepted gives the employee's primary
  placement the new rate on every day from its effective date on, keeps the rate of every earlier day, and changes no rate of
  any other placement.
\<close>

theorem raise_owns_its_days:
  assumes "(staff_step kc del org)\<^sup>*\<^sup>* (t0, w0, s0) (today, w, s)" "no_staff s0"
    and "set_pay_rate s p e b today = Inr (s', v)"
  shows "\<exists>c. primary_assignment_on s e today = Inr (Some c) \<and> v = rb_pay_rate b
    \<and> (\<forall>d. rate_on s' (ea_assignment_id c) ''regular'' d =
          (if d < (case rb_effective_from b of None \<Rightarrow> today | Some x \<Rightarrow> x) then rate_on s (ea_assignment_id c) ''regular'' d else Inr (Some v)))
    \<and> (\<forall>i ty d. i \<noteq> ea_assignment_id c \<longrightarrow> rate_on s' i ty d = rate_on s i ty d)"
proof -
  obtain c rows A where c: "primary_assignment_on s e today = Inr (Some c)" "v = rb_pay_rate b"
    and r: "raise_rate (ea_assignment_id c) v (case rb_effective_from b of None \<Rightarrow> today | Some d \<Rightarrow> d) (assignment_rates s) = Inr rows"
    and s': "s' = s\<lparr>assignment_rates := rows, audit_events := A\<rparr>" using assms(3) by (rule set_pay_rate_cases)
  have ch: "rate_chain (rates_of (assignment_rates s) (ea_assignment_id c) ''regular'')"
    using staff_reach_wf [OF assms(1,2)] by (simp add: staff_wf_def rates_wf_def)
  have "rate_on s' i ty d = rate_on s i ty d" if "i \<noteq> ea_assignment_id c" for i ty d
    using raise_rate_others [OF r] that by (intro rates_frame) (simp_all add: s')
  moreover have "rate_on s' (ea_assignment_id c) ''regular'' d = (if d < (case rb_effective_from b of None \<Rightarrow> today | Some x \<Rightarrow> x)
      then rate_on s (ea_assignment_id c) ''regular'' d else Inr (Some v))" for d
    unfolding rate_on_regular by (rule raise_in_force [OF ch r]) (simp_all add: s')
  ultimately show ?thesis using c by blast
qed

text \<open>
  C14. A move carries the open rate.  In every reachable state, a move to another department closes the primary placement at its
  effective date and opens the next one there, in the new department; the new placement has, on all its days, the regular rate that was
  open when it was made, even where that rate was to start only later.  Days before the effective date keep their placement.
\<close>

theorem move_carries_open_rate:
  assumes "(staff_step kc del org)\<^sup>*\<^sup>* (t0, w0, s0) (today, w, s)" "no_staff s0"
    and "primary_assignment_on s e today = Inr (Some c)" "ea_department_id c \<noteq> Some dept"
    and "move_department s e dept effective today = Inr s'"
    and "r \<in> set (assignment_rates s)" "open_regular (ea_assignment_id c) r" "ar_amount r = Some v"
  shows "\<exists>m c'. ea_department_id m = Some dept \<and> ea_effective_from m = effective \<and> ea_department_id c' = ea_department_id c
    \<and> (\<forall>d \<ge> effective. primary_assignment_on s' e d = Inr (Some m) \<and> rate_on s' (ea_assignment_id m) ''regular'' d = Inr (Some v))
    \<and> (\<forall>d. ea_effective_from c \<le> d \<and> d < effective \<longrightarrow> primary_assignment_on s' e d = Inr (Some c'))"
proof -
  have wf: "staff_wf today s" using assms(1,2) by (rule staff_reach_wf)
  then have pwf: "placements_wf today s'" using move_placements assms(5) by (auto simp: staff_wf_def)
  let ?m = "moved_placement s c dept effective" and ?c = "c\<lparr>ea_effective_to := Some effective\<rparr>"
  note cin = primary_assignment_in [OF assms(3)]
  have one: "primary_assignment_on s' e d = Inr (Some a)" if a: "a \<in> set (assignments s')" "ea_employee_id a = e" "ea_is_primary a" "in_effect_on a d" for a d
  proof -
    obtain q where q: "primary_assignment_on s' e d = Inr q" using primary_total pwf by (metis placements_wf_def)
    have "q \<noteq> None" using q a by (auto simp: primary_assignment_on_def filter_empty_conv set_assignments_on split: list.splits)
    then obtain b where b: "q = Some b" by blast
    have "a = b" using primary_assignment_in(1,2) [OF q [unfolded b]] a pwf unfolding placements_wf_def disjoint_rows_def primary_rows_def by blast
    then show ?thesis using q b by simp
  qed
  from assms(5) show ?thesis
  proof (cases rule: move_cases)
    case 1
    then show ?thesis using move_adds_row [OF assms(5,3,4)] by simp
  next
    case (2 c0 rates)
    have c0: "c0 = c" using 2(1) assms(3) by simp
    have "r \<in> set (filter (open_regular (ea_assignment_id c)) (assignment_rates s))" using assms(6,7) by simp
    with 2(4) [unfolded c0 scalar_one_or_none_eq_Inr_iff] have rates: "rates = Some r"
      by (elim disjE exE conjE) (simp_all only: list.set empty_iff insert_iff simp_thms)
    let ?n = "next_id (map ea_assignment_id (assignments s))"
    have m: "?m \<in> set (assignments s')" by (simp add: 2(5) c0)
    have c': "?c \<in> set (assignments s')" using cin(3) by (auto simp: 2(5) c0 image_iff intro!: bexI [of _ c])
    have "?n \<notin> ea_assignment_id ` set (assignments s)" using next_id_fresh [of "map ea_assignment_id (assignments s)"] by simp
    then have "ar_assignment_id x \<noteq> ?n" if "x \<in> set (assignment_rates s)" for x
      using wf that unfolding staff_wf_def rates_wf_def by (metis imageI subsetD)
    then have old: "rates_of (assignment_rates s) ?n ''regular'' = []" by (auto simp: rates_of_def filter_empty_conv)
    have rate: "rate_on s' ?n ''regular'' d = Inr (Some v)" if "effective \<le> d" for d
      using that unfolding rate_on_regular stored_rate_rows 2(5) c0 rates
      by (simp add: old rates_of_def [of "[_]"] covers_def decode_def assms(8))
    have "primary_assignment_on s' e d = Inr (Some ?m)" if "effective \<le> d" for d
      by (rule one [OF m]) (use that cin in \<open>simp_all add: in_effect_on_iff\<close>)
    moreover have "primary_assignment_on s' e d = Inr (Some ?c)" if "ea_effective_from c \<le> d \<and> d < effective" for d
      by (rule one [OF c']) (use that cin in \<open>simp_all add: in_effect_on_iff\<close>)
    ultimately show ?thesis using rate by (intro exI [of _ ?m] exI [of _ ?c]) simp
  qed
qed


lemma terminated_status:
  assumes "terminate kc del org p e today w s = (w', Inr (s1, d))" "get_employee s1 e = Some em"
  shows "em_employment_status em = ''terminated''"
proof -
  obtain A F where s1: "s1 = (end_employment e today s)\<lparr>face_templates := F, audit_events := A\<rparr>" using assms(1) by (rule terminate_cases)
  have "em \<in> set (employees s1)" and id: "em_employee_id em = e" using assms(2) by (auto simp: get_employee_def find_Some_iff)
  moreover have "set (employees s1) = (\<lambda>x. if em_employee_id x = e then x\<lparr>em_termination_date := Some today, em_employment_status := ''terminated''\<rparr> else x) ` set (employees s)"
    unfolding s1 end_employment_def set_employee_def Let_def by simp
  ultimately obtain x where "em = (if em_employee_id x = e then x\<lparr>em_termination_date := Some today, em_employment_status := ''terminated''\<rparr> else x)"
    by blast
  with id show ?thesis by (cases "em_employee_id x = e") simp_all
qed

text \<open>
  C16. Ending employment does not keep the employee from being placed again.  An edit on the day of the termination that changes any
  placement opens a new primary placement without an end for an employee whose record says terminated: the closed placement still
  counts as in force on its last day, and the move is made from it.
\<close>

theorem move_reopens_terminated:
  assumes "terminate kc del org p e today w s = (w', Inr (s1, d))"
    and "patch_employee s1 q e b today = Inr (s2, m)" "assignments s2 \<noteq> assignments s1"
  shows "em_employment_status m = ''terminated'' \<and> (\<exists>a \<in> set (assignments s2). open_primary a \<and> ea_employee_id a = e)"
proof
  obtain em where em: "check_patch s1 q e b today = Inr em" "patch_fields b em = Inr m"
    using assms(2) by (auto simp: patch_employee_def Let_def inr)
  then have g: "get_employee s1 e = Some em" and n: "em_employment_status em = ''terminated'' \<longrightarrow> pb_employment_status b = None"
    by (auto simp: check_patch_def inr split: if_splits option.splits)
  have "em_employment_status em = ''terminated''" using assms(1) g by (rule terminated_status)
  with n em(2) show "em_employment_status m = ''terminated''" by (auto simp: patch_fields_def split: if_splits)
  from assms(2) obtain s3 A dept where s2: "s2 = s3\<lparr>audit_events := A\<rparr>"
    and mv: "move_department (set_employee e (\<lambda>_. m) s1) e dept (case pb_effective_from b of None \<Rightarrow> today | Some x \<Rightarrow> x) today = Inr s3"
    by (rule patch_cases) (use assms(3) in \<open>auto simp: set_employee_def\<close>)
  from mv show "\<exists>a \<in> set (assignments s2). open_primary a \<and> ea_employee_id a = e"
  proof (cases rule: move_cases)
    case 1
    then show ?thesis using assms(3) by (simp add: s2 set_employee_def)
  next
    case (2 c rates)
    note cin = primary_assignment_in [OF 2(1)]
    show ?thesis
      by (rule bexI [of _ "moved_placement (set_employee e (\<lambda>_. m) s1) c dept (case pb_effective_from b of None \<Rightarrow> today | Some x \<Rightarrow> x)"])
        (use cin in \<open>simp_all add: s2 2(5) open_primary_def\<close>)
  qed
qed

text \<open>
  C13. The last card of a leaver reaches nobody.  After employment is ended, a card of the employee whose period runs past that day
  answers 409 to every approver on every route: it can be neither read, nor approved, nor reopened, nor corrected, so its worked
  hours are never filed or paid.  (Placements that were not active before count only where they had ended by the period's last day.)
\<close>

theorem leavers_card_unreachable:
  assumes "terminate kc del org p e today w s = (w', Inr (s1, d))"
    and "get_timecard_row s1 i = Some c" "tc_employee_id c = e" "today < tc_period_end c"
    and "\<forall>a \<in> set (assignments s). ea_employee_id a = e \<and> ea_status a \<noteq> ''active'' \<longrightarrow> \<not> covers (ea_effective_from a) (ea_effective_to a) (tc_period_end c)"
    and "require_approver s1 q = Inr ()"
  shows "get_timecard s1 q i = Inl (HTTPException 409) \<and> approve_timecard sha256 tz cfg s1 q i acknowledged now = Inl (HTTPException 409)
    \<and> reopen_timecard sha256 cfg s1 q i now = Inl (HTTPException 409)
    \<and> (add_adjustment s1 q i b = Inl (HTTPException 409) \<or> add_adjustment s1 q i b = Inl (HTTPException 422))"
proof (rule final_card_unreachable [OF assms(2,6)])
  obtain A F where "s1 = (end_employment e today s)\<lparr>face_templates := F, audit_events := A\<rparr>" using assms(1) by (rule terminate_cases)
  then have "assignments s1 = map (\<lambda>a. if ea_employee_id a = e \<and> ea_status a = ''active'' then close_placement today a else a) (assignments s)"
    by (simp add: end_employment_tables)
  moreover have "\<not> covers (ea_effective_from (close_placement today a)) (ea_effective_to (close_placement today a)) (tc_period_end c)" for a
    using assms(4) by (auto simp: close_placement_def covers_def split: option.splits)
  ultimately show "\<forall>a \<in> set (assignments s1). ea_employee_id a = tc_employee_id c \<and> ea_is_primary a
      \<longrightarrow> \<not> covers (ea_effective_from a) (ea_effective_to a) (tc_period_end c)"
    using assms(3,5) by (auto split: if_splits)
qed

end
