(* ===== verification/Earnings.thy ===== *)
theory Earnings
  imports Workforce Floor
begin

text \<open>
  What \<^verbatim>\<open>GET /api/employees/work\<close> discloses: the hours of the facts in the caller's scope, and money only to a rate editor, each
  person's with a line of its own in the audit trail.
\<close>

section \<open>Sums over groups\<close>

definition group_total :: "('k \<Rightarrow> bool) \<Rightarrow> ('a \<Rightarrow> decimal) \<Rightarrow> ('k, 'a list) dict \<Rightarrow> decimal" where
  "group_total P h d = (\<Sum>(k, v) \<leftarrow> d. if P k then sum_list (map h v) else 0)"

lemma group_total_append:
  "distinct (keys d) \<Longrightarrow> group_total P h (dict_append k x d) = group_total P h d + (if P k then h x else 0)"
proof (induction d)
  case (Cons kv d)
  obtain j v where kv: "kv = (j, v)" by (cases kv)
  show ?case
  proof (cases "j = k")
    case True
    then show ?thesis by (simp add: kv dict_append_def group_total_def)
  next
    case False
    then have "dict_append k x (kv # d) = kv # dict_append k x d" by (simp add: kv dict_append_def)
    then show ?thesis using Cons by (simp add: kv group_total_def)
  qed
qed (simp add: dict_append_def group_total_def)

lemma group_total_group_by: "group_total P h (group_by f xs) = sum_list (map h (filter (\<lambda>x. P (f x)) xs))"
proof -
  have "group_total P h (fold (\<lambda>x d. dict_append (f x) x d) xs d) = group_total P h d + sum_list (map h (filter (\<lambda>x. P (f x)) xs))"
    if "distinct (keys d)" for d
    using that by (induction xs arbitrary: d) (simp_all add: group_total_append)
  from this [of "[]"] show ?thesis by (simp add: group_by_def group_total_def)
qed

section \<open>The totals\<close>

text \<open>The facts that count for an employee: on a card of the employee, in the window, in the caller's scope.\<close>

definition facts_in_view :: "db \<Rightarrow> Scope \<Rightarrow> date \<Rightarrow> date \<Rightarrow> string option \<Rightarrow> int \<Rightarrow> UsaliLaborFact list" where
  "facts_in_view s scope date_from date_to property_id e =
     [f. f \<leftarrow> labor_facts s, c \<leftarrow> timecards s, tc_timecard_id c = lf_timecard_id f, tc_employee_id c = e,
         date_from \<le> lf_business_date f \<and> lf_business_date f \<le> date_to,
         case property_id of None \<Rightarrow> True | Some q \<Rightarrow> q = [] \<or> lf_property_id f = q,
         in_view scope (lf_property_id f) (lf_department_id f)]"

lemma add_work_get:
  "dict_get (add_work scope ((i, q, d), fs) t) e (0, 0, 0) =
    (if i = e \<and> in_view scope q d
     then (fst (dict_get t e (0, 0, 0)) + sum_list (map lf_hours fs), fst (snd (dict_get t e (0, 0, 0))) + sum_list (map lf_ot_hours fs),
           snd (snd (dict_get t e (0, 0, 0))) + sum_list (map lf_est_cost fs))
     else dict_get t e (0, 0, 0))"
  by (cases "dict_get t i (0, 0, 0)") auto

lemma add_work_keys:
  "fst ` set (add_work scope ((i, q, d), fs) t) = fst ` set t \<union> (if in_view scope q d then {i} else {})"
  "distinct (map fst t) \<Longrightarrow> distinct (map fst (add_work scope ((i, q, d), fs) t))"
  by (cases "dict_get t i (0, 0, 0)"; simp add: dom_update distinct_update)+

lemma work_totals_get:
  fixes scope :: Scope
  defines "P \<equiv> \<lambda>e (i, q, d). i = e \<and> in_view scope q d"
  shows "dict_get (fold (add_work scope) rows t) e (0, 0, 0)
    = (fst (dict_get t e (0, 0, 0)) + group_total (P e) lf_hours rows, fst (snd (dict_get t e (0, 0, 0))) + group_total (P e) lf_ot_hours rows,
       snd (snd (dict_get t e (0, 0, 0))) + group_total (P e) lf_est_cost rows)"
proof (induction rows arbitrary: t)
  case Nil
  show ?case by (simp add: group_total_def)
next
  case (Cons r rows)
  obtain i q d fs where r: "r = ((i, q, d), fs)" by (metis prod.exhaust)
  show ?case unfolding fold_Cons comp_def Cons.IH r add_work_get by (simp add: P_def group_total_def)
qed

lemma work_totals_keys:
  "fst ` set (fold (add_work scope) rows t) = fst ` set t \<union> {e. \<exists>q d fs. ((e, q, d), fs) \<in> set rows \<and> in_view scope q d}"
  "distinct (map fst t) \<Longrightarrow> distinct (map fst (fold (add_work scope) rows t))"
proof (induction rows arbitrary: t)
  case (Cons r rows)
  obtain i q d fs where r: "r = ((i, q, d), fs)" by (metis prod.exhaust)
  { case 1 show ?case unfolding fold_Cons comp_def Cons.IH(1) r add_work_keys(1) by auto }
  { case 2 then show ?case unfolding fold_Cons comp_def r by (intro Cons.IH(2) add_work_keys(2)) }
qed simp_all

lemma pairs_filter:
  "map snd (filter Q [(c, f). f \<leftarrow> fs, c \<leftarrow> cs, A c f, B f, C f]) = [f. f \<leftarrow> fs, c \<leftarrow> cs, A c f, B f, C f, Q (c, f)]"
proof -
  have one: "map snd (filter Q (concat (map (\<lambda>c. if A c f then if B f then if C f then [(c, f)] else [] else [] else []) cs)))
      = concat (map (\<lambda>c. if A c f then if B f then if C f then if Q (c, f) then [f] else [] else [] else [] else []) cs)" for f
    by (induction cs) auto
  show ?thesis by (induction fs) (simp_all add: one)
qed


abbreviation work_pairs :: "db \<Rightarrow> date \<Rightarrow> date \<Rightarrow> string option \<Rightarrow> (Timecard \<times> UsaliLaborFact) list" where
  "work_pairs s date_from date_to property_id \<equiv> [(c, f). f \<leftarrow> labor_facts s, c \<leftarrow> timecards s, tc_timecard_id c = lf_timecard_id f,
      date_from \<le> lf_business_date f \<and> lf_business_date f \<le> date_to, case property_id of None \<Rightarrow> True | Some q \<Rightarrow> q = [] \<or> lf_property_id f = q]"

abbreviation work_key :: "Timecard \<times> UsaliLaborFact \<Rightarrow> int \<times> string \<times> int option" where
  "work_key \<equiv> \<lambda>(c, f). (tc_employee_id c, lf_property_id f, lf_department_id f)"

abbreviation sees :: "Scope \<Rightarrow> int \<Rightarrow> int \<times> string \<times> int option \<Rightarrow> bool" where
  "sees scope e \<equiv> \<lambda>(i, q, d). i = e \<and> in_view scope q d"

lemma facts_in_view_pairs:
  "facts_in_view s scope date_from date_to property_id e
   = map snd (filter (\<lambda>x. sees scope e (work_key x)) (work_pairs s date_from date_to property_id))"
  unfolding pairs_filter facts_in_view_def by (intro arg_cong [where f = concat] map_cong refl) auto

lemma work_rows_total:
  "group_total (sees scope e) h (work_rows s date_from date_to property_id)
   = sum_list (map h (facts_in_view s scope date_from date_to property_id e))"
proof -
  have "group_total P h (map (\<lambda>(k, rows). (k, map snd rows)) d) = group_total P (\<lambda>x. h (snd x)) d"
    for P and d :: "((int \<times> string \<times> int option), (Timecard \<times> UsaliLaborFact) list) dict"
    by (induction d) (auto simp: group_total_def comp_def)
  then have "group_total (sees scope e) h (work_rows s date_from date_to property_id)
      = sum_list (map (\<lambda>x. h (snd x)) (filter (\<lambda>x. sees scope e (work_key x)) (work_pairs s date_from date_to property_id)))"
    unfolding work_rows_def by (simp only: group_total_group_by)
  then show ?thesis unfolding facts_in_view_pairs by (simp only: map_map comp_def)
qed

lemma groups_in_view:
  "(\<exists>q d fs. ((e, q, d), fs) \<in> set (map (\<lambda>(k, rows). (k, map snd rows)) (group_by work_key xs)) \<and> in_view scope q d)
   \<longleftrightarrow> filter (\<lambda>x. sees scope e (work_key x)) xs \<noteq> []"
proof -
  have entries: "(k, fs) \<in> set (map (\<lambda>(k, rows). (k, map snd rows)) d) \<longleftrightarrow> (\<exists>rs. (k, rs) \<in> set d \<and> fs = map snd rs)"
    for k fs and d :: "((int \<times> string \<times> int option), (Timecard \<times> UsaliLaborFact) list) dict"
    by (induction d) auto
  have "(k, fs) \<in> set (map (\<lambda>(k, rows). (k, map snd rows)) (group_by work_key xs))
      \<longleftrightarrow> k \<in> work_key ` set xs \<and> fs = map snd (filter (\<lambda>x. work_key x = k) xs)" for k fs
    unfolding entries group_by_entry by (simp only: conj_assoc ex_simps simp_thms)
  then have "(\<exists>q d fs. ((e, q, d), fs) \<in> set (map (\<lambda>(k, rows). (k, map snd rows)) (group_by work_key xs)) \<and> in_view scope q d)
      \<longleftrightarrow> (\<exists>q d. (e, q, d) \<in> work_key ` set xs \<and> in_view scope q d)" by simp
  also have "\<dots> \<longleftrightarrow> (\<exists>x \<in> set xs. sees scope e (work_key x))" by (force simp: image_iff)
  finally show ?thesis by (simp add: filter_empty_conv)
qed

lemma work_rows_entry:
  "(\<exists>q d fs. ((e, q, d), fs) \<in> set (work_rows s date_from date_to property_id) \<and> in_view scope q d)
   \<longleftrightarrow> facts_in_view s scope date_from date_to property_id e \<noteq> []"
  unfolding work_rows_def groups_in_view facts_in_view_pairs by (simp only: map_is_Nil_conv)

section \<open>Properties\<close>

text \<open>
  C15. Money is shown to rate editors only, and each person's is written down.  The answer has one line per employee with a fact in the
  window and in the caller's scope, in order and once, with the exact sums of those facts.  The cost is given to a caller who
  may edit rates, and withheld from every other; and where it is given, the audit trail gains a line for each employee listed, beside the
  one for the window.
\<close>

theorem earnings_gate:
  assumes "employee_work s p date_from date_to property_id = Inr (s', rows)"
  defines "fs \<equiv> facts_in_view s (resolve_scope p s) date_from date_to property_id"
    and "editor \<equiv> effective_roles s (pi_subject p) \<inter> {''payroll_admin'', ''org_admin'', ''property_gm''} \<noteq> {}"
  shows "sorted (map wm_employee_id rows) \<and> distinct (map wm_employee_id rows) \<and> wm_employee_id ` set rows = {e. fs e \<noteq> []}
    \<and> (\<forall>r \<in> set rows. wm_hours r = sum_list (map lf_hours (fs (wm_employee_id r)))
        \<and> wm_ot_hours r = sum_list (map lf_ot_hours (fs (wm_employee_id r)))
        \<and> wm_est_cost r = (if editor then Some (sum_list (map lf_est_cost (fs (wm_employee_id r)))) else None))
    \<and> (\<exists>window. audit_events s' = audit_events s
        @ [\<lparr>au_actor_subject = pi_subject p, au_action = ''read_employee_work'', au_resource_type = ''property'', au_resource_id = window\<rparr>]
        @ (if editor then map (\<lambda>r. \<lparr>au_actor_subject = pi_subject p, au_action = ''read_employee_earnings'', au_resource_type = ''employee'',
              au_resource_id = str_int (wm_employee_id r)\<rparr>) rows else []))"
proof -
  define totals where "totals = work_totals (resolve_scope p s) (work_rows s date_from date_to property_id)"
  define ids where "ids = sort (map fst totals)"
  define row where "row = (\<lambda>i. let (h, ot, c) = dict_get totals i (0, 0, 0)
      in \<lparr>wm_employee_id = i, wm_hours = h, wm_ot_hours = ot, wm_est_cost = (if editor then Some c else None)\<rparr>)"
  have ed: "effective_roles s (pi_subject p) \<inter> set RATE_EDITORS \<noteq> {} \<longleftrightarrow> editor" by (simp add: editor_def RATE_EDITORS_def)
  obtain window where rows: "rows = map row ids"
    and s': "s' = (if editor then fold (\<lambda>i. audit_row (pi_subject p) ''read_employee_earnings'' ''employee'' (str_int i)) ids
      (audit_row (pi_subject p) ''read_employee_work'' ''property'' window s) else audit_row (pi_subject p) ''read_employee_work'' ''property'' window s)"
    using assms(1) unfolding employee_work_def Let_def ed row_def ids_def totals_def
    by (auto simp: inr split: if_split_asm)
  have get: "dict_get totals e (0, 0, 0) = (sum_list (map lf_hours (fs e)), sum_list (map lf_ot_hours (fs e)), sum_list (map lf_est_cost (fs e)))" for e
    unfolding totals_def work_totals_def work_totals_get work_rows_total by (simp add: fs_def)
  have row_simps: "row i = \<lparr>wm_employee_id = i, wm_hours = sum_list (map lf_hours (fs i)), wm_ot_hours = sum_list (map lf_ot_hours (fs i)),
      wm_est_cost = (if editor then Some (sum_list (map lf_est_cost (fs i))) else None)\<rparr>" for i
    by (simp add: row_def get)
  have dk: "distinct (map fst totals)" unfolding totals_def work_totals_def by (rule work_totals_keys(2)) simp
  have sk: "fst ` set totals = {e. fs e \<noteq> []}"
    unfolding totals_def work_totals_def work_totals_keys work_rows_entry by (simp add: fs_def)
  have "map wm_employee_id rows = ids" by (simp add: rows row_simps comp_def)
  moreover from this have "wm_employee_id ` set rows = {e. fs e \<noteq> []}" by (metis ids_def list.set_map set_sort sk)
  moreover have "sorted ids" "distinct ids" using dk by (simp_all add: ids_def)
  moreover have "\<forall>r \<in> set rows. wm_hours r = sum_list (map lf_hours (fs (wm_employee_id r)))
        \<and> wm_ot_hours r = sum_list (map lf_ot_hours (fs (wm_employee_id r)))
        \<and> wm_est_cost r = (if editor then Some (sum_list (map lf_est_cost (fs (wm_employee_id r)))) else None)"
    by (auto simp: rows row_simps)
  moreover have "audit_events s' = audit_events s
        @ [\<lparr>au_actor_subject = pi_subject p, au_action = ''read_employee_work'', au_resource_type = ''property'', au_resource_id = window\<rparr>]
        @ (if editor then map (\<lambda>r. \<lparr>au_actor_subject = pi_subject p, au_action = ''read_employee_earnings'', au_resource_type = ''employee'',
              au_resource_id = str_int (wm_employee_id r)\<rparr>) rows else [])"
    by (simp add: s' fold_audit_rows audit_row_def rows row_simps comp_def)
  ultimately show ?thesis by auto
qed

end
