(* ===== verification/FloorExample.thy ===== *)
theory FloorExample
  imports Floor
begin

text \<open>
  One shift through the doors: an employee clocks in and out at a kiosk, and a manager approves the card after the
  period.  The states of this run are the witnesses of the properties of the doors.
\<close>

definition tz0 :: tzdb where "tz0 = (\<lambda>_. Some (\<lambda>_. 0))"

definition cfg0 :: Settings where
  "cfg0 = \<lparr>punch_business_day_cutoff_hour = 0, payroll_period_anchor = 719163, biometric_matching_enabled = False, face_match_threshold = 1\<rparr>"

definition no_engine :: "unit FaceEngine" where
  "no_engine = \<lparr>fe_model_version = [], fe_embed_largest_face = \<lambda>_. None, fe_cosine = \<lambda>_ _. None\<rparr>"

definition boss :: Principal where
  "boss = \<lparr>pi_subject = ''boss'', pi_roles = [''org_admin''], pi_scopes = None, pi_org_aliases = None\<rparr>"

definition lobby :: KioskDevice where
  "lobby = \<lparr>kd_device_id = 1, kd_property_id = ''SJCES'', kd_name = ''Lobby'', kd_token_hash = ''tok'',
     kd_enrolled_by = ''boss'', kd_last_seen_at = None, kd_revoked_at = None\<rparr>"

definition floor_db :: db where
  "floor_db = empty_db\<lparr>
     properties := [\<lparr>pr_property_id = ''SJCES'', pr_timezone = ''UTC'', pr_wage_jurisdiction = Some ''US''\<rparr>],
     employees := [\<lparr>em_employee_id = 7, em_keycloak_subject = None, em_full_name = ''Ana Ruiz'', em_pay_type = ''hourly'',
       em_full_part_time = None, em_i9_submitted_on = None, em_w4_submitted_on = None, em_employment_status = ''active'',
       em_payroll_data_complete = True, em_hire_date = None, em_termination_date = None, em_compensation_note = None\<rparr>],
     assignments := [\<lparr>ea_assignment_id = 1, ea_employee_id = 7, ea_property_id = ''SJCES'', ea_department_id = None,
       ea_position_id = None, ea_is_primary = True, ea_status = ''active'', ea_effective_from = 719000, ea_effective_to = None\<rparr>],
     role_assignments := [\<lparr>ra_keycloak_subject = ''boss'', ra_role = ''org_admin'', ra_property_id = None, ra_department_id = None\<rparr>],
     devices := [lobby]\<rparr>"

definition in_punch :: Punch where
  "in_punch = \<lparr>pn_punch_id = 1, pn_employee_id = 7, pn_kiosk_device_id = 1, pn_punch_type = ''clock_in'', pn_punched_at = 8 * hour,
     pn_business_date = 719163, pn_photo_key = Some (photo_key_for 1 ''SJCES'' 719163 ''a''), pn_timecard_id = None, pn_match_state = None\<rparr>"

definition out_punch :: Punch where
  "out_punch = \<lparr>pn_punch_id = 2, pn_employee_id = 7, pn_kiosk_device_id = 1, pn_punch_type = ''clock_out'', pn_punched_at = 9 * hour,
     pn_business_date = 719163, pn_photo_key = Some (photo_key_for 1 ''SJCES'' 719163 ''b''), pn_timecard_id = None, pn_match_state = None\<rparr>"

definition shift_card :: Timecard where
  "shift_card = \<lparr>tc_timecard_id = 1, tc_employee_id = 7, tc_period_start = 719163, tc_period_end = 719176, tc_status = ''open'',
     tc_approved_by = None, tc_approved_at = None, tc_photos_purged_at = None\<rparr>"

abbreviation "linked p \<equiv> p\<lparr>pn_timecard_id := Some 1\<rparr>"
abbreviation "seen t \<equiv> lobby\<lparr>kd_last_seen_at := Some t\<rparr>"

definition clocked_in :: db where
  "clocked_in = floor_db\<lparr>devices := [seen (8 * hour)], punches := [linked in_punch], timecards := [shift_card]\<rparr>"

definition clocked_out :: db where
  "clocked_out = floor_db\<lparr>devices := [seen (9 * hour)], punches := [linked in_punch, linked out_punch], timecards := [shift_card]\<rparr>"

lemma numbers [simp]: "hour = 3600000000" "minute = 60000000" "day = 86400000000"
  by (simp_all add: hour_def minute_def day_def)

lemma auth_in: "require_kiosk_device id floor_db (Some ''tok'') (8 * hour) = Inr (floor_db\<lparr>devices := [seen (8 * hour)]\<rparr>, seen (8 * hour))"
  by (simp add: require_kiosk_device_def floor_db_def lobby_def scalar_one_or_none_def set_device_def)

lemma auth_out: "require_kiosk_device id clocked_in (Some ''tok'') (9 * hour) = Inr (clocked_in\<lparr>devices := [seen (9 * hour)]\<rparr>, seen (9 * hour))"
  by (simp add: require_kiosk_device_def clocked_in_def lobby_def scalar_one_or_none_def set_device_def)

lemma staff_ok:
  assumes "employees s = employees floor_db" "assignments s = assignments floor_db" "properties s = properties floor_db"
    "kd_property_id d = ''SJCES''" "0 \<le> now"
  shows "\<exists>e. require_staff tz0 cfg0 s d 7 now = Inr e"
proof -
  have "0 \<le> now div 86400000000" using assms(5) by simp
  then show ?thesis using assms(1-4)
    by (simp add: require_staff_def get_employee_def floor_db_def property_business_date_def get_property_def business_date_for_def tz0_def
        cfg0_def local_date_def EPOCH_ORDINAL_def employee_serves_property_def property_ids_on_def assignments_on_def in_effect_on_def covers_def)
qed

lemma check_in: "check_punch tz0 cfg0 (floor_db\<lparr>devices := [seen (8 * hour)]\<rparr>) 1 (seen (8 * hour)) 7 ''clock_in'' JPEG_MAGIC ''a'' (8 * hour)
    = Inr (719163, photo_key_for 1 ''SJCES'' 719163 ''a'')"
proof -
  let ?s = "floor_db\<lparr>devices := [seen (8 * hour)]\<rparr>"
  obtain e where e: "require_staff tz0 cfg0 ?s (seen (8 * hour)) 7 (8 * hour) = Inr e"
    using staff_ok [of ?s "seen (8 * hour)" "8 * hour"] by (auto simp: lobby_def)
  have "punches ?s = []" by (simp add: floor_db_def empty_db_def)
  then have r: "\<not> recent_punch ?s 7 ''clock_in'' (8 * hour)" "punch_state ?s 7 (8 * hour) = Out"
    by (simp_all add: recent_punch_def punch_state_def)
  show ?thesis unfolding check_punch_def e bindE_simps
    using r by (simp add: PUNCH_ORDER_def refuse_punch_None assert_some_def get_property_def floor_db_def lobby_def
        business_date_for_def tz0_def cfg0_def local_date_def EPOCH_ORDINAL_def MAX_PHOTO_BYTES_def JPEG_MAGIC_def)
qed
lemma check_out: "check_punch tz0 cfg0 (clocked_in\<lparr>devices := [seen (9 * hour)]\<rparr>) 1 (seen (9 * hour)) 7 ''clock_out'' JPEG_MAGIC ''b'' (9 * hour)
    = Inr (719163, photo_key_for 1 ''SJCES'' 719163 ''b'')"
proof -
  let ?s = "clocked_in\<lparr>devices := [seen (9 * hour)]\<rparr>"
  obtain e where e: "require_staff tz0 cfg0 ?s (seen (9 * hour)) 7 (9 * hour) = Inr e"
    using staff_ok [of ?s "seen (9 * hour)" "9 * hour"] by (auto simp: lobby_def clocked_in_def)
  have p: "punches ?s = [linked in_punch]" by (simp add: clocked_in_def)
  then have r: "\<not> recent_punch ?s 7 ''clock_out'' (9 * hour)" "punch_state ?s 7 (9 * hour) = In"
    by (simp_all add: recent_punch_def punch_state_def in_punch_def STATE_AFTER_def OPEN_SHIFT_MAX_HOURS_def)
  show ?thesis unfolding check_punch_def e bindE_simps
    using r by (simp add: PUNCH_ORDER_def refuse_punch_None assert_some_def get_property_def clocked_in_def floor_db_def lobby_def
        business_date_for_def tz0_def cfg0_def local_date_def EPOCH_ORDINAL_def MAX_PHOTO_BYTES_def JPEG_MAGIC_def)
qed

lemma shift_period: "period_for 719163 719163 = (719163, 719176)"
  by (simp add: period_for_def PERIOD_DAYS_def)

lemma anchor0 [simp]: "payroll_period_anchor cfg0 = 719163"
  by (simp add: cfg0_def)

lemma punch_in: "\<exists>st' row. punch tz0 cfg0 no_engine memory_store 1 (seen (8 * hour)) 7 ''clock_in'' JPEG_MAGIC ''a'' (8 * hour) st
     (floor_db\<lparr>devices := [seen (8 * hour)]\<rparr>) = (st', Inr (clocked_in, row))"
proof -
  let ?s = "floor_db\<lparr>devices := [seen (8 * hour)]\<rparr>"
  have v: "verify_punch_photo cfg0 no_engine ?s 7 (kd_property_id (seen (8 * hour))) JPEG_MAGIC = None"
    by (simp add: verify_punch_photo_def matching_available_def cfg0_def)
  have row: "new_punch ?s (seen (8 * hour)) 7 ''clock_in'' (8 * hour) 719163 (photo_key_for 1 ''SJCES'' 719163 ''a'') None = in_punch"
    by (simp add: new_punch_def in_punch_def floor_db_def empty_db_def next_id_def lobby_def)
  have as: "assemble_timecard (?s\<lparr>punches := punches ?s @ [in_punch]\<rparr>) 7 719163 719163 = Inr (clocked_in, shift_card)"
    by (simp add: assemble_timecard_def shift_period floor_db_def empty_db_def scalar_one_or_none_def next_id_def link_punches_def
        in_punch_def clocked_in_def shift_card_def Let_def)
  show ?thesis
    unfolding punch_def check_in sum.case prod.case v row Let_def anchor0 as by (simp add: memory_store_def)
qed

lemma punch_out: "\<exists>st' row. punch tz0 cfg0 no_engine memory_store 1 (seen (9 * hour)) 7 ''clock_out'' JPEG_MAGIC ''b'' (9 * hour) st
     (clocked_in\<lparr>devices := [seen (9 * hour)]\<rparr>) = (st', Inr (clocked_out, row))"
proof -
  let ?s = "clocked_in\<lparr>devices := [seen (9 * hour)]\<rparr>"
  have v: "verify_punch_photo cfg0 no_engine ?s 7 (kd_property_id (seen (9 * hour))) JPEG_MAGIC = None"
    by (simp add: verify_punch_photo_def matching_available_def cfg0_def)
  have row: "new_punch ?s (seen (9 * hour)) 7 ''clock_out'' (9 * hour) 719163 (photo_key_for 1 ''SJCES'' 719163 ''b'') None = out_punch"
    by (simp add: new_punch_def in_punch_def out_punch_def clocked_in_def next_id_def lobby_def)
  have as: "assemble_timecard (?s\<lparr>punches := punches ?s @ [out_punch]\<rparr>) 7 719163 719163 = Inr (clocked_out, shift_card)"
    by (simp add: assemble_timecard_def shift_period scalar_one_or_none_def link_punches_def
        in_punch_def out_punch_def clocked_in_def clocked_out_def shift_card_def Let_def)
  show ?thesis
    unfolding punch_def check_out sum.case prod.case v row Let_def anchor0 as by (simp add: memory_store_def)
qed

abbreviation example_step where
  "example_step \<equiv> floor_step id tz0 cfg0 no_engine memory_store (\<lambda>key st. Some (AList.delete key st)) 1"

lemma reach_out: "\<exists>st'. example_step\<^sup>*\<^sup>* (0, [], floor_db) (9 * hour, st', clocked_out)"
proof -
  obtain st1 row1 where 1: "punch tz0 cfg0 no_engine memory_store 1 (seen (8 * hour)) 7 ''clock_in'' JPEG_MAGIC ''a'' (8 * hour) []
     (floor_db\<lparr>devices := [seen (8 * hour)]\<rparr>) = (st1, Inr (clocked_in, row1))" using punch_in by blast
  obtain st2 row2 where 2: "punch tz0 cfg0 no_engine memory_store 1 (seen (9 * hour)) 7 ''clock_out'' JPEG_MAGIC ''b'' (9 * hour) st1
     (clocked_in\<lparr>devices := [seen (9 * hour)]\<rparr>) = (st2, Inr (clocked_out, row2))" using punch_out by blast
  have "example_step (0, [], floor_db) (8 * hour, st1, clocked_in)" by (rule floor_step.punch [OF auth_in _ 1]) simp
  moreover have "example_step (8 * hour, st1, clocked_in) (9 * hour, st2, clocked_out)" by (rule floor_step.punch [OF auth_out _ 2]) simp
  ultimately show ?thesis by (meson converse_rtranclp_into_rtranclp r_into_rtranclp)
qed

section \<open>The approval\<close>

definition signed_card :: Timecard where
  "signed_card = shift_card\<lparr>tc_status := ''approved'', tc_approved_by := Some ''boss'', tc_approved_at := Some (20 * day)\<rparr>"

definition signing :: db where
  "signing = clocked_out\<lparr>timecards := [signed_card],
     audit_events := [\<lparr>au_actor_subject = ''boss'', au_action = ''approve_timecard'', au_resource_type = ''timecard'', au_resource_id = str_int 1\<rparr>]\<rparr>"

definition shift_fact :: UsaliLaborFact where
  "shift_fact = \<lparr>lf_property_id = ''SJCES'', lf_business_date = 719163, lf_department_id = None, lf_hours = 1,
     lf_ot_hours = 0, lf_est_cost = 0, lf_timecard_id = 1\<rparr>"

definition signed :: db where
  "signed = signing\<lparr>labor_facts := [shift_fact]\<rparr>"

abbreviation shift_day :: DayResult where
  "shift_day \<equiv> \<lparr>dr_business_date = 719163, dr_worked_minutes = 60, dr_warnings = [], dr_property_minutes = [(Some ''SJCES'', 60)]\<rparr>"

lemma shift_apportion: "apportion str_opt 60 [(Some ''SJCES'', 60)] 1 = Inr [(Some ''SJCES'', 60)]"
proof -
  have "ddiv 3600 60 = 60" using ctx_of_int [of 60] by (simp add: ddiv_def prec_def)
  moreover have "ddiv 0 1 = 0" by (simp add: ddiv_def)
  ultimately show ?thesis
    by (simp add: apportion_def quantize_def round_int_def prec_def half_even_def require_def)
qed

lemma shift_days:
  assumes "tc_timecard_id c = 1" "punches s = punches clocked_out" "devices s = devices clocked_out" "adjustments s = []"
  shows "compute_timecard s c = Inr [shift_day]"
  by (simp add: compute_timecard_def timecard_events_def assms clocked_out_def in_punch_def out_punch_def lobby_def
        dict_append_def punch_event_def get_device_def compute_day_def day_step_def day_init_def Let_def
        apportion_minutes_def dict_add_def dec_weights_def shift_apportion close_warnings_def meal_warnings_def
        MEAL_REQUIRED_AFTER_MINUTES_def round_int_def)

lemma signing_tables:
  "punches signing = punches clocked_out" "devices signing = devices clocked_out" "adjustments signing = []"
  "timecards signing = [signed_card]" "labor_facts signing = []" "sick_ledger signing = []" "gl_accounts signing = []"
  "employees signing = employees floor_db" "assignments signing = assignments floor_db" "assignment_rates signing = []"
  "properties signing = properties floor_db" "positions signing = []"
  by (simp_all add: signing_def clocked_out_def floor_db_def empty_db_def)

lemma placed: "719000 \<le> d \<Longrightarrow> assignments s = assignments floor_db \<Longrightarrow> assignments_on s 7 d True = assignments floor_db"
  by (simp add: assignments_on_def floor_db_def in_effect_on_def covers_def)

lemma shift_facts: "promoted_facts signing signed_card 719163 = Inr ([shift_fact], [(719163, 1)], False, Some ''US'')"
proof -
  let ?s = signing and ?c = signed_card and ?ds = "[(719163, [(''SJCES'', 60)])] :: (date, (string, int) dict) dict"
  have "ddiv 60 60 = 1" using ctx_of_int [of 1] by (simp add: ddiv_def prec_def)
  then have h: "card_day_hours [shift_day] = Inr [(719163, 1)]"
    by (simp add: card_day_hours_def quantize_def round_int_def half_even_def prec_def)
  have ds: "card_day_split ?s ?c [shift_day] = Inr ?ds"
    by (simp add: card_day_split_def property_minutes_for_day_def recorded_minutes_simps)
  have jur: "jurisdiction_for_card ?s 7 ?ds 719163 = Inr (Some ''US'')"
    by (simp add: jurisdiction_for_card_def signing_tables floor_db_def get_property_def)
  have on: "assignments_on ?s 7 719163 True = assignments floor_db" by (rule placed) (simp_all add: signing_tables)
  have ex: "resolve_exemption ?s 7 [719163] = Inr False"
    by (simp add: resolve_exemption_def is_exempt_on_def on List.map_filter_simps floor_db_def)
  have ot: "compute_overtime [(719163, 1)] 719163 False FLSA_BASELINE =
      [\<lparr>business_date = 719163, regular_hours = 1, ot_hours = 0, dt_hours = 0\<rparr>]"
    using compute_overtime_eq [of FLSA_BASELINE 40 "[(719163, 1)]" 719163]
    by (simp add: rules_wf_def FLSA_BASELINE_def overtime_row_def daily_split_def regular_through_def week_days_def classify_day_def seventh_day_def)
  obtain r z where sh: "apportion id 1 (dec_weights [(''SJCES'', 60)]) HOURS = Inr r" "dict_get r ''SJCES'' 0 = 1"
    "apportion id 0 (dec_weights [(''SJCES'', 60)]) HOURS = Inr z" "dict_get z ''SJCES'' 0 = 0"
    using apportion_one [of 1 "''SJCES''"] apportion_one [of 0 "''SJCES''"] centi_simps(2) [of num.One] by auto
  have q: "quantize 1 HOURS ROUND_HALF_EVEN = Inr 1" "quantize 0 u m = Inr 0" for u m
    by (simp_all add: quantize_def round_int_def half_even_def prec_def split: rounding.split)
  have at: "assignment_at ?s 7 ''SJCES'' 719163 = Inr (Some (hd (assignments floor_db)))" "ea_department_id (hd (assignments floor_db)) = None"
    by (simp_all add: assignment_at_def on) (simp_all add: floor_db_def)
  have rate: "hourly_rates_on ?s i d = Inr None" for i d
    by (simp add: hourly_rates_on_def rate_on_regular stored_rate_def rate_rows_def signing_tables)
  have row: "row_facts ?s ?c False ?ds \<lparr>business_date = 719163, regular_hours = 1, ot_hours = 0, dt_hours = 0\<rparr> = Inr [shift_fact]"
    by (simp add: row_facts_def dict_index_def sh property_fact_def at rate department_at_def q signed_card_def shift_card_def shift_fact_def)
  have e: "tc_employee_id ?c = 7" "tc_period_start ?c = 719163" by (simp_all add: signed_card_def shift_card_def)
  have dys: "compute_timecard ?s ?c = Inr [shift_day]"
    by (rule shift_days) (simp_all add: signed_card_def shift_card_def signing_tables)
  show ?thesis
    by (simp add: promoted_facts_def card_days_def dys h ds e ex rules_for_card_def jur ot row rules_for_eq_Inr_iff [THEN iffD2])
qed

lemma shift_promotes: "promote_timecard signing signed_card 719163 = Inr (signed, {(''SJCES'', 719163)})"
proof -
  have "accrue_for_card (signing\<lparr>labor_facts := [shift_fact]\<rparr>) signed_card [(719163, 1)] False (Some ''US'') = Inr signed"
    by (simp add: accrue_for_card_def sick_leave_rules_for_def signed_def signing_tables)
  moreover have "get_employee signing 7 = Some (hd (employees floor_db))" "em_pay_type (hd (employees floor_db)) \<noteq> EXCLUDE_FROM_PAYROLL"
    by (simp_all add: get_employee_def signing_tables floor_db_def EXCLUDE_FROM_PAYROLL_def)
  moreover have "tc_status signed_card = ''approved''" "tc_employee_id signed_card = 7" "lf_property_id shift_fact = ''SJCES''"
    "lf_business_date shift_fact = 719163" by (simp_all add: signed_card_def shift_card_def shift_fact_def)
  ultimately show ?thesis by (simp add: promote_timecard_def shift_facts signing_tables)
qed

lemma shift_approval: "check_approval tz0 cfg0 clocked_out boss 1 [] (20 * day) = Inr shift_card"
proof -
  have row: "get_timecard_row clocked_out 1 = Some shift_card" by (simp add: get_timecard_row_def clocked_out_def shift_card_def)
  have "assignments clocked_out = assignments floor_db" by (simp add: clocked_out_def)
  then have on: "assignments_on clocked_out 7 719176 True = assignments floor_db" by (rule placed [rotated]) simp
  have cp: "card_property clocked_out shift_card = Inr ''SJCES''"
    by (simp add: card_property_def primary_assignment_on_def shift_card_def on) (simp add: floor_db_def)
  have role: "''org_admin'' \<in> effective_roles clocked_out ''boss''"
    by (simp add: effective_roles_def clocked_out_def floor_db_def)
  then have "open_card clocked_out boss 1 = Inr shift_card"
    by (simp add: open_card_def require_grants_def require_operator_def boss_def OPERATOR_ROLES_def row require_card_access_def cp require_property_access_def role)
  moreover have "get_property clocked_out ''SJCES'' = Some (hd (properties floor_db))" "unverified_ids clocked_out 1 = []"
    by (simp_all add: get_property_def clocked_out_def floor_db_def unverified_ids_def in_punch_def out_punch_def)
  moreover have "tc_status shift_card \<noteq> ''approved''" "tc_period_end shift_card = 719176" by (simp_all add: shift_card_def)
  ultimately show ?thesis
    by (simp add: check_approval_def cp assert_some_def period_in_progress_def business_date_for_def tz0_def cfg0_def local_date_def EPOCH_ORDINAL_def)
qed

lemma shift_approved: "\<exists>m. approve_timecard id tz0 cfg0 clocked_out boss 1 [] (20 * day) = Inr (signed, m)"
proof -
  have s2: "audit_row ''boss'' ''approve_timecard'' ''timecard'' (str_int 1) (set_card 1 (\<lambda>_. signed_card) clocked_out) = signing"
    by (simp add: audit_row_def set_card_def signing_def clocked_out_def shift_card_def floor_db_def empty_db_def)
  have rp: "repost id ''boss'' (20 * day) {(''SJCES'', 719163)} signed = Inr signed"
    by (simp add: repost_def post_and_record_def has_active_chart_def signed_def signing_tables)
  have "compute_timecard signed signed_card = Inr [shift_day]"
    by (rule shift_days) (simp_all add: signed_card_def shift_card_def signed_def signing_tables)
  moreover have "get_employee signed 7 = Some (hd (employees floor_db))"
    by (simp add: get_employee_def signed_def signing_tables) (simp add: floor_db_def)
  ultimately obtain m where m: "to_model signed signed_card = Inr m"
    by (simp add: to_model_def Let_def assert_some_def signed_card_def shift_card_def)
  have c: "shift_card\<lparr>tc_status := ''approved'', tc_approved_by := Some ''boss'', tc_approved_at := Some (20 * day)\<rparr> = signed_card"
    by (simp add: signed_card_def)
  have b: "pi_subject boss = ''boss''" by (simp add: boss_def)
  show ?thesis
    unfolding approve_timecard_def shift_approval bindE_simps Let_def b c anchor0
    using rp m by (simp add: s2 shift_promotes)
qed

lemma reach_signed: "\<exists>st'. example_step\<^sup>*\<^sup>* (0, [], floor_db) (9 * hour, st', signed)"
proof -
  obtain st' where r: "example_step\<^sup>*\<^sup>* (0, [], floor_db) (9 * hour, st', clocked_out)" using reach_out by blast
  obtain m where "approve_timecard id tz0 cfg0 clocked_out boss 1 [] (20 * day) = Inr (signed, m)" using shift_approved by blast
  then have "example_step (9 * hour, st', clocked_out) (9 * hour, st', signed)" by (rule floor_step.approve)
  with r show ?thesis by (meson rtranclp.rtrancl_into_rtrancl)
qed


section \<open>Witnesses\<close>

lemma no_cards_floor: "no_cards floor_db"
  by (simp add: no_cards_def floor_db_def empty_db_def)


theorem approved_hours_stand_witness:
  "\<exists>k \<in> set (timecards signed). tc_timecard_id k = 1 \<and> tc_status k = ''approved''"
proof -
  obtain st' where r: "example_step\<^sup>*\<^sup>* (0, [], floor_db) (9 * hour, st', signed)" using reach_signed by blast
  have "card_datetimes signed" "shift_fact \<in> set (labor_facts signed)" "lf_timecard_id shift_fact = 1"
    by (simp_all add: card_datetimes_def signed_def signing_tables shift_fact_def signed_card_def shift_card_def clocked_out_def in_punch_def out_punch_def)
  then show ?thesis using approved_hours_stand [OF r no_cards_floor, of shift_fact] by auto
qed

theorem punches_in_order_witness:
  "\<exists>st'. example_step\<^sup>*\<^sup>* (0, [], floor_db) (9 * hour, st', clocked_out) \<and> pn_punch_type (linked in_punch) = ''clock_in''"
proof -
  obtain st' where r: "example_step\<^sup>*\<^sup>* (0, [], floor_db) (9 * hour, st', clocked_out)" using reach_out by blast
  have "filter (\<lambda>p. pn_employee_id p = 7) (punches clocked_out) = [] @ linked in_punch # linked out_punch # []"
    by (simp add: clocked_out_def in_punch_def out_punch_def)
  from punches_in_order [OF r no_cards_floor this] r show ?thesis by auto
qed

theorem approval_gate_witness:
  "\<exists>m. approve_timecard id tz0 cfg0 clocked_out boss 1 [] (20 * day) = Inr (signed, m) \<and> unverified_ids clocked_out 1 = []"
proof -
  obtain m where m: "approve_timecard id tz0 cfg0 clocked_out boss 1 [] (20 * day) = Inr (signed, m)" using shift_approved by blast
  from approval_gate [OF m] m show ?thesis by simp
qed

theorem final_card_unreachable_witness:
  "approve_timecard id tz0 cfg0 (clocked_out\<lparr>assignments := map (\<lambda>a. a\<lparr>ea_status := ''inactive'', ea_effective_to := Some 719170\<rparr>)
      (assignments clocked_out)\<rparr>) boss 1 [] (20 * day) = Inl (HTTPException 409)"
proof -
  let ?s = "clocked_out\<lparr>assignments := map (\<lambda>a. a\<lparr>ea_status := ''inactive'', ea_effective_to := Some 719170\<rparr>) (assignments clocked_out)\<rparr>"
  have "get_timecard_row ?s 1 = Some shift_card" by (simp add: get_timecard_row_def clocked_out_def shift_card_def)
  moreover have "require_approver ?s boss = Inr ()"
    by (simp add: require_grants_def require_operator_def boss_def OPERATOR_ROLES_def effective_roles_def clocked_out_def floor_db_def)
  moreover have "\<forall>a \<in> set (assignments ?s). ea_employee_id a = tc_employee_id shift_card \<and> ea_is_primary a
      \<longrightarrow> \<not> covers (ea_effective_from a) (ea_effective_to a) (tc_period_end shift_card)"
    by (simp add: clocked_out_def floor_db_def shift_card_def covers_def)
  ultimately show ?thesis using final_card_unreachable by blast
qed

end
