(* ===== verification/StaffExample.thy ===== *)
theory StaffExample
  imports Staff Earnings FloorExample
begin

text \<open>
  One employee hired, given a raise that is to start later, and then moved or ended: the states are the witnesses of the
  properties of the employment records.
\<close>

definition hotel :: db where
  "hotel = empty_db\<lparr>
     properties := [\<lparr>pr_property_id = ''SJCES'', pr_timezone = ''UTC'', pr_wage_jurisdiction = Some ''US''\<rparr>],
     departments := [\<lparr>de_department_id = 1, de_property_id = ''SJCES'', de_name = ''Front''\<rparr>,
       \<lparr>de_department_id = 2, de_property_id = ''SJCES'', de_name = ''Laundry''\<rparr>],
     role_assignments := [\<lparr>ra_keycloak_subject = ''boss'', ra_role = ''org_admin'', ra_property_id = None, ra_department_id = None\<rparr>]\<rparr>"

definition ana_request :: OnboardRequest where
  "ana_request = \<lparr>oq_full_name = ''Ana Ruiz'', oq_email = None, oq_property_id = ''SJCES'', oq_pay_type = ''hourly'', oq_role = None,
     oq_department_id = Some 1, oq_position_id = None, oq_compensation_note = None\<rparr>"

definition ana :: Employee where
  "ana = \<lparr>em_employee_id = 1, em_keycloak_subject = None, em_full_name = ''Ana Ruiz'', em_pay_type = ''hourly'', em_full_part_time = None,
     em_i9_submitted_on = None, em_w4_submitted_on = None, em_employment_status = ''active'', em_payroll_data_complete = False,
     em_hire_date = Some 100, em_termination_date = None, em_compensation_note = None\<rparr>"

definition front :: EmployeeAssignment where
  "front = \<lparr>ea_assignment_id = 1, ea_employee_id = 1, ea_property_id = ''SJCES'', ea_department_id = Some 1, ea_position_id = None,
     ea_is_primary = True, ea_status = ''active'', ea_effective_from = 100, ea_effective_to = None\<rparr>"

definition audit :: "string \<Rightarrow> string \<Rightarrow> AuditEvent" where
  "audit action rid = \<lparr>au_actor_subject = ''boss'', au_action = action, au_resource_type = ''employee'', au_resource_id = rid\<rparr>"

definition hired :: db where
  "hired = hotel\<lparr>employees := [ana], assignments := [front], audit_events := [audit ''onboard_employee'' ''Ana Ruiz'']\<rparr>"

abbreviation regular :: "decimal \<Rightarrow> date \<Rightarrow> date option \<Rightarrow> AssignmentRate" where
  "regular v from until \<equiv> \<lparr>ar_assignment_id = 1, ar_rate_type = ''regular'', ar_amount = Some v, ar_effective_from = from, ar_effective_to = until\<rparr>"

definition paid :: db where
  "paid = hired\<lparr>assignment_rates := [regular 20 100 None], audit_events := audit_events hired @ [audit ''write_pay_rate'' (str_int 1)]\<rparr>"

definition promised :: db where
  "promised = paid\<lparr>assignment_rates := [regular 20 100 (Some 120), regular 25 120 None],
     audit_events := audit_events paid @ [audit ''write_pay_rate'' (str_int 1)]\<rparr>"

lemma hire_ana: "onboard_employee memory_keycloak ana_request ''boss'' 100 ([], 0) hotel = (([], 0), Inr (hired, ana))"
  by (simp add: onboard_employee_def pay_type_violation_def PAY_TYPES_def ana_request_def provision_user_def hire_def new_employee_def
      first_placement_def hotel_def empty_db_def next_id_def ana_def front_def hired_def audit_def audit_row_def get_property_def
      get_department_def placements_unique_def open_primary_def Let_def)

lemma boss_edits:
  "role_assignments s = role_assignments hotel \<Longrightarrow> effective_roles s (pi_subject boss) = {''org_admin''}"
  by (simp add: effective_roles_def hotel_def boss_def)

lemma boss_granted:
  "role_assignments s = role_assignments hotel \<Longrightarrow> ''org_admin'' \<in> set rs \<Longrightarrow> require_grants rs s boss = Inr ()"
  by (simp add: require_grants_def require_operator_def boss_edits) (simp add: boss_def OPERATOR_ROLES_def)

lemma front_primary:
  assumes "assignments s = [front]" "100 \<le> d"
  shows "primary_assignment_on s 1 d = Inr (Some front)"
  using assms by (simp add: primary_assignment_on_def assignments_on_def front_def in_effect_on_def covers_def)

lemma raise_first: "set_pay_rate hired boss 1 \<lparr>rb_pay_rate = 20, rb_effective_from = None\<rparr> 100 = Inr (paid, 20)"
proof -
  have r: "role_assignments hired = role_assignments hotel" by (simp add: hired_def)
  have "require_grants RATE_EDITORS hired boss = Inr ()" using r by (rule boss_granted) (simp add: RATE_EDITORS_def)
  moreover have "require_rate_access hired boss 1 100 = Inr ()" using boss_edits [OF r] by (simp add: require_rate_access_def)
  moreover have "primary_placement hired 1 100 = Inr (Some front)" by (simp add: primary_placement_def front_primary hired_def)
  moreover have "get_employee hired 1 \<noteq> None" by (simp add: get_employee_def hired_def ana_def)
  moreover have "raise_rate (ea_assignment_id front) 20 100 (assignment_rates hired) = Inr [regular 20 100 None]"
    by (simp add: raise_rate_def front_def hired_def hotel_def empty_db_def scalar_one_or_none_def rates_unique_def)
  ultimately show ?thesis
    by (simp add: set_pay_rate_def pay_rate_ok_def paid_def audit_row_def audit_def boss_def)
qed

lemma raise_later: "set_pay_rate paid boss 1 \<lparr>rb_pay_rate = 25, rb_effective_from = Some 120\<rparr> 110 = Inr (promised, 25)"
proof -
  have r: "role_assignments paid = role_assignments hotel" by (simp add: paid_def hired_def)
  have "require_grants RATE_EDITORS paid boss = Inr ()" using r by (rule boss_granted) (simp add: RATE_EDITORS_def)
  moreover have "require_rate_access paid boss 1 110 = Inr ()" using boss_edits [OF r] by (simp add: require_rate_access_def)
  moreover have "primary_placement paid 1 110 = Inr (Some front)" by (simp add: primary_placement_def front_primary paid_def hired_def)
  moreover have "get_employee paid 1 \<noteq> None" by (simp add: get_employee_def paid_def hired_def ana_def)
  moreover have "raise_rate (ea_assignment_id front) 25 120 (assignment_rates paid) = Inr [regular 20 100 (Some 120), regular 25 120 None]"
    by (simp add: raise_rate_def front_def paid_def scalar_one_or_none_def rates_unique_def open_regular_def)
  ultimately show ?thesis
    by (simp add: set_pay_rate_def pay_rate_ok_def promised_def audit_row_def audit_def boss_def)
qed

definition forget :: "(string, string) dict store_delete" where "forget = (\<lambda>key st. Some (AList.delete key st))"

abbreviation "staff_example \<equiv> staff_step memory_keycloak forget 1"

lemma reach_paid: "staff_example\<^sup>*\<^sup>* (100, (([], 0), []), hotel) (110, (([], 0), []), paid)"
proof -
  have "staff_example (100, (([], 0), []), hotel) (100, (([], 0), []), hired)" by (rule staff_step.hire [OF hire_ana])
  moreover have "staff_example (100, (([], 0), []), hired) (100, (([], 0), []), paid)" by (rule staff_step.raise [OF raise_first])
  moreover have "staff_example (100, (([], 0), []), paid) (110, (([], 0), []), paid)" by (rule staff_step.next_day) simp
  ultimately show ?thesis by (meson converse_rtranclp_into_rtranclp r_into_rtranclp)
qed

lemma reach_promised: "staff_example\<^sup>*\<^sup>* (100, (([], 0), []), hotel) (110, (([], 0), []), promised)"
  using reach_paid staff_step.raise [OF raise_later] by (rule rtranclp.rtrancl_into_rtrancl)

lemma no_staff_hotel: "no_staff hotel"
  by (simp add: no_staff_def hotel_def empty_db_def)

theorem primaries_never_overlap_witness: "\<exists>r. primary_assignment_on paid 1 115 = Inr r"
  using primaries_never_overlap [OF reach_paid no_staff_hotel] by blast

theorem raise_owns_its_days_witness:
  "rate_on promised 1 ''regular'' 119 = rate_on paid 1 ''regular'' 119 \<and> rate_on promised 1 ''regular'' 120 = Inr (Some 25)"
proof -
  obtain c where c: "primary_assignment_on paid 1 110 = Inr (Some c)"
    and r: "\<And>d. rate_on promised (ea_assignment_id c) ''regular'' d = (if d < 120 then rate_on paid (ea_assignment_id c) ''regular'' d else Inr (Some 25))"
    using raise_owns_its_days [OF reach_paid no_staff_hotel raise_later] by auto
  have "c = front" using c front_primary [of paid 110] by (simp add: paid_def hired_def)
  then show ?thesis using r [of 119] r [of 120] by (simp add: front_def)
qed

text \<open>The raise promised for day 120 is in force from day 110 after a move of that day, though the rate of day 110 was 20.\<close>

theorem move_carries_open_rate_witness:
  "rate_on promised 1 ''regular'' 110 = Inr (Some 20)
   \<and> (\<exists>s' m. move_department promised 1 2 110 110 = Inr s' \<and> primary_assignment_on s' 1 110 = Inr (Some m)
        \<and> rate_on s' (ea_assignment_id m) ''regular'' 110 = Inr (Some 25))"
proof
  show "rate_on promised 1 ''regular'' 110 = Inr (Some 20)"
    by (simp add: rate_on_regular stored_rate_rows rates_of_def promised_def covers_def decode_def)
  have c: "primary_assignment_on promised 1 110 = Inr (Some front)" by (simp add: front_primary promised_def paid_def hired_def)
  have "\<exists>s'. move_department promised 1 2 110 110 = Inr s'"
    by (simp add: move_department_def c) (auto simp: front_def promised_def paid_def hired_def hotel_def empty_db_def get_department_def
        open_regular_def scalar_one_or_none_def moved_placement_def next_id_def Let_def placements_unique_def rates_unique_def open_primary_def)
  then obtain s' where mv: "move_department promised 1 2 110 110 = Inr s'" by blast
  have r: "regular 25 120 None \<in> set (assignment_rates promised)" "open_regular (ea_assignment_id front) (regular 25 120 None)"
    "ea_department_id front \<noteq> Some 2" by (simp_all add: promised_def front_def open_regular_def)
  show "\<exists>s' m. move_department promised 1 2 110 110 = Inr s' \<and> primary_assignment_on s' 1 110 = Inr (Some m)
        \<and> rate_on s' (ea_assignment_id m) ''regular'' 110 = Inr (Some 25)"
    using move_carries_open_rate [OF reach_promised no_staff_hotel c r(3) mv r(1,2)] mv by force
qed

lemma boss_terminates:
  assumes "role_assignments s = role_assignments hotel" "get_employee s e = Some em" "em_keycloak_subject em = None" "\<not> stranded s e today"
    "face_templates s = []"
  shows "\<exists>s'. terminate memory_keycloak del 1 boss e today w s = (w, Inr (s', Some today))"
proof -
  obtain k st where w: "w = (k, st)" by (cases w)
  have chk: "check_terminate s boss e today = Inr ()"
    using boss_granted [OF assms(1)] boss_edits [OF assms(1)] assms(2) by (simp add: check_terminate_def)
  have "face_templates (end_employment e today s) = []" using assms(5) by (simp add: end_employment_def set_employee_def Let_def)
  then have df: "drop_face (Some del) 1 e (pi_subject boss) st (end_employment e today s) = (st, Inr (end_employment e today s))"
    by (simp add: drop_face_def scalar_one_or_none_def)
  define s' where "s' = audit_row (pi_subject boss) ''terminate_employee'' ''employee'' (str_int e) (end_employment e today s)"
  have te: "terminate_employee memory_keycloak (Some del) 1 e (pi_subject boss) today w s = (w, Inr s')"
    using assms(4) unfolding terminate_employee_def w assms(2) by (simp add: assms(3) df s'_def)
  have "find (\<lambda>r. em_employee_id r = e) (map (\<lambda>x. if em_employee_id x = e
      then x\<lparr>em_termination_date := Some today, em_employment_status := ''terminated''\<rparr> else x) xs)
    = map_option (\<lambda>x. x\<lparr>em_termination_date := Some today, em_employment_status := ''terminated''\<rparr>) (find (\<lambda>r. em_employee_id r = e) xs)" for xs :: "Employee list"
    by (induction xs) auto
  then have "get_employee s' e = Some (em\<lparr>em_termination_date := Some today, em_employment_status := ''terminated''\<rparr>)"
    using assms(2) by (simp add: s'_def audit_row_def end_employment_def set_employee_def Let_def get_employee_def)
  then show ?thesis by (simp add: terminate_def chk te assert_some_def)
qed

definition to_laundry :: EmployeePatchBody where
  "to_laundry = \<lparr>pb_employment_status = None, pb_full_part_time = None, pb_i9_submitted_on = None, pb_w4_submitted_on = None,
     pb_payroll_data_complete = None, pb_full_name = None, pb_pay_type = None, pb_department_id = Some 2, pb_effective_from = Some 130\<rparr>"

theorem leavers_card_unreachable_witness:
  "\<exists>s1. terminate memory_keycloak (\<lambda>key st. Some st) 1 boss 7 719170 (([], 0), ()) clocked_out = ((([], 0), ()), Inr (s1, Some 719170))
    \<and> approve_timecard id tz0 cfg0 s1 boss 1 [] (20 * day) = Inl (HTTPException 409)"
proof -
  have "role_assignments clocked_out = role_assignments hotel" by (simp add: clocked_out_def floor_db_def hotel_def)
  moreover obtain em where "get_employee clocked_out 7 = Some em" "em_keycloak_subject em = None"
    by (simp add: get_employee_def clocked_out_def floor_db_def)
  moreover have "\<not> stranded clocked_out 7 719170" "face_templates clocked_out = []"
    by (simp_all add: stranded_def clocked_out_def floor_db_def empty_db_def)
  ultimately obtain s1 where t: "terminate memory_keycloak (\<lambda>key st. Some st) 1 boss 7 719170 (([], 0), ()) clocked_out
      = ((([], 0), ()), Inr (s1, Some 719170))" using boss_terminates by blast
  from t obtain A F where s1: "s1 = (end_employment 7 719170 clocked_out)\<lparr>face_templates := F, audit_events := A\<rparr>" by (rule terminate_cases)
  have "get_timecard_row s1 1 = Some shift_card" by (simp add: s1 get_timecard_row_def end_employment_tables clocked_out_def shift_card_def)
  moreover have "tc_employee_id shift_card = 7" "719170 < tc_period_end shift_card" by (simp_all add: shift_card_def)
  moreover have "\<forall>a \<in> set (assignments clocked_out). ea_employee_id a = 7 \<and> ea_status a \<noteq> ''active''
      \<longrightarrow> \<not> covers (ea_effective_from a) (ea_effective_to a) (tc_period_end shift_card)" by (simp add: clocked_out_def floor_db_def)
  moreover have "require_approver s1 boss = Inr ()"
    by (rule boss_granted) (simp_all add: s1 end_employment_tables clocked_out_def floor_db_def hotel_def)
  ultimately show ?thesis using leavers_card_unreachable [OF t] t by blast
qed

theorem earnings_gate_witness:
  "\<exists>s' rows r. employee_work signed boss 719163 719163 None = Inr (s', rows) \<and> r \<in> set rows \<and> wm_employee_id r = 7 \<and> wm_hours r = 1"
proof -
  have "require_operator boss = Inr ()" by (simp add: require_operator_def boss_def OPERATOR_ROLES_def)
  then obtain s' rows where w: "employee_work signed boss 719163 719163 None = Inr (s', rows)"
    by (simp add: employee_work_def WORK_WINDOW_MAX_DAYS_def Let_def)
  have "allows_property (resolve_scope boss signed) q" for q
    by (simp add: resolve_scope_def grants_of_def allows_property_def signed_def signing_def clocked_out_def floor_db_def boss_def)
  then have fs: "facts_in_view signed (resolve_scope boss signed) 719163 719163 None 7 = [shift_fact]"
    by (simp add: facts_in_view_def in_view_def signed_def signing_tables shift_fact_def signed_card_def shift_card_def)
  note g = earnings_gate [OF w]
  have "7 \<in> wm_employee_id ` set rows" using g fs by simp
  then obtain r where r: "r \<in> set rows" "wm_employee_id r = 7" by auto
  have "wm_hours r = sum_list (map lf_hours (facts_in_view signed (resolve_scope boss signed) 719163 719163 None (wm_employee_id r)))"
    using g r(1) by blast
  then have "wm_hours r = 1" unfolding r(2) fs by (simp add: shift_fact_def)
  then show ?thesis using w r by blast
qed


theorem move_reopens_terminated_witness:
  "\<exists>s1 s2 m. terminate memory_keycloak forget 1 boss 1 110 (([], 0), []) paid = ((([], 0), []), Inr (s1, Some 110))
    \<and> patch_employee s1 boss 1 to_laundry 110 = Inr (s2, m) \<and> em_employment_status m = ''terminated''
    \<and> (\<exists>a \<in> set (assignments s2). open_primary a \<and> ea_employee_id a = 1)"
proof -
  have roles: "role_assignments paid = role_assignments hotel" by (simp add: paid_def hired_def)
  have emp: "get_employee paid 1 = Some ana" "em_keycloak_subject ana = None" by (simp_all add: get_employee_def paid_def hired_def ana_def)
  have "\<not> stranded paid 1 110" "face_templates paid = []" by (simp_all add: stranded_def paid_def hired_def hotel_def empty_db_def)
  then obtain s1 where t: "terminate memory_keycloak forget 1 boss 1 110 (([], 0), []) paid = ((([], 0), []), Inr (s1, Some 110))"
    using boss_terminates [OF roles emp] by blast
  from t obtain A F where s1: "s1 = (end_employment 1 110 paid)\<lparr>face_templates := F, audit_events := A\<rparr>" by (rule terminate_cases)
  define closed where "closed = front\<lparr>ea_status := ''inactive'', ea_effective_to := Some 111\<rparr>"
  define ex where "ex = ana\<lparr>em_termination_date := Some 110, em_employment_status := ''terminated''\<rparr>"
  have tables: "assignments s1 = [closed]" "employees s1 = [ex]" "assignment_rates s1 = [regular 20 100 None]"
    "departments s1 = departments hotel" "role_assignments s1 = role_assignments hotel"
    by (simp_all add: s1 end_employment_def set_employee_def Let_def paid_def hired_def closed_def front_def close_placement_def ex_def ana_def)
  have prim: "primary_assignment_on (s1\<lparr>employees := E\<rparr>) 1 110 = Inr (Some closed)" for E
    by (simp add: primary_assignment_on_def assignments_on_def tables) (simp add: closed_def front_def in_effect_on_def covers_def)
  have chk: "check_patch s1 boss 1 to_laundry 110 = Inr ex"
    using boss_granted [OF tables(5)] boss_edits [OF tables(5)]
    by (simp add: check_patch_def patch_refused_def to_laundry_def get_employee_def tables) (simp add: ex_def ana_def)
  have f: "patch_fields to_laundry ex = Inr ex" by (simp add: patch_fields_def to_laundry_def)
  have "\<exists>s3. move_department (set_employee 1 (\<lambda>_. ex) s1) 1 2 130 110 = Inr s3"
    by (simp add: move_department_def set_employee_def prim)
      (auto simp: tables closed_def front_def hotel_def get_department_def open_regular_def scalar_one_or_none_def moved_placement_def
        next_id_def Let_def placements_unique_def rates_unique_def open_primary_def)
  then obtain s3 where mv: "move_department (set_employee 1 (\<lambda>_. ex) s1) 1 2 130 110 = Inr s3" by blast
  have "ea_department_id closed \<noteq> Some 2" by (simp add: closed_def front_def)
  with mv prim have len: "length (assignments s3) = 2"
    using move_adds_row [of "set_employee 1 (\<lambda>_. ex) s1"] by (simp add: set_employee_def tables)
  have b: "pb_department_id to_laundry = Some 2" "pb_effective_from to_laundry = Some 130" by (simp_all add: to_laundry_def)
  obtain s2 where p: "patch_employee s1 boss 1 to_laundry 110 = Inr (s2, ex)" and s2: "assignments s2 = assignments s3"
    using mv by (simp add: patch_employee_def chk f b audit_row_def)
  have "assignments s2 \<noteq> assignments s1" using len by (auto simp: s2 tables)
  with move_reopens_terminated [OF t p] t p show ?thesis by blast
qed

end
