(* ===== verification/PropertyConfig.thy ===== *)
theory PropertyConfig
  imports Kiosk GlReach
begin

text \<open>
  \<^verbatim>\<open>usali/inventory.py\<close> and \<^verbatim>\<open>usali/property_config_api.py\<close>: the dated room counts and the blocks of rooms out of order, the room-nights
  available over a window, and the routes that set them, the fiscal calendar and the statistics basis of a property.  Their tables
  are a state of their own around the program's \<open>config_core\<close>.
\<close>

section \<open>Tables\<close>

record RoomInventory =
  ri_inventory_id :: int
  ri_property_id :: string
  ri_effective_date :: date
  ri_total_rooms :: int

record OutOfOrderRoom =
  oo_ooo_id :: int
  oo_property_id :: string
  oo_start_date :: date
  oo_end_date :: date
  oo_room_count :: int
  oo_reason_code :: string
  oo_note :: "string option"

record config_db =
  config_core :: db
  room_inventory :: "RoomInventory list"
  out_of_order :: "OutOfOrderRoom list"
  stat_configs :: "(string, string) dict"

section \<open>Rooms available\<close>

definition inventory_rows :: "config_db \<Rightarrow> string \<Rightarrow> RoomInventory list" where
  "inventory_rows s property_id = sort_key ri_effective_date (filter (\<lambda>r. ri_property_id r = property_id) (room_inventory s))"

text \<open>The loop of \<^verbatim>\<open>_in_force\<close>, up to its \<open>break\<close>.\<close>

fun in_force_loop :: "RoomInventory list \<Rightarrow> date \<Rightarrow> int option \<Rightarrow> int option" where
  "in_force_loop [] on acc = acc"
| "in_force_loop (row # rows) on acc =
     (if ri_effective_date row \<le> on then in_force_loop rows on (Some (ri_total_rooms row)) else acc)"

definition in_force :: "RoomInventory list \<Rightarrow> date \<Rightarrow> int res" where
  "in_force rows on = (case in_force_loop rows on None of None \<Rightarrow> Inl InventoryNotConfigured | Some n \<Rightarrow> Inr n)"

definition total_rooms_on :: "config_db \<Rightarrow> string \<Rightarrow> date \<Rightarrow> int res" where
  "total_rooms_on s property_id on = in_force (inventory_rows s property_id) on"

definition ooo_on :: "OutOfOrderRoom list \<Rightarrow> date \<Rightarrow> int" where
  "ooo_on blocks on = sum_list (map oo_room_count (filter (\<lambda>b. oo_start_date b \<le> on \<and> on \<le> oo_end_date b) blocks))"

function rooms_loop :: "RoomInventory list \<Rightarrow> OutOfOrderRoom list \<Rightarrow> date \<Rightarrow> date \<Rightarrow> int \<Rightarrow> int res" where
  "rooms_loop rows blocks end on acc =
    (if on > end then Inr acc
     else bindE (in_force rows on) (\<lambda>n.
       let net = n - ooo_on blocks on in
       if net < 0 then Inl InventoryInconsistent else rooms_loop rows blocks end (on + 1) (acc + net)))"
  by pat_completeness auto
termination by (relation "measure (\<lambda>(rows, blocks, end, on, acc). nat (end + 1 - on))") auto

declare rooms_loop.simps [simp del]

definition rooms_available :: "config_db \<Rightarrow> string \<Rightarrow> date \<Rightarrow> date \<Rightarrow> int res" where
  "rooms_available s property_id start end =
    (if end < start then Inl ValueError
     else rooms_loop (inventory_rows s property_id)
       (filter (\<lambda>b. oo_property_id b = property_id \<and> oo_start_date b \<le> end \<and> oo_end_date b \<ge> start) (out_of_order s)) end start 0)"

section \<open>Routes\<close>

definition get_rooms_available :: "config_db \<Rightarrow> Principal \<Rightarrow> string \<Rightarrow> date \<Rightarrow> date \<Rightarrow> int res" where
  "get_rooms_available s p property_id start end =
     bindE (require_operator p) (\<lambda>_.
       if end < start then Inl (HTTPException 422)
       else
         bindE (require_readable_property (config_core s) (resolve_scope p (config_core s)) property_id) (\<lambda>_.
           case rooms_available s property_id start end of
             Inl e \<Rightarrow> Inl (if e \<in> {InventoryNotConfigured, InventoryInconsistent} then HTTPException 409 else e)
           | Inr n \<Rightarrow> Inr n))"

abbreviation require_config_writer :: "db \<Rightarrow> Principal \<Rightarrow> unit res" where
  "require_config_writer \<equiv> require_grants [''org_admin'', ''property_gm'']"

definition audit_config :: "Principal \<Rightarrow> string \<Rightarrow> string \<Rightarrow> config_db \<Rightarrow> config_db" where
  "audit_config p action property_id s = s\<lparr>config_core := audit_row (pi_subject p) action ''property'' property_id (config_core s)\<rparr>"

text \<open>\<^verbatim>\<open>Field(gt=0)\<close> of a body is checked after the grants and before the handler.\<close>

definition set_inventory :: "config_db \<Rightarrow> Principal \<Rightarrow> string \<Rightarrow> date \<Rightarrow> int \<Rightarrow> (config_db \<times> RoomInventory) res" where
  "set_inventory s p property_id effective_date total_rooms =
     bindE (require_config_writer (config_core s) p) (\<lambda>_.
       if total_rooms \<le> 0 then Inl (HTTPException 422)
       else
         bindE (require_onboardable_property (config_core s) p property_id) (\<lambda>_.
         bindE (scalar_one_or_none (filter (\<lambda>r. ri_property_id r = property_id \<and> ri_effective_date r = effective_date) (room_inventory s))) (\<lambda>row.
           case row of
             None \<Rightarrow>
               let new = \<lparr>ri_inventory_id = next_id (map ri_inventory_id (room_inventory s)), ri_property_id = property_id,
                           ri_effective_date = effective_date, ri_total_rooms = total_rooms\<rparr>
               in Inr (audit_config p ''property_inventory_set'' property_id (s\<lparr>room_inventory := room_inventory s @ [new]\<rparr>), new)
           | Some r \<Rightarrow>
               let row' = r\<lparr>ri_total_rooms := total_rooms\<rparr>
               in Inr (audit_config p ''property_inventory_set'' property_id
                         (s\<lparr>room_inventory := map (\<lambda>x. if ri_property_id x = property_id \<and> ri_effective_date x = effective_date then row' else x)
                                                (room_inventory s)\<rparr>), row'))))"

definition OOO_REASON_CODES :: "string list" where
  "OOO_REASON_CODES = [''maintenance'', ''renovation'', ''damage'', ''deep_clean'', ''other'', ''do_not_rent'', ''owner_occupied'']"

definition add_ooo ::
  "config_db \<Rightarrow> Principal \<Rightarrow> string \<Rightarrow> date \<Rightarrow> date \<Rightarrow> int \<Rightarrow> string \<Rightarrow> string option \<Rightarrow> (config_db \<times> OutOfOrderRoom) res" where
  "add_ooo s p property_id start_date end_date room_count reason_code note =
     bindE (require_config_writer (config_core s) p) (\<lambda>_.
       if room_count \<le> 0 \<or> (case note of None \<Rightarrow> False | Some n \<Rightarrow> length n > 200) then Inl (HTTPException 422)
       else if end_date < start_date then Inl (HTTPException 422)
       else if reason_code \<notin> set OOO_REASON_CODES then Inl (HTTPException 422)
       else
         bindE (require_onboardable_property (config_core s) p property_id) (\<lambda>_.
           let block = \<lparr>oo_ooo_id = next_id (map oo_ooo_id (out_of_order s)), oo_property_id = property_id, oo_start_date = start_date,
                         oo_end_date = end_date, oo_room_count = room_count, oo_reason_code = reason_code, oo_note = note\<rparr>
           in Inr (audit_config p ''ooo_added'' property_id (s\<lparr>out_of_order := out_of_order s @ [block]\<rparr>), block)))"

definition remove_ooo :: "config_db \<Rightarrow> Principal \<Rightarrow> string \<Rightarrow> int \<Rightarrow> config_db res" where
  "remove_ooo s p property_id ooo_id =
     bindE (require_config_writer (config_core s) p) (\<lambda>_.
     bindE (require_onboardable_property (config_core s) p property_id) (\<lambda>_.
     bindE (scalar_one_or_none (filter (\<lambda>b. oo_ooo_id b = ooo_id \<and> oo_property_id b = property_id) (out_of_order s))) (\<lambda>block.
       if block = None then Inl (HTTPException 404)
       else Inr (audit_config p ''ooo_removed'' property_id
                   (s\<lparr>out_of_order := filter (\<lambda>b. \<not> (oo_ooo_id b = ooo_id \<and> oo_property_id b = property_id)) (out_of_order s)\<rparr>)))))"

definition CALENDAR_TYPES :: "string list" where "CALENDAR_TYPES = [''calendar_month'', ''445'']"

definition set_fiscal_calendar :: "config_db \<Rightarrow> Principal \<Rightarrow> string \<Rightarrow> FiscalConfig \<Rightarrow> (config_db \<times> FiscalConfig) res" where
  "set_fiscal_calendar s p property_id b =
     bindE (require_config_writer (config_core s) p) (\<lambda>_.
       if \<not> (1 \<le> fiscal_year_start_month b \<and> fiscal_year_start_month b \<le> 12)
          \<or> (case week_start_weekday b of None \<Rightarrow> False | Some w \<Rightarrow> \<not> (0 \<le> w \<and> w \<le> 6)) then Inl (HTTPException 422)
       else if calendar_type b \<notin> set CALENDAR_TYPES then Inl (HTTPException 422)
       else if calendar_type b = ''445'' \<and> week_start_weekday b = None then Inl (HTTPException 422)
       else if calendar_type b \<noteq> ''445'' \<and> week_start_weekday b \<noteq> None then Inl (HTTPException 422)
       else
         bindE (require_onboardable_property (config_core s) p property_id) (\<lambda>_.
           let row = \<lparr>fc_property_id = property_id, fc_calendar_type = calendar_type b,
                       fc_fiscal_year_start_month = fiscal_year_start_month b, fc_week_start_weekday = week_start_weekday b\<rparr>;
               rows = fiscal_calendars (config_core s);
               rows' = (if find (\<lambda>r. fc_property_id r = property_id) rows = None then rows @ [row]
                        else map (\<lambda>r. if fc_property_id r = property_id then row else r) rows)
           in Inr (audit_config p ''fiscal_calendar_set'' property_id (s\<lparr>config_core := (config_core s)\<lparr>fiscal_calendars := rows'\<rparr>\<rparr>), b)))"

definition ADR_ROOM_BASES :: "string list" where "ADR_ROOM_BASES = [''as_reported'', ''exclude_comp_house'']"

definition set_stat_config :: "config_db \<Rightarrow> Principal \<Rightarrow> string \<Rightarrow> string \<Rightarrow> (config_db \<times> string) res" where
  "set_stat_config s p property_id basis =
     bindE (require_config_writer (config_core s) p) (\<lambda>_.
       if basis \<notin> set ADR_ROOM_BASES then Inl (HTTPException 422)
       else
         bindE (require_onboardable_property (config_core s) p property_id) (\<lambda>_.
           Inr (audit_config p ''stat_config_set'' property_id (s\<lparr>stat_configs := AList.update property_id basis (stat_configs s)\<rparr>), basis)))"

definition adr_room_basis :: "config_db \<Rightarrow> string \<Rightarrow> string" where
  "adr_room_basis s property_id = dict_get (stat_configs s) property_id ''as_reported''"

text \<open>The periods a reader asks for: one by key, the one of a date, or a whole year.\<close>

definition get_fiscal_periods ::
  "config_db \<Rightarrow> Principal \<Rightarrow> string \<Rightarrow> int option \<Rightarrow> string option \<Rightarrow> date option \<Rightarrow> date \<Rightarrow> (string \<times> date \<times> date) list res" where
  "get_fiscal_periods s p property_id fiscal_year period on_date today =
     bindE (require_operator p) (\<lambda>_.
     bindE (require_readable_property (config_core s) (resolve_scope p (config_core s)) property_id) (\<lambda>_.
       let one = (\<lambda>cfg key. bindE (resolve_period cfg key) (\<lambda>(a, b). Inr [(key, a, b)])) in
       case bindE (require_config (config_for (config_core s) property_id)) (\<lambda>cfg.
              case period of
                Some key \<Rightarrow> one cfg key
              | None \<Rightarrow> (case on_date of
                           Some d \<Rightarrow> bindE (period_containing cfg d) (one cfg)
                         | None \<Rightarrow> periods_in_year cfg (case fiscal_year of Some y \<Rightarrow> y | None \<Rightarrow> year_of today))) of
         Inl e \<Rightarrow> Inl (if e = FiscalCalendarNotConfigured then HTTPException 409 else if e = ValueError then HTTPException 422 else e)
       | Inr rows \<Rightarrow> Inr rows))"

section \<open>The configuration tables as a whole\<close>

inductive config_step :: "config_db \<Rightarrow> config_db \<Rightarrow> bool" where
  inventory: "set_inventory s p q d n = Inr (s', row) \<Longrightarrow> config_step s s'"
| out_of_order: "add_ooo s p q a b n reason note = Inr (s', block) \<Longrightarrow> config_step s s'"
| returned: "remove_ooo s p q i = Inr s' \<Longrightarrow> config_step s s'"
| calendar: "set_fiscal_calendar s p q cfg = Inr (s', cfg') \<Longrightarrow> config_step s s'"
| statistics: "set_stat_config s p q basis = Inr (s', basis') \<Longrightarrow> config_step s s'"

text \<open>The states the routes reach from a property that has no room counts and no blocks.\<close>

inductive config_reach :: "config_db \<Rightarrow> bool" where
  start: "room_inventory s = [] \<Longrightarrow> out_of_order s = [] \<Longrightarrow> config_reach s"
| step: "config_reach s \<Longrightarrow> config_step s s' \<Longrightarrow> config_reach s'"

definition inventory_key :: "RoomInventory \<Rightarrow> string \<times> date" where
  "inventory_key r = (ri_property_id r, ri_effective_date r)"

definition config_wf :: "config_db \<Rightarrow> bool" where
  "config_wf s \<longleftrightarrow> distinct (map inventory_key (room_inventory s))
     \<and> (\<forall>r \<in> set (room_inventory s). 0 < ri_total_rooms r)
     \<and> (\<forall>b \<in> set (out_of_order s). oo_start_date b \<le> oo_end_date b \<and> 0 < oo_room_count b)"

text \<open>A correction keeps the key of the row it corrects.\<close>

lemma map_inventory_key:
  "map inventory_key (map (\<lambda>x. if ri_property_id x = q \<and> ri_effective_date x = d then r\<lparr>ri_total_rooms := n\<rparr> else x) rows)
   = map inventory_key rows" if "ri_property_id r = q" "ri_effective_date r = d"
  using that by (auto simp: inventory_key_def)

lemma scalar_NoneD: "scalar_one_or_none (filter P xs) = Inr None \<Longrightarrow> \<forall>x \<in> set xs. \<not> P x"
  by (auto simp: scalar_one_or_none_def filter_empty_conv split: list.splits)

lemma scalar_SomeD: "scalar_one_or_none (filter P xs) = Inr (Some r) \<Longrightarrow> r \<in> set xs \<and> P r"
  by (auto simp: scalar_one_or_none_def split: list.splits dest: filter_eq_ConsD) 

lemma audit_config_frame [simp]:
  "room_inventory (audit_config p a q s) = room_inventory s" "out_of_order (audit_config p a q s) = out_of_order s"
  by (simp_all add: audit_config_def)

text \<open>What an accepted room count leaves in the table.\<close>

lemma set_inventory_cases:
  assumes "set_inventory s p q d n = Inr (s', row)"
  obtains (added) new where "0 < n" "\<forall>r \<in> set (room_inventory s). inventory_key r \<noteq> (q, d)"
      "inventory_key new = (q, d)" "ri_total_rooms new = n" "room_inventory s' = room_inventory s @ [new]" "out_of_order s' = out_of_order s"
  | (corrected) r where "0 < n" "r \<in> set (room_inventory s)" "inventory_key r = (q, d)"
      "room_inventory s' = map (\<lambda>x. if inventory_key x = (q, d) then r\<lparr>ri_total_rooms := n\<rparr> else x) (room_inventory s)"
      "out_of_order s' = out_of_order s"
proof -
  from assms obtain found where n: "0 < n"
    and f: "scalar_one_or_none (filter (\<lambda>r. ri_property_id r = q \<and> ri_effective_date r = d) (room_inventory s)) = Inr found"
    by (auto simp: set_inventory_def inr split: if_splits)
  show thesis
  proof (cases found)
    case None
    with assms f n scalar_NoneD [OF f [unfolded None]] show ?thesis
      by (intro added) (auto simp: set_inventory_def inr Let_def inventory_key_def split: if_splits)
  next
    case (Some r)
    with assms f n scalar_SomeD [OF f [unfolded Some]] show ?thesis
      by (intro corrected [of r]) (auto simp: set_inventory_def inr Let_def inventory_key_def split: if_splits)
  qed
qed

lemma inventory_key_correct [simp]: "inventory_key (r\<lparr>ri_total_rooms := n\<rparr>) = inventory_key r"
  by (simp add: inventory_key_def)

lemma config_step_wf:
  assumes "config_step s s'" "config_wf s"
  shows "config_wf s'"
  using assms(1)
proof cases
  case (inventory p q d n row)
  then show ?thesis
  proof (cases rule: set_inventory_cases)
    case (added new)
    with assms(2) show ?thesis by (auto simp: config_wf_def)
  next
    case (corrected r)
    then have "map inventory_key (room_inventory s') = map inventory_key (room_inventory s)" by auto
    moreover have "0 < ri_total_rooms x" if "x \<in> set (room_inventory s')" for x
      using that corrected(1,4) assms(2) by (auto simp: config_wf_def split: if_splits)
    ultimately show ?thesis using assms(2) corrected(5) by (simp add: config_wf_def)
  qed
next
  case (out_of_order p q a b n reason remark block)
  with assms(2) show ?thesis
    by (auto simp: add_ooo_def inr Let_def config_wf_def split: if_splits)
next
  case (returned p q i)
  with assms(2) show ?thesis by (auto simp: remove_ooo_def inr config_wf_def split: if_splits)
next
  case (calendar p q cfg cfg')
  then show ?thesis using assms(2) by (auto simp: set_fiscal_calendar_def inr Let_def config_wf_def split: if_splits)
next
  case (statistics p q basis basis')
  then show ?thesis using assms(2) by (auto simp: set_stat_config_def inr config_wf_def split: if_splits)
qed

lemma config_reach_wf: "config_reach s \<Longrightarrow> config_wf s"
proof (induction rule: config_reach.induct)
  case (start s)
  then show ?case by (simp add: config_wf_def)
qed (rule config_step_wf)

section \<open>Which count is in force\<close>

definition rooms_in_force :: "config_db \<Rightarrow> string \<Rightarrow> date \<Rightarrow> int \<Rightarrow> bool" where
  "rooms_in_force s p d n \<longleftrightarrow> (\<exists>r \<in> set (room_inventory s). ri_property_id r = p \<and> ri_effective_date r \<le> d \<and> ri_total_rooms r = n
     \<and> (\<forall>r' \<in> set (room_inventory s). ri_property_id r' = p \<and> ri_effective_date r' \<le> d \<longrightarrow> ri_effective_date r' \<le> ri_effective_date r))"

definition rooms_out :: "config_db \<Rightarrow> string \<Rightarrow> date \<Rightarrow> int" where
  "rooms_out s p d = sum_list (map oo_room_count
     (filter (\<lambda>b. oo_property_id b = p \<and> oo_start_date b \<le> d \<and> d \<le> oo_end_date b) (out_of_order s)))"

lemma in_force_loop_sorted:
  "sorted (map ri_effective_date rows) \<Longrightarrow>
   in_force_loop rows d acc = (case filter (\<lambda>r. ri_effective_date r \<le> d) rows of [] \<Rightarrow> acc | rs \<Rightarrow> Some (ri_total_rooms (last rs)))"
proof (induction rows arbitrary: acc)
  case (Cons row rows)
  show ?case
  proof (cases "ri_effective_date row \<le> d")
    case False
    then have "filter (\<lambda>r. ri_effective_date r \<le> d) rows = []" using Cons.prems by (auto simp: filter_empty_conv)
    with False show ?thesis by simp
  qed (use Cons in \<open>auto split: list.splits\<close>)
qed simp

lemma sorted_last_max: "sorted (map f xs) \<Longrightarrow> x \<in> set xs \<Longrightarrow> f x \<le> f (last xs)"
  by (induction xs) auto

lemma in_force_exact:
  assumes "config_wf s"
  shows "in_force (inventory_rows s p) d = Inr n \<longleftrightarrow> rooms_in_force s p d n"
proof -
  let ?rows = "filter (\<lambda>r. ri_effective_date r \<le> d) (inventory_rows s p)"
  have sorted: "sorted (map ri_effective_date (inventory_rows s p))" by (simp add: inventory_rows_def)
  have rows: "set ?rows = {r \<in> set (room_inventory s). ri_property_id r = p \<and> ri_effective_date r \<le> d}"
    by (auto simp: inventory_rows_def)
  have last: "\<forall>r \<in> set ?rows. ri_effective_date r \<le> ri_effective_date (last ?rows)"
    using sorted_last_max [OF sorted_filter [OF sorted]] by blast
  have same: "r = r'" if "r \<in> set ?rows" "r' \<in> set ?rows" "ri_effective_date r = ri_effective_date r'" for r r'
  proof -
    have "r \<in> set (room_inventory s)" "r' \<in> set (room_inventory s)" "inventory_key r = inventory_key r'"
      using that unfolding rows by (auto simp: inventory_key_def)
    moreover have "inj_on inventory_key (set (room_inventory s))" using assms by (simp add: config_wf_def distinct_map)
    ultimately show ?thesis by (metis inj_onD)
  qed
  show ?thesis
  proof (cases "?rows = []")
    case True
    then have "\<not> rooms_in_force s p d n" unfolding rooms_in_force_def using rows by (metis (mono_tags, lifting) empty_iff empty_set mem_Collect_eq)
    with True show ?thesis by (simp add: in_force_def in_force_loop_sorted [OF sorted])
  next
    case False
    then have mem: "last ?rows \<in> set ?rows" by (rule last_in_set)
    have l: "in_force (inventory_rows s p) d = Inr (ri_total_rooms (last ?rows))"
      using False by (simp add: in_force_def in_force_loop_sorted [OF sorted] split: list.split)
    have "rooms_in_force s p d n \<longleftrightarrow> ri_total_rooms (last ?rows) = n"
    proof
      assume "rooms_in_force s p d n"
      then obtain r where "r \<in> set ?rows" "ri_total_rooms r = n" "\<forall>r' \<in> set ?rows. ri_effective_date r' \<le> ri_effective_date r"
        unfolding rows by (auto simp: rooms_in_force_def)
      then show "ri_total_rooms (last ?rows) = n" using same mem last by (metis order_antisym)
    next
      assume "ri_total_rooms (last ?rows) = n"
      then show "rooms_in_force s p d n" using mem last rows unfolding rooms_in_force_def by blast
    qed
    then show ?thesis by (simp add: l)
  qed
qed


lemma in_force_unique: "in_force rows d = Inr m \<Longrightarrow> projr (in_force rows d) = m"
  by simp

lemma rooms_loop_exact:
  "rooms_loop rows blocks e d acc = Inr n \<longleftrightarrow>
     (\<forall>x \<in> {d..e}. \<exists>m. in_force rows x = Inr m \<and> ooo_on blocks x \<le> m)
     \<and> n = acc + (\<Sum>x \<in> {d..e}. projr (in_force rows x) - ooo_on blocks x)"
proof (induction rows blocks e d acc rule: rooms_loop.induct)
  case (1 rows blocks e d acc)
  show ?case
  proof (cases "d > e")
    case True
    then show ?thesis by (subst rooms_loop.simps) auto
  next
    case False
    then have days: "{d..e} = insert d {d + 1..e}" by auto
    show ?thesis
    proof (cases "in_force rows d")
      case (Inl x)
      then show ?thesis using False by (subst rooms_loop.simps) (auto intro!: bexI [of _ d])
    next
      case (Inr m)
      show ?thesis
      proof (cases "m - ooo_on blocks d < 0")
        case True
        then show ?thesis using False Inr by (subst rooms_loop.simps) (auto simp: Let_def intro!: bexI [of _ d])
      next
        case net: False
        then have "rooms_loop rows blocks e d acc = rooms_loop rows blocks e (d + 1) (acc + (m - ooo_on blocks d))"
          using False Inr by (subst rooms_loop.simps) (simp add: Let_def)
        then show ?thesis using 1 [OF False refl net] net unfolding days by (simp add: Inr add.assoc)
      qed
    qed
  qed
qed

lemma ooo_on_window:
  assumes "a \<le> d" "d \<le> e"
  shows "ooo_on (filter (\<lambda>b. oo_property_id b = p \<and> oo_start_date b \<le> e \<and> oo_end_date b \<ge> a) (out_of_order s)) d = rooms_out s p d"
  unfolding ooo_on_def rooms_out_def filter_filter
  by (rule arg_cong [of _ _ "\<lambda>bs. sum_list (map oo_room_count bs)"], rule filter_cong) (use assms in auto)

text \<open>
  From any state the routes reach, the room-nights of a window are exactly the sum over its days of the count in force (the
  row of the property with the latest effective date not after the day) less every room of a block that covers the day; they are
  refused when the window is reversed, when some day has no count, and when some day has more rooms out than in force.
\<close>

theorem rooms_available_exact:
  assumes "config_reach s"
  shows "rooms_available s p a e = Inr n \<longleftrightarrow>
    a \<le> e \<and> (\<exists>f. (\<forall>d \<in> {a..e}. rooms_in_force s p d (f d) \<and> rooms_out s p d \<le> f d) \<and> n = (\<Sum>d \<in> {a..e}. f d - rooms_out s p d))"
    (is "?L \<longleftrightarrow> a \<le> e \<and> (\<exists>f. ?all f \<and> n = ?sum f)")
proof (cases "a \<le> e")
  case True
  let ?in = "in_force (inventory_rows s p)"
  let ?blocks = "filter (\<lambda>b. oo_property_id b = p \<and> oo_start_date b \<le> e \<and> oo_end_date b \<ge> a) (out_of_order s)"
  have ooo: "ooo_on ?blocks d = rooms_out s p d" if "d \<in> {a..e}" for d using that by (intro ooo_on_window) auto
  have net: "(\<Sum>d \<in> {a..e}. projr (?in d) - ooo_on ?blocks d) = (\<Sum>d \<in> {a..e}. projr (?in d) - rooms_out s p d)"
    by (rule sum.cong) (simp_all add: ooo)
  have sum: "(\<Sum>d \<in> {a..e}. projr (?in d) - rooms_out s p d) = ?sum f" if "?all f" for f
    using that by (intro sum.cong) (auto simp flip: in_force_exact [OF config_reach_wf [OF assms]])
  have "?L \<longleftrightarrow> (\<forall>d \<in> {a..e}. \<exists>m. ?in d = Inr m \<and> rooms_out s p d \<le> m) \<and> n = (\<Sum>d \<in> {a..e}. projr (?in d) - rooms_out s p d)"
    using True ooo by (simp add: rooms_available_def rooms_loop_exact net)
  also have "\<dots> \<longleftrightarrow> (\<exists>f. ?all f \<and> n = ?sum f)"
  proof
    assume l: "(\<forall>d \<in> {a..e}. \<exists>m. ?in d = Inr m \<and> rooms_out s p d \<le> m) \<and> n = (\<Sum>d \<in> {a..e}. projr (?in d) - rooms_out s p d)"
    have "?all (\<lambda>d. projr (?in d))"
      using l by (auto simp flip: in_force_exact [OF config_reach_wf [OF assms]])
    with l show "\<exists>f. ?all f \<and> n = ?sum f" by (intro exI [of _ "\<lambda>d. projr (?in d)"]) simp
  next
    assume "\<exists>f. ?all f \<and> n = ?sum f"
    then obtain f where f: "?all f" "n = ?sum f" by blast
    have "\<forall>d \<in> {a..e}. \<exists>m. ?in d = Inr m \<and> rooms_out s p d \<le> m"
      using f(1) unfolding in_force_exact [OF config_reach_wf [OF assms]] by blast
    then show "(\<forall>d \<in> {a..e}. \<exists>m. ?in d = Inr m \<and> rooms_out s p d \<le> m) \<and> n = (\<Sum>d \<in> {a..e}. projr (?in d) - rooms_out s p d)"
      using f(2) sum [OF f(1)] by simp
  qed
  finally show ?thesis using True by simp
qed (simp add: rooms_available_def)


definition config_start :: config_db where
  "config_start = \<lparr>config_core = example_staff, room_inventory = [], out_of_order = [], stat_configs = []\<rparr>"

lemma config_example:
  "case set_inventory config_start example_gm ''A'' 100 10 of Inl _ \<Rightarrow> False | Inr (s1, _) \<Rightarrow>
     (case add_ooo s1 example_gm ''A'' 101 105 2 ''damage'' None of Inl _ \<Rightarrow> False | Inr (s2, _) \<Rightarrow>
        rooms_available s2 ''A'' 100 102 = Inr 26 \<and> rooms_available s2 ''A'' 99 102 = Inl InventoryNotConfigured)"
  by code_simp

theorem rooms_available_exact_witness:
  "\<exists>s f. config_reach s \<and> rooms_available s ''A'' 100 102 = Inr 26
     \<and> (\<forall>d \<in> {100..102}. rooms_in_force s ''A'' d (f d) \<and> rooms_out s ''A'' d \<le> f d) \<and> 26 = (\<Sum>d \<in> {100..102}. f d - rooms_out s ''A'' d)"
proof -
  obtain s1 r1 s2 r2 where s: "set_inventory config_start example_gm ''A'' 100 10 = Inr (s1, r1)"
    "add_ooo s1 example_gm ''A'' 101 105 2 ''damage'' None = Inr (s2, r2)" "rooms_available s2 ''A'' 100 102 = Inr 26"
    using config_example by (auto split: sum.splits prod.splits)
  have "config_reach config_start" by (rule config_reach.start) (simp_all add: config_start_def)
  with s have reach: "config_reach s2" by (meson config_reach.step config_step.inventory config_step.out_of_order)
  then show ?thesis using s(3) rooms_available_exact [of s2 "''A''" 100 102 26] by blast
qed

section \<open>A new calendar and the closed periods\<close>

lemma find_update:
  "find (\<lambda>r. fc_property_id r = q') (map (\<lambda>r. if fc_property_id r = q then row else r) rows) =
     (if q' = q then map_option (\<lambda>_. row) (find (\<lambda>r. fc_property_id r = q) rows) else find (\<lambda>r. fc_property_id r = q') rows)"
  if "fc_property_id row = q"
  using that by (induction rows) auto

lemma find_snoc: "find P (xs @ [x]) = (case find P xs of None \<Rightarrow> if P x then Some x else None | Some y \<Rightarrow> Some y)"
  by (induction xs) auto

lemma set_fiscal_calendar_core:
  assumes "set_fiscal_calendar s p q cfg = Inr (s', cfg')"
  shows "config_for (config_core s') q' = (if q' = q then Some cfg else config_for (config_core s) q')"
    and "period_events (config_core s') = period_events (config_core s)"
  using assms
  by (auto simp: set_fiscal_calendar_def inr Let_def audit_config_def audit_row_def config_for_def find_update find_snoc
      split: if_splits option.splits)

text \<open>
  Setting a calendar does not look at the closed periods, and a closed period is only a key: after the new calendar a day is
  closed exactly when the key the new calendar gives it was closed before, so a day of a closed period that the new calendar puts
  under another key takes postings again, and a day of an open one may be frozen.  No other property is touched.
\<close>

theorem calendar_change_moves_freeze:
  assumes "set_fiscal_calendar s p q cfg = Inr (s', cfg')"
  shows "(period_key_for (config_core s') q' d = Inr k \<and> period_state (config_core s') q' k = ''closed'') \<longleftrightarrow>
    (if q' = q then period_containing cfg d else period_key_for (config_core s) q' d) = Inr k \<and> period_state (config_core s) q' k = ''closed''"
  by (simp add: period_key_for_def period_state_def set_fiscal_calendar_core [OF assms] require_config_def)

definition january_year :: FiscalConfig where
  "january_year = \<lparr>calendar_type = ''calendar_month'', fiscal_year_start_month = 1, week_start_weekday = None\<rparr>"

definition february_year :: FiscalConfig where
  "february_year = \<lparr>calendar_type = ''calendar_month'', fiscal_year_start_month = 2, week_start_weekday = None\<rparr>"

definition config_closed :: config_db where
  "config_closed = config_start\<lparr>config_core := add_period_event (example_staff\<lparr>fiscal_calendars := [\<lparr>fc_property_id = ''A'',
     fc_calendar_type = ''calendar_month'', fc_fiscal_year_start_month = 1, fc_week_start_weekday = None\<rparr>]\<rparr>) ''A'' ''2021-P02'' ''close'' ''cfo'' None\<rparr>"

lemma first_periods: "[1..12] = 1 # 2 # [3..12::int]"
  by (simp add: upto_rec1)

lemma february_in_both:
  "period_containing january_year 737831 = Inr ''2021-P02''" "period_containing february_year 737831 = Inr ''2021-P01''"
proof -
  have ok: "config_ok january_year" "config_ok february_year" by (simp_all add: config_ok_def january_year_def february_year_def)
  have y: "fiscal_year_of january_year 737831 = Inr 2021" "fiscal_year_of february_year 737831 = Inr 2021" by code_simp+
  have s: "period_start january_year 2021 0 = 737791" "period_start january_year 2021 1 = 737822" "period_start january_year 2021 2 = 737850"
    "period_start february_year 2021 0 = 737822" "period_start february_year 2021 1 = 737850" by code_simp+
  have k: "period_key_of 2021 2 = ''2021-P02''" "period_key_of 2021 1 = ''2021-P01''" by code_simp+
  show "period_containing january_year 737831 = Inr ''2021-P02''" "period_containing february_year 737831 = Inr ''2021-P01''"
    using s by (simp_all add: period_containing_def y periods_in_year_eq ok first_periods k)
qed

lemma config_closed_facts:
  "case set_fiscal_calendar config_closed example_gm ''A'' february_year of Inl _ \<Rightarrow> False | Inr (_, c) \<Rightarrow> c = february_year"
  "config_for (config_core config_closed) ''A'' = Some january_year"
  "period_state (config_core config_closed) ''A'' ''2021-P02'' = ''closed''"
  "period_state (config_core config_closed) ''A'' ''2021-P01'' = ''open''"
  by code_simp+

theorem calendar_change_moves_freeze_witness:
  "\<exists>s'. set_fiscal_calendar config_closed example_gm ''A'' february_year = Inr (s', february_year)
    \<and> period_key_for (config_core config_closed) ''A'' 737831 = Inr ''2021-P02''
    \<and> period_state (config_core config_closed) ''A'' ''2021-P02'' = ''closed''
    \<and> \<not> (\<exists>k. period_key_for (config_core s') ''A'' 737831 = Inr k \<and> period_state (config_core s') ''A'' k = ''closed'')"
proof -
  obtain s' where s: "set_fiscal_calendar config_closed example_gm ''A'' february_year = Inr (s', february_year)"
    using config_closed_facts(1) by (auto split: sum.splits prod.splits)
  have "\<not> (period_key_for (config_core s') ''A'' 737831 = Inr k \<and> period_state (config_core s') ''A'' k = ''closed'')" for k
    unfolding calendar_change_moves_freeze [OF s, of "''A''" 737831 k] using config_closed_facts(4) february_in_both(2) by auto
  moreover have "period_key_for (config_core config_closed) ''A'' 737831 = Inr ''2021-P02''"
    by (simp add: period_key_for_def config_closed_facts(2) require_config_def february_in_both(1))
  ultimately show ?thesis using s config_closed_facts(3) by blast
qed
end
