(* ===== verification/Gates.thy ===== *)
theory Gates
  imports Models PyStr
begin

text \<open>
  \<^verbatim>\<open>usali/ratelimit.py\<close>, \<^verbatim>\<open>usali/otp.py\<close> and \<^verbatim>\<open>usali/invites.py\<close>: the gates in front of the public sign-up.  \<open>sha256\<close> is the digest,
  an arbitrary function; the random draws of \<^verbatim>\<open>secrets\<close> and the time are arguments.  Clock readings of the limiter are rationals:
  the rounding of \<^verbatim>\<open>now - window\<close> on floats is not modelled.
\<close>

section \<open>The rate limiter\<close>

record RateLimiter =
  rl_max :: int
  rl_window :: rat
  rl_events :: "(string, rat list) dict"

definition new_limiter :: "int \<Rightarrow> rat \<Rightarrow> RateLimiter" where
  "new_limiter max_events window_seconds = \<lparr>rl_max = max_events, rl_window = window_seconds, rl_events = []\<rparr>"

definition allow :: "rat \<Rightarrow> string \<Rightarrow> RateLimiter \<Rightarrow> RateLimiter \<times> bool" where
  "allow now key rl =
    (let cutoff = now - rl_window rl;
         active = filter (\<lambda>(k, ts). \<not> (ts = [] \<or> last ts \<le> cutoff)) (rl_events rl);
         recent = filter (\<lambda>t. t > cutoff) (dict_get active key [])
     in if int (length recent) \<ge> rl_max rl then (rl\<lparr>rl_events := AList.update key recent active\<rparr>, False)
        else (rl\<lparr>rl_events := AList.update key (recent @ [now]) active\<rparr>, True))"

text \<open>A history of calls, and the log that keeps every accepted one.\<close>

fun limiter_run :: "RateLimiter \<Rightarrow> (rat \<times> string) list \<Rightarrow> bool list" where
  "limiter_run rl [] = []"
| "limiter_run rl ((now, key) # calls) = (let (rl', ok) = allow now key rl in ok # limiter_run rl' calls)"

definition in_window :: "(rat \<times> string) list \<Rightarrow> string \<Rightarrow> rat \<Rightarrow> rat \<Rightarrow> nat" where
  "in_window hist key a b = length (filter (\<lambda>(t, k). k = key \<and> a < t \<and> t \<le> b) hist)"

fun log_run :: "int \<Rightarrow> rat \<Rightarrow> (rat \<times> string) list \<Rightarrow> (rat \<times> string) list \<Rightarrow> bool list" where
  "log_run m w hist [] = []"
| "log_run m w hist ((now, key) # calls) =
    (let ok = int (in_window hist key (now - w) now) < m in ok # log_run m w (if ok then hist @ [(now, key)] else hist) calls)"

definition accepted :: "(rat \<times> string) list \<Rightarrow> bool list \<Rightarrow> (rat \<times> string) list" where
  "accepted calls oks = map fst (filter snd (zip calls oks))"

lemma accepted_simps [simp]:
  "accepted [] oks = []" "accepted (c # calls) (ok # oks) = (if ok then c # accepted calls oks else accepted calls oks)"
  by (simp_all add: accepted_def)

text \<open>What the stored times of a key are worth against the log: the same from any cutoff the clock has passed.\<close>

definition log_of :: "(rat \<times> string) list \<Rightarrow> string \<Rightarrow> rat list" where
  "log_of hist key = map fst (filter (\<lambda>(t, k). k = key) hist)"

definition limiter_sim :: "RateLimiter \<Rightarrow> (rat \<times> string) list \<Rightarrow> rat \<Rightarrow> bool" where
  "limiter_sim rl hist now \<longleftrightarrow>
     distinct (keys (rl_events rl)) \<and> (\<forall>(t, k) \<in> set hist. t \<le> now)
     \<and> (\<forall>key. sorted (dict_get (rl_events rl) key [])
          \<and> (\<forall>c \<ge> now - rl_window rl. filter (\<lambda>t. t > c) (dict_get (rl_events rl) key []) = filter (\<lambda>t. t > c) (log_of hist key)))"

lemma in_window_log_of:
  "\<forall>(t, k) \<in> set hist. t \<le> b \<Longrightarrow> in_window hist key a b = length (filter (\<lambda>t. t > a) (log_of hist key))"
  unfolding in_window_def log_of_def by (induction hist) auto

lemma dict_get_filter:
  "distinct (keys d) \<Longrightarrow>
   dict_get (filter (\<lambda>(k, v). P v) d) key z = (if P (dict_get d key z) then dict_get d key z else z)"
  by (induction d) (auto simp: dict_get_def image_iff split: option.splits dest: map_of_SomeD)


lemma keys_filter_distinct: "distinct (keys d) \<Longrightarrow> distinct (keys (filter P d))"
  by (induction d) auto

lemma log_of_le: "\<forall>(t, k) \<in> set hist. t \<le> b \<Longrightarrow> t \<in> set (log_of hist key) \<Longrightarrow> t \<le> b"
  by (auto simp: log_of_def)

lemma log_of_snoc [simp]: "log_of (hist @ [(now, k)]) key = (if k = key then log_of hist key @ [now] else log_of hist key)"
  by (simp add: log_of_def)

lemma last_greatest: "sorted ts \<Longrightarrow> t \<in> set ts \<Longrightarrow> t \<le> last ts"
  by (induction ts) auto

lemma filter_last_le: "sorted ts \<Longrightarrow> ts = [] \<or> last ts \<le> a \<Longrightarrow> a \<le> c \<Longrightarrow> filter (\<lambda>t. t > c) ts = []" for ts :: "rat list"
  using last_greatest [of ts] by (force simp: filter_empty_conv)

text \<open>Dropping the keys whose last time is past the cutoff, and the times past it, loses nothing a later call counts.\<close>

lemma allow_sim:
  assumes sim: "limiter_sim rl hist n" and le: "n \<le> now" and w: "0 \<le> rl_window rl" and allow: "allow now key rl = (rl', ok)"
  shows "ok \<longleftrightarrow> int (in_window hist key (now - rl_window rl) now) < rl_max rl"
    and "limiter_sim rl' (if ok then hist @ [(now, key)] else hist) now"
    and "rl_max rl' = rl_max rl" "rl_window rl' = rl_window rl"
proof -
  define cut where "cut = now - rl_window rl"
  define active where "active = filter (\<lambda>(k, ts). \<not> (ts = [] \<or> last ts \<le> cut)) (rl_events rl)"
  define recent where "recent = filter (\<lambda>t. t > cut) (dict_get active key [])"
  from sim have d: "distinct (keys (rl_events rl))" and h: "\<forall>(t, k) \<in> set hist. t \<le> n" and so: "sorted (dict_get (rl_events rl) k [])"
    and eq: "n - rl_window rl \<le> c \<Longrightarrow> filter (\<lambda>t. t > c) (dict_get (rl_events rl) k []) = filter (\<lambda>t. t > c) (log_of hist k)" for k c
    unfolding limiter_sim_def by auto
  have get: "dict_get active k [] = (let ts = dict_get (rl_events rl) k [] in if \<not> (ts = [] \<or> last ts \<le> cut) then ts else [])" for k
    unfolding active_def Let_def by (rule dict_get_filter [OF d])
  have act: "filter (\<lambda>t. t > c) (dict_get active k []) = filter (\<lambda>t. t > c) (log_of hist k)" if "cut \<le> c" for k c
  proof -
    have "n - rl_window rl \<le> c" using that le by (simp add: cut_def)
    then show ?thesis using filter_last_le [OF so _ that] by (auto simp: get Let_def simp flip: eq)
  qed
  have recent: "recent = filter (\<lambda>t. t > cut) (log_of hist key)" by (simp add: recent_def act)
  have h': "\<forall>(t, k) \<in> set hist. t \<le> now" using h le by fastforce
  have len: "length recent = in_window hist key cut now" by (simp add: in_window_log_of [OF h'] recent)
  have rl': "rl' = rl\<lparr>rl_events := AList.update key (if ok then recent @ [now] else recent) active\<rparr>" "ok \<longleftrightarrow> int (length recent) < rl_max rl"
    using allow by (auto simp: allow_def Let_def cut_def active_def recent_def split: if_splits)
  then show "ok \<longleftrightarrow> int (in_window hist key (now - rl_window rl) now) < rl_max rl" "rl_max rl' = rl_max rl" "rl_window rl' = rl_window rl"
    using len by (auto simp: cut_def)
  have sorted_act: "sorted (dict_get active k [])" for k using so [of k] by (simp add: get Let_def)
  have "sorted recent" unfolding recent_def using sorted_act by (simp add: sorted_wrt_filter)
  moreover have "\<forall>t \<in> set recent. t \<le> now" using log_of_le [OF h'] by (auto simp: recent)
  ultimately have sorted_new: "sorted (if ok then recent @ [now] else recent)" by (simp add: sorted_append)
  show "limiter_sim rl' (if ok then hist @ [(now, key)] else hist) now"
    unfolding limiter_sim_def
  proof (intro conjI allI impI)
    show "distinct (keys (rl_events rl'))" using keys_filter_distinct [OF d] by (simp add: rl' active_def)
    show "\<forall>(t, k) \<in> set (if ok then hist @ [(now, key)] else hist). t \<le> now" using h' by auto
    fix k
    show "sorted (dict_get (rl_events rl') k [])" using sorted_new sorted_act by (simp add: rl'(1))
    fix c assume c: "now - rl_window rl' \<le> c"
    then have "cut \<le> c" by (simp add: rl'(1) cut_def)
    then show "filter (\<lambda>t. t > c) (dict_get (rl_events rl') k []) = filter (\<lambda>t. t > c) (log_of (if ok then hist @ [(now, key)] else hist) k)"
      using act [of c k] by (auto simp: rl'(1) recent filter_filter intro!: filter_cong)
  qed
qed

lemma limiter_run_sim:
  "limiter_sim rl hist n \<Longrightarrow> 0 \<le> rl_window rl \<Longrightarrow> sorted (n # map fst calls) \<Longrightarrow>
   limiter_run rl calls = log_run (rl_max rl) (rl_window rl) hist calls"
proof (induction calls arbitrary: rl hist n)
  case (Cons c calls)
  obtain now key where c: "c = (now, key)" by (cases c)
  obtain rl' ok where a: "allow now key rl = (rl', ok)" by (cases "allow now key rl")
  from Cons.prems c have "n \<le> now" "sorted (now # map fst calls)" by auto
  note step = allow_sim [OF Cons.prems(1) this(1) Cons.prems(2) a]
  have "limiter_run rl' calls = log_run (rl_max rl) (rl_window rl) (if ok then hist @ [(now, key)] else hist) calls"
    using Cons.IH [OF step(2)] step(3,4) Cons.prems(2) \<open>sorted (now # map fst calls)\<close> by simp
  then show ?case using step(1) by (simp add: c a Let_def del: log_run.simps) (simp add: Let_def)
qed simp

lemma in_window_mono:
  "a' \<le> a \<Longrightarrow> \<forall>(t, k) \<in> set hist. t \<le> b' \<Longrightarrow> in_window hist key a b \<le> in_window hist key a' b'"
  unfolding in_window_def by (induction hist) auto

lemma in_window_snoc [simp]:
  "in_window (hist @ [(t, k)]) key a b = in_window hist key a b + (if k = key \<and> a < t \<and> t \<le> b then 1 else 0)"
  by (simp add: in_window_def)

lemma log_run_bound:
  assumes "\<forall>(t, k) \<in> set hist. t \<le> n" "sorted (n # map fst calls)" "\<forall>b. int (in_window hist key (b - w) b) \<le> m"
  shows "int (in_window (hist @ accepted calls (log_run m w hist calls)) key (b - w) b) \<le> m"
  using assms
proof (induction calls arbitrary: hist n)
  case (Cons c calls)
  obtain now k where c: "c = (now, k)" by (cases c)
  from Cons.prems c have h: "\<forall>(t, k) \<in> set hist. t \<le> now" and so: "sorted (now # map fst calls)" by fastforce+
  show ?case
  proof (cases "int (in_window hist k (now - w) now) < m")
    case True
    have "\<forall>b. int (in_window (hist @ [(now, k)]) key (b - w) b) \<le> m"
    proof
      fix b
      show "int (in_window (hist @ [(now, k)]) key (b - w) b) \<le> m"
      proof (cases "k = key \<and> b - w < now \<and> now \<le> b")
        case inside: True
        then have "in_window hist key (b - w) b \<le> in_window hist k (now - w) now" using in_window_mono [OF _ h, of "now - w" "b - w" key b] by simp
        then show ?thesis using True inside by simp
      next
        case False
        then have "in_window (hist @ [(now, k)]) key (b - w) b = in_window hist key (b - w) b" by auto
        then show ?thesis using Cons.prems(3) by simp
      qed
    qed
    then show ?thesis using Cons.IH [of "hist @ [(now, k)]" now] h so True by (simp add: c)
  qed (use Cons.IH [OF h so] Cons.prems(3) in \<open>simp add: c\<close>)
qed (simp add: accepted_def)

text \<open>
  On a clock that never runs back the limiter, which evicts as it goes, answers every call as one that keeps the whole log of
  accepted calls: a call is let through exactly when fewer than the ceiling were accepted for its key within the window before
  it.  So no window of that length, wherever it starts, holds more accepted calls of a key than the ceiling.
\<close>

theorem rate_limiter_exact:
  assumes "sorted (map fst calls)" "0 \<le> w" "0 \<le> m"
  shows "limiter_run (new_limiter m w) calls = log_run m w [] calls
    \<and> int (in_window (accepted calls (limiter_run (new_limiter m w) calls)) key (b - w) b) \<le> m"
proof (cases calls)
  case (Cons c cs)
  have sim: "limiter_sim (new_limiter m w) [] (fst c)" by (simp add: limiter_sim_def new_limiter_def log_of_def)
  have so: "sorted (fst c # map fst calls)" using assms(1) Cons by simp
  have "limiter_run (new_limiter m w) calls = log_run m w [] calls"
    using limiter_run_sim [OF sim _ so] assms(2) by (simp add: new_limiter_def)
  moreover have "int (in_window ([] @ accepted calls (log_run m w [] calls)) key (b - w) b) \<le> m"
    by (rule log_run_bound [OF _ so]) (use assms(3) in \<open>simp_all add: in_window_def\<close>)
  ultimately show ?thesis by simp
qed (use assms(3) in \<open>simp add: accepted_def in_window_def\<close>)

theorem rate_limiter_exact_witness:
  "limiter_run (new_limiter 2 60) [(0, ''a''), (10, ''a''), (20, ''a''), (30, ''b''), (61, ''a'')] = [True, True, False, True, True]
    \<and> int (in_window (accepted [(0, ''a''), (10, ''a''), (20, ''a''), (30, ''b''), (61, ''a'')]
            (limiter_run (new_limiter 2 60) [(0, ''a''), (10, ''a''), (20, ''a''), (30, ''b''), (61, ''a'')])) ''a'' (70 - 60) 70) \<le> 2"
  using rate_limiter_exact [of "[(0, ''a''), (10, ''a''), (20, ''a''), (30, ''b''), (61, ''a'')]" 60 2 "''a''" 70]
  by (simp add: in_window_def)

section \<open>One-time codes\<close>

record OtpChallenge =
  ot_otp_id :: int
  ot_purpose :: string
  ot_target :: string
  ot_code_hash :: string
  ot_expires_at :: instant
  ot_attempts :: int

record OtpService =
  os_ttl :: int
  os_max_attempts :: int

definition same_pair :: "string \<Rightarrow> string \<Rightarrow> OtpChallenge \<Rightarrow> bool" where
  "same_pair purpose target c \<longleftrightarrow> ot_purpose c = purpose \<and> ot_target c = target"

text \<open>\<^verbatim>\<open>randbelow\<close> is the draw of \<^verbatim>\<open>secrets.randbelow(1_000_000)\<close>.\<close>

definition issue ::
  "(string \<Rightarrow> string) \<Rightarrow> OtpService \<Rightarrow> string \<Rightarrow> string \<Rightarrow> int \<Rightarrow> instant \<Rightarrow> OtpChallenge list \<Rightarrow> OtpChallenge list \<times> string" where
  "issue sha256 sv purpose target randbelow now cs =
    (let rest = filter (\<lambda>c. \<not> same_pair purpose target c) cs;
         code = zpad 6 (str_int randbelow)
     in (rest @ [\<lparr>ot_otp_id = next_id (map ot_otp_id cs), ot_purpose = purpose, ot_target = target, ot_code_hash = sha256 code,
                  ot_expires_at = now + os_ttl sv, ot_attempts = 0\<rparr>], code))"

definition verify ::
  "(string \<Rightarrow> string) \<Rightarrow> OtpService \<Rightarrow> string \<Rightarrow> string \<Rightarrow> string \<Rightarrow> instant \<Rightarrow> OtpChallenge list \<Rightarrow> (OtpChallenge list \<times> bool) res" where
  "verify sha256 sv purpose target code now cs =
     bindE (scalar_one_or_none (filter (same_pair purpose target) cs)) (\<lambda>challenge.
       case challenge of
         None \<Rightarrow> Inr (cs, False)
       | Some c \<Rightarrow>
           if ot_expires_at c \<le> now \<or> ot_attempts c \<ge> os_max_attempts sv then Inr (cs, False)
           else if ot_code_hash c \<noteq> sha256 code
           then Inr (map (\<lambda>x. if same_pair purpose target x then x\<lparr>ot_attempts := ot_attempts x + 1\<rparr> else x) cs, False)
           else Inr (filter (\<lambda>x. \<not> same_pair purpose target x) cs, True))"

text \<open>A run of tries at one pair.\<close>

fun verify_run ::
  "(string \<Rightarrow> string) \<Rightarrow> OtpService \<Rightarrow> string \<Rightarrow> string \<Rightarrow> (string \<times> instant) list \<Rightarrow> OtpChallenge list \<Rightarrow> bool list res" where
  "verify_run sha256 sv purpose target [] cs = Inr []"
| "verify_run sha256 sv purpose target ((code, now) # tries) cs =
     bindE (verify sha256 sv purpose target code now cs) (\<lambda>(cs', ok).
     bindE (verify_run sha256 sv purpose target tries cs') (\<lambda>oks. Inr (ok # oks)))"

lemma same_pair_tries [simp]: "same_pair p t (x\<lparr>ot_attempts := n\<rparr>) = same_pair p t x"
  by (simp add: same_pair_def)

lemma filter_tries:
  "filter (same_pair p t) (map (\<lambda>x. if same_pair p t x then x\<lparr>ot_attempts := ot_attempts x + 1\<rparr> else x) cs)
   = map (\<lambda>x. x\<lparr>ot_attempts := ot_attempts x + 1\<rparr>) (filter (same_pair p t) cs)"
  by (induction cs) auto

lemma verify_none: "filter (same_pair p t) cs = [] \<Longrightarrow> verify_run h sv p t tries cs = Inr (replicate (length tries) False)"
proof (induction tries)
  case (Cons x xs)
  then show ?case by (cases x) (simp add: verify_def scalar_one_or_none_def)
qed simp

lemma verify_dead:
  "filter (same_pair p t) cs = [c] \<Longrightarrow> sorted (map snd tries) \<Longrightarrow> tries \<noteq> [] \<longrightarrow> ot_expires_at c \<le> snd (hd tries) \<or> ot_attempts c \<ge> os_max_attempts sv \<Longrightarrow>
   verify_run h sv p t tries cs = Inr (replicate (length tries) False)"
proof (induction tries)
  case (Cons x xs)
  then have "xs \<noteq> [] \<longrightarrow> ot_expires_at c \<le> snd (hd xs) \<or> ot_attempts c \<ge> os_max_attempts sv"
    by (cases xs) auto
  with Cons show ?case by (cases x) (auto simp: verify_def scalar_one_or_none_def)
qed simp

text \<open>Which try of a run opens the pair.\<close>

definition opens :: "(string \<Rightarrow> string) \<Rightarrow> OtpChallenge \<Rightarrow> int \<Rightarrow> (string \<times> instant) list \<Rightarrow> nat \<Rightarrow> bool" where
  "opens sha256 c left tries i \<longleftrightarrow> int i < left \<and> snd (tries ! i) < ot_expires_at c \<and> sha256 (fst (tries ! i)) = ot_code_hash c
     \<and> (\<forall>j < i. sha256 (fst (tries ! j)) \<noteq> ot_code_hash c)"

lemma verify_run_exact:
  "filter (same_pair p t) cs = [c] \<Longrightarrow> sorted (map snd tries) \<Longrightarrow>
   verify_run h sv p t tries cs = Inr (map (opens h c (os_max_attempts sv - ot_attempts c) tries) [0..<length tries])"
proof (induction tries arbitrary: cs c)
  case (Cons x xs)
  obtain code now where x: "x = (code, now)" by (cases x)
  let ?left = "os_max_attempts sv - ot_attempts c"
  have split: "map (opens h c ?left (x # xs)) [0..<length (x # xs)]
      = opens h c ?left (x # xs) 0 # map (\<lambda>i. opens h c ?left (x # xs) (Suc i)) [0..<length xs]"
    by (simp add: upt_conv_Cons map_Suc_upt [symmetric] del: upt_Suc)
  have first: "opens h c ?left (x # xs) 0 \<longleftrightarrow> 0 < ?left \<and> now < ot_expires_at c \<and> h code = ot_code_hash c"
    by (simp add: opens_def x)
  have later: "now \<le> snd (xs ! i)" if "i < length xs" for i using Cons.prems(2) that by (auto simp: x)
  consider (dead) "ot_expires_at c \<le> now \<or> ot_attempts c \<ge> os_max_attempts sv" | (hit) "now < ot_expires_at c" "0 < ?left" "h code = ot_code_hash c"
    | (miss) "now < ot_expires_at c" "0 < ?left" "h code \<noteq> ot_code_hash c" by linarith
  then show ?case
  proof cases
    case dead
    have "\<not> opens h c ?left (x # xs) i" if i: "i < length (x # xs)" for i
    proof (cases i)
      case 0
      then show ?thesis using dead by (auto simp: opens_def x)
    next
      case (Suc k)
      then show ?thesis using dead later [of k] i by (auto simp: opens_def)
    qed
    then have "map (opens h c ?left (x # xs)) [0..<length (x # xs)] = map (\<lambda>_. False) [0..<length (x # xs)]"
      by (intro map_cong refl) (simp del: upt_Suc)
    moreover have "verify_run h sv p t (x # xs) cs = Inr (replicate (length (x # xs)) False)"
      by (rule verify_dead [OF Cons.prems]) (use dead in \<open>simp add: x\<close>)
    ultimately show ?thesis by (simp only: map_replicate_const) simp
  next
    case hit
    let ?cs = "filter (\<lambda>x. \<not> same_pair p t x) cs"
    have "verify_run h sv p t xs ?cs = Inr (replicate (length xs) False)" by (rule verify_none) (simp add: filter_empty_conv)
    moreover have "verify h sv p t code now cs = Inr (?cs, True)"
      using Cons.prems(1) hit by (simp add: verify_def scalar_one_or_none_def)
    moreover have "opens h c ?left (x # xs) (Suc i) = False" for i using hit(3) by (auto simp: opens_def x)
    ultimately show ?thesis using first hit by (simp only: split) (simp add: x map_replicate_const)
  next
    case miss
    let ?cs = "map (\<lambda>x. if same_pair p t x then x\<lparr>ot_attempts := ot_attempts x + 1\<rparr> else x) cs"
    have c: "same_pair p t c" using Cons.prems(1) filter_eq_ConsD [OF Cons.prems(1)] by auto
    have "filter (same_pair p t) ?cs = map (\<lambda>x. x\<lparr>ot_attempts := ot_attempts x + 1\<rparr>) (filter (same_pair p t) cs)"
      by (rule filter_tries)
    then have rest: "filter (same_pair p t) ?cs = [c\<lparr>ot_attempts := ot_attempts c + 1\<rparr>]" by (simp add: Cons.prems(1))
    have "verify h sv p t code now cs = Inr (?cs, False)"
      using Cons.prems(1) miss by (simp add: verify_def scalar_one_or_none_def)
    moreover have "opens h (c\<lparr>ot_attempts := ot_attempts c + 1\<rparr>) (os_max_attempts sv - (ot_attempts c + 1)) xs i = opens h c ?left (x # xs) (Suc i)" for i
      using miss(3) by (auto simp: opens_def x less_Suc_eq_0_disj)
    ultimately show ?thesis
      using Cons.IH [OF rest] Cons.prems(2) first miss by (simp only: split) (simp add: x)
  qed
qed simp

text \<open>
  A code that has been issued is single-use and bounded: in any run of tries at its pair, in the order of the clock, the tries
  that succeed are exactly the first one that carries the code, provided it is among the first tries up to the ceiling and before
  the expiry; at most one try succeeds, and no try past the ceiling does, whatever it carries.
\<close>

theorem otp_bounded_single_use:
  assumes "issue sha256 sv purpose target r t0 cs0 = (cs, code)" "sorted (map snd tries)"
  shows "\<exists>oks. verify_run sha256 sv purpose target tries cs = Inr oks \<and> length oks = length tries
    \<and> (\<forall>i < length tries. oks ! i \<longleftrightarrow> int i < os_max_attempts sv \<and> snd (tries ! i) < t0 + os_ttl sv \<and> sha256 (fst (tries ! i)) = sha256 code
          \<and> (\<forall>j < i. sha256 (fst (tries ! j)) \<noteq> sha256 code))
    \<and> length (filter id oks) \<le> 1"
proof -
  define c where "c = \<lparr>ot_otp_id = next_id (map ot_otp_id cs0), ot_purpose = purpose, ot_target = target, ot_code_hash = sha256 code,
    ot_expires_at = t0 + os_ttl sv, ot_attempts = 0\<rparr>"
  have "filter (same_pair purpose target) cs = [c]"
    using assms(1) by (auto simp: issue_def Let_def c_def same_pair_def filter_empty_conv)
  from verify_run_exact [OF this assms(2), of sha256 sv]
  have run: "verify_run sha256 sv purpose target tries cs = Inr (map (opens sha256 c (os_max_attempts sv) tries) [0..<length tries])"
    by (simp add: c_def)
  have "length (filter (opens sha256 c n tries) [0..<m]) \<le> 1" for n m
  proof -
    have "i = j" if "opens sha256 c n tries i" "opens sha256 c n tries j" for i j
      using that by (metis opens_def linorder_neqE_nat)
    then have "card (set (filter (opens sha256 c n tries) [0..<m])) \<le> 1" by (auto simp: card_le_Suc0_iff_eq)
    moreover have "card (set (filter (opens sha256 c n tries) [0..<m])) = length (filter (opens sha256 c n tries) [0..<m])"
      by (rule distinct_card) simp
    ultimately show ?thesis by linarith
  qed
  then have "length (filter id (map (opens sha256 c (os_max_attempts sv) tries) [0..<length tries])) \<le> 1"
    by (simp add: filter_map)
  with run show ?thesis by (intro exI [of _ "map (opens sha256 c (os_max_attempts sv) tries) [0..<length tries]"]) (auto simp: opens_def c_def)
qed

theorem otp_bounded_single_use_witness:
  "\<exists>cs oks. issue id \<lparr>os_ttl = 600000000, os_max_attempts = 2\<rparr> ''signup_email'' ''o@x.io'' 42 0 [] = (cs, ''000042'')
     \<and> verify_run id \<lparr>os_ttl = 600000000, os_max_attempts = 2\<rparr> ''signup_email'' ''o@x.io'' [(''1'', 5), (''000042'', 6), (''000042'', 7)] cs = Inr oks
     \<and> oks ! 1 \<and> length (filter id oks) \<le> 1"
proof -
  let ?sv = "\<lparr>os_ttl = 600000000, os_max_attempts = 2\<rparr>" and ?tries = "[(''1'', 5), (''000042'', 6), (''000042'', 7)] :: (string \<times> instant) list"
  have "snd (issue id ?sv ''signup_email'' ''o@x.io'' 42 0 []) = ''000042''" by code_simp
  then obtain cs where cs: "issue id ?sv ''signup_email'' ''o@x.io'' 42 0 [] = (cs, ''000042'')" by (metis prod.collapse)
  from otp_bounded_single_use [OF this, of ?tries] obtain oks where
    "verify_run id ?sv ''signup_email'' ''o@x.io'' ?tries cs = Inr oks" "length (filter id oks) \<le> 1" "oks ! 1" by auto
  with cs show ?thesis by blast
qed

section \<open>Invites\<close>

record Invite =
  iv_invite_id :: int
  iv_email :: string
  iv_token_hash :: string
  iv_status :: string
  iv_expires_at :: instant
  iv_consumed_org_id :: "int option"

text \<open>\<^verbatim>\<open>raw_token\<close> is the draw of \<^verbatim>\<open>secrets.token_urlsafe(32)\<close>; the flush checks \<^verbatim>\<open>uq_invite_token_hash\<close>.\<close>

definition create_invite ::
  "(string \<Rightarrow> string) \<Rightarrow> string \<Rightarrow> int \<Rightarrow> string \<Rightarrow> instant \<Rightarrow> Invite list \<Rightarrow> (Invite list \<times> Invite) res" where
  "create_invite sha256 email ttl raw_token now ivs =
    (let invite = \<lparr>iv_invite_id = next_id (map iv_invite_id ivs), iv_email = email, iv_token_hash = sha256 raw_token,
                    iv_status = ''pending'', iv_expires_at = now + ttl, iv_consumed_org_id = None\<rparr>
     in if iv_token_hash invite \<in> iv_token_hash ` set ivs then Inl IntegrityError else Inr (ivs @ [invite], invite))"

definition validate :: "(string \<Rightarrow> string) \<Rightarrow> string \<Rightarrow> instant \<Rightarrow> Invite list \<Rightarrow> Invite option res" where
  "validate sha256 raw_token now ivs =
     bindE (scalar_one_or_none (filter (\<lambda>i. iv_token_hash i = sha256 raw_token) ivs)) (\<lambda>invite.
       Inr (case invite of
              None \<Rightarrow> None
            | Some i \<Rightarrow> if iv_status i \<noteq> ''pending'' then None else if iv_expires_at i \<le> now then None else Some i))"

text \<open>An \<^verbatim>\<open>UPDATE\<close> on the rows that meet a condition, with its row count.\<close>

definition update_where :: "('a \<Rightarrow> bool) \<Rightarrow> ('a \<Rightarrow> 'a) \<Rightarrow> 'a list \<Rightarrow> 'a list \<times> nat" where
  "update_where P f rows = (map (\<lambda>r. if P r then f r else r) rows, length (filter P rows))"

definition consume :: "int \<Rightarrow> int \<Rightarrow> Invite list \<Rightarrow> Invite list" where
  "consume invite_id org_id ivs =
     fst (update_where (\<lambda>i. iv_invite_id i = invite_id) (\<lambda>i. i\<lparr>iv_status := ''consumed'', iv_consumed_org_id := Some org_id\<rparr>) ivs)"

definition claim :: "(string \<Rightarrow> string) \<Rightarrow> string \<Rightarrow> instant \<Rightarrow> Invite list \<Rightarrow> Invite list \<times> bool" where
  "claim sha256 raw_token now ivs =
    (let (ivs', rowcount) = update_where (\<lambda>i. iv_token_hash i = sha256 raw_token \<and> iv_status i = ''pending'' \<and> iv_expires_at i > now)
                              (\<lambda>i. i\<lparr>iv_status := ''consumed''\<rparr>) ivs
     in (ivs', rowcount = 1))"

definition revert_claim :: "(string \<Rightarrow> string) \<Rightarrow> string \<Rightarrow> Invite list \<Rightarrow> Invite list" where
  "revert_claim sha256 raw_token ivs =
     fst (update_where (\<lambda>i. iv_token_hash i = sha256 raw_token \<and> iv_status i = ''consumed'' \<and> iv_consumed_org_id i = None)
            (\<lambda>i. i\<lparr>iv_status := ''pending''\<rparr>) ivs)"

definition mark_consumed_org :: "(string \<Rightarrow> string) \<Rightarrow> string \<Rightarrow> int \<Rightarrow> Invite list \<Rightarrow> Invite list" where
  "mark_consumed_org sha256 raw_token org_id ivs =
     fst (update_where (\<lambda>i. iv_token_hash i = sha256 raw_token) (\<lambda>i. i\<lparr>iv_consumed_org_id := Some org_id\<rparr>) ivs)"

definition revoke :: "int \<Rightarrow> Invite list \<Rightarrow> Invite list" where
  "revoke invite_id ivs = fst (update_where (\<lambda>i. iv_invite_id i = invite_id) (\<lambda>i. i\<lparr>iv_status := ''revoked''\<rparr>) ivs)"

end
