(* ===== verification/Tenants.thy ===== *)
theory Tenants
  imports Gates Workforce GlChart
begin

text \<open>
  \<^verbatim>\<open>usali/signup_api.py\<close>, \<^verbatim>\<open>usali/provisioning.py\<close>, \<^verbatim>\<open>usali/pms_interest.py\<close> and \<^verbatim>\<open>create_first_property\<close> of
  \<^verbatim>\<open>usali/mapping/property_registry.py\<close>: from a request for an invite to a tenant with an administrator, a chart and a first property.
  The identity server is a parameter; the class \<^verbatim>\<open>InMemoryKeycloakAdmin\<close> is an instance of it.  Mail is sent by a service: whether a
  send raises is an argument, its text is left out.
\<close>

section \<open>The identity server, with its organizations\<close>

record 'kc TenantAdmin = "'kc KeycloakAdmin" +
  kc_find_user_by_email :: "string \<Rightarrow> 'kc \<Rightarrow> (string \<times> string) option res"
  kc_find_organization_by_alias :: "string \<Rightarrow> 'kc \<Rightarrow> string option res"
  kc_create_organization :: "string \<Rightarrow> string \<Rightarrow> 'kc \<Rightarrow> 'kc \<times> string res"
  kc_add_member :: "string \<Rightarrow> string \<Rightarrow> 'kc \<Rightarrow> 'kc \<times> unit res"
  kc_set_password :: "string \<Rightarrow> string \<Rightarrow> 'kc \<Rightarrow> 'kc \<times> unit res"

record KcOrg =
  ko_name :: string
  ko_alias :: string
  ko_members :: "string list"

text \<open>A permanent password, with the required actions cleared and the address verified, is one entry of \<open>km_passwords\<close>.\<close>

record KcMemory =
  km_users :: "(string, KcUser) dict \<times> int"
  km_organizations :: "(string, KcOrg) dict"
  km_org_counter :: int
  km_passwords :: "(string, string) dict"

definition mk_find_organization_by_alias :: "string \<Rightarrow> KcMemory \<Rightarrow> string option" where
  "mk_find_organization_by_alias alias w = map_option fst (find (\<lambda>(_, o'). ko_alias o' = alias) (km_organizations w))"

definition mk_create_organization :: "string \<Rightarrow> string \<Rightarrow> KcMemory \<Rightarrow> KcMemory \<times> string res" where
  "mk_create_organization name alias w =
    (if mk_find_organization_by_alias alias w \<noteq> None then (w, Inl KeycloakAdminError)
     else
       let n = km_org_counter w + 1; org_id = ''kc-org-'' @ alias @ ''-'' @ str_int n
       in (w\<lparr>km_org_counter := n, km_organizations := AList.update org_id \<lparr>ko_name = name, ko_alias = alias, ko_members = []\<rparr> (km_organizations w)\<rparr>,
           Inr org_id))"

definition mk_add_member :: "string \<Rightarrow> string \<Rightarrow> KcMemory \<Rightarrow> KcMemory \<times> unit res" where
  "mk_add_member org_id subject w =
    (case map_of (km_organizations w) org_id of
       None \<Rightarrow> (w, Inl KeycloakAdminError)
     | Some g \<Rightarrow> (w\<lparr>km_organizations := AList.update org_id (g\<lparr>ko_members := List.insert subject (ko_members g)\<rparr>) (km_organizations w)\<rparr>, Inr ()))"

definition mk_set_password :: "string \<Rightarrow> string \<Rightarrow> KcMemory \<Rightarrow> KcMemory \<times> unit res" where
  "mk_set_password subject password w =
    (if map_of (fst (km_users w)) subject = None then (w, Inl KeycloakAdminError)
     else (w\<lparr>km_passwords := AList.update subject password (km_passwords w)\<rparr>, Inr ()))"

definition on_users :: "((string, KcUser) dict \<times> int \<Rightarrow> ((string, KcUser) dict \<times> int) \<times> 'a) \<Rightarrow> KcMemory \<Rightarrow> KcMemory \<times> 'a" where
  "on_users f w = (let (u, r) = f (km_users w) in (w\<lparr>km_users := u\<rparr>, r))"

definition memory_tenants :: "KcMemory TenantAdmin" where
  "memory_tenants = \<lparr>kc_find_user_by_username = \<lambda>u w. Inr (mk_find_user_by_username u (km_users w)),
     kc_create_user = \<lambda>u e n rs. on_users (mk_create_user u e n rs), kc_assign_realm_roles = \<lambda>i rs. on_users (mk_assign_realm_roles i rs),
     kc_disable_user = \<lambda>i. on_users (mk_disable_user i),
     kc_find_user_by_email = \<lambda>e w. Inr (mk_find_user_by_email e (km_users w)),
     kc_find_organization_by_alias = \<lambda>a w. Inr (mk_find_organization_by_alias a w), kc_create_organization = mk_create_organization,
     kc_add_member = mk_add_member, kc_set_password = mk_set_password\<rparr>"

text \<open>A call on the server and what follows it when it does not raise.\<close>

definition kc_bind :: "'kc \<times> 'a res \<Rightarrow> ('kc \<Rightarrow> 'a \<Rightarrow> 'kc \<times> 'b res) \<Rightarrow> 'kc \<times> 'b res" where
  "kc_bind c f = (case c of (w, Inl e) \<Rightarrow> (w, Inl e) | (w, Inr x) \<Rightarrow> f w x)"

section \<open>Tenants\<close>

record Organization =
  og_org_id :: int
  og_name :: string
  og_kc_org_alias :: "string option"

record TenantGrant =
  tg_org_id :: int
  tg_keycloak_subject :: string
  tg_role :: string
  tg_property_id :: "string option"
  tg_department_id :: "int option"

record TenantProperty =
  tp_property_id :: string
  tp_org_id :: int
  tp_name :: string
  tp_pms_source :: string
  tp_wage_jurisdiction :: "string option"
  tp_timezone :: "string option"

record DetectionAlias =
  da_org_id :: int
  da_property_id :: string
  da_pms_source :: string
  da_match_phrase :: string

record PmsInterestRequest =
  pq_org_alias :: string
  pq_email :: string
  pq_raw_pms :: string
  pq_normalized_pms :: string

record tenant_db =
  accounts_db :: db
  organizations :: "Organization list"
  tenant_grants :: "TenantGrant list"
  tenant_properties :: "TenantProperty list"
  detection_aliases :: "DetectionAlias list"
  pms_requests :: "PmsInterestRequest list"
  invites :: "Invite list"
  otp_challenges :: "OtpChallenge list"

record ProvisionResult =
  pn_org_id :: int
  pn_kc_org_id :: string
  pn_admin_subject :: string

definition ORG_ADMIN :: string where "ORG_ADMIN = ''org_admin''"

text \<open>The first administrator: the account that holds the invited address, or a new one.\<close>

definition first_admin :: "'kc TenantAdmin \<Rightarrow> string \<Rightarrow> string \<Rightarrow> string \<Rightarrow> 'kc \<Rightarrow> 'kc \<times> string res" where
  "first_admin kc username email full_name w =
     kc_bind (w, kc_find_user_by_email kc email w) (\<lambda>w existing.
       case existing of
         Some (subject, _) \<Rightarrow> kc_bind (kc_assign_realm_roles kc subject [ORG_ADMIN] w) (\<lambda>w _. (w, Inr subject))
       | None \<Rightarrow>
           kc_bind (w, kc_find_user_by_username kc username w) (\<lambda>w clash.
             if clash \<noteq> None then (w, Inl KeycloakAdminConflict) else kc_create_user kc username email full_name [ORG_ADMIN] w))"

text \<open>The organization row and the grant, found or created; a flush checks the two unique columns.\<close>

definition tenant_row :: "string \<Rightarrow> string \<Rightarrow> tenant_db \<Rightarrow> (tenant_db \<times> int) res" where
  "tenant_row org_name org_alias s =
     bindE (scalar_one_or_none (filter (\<lambda>g. og_kc_org_alias g = Some org_alias) (organizations s))) (\<lambda>org.
       case org of
         Some g \<Rightarrow> Inr (s, og_org_id g)
       | None \<Rightarrow>
           if org_name \<in> og_name ` set (organizations s) then Inl IntegrityError
           else
             let org_id = next_id (map og_org_id (organizations s))
             in Inr (s\<lparr>organizations := organizations s @ [\<lparr>og_org_id = org_id, og_name = org_name, og_kc_org_alias = Some org_alias\<rparr>]\<rparr>, org_id))"

definition admin_grant :: "int \<Rightarrow> string \<Rightarrow> tenant_db \<Rightarrow> tenant_db res" where
  "admin_grant org_id subject s =
     bindE (scalar_one_or_none (filter (\<lambda>g. tg_org_id g = org_id \<and> tg_keycloak_subject g = subject \<and> tg_role g = ORG_ADMIN \<and> tg_property_id g = None)
        (tenant_grants s))) (\<lambda>existing_grant.
       Inr (if existing_grant = None
            then s\<lparr>tenant_grants := tenant_grants s @ [\<lparr>tg_org_id = org_id, tg_keycloak_subject = subject, tg_role = ORG_ADMIN,
                                                         tg_property_id = None, tg_department_id = None\<rparr>]\<rparr>
            else s))"

definition provision_tenant ::
  "'kc TenantAdmin \<Rightarrow> TemplateAccount list \<Rightarrow> bool \<Rightarrow> string \<Rightarrow> string \<Rightarrow> string \<Rightarrow> string \<Rightarrow> string \<Rightarrow> string option
   \<Rightarrow> 'kc \<Rightarrow> tenant_db \<Rightarrow> 'kc \<times> (tenant_db \<times> ProvisionResult) res" where
  "provision_tenant kc template instrumented org_name org_alias admin_username admin_email admin_full_name password w s =
    (if instrumented then (w, Inl ValueError)
     else
       kc_bind (w, kc_find_organization_by_alias kc org_alias w) (\<lambda>w found.
       kc_bind (case found of None \<Rightarrow> kc_create_organization kc org_name org_alias w | Some i \<Rightarrow> (w, Inr i)) (\<lambda>w kc_org_id.
       kc_bind (first_admin kc admin_username admin_email admin_full_name w) (\<lambda>w admin_subject.
       kc_bind (kc_add_member kc kc_org_id admin_subject w) (\<lambda>w _.
       kc_bind (case password of None \<Rightarrow> (w, Inr ()) | Some pw \<Rightarrow> kc_set_password kc admin_subject pw w) (\<lambda>w _.
         (w, bindE (tenant_row org_name org_alias s) (\<lambda>(s1, org_id).
             bindE (admin_grant org_id admin_subject s1) (\<lambda>s2.
             bindE (seed_chart (accounts_db s2) org_id template) (\<lambda>(c, _).
               Inr (s2\<lparr>accounts_db := c\<rparr>,
                    \<lparr>pn_org_id = org_id, pn_kc_org_id = kc_org_id, pn_admin_subject = admin_subject\<rparr>)))))))))))"

section \<open>The first property\<close>

definition is_slug_char :: "char \<Rightarrow> bool" where
  "is_slug_char c \<longleftrightarrow> (let n = (of_char c :: nat) in 97 \<le> n \<and> n \<le> 122 \<or> 48 \<le> n \<and> n \<le> 57)"

text \<open>\<^verbatim>\<open>re.sub(r"[^a-z0-9]+", "-", name.lower())\<close>: one dash for a run.\<close>

fun dash_runs :: "bool \<Rightarrow> string \<Rightarrow> string" where
  "dash_runs in_run [] = []"
| "dash_runs in_run (c # cs) =
    (if is_slug_char c then c # dash_runs False cs else if in_run then dash_runs True cs else CHR ''-'' # dash_runs True cs)"

definition slugify :: "string \<Rightarrow> string" where
  "slugify name =
    (let slug = rev (dropWhile (\<lambda>c. c = CHR ''-'') (rev (dropWhile (\<lambda>c. c = CHR ''-'') (dash_runs False (lower name)))))
     in take 40 (if slug = [] then ''property'' else slug))"

definition upper :: "string \<Rightarrow> string" where
  "upper s = map (\<lambda>c. let n = (of_char c :: nat) in if 97 \<le> n \<and> n \<le> 122 then char_of (n - 32) else c) s"

text \<open>\<^verbatim>\<open>draws\<close> are the five values of \<^verbatim>\<open>secrets.token_hex(2)\<close>.\<close>

definition create_first_property ::
  "string list \<Rightarrow> int \<Rightarrow> string \<Rightarrow> string \<Rightarrow> string option \<Rightarrow> string option \<Rightarrow> tenant_db \<Rightarrow> (tenant_db \<times> string) res" where
  "create_first_property draws org_id name pms_source wage_jurisdiction timezone s =
    (let name = strip name in
     if name = [] then Inl ValueError
     else
       let source = upper pms_source; base = slugify name in
       case find (\<lambda>i. i \<notin> tp_property_id ` set (tenant_properties s)) (map (\<lambda>d. base @ ''-'' @ d) (take 5 draws)) of
         None \<Rightarrow> Inl RuntimeError
       | Some property_id \<Rightarrow>
           Inr (s\<lparr>tenant_properties := tenant_properties s @ [\<lparr>tp_property_id = property_id, tp_org_id = org_id, tp_name = name,
                     tp_pms_source = source, tp_wage_jurisdiction = wage_jurisdiction, tp_timezone = timezone\<rparr>],
                  detection_aliases := detection_aliases s @ [\<lparr>da_org_id = org_id, da_property_id = property_id, da_pms_source = source,
                     da_match_phrase = name\<rparr>]\<rparr>, property_id))"

section \<open>Interest in other systems\<close>

definition normalize_pms :: "string \<Rightarrow> string" where
  "normalize_pms raw_pms = filter is_slug_char (lower raw_pms)"

definition record_request :: "string \<Rightarrow> string \<Rightarrow> string \<Rightarrow> tenant_db \<Rightarrow> (tenant_db \<times> bool) res" where
  "record_request org_alias email raw_pms s =
     bindE (scalar_one_or_none (filter (\<lambda>q. pq_org_alias q = org_alias \<and> pq_normalized_pms q = normalize_pms raw_pms) (pms_requests s))) (\<lambda>existing.
       Inr (if existing \<noteq> None then (s, False)
            else (s\<lparr>pms_requests := pms_requests s @ [\<lparr>pq_org_alias = org_alias, pq_email = email, pq_raw_pms = raw_pms,
                                                        pq_normalized_pms = normalize_pms raw_pms\<rparr>]\<rparr>, True)))"

section \<open>The routes\<close>

record signup_app =
  limiter :: RateLimiter
  tdb :: tenant_db

definition INVITE_TTL :: int where "INVITE_TTL = 7 * 86400 * 1000000"
definition OTP_PURPOSE :: string where "OTP_PURPOSE = ''signup_email''"
definition SUPPORTED_PMS :: "string list" where "SUPPORTED_PMS = [''opera'', ''autoclerk'', ''skytouch'', ''hotelkey'']"

text \<open>\<^verbatim>\<open>_ALIAS_RE.match\<close>; the \<^verbatim>\<open>$\<close> of the pattern also matches before a newline that ends the string.\<close>

definition alias_body :: "string \<Rightarrow> bool" where
  "alias_body s \<longleftrightarrow> 2 \<le> length s \<and> length s \<le> 63 \<and> is_slug_char (hd s) \<and> list_all (\<lambda>c. is_slug_char c \<or> c = CHR ''-'') (tl s)"

definition alias_matches :: "string \<Rightarrow> bool" where
  "alias_matches s \<longleftrightarrow> alias_body s \<or> (s \<noteq> [] \<and> last s = CHR 0x0A \<and> alias_body (butlast s))"

text \<open>The outcome of the mail service is an argument: whether the send raises, or the exception it raises.  What \<open>send_otp\<close> answers is the code it mailed.  The check of the shape of an address and of the lengths of a body comes before the handlers.\<close>

definition request_invite ::
  "(string \<Rightarrow> string) \<Rightarrow> bool \<Rightarrow> string \<Rightarrow> string \<Rightarrow> rat \<Rightarrow> instant \<Rightarrow> signup_app \<Rightarrow> signup_app \<times> unit res" where
  "request_invite sha256 mail_fails body_email raw_token clock now a =
    (let email = strip body_email; (rl, ok) = allow clock (''request:'' @ lower email) (limiter a); a = a\<lparr>limiter := rl\<rparr>; s = tdb a in
     if \<not> ok then (a, Inl (HTTPException 429))
     else case create_invite sha256 email INVITE_TTL raw_token now (invites s) of
            Inl e \<Rightarrow> (a, Inl e)
          | Inr (ivs, invite) \<Rightarrow>
              if mail_fails then (a\<lparr>tdb := s\<lparr>invites := revoke (iv_invite_id invite) ivs\<rparr>\<rparr>, Inl (HTTPException 502))
              else (a\<lparr>tdb := s\<lparr>invites := ivs\<rparr>\<rparr>, Inr ()))"

definition get_invite :: "(string \<Rightarrow> string) \<Rightarrow> string \<Rightarrow> instant \<Rightarrow> tenant_db \<Rightarrow> string res" where
  "get_invite sha256 token now s =
     bindE (validate sha256 token now (invites s)) (\<lambda>invite.
       case invite of None \<Rightarrow> Inl (HTTPException 404) | Some i \<Rightarrow> Inr (iv_email i))"

definition send_otp ::
  "(string \<Rightarrow> string) \<Rightarrow> OtpService \<Rightarrow> err option \<Rightarrow> string \<Rightarrow> int \<Rightarrow> rat \<Rightarrow> instant \<Rightarrow> signup_app \<Rightarrow> signup_app \<times> string res" where
  "send_otp sha256 sv mail_raises token randbelow clock now a =
    (let (rl, ok) = allow clock (''otp:'' @ token) (limiter a); a = a\<lparr>limiter := rl\<rparr>; s = tdb a in
     if \<not> ok then (a, Inl (HTTPException 429))
     else case validate sha256 token now (invites s) of
            Inl e \<Rightarrow> (a, Inl e)
          | Inr None \<Rightarrow> (a, Inl (HTTPException 404))
          | Inr (Some i) \<Rightarrow>
              let (cs, code) = issue sha256 sv OTP_PURPOSE (iv_email i) randbelow now (otp_challenges s)
              in (a\<lparr>tdb := s\<lparr>otp_challenges := cs\<rparr>\<rparr>, case mail_raises of None \<Rightarrow> Inr code | Some e \<Rightarrow> Inl e))"

record CompleteRequest =
  cp_token :: string
  cp_otp :: string
  cp_workspace_name :: string
  cp_workspace_alias :: string
  cp_property_name :: string
  cp_pms_source :: string
  cp_pms_other_name :: "string option"
  cp_wage_jurisdiction :: string
  cp_timezone :: "string option"
  cp_password :: string

text \<open>The body as the validators leave it, or its refusal.\<close>

definition parse_complete :: "CompleteRequest \<Rightarrow> CompleteRequest res" where
  "parse_complete b =
    (let sized = (\<lambda>lo hi s. lo \<le> length s \<and> length s \<le> (hi :: nat)) in
     if sized 1 200 (cp_token b) \<and> sized 1 12 (cp_otp b) \<and> sized 1 200 (cp_workspace_name b) \<and> sized 1 63 (cp_workspace_alias b)
        \<and> sized 1 200 (cp_property_name b) \<and> cp_pms_source b \<in> set (SUPPORTED_PMS @ [''other''])
        \<and> (case cp_pms_other_name b of None \<Rightarrow> True | Some n \<Rightarrow> sized 1 60 n) \<and> sized 1 10 (cp_wage_jurisdiction b)
        \<and> (case cp_timezone b of None \<Rightarrow> True | Some z \<Rightarrow> sized 1 50 z) \<and> sized 8 200 (cp_password b)
        \<and> strip (cp_property_name b) \<noteq> [] \<and> \<not> (cp_pms_source b = ''other'' \<and> cp_pms_other_name b = None)
     then Inr (b\<lparr>cp_property_name := strip (cp_property_name b)\<rparr>) else Inl (HTTPException 422))"

text \<open>Step 1 of \<^verbatim>\<open>complete\<close>: what is committed when it refuses, and the invited address when the claim is won.\<close>

definition complete_claim ::
  "(string \<Rightarrow> string) \<Rightarrow> OtpService \<Rightarrow> CompleteRequest \<Rightarrow> rat \<Rightarrow> instant \<Rightarrow> signup_app \<Rightarrow> signup_app \<times> string res" where
  "complete_claim sha256 sv b clock now a =
    (let (rl, ok) = allow clock (''complete:'' @ cp_token b) (limiter a); a = a\<lparr>limiter := rl\<rparr>; s = tdb a in
     if \<not> ok then (a, Inl (HTTPException 429))
     else case validate sha256 (cp_token b) now (invites s) of
            Inl e \<Rightarrow> (a, Inl e)
          | Inr None \<Rightarrow> (a, Inl (HTTPException 404))
          | Inr (Some i) \<Rightarrow>
             (case verify sha256 sv OTP_PURPOSE (iv_email i) (cp_otp b) now (otp_challenges s) of
                Inl e \<Rightarrow> (a, Inl e)
              | Inr (cs, False) \<Rightarrow> (a\<lparr>tdb := s\<lparr>otp_challenges := cs\<rparr>\<rparr>, Inl (HTTPException 403))
              | Inr (cs, True) \<Rightarrow>
                  if \<not> alias_matches (cp_workspace_alias b) then (a, Inl (HTTPException 422))
                  else
                    let (ivs, won) = claim sha256 (cp_token b) now (invites s)
                    in (a\<lparr>tdb := s\<lparr>otp_challenges := cs, invites := ivs\<rparr>\<rparr>, if won then Inr (iv_email i) else Inl (HTTPException 404))))"

text \<open>Step 2: the provisioner's transaction.\<close>

definition complete_provision ::
  "'kc TenantAdmin \<Rightarrow> TemplateAccount list \<Rightarrow> CompleteRequest \<Rightarrow> string \<Rightarrow> 'kc \<Rightarrow> tenant_db \<Rightarrow> 'kc \<times> (tenant_db \<times> ProvisionResult) res" where
  "complete_provision kc template b email =
     provision_tenant kc template False (cp_workspace_name b) (cp_workspace_alias b) (cp_workspace_alias b) email email (Some (cp_password b))"

text \<open>Step 2b: the first property, or the interest in another system; whether the administrator is to be told.\<close>

definition complete_setup :: "string list \<Rightarrow> CompleteRequest \<Rightarrow> int \<Rightarrow> string \<Rightarrow> tenant_db \<Rightarrow> (tenant_db \<times> bool) res" where
  "complete_setup draws b org_id email s =
    (if cp_pms_source b \<in> set SUPPORTED_PMS
     then bindE (create_first_property draws org_id (cp_property_name b) (cp_pms_source b) (Some (cp_wage_jurisdiction b)) (cp_timezone b) s)
            (\<lambda>(s', _). Inr (s', False))
     else record_request (cp_workspace_alias b) email (case cp_pms_other_name b of None \<Rightarrow> [] | Some n \<Rightarrow> n) s)"

definition complete ::
  "(string \<Rightarrow> string) \<Rightarrow> OtpService \<Rightarrow> 'kc TenantAdmin \<Rightarrow> TemplateAccount list \<Rightarrow> string list \<Rightarrow> bool \<Rightarrow> err option \<Rightarrow> CompleteRequest
   \<Rightarrow> rat \<Rightarrow> instant \<Rightarrow> 'kc \<times> signup_app \<Rightarrow> ('kc \<times> signup_app) \<times> (string \<times> bool) res" where
  "complete sha256 sv kc template draws admin_email mail_raises b clock now wa =
    (let (w, a0) = wa in
     case complete_claim sha256 sv b clock now a0 of
       (a, Inl e) \<Rightarrow> ((w, a), Inl e)
     | (a, Inr email) \<Rightarrow>
        (case complete_provision kc template b email w (tdb a) of
           (w, Inl e) \<Rightarrow> ((w, a\<lparr>tdb := (tdb a)\<lparr>invites := revert_claim sha256 (cp_token b) (invites (tdb a))\<rparr>\<rparr>), Inl e)
         | (w, Inr (s, r)) \<Rightarrow>
            (case complete_setup draws b (pn_org_id r) email s of
               Inl e \<Rightarrow> ((w, a\<lparr>tdb := s\<rparr>), Inl e)
             | Inr (s, is_new) \<Rightarrow>
                if is_new \<and> admin_email \<and> mail_raises \<noteq> None then ((w, a\<lparr>tdb := s\<rparr>), Inl (the mail_raises))
                else ((w, a\<lparr>tdb := s\<lparr>invites := mark_consumed_org sha256 (cp_token b) (pn_org_id r) (invites s)\<rparr>\<rparr>),
                      Inr (cp_workspace_alias b, cp_pms_source b \<in> set SUPPORTED_PMS)))))"

section \<open>Sign-ups side by side\<close>

text \<open>
  A completion is several transactions, and other requests run between them.  A state has, beside the server and the tables, the
  completions that have won their claim and are about to provision, those whose provisioning failed and whose claim is about to be
  reverted, and those that have provisioned, with the tenant each one got.
\<close>

record 'kc signup_world =
  sw_kc :: 'kc
  sw_app :: signup_app
  sw_claimed :: "(CompleteRequest \<times> string) list"
  sw_failed :: "CompleteRequest list"
  sw_opened :: "(CompleteRequest \<times> string \<times> int) list"

definition on_invites :: "(Invite list \<Rightarrow> Invite list) \<Rightarrow> signup_app \<Rightarrow> signup_app" where
  "on_invites f a = a\<lparr>tdb := (tdb a)\<lparr>invites := f (invites (tdb a))\<rparr>\<rparr>"

inductive signup_step ::
  "(string \<Rightarrow> string) \<Rightarrow> OtpService \<Rightarrow> 'kc TenantAdmin \<Rightarrow> TemplateAccount list \<Rightarrow> 'kc signup_world \<Rightarrow> 'kc signup_world \<Rightarrow> bool"
  for sha256 sv kc template where
  requested: "request_invite sha256 mail_fails email raw clock now (sw_app z) = (a, r) \<Longrightarrow> signup_step sha256 sv kc template z (z\<lparr>sw_app := a\<rparr>)"
| code_sent: "send_otp sha256 sv mail_raises token draw clock now (sw_app z) = (a, r) \<Longrightarrow> signup_step sha256 sv kc template z (z\<lparr>sw_app := a\<rparr>)"
| refused: "complete_claim sha256 sv b clock now (sw_app z) = (a, Inl e) \<Longrightarrow> signup_step sha256 sv kc template z (z\<lparr>sw_app := a\<rparr>)"
| claimed: "complete_claim sha256 sv b clock now (sw_app z) = (a, Inr email) \<Longrightarrow>
    signup_step sha256 sv kc template z (z\<lparr>sw_app := a, sw_claimed := (b, email) # sw_claimed z\<rparr>)"
| provisioned: "(b, email) \<in> set (sw_claimed z) \<Longrightarrow> complete_provision kc template b email (sw_kc z) (tdb (sw_app z)) = (w, Inr (s, pr)) \<Longrightarrow>
    signup_step sha256 sv kc template z (z\<lparr>sw_kc := w, sw_app := (sw_app z)\<lparr>tdb := s\<rparr>, sw_claimed := remove1 (b, email) (sw_claimed z),
      sw_opened := (b, email, pn_org_id pr) # sw_opened z\<rparr>)"
| failed: "(b, email) \<in> set (sw_claimed z) \<Longrightarrow> complete_provision kc template b email (sw_kc z) (tdb (sw_app z)) = (w, Inl e) \<Longrightarrow>
    signup_step sha256 sv kc template z (z\<lparr>sw_kc := w, sw_claimed := remove1 (b, email) (sw_claimed z), sw_failed := b # sw_failed z\<rparr>)"
| reverted: "b \<in> set (sw_failed z) \<Longrightarrow>
    signup_step sha256 sv kc template z (z\<lparr>sw_app := on_invites (revert_claim sha256 (cp_token b)) (sw_app z), sw_failed := remove1 b (sw_failed z)\<rparr>)"
| set_up: "(b, email, org_id) \<in> set (sw_opened z) \<Longrightarrow> complete_setup draws b org_id email (tdb (sw_app z)) = Inr (s, is_new) \<Longrightarrow>
    signup_step sha256 sv kc template z (z\<lparr>sw_app := (sw_app z)\<lparr>tdb := s\<rparr>\<rparr>)"
| marked: "(b, email, org_id) \<in> set (sw_opened z) \<Longrightarrow>
    signup_step sha256 sv kc template z (z\<lparr>sw_app := on_invites (mark_consumed_org sha256 (cp_token b) org_id) (sw_app z)\<rparr>)"

text \<open>The digests of the tokens whose completion is past its claim.\<close>

definition past_claim :: "(string \<Rightarrow> string) \<Rightarrow> 'kc signup_world \<Rightarrow> string multiset" where
  "past_claim sha256 z = image_mset (\<lambda>b. sha256 (cp_token b)) (mset (map fst (sw_claimed z)) + mset (sw_failed z) + mset (map fst (sw_opened z)))"

definition used_up :: "Invite list \<Rightarrow> string \<Rightarrow> bool" where
  "used_up ivs h \<longleftrightarrow> (\<exists>i \<in> set ivs. iv_token_hash i = h \<and> iv_status i \<noteq> ''pending'')"

definition signup_inv :: "(string \<Rightarrow> string) \<Rightarrow> 'kc signup_world \<Rightarrow> bool" where
  "signup_inv sha256 z \<longleftrightarrow> distinct (map iv_token_hash (invites (tdb (sw_app z))))
     \<and> (\<forall>h. count (past_claim sha256 z) h \<le> 1) \<and> (\<forall>h \<in># past_claim sha256 z. used_up (invites (tdb (sw_app z))) h)"

lemma update_where_hashes: "(\<And>i. iv_token_hash (f i) = iv_token_hash i) \<Longrightarrow> map iv_token_hash (fst (update_where P f ivs)) = map iv_token_hash ivs"
  by (simp add: update_where_def)

lemma update_where_used_up:
  "used_up ivs h \<Longrightarrow> (\<And>i. iv_token_hash (f i) = iv_token_hash i) \<Longrightarrow> (\<And>i. P i \<Longrightarrow> iv_token_hash i = h \<Longrightarrow> iv_status i \<noteq> ''pending'' \<Longrightarrow> iv_status (f i) \<noteq> ''pending'') \<Longrightarrow>
   used_up (fst (update_where P f ivs)) h"
proof -
  assume f: "\<And>i. iv_token_hash (f i) = iv_token_hash i" "\<And>i. P i \<Longrightarrow> iv_token_hash i = h \<Longrightarrow> iv_status i \<noteq> ''pending'' \<Longrightarrow> iv_status (f i) \<noteq> ''pending''"
  assume "used_up ivs h"
  then obtain i where i: "i \<in> set ivs" "iv_token_hash i = h" "iv_status i \<noteq> ''pending''" by (auto simp: used_up_def)
  then have "(if P i then f i else i) \<in> set (fst (update_where P f ivs))" by (simp add: update_where_def)
  moreover have "iv_token_hash (if P i then f i else i) = h \<and> iv_status (if P i then f i else i) \<noteq> ''pending''" using i f by simp
  ultimately show ?thesis unfolding used_up_def by blast
qed

lemma revoke_used_up: "used_up ivs h \<Longrightarrow> used_up (revoke i ivs) h"
  unfolding revoke_def by (rule update_where_used_up) auto

lemma mark_used_up: "used_up ivs h \<Longrightarrow> used_up (mark_consumed_org sha256 t g ivs) h"
  unfolding mark_consumed_org_def by (rule update_where_used_up) auto

lemma revert_used_up: "used_up ivs h \<Longrightarrow> h \<noteq> sha256 t \<Longrightarrow> used_up (revert_claim sha256 t ivs) h"
  unfolding revert_claim_def by (rule update_where_used_up) auto

lemma invite_hashes [simp]:
  "map iv_token_hash (revoke i ivs) = map iv_token_hash ivs" "map iv_token_hash (mark_consumed_org sha256 t g ivs) = map iv_token_hash ivs"
  "map iv_token_hash (revert_claim sha256 t ivs) = map iv_token_hash ivs" "map iv_token_hash (fst (claim sha256 t now ivs)) = map iv_token_hash ivs"
  by (simp_all add: revoke_def mark_consumed_org_def revert_claim_def claim_def update_where_hashes split: prod.split)
    (simp add: update_where_def)

lemma claim_used_up: "used_up ivs h \<Longrightarrow> used_up (fst (claim sha256 t now ivs)) h"
proof -
  assume "used_up ivs h"
  then have "used_up (fst (update_where (\<lambda>i. iv_token_hash i = sha256 t \<and> iv_status i = ''pending'' \<and> iv_expires_at i > now)
      (\<lambda>i. i\<lparr>iv_status := ''consumed''\<rparr>) ivs)) h" by (rule update_where_used_up) auto
  then show ?thesis by (simp add: claim_def case_prod_beta)
qed

text \<open>A claim is won only on a pending row, and leaves it used up.\<close>

lemma claim_won:
  assumes "claim sha256 t now ivs = (ivs', True)" "distinct (map iv_token_hash ivs)"
  shows "\<not> used_up ivs (sha256 t)" "used_up ivs' (sha256 t)"
proof -
  have "length (filter (\<lambda>i. iv_token_hash i = sha256 t \<and> iv_status i = ''pending'' \<and> iv_expires_at i > now) ivs) = 1"
    and ivs': "ivs' = map (\<lambda>i. if iv_token_hash i = sha256 t \<and> iv_status i = ''pending'' \<and> iv_expires_at i > now then i\<lparr>iv_status := ''consumed''\<rparr> else i) ivs"
    using assms(1) by (auto simp: claim_def update_where_def)
  then obtain i where i: "i \<in> set ivs" "iv_token_hash i = sha256 t" "iv_status i = ''pending''" "iv_expires_at i > now"
    by (auto simp: length_Suc_conv dest!: filter_eq_ConsD) blast
  have "j = i" if "j \<in> set ivs" "iv_token_hash j = sha256 t" for j
  proof -
    have "inj_on iv_token_hash (set ivs)" using assms(2) by (simp add: distinct_map)
    then show ?thesis by (rule inj_onD) (use i that in simp_all)
  qed
  then show "\<not> used_up ivs (sha256 t)" using i(3) by (auto simp: used_up_def)
  have "i\<lparr>iv_status := ''consumed''\<rparr> \<in> set ivs'" using i by (auto simp: ivs' intro!: image_eqI [of _ _ i])
  then show "used_up ivs' (sha256 t)" using i(2) unfolding used_up_def by (intro bexI) simp_all
qed

text \<open>What each request leaves of the invites.\<close>

definition keeps_invites :: "Invite list \<Rightarrow> Invite list \<Rightarrow> bool" where
  "keeps_invites ivs ivs' \<longleftrightarrow> (distinct (map iv_token_hash ivs) \<longrightarrow> distinct (map iv_token_hash ivs')) \<and> (\<forall>h. used_up ivs h \<longrightarrow> used_up ivs' h)"

lemma keeps_refl [simp]: "keeps_invites ivs ivs"
  by (simp add: keeps_invites_def)

lemma claim_keeps:
  assumes "claim sha256 t now ivs = (ivs', won)"
  shows "keeps_invites ivs ivs'"
proof -
  have "ivs' = fst (claim sha256 t now ivs)" by (simp add: assms)
  then show ?thesis using claim_used_up by (simp add: keeps_invites_def)
qed

lemma request_keeps:
  assumes "request_invite sha256 f email raw clock now a = (a', r)"
  shows "keeps_invites (invites (tdb a)) (invites (tdb a'))"
proof -
  have new: "keeps_invites ivs ivs'" if "create_invite sha256 e ttl raw t ivs = Inr (ivs', i)" for e ttl t ivs ivs' i
    using that by (auto simp: create_invite_def Let_def keeps_invites_def used_up_def split: if_splits)
  have "keeps_invites ivs (revoke i ivs')" if "keeps_invites ivs ivs'" for ivs ivs' i
    using that revoke_used_up by (auto simp: keeps_invites_def)
  then show ?thesis using assms new
    by (fastforce simp: request_invite_def Let_def split: prod.splits if_splits sum.splits)
qed

lemma send_otp_keeps: "send_otp sha256 sv m token d clock now a = (a', r) \<Longrightarrow> invites (tdb a') = invites (tdb a)"
  by (auto simp: send_otp_def Let_def split: prod.splits if_splits sum.splits option.splits)

lemma complete_claim_cases:
  assumes "complete_claim sha256 sv b clock now a = (a', r)"
  shows "(\<exists>won. claim sha256 (cp_token b) now (invites (tdb a)) = (invites (tdb a'), won) \<and> ((\<exists>email. r = Inr email) \<longleftrightarrow> won))
    \<or> invites (tdb a') = invites (tdb a) \<and> (\<exists>e. r = Inl e)"
  using assms
  by (auto simp: complete_claim_def Let_def split: prod.splits if_splits sum.splits option.splits bool.splits)

lemma provision_invites:
  "provision_tenant kc template ins nm al un em fn pw w s = (w', Inr (s', pr)) \<Longrightarrow> invites s' = invites s"
  by (auto simp: provision_tenant_def kc_bind_def tenant_row_def admin_grant_def inr Let_def split: prod.splits sum.splits if_splits option.splits)

lemma setup_invites: "complete_setup draws b g email s = Inr (s', n) \<Longrightarrow> invites s' = invites s"
  by (auto simp: complete_setup_def create_first_property_def record_request_def inr Let_def split: if_splits option.splits)

lemma past_claim_step:
  assumes "signup_inv sha256 z" "keeps_invites (invites (tdb (sw_app z))) (invites (tdb (sw_app z')))" "past_claim sha256 z' \<subseteq># past_claim sha256 z"
  shows "signup_inv sha256 z'"
proof -
  have "count (past_claim sha256 z') h \<le> 1" for h
    using assms(1) mset_subset_eq_count [OF assms(3), of h] by (auto simp: signup_inv_def intro: order_trans)
  then show ?thesis using assms set_mset_mono [OF assms(3)] by (auto simp: signup_inv_def keeps_invites_def)
qed

lemma moved_on: "(b, email) \<in> set cl \<Longrightarrow> add_mset b (mset (map fst (remove1 (b, email) cl))) = mset (map fst cl)"
proof -
  assume m: "(b, email) \<in> set cl"
  then have "mset cl = add_mset (b, email) (mset (remove1 (b, email) cl))" by simp
  then have "image_mset fst (mset cl) = add_mset b (image_mset fst (mset (remove1 (b, email) cl)))" by (metis fst_conv image_mset_add_mset)
  then show ?thesis by simp
qed

lemma moved_on_image:
  "(b, email) \<in> set cl \<Longrightarrow> image_mset f (mset (map fst cl)) = add_mset (f b) (image_mset f (mset (map fst (remove1 (b, email) cl))))"
  using moved_on [of b email cl] by (metis image_mset_add_mset)

lemma signup_step_inv:
  assumes "signup_step sha256 sv kc template z z'" "signup_inv sha256 z"
  shows "signup_inv sha256 z'"
  using assms(1)
proof cases
  case (requested f email raw clock now a r)
  show ?thesis by (rule past_claim_step [OF assms(2)]) (use request_keeps [OF requested(2)] in \<open>simp_all add: requested(1) past_claim_def\<close>)
next
  case (code_sent f token d clock now a r)
  show ?thesis by (rule past_claim_step [OF assms(2)]) (simp_all add: code_sent(1) past_claim_def send_otp_keeps [OF code_sent(2)])
next
  case (refused b clock now a e)
  have "keeps_invites (invites (tdb (sw_app z))) (invites (tdb a))"
    using complete_claim_cases [OF refused(2)] claim_keeps by auto
  then show ?thesis by (intro past_claim_step [OF assms(2)]) (simp_all add: refused(1) past_claim_def)
next
  case (claimed b clock now a email)
  let ?h = "sha256 (cp_token b)" and ?ivs = "invites (tdb (sw_app z))"
  have c: "claim sha256 (cp_token b) now ?ivs = (invites (tdb a), True)" using complete_claim_cases [OF claimed(2)] by auto
  have d: "distinct (map iv_token_hash ?ivs)" using assms(2) by (simp add: signup_inv_def)
  note won = claim_won [OF c d]
  have past: "past_claim sha256 z' = add_mset ?h (past_claim sha256 z)" by (simp add: claimed(1) past_claim_def)
  have "?h \<notin># past_claim sha256 z" using won(1) assms(2) by (auto simp: signup_inv_def)
  then have "count (past_claim sha256 z') h \<le> 1" for h using assms(2) by (auto simp: past signup_inv_def not_in_iff)
  moreover have "keeps_invites ?ivs (invites (tdb a))" using claim_keeps [OF c] .
  moreover have "sw_app z' = a" by (simp add: claimed(1))
  ultimately show ?thesis using assms(2) won(2) d by (auto simp: signup_inv_def past keeps_invites_def)
next
  case (provisioned b email w s pr)
  have "past_claim sha256 z' = past_claim sha256 z"
    by (simp add: provisioned(1) past_claim_def moved_on_image [OF provisioned(2)] del: mset_map mset_remove1)
  moreover have "invites s = invites (tdb (sw_app z))" using provision_invites provisioned(3) by (auto simp: complete_provision_def)
  ultimately show ?thesis by (intro past_claim_step [OF assms(2)]) (simp_all add: provisioned(1))
next
  case (failed b email w e)
  have "past_claim sha256 z' = past_claim sha256 z"
    by (simp add: failed(1) past_claim_def moved_on_image [OF failed(2)] del: mset_map mset_remove1)
  then show ?thesis by (intro past_claim_step [OF assms(2)]) (simp_all add: failed(1))
next
  case (reverted b)
  let ?h = "sha256 (cp_token b)"
  have "mset (sw_failed z) = add_mset b (mset (remove1 b (sw_failed z)))" using reverted(2) by simp
  then have past: "past_claim sha256 z = add_mset ?h (past_claim sha256 z')" by (simp add: reverted(1) past_claim_def del: mset_remove1)
  have count: "count (past_claim sha256 z) h \<le> 1" for h using assms(2) by (simp add: signup_inv_def)
  from count [of ?h] have "?h \<notin># past_claim sha256 z'" by (simp add: past not_in_iff)
  moreover have "count (past_claim sha256 z') h \<le> 1" for h using count [of h] by (simp add: past split: if_splits)
  moreover have "invites (tdb (sw_app z')) = revert_claim sha256 (cp_token b) (invites (tdb (sw_app z)))" by (simp add: reverted(1) on_invites_def)
  moreover have "used_up (revert_claim sha256 (cp_token b) (invites (tdb (sw_app z)))) h" if "h \<in># past_claim sha256 z'" for h
  proof (rule revert_used_up)
    show "used_up (invites (tdb (sw_app z))) h" using assms(2) that by (simp add: signup_inv_def past)
    show "h \<noteq> sha256 (cp_token b)" using that calculation(1) by blast
  qed
  ultimately show ?thesis using assms(2) by (simp add: signup_inv_def)
next
  case (set_up b email g draws s n)
  show ?thesis by (rule past_claim_step [OF assms(2)]) (simp_all add: set_up(1) past_claim_def setup_invites [OF set_up(3)])
next
  case (marked b email g)
  have "keeps_invites ivs (mark_consumed_org sha256 t g ivs)" for t g ivs using mark_used_up by (auto simp: keeps_invites_def)
  then show ?thesis by (intro past_claim_step [OF assms(2)]) (simp_all add: marked(1) past_claim_def on_invites_def)
qed

text \<open>
  One invite is one tenant.  Whatever requests run side by side, from a state with distinct tokens and no completion under way, at most
  one completion of a token is past its claim at any time, and while one is, no invite of that token is pending: so at most one
  completion of a token ever provisions a tenant, a failed one can be retried, and a revert never reopens an invite that has one.
\<close>

theorem one_invite_one_tenant:
  assumes "(signup_step sha256 sv kc template)\<^sup>*\<^sup>* z z'" "distinct (map iv_token_hash (invites (tdb (sw_app z))))"
    and "sw_claimed z = []" "sw_failed z = []" "sw_opened z = []"
  shows "length (filter (\<lambda>(b, _). sha256 (cp_token b) = h) (sw_claimed z')) + length (filter (\<lambda>b. sha256 (cp_token b) = h) (sw_failed z'))
      + length (filter (\<lambda>(b, _). sha256 (cp_token b) = h) (sw_opened z')) \<le> 1
    \<and> ((b, email, org_id) \<in> set (sw_opened z') \<longrightarrow> (\<forall>i \<in> set (invites (tdb (sw_app z'))). iv_token_hash i = sha256 (cp_token b) \<longrightarrow> iv_status i \<noteq> ''pending''))"
proof -
  have "signup_inv sha256 z" using assms(2-5) by (simp add: signup_inv_def past_claim_def)
  with assms(1) have inv: "signup_inv sha256 z'" by (induction rule: rtranclp_induct) (auto intro: signup_step_inv)
  have count: "count (image_mset f (mset xs)) h = length (filter (\<lambda>x. f x = h) xs)" for f :: "'x \<Rightarrow> string" and xs
    by (induction xs) auto
  have "count (past_claim sha256 z') h = length (filter (\<lambda>(b, _). sha256 (cp_token b) = h) (sw_claimed z'))
      + length (filter (\<lambda>b. sha256 (cp_token b) = h) (sw_failed z')) + length (filter (\<lambda>(b, _). sha256 (cp_token b) = h) (sw_opened z'))"
    by (simp add: past_claim_def image_mset.compositionality comp_def count case_prod_unfold)
  moreover have "count (past_claim sha256 z') h \<le> 1" using inv by (simp add: signup_inv_def)
  moreover have "iv_status i \<noteq> ''pending''"
    if o': "(b, email, org_id) \<in> set (sw_opened z')" and i: "i \<in> set (invites (tdb (sw_app z')))" "iv_token_hash i = sha256 (cp_token b)" for i
  proof -
    have "b \<in> fst ` set (sw_opened z')" using o' by (metis fst_conv image_eqI)
    then have "sha256 (cp_token b) \<in># past_claim sha256 z'" by (auto simp: past_claim_def)
    then have "used_up (invites (tdb (sw_app z'))) (sha256 (cp_token b))" using inv by (simp add: signup_inv_def)
    then obtain j where j: "j \<in> set (invites (tdb (sw_app z')))" "iv_token_hash j = sha256 (cp_token b)" "iv_status j \<noteq> ''pending''"
      by (auto simp: used_up_def)
    have "inj_on iv_token_hash (set (invites (tdb (sw_app z'))))" using inv by (simp add: signup_inv_def distinct_map)
    then have "i = j" by (rule inj_onD) (use i j in simp_all)
    then show ?thesis using j(3) by simp
  qed
  ultimately show ?thesis by auto
qed

lemma scalar_member: "scalar_one_or_none xs = Inr r \<Longrightarrow> x \<in> set xs \<Longrightarrow> r = Some x"
  by (auto simp: scalar_one_or_none_def split: list.splits)

lemma scalar_in: "scalar_one_or_none xs = Inr (Some x) \<Longrightarrow> x \<in> set xs"
  by (auto simp: scalar_one_or_none_def split: list.splits)

text \<open>
  The alias decides the tenant.  Provisioning under an alias some organization has adds no organization: it makes the account that
  holds the invited address, or a new one, an administrator of the one that is there, whoever its administrators are.  Nothing
  asks whether that account belongs to it.
\<close>

theorem alias_adopts_organization:
  assumes "provision_tenant kc template ins nm al un em fn pw w s = (w', Inr (s', r))" "g \<in> set (organizations s)" "og_kc_org_alias g = Some al"
  shows "organizations s' = organizations s \<and> pn_org_id r = og_org_id g \<and> set (tenant_grants s) \<subseteq> set (tenant_grants s')
    \<and> (\<exists>t \<in> set (tenant_grants s'). tg_org_id t = og_org_id g \<and> tg_keycloak_subject t = pn_admin_subject r \<and> tg_role t = ''org_admin''
         \<and> tg_property_id t = None)"
proof -
  obtain i subject s1 gid s2 c n where st: "tenant_row nm al s = Inr (s1, gid)" "admin_grant gid subject s1 = Inr s2"
    "seed_chart (accounts_db s2) gid template = Inr (c, n)" "s' = s2\<lparr>accounts_db := c\<rparr>"
    "r = \<lparr>pn_org_id = gid, pn_kc_org_id = i, pn_admin_subject = subject\<rparr>"
    using assms(1) by (auto simp: provision_tenant_def kc_bind_def inr split: prod.splits sum.splits if_splits)
  obtain found where f: "scalar_one_or_none (filter (\<lambda>g. og_kc_org_alias g = Some al) (organizations s)) = Inr found"
    using st(1) by (auto simp: tenant_row_def inr)
  have "found = Some g"
  proof -
    have "g \<in> set (filter (\<lambda>g. og_kc_org_alias g = Some al) (organizations s))" using assms(2,3) by simp
    then show ?thesis by (rule scalar_member [OF f])
  qed
  then have s1: "s1 = s" "gid = og_org_id g" using st(1) f by (auto simp: tenant_row_def)
  obtain old where old: "scalar_one_or_none (filter (\<lambda>t. tg_org_id t = gid \<and> tg_keycloak_subject t = subject \<and> tg_role t = ORG_ADMIN \<and> tg_property_id t = None)
        (tenant_grants s)) = Inr old"
    using st(2) by (auto simp: admin_grant_def inr s1(1))
  have "set (tenant_grants s) \<subseteq> set (tenant_grants s2) \<and> organizations s2 = organizations s
      \<and> (\<exists>t \<in> set (tenant_grants s2). tg_org_id t = gid \<and> tg_keycloak_subject t = subject \<and> tg_role t = ORG_ADMIN \<and> tg_property_id t = None)"
  proof (cases old)
    case None
    then show ?thesis using st(2) old s1(1) by (auto simp: admin_grant_def)
  next
    case (Some t)
    then have "t \<in> set (filter (\<lambda>t. tg_org_id t = gid \<and> tg_keycloak_subject t = subject \<and> tg_role t = ORG_ADMIN \<and> tg_property_id t = None) (tenant_grants s))"
      using old by (intro scalar_in) simp
    then show ?thesis using st(2) old Some s1(1) by (auto simp: admin_grant_def)
  qed
  then show ?thesis using st(4,5) s1(2) by (simp add: ORG_ADMIN_def)
qed

text \<open>
  Two sign-ups under one alias: the first owner, whose account has another name, and a stranger with an account of their own.  Both
  end as administrators of organization 1.
\<close>

definition two_owners :: KcMemory where
  "two_owners = \<lparr>km_users = ([(''kc-ann-1'', \<lparr>ku_username = ''ann'', ku_email = ''ann@x.io'', ku_realm_roles = [], ku_enabled = True\<rparr>),
       (''kc-bob-2'', \<lparr>ku_username = ''bob'', ku_email = ''bob@y.io'', ku_realm_roles = [], ku_enabled = True\<rparr>)], 2),
     km_organizations = [], km_org_counter = 0, km_passwords = []\<rparr>"

definition no_tenants :: tenant_db where
  "no_tenants = \<lparr>accounts_db = empty_db, organizations = [], tenant_grants = [], tenant_properties = [], detection_aliases = [],
     pms_requests = [], invites = [], otp_challenges = []\<rparr>"

lemma alias_taken_over:
  "case provision_tenant memory_tenants [] False ''Ann Hotels'' ''ann'' ''ann'' ''ann@x.io'' ''Ann'' None two_owners no_tenants of
     (_, Inl _) \<Rightarrow> False
   | (w, Inr (s, _)) \<Rightarrow>
      (case provision_tenant memory_tenants [] False ''Bob Hotels'' ''ann'' ''ann'' ''bob@y.io'' ''Bob'' None w s of
         (_, Inl _) \<Rightarrow> False
       | (_, Inr (s', r)) \<Rightarrow> pn_org_id r = 1 \<and> length (organizations s') = 1
           \<and> map (\<lambda>t. (tg_org_id t, tg_keycloak_subject t)) (tenant_grants s') = [(1, ''kc-ann-1''), (1, ''kc-bob-2'')])"
  by code_simp

end
